(* ===== verification/Prelude.thy ===== *)
theory Prelude
  imports Main "HOL-Library.Word"
begin

text \<open>
  Shared vocabulary of the LinkAlive development: JavaScript strings, numbers and dates as
  the TypeScript sources use them, rows of database tables as lists of records with the
  bulk operations of the Prisma client (\<open>updateMany\<close>, \<open>count\<close>, \<open>findFirst\<close>), the collections
  of rewrite rules the component theories extend, and one locale for state machines whose
  every step keeps an invariant.
\<close>

unbundle bit_operations_syntax

named_theorems table_simps \<open>rewrite rules for bulk operations on table rows\<close>
named_theorems step_defs \<open>definitions of the operations of a component\<close>

section \<open>JavaScript strings, numbers and dates\<close>

text \<open>A JavaScript string is its list of UTF-16 code units.\<close>

type_synonym jstring = "16 word list"
type_synonym id = jstring

text \<open>A time is a number of milliseconds since the epoch; a \<open>Date\<close> may be invalid (\<open>None\<close>).\<close>

type_synonym time = int
type_synonym js_date = "time option"

definition js :: "string \<Rightarrow> jstring" where
  "js s = map (\<lambda>c. of_nat (of_char c)) s"

lemma of_nat_inverse_16: "a < 2 ^ 16 \<Longrightarrow> unat (of_nat a :: 16 word) = a"
  by (simp add: unat_of_nat)

lemma js_inj: "js s = js t \<longleftrightarrow> s = t"
proof -
  have "inj (\<lambda>c. of_nat (of_char c) :: 16 word)"
  proof (rule injI)
    fix c d :: char
    assume "(of_nat (of_char c) :: 16 word) = of_nat (of_char d)"
    moreover have "(of_char x :: nat) < 2 ^ 16" for x :: char
      using nat_of_char_less_256[of x] by (rule less_le_trans) simp
    ultimately show "c = d" by (metis of_char_eq_iff of_nat_inverse_16)
  qed
  then show ?thesis by (simp add: js_def inj_map_eq_map)
qed

lemma js_Nil_iff [simp]: "js s = [] \<longleftrightarrow> s = []"
  by (simp add: js_def)

definition slice_to :: "nat \<Rightarrow> jstring \<Rightarrow> jstring" where
  "slice_to n s = take n s"

text \<open>The code units that \<open>String.prototype.trim\<close> strips.\<close>

definition js_whitespace :: "16 word \<Rightarrow> bool" where
  "js_whitespace c \<longleftrightarrow>
     c \<in> {0x09, 0x0A, 0x0B, 0x0C, 0x0D, 0x20, 0xA0, 0x1680, 0x2028, 0x2029, 0x202F, 0x205F,
          0x3000, 0xFEFF} \<or> (0x2000 \<le> c \<and> c \<le> 0x200A)"

definition js_trim :: "jstring \<Rightarrow> jstring" where
  "js_trim s = rev (dropWhile js_whitespace (rev (dropWhile js_whitespace s)))"

text \<open>\<open>Number.isSafeInteger\<close> on an integral number.\<close>

definition safe_integer :: "int \<Rightarrow> bool" where
  "safe_integer n \<longleftrightarrow> - (2 ^ 53 - 1) \<le> n \<and> n \<le> 2 ^ 53 - 1"

text \<open>\<open>new Date(t)\<close> is an invalid date outside the range of ECMAScript time values.\<close>

definition new_date :: "int \<Rightarrow> js_date" where
  "new_date t = (if - 8640000000000000 \<le> t \<and> t \<le> 8640000000000000 then Some t else None)"

datatype js_error =
    RangeError string
  | PlainError string
  | URIError

text \<open>The nullish coalescing operator \<open>a ?? b\<close>.\<close>

definition coalesce :: "'a option \<Rightarrow> 'a option \<Rightarrow> 'a option" where
  "coalesce a b = (case a of Some x \<Rightarrow> Some x | None \<Rightarrow> b)"

lemma coalesce_simps [simp]:
  "coalesce (Some x) b = Some x" "coalesce None b = b" "coalesce a None = a"
  by (simp_all add: coalesce_def split: option.splits)

section \<open>Tables\<close>

text \<open>
  \<open>update_where p f rows\<close> is \<open>updateMany({ where: p, data: f })\<close>; the client also returns
  how many rows matched, \<open>count_where p rows\<close>.
\<close>

definition update_where :: "('r \<Rightarrow> bool) \<Rightarrow> ('r \<Rightarrow> 'r) \<Rightarrow> 'r list \<Rightarrow> 'r list" where
  "update_where p f rows = map (\<lambda>r. if p r then f r else r) rows"

definition count_where :: "('r \<Rightarrow> bool) \<Rightarrow> 'r list \<Rightarrow> nat" where
  "count_where p rows = length (filter p rows)"

lemma update_where_Nil [table_simps, simp]: "update_where p f [] = []"
  by (simp add: update_where_def)

lemma update_where_Cons [table_simps, simp]:
  "update_where p f (r # rows) = (if p r then f r else r) # update_where p f rows"
  by (simp add: update_where_def)

lemma update_where_append [table_simps, simp]:
  "update_where p f (xs @ ys) = update_where p f xs @ update_where p f ys"
  by (simp add: update_where_def)

lemma length_update_where [simp]: "length (update_where p f rows) = length rows"
  by (simp add: update_where_def)

lemma count_where_Nil [table_simps, simp]: "count_where p [] = 0"
  by (simp add: count_where_def)

lemma count_where_Cons [table_simps, simp]:
  "count_where p (r # rows) = (if p r then Suc (count_where p rows) else count_where p rows)"
  by (simp add: count_where_def)

lemma count_where_append [table_simps, simp]:
  "count_where p (xs @ ys) = count_where p xs + count_where p ys"
  by (simp add: count_where_def)

lemma set_update_where:
  "set (update_where p f rows) = {f r | r. r \<in> set rows \<and> p r} \<union> {r. r \<in> set rows \<and> \<not> p r}"
  by (auto simp: update_where_def)

lemma update_whereE:
  assumes "r' \<in> set (update_where p f rows)"
  obtains r where "r \<in> set rows" "p r" "r' = f r" | "r' \<in> set rows" "\<not> p r'"
  using assms by (auto simp: set_update_where)

lemma map_update_where_frame:
  "(\<And>r. p r \<Longrightarrow> g (f r) = g r) \<Longrightarrow> map g (update_where p f rows) = map g rows"
  by (auto simp: update_where_def)

lemma count_where_update_frame:
  "(\<And>r. p r \<Longrightarrow> q (f r) = q r) \<Longrightarrow> count_where q (update_where p f rows) = count_where q rows"
  by (induction rows) auto

lemma count_where_update_all:
  "(\<And>r. q r \<Longrightarrow> p r) \<Longrightarrow> (\<And>r. p r \<Longrightarrow> \<not> q (f r)) \<Longrightarrow> count_where q (update_where p f rows) = 0"
  by (induction rows) auto

lemma count_where_zero_iff: "count_where p rows = 0 \<longleftrightarrow> (\<forall>r \<in> set rows. \<not> p r)"
  by (induction rows) auto

lemma count_where_mono: "(\<And>r. p r \<Longrightarrow> q r) \<Longrightarrow> count_where p rows \<le> count_where q rows"
  by (induction rows) (auto simp: le_SucI)

lemma count_where_cong: "(\<And>r. r \<in> set rows \<Longrightarrow> p r = q r) \<Longrightarrow> count_where p rows = count_where q rows"
  by (induction rows) auto

lemma update_where_none: "(\<And>r. r \<in> set rows \<Longrightarrow> \<not> p r) \<Longrightarrow> update_where p f rows = rows"
  by (induction rows) auto

text \<open>A row addressed by a primary key: at most one row of a table with distinct keys matches.\<close>

lemma count_where_key:
  assumes "distinct (map key rows)"
  shows "count_where (\<lambda>r. key r = k \<and> p r) rows \<le> 1"
  using assms
proof (induction rows)
  case Nil
  then show ?case by simp
next
  case (Cons x xs)
  show ?case
  proof (cases "key x = k \<and> p x")
    case True
    with Cons.prems have "\<forall>y \<in> set xs. \<not> (key y = k \<and> p y)"
      by (metis distinct.simps(2) image_eqI list.simps(9) set_map)
    then have "count_where (\<lambda>r. key r = k \<and> p r) xs = 0" by (simp add: count_where_zero_iff)
    with True show ?thesis by simp
  next
    case False
    with Cons show ?thesis by auto
  qed
qed

lemma count_where_update_key:
  assumes "distinct (map key rows)" "r \<in> set rows" "key r = k"
  shows "count_where q (update_where (\<lambda>r. key r = k) f rows)
       = count_where q rows - (if q r then 1 else 0) + (if q (f r) then 1 else 0)"
  using assms
proof (induction rows)
  case Nil
  then show ?case by simp
next
  case (Cons x xs)
  show ?case
  proof (cases "x = r")
    case True
    with Cons.prems have "\<And>y. y \<in> set xs \<Longrightarrow> key y \<noteq> k"
      by (metis distinct.simps(2) image_eqI list.simps(9) set_map)
    then have "update_where (\<lambda>r. key r = k) f xs = xs" by (simp add: update_where_none)
    with True Cons.prems show ?thesis by simp
  next
    case False
    with Cons.prems have r: "r \<in> set xs" and "key x \<noteq> k" by auto
    with Cons have IH: "count_where q (update_where (\<lambda>r. key r = k) f xs)
       = count_where q xs - (if q r then 1 else 0) + (if q (f r) then 1 else 0)" by simp
    have "q r \<Longrightarrow> 0 < count_where q xs"
      using r by (simp add: count_where_zero_iff flip: neq0_conv) blast
    with IH \<open>key x \<noteq> k\<close> show ?thesis by auto
  qed
qed

lemma find_Some_in: "find p xs = Some x \<Longrightarrow> x \<in> set xs \<and> p x"
  by (induction xs) (auto split: if_splits)

section \<open>State machines with an invariant\<close>

text \<open>
  A component is given by its steps; the provider promises that every step keeps the
  invariant, and the client learns that every run does.
\<close>

locale invariant_system =
  fixes step :: "'s \<Rightarrow> 'e \<Rightarrow> 's"
    and inv :: "'s \<Rightarrow> bool"
  assumes step_inv: "inv s \<Longrightarrow> inv (step s e)"
begin

lemma run_inv: "inv s \<Longrightarrow> inv (foldl step s es)"
  by (induction es arbitrary: s) (auto intro: step_inv)

lemma run_prefix_inv: "inv s \<Longrightarrow> inv (foldl step s (take n es))"
  by (rule run_inv)

end

end
