(* ===== verification/Domain_Types.thy ===== *)
theory Domain_Types
  imports Prelude
begin

text \<open>
  The enumerations and policy constants of \<open>packages/domain/src/types.ts\<close>. Every runtime
  string constant is a constructor of the datatype of its enumeration; enumerations that
  share a constant (\<open>PENDING\<close>, \<open>FAILED\<close>, \<open>CANCELED\<close>) are told apart by the type's name.
\<close>

datatype MonitorLifecycle = ACTIVE | PAUSED | DELETED

datatype MonitorHealth = PENDING | UP | SUSPECT | DOWN | RECOVERING

datatype HttpMethod = GET | HEAD

datatype CheckSource = SCHEDULED | MANUAL | TEST

datatype CheckOutcome = SUCCESS | TARGET_FAILURE | PLATFORM_ERROR | INCONCLUSIVE

datatype CheckErrorType =
    DNS_ERROR | CONNECT_TIMEOUT | CONNECTION_REFUSED | TLS_ERROR | TTFB_TIMEOUT
  | REQUEST_TIMEOUT | REDIRECT_ERROR | HTTP_STATUS_MISMATCH | CONTENT_MISMATCH
  | RESPONSE_LIMIT_EXCEEDED | NETWORK_ERROR | PLATFORM_ERROR

datatype ScheduledCheckStatus = PENDING | ENQUEUED | RUNNING | COMPLETED | FAILED | CANCELED

datatype IncidentStatus = OPEN | RESOLVED | CANCELED

datatype IncidentClosureReason = RECOVERED | PAUSED | DELETED | CONFIG_CHANGED

datatype NotificationChannelType = TELEGRAM

datatype NotificationEventType = NETWORK_RECOVERY | DOWN | RECOVERY | RESOLVED_SUMMARY | TEST

datatype NotificationOutboxStatus =
  PENDING | ENQUEUED | PROCESSING | RETRY | SENT | FAILED | CANCELED

datatype NotificationDeliveryStatus = ATTEMPTING | SUCCEEDED | FAILED | UNKNOWN

definition MIN_MONITOR_INTERVAL_SECONDS :: int where
  "MIN_MONITOR_INTERVAL_SECONDS = 5"

definition MAX_MONITOR_INTERVAL_SECONDS :: int where
  "MAX_MONITOR_INTERVAL_SECONDS = 86400"

record MonitorPolicy =
  pol_intervalSec :: int
  pol_timeoutMs :: int
  pol_expectedStatusMin :: int
  pol_expectedStatusMax :: int
  pol_failureThreshold :: int
  pol_recoveryThreshold :: int
  pol_followRedirects :: bool
  pol_maxRedirects :: int

definition DEFAULT_MONITOR_POLICY :: MonitorPolicy where
  "DEFAULT_MONITOR_POLICY =
     \<lparr>pol_intervalSec = 60, pol_timeoutMs = 10000, pol_expectedStatusMin = 200,
      pol_expectedStatusMax = 299, pol_failureThreshold = 3, pol_recoveryThreshold = 2,
      pol_followRedirects = True, pol_maxRedirects = 5\<rparr>"

end
