(* ===== verification/Monitor_State.thy ===== *)
theory Monitor_State
  imports Domain_Types "HOL-Library.Sublist"
begin

text \<open>
  The health state machine of \<open>packages/domain/src/state-machine.ts\<close>: the transition for one
  persisted check result (\<open>applyCheckResult\<close>), for pause, resume and soft delete
  (\<open>transitionLifecycle\<close>) and for a configuration change (\<open>resetForConfigChange\<close>), the
  well-formedness invariant they keep, and an abstract specification of an incident as a
  property of the sequence of outcomes.
\<close>

section \<open>State, input and effects\<close>

record MonitorState =
  lifecycleStatus :: MonitorLifecycle
  healthState :: MonitorHealth
  consecutiveFailures :: int
  consecutiveSuccesses :: int
  failureStreakStartedAt :: "time option"
  failureStreakFirstErrorType :: "CheckErrorType option"
  configVersion :: int

record CheckTransitionInput =
  in_source :: CheckSource
  in_outcome :: CheckOutcome
  in_configVersion :: int
  in_checkedAt :: js_date
  in_errorType :: "CheckErrorType option"
  in_failureThreshold :: int
  in_recoveryThreshold :: int

datatype IgnoredCheckReason =
  LIFECYCLE_NOT_ACTIVE | NON_SCHEDULED_SOURCE | STALE_CONFIG_VERSION | NON_TARGET_OUTCOME

datatype IncidentEffect =
    NONE
  | OPEN (firstFailureAt: time) (detectedAt: time)
      (firstErrorType: "CheckErrorType option") (lastErrorType: "CheckErrorType option")
  | UPDATE "CheckErrorType option"
  | RESOLVE time
  | CANCEL time IncidentClosureReason

record StateTransitionResult =
  applied :: bool
  ignoredReason :: "IgnoredCheckReason option"
  previousHealthState :: MonitorHealth
  state :: MonitorState
  healthChanged :: bool
  incidentEffect :: IncidentEffect

record AdministrativeTransitionResult =
  adm_state :: MonitorState
  adm_incidentEffect :: IncidentEffect

section \<open>Assertions\<close>

definition assertState :: "MonitorState \<Rightarrow> js_error option" where
  "assertState s =
     (if \<not> safe_integer (configVersion s) \<or> configVersion s < 1
      then Some (RangeError ''configVersion must be a positive safe integer'')
      else if \<not> safe_integer (consecutiveFailures s) \<or> consecutiveFailures s < 0
            \<or> \<not> safe_integer (consecutiveSuccesses s) \<or> consecutiveSuccesses s < 0
      then Some (RangeError ''consecutive counters must be non-negative safe integers'')
      else None)"

definition assertTransitionInput :: "CheckTransitionInput \<Rightarrow> js_error option" where
  "assertTransitionInput i =
     (if \<not> safe_integer (in_failureThreshold i) \<or> in_failureThreshold i < 1
      then Some (RangeError ''failureThreshold must be a positive safe integer'')
      else if \<not> safe_integer (in_recoveryThreshold i) \<or> in_recoveryThreshold i < 1
      then Some (RangeError ''recoveryThreshold must be a positive safe integer'')
      else if \<not> safe_integer (in_configVersion i) \<or> in_configVersion i < 1
      then Some (RangeError ''result configVersion must be a positive safe integer'')
      else if in_checkedAt i = None
      then Some (RangeError ''checkedAt must be a valid date'')
      else None)"

definition unchanged :: "MonitorState \<Rightarrow> IgnoredCheckReason \<Rightarrow> StateTransitionResult" where
  "unchanged s reason =
     \<lparr>applied = False, ignoredReason = Some reason, previousHealthState = healthState s,
      state = s, healthChanged = False, incidentEffect = NONE\<rparr>"

text \<open>An open incident is what \<open>DOWN\<close> and \<open>RECOVERING\<close> stand for.\<close>

definition has_incident :: "MonitorHealth \<Rightarrow> bool" where
  "has_incident h \<longleftrightarrow> h = MonitorHealth.DOWN \<or> h = RECOVERING"

section \<open>Transitions\<close>

definition apply_success :: "MonitorState \<Rightarrow> time \<Rightarrow> int \<Rightarrow> MonitorState \<times> IncidentEffect" where
  "apply_success s checkedAt recoveryThreshold =
     (let successes = consecutiveSuccesses s + 1;
          isRecoveringFromIncident =
            (healthState s = MonitorHealth.DOWN \<or> healthState s = RECOVERING);
          recovered = (isRecoveringFromIncident \<and> recoveryThreshold \<le> successes)
      in (s\<lparr>healthState := (if isRecoveringFromIncident
                            then (if recovered then UP else RECOVERING) else UP),
            consecutiveFailures := 0,
            consecutiveSuccesses := successes,
            failureStreakStartedAt := None,
            failureStreakFirstErrorType := None\<rparr>,
          if recovered then RESOLVE checkedAt else NONE))"

definition apply_failure ::
  "MonitorState \<Rightarrow> time \<Rightarrow> CheckErrorType option \<Rightarrow> int \<Rightarrow> MonitorState \<times> IncidentEffect" where
  "apply_failure s checkedAt errorType failureThreshold =
     (let failures = consecutiveFailures s + 1;
          startedAt = (case failureStreakStartedAt s of
              Some t \<Rightarrow> if 0 < consecutiveFailures s then t else checkedAt
            | None \<Rightarrow> checkedAt);
          firstError = (if 0 < consecutiveFailures s then failureStreakFirstErrorType s
                        else errorType);
          alreadyIncident =
            (healthState s = MonitorHealth.DOWN \<or> healthState s = RECOVERING);
          entersDown = (alreadyIncident \<or> failureThreshold \<le> failures)
      in (s\<lparr>healthState := (if entersDown then MonitorHealth.DOWN else SUSPECT),
            consecutiveFailures := failures,
            consecutiveSuccesses := 0,
            failureStreakStartedAt := Some startedAt,
            failureStreakFirstErrorType := firstError\<rparr>,
          if alreadyIncident then UPDATE errorType
          else if entersDown then OPEN startedAt checkedAt firstError errorType
          else NONE))"

definition applyCheckResult ::
  "MonitorState \<Rightarrow> CheckTransitionInput \<Rightarrow> js_error + StateTransitionResult" where
  "applyCheckResult s i =
     (case assertState s of Some e \<Rightarrow> Inl e | None \<Rightarrow>
      (case assertTransitionInput i of Some e \<Rightarrow> Inl e | None \<Rightarrow>
       (if lifecycleStatus s \<noteq> ACTIVE then Inr (unchanged s LIFECYCLE_NOT_ACTIVE)
        else if in_source i \<noteq> SCHEDULED then Inr (unchanged s NON_SCHEDULED_SOURCE)
        else if in_configVersion i \<noteq> configVersion s then Inr (unchanged s STALE_CONFIG_VERSION)
        else if in_outcome i \<noteq> SUCCESS \<and> in_outcome i \<noteq> TARGET_FAILURE
        then Inr (unchanged s NON_TARGET_OUTCOME)
        else
          (let checkedAt = the (in_checkedAt i);
               (nxt, effect) =
                 (if in_outcome i = SUCCESS
                  then apply_success s checkedAt (in_recoveryThreshold i)
                  else apply_failure s checkedAt (in_errorType i) (in_failureThreshold i))
           in Inr \<lparr>applied = True, ignoredReason = None, previousHealthState = healthState s,
                   state = nxt, healthChanged = (healthState s \<noteq> healthState nxt),
                   incidentEffect = effect\<rparr>))))"

definition reset_health :: "MonitorState \<Rightarrow> MonitorState" where
  "reset_health s =
     s\<lparr>healthState := MonitorHealth.PENDING, consecutiveFailures := 0, consecutiveSuccesses := 0,
       failureStreakStartedAt := None, failureStreakFirstErrorType := None\<rparr>"

definition transitionLifecycle ::
  "MonitorState \<Rightarrow> MonitorLifecycle \<Rightarrow> js_date \<Rightarrow> js_error + AdministrativeTransitionResult" where
  "transitionLifecycle s target changedAt =
     (case assertState s of Some e \<Rightarrow> Inl e | None \<Rightarrow>
      (case changedAt of None \<Rightarrow> Inl (RangeError ''changedAt must be a valid date'')
       | Some t \<Rightarrow>
        (if lifecycleStatus s = MonitorLifecycle.DELETED \<and> target \<noteq> MonitorLifecycle.DELETED
         then Inl (PlainError ''a deleted monitor cannot transition to another lifecycle state'')
         else if lifecycleStatus s = target
         then Inr \<lparr>adm_state = s, adm_incidentEffect = NONE\<rparr>
         else
           (let hadOpenIncident =
                  (healthState s = MonitorHealth.DOWN \<or> healthState s = RECOVERING);
                reason = (if target = MonitorLifecycle.DELETED
                          then IncidentClosureReason.DELETED else IncidentClosureReason.PAUSED)
            in Inr \<lparr>adm_state = (reset_health s)\<lparr>lifecycleStatus := target\<rparr>,
                    adm_incidentEffect =
                      (if hadOpenIncident \<and> target \<noteq> ACTIVE then CANCEL t reason else NONE)\<rparr>))))"

definition resetForConfigChange ::
  "MonitorState \<Rightarrow> js_date \<Rightarrow> int option \<Rightarrow> js_error + AdministrativeTransitionResult" where
  "resetForConfigChange s changedAt nextConfigVersion =
     (let nextVersion = (case nextConfigVersion of None \<Rightarrow> configVersion s + 1 | Some v \<Rightarrow> v) in
      case assertState s of Some e \<Rightarrow> Inl e | None \<Rightarrow>
      (case changedAt of None \<Rightarrow> Inl (RangeError ''changedAt must be a valid date'')
       | Some t \<Rightarrow>
        (if \<not> safe_integer nextVersion \<or> nextVersion \<le> configVersion s
         then Inl (RangeError ''nextConfigVersion must be greater than configVersion'')
         else
           (let hadOpenIncident =
                  (healthState s = MonitorHealth.DOWN \<or> healthState s = RECOVERING)
            in Inr \<lparr>adm_state = (reset_health s)\<lparr>configVersion := nextVersion\<rparr>,
                    adm_incidentEffect =
                      (if hadOpenIncident then CANCEL t CONFIG_CHANGED else NONE)\<rparr>))))"

lemmas transition_defs =
  applyCheckResult_def apply_success_def apply_failure_def transitionLifecycle_def
  resetForConfigChange_def reset_health_def unchanged_def


section \<open>Results of the single transitions\<close>

definition state_bearing :: "MonitorState \<Rightarrow> CheckTransitionInput \<Rightarrow> bool" where
  "state_bearing s i \<longleftrightarrow>
     lifecycleStatus s = ACTIVE \<and> in_source i = SCHEDULED \<and>
     in_configVersion i = configVersion s \<and> in_outcome i \<in> {SUCCESS, TARGET_FAILURE}"

lemma applyCheckResult_ok_iff:
  "(\<exists>r. applyCheckResult s i = Inr r) \<longleftrightarrow> assertState s = None \<and> assertTransitionInput i = None"
  by (auto simp: applyCheckResult_def split: option.splits prod.splits)

lemma applyCheckResult_asserts:
  assumes "applyCheckResult s i = Inr r"
  shows "assertState s = None" "assertTransitionInput i = None" "in_checkedAt i \<noteq> None"
  using assms
  by (auto simp: applyCheckResult_def assertTransitionInput_def split: option.splits if_splits)

lemma applyCheckResult_ignored:
  assumes "applyCheckResult s i = Inr r" "\<not> state_bearing s i"
  shows "state r = s" "\<not> applied r" "incidentEffect r = NONE" "\<not> healthChanged r"
  using assms
  by (auto simp: applyCheckResult_def unchanged_def state_bearing_def split: option.splits if_splits)

lemma applyCheckResult_applied:
  assumes "applyCheckResult s i = Inr r" "state_bearing s i"
  shows "applied r" "ignoredReason r = None" "previousHealthState r = healthState s"
    "healthChanged r = (healthState s \<noteq> healthState (state r))"
    "(state r, incidentEffect r) =
       (if in_outcome i = SUCCESS
        then apply_success s (the (in_checkedAt i)) (in_recoveryThreshold i)
        else apply_failure s (the (in_checkedAt i)) (in_errorType i) (in_failureThreshold i))"
proof -
  let ?step = "if in_outcome i = SUCCESS
        then apply_success s (the (in_checkedAt i)) (in_recoveryThreshold i)
        else apply_failure s (the (in_checkedAt i)) (in_errorType i) (in_failureThreshold i)"
  have "r = \<lparr>applied = True, ignoredReason = None, previousHealthState = healthState s,
          state = fst ?step, healthChanged = (healthState s \<noteq> healthState (fst ?step)),
          incidentEffect = snd ?step\<rparr>"
    using assms applyCheckResult_asserts[OF assms(1)]
    by (auto simp: applyCheckResult_def state_bearing_def Let_def split_beta)
  then show "applied r" "ignoredReason r = None" "previousHealthState r = healthState s"
    "healthChanged r = (healthState s \<noteq> healthState (state r))"
    "(state r, incidentEffect r) = ?step" by simp_all
qed

lemma applyCheckResult_applied_iff:
  "applyCheckResult s i = Inr r \<Longrightarrow> applied r = state_bearing s i"
  using applyCheckResult_ignored applyCheckResult_applied by blast

lemma assertState_None_iff:
  "assertState s = None \<longleftrightarrow>
     safe_integer (configVersion s) \<and> 1 \<le> configVersion s \<and>
     safe_integer (consecutiveFailures s) \<and> 0 \<le> consecutiveFailures s \<and>
     safe_integer (consecutiveSuccesses s) \<and> 0 \<le> consecutiveSuccesses s"
  by (auto simp: assertState_def)

section \<open>Well-formed monitor states\<close>

text \<open>
  The health state is what the counters say: no streak while pending, failures while
  suspect or down, successes while up or recovering; the start of a failure streak is
  recorded exactly while one runs; a monitor that is not active is pending.
\<close>

fun health_counters :: "MonitorHealth \<Rightarrow> int \<Rightarrow> int \<Rightarrow> bool" where
  "health_counters MonitorHealth.PENDING f n = (f = 0 \<and> n = 0)"
| "health_counters UP f n = (f = 0 \<and> 0 < n)"
| "health_counters SUSPECT f n = (0 < f \<and> n = 0)"
| "health_counters MonitorHealth.DOWN f n = (0 < f \<and> n = 0)"
| "health_counters RECOVERING f n = (f = 0 \<and> 0 < n)"

definition wf_state :: "MonitorState \<Rightarrow> bool" where
  "wf_state s \<longleftrightarrow>
     1 \<le> configVersion s \<and>
     health_counters (healthState s) (consecutiveFailures s) (consecutiveSuccesses s) \<and>
     (0 < consecutiveFailures s \<longleftrightarrow> failureStreakStartedAt s \<noteq> None) \<and>
     (consecutiveFailures s = 0 \<longrightarrow> failureStreakFirstErrorType s = None) \<and>
     (lifecycleStatus s \<noteq> ACTIVE \<longrightarrow> healthState s = MonitorHealth.PENDING)"

lemma wf_state_counters:
  "wf_state s \<Longrightarrow> 0 \<le> consecutiveFailures s \<and> 0 \<le> consecutiveSuccesses s"
  by (cases "healthState s") (auto simp: wf_state_def)

lemma apply_success_wf:
  "wf_state s \<Longrightarrow> lifecycleStatus s = ACTIVE \<Longrightarrow> wf_state (fst (apply_success s t R))"
  by (cases "healthState s") (simp_all add: wf_state_def apply_success_def Let_def)

lemma apply_failure_wf:
  "wf_state s \<Longrightarrow> lifecycleStatus s = ACTIVE \<Longrightarrow> wf_state (fst (apply_failure s t e F))"
  by (cases "healthState s") (simp_all add: wf_state_def apply_failure_def Let_def)

lemma applyCheckResult_wf:
  assumes "applyCheckResult s i = Inr r" "wf_state s"
  shows "wf_state (state r)"
proof (cases "state_bearing s i")
  case True
  then have "lifecycleStatus s = ACTIVE" by (simp add: state_bearing_def)
  with applyCheckResult_applied(5)[OF assms(1) True] assms(2) show ?thesis
    by (metis apply_failure_wf apply_success_wf fst_conv)
next
  case False
  with assms show ?thesis by (simp add: applyCheckResult_ignored)
qed

lemma transitionLifecycle_state:
  assumes "transitionLifecycle s l t = Inr r"
  shows "adm_state r = s \<or> adm_state r = (reset_health s)\<lparr>lifecycleStatus := l\<rparr>"
  using assms by (simp add: transitionLifecycle_def Let_def split: option.splits if_splits) auto

lemma resetForConfigChange_state:
  assumes "resetForConfigChange s t v = Inr r"
  shows "\<exists>n. configVersion s < n \<and> adm_state r = (reset_health s)\<lparr>configVersion := n\<rparr>"
proof -
  let ?n = "case v of None \<Rightarrow> configVersion s + 1 | Some v \<Rightarrow> v"
  have "configVersion s < ?n \<and> adm_state r = (reset_health s)\<lparr>configVersion := ?n\<rparr>"
    using assms
    by (simp add: resetForConfigChange_def Let_def split: option.splits if_splits) auto
  then show ?thesis by blast
qed

lemma reset_health_wf:
  "wf_state s \<Longrightarrow> wf_state ((reset_health s)\<lparr>lifecycleStatus := l\<rparr>)"
  "wf_state s \<Longrightarrow> configVersion s < n \<Longrightarrow> wf_state ((reset_health s)\<lparr>configVersion := n\<rparr>)"
  by (simp_all add: reset_health_def wf_state_def)

lemma transitionLifecycle_wf:
  "transitionLifecycle s l t = Inr r \<Longrightarrow> wf_state s \<Longrightarrow> wf_state (adm_state r)"
  using transitionLifecycle_state reset_health_wf(1) by metis

lemma resetForConfigChange_wf:
  "resetForConfigChange s t v = Inr r \<Longrightarrow> wf_state s \<Longrightarrow> wf_state (adm_state r)"
  using resetForConfigChange_state reset_health_wf(2) by metis

section \<open>Runs of one monitor\<close>

datatype MonitorEvent =
    Check CheckTransitionInput
  | Lifecycle MonitorLifecycle js_date
  | ConfigChange js_date "int option"

text \<open>A call that throws leaves the caller's state as it was.\<close>

fun monitor_step :: "MonitorState \<Rightarrow> MonitorEvent \<Rightarrow> MonitorState" where
  "monitor_step s (Check i) = (case applyCheckResult s i of Inl _ \<Rightarrow> s | Inr r \<Rightarrow> state r)"
| "monitor_step s (Lifecycle l t) =
     (case transitionLifecycle s l t of Inl _ \<Rightarrow> s | Inr r \<Rightarrow> adm_state r)"
| "monitor_step s (ConfigChange t v) =
     (case resetForConfigChange s t v of Inl _ \<Rightarrow> s | Inr r \<Rightarrow> adm_state r)"

fun monitor_effect :: "MonitorState \<Rightarrow> MonitorEvent \<Rightarrow> IncidentEffect" where
  "monitor_effect s (Check i) = (case applyCheckResult s i of Inl _ \<Rightarrow> NONE | Inr r \<Rightarrow> incidentEffect r)"
| "monitor_effect s (Lifecycle l t) =
     (case transitionLifecycle s l t of Inl _ \<Rightarrow> NONE | Inr r \<Rightarrow> adm_incidentEffect r)"
| "monitor_effect s (ConfigChange t v) =
     (case resetForConfigChange s t v of Inl _ \<Rightarrow> NONE | Inr r \<Rightarrow> adm_incidentEffect r)"

interpretation monitor: invariant_system monitor_step wf_state
proof
  fix s e
  assume "wf_state s"
  then show "wf_state (monitor_step s e)"
    by (cases e) (auto split: sum.splits
        intro: applyCheckResult_wf transitionLifecycle_wf resetForConfigChange_wf)
qed

text \<open>The columns a monitor is created with (\<open>schema.prisma\<close> defaults).\<close>

definition initial_state :: MonitorState where
  "initial_state =
     \<lparr>lifecycleStatus = ACTIVE, healthState = MonitorHealth.PENDING, consecutiveFailures = 0,
      consecutiveSuccesses = 0, failureStreakStartedAt = None,
      failureStreakFirstErrorType = None, configVersion = 1\<rparr>"

lemma wf_initial_state: "wf_state initial_state"
  by (simp add: wf_state_def initial_state_def)

section \<open>What an incident is: a property of the sequence of outcomes\<close>

text \<open>
  With thresholds \<open>F\<close> and \<open>R\<close>, an incident is open after the outcomes \<open>os\<close> (\<open>True\<close> for a
  success) when they contain a block of \<open>F\<close> failures in a row after which no block of \<open>R\<close>
  successes in a row follows.
\<close>

definition incident_spec :: "nat \<Rightarrow> nat \<Rightarrow> bool list \<Rightarrow> bool" where
  "incident_spec F R os \<longleftrightarrow>
     (\<exists>p q. os = p @ replicate F False @ q \<and> \<not> sublist (replicate R True) q)"

definition trailing :: "bool \<Rightarrow> bool list \<Rightarrow> nat" where
  "trailing b os = length (takeWhile (\<lambda>x. x = b) (rev os))"

lemma trailing_Nil [simp]: "trailing b [] = 0"
  by (simp add: trailing_def)

lemma trailing_snoc [simp]: "trailing b (os @ [x]) = (if x = b then Suc (trailing b os) else 0)"
  by (simp add: trailing_def)

lemma prefix_replicate_iff:
  "prefix (replicate n b) xs \<longleftrightarrow> n \<le> length (takeWhile (\<lambda>x. x = b) xs)"
proof (induction xs arbitrary: n)
  case Nil
  then show ?case by (cases n) auto
next
  case (Cons x xs)
  then show ?case by (cases n) auto
qed

lemma trailing_ge_iff: "n \<le> trailing b os \<longleftrightarrow> suffix (replicate n b) os"
  by (simp add: trailing_def suffix_to_prefix prefix_replicate_iff)

lemma trailing_after_block:
  assumes "1 \<le> F"
  shows "trailing True (p @ replicate F False @ q) = trailing True q"
proof (induction q rule: rev_induct)
  case Nil
  from assms obtain n where "F = Suc n" by (cases F) auto
  then have "p @ replicate F False @ [] = (p @ replicate n False) @ [False]"
    by (simp add: replicate_append_same)
  then show ?case by (metis trailing_Nil trailing_snoc)
next
  case (snoc x q)
  then show ?case by (metis append.assoc trailing_snoc)
qed

lemma sublist_snoc_iff: "sublist xs (ys @ [y]) \<longleftrightarrow> suffix xs (ys @ [y]) \<or> sublist xs ys"
proof -
  have "sublist xs (ys @ [y]) \<longleftrightarrow> sublist (rev xs) (y # rev ys)"
    by (metis rev.simps(2) rev_rev_ident sublist_rev)
  also have "\<dots> \<longleftrightarrow> prefix (rev xs) (y # rev ys) \<or> sublist (rev xs) (rev ys)"
    by (simp add: sublist_Cons_right)
  finally show ?thesis by (simp add: suffix_to_prefix)
qed

lemma incident_spec_failure:
  assumes "1 \<le> R"
  shows "incident_spec F R (os @ [False]) \<longleftrightarrow>
           incident_spec F R os \<or> F \<le> trailing False (os @ [False])"
    (is "?lhs \<longleftrightarrow> ?old \<or> ?new")
proof
  assume ?lhs
  then obtain p q where eq: "os @ [False] = p @ replicate F False @ q"
    and no: "\<not> sublist (replicate R True) q" by (auto simp: incident_spec_def)
  show "?old \<or> ?new"
  proof (cases q rule: rev_cases)
    case Nil
    with eq have "suffix (replicate F False) (os @ [False])" by (auto simp: suffix_def)
    then show ?thesis unfolding trailing_ge_iff by blast
  next
    case (snoc q' x)
    with eq have "os @ [False] = (p @ replicate F False @ q') @ [x]" by simp
    then have "os = p @ replicate F False @ q'" by (simp only: append1_eq_conv)
    moreover from no snoc have "\<not> sublist (replicate R True) q'" by (simp add: sublist_snoc_iff)
    ultimately show ?thesis by (auto simp: incident_spec_def)
  qed
next
  assume "?old \<or> ?new"
  then show ?lhs
  proof
    assume ?old
    then obtain p q where "os = p @ replicate F False @ q" "\<not> sublist (replicate R True) q"
      by (auto simp: incident_spec_def)
    moreover have "\<not> suffix (replicate R True) (q @ [False])"
      unfolding trailing_ge_iff[symmetric] using assms by simp
    ultimately have "os @ [False] = p @ replicate F False @ (q @ [False])"
      "\<not> sublist (replicate R True) (q @ [False])" by (simp_all add: sublist_snoc_iff)
    then show ?lhs unfolding incident_spec_def by blast
  next
    assume ?new
    then obtain p where "os @ [False] = p @ replicate F False @ []"
      unfolding trailing_ge_iff suffix_def by auto
    moreover have "\<not> sublist (replicate R True) []" using assms by simp
    ultimately show ?lhs unfolding incident_spec_def by blast
  qed
qed

lemma incident_spec_success:
  assumes "1 \<le> F"
  shows "incident_spec F R (os @ [True]) \<longleftrightarrow>
           incident_spec F R os \<and> trailing True (os @ [True]) < R"
    (is "?lhs \<longleftrightarrow> ?old \<and> ?short")
proof
  assume ?lhs
  then obtain p q where eq: "os @ [True] = p @ replicate F False @ q"
    and no: "\<not> sublist (replicate R True) q" by (auto simp: incident_spec_def)
  show "?old \<and> ?short"
  proof (cases q rule: rev_cases)
    case Nil
    with eq trailing_after_block[OF assms, of p q] have "trailing True (os @ [True]) = 0" by simp
    then show ?thesis by simp
  next
    case (snoc q' x)
    with eq have "os @ [True] = (p @ replicate F False @ q') @ [x]" by simp
    then have os: "os = p @ replicate F False @ q'" by (simp only: append1_eq_conv)
    from no snoc have "\<not> sublist (replicate R True) q'" by (simp add: sublist_snoc_iff)
    with os have ?old by (auto simp: incident_spec_def)
    moreover have "\<not> R \<le> trailing True q"
      using no by (auto simp: trailing_ge_iff dest: suffix_imp_sublist)
    then have ?short unfolding eq trailing_after_block[OF assms] by simp
    ultimately show ?thesis ..
  qed
next
  assume "?old \<and> ?short"
  then obtain p q where os: "os = p @ replicate F False @ q" and no: "\<not> sublist (replicate R True) q"
    by (auto simp: incident_spec_def)
  have "\<not> suffix (replicate R True) (q @ [True])"
  proof
    assume "suffix (replicate R True) (q @ [True])"
    then have "suffix (replicate R True) (os @ [True])" using os by (auto simp: suffix_def)
    with \<open>?old \<and> ?short\<close> show False unfolding trailing_ge_iff[symmetric] by simp
  qed
  with no have "\<not> sublist (replicate R True) (q @ [True])" by (simp add: sublist_snoc_iff)
  with os show ?lhs unfolding incident_spec_def by (metis append.assoc)
qed

section \<open>Refinement: a run of check results against the specification\<close>

fun run_checks :: "MonitorState \<Rightarrow> CheckTransitionInput list \<Rightarrow> js_error + MonitorState" where
  "run_checks s [] = Inr s"
| "run_checks s (i # is) =
     (case applyCheckResult s i of Inl e \<Rightarrow> Inl e | Inr r \<Rightarrow> run_checks (state r) is)"

lemma run_checks_snoc:
  "run_checks s (is @ [i]) =
     (case run_checks s is of Inl e \<Rightarrow> Inl e
      | Inr s' \<Rightarrow> (case applyCheckResult s' i of Inl e \<Rightarrow> Inl e | Inr r \<Rightarrow> Inr (state r)))"
  by (induction "is" arbitrary: s) (auto split: sum.splits)

definition scheduled_input :: "nat \<Rightarrow> nat \<Rightarrow> int \<Rightarrow> CheckTransitionInput \<Rightarrow> bool" where
  "scheduled_input F R v i \<longleftrightarrow>
     in_source i = SCHEDULED \<and> in_configVersion i = v \<and> in_outcome i \<in> {SUCCESS, TARGET_FAILURE} \<and>
     in_checkedAt i \<noteq> None \<and> in_failureThreshold i = int F \<and> in_recoveryThreshold i = int R"

definition succeeded :: "CheckTransitionInput \<Rightarrow> bool" where
  "succeeded i \<longleftrightarrow> in_outcome i = SUCCESS"

text \<open>The state represents the outcomes seen since the monitor was last reset.\<close>

definition represents :: "nat \<Rightarrow> nat \<Rightarrow> int \<Rightarrow> MonitorState \<Rightarrow> bool list \<Rightarrow> bool" where
  "represents F R v s os \<longleftrightarrow>
     lifecycleStatus s = ACTIVE \<and> configVersion s = v \<and>
     consecutiveFailures s = int (trailing False os) \<and>
     consecutiveSuccesses s = int (trailing True os) \<and>
     (has_incident (healthState s) \<longleftrightarrow> incident_spec F R os)"

lemma incident_spec_Nil: "1 \<le> F \<Longrightarrow> \<not> incident_spec F R []"
  by (auto simp: incident_spec_def)

lemma trailing_le_length: "trailing b os \<le> length os"
  by (simp add: trailing_def) (metis length_rev length_takeWhile_le)

lemma represents_assertState:
  assumes "represents F R v s os" "1 \<le> v" "safe_integer v" "int (length os) \<le> 2 ^ 53 - 1"
  shows "assertState s = None"
  using assms trailing_le_length[of True os] trailing_le_length[of False os]
  by (auto simp: assertState_None_iff represents_def safe_integer_def)

lemma represents_step:
  assumes rep: "represents F R v s os" and inp: "scheduled_input F R v i"
    and ok: "applyCheckResult s i = Inr r" and FR: "1 \<le> F" "1 \<le> R"
  shows "represents F R v (state r) (os @ [succeeded i])"
proof -
  have bearing: "state_bearing s i"
    using rep inp by (auto simp: state_bearing_def represents_def scheduled_input_def)
  note step = applyCheckResult_applied(5)[OF ok bearing]
  show ?thesis
  proof (cases "in_outcome i = SUCCESS")
    case True
    with step have "state r = fst (apply_success s (the (in_checkedAt i)) (in_recoveryThreshold i))"
      by (metis fst_conv)
    with True rep inp show ?thesis
      by (auto simp: represents_def scheduled_input_def succeeded_def apply_success_def Let_def
          has_incident_def incident_spec_success[OF FR(1)])
  next
    case False
    with step have "state r = fst (apply_failure s (the (in_checkedAt i)) (in_errorType i)
        (in_failureThreshold i))" by (metis fst_conv)
    with False rep inp show ?thesis
      by (auto simp: represents_def scheduled_input_def succeeded_def apply_failure_def Let_def
          has_incident_def incident_spec_failure[OF FR(2)])
  qed
qed

lemma run_checks_represents:
  assumes "represents F R v s []" "1 \<le> F" "1 \<le> R" "1 \<le> v" "safe_integer v"
    "safe_integer (int F)" "safe_integer (int R)"
    "list_all (scheduled_input F R v) is" "int (length is) \<le> 2 ^ 53 - 1"
  shows "\<exists>s'. run_checks s is = Inr s' \<and> represents F R v s' (map succeeded is)"
  using assms(8,9)
proof (induction "is" rule: rev_induct)
  case Nil
  with assms(1) show ?case by simp
next
  case (snoc i "is")
  then obtain s' where s': "run_checks s is = Inr s'" "represents F R v s' (map succeeded is)"
    by auto
  from snoc.prems have inp: "scheduled_input F R v i" by simp
  have "assertState s' = None"
    using represents_assertState[OF s'(2) assms(4,5)] snoc.prems by simp
  moreover have "assertTransitionInput i = None"
    using inp assms by (auto simp: assertTransitionInput_def scheduled_input_def)
  ultimately obtain r where r: "applyCheckResult s' i = Inr r"
    using applyCheckResult_ok_iff by blast
  from represents_step[OF s'(2) inp r assms(2,3)] s'(1) r show ?case
    by (auto simp: run_checks_snoc)
qed

section \<open>Incident effects\<close>

text \<open>
  Each transition opens, keeps or closes at most one incident, and says so: the effect is
  what the incident's status before and after the transition differ by.
\<close>

fun effect_matches :: "IncidentEffect \<Rightarrow> bool \<Rightarrow> bool \<Rightarrow> bool" where
  "effect_matches NONE before after = (before = after)"
| "effect_matches (OPEN _ _ _ _) before after = (\<not> before \<and> after)"
| "effect_matches (UPDATE _) before after = (before \<and> after)"
| "effect_matches (RESOLVE _) before after = (before \<and> \<not> after)"
| "effect_matches (CANCEL _ _) before after = (before \<and> \<not> after)"

lemma apply_success_effect:
  "effect_matches (snd (apply_success s t R)) (has_incident (healthState s))
     (has_incident (healthState (fst (apply_success s t R))))"
  by (auto simp: apply_success_def has_incident_def Let_def)

lemma apply_failure_effect:
  "effect_matches (snd (apply_failure s t e F)) (has_incident (healthState s))
     (has_incident (healthState (fst (apply_failure s t e F))))"
  by (auto simp: apply_failure_def has_incident_def Let_def)

lemma applyCheckResult_effect:
  assumes "applyCheckResult s i = Inr r"
  shows "effect_matches (incidentEffect r) (has_incident (healthState s))
           (has_incident (healthState (state r)))"
proof (cases "state_bearing s i")
  case True
  from applyCheckResult_applied(5)[OF assms True] show ?thesis
    by (metis apply_success_effect apply_failure_effect fst_conv snd_conv)
next
  case False
  with assms show ?thesis by (simp add: applyCheckResult_ignored)
qed

lemma monitor_effect_matches:
  assumes "wf_state s"
  shows "effect_matches (monitor_effect s e) (has_incident (healthState s))
           (has_incident (healthState (monitor_step s e)))"
proof (cases e)
  case (Check i)
  then show ?thesis by (auto split: sum.splits intro: applyCheckResult_effect)
next
  case (Lifecycle l t)
  with assms show ?thesis
    by (auto simp: transitionLifecycle_def reset_health_def has_incident_def wf_state_def Let_def
        split: sum.splits option.splits if_splits)
next
  case (ConfigChange t v)
  then show ?thesis
    by (auto simp: resetForConfigChange_def reset_health_def has_incident_def Let_def
        split: sum.splits option.splits if_splits)
qed

definition opens :: "IncidentEffect \<Rightarrow> bool" where
  "opens e \<longleftrightarrow> (case e of OPEN _ _ _ _ \<Rightarrow> True | _ \<Rightarrow> False)"

definition closes :: "IncidentEffect \<Rightarrow> bool" where
  "closes e \<longleftrightarrow> (case e of RESOLVE _ \<Rightarrow> True | CANCEL _ _ \<Rightarrow> True | _ \<Rightarrow> False)"

fun monitor_effects :: "MonitorState \<Rightarrow> MonitorEvent list \<Rightarrow> IncidentEffect list" where
  "monitor_effects s [] = []"
| "monitor_effects s (e # es) = monitor_effect s e # monitor_effects (monitor_step s e) es"

lemma monitor_effects_balance:
  assumes "wf_state s"
  shows "int (count_where opens (monitor_effects s es)) - int (count_where closes (monitor_effects s es))
       = of_bool (has_incident (healthState (foldl monitor_step s es)))
         - of_bool (has_incident (healthState s))"
  using assms
proof (induction es arbitrary: s)
  case Nil
  then show ?case by simp
next
  case (Cons e es)
  have "wf_state (monitor_step s e)" using Cons.prems by (rule monitor.step_inv)
  note IH = Cons.IH[OF this]
  have "effect_matches (monitor_effect s e) (has_incident (healthState s))
          (has_incident (healthState (monitor_step s e)))"
    using Cons.prems by (rule monitor_effect_matches)
  with IH show ?case
    by (cases "monitor_effect s e") (auto simp: opens_def closes_def)
qed

text \<open>The streak data an incident is opened with.\<close>

lemma applyCheckResult_open:
  assumes "applyCheckResult s i = Inr r" "incidentEffect r = OPEN a d fe le" "wf_state s"
  shows "d = the (in_checkedAt i)" "le = in_errorType i"
    "failureStreakStartedAt (state r) = Some a" "failureStreakFirstErrorType (state r) = fe"
    "in_failureThreshold i \<le> consecutiveFailures (state r)"
    "consecutiveFailures s = 0 \<Longrightarrow> a = d"
    "0 < consecutiveFailures s \<Longrightarrow> failureStreakStartedAt s = Some a"
proof -
  have bearing: "state_bearing s i"
    using assms applyCheckResult_ignored(3) by fastforce
  from applyCheckResult_applied(5)[OF assms(1) bearing] assms(2)
  have step: "(state r, OPEN a d fe le) =
      apply_failure s (the (in_checkedAt i)) (in_errorType i) (in_failureThreshold i)"
    by (auto simp: apply_success_def Let_def split: if_splits)
  from step assms(3) show "d = the (in_checkedAt i)" "le = in_errorType i"
    "failureStreakStartedAt (state r) = Some a" "failureStreakFirstErrorType (state r) = fe"
    "in_failureThreshold i \<le> consecutiveFailures (state r)"
    "consecutiveFailures s = 0 \<Longrightarrow> a = d"
    "0 < consecutiveFailures s \<Longrightarrow> failureStreakStartedAt s = Some a"
    by (auto simp: apply_failure_def wf_state_def Let_def split: if_splits option.splits)
qed

section \<open>Properties\<close>

text \<open>Every state a monitor reaches from the columns it is created with, through any sequence
of check results, pauses, resumes, deletions and configuration changes, is well formed: the
health state agrees with the streak counters, a streak start is recorded exactly while
failures are counted, and a monitor that is not active is pending.\<close>

theorem monitor_run_wf: "wf_state (foldl monitor_step initial_state es)"
  by (rule monitor.run_inv[OF wf_initial_state])

text \<open>C1. Running the code on scheduled results of one configuration from a freshly reset monitor
never throws, counts exactly the trailing streaks, and reports an incident (DOWN or
RECOVERING) if and only if the outcomes contain a block of failureThreshold consecutive
failures after which no block of recoveryThreshold consecutive successes follows.\<close>

theorem incident_iff_failure_block:
  assumes "1 \<le> F" "1 \<le> R" "safe_integer (int F)" "safe_integer (int R)"
    and "lifecycleStatus s = ACTIVE" "healthState s = MonitorHealth.PENDING"
    and "consecutiveFailures s = 0" "consecutiveSuccesses s = 0"
    and "1 \<le> configVersion s" "safe_integer (configVersion s)"
    and "list_all (scheduled_input F R (configVersion s)) is" "int (length is) \<le> 2 ^ 53 - 1"
  shows "\<exists>s'. run_checks s is = Inr s' \<and>
           (has_incident (healthState s') \<longleftrightarrow> incident_spec F R (map succeeded is)) \<and>
           consecutiveFailures s' = int (trailing False (map succeeded is)) \<and>
           consecutiveSuccesses s' = int (trailing True (map succeeded is))"
proof -
  have "represents F R (configVersion s) s []"
    using assms by (simp add: represents_def has_incident_def incident_spec_Nil)
  from run_checks_represents[OF this assms(1,2,9,10,3,4,11,12)] show ?thesis
    by (auto simp: represents_def)
qed

definition failed_check :: CheckTransitionInput where
  "failed_check = \<lparr>in_source = SCHEDULED, in_outcome = TARGET_FAILURE, in_configVersion = 1,
     in_checkedAt = Some 1000, in_errorType = Some DNS_ERROR, in_failureThreshold = 2,
     in_recoveryThreshold = 1\<rparr>"

theorem incident_iff_failure_block_witness:
  "\<exists>s'. run_checks initial_state [failed_check, failed_check] = Inr s' \<and>
        has_incident (healthState s')"
proof -
  have "incident_spec 2 1 [False, False]"
    unfolding incident_spec_def
    by (rule exI[of _ "[]"], rule exI[of _ "[]"]) (simp add: numeral_2_eq_2)
  then show ?thesis
    using incident_iff_failure_block[of 2 1 initial_state "[failed_check, failed_check]"]
    by (auto simp: initial_state_def failed_check_def scheduled_input_def safe_integer_def
        succeeded_def)
qed

text \<open>Along any run from a new monitor the OPEN effects and the closing effects (RESOLVE,
CANCEL) alternate: their difference is one while the monitor is DOWN or RECOVERING and zero
otherwise, so no incident is opened twice or left behind.\<close>

theorem incident_effects_balance:
  "int (count_where opens (monitor_effects initial_state es))
     = int (count_where closes (monitor_effects initial_state es))
       + of_bool (has_incident (healthState (foldl monitor_step initial_state es)))"
  using monitor_effects_balance[OF wf_initial_state, of es]
  by (simp add: initial_state_def has_incident_def)

text \<open>When a check result opens an incident, it is detected at that check, at least
failureThreshold failures were counted, and its first failure is the start of the streak:
the time recorded before if a streak was running, this check's own time otherwise.\<close>

theorem open_incident_streak:
  assumes "applyCheckResult s i = Inr r" "wf_state s"
    and "incidentEffect r = OPEN first detected firstErr lastErr"
  shows "Some detected = in_checkedAt i \<and> lastErr = in_errorType i \<and>
         in_failureThreshold i \<le> consecutiveFailures (state r) \<and>
         failureStreakStartedAt (state r) = Some first \<and>
         (if 0 < consecutiveFailures s then failureStreakStartedAt s = Some first
          else first = detected)"
  using applyCheckResult_open[OF assms(1,3,2)] applyCheckResult_asserts(3)[OF assms(1)]
    wf_state_counters[OF assms(2)]
  by auto

theorem open_incident_streak_witness:
  "applyCheckResult initial_state (failed_check\<lparr>in_failureThreshold := 1\<rparr>) =
     Inr \<lparr>applied = True, ignoredReason = None, previousHealthState = MonitorHealth.PENDING,
          state = initial_state\<lparr>healthState := MonitorHealth.DOWN, consecutiveFailures := 1,
            failureStreakStartedAt := Some 1000, failureStreakFirstErrorType := Some DNS_ERROR\<rparr>,
          healthChanged = True,
          incidentEffect = OPEN 1000 1000 (Some DNS_ERROR) (Some DNS_ERROR)\<rparr>
   \<and> in_failureThreshold (failed_check\<lparr>in_failureThreshold := 1\<rparr>) \<le> 1"
proof -
  let ?i = "failed_check\<lparr>in_failureThreshold := 1\<rparr>"
  let ?r = "\<lparr>applied = True, ignoredReason = None, previousHealthState = MonitorHealth.PENDING,
          state = initial_state\<lparr>healthState := MonitorHealth.DOWN, consecutiveFailures := 1,
            failureStreakStartedAt := Some 1000, failureStreakFirstErrorType := Some DNS_ERROR\<rparr>,
          healthChanged = True,
          incidentEffect = OPEN 1000 1000 (Some DNS_ERROR) (Some DNS_ERROR)\<rparr>"
  have eval: "applyCheckResult initial_state ?i = Inr ?r"
    by (simp add: applyCheckResult_def assertState_def assertTransitionInput_def apply_failure_def
        initial_state_def failed_check_def safe_integer_def Let_def)
  from open_incident_streak[OF eval wf_initial_state, of 1000 1000 "Some DNS_ERROR" "Some DNS_ERROR"]
  show ?thesis using eval by simp
qed

text \<open>A check result that does not throw changes the monitor if and only if it is a scheduled
SUCCESS or TARGET_FAILURE of the current configuration of an active monitor; every other
result leaves the state as it was, has no incident effect and names its reason.\<close>

theorem only_state_bearing_results_apply:
  assumes "applyCheckResult s i = Inr r"
  shows "(applied r \<longleftrightarrow> state_bearing s i) \<and> (ignoredReason r = None \<longleftrightarrow> state_bearing s i) \<and>
         (\<not> state_bearing s i \<longrightarrow> state r = s \<and> incidentEffect r = NONE)"
proof (cases "state_bearing s i")
  case True
  with applyCheckResult_applied(1,2)[OF assms True] show ?thesis by simp
next
  case False
  have "ignoredReason r \<noteq> None"
    using assms False
    by (auto simp: applyCheckResult_def unchanged_def state_bearing_def
        split: option.splits if_splits)
  with False applyCheckResult_ignored[OF assms False] show ?thesis by simp
qed

theorem only_state_bearing_results_apply_witness:
  "\<exists>r. applyCheckResult initial_state (failed_check\<lparr>in_configVersion := 2\<rparr>) = Inr r \<and>
       state r = initial_state \<and> \<not> applied r"
proof -
  let ?i = "failed_check\<lparr>in_configVersion := 2\<rparr>"
  have eval: "applyCheckResult initial_state ?i = Inr (unchanged initial_state STALE_CONFIG_VERSION)"
    by (simp add: applyCheckResult_def assertState_def assertTransitionInput_def
        initial_state_def failed_check_def safe_integer_def)
  have "\<not> state_bearing initial_state ?i"
    by (simp add: state_bearing_def failed_check_def initial_state_def)
  with only_state_bearing_results_apply[OF eval] eval show ?thesis by blast
qed

end
