(* ===== verification/Scheduling.thy ===== *)
theory Scheduling
  imports Domain_Types Complex_Main
begin

text \<open>
  The schedule arithmetic of \<open>packages/domain/src/scheduling.ts\<close>: the stable jitter of a
  monitor, its first slot, the next slot after a check, the coalesced due slot after
  downtime, and the derived staleness warning. Times are integral milliseconds; the ratio
  of the jitter window is a rational number (its default is one tenth). Divisions are exact
  because every quotient the code forms from 32-bit intervals and ECMAScript times is below
  \<open>2^53\<close>.
\<close>

definition MINUTE_MS :: int where "MINUTE_MS = 60000"
definition MIN_STALE_GRACE_MS :: int where "MIN_STALE_GRACE_MS = 5 * MINUTE_MS"

definition intervalToMilliseconds :: "int \<Rightarrow> js_error + int" where
  "intervalToMilliseconds intervalSec =
     (if \<not> safe_integer intervalSec \<or> intervalSec < 1
      then Inl (RangeError ''intervalSec must be a positive safe integer'')
      else Inr (intervalSec * 1000))"

definition assertDate :: "js_date \<Rightarrow> string \<Rightarrow> js_error + time" where
  "assertDate value name =
     (case value of None \<Rightarrow> Inl (RangeError (name @ '' must be a valid date'')) | Some t \<Rightarrow> Inr t)"

text \<open>A deterministic 32-bit hash; \<open>Math.imul\<close> multiplies modulo \<open>2^32\<close>.\<close>

definition fnv1a :: "jstring \<Rightarrow> 32 word" where
  "fnv1a value = foldl (\<lambda>hash c. (hash XOR ucast c) * 0x01000193) 0x811c9dc5 value"

definition isSupportedIntervalSec :: "int \<Rightarrow> bool" where
  "isSupportedIntervalSec intervalSec \<longleftrightarrow>
     safe_integer intervalSec \<and> MIN_MONITOR_INTERVAL_SECONDS \<le> intervalSec \<and>
     intervalSec \<le> MAX_MONITOR_INTERVAL_SECONDS"

definition default_jitterRatio :: rat where "default_jitterRatio = 1 / 10"

definition stableJitterMs :: "jstring \<Rightarrow> int \<Rightarrow> rat \<Rightarrow> js_error + int" where
  "stableJitterMs monitorId intervalSec jitterRatio =
     (case intervalToMilliseconds intervalSec of Inl e \<Rightarrow> Inl e | Inr intervalMs \<Rightarrow>
      (if js_trim monitorId = [] then Inl (RangeError ''monitorId cannot be empty'')
       else if jitterRatio < 0 \<or> 1 < jitterRatio
       then Inl (RangeError ''jitterRatio must be between 0 and 1'')
       else
         (let windowMs = \<lfloor>of_int intervalMs * jitterRatio\<rfloor> in
          Inr (if windowMs = 0 then 0 else uint (fnv1a monitorId) mod windowMs))))"

definition calculateInitialNextCheckAt ::
  "jstring \<Rightarrow> int \<Rightarrow> js_date \<Rightarrow> rat \<Rightarrow> js_error + js_date" where
  "calculateInitialNextCheckAt monitorId intervalSec now jitterRatio =
     (case assertDate now ''now'' of Inl e \<Rightarrow> Inl e | Inr now_ms \<Rightarrow>
      (case intervalToMilliseconds intervalSec of Inl e \<Rightarrow> Inl e | Inr intervalMs \<Rightarrow>
       (let bucketStart = (now_ms div intervalMs) * intervalMs + intervalMs in
        (case stableJitterMs monitorId intervalSec jitterRatio of Inl e \<Rightarrow> Inl e
         | Inr jitter \<Rightarrow> Inr (new_date (bucketStart + jitter))))))"

definition calculateNextCheckAt :: "js_date \<Rightarrow> int \<Rightarrow> js_date \<Rightarrow> js_error + js_date" where
  "calculateNextCheckAt scheduledAt intervalSec now =
     (case assertDate scheduledAt ''scheduledAt'' of Inl e \<Rightarrow> Inl e | Inr scheduled_ms \<Rightarrow>
      (case assertDate now ''now'' of Inl e \<Rightarrow> Inl e | Inr now_ms \<Rightarrow>
       (case intervalToMilliseconds intervalSec of Inl e \<Rightarrow> Inl e | Inr intervalMs \<Rightarrow>
        (let elapsed = now_ms - scheduled_ms;
             intervalsToAdvance = max 1 (elapsed div intervalMs + 1)
         in Inr (new_date (scheduled_ms + intervalsToAdvance * intervalMs))))))"

text \<open>The outer option of the result is the code's \<open>Date | null\<close>.\<close>

definition coalesceDueScheduledAt ::
  "js_date \<Rightarrow> int \<Rightarrow> js_date \<Rightarrow> js_error + js_date option" where
  "coalesceDueScheduledAt nextCheckAt intervalSec now =
     (case assertDate nextCheckAt ''nextCheckAt'' of Inl e \<Rightarrow> Inl e | Inr next_ms \<Rightarrow>
      (case assertDate now ''now'' of Inl e \<Rightarrow> Inl e | Inr now_ms \<Rightarrow>
       (case intervalToMilliseconds intervalSec of Inl e \<Rightarrow> Inl e | Inr intervalMs \<Rightarrow>
        (let elapsed = now_ms - next_ms in
         Inr (if elapsed < 0 then None
              else Some (new_date (next_ms + (elapsed div intervalMs) * intervalMs)))))))"

definition staleAfter :: "js_date \<Rightarrow> int \<Rightarrow> js_error + js_date" where
  "staleAfter nextCheckAt intervalSec =
     (case assertDate nextCheckAt ''nextCheckAt'' of Inl e \<Rightarrow> Inl e | Inr next_ms \<Rightarrow>
      (case intervalToMilliseconds intervalSec of Inl e \<Rightarrow> Inl e | Inr intervalMs \<Rightarrow>
       Inr (new_date (next_ms + max (intervalMs * 2) MIN_STALE_GRACE_MS))))"

text \<open>A comparison with the time value of an invalid date (\<open>NaN\<close>) is false.\<close>

definition isMonitorStale :: "js_date option \<Rightarrow> int \<Rightarrow> js_date \<Rightarrow> js_error + bool" where
  "isMonitorStale nextCheckAt intervalSec now =
     (case nextCheckAt of None \<Rightarrow> Inr False | Some nxt \<Rightarrow>
      (case assertDate now ''now'' of Inl e \<Rightarrow> Inl e | Inr now_ms \<Rightarrow>
       (case staleAfter nxt intervalSec of Inl e \<Rightarrow> Inl e
        | Inr limit \<Rightarrow> Inr (case limit of None \<Rightarrow> False | Some l \<Rightarrow> l < now_ms))))"

section \<open>Slot arithmetic\<close>

text \<open>Slots of a schedule: \<open>t\<close> is a whole number of intervals after \<open>t0\<close>.\<close>

definition on_schedule :: "time \<Rightarrow> int \<Rightarrow> time \<Rightarrow> bool" where
  "on_schedule t0 intervalMs t \<longleftrightarrow> intervalMs dvd (t - t0)"

lemma intervalToMilliseconds_ok:
  "1 \<le> n \<Longrightarrow> safe_integer n \<Longrightarrow> intervalToMilliseconds n = Inr (n * 1000)"
  by (simp add: intervalToMilliseconds_def)

lemma div_mult_bounds:
  fixes a b :: int
  assumes "0 < b"
  shows "(a div b) * b \<le> a" "a < (a div b) * b + b"
proof -
  have eq: "a = (a div b) * b + a mod b" by simp
  have "0 \<le> a mod b" "a mod b < b" using assms by simp_all
  with eq show "(a div b) * b \<le> a" "a < (a div b) * b + b" by linarith+
qed

lemma jitter_window_default:
  "\<lfloor>of_int (n * 1000) * default_jitterRatio\<rfloor> = n * 100"
proof -
  have "of_int (n * 1000) * default_jitterRatio = of_int (n * 100)"
    by (simp add: default_jitterRatio_def)
  then show ?thesis by (simp only: floor_of_int)
qed

lemma stableJitterMs_bounds:
  assumes "stableJitterMs m n ratio = Inr j"
  shows "0 \<le> j" "j \<le> \<lfloor>of_int (n * 1000) * ratio\<rfloor>"
    "0 < \<lfloor>of_int (n * 1000) * ratio\<rfloor> \<Longrightarrow> j < \<lfloor>of_int (n * 1000) * ratio\<rfloor>"
proof -
  from assms have ratio: "0 \<le> ratio" and n: "1 \<le> n"
    by (auto simp: stableJitterMs_def intervalToMilliseconds_def split: if_splits)
  define w where "w = \<lfloor>of_int (n * 1000) * ratio\<rfloor>"
  have "0 \<le> of_int (n * 1000) * ratio" using ratio n by simp
  then have w: "0 \<le> w" by (simp add: w_def)
  have j: "j = (if w = 0 then 0 else uint (fnv1a m) mod w)"
    using assms unfolding w_def
    by (auto simp: stableJitterMs_def intervalToMilliseconds_def Let_def split: if_splits)
  have "0 < w \<Longrightarrow> 0 \<le> uint (fnv1a m) mod w \<and> uint (fnv1a m) mod w < w" by simp
  with w j have "0 \<le> j" "j \<le> w" "0 < w \<Longrightarrow> j < w"
    by (cases "w = 0"; simp add: less_imp_le)+
  then show "0 \<le> j" "j \<le> \<lfloor>of_int (n * 1000) * ratio\<rfloor>"
    "0 < \<lfloor>of_int (n * 1000) * ratio\<rfloor> \<Longrightarrow> j < \<lfloor>of_int (n * 1000) * ratio\<rfloor>"
    by (simp_all only: w_def)
qed

lemma coalesce_slot:
  assumes "coalesceDueScheduledAt (Some nxt) n (Some now) = Inr (Some (Some t))"
  shows "nxt \<le> t" "t \<le> now" "now < t + n * 1000" "on_schedule nxt (n * 1000) t" "1 \<le> n"
    "safe_integer n" "new_date t = Some t"
proof -
  from assms have n: "1 \<le> n" "safe_integer n" and el: "0 \<le> now - nxt"
    and nd: "new_date (nxt + (now - nxt) div (n * 1000) * (n * 1000)) = Some t"
    by (auto simp: coalesceDueScheduledAt_def assertDate_def intervalToMilliseconds_def Let_def
        split: if_splits)
  from nd have t: "t = nxt + (now - nxt) div (n * 1000) * (n * 1000)"
    by (simp add: new_date_def split: if_splits)
  have pos: "0 < n * 1000" using n by simp
  have "0 \<le> (now - nxt) div (n * 1000)" using el pos by (simp add: pos_imp_zdiv_nonneg_iff)
  then have "0 \<le> (now - nxt) div (n * 1000) * (n * 1000)" using pos by simp
  with t div_mult_bounds[OF pos, of "now - nxt"]
  show "nxt \<le> t" "t \<le> now" "now < t + n * 1000" "on_schedule nxt (n * 1000) t"
    by (auto simp: on_schedule_def)
  from n t nd show "1 \<le> n" "safe_integer n" "new_date t = Some t" by simp_all
qed

lemma calculateNext_slot:
  assumes "calculateNextCheckAt (Some sched) n (Some now) = Inr (Some t)"
  shows "now < t" "sched < t" "on_schedule sched (n * 1000) t" "t \<le> max sched now + n * 1000"
proof -
  from assms have n: "1 \<le> n"
    and t: "t = sched + max 1 ((now - sched) div (n * 1000) + 1) * (n * 1000)"
    by (auto simp: calculateNextCheckAt_def assertDate_def intervalToMilliseconds_def Let_def
        new_date_def split: if_splits)
  define q where "q = (now - sched) div (n * 1000)"
  have pos: "0 < n * 1000" using n by simp
  from div_mult_bounds[OF pos, of "now - sched"]
  have b: "q * (n * 1000) \<le> now - sched" "now - sched < q * (n * 1000) + n * 1000"
    by (simp_all add: q_def)
  have t': "t = sched + (if q < 0 then n * 1000 else q * (n * 1000) + n * 1000)"
    using t by (simp add: q_def algebra_simps max_def)
  have "now < t \<and> sched < t \<and> t \<le> max sched now + n * 1000"
  proof (cases "q < 0")
    case True
    then have "now < sched" using pos by (simp add: q_def pos_imp_zdiv_neg_iff)
    with True t' pos show ?thesis by simp
  next
    case False
    then have "0 \<le> q * (n * 1000)" using pos by (intro mult_nonneg_nonneg) auto
    with False t' pos b show ?thesis by (auto simp only: if_False max_def split: if_splits)
  qed
  then show "now < t" "sched < t" "t \<le> max sched now + n * 1000" by blast+
  show "on_schedule sched (n * 1000) t" using t by (simp add: on_schedule_def)
qed

lemma calculateNext_of_coalesced:
  assumes "coalesceDueScheduledAt (Some nxt) n (Some now) = Inr (Some (Some t))"
  shows "calculateNextCheckAt (Some t) n (Some now) = Inr (new_date (t + n * 1000))"
proof -
  note c = coalesce_slot[OF assms]
  have "(now - t) div (n * 1000) = 0" using c by (intro div_pos_pos_trivial) auto
  with c show ?thesis
    by (simp add: calculateNextCheckAt_def assertDate_def intervalToMilliseconds_ok)
qed

section \<open>Properties\<close>

text \<open>The first slot of an activated monitor lies strictly in the future, in the next
wall-clock bucket of its interval plus a jitter that stays below a tenth of the interval;
it depends only on the monitor, the interval and the bucket of the current time.\<close>

theorem initial_slot_bounds:
  assumes "calculateInitialNextCheckAt m n (Some now) default_jitterRatio = Inr (Some t)"
  shows "now < t \<and> t < now + n * 1000 + n * 100 \<and>
    (t div (n * 1000)) * (n * 1000) = (now div (n * 1000)) * (n * 1000) + n * 1000"
proof -
  from assms obtain j where n: "1 \<le> n" and j: "stableJitterMs m n default_jitterRatio = Inr j"
    and t: "t = (now div (n * 1000)) * (n * 1000) + n * 1000 + j"
    by (auto simp: calculateInitialNextCheckAt_def assertDate_def intervalToMilliseconds_def
        new_date_def Let_def split: if_splits sum.splits)
  have jb: "0 \<le> j" "j < n * 100"
    using stableJitterMs_bounds[OF j] n unfolding jitter_window_default by auto
  have pos: "0 < n * 1000" using n by simp
  note b = div_mult_bounds[OF pos, of now]
  from b jb t have lt: "now < t" "t < now + n * 1000 + n * 100" by linarith+
  have "t = (now div (n * 1000) + 1) * (n * 1000) + j" by (simp add: t algebra_simps)
  moreover have "j div (n * 1000) = 0" using jb n by (intro div_pos_pos_trivial) auto
  ultimately have "t div (n * 1000) = now div (n * 1000) + 1" using pos by simp
  then have "(t div (n * 1000)) * (n * 1000) = (now div (n * 1000)) * (n * 1000) + n * 1000"
    by (simp add: algebra_simps)
  with lt show ?thesis by blast
qed

theorem initial_slot_bounds_witness:
  "\<exists>t. calculateInitialNextCheckAt [0x61] 60 (Some 90000) default_jitterRatio = Inr (Some t) \<and>
       90000 < t \<and> t < 90000 + 60000 + 6000"
proof -
  have "floor (60000 * default_jitterRatio) = 6000"
    using jitter_window_default[of 60] by simp
  then have "\<exists>t. calculateInitialNextCheckAt [0x61] 60 (Some 90000) default_jitterRatio = Inr (Some t)"
    by (auto simp: calculateInitialNextCheckAt_def assertDate_def intervalToMilliseconds_def
        stableJitterMs_def js_trim_def js_whitespace_def default_jitterRatio_def safe_integer_def
        new_date_def fnv1a_def)
  then obtain t where "calculateInitialNextCheckAt [0x61] 60 (Some 90000) default_jitterRatio
      = Inr (Some t)" by blast
  with initial_slot_bounds[OF this] show ?thesis by auto
qed

text \<open>After downtime the scheduler replays one slot, the latest one that is due: it lies on
the original schedule, is at most now, and the slot after it is still in the future. The
next slot computed from it is exactly one interval later, so the schedule never drifts and
no backlog is replayed.\<close>

theorem coalesced_slot_is_latest_due:
  assumes "coalesceDueScheduledAt (Some nxt) n (Some now) = Inr (Some (Some t))"
  shows "nxt \<le> t \<and> t \<le> now \<and> now < t + n * 1000 \<and> on_schedule nxt (n * 1000) t \<and>
         calculateNextCheckAt (Some t) n (Some now) = Inr (new_date (t + n * 1000))"
  using coalesce_slot[OF assms] calculateNext_of_coalesced[OF assms] by blast

theorem coalesced_slot_is_latest_due_witness:
  "coalesceDueScheduledAt (Some 1000) 60 (Some 200000) = Inr (Some (Some 181000)) \<and>
   (200000::int) < 181000 + 60 * 1000"
proof -
  have eval: "coalesceDueScheduledAt (Some 1000) 60 (Some 200000) = Inr (Some (Some 181000))"
    by (simp add: coalesceDueScheduledAt_def assertDate_def intervalToMilliseconds_def
        safe_integer_def new_date_def)
  from coalesced_slot_is_latest_due[OF eval] eval show ?thesis by simp
qed

text \<open>The slot after a check is the first slot of the check's own schedule that is later than
both the check and now: it is on the schedule, in the future, and at most one interval
after the later of the two.\<close>

theorem next_slot_is_first_future:
  assumes "calculateNextCheckAt (Some sched) n (Some now) = Inr (Some t)"
  shows "now < t \<and> sched < t \<and> on_schedule sched (n * 1000) t \<and> t \<le> max sched now + n * 1000"
  using calculateNext_slot[OF assms] by blast

theorem next_slot_is_first_future_witness:
  "calculateNextCheckAt (Some 0) 60 (Some 130000) = Inr (Some 180000) \<and> (130000::int) < 180000"
proof -
  have eval: "calculateNextCheckAt (Some 0) 60 (Some 130000) = Inr (Some 180000)"
    by (simp add: calculateNextCheckAt_def assertDate_def intervalToMilliseconds_def
        safe_integer_def new_date_def)
  from next_slot_is_first_future[OF eval] eval show ?thesis by simp
qed

end
