(* ===== verification/Notification_Policy.thy ===== *)
theory Notification_Policy
  imports Domain_Types
begin

text \<open>
  The notification policy of \<open>packages/domain/src/notifications.ts\<close>: the idempotency keys of
  outbox rows, with the \<open>encodeURIComponent\<close> of the language written out on UTF-16 code
  units, the sequence number of an event within its incident and channel, and the plan for
  a recovery given the state of the DOWN event it follows.
\<close>

section \<open>\<open>encodeURIComponent\<close>\<close>

text \<open>Code points of a UTF-16 string; a lone surrogate makes \<open>encodeURIComponent\<close> throw.\<close>

definition supplementary :: "16 word \<Rightarrow> 16 word \<Rightarrow> nat" where
  "supplementary c d = 0x10000 + (unat c - 0xD800) * 0x400 + (unat d - 0xDC00)"

fun code_points :: "jstring \<Rightarrow> nat list option" where
  "code_points [] = Some []"
| "code_points (c # cs) =
     (if 0xD800 \<le> c \<and> c \<le> 0xDBFF then
        (case cs of [] \<Rightarrow> None
         | d # ds \<Rightarrow>
             if 0xDC00 \<le> d \<and> d \<le> 0xDFFF then
               map_option (\<lambda>ps. supplementary c d # ps)
                 (code_points ds)
             else None)
      else if 0xDC00 \<le> c \<and> c \<le> 0xDFFF then None
      else map_option (\<lambda>ps. unat c # ps) (code_points cs))"

definition utf8 :: "nat \<Rightarrow> nat list" where
  "utf8 cp =
     (if cp < 0x80 then [cp]
      else if cp < 0x800 then [0xC0 + cp div 64, 0x80 + cp mod 64]
      else if cp < 0x10000 then [0xE0 + cp div 4096, 0x80 + cp div 64 mod 64, 0x80 + cp mod 64]
      else [0xF0 + cp div 262144, 0x80 + cp div 4096 mod 64, 0x80 + cp div 64 mod 64,
            0x80 + cp mod 64])"

text \<open>Letters, digits and \<open>- _ . ! ~ * ' ( )\<close> are kept.\<close>

definition uri_unreserved :: "nat \<Rightarrow> bool" where
  "uri_unreserved c \<longleftrightarrow>
     (97 \<le> c \<and> c \<le> 122) \<or> (65 \<le> c \<and> c \<le> 90) \<or> (48 \<le> c \<and> c \<le> 57) \<or>
     c \<in> {45, 95, 46, 33, 126, 42, 39, 40, 41}"

definition hex_digit :: "nat \<Rightarrow> nat" where
  "hex_digit n = (if n < 10 then 48 + n else 55 + n)"

definition pct :: "nat \<Rightarrow> nat list" where
  "pct b = [37, hex_digit (b div 16), hex_digit (b mod 16)]"

definition encode_code_point :: "nat \<Rightarrow> nat list" where
  "encode_code_point cp =
     (if uri_unreserved cp then [cp] else concat (map pct (utf8 cp)))"

definition encodeURIComponent :: "jstring \<Rightarrow> js_error + jstring" where
  "encodeURIComponent s =
     (case code_points s of None \<Rightarrow> Inl URIError
      | Some ps \<Rightarrow> Inr (map of_nat (concat (map encode_code_point ps))))"

section \<open>Keys and plans\<close>

record NotificationDedupeParts =
  dp_incidentId :: jstring
  dp_channelId :: jstring
  dp_eventType :: NotificationEventType

definition requireIdentifier :: "jstring \<Rightarrow> string \<Rightarrow> js_error + jstring" where
  "requireIdentifier value name =
     (let normalized = js_trim value in
      if normalized = [] then Inl (RangeError (name @ '' cannot be empty'')) else Inr normalized)"

fun event_name :: "NotificationEventType \<Rightarrow> string" where
  "event_name NETWORK_RECOVERY = ''NETWORK_RECOVERY''"
| "event_name NotificationEventType.DOWN = ''DOWN''"
| "event_name RECOVERY = ''RECOVERY''"
| "event_name RESOLVED_SUMMARY = ''RESOLVED_SUMMARY''"
| "event_name NotificationEventType.TEST = ''TEST''"

definition createNotificationDedupeKey :: "NotificationDedupeParts \<Rightarrow> js_error + jstring" where
  "createNotificationDedupeKey parts =
     (case requireIdentifier (dp_incidentId parts) ''incidentId'' of Inl e \<Rightarrow> Inl e
      | Inr incidentId \<Rightarrow>
     (case requireIdentifier (dp_channelId parts) ''channelId'' of Inl e \<Rightarrow> Inl e
      | Inr channelId \<Rightarrow>
     (case encodeURIComponent incidentId of Inl e \<Rightarrow> Inl e | Inr i \<Rightarrow>
     (case encodeURIComponent channelId of Inl e \<Rightarrow> Inl e | Inr c \<Rightarrow>
      Inr (js ''incident:'' @ i @ js '':channel:'' @ c @ js '':event:'' @
           js (event_name (dp_eventType parts)))))))"

definition createTestNotificationDedupeKey :: "jstring \<Rightarrow> jstring \<Rightarrow> js_error + jstring" where
  "createTestNotificationDedupeKey channelId requestId =
     (case requireIdentifier channelId ''channelId'' of Inl e \<Rightarrow> Inl e | Inr ch \<Rightarrow>
     (case requireIdentifier requestId ''requestId'' of Inl e \<Rightarrow> Inl e | Inr rq \<Rightarrow>
     (case encodeURIComponent ch of Inl e \<Rightarrow> Inl e | Inr c \<Rightarrow>
     (case encodeURIComponent rq of Inl e \<Rightarrow> Inl e | Inr r \<Rightarrow>
      Inr (js ''channel:'' @ c @ js '':test:'' @ r)))))"

text \<open>Sequence is scoped to an incident/channel pair.\<close>

fun notificationSequence :: "NotificationEventType \<Rightarrow> int" where
  "notificationSequence NotificationEventType.DOWN = 1"
| "notificationSequence RECOVERY = 2"
| "notificationSequence RESOLVED_SUMMARY = 2"
| "notificationSequence NotificationEventType.TEST = 1"
| "notificationSequence NETWORK_RECOVERY = 1"

datatype RecoveryNotificationPlan =
    CREATE_RECOVERY bool
  | REPLACE_WITH_RESOLVED_SUMMARY
  | SKIP

definition planRecoveryNotification ::
  "NotificationOutboxStatus \<Rightarrow> int \<Rightarrow> js_error + RecoveryNotificationPlan" where
  "planRecoveryNotification downStatus downAttemptCount =
     (if \<not> safe_integer downAttemptCount \<or> downAttemptCount < 0
      then Inl (RangeError ''downAttemptCount must be a non-negative safe integer'')
      else if downAttemptCount = 0 \<and>
              (downStatus = NotificationOutboxStatus.PENDING \<or>
               downStatus = NotificationOutboxStatus.ENQUEUED)
      then Inr REPLACE_WITH_RESOLVED_SUMMARY
      else if downStatus = NotificationOutboxStatus.FAILED \<or>
              downStatus = NotificationOutboxStatus.CANCELED
      then Inr SKIP
      else Inr (CREATE_RECOVERY (downStatus \<noteq> SENT)))"

section \<open>The encoding is injective\<close>

lemma hex_digit_inj: "a < 16 \<Longrightarrow> b < 16 \<Longrightarrow> hex_digit a = hex_digit b \<Longrightarrow> a = b"
  by (auto simp: hex_digit_def split: if_splits)

lemma pct_append_inj:
  assumes "pct a @ s = pct b @ t" "a < 256" "b < 256"
  shows "a = b \<and> s = t"
proof -
  have "a div 16 = b div 16"
    by (rule hex_digit_inj) (use assms in \<open>auto simp: pct_def\<close>)
  moreover have "a mod 16 = b mod 16"
    by (rule hex_digit_inj) (use assms in \<open>auto simp: pct_def\<close>)
  ultimately have "a = b" by (metis div_mult_mod_eq)
  with assms show ?thesis by (simp add: pct_def)
qed

lemma pct_bytes_append_inj:
  assumes "concat (map pct xs) @ s = concat (map pct ys) @ t" "length xs = length ys"
    "\<forall>x \<in> set xs. x < 256" "\<forall>y \<in> set ys. y < 256"
  shows "xs = ys \<and> s = t"
  using assms
proof (induction xs arbitrary: ys)
  case Nil
  then show ?case by simp
next
  case (Cons x xs)
  then obtain y ys' where ys: "ys = y # ys'" by (cases ys) auto
  from Cons.prems(1) ys have "pct x @ (concat (map pct xs) @ s) = pct y @ (concat (map pct ys') @ t)"
    by simp
  from pct_append_inj[OF this] Cons.prems ys
  have "x = y" "concat (map pct xs) @ s = concat (map pct ys') @ t" by auto
  with Cons.IH[of ys'] Cons.prems ys show ?case by auto
qed

definition valid_code_point :: "nat \<Rightarrow> bool" where
  "valid_code_point cp \<longleftrightarrow> cp < 0x110000"

lemma utf8_bytes: "valid_code_point cp \<Longrightarrow> \<forall>b \<in> set (utf8 cp). b < 256"
proof -
  assume "valid_code_point cp"
  then have "cp < 1114112" by (simp add: valid_code_point_def)
  then show ?thesis
    by (auto simp: utf8_def; presburger)
qed

lemma utf8_Cons: "\<exists>b bs. utf8 cp = b # bs"
  by (simp add: utf8_def)

lemma utf8_hd_length:
  assumes "valid_code_point a" "valid_code_point b" "hd (utf8 a) = hd (utf8 b)"
  shows "length (utf8 a) = length (utf8 b)"
proof -
  have len: "length (utf8 c) =
      (if hd (utf8 c) < 0xC0 then 1 else if hd (utf8 c) < 0xE0 then 2
       else if hd (utf8 c) < 0xF0 then 3 else 4)" if "valid_code_point c" for c
  proof -
    have "c < 1114112" using that by (simp add: valid_code_point_def)
    moreover have "c < 0x800 \<Longrightarrow> c div 64 < 32" "c < 0x10000 \<Longrightarrow> c div 4096 < 16" by auto
    ultimately show ?thesis by (auto simp: utf8_def)
  qed
  from len[OF assms(1)] len[OF assms(2)] assms(3) show ?thesis by simp
qed

lemma utf8_two: "a div 64 = b div (64::nat) \<Longrightarrow> a mod 64 = b mod 64 \<Longrightarrow> a = b"
  by (metis div_mult_mod_eq)

lemma utf8_three:
  assumes "a div 4096 = b div (4096::nat)" "a div 64 mod 64 = b div 64 mod 64" "a mod 64 = b mod 64"
  shows "a = b"
proof -
  have "a div 64 div 64 = b div 64 div 64" using assms(1) by (simp add: div_mult2_eq [symmetric])
  with assms(2) have "a div 64 = b div 64" by (metis div_mult_mod_eq)
  with assms(3) show ?thesis by (metis div_mult_mod_eq)
qed

lemma utf8_four:
  assumes "a div 262144 = b div (262144::nat)" "a div 4096 mod 64 = b div 4096 mod 64"
    "a div 64 mod 64 = b div 64 mod 64" "a mod 64 = b mod 64"
  shows "a = b"
proof -
  have "a div 4096 div 64 = b div 4096 div 64" using assms(1) by (simp add: div_mult2_eq [symmetric])
  with assms(2) have "a div 4096 = b div 4096" by (metis div_mult_mod_eq)
  from utf8_three[OF this assms(3,4)] show ?thesis .
qed

lemma utf8_cases:
  "(utf8 c = [c] \<and> c < 0x80) \<or>
   utf8 c = [0xC0 + c div 64, 0x80 + c mod 64] \<or>
   utf8 c = [0xE0 + c div 4096, 0x80 + c div 64 mod 64, 0x80 + c mod 64] \<or>
   utf8 c = [0xF0 + c div 262144, 0x80 + c div 4096 mod 64, 0x80 + c div 64 mod 64, 0x80 + c mod 64]"
  by (simp add: utf8_def)

lemma utf8_inj:
  assumes "utf8 a = utf8 b"
  shows "a = b"
proof -
  show ?thesis
    using utf8_cases[of a] utf8_cases[of b] assms
    apply (elim disjE)
    apply (simp_all only: list.inject add_left_cancel list.distinct simp_thms)
    apply (blast intro: utf8_two utf8_three utf8_four)+
    done
qed

lemma encode_code_point_append_inj:
  assumes eq: "encode_code_point a @ s = encode_code_point b @ t"
    and va: "valid_code_point a" and vb: "valid_code_point b"
  shows "a = b \<and> s = t"
proof (cases "uri_unreserved a \<or> uri_unreserved b")
  case True
  obtain p ps q qs where "utf8 a = p # ps" "utf8 b = q # qs" using utf8_Cons by metis
  with True eq show ?thesis
    by (auto simp: encode_code_point_def pct_def uri_unreserved_def split: if_splits)
next
  case False
  with eq have eq': "concat (map pct (utf8 a)) @ s = concat (map pct (utf8 b)) @ t"
    by (simp add: encode_code_point_def)
  obtain p ps q qs where ab: "utf8 a = p # ps" "utf8 b = q # qs" using utf8_Cons by metis
  with eq' have "pct p @ (concat (map pct ps) @ s) = pct q @ (concat (map pct qs) @ t)" by simp
  from pct_append_inj[OF this] ab utf8_bytes[OF va] utf8_bytes[OF vb] have "p = q" by simp
  with ab have "length (utf8 a) = length (utf8 b)"
    using utf8_hd_length[OF va vb] by simp
  from pct_bytes_append_inj[OF eq' this utf8_bytes[OF va] utf8_bytes[OF vb]]
  show ?thesis using utf8_inj by blast
qed

lemma encode_code_points_inj:
  assumes "concat (map encode_code_point ps) = concat (map encode_code_point qs)"
    "\<forall>p \<in> set ps. valid_code_point p" "\<forall>q \<in> set qs. valid_code_point q"
  shows "ps = qs"
  using assms
proof (induction ps arbitrary: qs)
  case Nil
  have "encode_code_point c \<noteq> []" for c
    using utf8_Cons[of c] by (auto simp: encode_code_point_def pct_def)
  with Nil show ?case by (cases qs) auto
next
  case (Cons p ps)
  have "encode_code_point c \<noteq> []" for c
    using utf8_Cons[of c] by (auto simp: encode_code_point_def pct_def)
  with Cons.prems(1) obtain q qs' where qs: "qs = q # qs'" by (cases qs) auto
  from Cons.prems(1) qs
  have "encode_code_point p @ concat (map encode_code_point ps)
      = encode_code_point q @ concat (map encode_code_point qs')" by simp
  from encode_code_point_append_inj[OF this] Cons.prems qs
  have "p = q" "concat (map encode_code_point ps) = concat (map encode_code_point qs')" by auto
  with Cons.IH[of qs'] Cons.prems qs show ?case by auto
qed

text \<open>The encoded text is ASCII and holds no colon.\<close>

lemma pct_ascii: "b < 256 \<Longrightarrow> \<forall>c \<in> set (pct b). c < 128 \<and> c \<noteq> 58"
proof -
  assume "b < 256"
  then have "b div 16 < 16" "b mod 16 < 16" by auto
  moreover have "hex_digit n < 128 \<and> hex_digit n \<noteq> 58" if "n < 16" for n
    using that by (auto simp: hex_digit_def)
  ultimately show ?thesis by (simp add: pct_def)
qed

lemma encode_code_point_ascii:
  "valid_code_point cp \<Longrightarrow> \<forall>c \<in> set (encode_code_point cp). c < 128 \<and> c \<noteq> 58"
proof (cases "uri_unreserved cp")
  case True
  then show ?thesis by (auto simp: encode_code_point_def uri_unreserved_def)
next
  case False
  assume "valid_code_point cp"
  from utf8_bytes[OF this] have "\<forall>b \<in> set (utf8 cp). \<forall>c \<in> set (pct b). c < 128 \<and> c \<noteq> 58"
    using pct_ascii by blast
  with False show ?thesis by (simp add: encode_code_point_def)
qed

lemma surrogate_bounds:
  "0xD800 \<le> (c :: 16 word) \<Longrightarrow> c \<le> 0xDBFF \<Longrightarrow> 0xD800 \<le> unat c \<and> unat c \<le> 0xDBFF"
  "0xDC00 \<le> (c :: 16 word) \<Longrightarrow> c \<le> 0xDFFF \<Longrightarrow> 0xDC00 \<le> unat c \<and> unat c \<le> 0xDFFF"
  by (simp_all add: word_le_nat_alt)

lemma supplementary_bounds:
  assumes "0xD800 \<le> c \<and> c \<le> 0xDBFF" "0xDC00 \<le> d \<and> d \<le> 0xDFFF"
  shows "0x10000 \<le> supplementary c d" "valid_code_point (supplementary c d)"
  using surrogate_bounds(1)[of c] surrogate_bounds(2)[of d] assms
  by (auto simp: supplementary_def valid_code_point_def)

lemma supplementary_inj:
  assumes "0xD800 \<le> c \<and> c \<le> 0xDBFF" "0xDC00 \<le> d \<and> d \<le> 0xDFFF"
    "0xD800 \<le> e \<and> e \<le> 0xDBFF" "0xDC00 \<le> f \<and> f \<le> 0xDFFF"
    "supplementary c d = supplementary e f"
  shows "c = e \<and> d = f"
proof -
  define p q r t where pq: "p = unat c - 0xD800" "q = unat d - 0xDC00" "r = unat e - 0xD800"
    "t = unat f - 0xDC00"
  note sb = surrogate_bounds(1)[of c] surrogate_bounds(1)[of e] surrogate_bounds(2)[of d]
    surrogate_bounds(2)[of f]
  have lt: "q < 0x400" "t < 0x400" using sb assms pq by auto
  have eq: "p * 0x400 + q = r * 0x400 + t"
    using assms(5) by (simp add: supplementary_def pq)
  then have "(p * 0x400 + q) div 0x400 = (r * 0x400 + t) div 0x400"
    "(p * 0x400 + q) mod 0x400 = (r * 0x400 + t) mod 0x400" by simp_all
  with lt have "p = r" "q = t" by simp_all
  with sb assms(1-4) pq have "unat c = unat e" "unat d = unat f" by auto
  then show ?thesis by (simp add: word_unat_eq_iff)
qed

lemma code_points_valid: "code_points s = Some ps \<Longrightarrow> \<forall>p \<in> set ps. valid_code_point p"
proof (induction s arbitrary: ps rule: code_points.induct)
  case 1
  then show ?case by simp
next
  case (2 c cs)
  have small: "unat c < 65536" using unsigned_less[of c] by simp
  show ?case
  proof (cases "0xD800 \<le> c \<and> c \<le> 0xDBFF")
    case True
    with "2.prems" obtain d ds qs where d: "cs = d # ds" "0xDC00 \<le> d \<and> d \<le> 0xDFFF"
      and qs: "code_points ds = Some qs"
      and ps: "ps = supplementary c d # qs"
      by (auto split: list.splits if_splits)
    from "2.IH"(1)[OF True d(1) d(2) qs] ps supplementary_bounds(2)[OF True d(2)]
    show ?thesis by auto
  next
    case False
    with "2.prems" obtain qs where "\<not> (0xDC00 \<le> c \<and> c \<le> 0xDFFF)"
      and qs: "code_points cs = Some qs" and "ps = unat c # qs"
      by (auto split: if_splits)
    with "2.IH"(2)[OF False _ qs] small show ?thesis by (auto simp: valid_code_point_def)
  qed
qed

lemma code_points_inj:
  "code_points s = Some ps \<Longrightarrow> code_points t = Some ps \<Longrightarrow> s = t"
proof (induction s arbitrary: ps t rule: code_points.induct)
  case 1
  then show ?case by (cases t) (auto split: if_splits list.splits)
next
  case (2 c cs)
  obtain e es where t: "t = e # es"
    using "2.prems" by (cases t) (auto split: if_splits list.splits)
  have small: "unat c < 65536" "unat e < 65536" using unsigned_less[of c] unsigned_less[of e] by simp_all
  show ?case
  proof (cases "0xD800 \<le> c \<and> c \<le> 0xDBFF")
    case True
    with "2.prems"(1) obtain d ds qs where d: "cs = d # ds" "0xDC00 \<le> d \<and> d \<le> 0xDFFF"
      and qs: "code_points ds = Some qs"
      and ps: "ps = supplementary c d # qs"
      by (auto split: list.splits if_splits)
    note big = supplementary_bounds(1)[OF True d(2)]
    have e: "0xD800 \<le> e \<and> e \<le> 0xDBFF"
    proof (rule ccontr)
      assume "\<not> (0xD800 \<le> e \<and> e \<le> 0xDBFF)"
      with "2.prems"(2) ps have "supplementary c d = unat e" by (auto simp: t split: if_splits)
      with big small show False by simp
    qed
    with "2.prems"(2) obtain d' ds' where d': "es = d' # ds'" "0xDC00 \<le> d' \<and> d' \<le> 0xDFFF"
      and qs': "code_points ds' = Some qs"
      and eq: "supplementary c d = supplementary e d'"
      using ps by (auto simp: t split: list.splits if_splits)
    have "c = e" "d = d'" using supplementary_inj[OF True d(2) e d'(2) eq] by simp_all
    moreover have "ds = ds'" using "2.IH"(1)[OF True d(1) d(2) qs qs'] .
    ultimately show ?thesis using t d d' by simp
  next
    case False
    with "2.prems"(1) obtain qs where nc: "\<not> (0xDC00 \<le> c \<and> c \<le> 0xDFFF)"
      and qs: "code_points cs = Some qs" and ps: "ps = unat c # qs"
      by (auto split: if_splits)
    have "\<not> (0xD800 \<le> e \<and> e \<le> 0xDBFF)"
    proof
      assume e: "0xD800 \<le> e \<and> e \<le> 0xDBFF"
      with "2.prems"(2) ps obtain d' where "0xDC00 \<le> d' \<and> d' \<le> 0xDFFF"
        "supplementary e d' = unat c"
        by (auto simp: t split: list.splits if_splits)
      with supplementary_bounds(1)[OF e, of d'] small show False by simp
    qed
    with "2.prems"(2) ps t have "unat e = unat c" "code_points es = Some qs"
      by (auto split: if_splits)
    with "2.IH"(2)[OF False nc qs] t show ?thesis by (simp add: word_unat_eq_iff)
  qed
qed

lemma map_of_nat_inj:
  assumes "map (of_nat :: nat \<Rightarrow> 16 word) xs = map of_nat ys"
    "\<forall>x \<in> set xs. x < 128" "\<forall>y \<in> set ys. y < 128"
  shows "xs = ys"
proof (rule map_inj_on[OF assms(1)])
  show "inj_on (of_nat :: nat \<Rightarrow> 16 word) (set xs \<union> set ys)"
  proof (rule inj_onI)
    fix a b
    assume "a \<in> set xs \<union> set ys" "b \<in> set xs \<union> set ys" "(of_nat a :: 16 word) = of_nat b"
    moreover from this have "a < 2 ^ 16" "b < 2 ^ 16" using assms by auto
    ultimately show "a = b"
      by (metis of_nat_inverse_16)
  qed
qed

lemma encodeURIComponent_inj:
  assumes "encodeURIComponent s = Inr e" "encodeURIComponent t = Inr e"
  shows "s = t"
proof -
  from assms obtain ps qs where ps: "code_points s = Some ps" and qs: "code_points t = Some qs"
    and eq: "map (of_nat :: nat \<Rightarrow> 16 word) (concat (map encode_code_point ps))
           = map of_nat (concat (map encode_code_point qs))"
    by (auto simp: encodeURIComponent_def split: option.splits)
  note vp = code_points_valid[OF ps] and vq = code_points_valid[OF qs]
  have "concat (map encode_code_point ps) = concat (map encode_code_point qs)"
    by (rule map_of_nat_inj[OF eq]) (use vp vq encode_code_point_ascii in auto)
  from encode_code_points_inj[OF this vp vq] have "ps = qs" .
  with code_points_inj ps qs show ?thesis by blast
qed

lemma encodeURIComponent_no_colon:
  assumes "encodeURIComponent s = Inr e"
  shows "58 \<notin> set e"
proof -
  from assms obtain ps where ps: "code_points s = Some ps"
    and e: "e = map of_nat (concat (map encode_code_point ps))"
    by (auto simp: encodeURIComponent_def split: option.splits)
  have "\<forall>c \<in> set (concat (map encode_code_point ps)). c < 128 \<and> c \<noteq> 58"
    using code_points_valid[OF ps] encode_code_point_ascii by auto
  moreover have "(of_nat c :: 16 word) \<noteq> 58" if "c < 128" "c \<noteq> 58" for c
  proof
    assume "(of_nat c :: 16 word) = 58"
    then have "unat (of_nat c :: 16 word) = 58" by simp
    with that show False by (simp add: unat_of_nat take_bit_nat_eq_self)
  qed
  ultimately show ?thesis by (auto simp: e)
qed

lemma split_at_colon:
  assumes "xs @ 58 # s = ys @ 58 # t" "58 \<notin> set xs" "58 \<notin> set ys"
  shows "xs = ys \<and> s = (t :: jstring)"
  using assms
proof (induction xs arbitrary: ys)
  case Nil
  then show ?case by (cases ys) auto
next
  case (Cons x xs)
  then show ?case by (cases ys) auto
qed

lemma event_name_inj: "js (event_name a) = js (event_name b) \<Longrightarrow> a = b"
  by (cases a; cases b) (auto simp: js_def)

lemma requireIdentifier_Inr:
  "requireIdentifier v n = Inr t \<longleftrightarrow> t = js_trim v \<and> t \<noteq> []"
  by (auto simp: requireIdentifier_def Let_def)

lemma createNotificationDedupeKey_Inr:
  "createNotificationDedupeKey parts = Inr k \<longleftrightarrow>
     js_trim (dp_incidentId parts) \<noteq> [] \<and> js_trim (dp_channelId parts) \<noteq> [] \<and>
     (\<exists>i c. encodeURIComponent (js_trim (dp_incidentId parts)) = Inr i \<and>
            encodeURIComponent (js_trim (dp_channelId parts)) = Inr c \<and>
            k = js ''incident:'' @ i @ js '':channel:'' @ c @ js '':event:'' @
                js (event_name (dp_eventType parts)))"
  by (auto simp: createNotificationDedupeKey_def requireIdentifier_def Let_def
      split: sum.splits if_splits)

lemma dedupe_key_parts:
  assumes "js ''incident:'' @ i @ js '':channel:'' @ c @ js '':event:'' @ e
         = js ''incident:'' @ i' @ js '':channel:'' @ c' @ js '':event:'' @ e'"
    and "58 \<notin> set i" "58 \<notin> set i'" "58 \<notin> set c" "58 \<notin> set c'"
  shows "i = i' \<and> c = c' \<and> e = e'"
proof -
  have colon: "js ('':'' @ s) = 58 # js s" for s by (simp add: js_def)
  from assms(1) have "i @ 58 # (js ''channel:'' @ c @ 58 # (js ''event:'' @ e))
      = i' @ 58 # (js ''channel:'' @ c' @ 58 # (js ''event:'' @ e'))"
    using colon[of "''channel:''"] colon[of "''event:''"] by simp
  from split_at_colon[OF this assms(2,3)]
  have i: "i = i'" and "c @ 58 # (js ''event:'' @ e) = c' @ 58 # (js ''event:'' @ e')" by simp_all
  from split_at_colon[OF this(2) assms(4,5)] i show ?thesis by simp
qed

section \<open>Properties\<close>

text \<open>The idempotency key of an outbox row identifies its delivery: two keys are equal only
when the trimmed incident and channel identifiers and the event type are, for any
identifiers, those with colons or non-ASCII text included.\<close>

theorem dedupe_key_injective:
  assumes "createNotificationDedupeKey p = Inr k" "createNotificationDedupeKey q = Inr k"
  shows "js_trim (dp_incidentId p) = js_trim (dp_incidentId q) \<and>
         js_trim (dp_channelId p) = js_trim (dp_channelId q) \<and> dp_eventType p = dp_eventType q"
proof -
  from assms(1) obtain i c where p: "encodeURIComponent (js_trim (dp_incidentId p)) = Inr i"
    "encodeURIComponent (js_trim (dp_channelId p)) = Inr c"
    "k = js ''incident:'' @ i @ js '':channel:'' @ c @ js '':event:'' @ js (event_name (dp_eventType p))"
    by (auto simp: createNotificationDedupeKey_Inr)
  from assms(2) obtain i' c' where q: "encodeURIComponent (js_trim (dp_incidentId q)) = Inr i'"
    "encodeURIComponent (js_trim (dp_channelId q)) = Inr c'"
    "k = js ''incident:'' @ i' @ js '':channel:'' @ c' @ js '':event:'' @ js (event_name (dp_eventType q))"
    by (auto simp: createNotificationDedupeKey_Inr)
  have "i = i' \<and> c = c' \<and> js (event_name (dp_eventType p)) = js (event_name (dp_eventType q))"
    by (rule dedupe_key_parts) (use p q encodeURIComponent_no_colon in auto)
  with p q encodeURIComponent_inj event_name_inj show ?thesis by metis
qed

theorem dedupe_key_injective_witness:
  "\<exists>k. createNotificationDedupeKey \<lparr>dp_incidentId = js ''a b'', dp_channelId = js ''c:1'',
           dp_eventType = RECOVERY\<rparr> = Inr k \<and>
       createNotificationDedupeKey \<lparr>dp_incidentId = js '' a b'', dp_channelId = js ''c:1'',
           dp_eventType = RECOVERY\<rparr> = Inr k \<and>
       k = js ''incident:a%20b:channel:c%3A1:event:RECOVERY'' \<and>
       js_trim (js ''a b'') = js_trim (js '' a b'')"
proof -
  let ?k = "js ''incident:a%20b:channel:c%3A1:event:RECOVERY''"
  let ?p = "\<lparr>dp_incidentId = js ''a b'', dp_channelId = js ''c:1'', dp_eventType = RECOVERY\<rparr>"
  let ?q = "\<lparr>dp_incidentId = js '' a b'', dp_channelId = js ''c:1'', dp_eventType = RECOVERY\<rparr>"
  have p: "createNotificationDedupeKey ?p = Inr ?k" by code_simp
  have q: "createNotificationDedupeKey ?q = Inr ?k" by code_simp
  from dedupe_key_injective[OF p q] p q show ?thesis by simp
qed

text \<open>The plan for a recovery: the pending DOWN message is replaced by one summary exactly
when no delivery of it was ever attempted and it still waits, a recovery is skipped exactly
when the DOWN failed for good or was canceled (and was not replaced), and otherwise a
recovery is created that waits for the DOWN unless it is already sent; it throws exactly on
a negative or unsafe attempt count.\<close>

theorem recovery_plan_cases:
  "(\<forall>plan. planRecoveryNotification st n = Inr plan \<longrightarrow>
      (plan = REPLACE_WITH_RESOLVED_SUMMARY \<longleftrightarrow>
         n = 0 \<and> st \<in> {NotificationOutboxStatus.PENDING, NotificationOutboxStatus.ENQUEUED}) \<and>
      (plan = SKIP \<longleftrightarrow>
         st \<in> {NotificationOutboxStatus.FAILED, NotificationOutboxStatus.CANCELED}) \<and>
      (\<forall>w. plan = CREATE_RECOVERY w \<longrightarrow> (w \<longleftrightarrow> st \<noteq> SENT))) \<and>
   ((\<exists>e. planRecoveryNotification st n = Inl e) \<longleftrightarrow> n < 0 \<or> 2 ^ 53 - 1 < n)"
  by (cases st) (auto simp: planRecoveryNotification_def safe_integer_def)

theorem recovery_plan_cases_witness:
  "planRecoveryNotification NotificationOutboxStatus.PENDING 0 = Inr REPLACE_WITH_RESOLVED_SUMMARY
   \<and> 0 \<le> (0::int)"
proof -
  have "planRecoveryNotification NotificationOutboxStatus.PENDING 0 = Inr REPLACE_WITH_RESOLVED_SUMMARY"
    by (simp add: planRecoveryNotification_def safe_integer_def)
  with recovery_plan_cases[of NotificationOutboxStatus.PENDING 0] show ?thesis by simp
qed

end
