(* ===== verification/Json_Values.thy ===== *)
theory Json_Values
  imports Prelude
begin

text \<open>
  Values of JSON columns and the conversions of the language that build them: decimal
  numerals in template strings and \<open>Date.prototype.toISOString\<close>.
\<close>

datatype json =
    JNull
  | JBool bool
  | JNum int
  | JStr jstring
  | JArr "json list"
  | JObj "(jstring \<times> json) list"

fun jget :: "json \<Rightarrow> jstring \<Rightarrow> json option" where
  "jget (JObj kvs) k = map_of kvs k"
| "jget _ k = None"

definition nullable :: "('a \<Rightarrow> json) \<Rightarrow> 'a option \<Rightarrow> json" where
  "nullable f v = (case v of None \<Rightarrow> JNull | Some x \<Rightarrow> f x)"

text \<open>\<open>Array.isArray(v) ? v.filter((x): x is string => typeof x === 'string') : []\<close>\<close>

fun string_items :: "json option \<Rightarrow> jstring list" where
  "string_items (Some (JArr vs)) = [s. JStr s \<leftarrow> vs]"
| "string_items _ = []"

section \<open>Numerals\<close>

function decimal :: "int \<Rightarrow> jstring" where
  "decimal n =
     (if n < 10 then [of_int (48 + n)] else decimal (n div 10) @ [of_int (48 + n mod 10)])"
  by pat_completeness auto
termination by (relation "measure nat") auto

declare decimal.simps [simp del]

definition js_number :: "int \<Rightarrow> jstring" where
  "js_number i = (if i < 0 then 45 # decimal (- i) else decimal i)"

fun padded :: "nat \<Rightarrow> int \<Rightarrow> jstring" where
  "padded 0 n = []"
| "padded (Suc k) n = padded k (n div 10) @ [of_int (48 + n mod 10)]"

section \<open>Dates\<close>

text \<open>The proleptic Gregorian date of a day number, counted from 1970-01-01.\<close>

definition civil_date :: "int \<Rightarrow> int \<times> int \<times> int" where
  "civil_date days =
     (let z = days + 719468;
          era = z div 146097;
          doe = z mod 146097;
          yoe = (doe - doe div 1460 + doe div 36524 - doe div 146096) div 365;
          doy = doe - (365 * yoe + yoe div 4 - yoe div 100);
          mp = (5 * doy + 2) div 153;
          d = doy - (153 * mp + 2) div 5 + 1;
          m = (if mp < 10 then mp + 3 else mp - 9);
          y = yoe + era * 400 + (if m \<le> 2 then 1 else 0)
      in (y, m, d))"

definition iso_year :: "int \<Rightarrow> jstring" where
  "iso_year y =
     (if 0 \<le> y \<and> y \<le> 9999 then padded 4 y
      else (if y < 0 then 45 else 43) # padded 6 \<bar>y\<bar>)"

definition toISOString :: "time \<Rightarrow> jstring" where
  "toISOString t =
     (let (y, m, d) = civil_date (t div 86400000);
          ms = t mod 86400000
      in iso_year y @ js ''-'' @ padded 2 m @ js ''-'' @ padded 2 d @ js ''T'' @
         padded 2 (ms div 3600000) @ js '':'' @ padded 2 (ms div 60000 mod 60) @ js '':'' @
         padded 2 (ms div 1000 mod 60) @ js ''.'' @ padded 3 (ms mod 1000) @ js ''Z'')"

lemma toISOString_examples:
  "toISOString 0 = js ''1970-01-01T00:00:00.000Z''"
  "toISOString 951782399999 = js ''2000-02-28T23:59:59.999Z''"
  "toISOString (- 1) = js ''1969-12-31T23:59:59.999Z''"
  by code_simp+

end
