(* ===== verification/Database.thy ===== *)
theory Database
  imports Monitor_State Notification_Policy Json_Values
begin

text \<open>
  The database of \<open>packages/database/prisma/schema.prisma\<close>: one record per table with its
  columns, the state-machine columns of a monitor grouped in \<open>mo_state\<close>, the database as a
  record of tables, and the client's \<open>create\<close> with the unique indexes of the migrations.
  Columns kept by the client or the server alone (\<open>updated_at\<close>, the generated columns behind
  the partial unique indexes) are not rows' fields; a query that reads \<open>updated_at\<close> takes it
  as a parameter. Primary keys are generated by the client, so an operation that creates a
  row takes its new id as a parameter.
\<close>

section \<open>Rows\<close>

datatype AccountRole = ADMIN | USER

record Account =
  ac_id :: id
  ac_username :: jstring
  ac_passwordHash :: jstring
  ac_role :: AccountRole
  ac_enabled :: bool
  ac_lastLoginAt :: "time option"
  ac_createdAt :: time

record LoginSession =
  se_id :: id
  se_accountId :: id
  se_ipAddress :: "jstring option"
  se_userAgent :: "jstring option"
  se_lastSeenAt :: time
  se_expiresAt :: time
  se_revokedAt :: "time option"
  se_createdAt :: time

record Monitor =
  mo_id :: id
  mo_ownerAccountId :: "id option"
  mo_name :: jstring
  mo_requestUrlEncrypted :: "8 word list"
  mo_displayUrl :: jstring
  mo_hostnameNormalized :: jstring
  mo_method :: HttpMethod
  mo_intervalSec :: int
  mo_timeoutMs :: int
  mo_expectedStatusMin :: int
  mo_expectedStatusMax :: int
  mo_expectedKeyword :: "jstring option"
  mo_followRedirects :: bool
  mo_maxRedirects :: int
  mo_failureThreshold :: int
  mo_recoveryThreshold :: int
  mo_state :: MonitorState
  mo_lastCheckedAt :: "time option"
  mo_networkUnknownSince :: "time option"
  mo_lastSuccessAt :: "time option"
  mo_lastFailureAt :: "time option"
  mo_lastStatusCode :: "int option"
  mo_lastTtfbMs :: "int option"
  mo_lastTotalMs :: "int option"
  mo_lastErrorType :: "CheckErrorType option"
  mo_nextCheckAt :: "time option"
  mo_createdAt :: time
  mo_deletedAt :: "time option"

record ScheduledCheck =
  sc_id :: id
  sc_monitorId :: id
  sc_scheduledAt :: time
  sc_configVersion :: int
  sc_status :: ScheduledCheckStatus
  sc_leaseOwner :: "jstring option"
  sc_leaseUntil :: "time option"
  sc_queueJobId :: "jstring option"
  sc_attemptCount :: int
  sc_failureReasonSafe :: "jstring option"
  sc_enqueuedAt :: "time option"
  sc_startedAt :: "time option"
  sc_completedAt :: "time option"
  sc_canceledAt :: "time option"
  sc_createdAt :: time

record CheckResult =
  cr_id :: id
  cr_monitorId :: "id option"
  cr_scheduledCheckId :: "id option"
  cr_source :: CheckSource
  cr_outcome :: CheckOutcome
  cr_configVersion :: "int option"
  cr_displayUrlSnapshot :: jstring
  cr_startedAt :: time
  cr_finishedAt :: time
  cr_statusCode :: "int option"
  cr_ttfbMs :: "int option"
  cr_totalMs :: int
  cr_errorType :: "CheckErrorType option"
  cr_errorMessageSafe :: "jstring option"
  cr_workerRegion :: "jstring option"
  cr_redirectCount :: int
  cr_responseBytesRead :: "int option"
  cr_createdAt :: time

record Incident =
  ic_id :: id
  ic_monitorId :: id
  ic_configVersion :: int
  ic_status :: IncidentStatus
  ic_firstFailureAt :: time
  ic_detectedAt :: time
  ic_resolvedAt :: "time option"
  ic_canceledAt :: "time option"
  ic_firstErrorType :: "CheckErrorType option"
  ic_lastErrorType :: "CheckErrorType option"
  ic_closureReason :: "IncidentClosureReason option"
  ic_createdAt :: time

record NotificationChannel =
  ch_id :: id
  ch_type :: jstring
  ch_displayName :: jstring
  ch_encryptedConfig :: "8 word list"
  ch_verifiedAt :: "time option"
  ch_enabled :: bool
  ch_createdAt :: time
  ch_deletedAt :: "time option"

record MonitorChannel =
  mc_monitorId :: id
  mc_channelId :: id
  mc_notifyOnDown :: bool
  mc_notifyOnRecovery :: bool
  mc_createdAt :: time

record NotificationOutbox =
  ob_id :: id
  ob_monitorId :: "id option"
  ob_incidentId :: "id option"
  ob_channelId :: id
  ob_eventType :: NotificationEventType
  ob_sequence :: int
  ob_dedupeKey :: jstring
  ob_payloadSafe :: json
  ob_channelTypeSnapshot :: jstring
  ob_channelDisplayNameSnapshot :: jstring
  ob_encryptedConfigSnapshot :: "8 word list"
  ob_status :: NotificationOutboxStatus
  ob_availableAt :: time
  ob_leaseOwner :: "jstring option"
  ob_leaseUntil :: "time option"
  ob_queueJobId :: "jstring option"
  ob_messageId :: jstring
  ob_attemptCount :: int
  ob_maxAttempts :: int
  ob_lastErrorSafe :: "jstring option"
  ob_enqueuedAt :: "time option"
  ob_processingAt :: "time option"
  ob_sentAt :: "time option"
  ob_failedAt :: "time option"
  ob_canceledAt :: "time option"
  ob_createdAt :: time

record NetworkSettings =
  ns_id :: int
  ns_enabled :: bool
  ns_urls :: json
  ns_channelIds :: json
  ns_version :: int

record NetworkObserver =
  no_id :: jstring
  no_status :: jstring
  no_checkedAt :: "time option"
  no_probeResults :: "json option"
  no_activeOutageId :: "id option"

record NetworkOutage =
  nu_id :: id
  nu_observerId :: jstring
  nu_startedAt :: time
  nu_recoveredAt :: "time option"
  nu_canceledAt :: "time option"
  nu_summarizedAt :: "time option"
  nu_channelIds :: json

record NetworkObservation =
  nb_outageId :: id
  nb_monitorId :: id
  nb_configVersion :: int
  nb_recheckedAt :: "time option"
  nb_outcome :: "jstring option"

record NotificationDelivery =
  nd_id :: id
  nd_outboxId :: id
  nd_attempt :: int
  nd_status :: NotificationDeliveryStatus
  nd_messageId :: jstring
  nd_providerMessageId :: "jstring option"
  nd_errorSafe :: "jstring option"
  nd_startedAt :: time
  nd_finishedAt :: "time option"
  nd_sentAt :: "time option"
  nd_createdAt :: time

record AuditLog =
  al_id :: id
  al_actorId :: "jstring option"
  al_action :: jstring
  al_targetType :: jstring
  al_targetId :: jstring
  al_metadataSafe :: "json option"
  al_requestId :: "jstring option"
  al_createdAt :: time

section \<open>Tables\<close>

record db =
  accounts :: "Account list"
  loginSessions :: "LoginSession list"
  monitors :: "Monitor list"
  scheduledChecks :: "ScheduledCheck list"
  checkResults :: "CheckResult list"
  incidents :: "Incident list"
  channels :: "NotificationChannel list"
  monitorChannels :: "MonitorChannel list"
  outbox :: "NotificationOutbox list"
  networkSettings :: "NetworkSettings list"
  networkObservers :: "NetworkObserver list"
  networkOutages :: "NetworkOutage list"
  networkObservations :: "NetworkObservation list"
  deliveries :: "NotificationDelivery list"
  auditLogs :: "AuditLog list"

definition empty_db :: db where
  "empty_db = \<lparr>accounts = [], loginSessions = [], monitors = [], scheduledChecks = [],
     checkResults = [], incidents = [], channels = [], monitorChannels = [], outbox = [],
     networkSettings = [], networkObservers = [], networkOutages = [], networkObservations = [],
     deliveries = [], auditLogs = []\<rparr>"

text \<open>What a statement of a transaction can throw; a throw rolls the transaction back.\<close>

datatype db_error =
    UniqueConstraint string
  | RecordNotFound
  | Thrown js_error

text \<open>Statements in order, the first error ending the transaction.\<close>

fun fold_tx :: "('x \<Rightarrow> 's \<Rightarrow> db_error + 's) \<Rightarrow> 'x list \<Rightarrow> 's \<Rightarrow> db_error + 's" where
  "fold_tx f [] s = Inr s"
| "fold_tx f (x # xs) s = (case f x s of Inl e \<Rightarrow> Inl e | Inr s' \<Rightarrow> fold_tx f xs s')"

lemma fold_tx_inv:
  assumes "fold_tx f xs s = Inr s'" "P s"
    and "\<And>x s s'. x \<in> set xs \<Longrightarrow> P s \<Longrightarrow> f x s = Inr s' \<Longrightarrow> P s'"
  shows "P s'"
  using assms
proof (induction xs arbitrary: s)
  case Nil
  then show ?case by simp
next
  case (Cons x xs)
  from Cons.prems(1) obtain t where t: "f x s = Inr t" "fold_tx f xs t = Inr s'"
    by (auto split: sum.splits)
  have "P t" by (rule Cons.prems(3)[OF _ Cons.prems(2) t(1)]) simp
  with t(2) show ?case by (rule Cons.IH) (rule Cons.prems(3), simp_all)
qed

text \<open>\<open>findUnique\<close> by a key.\<close>

definition find_by :: "('r \<Rightarrow> 'k) \<Rightarrow> 'k \<Rightarrow> 'r list \<Rightarrow> 'r option" where
  "find_by key k rows = find (\<lambda>r. key r = k) rows"

lemma find_by_Some: "find_by key k rows = Some r \<Longrightarrow> r \<in> set rows \<and> key r = k"
  unfolding find_by_def by (drule find_Some_in) simp

lemma find_by_None: "find_by key k rows = None \<longleftrightarrow> (\<forall>r \<in> set rows. key r \<noteq> k)"
  by (auto simp: find_by_def find_None_iff)

lemma find_by_distinct:
  "distinct (map key rows) \<Longrightarrow> r \<in> set rows \<Longrightarrow> key r = k \<Longrightarrow> find_by key k rows = Some r"
  unfolding find_by_def by (induction rows) auto

text \<open>\<open>ORDER BY key DESC\<close> with \<open>findFirst\<close>: the first row with the largest key.\<close>

definition find_latest :: "('r \<Rightarrow> bool) \<Rightarrow> ('r \<Rightarrow> time) \<Rightarrow> 'r list \<Rightarrow> 'r option" where
  "find_latest p key rows =
     (case sort_key (\<lambda>r. - key r) (filter p rows) of [] \<Rightarrow> None | r # _ \<Rightarrow> Some r)"

lemma find_latest_Some: "find_latest p key rows = Some r \<Longrightarrow> r \<in> set rows \<and> p r"
proof -
  assume "find_latest p key rows = Some r"
  then have "\<exists>rs. sort_key (\<lambda>r. - key r) (filter p rows) = r # rs"
    by (auto simp: find_latest_def split: list.splits)
  then have "r \<in> set (sort_key (\<lambda>r. - key r) (filter p rows))" by (metis list.set_intros(1))
  then show ?thesis by simp
qed

lemma find_latest_None: "find_latest p key rows = None \<longleftrightarrow> (\<forall>r \<in> set rows. \<not> p r)"
proof -
  have "find_latest p key rows = None \<longleftrightarrow> sort_key (\<lambda>r. - key r) (filter p rows) = []"
    by (simp add: find_latest_def split: list.splits)
  also have "\<dots> \<longleftrightarrow> set (sort_key (\<lambda>r. - key r) (filter p rows)) = {}" by (simp only: set_empty)
  also have "\<dots> \<longleftrightarrow> (\<forall>r \<in> set rows. \<not> p r)" by auto
  finally show ?thesis .
qed

section \<open>Creating rows under the unique indexes\<close>

definition active_check :: "ScheduledCheck \<Rightarrow> bool" where
  "active_check c \<longleftrightarrow> sc_status c = ScheduledCheckStatus.PENDING \<or>
     sc_status c = ScheduledCheckStatus.ENQUEUED \<or> sc_status c = RUNNING"

definition create_check :: "ScheduledCheck \<Rightarrow> db \<Rightarrow> db_error + db" where
  "create_check c d =
     (if \<exists>x \<in> set (scheduledChecks d). sc_monitorId x = sc_monitorId c \<and>
           sc_scheduledAt x = sc_scheduledAt c \<and> sc_configVersion x = sc_configVersion c
      then Inl (UniqueConstraint ''scheduled_checks_schedule_key'')
      else if active_check c \<and>
           (\<exists>x \<in> set (scheduledChecks d). active_check x \<and> sc_monitorId x = sc_monitorId c)
      then Inl (UniqueConstraint ''scheduled_checks_one_active_per_monitor_idx'')
      else Inr (d\<lparr>scheduledChecks := scheduledChecks d @ [c]\<rparr>))"

definition create_result :: "CheckResult \<Rightarrow> db \<Rightarrow> db_error + db" where
  "create_result r d =
     (if cr_scheduledCheckId r \<noteq> None \<and> cr_monitorId r \<noteq> None \<and> cr_configVersion r \<noteq> None \<and>
         (\<exists>x \<in> set (checkResults d). cr_scheduledCheckId x = cr_scheduledCheckId r \<and>
            cr_monitorId x = cr_monitorId r \<and> cr_configVersion x = cr_configVersion r)
      then Inl (UniqueConstraint ''check_results_scheduled_identity_key'')
      else Inr (d\<lparr>checkResults := checkResults d @ [r]\<rparr>))"

definition open_incident :: "Incident \<Rightarrow> bool" where
  "open_incident i \<longleftrightarrow> ic_status i = IncidentStatus.OPEN"

definition create_incident :: "Incident \<Rightarrow> db \<Rightarrow> db_error + db" where
  "create_incident i d =
     (if open_incident i \<and>
         (\<exists>x \<in> set (incidents d). open_incident x \<and> ic_monitorId x = ic_monitorId i)
      then Inl (UniqueConstraint ''incidents_one_open_per_monitor_idx'')
      else Inr (d\<lparr>incidents := incidents d @ [i]\<rparr>))"

definition create_outbox :: "NotificationOutbox \<Rightarrow> db \<Rightarrow> db_error + db" where
  "create_outbox o' d =
     (if \<exists>x \<in> set (outbox d). ob_dedupeKey x = ob_dedupeKey o'
      then Inl (UniqueConstraint ''notification_outbox_dedupe_key'')
      else if ob_incidentId o' \<noteq> None \<and>
           (\<exists>x \<in> set (outbox d). ob_incidentId x = ob_incidentId o' \<and>
              ob_channelId x = ob_channelId o' \<and> ob_sequence x = ob_sequence o')
      then Inl (UniqueConstraint ''notification_outbox_incident_channel_sequence_key'')
      else Inr (d\<lparr>outbox := outbox d @ [o']\<rparr>))"

definition create_delivery :: "NotificationDelivery \<Rightarrow> db \<Rightarrow> db_error + db" where
  "create_delivery n d =
     (if \<exists>x \<in> set (deliveries d). nd_outboxId x = nd_outboxId n \<and> nd_attempt x = nd_attempt n
      then Inl (UniqueConstraint ''notification_deliveries_attempt_key'')
      else Inr (d\<lparr>deliveries := deliveries d @ [n]\<rparr>))"

lemma create_check_Inr:
  "create_check c d = Inr d' \<Longrightarrow> d' = d\<lparr>scheduledChecks := scheduledChecks d @ [c]\<rparr>"
  by (simp add: create_check_def split: if_splits)

lemma create_result_Inr:
  "create_result r d = Inr d' \<Longrightarrow> d' = d\<lparr>checkResults := checkResults d @ [r]\<rparr>"
  by (simp add: create_result_def split: if_splits)

lemma create_incident_Inr:
  "create_incident i d = Inr d' \<Longrightarrow> d' = d\<lparr>incidents := incidents d @ [i]\<rparr>"
  by (simp add: create_incident_def split: if_splits)

lemma create_outbox_Inr:
  "create_outbox x d = Inr d' \<Longrightarrow> d' = d\<lparr>outbox := outbox d @ [x]\<rparr>"
  by (simp add: create_outbox_def split: if_splits)

lemma create_delivery_Inr:
  "create_delivery n d = Inr d' \<Longrightarrow> d' = d\<lparr>deliveries := deliveries d @ [n]\<rparr>"
  by (simp add: create_delivery_def split: if_splits)

lemmas create_Inr = create_check_Inr create_result_Inr create_incident_Inr create_outbox_Inr
  create_delivery_Inr

text \<open>The incidents of a monitor that are open; the partial unique index keeps at most one.\<close>

definition open_incidents :: "id \<Rightarrow> db \<Rightarrow> nat" where
  "open_incidents m d = count_where (\<lambda>i. open_incident i \<and> ic_monitorId i = m) (incidents d)"

abbreviation check_of :: "id \<Rightarrow> db \<Rightarrow> ScheduledCheck option" where
  "check_of i d \<equiv> find (\<lambda>c. sc_id c = i) (scheduledChecks d)"

section \<open>A row for the examples\<close>

definition example_monitor :: Monitor where
  "example_monitor =
     \<lparr>mo_id = js ''m1'', mo_ownerAccountId = None, mo_name = js ''site'',
      mo_requestUrlEncrypted = [1], mo_displayUrl = js ''https://a.example/'',
      mo_hostnameNormalized = js ''a.example'', mo_method = GET, mo_intervalSec = 60,
      mo_timeoutMs = 10000, mo_expectedStatusMin = 200, mo_expectedStatusMax = 299,
      mo_expectedKeyword = None, mo_followRedirects = True, mo_maxRedirects = 5,
      mo_failureThreshold = 1, mo_recoveryThreshold = 1, mo_state = initial_state,
      mo_lastCheckedAt = None, mo_networkUnknownSince = None, mo_lastSuccessAt = None,
      mo_lastFailureAt = None, mo_lastStatusCode = None, mo_lastTtfbMs = None,
      mo_lastTotalMs = None, mo_lastErrorType = None, mo_nextCheckAt = Some 1000,
      mo_createdAt = 0, mo_deletedAt = None\<rparr>"

end
