(* ===== verification/Check_Types.thy ===== *)
theory Check_Types
  imports Domain_Types
begin

text \<open>
  The configuration and the result of one URL check, of
  \<open>packages/monitoring/src/types.ts\<close>, shared by the checker, the network guard and the
  check processor; an optional property is an option, \<open>None\<close> when it is absent.
\<close>

record MonitorCheckConfig =
  cf_url :: jstring
  cf_method :: "HttpMethod option"
  cf_timeoutMs :: "int option"
  cf_expectedStatusMin :: "int option"
  cf_expectedStatusMax :: "int option"
  cf_expectedKeyword :: "jstring option"
  cf_followRedirects :: "bool option"
  cf_maxRedirects :: "int option"
  cf_source :: "CheckSource option"
  cf_configVersion :: "int option"

record MonitorCheckResult =
  rs_source :: CheckSource
  rs_outcome :: CheckOutcome
  rs_configVersion :: "int option"
  rs_startedAt :: time
  rs_finishedAt :: time
  rs_statusCode :: "int option"
  rs_ttfbMs :: "int option"
  rs_totalMs :: int
  rs_errorType :: "CheckErrorType option"
  rs_errorMessageSafe :: "jstring option"
  rs_finalUrlDisplay :: jstring
  rs_redirectCount :: int
  rs_inspectedBodyBytes :: int

text \<open>The runtime strings of the enumerations, where the code writes or compares them.\<close>

fun error_type_name :: "CheckErrorType \<Rightarrow> string" where
  "error_type_name DNS_ERROR = ''DNS_ERROR''"
| "error_type_name CONNECT_TIMEOUT = ''CONNECT_TIMEOUT''"
| "error_type_name CONNECTION_REFUSED = ''CONNECTION_REFUSED''"
| "error_type_name TLS_ERROR = ''TLS_ERROR''"
| "error_type_name TTFB_TIMEOUT = ''TTFB_TIMEOUT''"
| "error_type_name REQUEST_TIMEOUT = ''REQUEST_TIMEOUT''"
| "error_type_name REDIRECT_ERROR = ''REDIRECT_ERROR''"
| "error_type_name HTTP_STATUS_MISMATCH = ''HTTP_STATUS_MISMATCH''"
| "error_type_name CONTENT_MISMATCH = ''CONTENT_MISMATCH''"
| "error_type_name RESPONSE_LIMIT_EXCEEDED = ''RESPONSE_LIMIT_EXCEEDED''"
| "error_type_name NETWORK_ERROR = ''NETWORK_ERROR''"
| "error_type_name CheckErrorType.PLATFORM_ERROR = ''PLATFORM_ERROR''"

fun outcome_name :: "CheckOutcome \<Rightarrow> string" where
  "outcome_name SUCCESS = ''SUCCESS''"
| "outcome_name TARGET_FAILURE = ''TARGET_FAILURE''"
| "outcome_name CheckOutcome.PLATFORM_ERROR = ''PLATFORM_ERROR''"
| "outcome_name INCONCLUSIVE = ''INCONCLUSIVE''"

text \<open>\<open>new Date(t)\<close> differences are clamped with \<open>Math.max(0, ...)\<close>.\<close>

definition elapsed :: "time \<Rightarrow> time \<Rightarrow> int" where
  "elapsed startedAt finishedAt = max 0 (finishedAt - startedAt)"

end
