(* ===== verification/Secret_Lifecycle.thy ===== *)
theory Secret_Lifecycle
  imports Database Check_Types Complex_Main
begin

text \<open>
  What happens to encrypted values and notification payloads outside the two processors:
  the tombstone of \<open>packages/database/src/secret-tombstone.ts\<close>, the worker's
  \<open>crypto.ts\<close>, \<open>secret-lifecycle.ts\<close>, \<open>notification-order.ts\<close>, \<open>retry.ts\<close> and
  \<open>notification-payload.ts\<close>, and \<open>createStableMessageId\<close> of
  \<open>packages/notifications/src/message.ts\<close>. AES-GCM, SHA-256, \<open>JSON.parse\<close> and
  \<open>Math.random\<close> are parameters.
\<close>

section \<open>The tombstone\<close>

definition SECRET_TOMBSTONE_TEXT :: string where
  "SECRET_TOMBSTONE_TEXT = ''linkalive:secret-tombstone:v1''"

definition DOWN_NOT_DELIVERED_RECOVERY_CANCEL_REASON :: jstring where
  "DOWN_NOT_DELIVERED_RECOVERY_CANCEL_REASON =
     [0xC7A5, 0xC560, 0x20, 0xC54C, 0xB9BC, 0xC774, 0x20, 0xC804, 0xB2EC, 0xB418, 0xC9C0,
      0x20, 0xC54A, 0xC544, 0x20, 0xBCF5, 0xAD6C, 0x20, 0xC54C, 0xB9BC, 0xC744, 0x20, 0xCDE8,
      0xC18C, 0xD588, 0xC2B5, 0xB2C8, 0xB2E4, 0x2E]"

definition secretTombstoneBytes :: "8 word list" where
  "secretTombstoneBytes = map (\<lambda>c. of_nat (of_char c)) SECRET_TOMBSTONE_TEXT"

definition isSecretTombstone :: "8 word list \<Rightarrow> bool" where
  "isSecretTombstone value =
     (let expected = secretTombstoneBytes
      in if length value \<noteq> length expected then False
         else list_all (\<lambda>i. value ! i = expected ! i) [0 ..< length value])"

section \<open>Decryption\<close>

text \<open>
  \<open>encoded.split('.')\<close>. Decoding as UTF-8 keeps every byte below 128 and makes none, so the
  split is on the byte of the dot.
\<close>

fun split_on :: "'a \<Rightarrow> 'a list \<Rightarrow> 'a list list" where
  "split_on sep [] = [[]]"
| "split_on sep (b # bs) =
     (if b = sep then [] # split_on sep bs
      else (case split_on sep bs of [] \<Rightarrow> [[b]] | w # ws \<Rightarrow> (b # w) # ws))"

definition field :: "nat \<Rightarrow> 'a list list \<Rightarrow> 'a list" where
  "field i ws = (if i < length ws then ws ! i else [])"

text \<open>The three encoded parts of an envelope, \<open>None\<close> when \<open>decryptString\<close> throws on it.\<close>

definition envelope :: "8 word list \<Rightarrow> (8 word list \<times> 8 word list \<times> 8 word list) option" where
  "envelope encoded =
     (let ws = split_on 46 encoded;
          version = field 0 ws; iv = field 1 ws; tag = field 2 ws; ciphertext = field 3 ws
      in if version \<noteq> [118, 49] \<or> iv = [] \<or> tag = [] \<or> ciphertext = [] then None
         else Some (iv, tag, ciphertext))"

text \<open>\<open>decipher\<close> is AES-256-GCM under the configured key; \<open>None\<close> is a throw.\<close>

type_synonym decipher = "8 word list \<Rightarrow> 8 word list \<Rightarrow> 8 word list \<Rightarrow> jstring option"

definition decryptString :: "decipher \<Rightarrow> 8 word list \<Rightarrow> jstring option" where
  "decryptString decipher value =
     (case envelope value of None \<Rightarrow> None
      | Some (iv, tag, ciphertext) \<Rightarrow> decipher iv tag ciphertext)"

definition decryptJson :: "decipher \<Rightarrow> (jstring \<Rightarrow> json option) \<Rightarrow> 8 word list \<Rightarrow> json option" where
  "decryptJson decipher parse value =
     (case decryptString decipher value of None \<Rightarrow> None | Some s \<Rightarrow> parse s)"

section \<open>When a destination is still needed\<close>

definition TERMINAL_STATUSES :: "NotificationOutboxStatus list" where
  "TERMINAL_STATUSES = [SENT, NotificationOutboxStatus.FAILED, NotificationOutboxStatus.CANCELED]"

record NotificationSecretState =
  nss_status :: NotificationOutboxStatus
  nss_eventType :: NotificationEventType
  nss_lastErrorSafe :: "jstring option"
  nss_payloadAllowsRecovery :: bool
  nss_incidentStatus :: "IncidentStatus option"

definition shouldRetainNotificationSecret :: "NotificationSecretState \<Rightarrow> bool" where
  "shouldRetainNotificationSecret s =
     (if \<not> List.member TERMINAL_STATUSES (nss_status s) then True
      else if nss_eventType s = RECOVERY \<and> nss_status s = NotificationOutboxStatus.CANCELED \<and>
              nss_lastErrorSafe s = Some DOWN_NOT_DELIVERED_RECOVERY_CANCEL_REASON
      then True
      else nss_eventType s = NotificationEventType.DOWN \<and> nss_status s = SENT \<and>
           nss_payloadAllowsRecovery s \<and> nss_incidentStatus s = Some IncidentStatus.OPEN)"

definition retiredNotificationSecretData :: "NotificationOutbox \<Rightarrow> NotificationOutbox" where
  "retiredNotificationSecretData o' = o'\<lparr>ob_encryptedConfigSnapshot := secretTombstoneBytes\<rparr>"

datatype PriorDownStatus = READY | WAIT | CANCEL

definition recoveryPrerequisiteStatus :: "NotificationOutboxStatus option \<Rightarrow> PriorDownStatus" where
  "recoveryPrerequisiteStatus status =
     (if status = Some SENT then READY
      else if status = None \<or> status = Some NotificationOutboxStatus.FAILED \<or>
              status = Some NotificationOutboxStatus.CANCELED then CANCEL
      else WAIT)"

section \<open>Retry delay\<close>

text \<open>\<open>random\<close> is the value of \<open>Math.random\<close>, a rational in \<open>[0, 1)\<close>.\<close>

definition retry_base :: "int \<Rightarrow> int" where
  "retry_base attempt =
     (let safeAttempt = max 1 (min 10 attempt) in min 60000 (2000 * 2 ^ nat (safeAttempt - 1)))"

definition retryDelayMs :: "int \<Rightarrow> rat \<Rightarrow> int" where
  "retryDelayMs attempt random =
     \<lfloor>of_int (retry_base attempt) * (3 / 4 + random * (1 / 2)) + 1 / 2\<rfloor>"

section \<open>Stable message identifiers\<close>

text \<open>
  \<open>toLowerCase\<close> up to the characters the next step removes: besides the ASCII capitals only
  the Kelvin sign and the dotted capital I have an ASCII letter in their lower case.
\<close>

definition lower_unit :: "16 word \<Rightarrow> jstring" where
  "lower_unit c =
     (if 65 \<le> c \<and> c \<le> 90 then [c + 32]
      else if c = 0x212A then [107] else if c = 0x130 then [105, 0x307] else [c])"

definition domain_unit :: "16 word \<Rightarrow> bool" where
  "domain_unit c \<longleftrightarrow> (97 \<le> c \<and> c \<le> 122) \<or> (48 \<le> c \<and> c \<le> 57) \<or> c = 46 \<or> c = 45"

definition strip_dots_end :: "jstring \<Rightarrow> jstring" where
  "strip_dots_end s = rev (dropWhile (\<lambda>c. c = 46) (rev s))"

definition createStableMessageId :: "(jstring \<Rightarrow> jstring) \<Rightarrow> jstring \<Rightarrow> jstring option \<Rightarrow> jstring" where
  "createStableMessageId sha256hex dedupeKey domain =
     (let digest = slice_to 40 (sha256hex dedupeKey);
          d = (case domain of None \<Rightarrow> js ''linkalive.local'' | Some x \<Rightarrow> x);
          letters = filter domain_unit (concat (map lower_unit d));
          normalizedDomain =
            strip_dots_end (slice_to 253 (strip_dots_end (dropWhile (\<lambda>c. c = 46) letters)));
          safeDomain = (if normalizedDomain = [] then js ''linkalive.local'' else normalizedDomain)
      in js ''<linkalive-'' @ digest @ js ''@'' @ safeDomain @ js ''>'')"

section \<open>Payloads\<close>

record PayloadMonitor =
  pm_id :: id
  pm_name :: jstring
  pm_displayUrl :: jstring

record PayloadIncident =
  pi_detectedAt :: time
  pi_resolvedAt :: "time option"
  pi_firstFailureAt :: time
  pi_firstErrorType :: "CheckErrorType option"
  pi_lastErrorType :: "CheckErrorType option"

definition payload_monitor :: "Monitor \<Rightarrow> PayloadMonitor" where
  "payload_monitor m = \<lparr>pm_id = mo_id m, pm_name = mo_name m, pm_displayUrl = mo_displayUrl m\<rparr>"

definition payload_incident :: "Incident \<Rightarrow> PayloadIncident" where
  "payload_incident i =
     \<lparr>pi_detectedAt = ic_detectedAt i, pi_resolvedAt = ic_resolvedAt i,
      pi_firstFailureAt = ic_firstFailureAt i, pi_firstErrorType = ic_firstErrorType i,
      pi_lastErrorType = ic_lastErrorType i\<rparr>"

text \<open>\<open>new Date()\<close> when neither time is known is the argument \<open>now\<close>.\<close>

definition payload_occurredAt ::
  "NotificationEventType \<Rightarrow> PayloadIncident \<Rightarrow> MonitorCheckResult option \<Rightarrow> time \<Rightarrow> time" where
  "payload_occurredAt eventType incident result now =
     (if eventType = NotificationEventType.DOWN then pi_detectedAt incident
      else (case coalesce (pi_resolvedAt incident) (map_option rs_finishedAt result) of
              Some t \<Rightarrow> t | None \<Rightarrow> now))"

definition json_error :: "CheckErrorType option \<Rightarrow> json" where
  "json_error e = nullable (\<lambda>x. JStr (js (error_type_name x))) e"

definition makeNotificationPayload ::
  "NotificationEventType \<Rightarrow> PayloadMonitor \<Rightarrow> PayloadIncident \<Rightarrow> MonitorCheckResult option \<Rightarrow>
   jstring option \<Rightarrow> bool \<Rightarrow> time \<Rightarrow> js_error + json" where
  "makeNotificationPayload eventType monitor incident result appBaseUrl notifyOnRecovery now =
     (let occurredAt = payload_occurredAt eventType incident result now;
          base =
            [(js ''eventType'', JStr (js (event_name eventType))),
             (js ''monitorName'', JStr (slice_to 160 (pm_name monitor))),
             (js ''displayUrl'', JStr (pm_displayUrl monitor)),
             (js ''occurredAt'', JStr (toISOString occurredAt)),
             (js ''errorType'',
                json_error (coalesce (Option.bind result rs_errorType)
                  (coalesce (pi_lastErrorType incident) (pi_firstErrorType incident)))),
             (js ''errorMessageSafe'', nullable JStr (Option.bind result rs_errorMessageSafe)),
             (js ''statusCode'', nullable JNum (Option.bind result rs_statusCode)),
             (js ''ttfbMs'', nullable JNum (Option.bind result rs_ttfbMs)),
             (js ''notifyOnRecovery'', JBool notifyOnRecovery)];
          duration =
            (case pi_resolvedAt incident of
               Some t \<Rightarrow> if eventType \<noteq> NotificationEventType.DOWN
                         then [(js ''durationMs'', JNum (max 0 (t - pi_firstFailureAt incident)))]
                         else []
             | None \<Rightarrow> [])
      in case appBaseUrl of
           None \<Rightarrow> Inr (JObj (base @ duration))
         | Some u \<Rightarrow>
             if u = [] then Inr (JObj (base @ duration))
             else (case encodeURIComponent (pm_id monitor) of
                     Inl e \<Rightarrow> Inl e
                   | Inr enc \<Rightarrow> Inr (JObj (base @ duration @
                       [(js ''dashboardUrl'', JStr (u @ js ''/monitors/'' @ enc))]))))"

record SafeNotificationPayload =
  sp_eventType :: NotificationEventType
  sp_monitorName :: jstring
  sp_displayUrl :: jstring
  sp_occurredAt :: jstring
  sp_errorType :: "jstring option"
  sp_errorMessageSafe :: "jstring option"
  sp_statusCode :: "int option"
  sp_ttfbMs :: "int option"
  sp_durationMs :: "int option"
  sp_dashboardUrl :: "jstring option"
  sp_networkStartedAt :: "jstring option"

fun string_or :: "json option \<Rightarrow> jstring \<Rightarrow> jstring" where
  "string_or (Some (JStr s)) fallback = s"
| "string_or _ fallback = fallback"

fun nullable_string :: "json option \<Rightarrow> jstring option" where
  "nullable_string (Some (JStr s)) = Some s"
| "nullable_string _ = None"

fun nullable_number :: "json option \<Rightarrow> int option" where
  "nullable_number (Some (JNum n)) = Some n"
| "nullable_number _ = None"

definition unnamed_monitor :: jstring where
  "unnamed_monitor = [0xC774, 0xB984, 0x20, 0xC5C6, 0xB294, 0x20, 0xBAA8, 0xB2C8, 0xD130]"

definition hidden_url :: jstring where
  "hidden_url = [0x28, 0x55, 0x52, 0x4C, 0x20, 0xC228, 0xAE40, 0x29]"

definition parseNotificationPayload ::
  "json \<Rightarrow> NotificationEventType \<Rightarrow> time \<Rightarrow> SafeNotificationPayload" where
  "parseNotificationPayload value eventType now =
     \<lparr>sp_eventType = eventType,
      sp_monitorName = string_or (jget value (js ''monitorName'')) unnamed_monitor,
      sp_displayUrl = string_or (jget value (js ''displayUrl'')) hidden_url,
      sp_occurredAt = string_or (jget value (js ''occurredAt'')) (toISOString now),
      sp_errorType = nullable_string (jget value (js ''errorType'')),
      sp_errorMessageSafe = nullable_string (jget value (js ''errorMessageSafe'')),
      sp_statusCode = nullable_number (jget value (js ''statusCode'')),
      sp_ttfbMs = nullable_number (jget value (js ''ttfbMs'')),
      sp_durationMs = nullable_number (jget value (js ''durationMs'')),
      sp_dashboardUrl = nullable_string (jget value (js ''dashboardUrl'')),
      sp_networkStartedAt = nullable_string (jget value (js ''networkStartedAt''))\<rparr>"

definition payloadAllowsRecovery :: "json \<Rightarrow> bool" where
  "payloadAllowsRecovery value \<longleftrightarrow> jget value (js ''notifyOnRecovery'') = Some (JBool True)"

section \<open>Lemmas\<close>

lemma isSecretTombstone_iff: "isSecretTombstone v \<longleftrightarrow> v = secretTombstoneBytes"
  by (auto simp: isSecretTombstone_def Let_def list_all_iff intro!: nth_equalityI)

lemma shouldRetain_nonterminal:
  "nss_status s \<notin> {SENT, NotificationOutboxStatus.FAILED, NotificationOutboxStatus.CANCELED} \<Longrightarrow>
   shouldRetainNotificationSecret s"
  by (simp add: shouldRetainNotificationSecret_def TERMINAL_STATUSES_def)

lemma retired_snapshot [simp]:
  "ob_encryptedConfigSnapshot (retiredNotificationSecretData x) = secretTombstoneBytes"
  by (simp add: retiredNotificationSecretData_def)

lemma retired_frame [simp]:
  "ob_id (retiredNotificationSecretData x) = ob_id x"
  "ob_status (retiredNotificationSecretData x) = ob_status x"
  "ob_eventType (retiredNotificationSecretData x) = ob_eventType x"
  "ob_incidentId (retiredNotificationSecretData x) = ob_incidentId x"
  "ob_channelId (retiredNotificationSecretData x) = ob_channelId x"
  "ob_attemptCount (retiredNotificationSecretData x) = ob_attemptCount x"
  "ob_maxAttempts (retiredNotificationSecretData x) = ob_maxAttempts x"
  "ob_leaseUntil (retiredNotificationSecretData x) = ob_leaseUntil x"
  "ob_leaseOwner (retiredNotificationSecretData x) = ob_leaseOwner x"
  "ob_lastErrorSafe (retiredNotificationSecretData x) = ob_lastErrorSafe x"
  "ob_payloadSafe (retiredNotificationSecretData x) = ob_payloadSafe x"
  "ob_dedupeKey (retiredNotificationSecretData x) = ob_dedupeKey x"
  "ob_sequence (retiredNotificationSecretData x) = ob_sequence x"
  by (simp_all add: retiredNotificationSecretData_def)

lemma retry_base_bounds: "2000 \<le> retry_base a" "retry_base a \<le> 60000"
proof -
  have "(1::int) \<le> 2 ^ nat (max 1 (min 10 a) - 1)" by simp
  then show "2000 \<le> retry_base a" by (simp add: retry_base_def)
qed (simp add: retry_base_def)

lemma retry_base_mono: "a \<le> b \<Longrightarrow> retry_base a \<le> retry_base b"
  unfolding retry_base_def Let_def
  by (intro min.mono mult_left_mono power_increasing nat_mono diff_right_mono max.mono) auto

lemma decryptString_tombstone: "decryptString decipher secretTombstoneBytes = None"
proof -
  have "envelope secretTombstoneBytes = None" by code_simp
  then show ?thesis by (simp add: decryptString_def)
qed

lemma retryDelayMs_bounds:
  assumes "0 \<le> r" "r < 1"
  shows "3 * retry_base a \<le> 4 * retryDelayMs a r" "4 * retryDelayMs a r \<le> 5 * retry_base a + 2"
proof -
  let ?b = "of_int (retry_base a) :: rat"
  let ?x = "?b * (3 / 4 + r * (1 / 2)) + 1 / 2"
  have b: "0 \<le> ?b" using retry_base_bounds(1)[of a] by simp
  have lo: "?b * (3 / 4) \<le> ?b * (3 / 4 + r * (1 / 2))"
    by (rule mult_left_mono) (use assms b in auto)
  have hi: "?b * (3 / 4 + r * (1 / 2)) \<le> ?b * (5 / 4)"
    by (rule mult_left_mono) (use assms b in auto)
  have fl: "of_int \<lfloor>?x\<rfloor> \<le> ?x" "?x - 1 < of_int \<lfloor>?x\<rfloor>" by linarith+
  have "4 * of_int \<lfloor>?x\<rfloor> \<le> 5 * ?b + 2" using fl(1) hi by linarith
  then have "of_int (4 * \<lfloor>?x\<rfloor>) \<le> (of_int (5 * retry_base a + 2) :: rat)" by simp
  then show "4 * retryDelayMs a r \<le> 5 * retry_base a + 2"
    unfolding retryDelayMs_def of_int_le_iff .
  have four: "4 dvd retry_base a"
  proof -
    have "2000 * x = 4 * (500 * x)" for x :: int by simp
    then show ?thesis by (simp add: retry_base_def Let_def min_def)
  qed
  then obtain q where q: "retry_base a = 4 * q" by blast
  have "3 * of_int q \<le> ?x - 1 / 2" using lo by (simp add: q)
  then have "of_int (3 * q - 1) < (of_int \<lfloor>?x\<rfloor> :: rat)" using fl(2) by simp
  then have "3 * q \<le> \<lfloor>?x\<rfloor>" unfolding of_int_less_iff by simp
  then show "3 * retry_base a \<le> 4 * retryDelayMs a r" by (simp add: q retryDelayMs_def)
qed

text \<open>Lookups in a written payload: the keys of the object literal are distinct.\<close>

lemma nullable_reads [simp]:
  "nullable_string (Some (nullable JStr v)) = v"
  "nullable_number (Some (nullable JNum n)) = n"
  "nullable_string (Some (json_error e)) = map_option (\<lambda>x. js (error_type_name x)) e"
  by (simp_all add: nullable_def json_error_def split: option.splits)

lemma payload_lookup:
  assumes "makeNotificationPayload ev m i (Some r) base flag t = Inr v"
  shows "jget v (js ''monitorName'') = Some (JStr (slice_to 160 (pm_name m)))"
    "jget v (js ''displayUrl'') = Some (JStr (pm_displayUrl m))"
    "jget v (js ''occurredAt'') = Some (JStr (toISOString (payload_occurredAt ev i (Some r) t)))"
    "jget v (js ''errorType'') = Some (json_error
        (coalesce (rs_errorType r) (coalesce (pi_lastErrorType i) (pi_firstErrorType i))))"
    "jget v (js ''errorMessageSafe'') = Some (nullable JStr (rs_errorMessageSafe r))"
    "jget v (js ''statusCode'') = Some (nullable JNum (rs_statusCode r))"
    "jget v (js ''ttfbMs'') = Some (nullable JNum (rs_ttfbMs r))"
    "jget v (js ''notifyOnRecovery'') = Some (JBool flag)"
    "jget v (js ''networkStartedAt'') = None"
    "nullable_number (jget v (js ''durationMs'')) = (if ev = NotificationEventType.DOWN then None
       else map_option (\<lambda>x. max 0 (x - pi_firstFailureAt i)) (pi_resolvedAt i))"
  using assms
  by (auto simp: makeNotificationPayload_def Let_def js_inj split: option.splits if_splits sum.splits)

section \<open>Properties\<close>

text \<open>The opaque marker that replaces a retired secret can never be turned back into a URL
or a destination: whatever the cipher does, decrypting it throws before the cipher runs.\<close>

theorem tombstone_fails_closed:
  "isSecretTombstone secretTombstoneBytes \<and>
   decryptString decipher secretTombstoneBytes = None \<and>
   decryptJson decipher parse secretTombstoneBytes = None"
  by (simp add: isSecretTombstone_iff decryptString_tombstone decryptJson_def)

text \<open>The delay before a notification is retried stays within a quarter of the exponential
base, which doubles from two seconds and is capped at one minute, for any attempt number and
any random value.\<close>

theorem retry_delay_bounds:
  assumes "0 \<le> random" "random < 1"
  shows "1500 \<le> retryDelayMs attempt random \<and> retryDelayMs attempt random \<le> 75000 \<and>
         3 * retry_base attempt \<le> 4 * retryDelayMs attempt random \<and>
         4 * retryDelayMs attempt random \<le> 5 * retry_base attempt + 2"
  using retryDelayMs_bounds[OF assms, of attempt] retry_base_bounds[of attempt] by simp

theorem retry_delay_bounds_witness:
  "retryDelayMs 2 (1 / 2) = 4000 \<and> 1500 \<le> retryDelayMs 2 (1 / 2)"
proof -
  have "\<lfloor>(8001 :: rat) / 2\<rfloor> = 4000" by (rule floor_unique) auto
  then have "retryDelayMs 2 (1 / 2) = 4000" by (simp add: retryDelayMs_def retry_base_def)
  with retry_delay_bounds[of "1 / 2" 2] show ?thesis by simp
qed

text \<open>Reading back the payload written for an incident gives what was written: the truncated
monitor name, the display URL, the time, error type, message, status and timing of the
check, the non-negative duration of a resolved incident, and the recovery flag.\<close>

theorem payload_roundtrip:
  assumes "makeNotificationPayload ev m i (Some r) base flag t = Inr v"
  shows "let p = parseNotificationPayload v ev t' in
           sp_eventType p = ev \<and> sp_monitorName p = slice_to 160 (pm_name m) \<and>
           sp_displayUrl p = pm_displayUrl m \<and>
           sp_occurredAt p = toISOString (payload_occurredAt ev i (Some r) t) \<and>
           sp_errorType p = map_option (\<lambda>e. js (error_type_name e))
             (coalesce (rs_errorType r) (coalesce (pi_lastErrorType i) (pi_firstErrorType i))) \<and>
           sp_errorMessageSafe p = rs_errorMessageSafe r \<and>
           sp_statusCode p = rs_statusCode r \<and> sp_ttfbMs p = rs_ttfbMs r \<and>
           sp_durationMs p = (if ev = NotificationEventType.DOWN then None
             else map_option (\<lambda>x. max 0 (x - pi_firstFailureAt i)) (pi_resolvedAt i)) \<and>
           sp_networkStartedAt p = None \<and> (payloadAllowsRecovery v \<longleftrightarrow> flag)"
  using assms payload_lookup[OF assms]
  by (simp add: parseNotificationPayload_def payloadAllowsRecovery_def Let_def)

theorem payload_roundtrip_witness:
  "\<exists>v. makeNotificationPayload RECOVERY
         \<lparr>pm_id = js ''m1'', pm_name = js ''site'', pm_displayUrl = js ''http://a/''\<rparr>
         \<lparr>pi_detectedAt = 2000, pi_resolvedAt = Some 9000, pi_firstFailureAt = 1000,
          pi_firstErrorType = Some DNS_ERROR, pi_lastErrorType = None\<rparr>
         (Some \<lparr>rs_source = SCHEDULED, rs_outcome = SUCCESS, rs_configVersion = Some 1,
          rs_startedAt = 8900, rs_finishedAt = 9000, rs_statusCode = Some 200, rs_ttfbMs = Some 50,
          rs_totalMs = 100, rs_errorType = None, rs_errorMessageSafe = None,
          rs_finalUrlDisplay = js ''http://a/'', rs_redirectCount = 0,
          rs_inspectedBodyBytes = 10\<rparr>) None True 0 = Inr v \<and>
       sp_durationMs (parseNotificationPayload v RECOVERY 0) = Some 8000 \<and>
       sp_statusCode (parseNotificationPayload v RECOVERY 0) = Some 200"
    (is "\<exists>v. makeNotificationPayload RECOVERY ?m ?i (Some ?r) None True 0 = Inr v \<and> _ v")
proof -
  obtain v where v: "makeNotificationPayload RECOVERY ?m ?i (Some ?r) None True 0 = Inr v"
    by (simp add: makeNotificationPayload_def Let_def)
  from payload_roundtrip[OF v, of 0] v show ?thesis by (auto simp: Let_def)
qed

end
