(* ===== verification/Leases.thy ===== *)
theory Leases
  imports Prelude
begin

text \<open>
  Two interfaces the dispatchers and processors share. A lease store gives a row to one
  worker for a time (a conditional \<open>updateMany\<close> whose count decides who won); the BullMQ
  queue is code outside the repository, so its operations are a record of parameters.
\<close>

section \<open>Leases\<close>

text \<open>\<open>{ lt: now }\<close> on a nullable column: a null is never smaller.\<close>

definition lapsed :: "time option \<Rightarrow> time \<Rightarrow> bool" where
  "lapsed until now \<longleftrightarrow> (case until of None \<Rightarrow> False | Some t \<Rightarrow> t < now)"

lemma lapsed_simps [simp]: "\<not> lapsed None now" "lapsed (Some t) now \<longleftrightarrow> t < now"
  by (simp_all add: lapsed_def)

record 'k claim_request =
  cl_id :: 'k
  cl_owner :: jstring
  cl_now :: time
  cl_until :: time

text \<open>A run of claims by any workers in any order, and the ones that were granted.\<close>

fun run_claims ::
  "('k \<Rightarrow> jstring \<Rightarrow> time \<Rightarrow> time \<Rightarrow> 's \<Rightarrow> bool \<times> 's) \<Rightarrow> 'k claim_request list \<Rightarrow> 's \<Rightarrow>
   'k claim_request list" where
  "run_claims claim [] s = []"
| "run_claims claim (c # cs) s =
     (case claim (cl_id c) (cl_owner c) (cl_now c) (cl_until c) s of
        (ok, s') \<Rightarrow> (if ok then c # run_claims claim cs s' else run_claims claim cs s'))"

text \<open>
  The provider's laws: a granted claim was free (no lease, or a lapsed one) and records the
  new lease, a refused claim changes nothing, and no claim touches another row's lease.
\<close>

locale lease_store =
  fixes claim :: "'k \<Rightarrow> jstring \<Rightarrow> time \<Rightarrow> time \<Rightarrow> 's \<Rightarrow> bool \<times> 's"
    and lease :: "'s \<Rightarrow> 'k \<Rightarrow> time option"
    and inv :: "'s \<Rightarrow> bool"
  assumes claim_inv: "inv s \<Longrightarrow> claim k w now until s = (ok, s') \<Longrightarrow> inv s'"
    and claim_grants: "inv s \<Longrightarrow> claim k w now until s = (True, s') \<Longrightarrow> lease s' k = Some until"
    and claim_free: "inv s \<Longrightarrow> claim k w now until s = (True, s') \<Longrightarrow>
      lease s k = None \<or> lapsed (lease s k) now"
    and claim_refused: "inv s \<Longrightarrow> claim k w now until s = (False, s') \<Longrightarrow> s' = s"
    and claim_frame: "inv s \<Longrightarrow> claim k w now until s = (ok, s') \<Longrightarrow> j \<noteq> k \<Longrightarrow> lease s' j = lease s j"
begin

lemma granted_after_lease:
  assumes "inv s" "lease s k = Some u" "\<forall>c \<in> set cs. cl_now c \<le> cl_until c"
    and "g \<in> set (run_claims claim cs s)" "cl_id g = k"
  shows "u < cl_now g"
  using assms
proof (induction cs arbitrary: s u)
  case Nil
  then show ?case by simp
next
  case (Cons c cs)
  obtain ok s' where c: "claim (cl_id c) (cl_owner c) (cl_now c) (cl_until c) s = (ok, s')"
    by fastforce
  have inv': "inv s'" using Cons.prems(1) c by (rule claim_inv)
  show ?case
  proof (cases "ok \<and> cl_id c = k")
    case True
    with c have granted: "claim (cl_id c) (cl_owner c) (cl_now c) (cl_until c) s = (True, s')" by simp
    from claim_free[OF Cons.prems(1) granted] Cons.prems(2) True have u: "u < cl_now c" by simp
    have l: "lease s' k = Some (cl_until c)"
      using claim_grants[OF Cons.prems(1) granted] True by simp
    from Cons.prems(4) granted have "g = c \<or> g \<in> set (run_claims claim cs s')" by simp
    then show ?thesis
    proof
      assume "g \<in> set (run_claims claim cs s')"
      from Cons.IH[OF inv' l _ this Cons.prems(5)] Cons.prems(3) have "cl_until c < cl_now g" by simp
      with u Cons.prems(3) show ?thesis by fastforce
    qed (use u in simp)
  next
    case False
    have "lease s' k = lease s k"
    proof (cases ok)
      case True
      with False claim_frame[OF Cons.prems(1) c] show ?thesis by simp
    next
      case False
      then have "claim (cl_id c) (cl_owner c) (cl_now c) (cl_until c) s = (False, s')"
        using c by simp
      from claim_refused[OF Cons.prems(1) this] show ?thesis by (simp only:)
    qed
    then have l: "lease s' k = Some u" using Cons.prems(2) by simp
    have "g \<in> set (run_claims claim cs s')" using Cons.prems(4,5) c False by (auto split: if_splits)
    from Cons.IH[OF inv' l _ this Cons.prems(5)] Cons.prems(3) show ?thesis by simp
  qed
qed

text \<open>The client's guarantee: two grants of one row never overlap.\<close>

lemma leases_disjoint:
  assumes "inv s" "\<forall>c \<in> set cs. cl_now c \<le> cl_until c"
  shows "sorted_wrt (\<lambda>g h. cl_id g = cl_id h \<longrightarrow> cl_until g < cl_now h) (run_claims claim cs s)"
  using assms
proof (induction cs arbitrary: s)
  case Nil
  then show ?case by simp
next
  case (Cons c cs)
  obtain ok s' where c: "claim (cl_id c) (cl_owner c) (cl_now c) (cl_until c) s = (ok, s')"
    by fastforce
  have inv': "inv s'" using Cons.prems(1) c by (rule claim_inv)
  have IH: "sorted_wrt (\<lambda>g h. cl_id g = cl_id h \<longrightarrow> cl_until g < cl_now h) (run_claims claim cs s')"
    using Cons.IH[OF inv'] Cons.prems(2) by simp
  show ?case
  proof (cases ok)
    case True
    with c have granted: "claim (cl_id c) (cl_owner c) (cl_now c) (cl_until c) s = (True, s')" by simp
    have "cl_until c < cl_now h" if "h \<in> set (run_claims claim cs s')" "cl_id c = cl_id h" for h
      by (rule granted_after_lease[OF inv' claim_grants[OF Cons.prems(1) granted] _ that(1)
            that(2)[symmetric]]) (use Cons.prems(2) in simp)
    then have "\<forall>h \<in> set (run_claims claim cs s'). cl_id c = cl_id h \<longrightarrow> cl_until c < cl_now h"
      by blast
    moreover have "run_claims claim (c # cs) s = c # run_claims claim cs s'" by (simp add: granted)
    ultimately show ?thesis using IH by (simp only: sorted_wrt.simps)
  next
    case False
    with c have "run_claims claim (c # cs) s = run_claims claim cs s'" by simp
    with IH show ?thesis by (simp only:)
  qed
qed

end

section \<open>Conditional updates of one row\<close>

text \<open>
  \<open>updateMany\<close> on one primary key, whose count tells whether the row matched.
\<close>

definition claim_rows ::
  "('r \<Rightarrow> 'k) \<Rightarrow> ('r \<Rightarrow> bool) \<Rightarrow> ('r \<Rightarrow> 'r) \<Rightarrow> 'k \<Rightarrow> 'r list \<Rightarrow> bool \<times> 'r list" where
  "claim_rows key p f k rows =
     (count_where (\<lambda>r. key r = k \<and> p r) rows = 1, update_where (\<lambda>r. key r = k \<and> p r) f rows)"

lemma claim_rows_granted:
  assumes "distinct (map key rows)" "claim_rows key p f k rows = (True, rows')"
  obtains r where "r \<in> set rows" "key r = k" "p r"
    "rows' = update_where (\<lambda>r. key r = k) f rows"
proof -
  from assms(2) have "count_where (\<lambda>r. key r = k \<and> p r) rows \<noteq> 0" by (simp add: claim_rows_def)
  then obtain r where r: "r \<in> set rows" "key r = k" "p r" by (auto simp: count_where_zero_iff)
  have "key x = k \<and> p x \<longleftrightarrow> key x = k" if "x \<in> set rows" for x
    using assms(1) r that by (auto simp: distinct_map inj_on_def)
  then have "update_where (\<lambda>r. key r = k \<and> p r) f rows = update_where (\<lambda>r. key r = k) f rows"
    by (auto simp: update_where_def)
  with r assms(2) that show thesis by (auto simp: claim_rows_def)
qed

lemma claim_rows_refused:
  assumes "distinct (map key rows)" "claim_rows key p f k rows = (False, rows')"
  shows "rows' = rows"
proof -
  from assms have "count_where (\<lambda>r. key r = k \<and> p r) rows = 0"
    using count_where_key[of key rows k p] by (auto simp: claim_rows_def)
  then have "\<not> (key r = k \<and> p r)" if "r \<in> set rows" for r
    using that by (simp only: count_where_zero_iff) blast
  then have "update_where (\<lambda>r. key r = k \<and> p r) f rows = rows" by (rule update_where_none)
  with assms(2) show ?thesis by (simp add: claim_rows_def)
qed

lemma find_key_distinct:
  "distinct (map key rows) \<Longrightarrow> r \<in> set rows \<Longrightarrow> key r = k \<Longrightarrow> find (\<lambda>r. key r = k) rows = Some r"
  by (induction rows) auto

lemma find_key_update:
  assumes "\<And>r. key (f r) = key r"
  shows "find (\<lambda>r. key r = j) (update_where (\<lambda>r. key r = k) f rows) =
    (if j = k then map_option f (find (\<lambda>r. key r = j) rows) else find (\<lambda>r. key r = j) rows)"
  by (induction rows) (auto simp: assms)

lemma find_key_update_where:
  assumes "\<And>r. key (f r) = key r"
  shows "find (\<lambda>r. key r = j) (update_where (\<lambda>r. key r = k \<and> p r) f rows) =
    (if j = k then map_option (\<lambda>r. if p r then f r else r) (find (\<lambda>r. key r = j) rows)
     else find (\<lambda>r. key r = j) rows)"
  by (induction rows) (auto simp: assms)

lemma distinct_update_where:
  assumes "\<And>r. p r \<Longrightarrow> key (f r) = key r"
  shows "distinct (map key (update_where p f rows)) = distinct (map key rows)"
  using map_update_where_frame[of p key f rows] assms by simp

text \<open>
  A store whose claim is such an update is a lease store as soon as the update records the
  lease and its condition holds only on free rows.
\<close>

locale row_lease =
  fixes key :: "'r \<Rightarrow> 'k"
    and free :: "time \<Rightarrow> 'r \<Rightarrow> bool"
    and grant :: "jstring \<Rightarrow> time \<Rightarrow> time \<Rightarrow> 'r \<Rightarrow> 'r"
    and lease_of :: "'r \<Rightarrow> time option"
    and get :: "'s \<Rightarrow> 'r list"
    and put :: "'r list \<Rightarrow> 's \<Rightarrow> 's"
  assumes grant_key: "key (grant w now until r) = key r"
    and grant_lease: "lease_of (grant w now until r) = Some until"
    and free_lease: "free now r \<Longrightarrow> lease_of r = None \<or> lapsed (lease_of r) now"
    and get_put: "get (put rows s) = rows"
    and put_get: "put (get s) s = s"
begin

lemma claim_granted:
  assumes "distinct (map key (get s))"
    "claim_rows key (free now) (grant w now until) k (get s) = (True, rows)"
  obtains r where "find (\<lambda>r. key r = k) (get s) = Some r" "free now r"
    "rows = update_where (\<lambda>r. key r = k) (grant w now until) (get s)"
proof -
  from claim_rows_granted[OF assms] obtain r where r: "r \<in> set (get s)" "key r = k" "free now r"
    "rows = update_where (\<lambda>r. key r = k) (grant w now until) (get s)" .
  have "find (\<lambda>r. key r = k) (get s) = Some r"
    using assms(1) r(1,2) by (rule find_key_distinct)
  with r that show thesis by blast
qed

end

sublocale row_lease \<subseteq> rows: lease_store
  "\<lambda>k w now until s. case claim_rows key (free now) (grant w now until) k (get s) of
     (ok, rs) \<Rightarrow> (ok, put rs s)"
  "\<lambda>s k. Option.bind (find (\<lambda>r. key r = k) (get s)) lease_of"
  "\<lambda>s. distinct (map key (get s))"
proof (unfold_locales, goal_cases)
  case (1 s k w now until ok s')
  then have "s' = put (update_where (\<lambda>r. key r = k \<and> free now r) (grant w now until) (get s)) s"
    by (simp add: claim_rows_def)
  with 1(1) show ?case by (simp add: get_put distinct_update_where grant_key)
next
  case (2 s k w now until s')
  then obtain rows where rows: "claim_rows key (free now) (grant w now until) k (get s) = (True, rows)"
    "s' = put rows s" by (auto split: prod.splits)
  from claim_granted[OF 2(1) rows(1)] obtain r where "find (\<lambda>r. key r = k) (get s) = Some r"
    "rows = update_where (\<lambda>r. key r = k) (grant w now until) (get s)" .
  with rows(2) show ?case
    by (simp add: get_put find_key_update grant_key grant_lease)
next
  case (3 s k w now until s')
  then obtain rows where rows: "claim_rows key (free now) (grant w now until) k (get s) = (True, rows)"
    by (auto split: prod.splits)
  from claim_granted[OF 3(1) rows] obtain r where
    "find (\<lambda>r. key r = k) (get s) = Some r" "free now r" .
  with free_lease[of now r] show ?case by simp
next
  case (4 s k w now until s')
  then obtain rows where rows: "claim_rows key (free now) (grant w now until) k (get s) = (False, rows)"
    "s' = put rows s" by (auto split: prod.splits)
  from claim_rows_refused[OF 4(1) rows(1)] rows(2) show ?case by (simp add: put_get)
next
  case (5 s k w now until ok s' j)
  then have "s' = put (update_where (\<lambda>r. key r = k \<and> free now r) (grant w now until) (get s)) s"
    by (simp add: claim_rows_def)
  moreover have "find (\<lambda>r. key r = j)
      (update_where (\<lambda>r. key r = k \<and> free now r) (grant w now until) (get s))
    = find (\<lambda>r. key r = j) (get s)"
    using 5(3) by (subst find_key_update_where) (simp_all add: grant_key)
  ultimately show ?case by (simp only: get_put)
qed

section \<open>The job queue\<close>

text \<open>
  A queue in state \<open>'q\<close>: the state of a job (\<open>None\<close> when the call throws, \<open>Some None\<close> when
  there is no such job), its removal and its addition; both say whether they succeeded and
  may have changed the queue either way.
\<close>

record ('d, 'q) queue_port =
  job_state :: "id \<Rightarrow> 'q \<Rightarrow> jstring option option"
  job_remove :: "id \<Rightarrow> 'q \<Rightarrow> bool \<times> 'q"
  job_add :: "'d \<Rightarrow> id \<Rightarrow> 'q \<Rightarrow> bool \<times> 'q"

end
