(* ===== verification/Scheduler.thy ===== *)
theory Scheduler
  imports Database Scheduling Leases
begin

text \<open>
  The scheduler process (\<open>apps/scheduler/src\<close>): \<open>store.ts\<close> with the transaction that turns due
  monitors into scheduled checks and the lease operations on them, \<open>check-dispatcher.ts\<close>,
  \<open>scheduler-service.ts\<close>, and the liveness state of \<open>health.ts\<close>.
\<close>

section \<open>Creating due checks\<close>

record ScheduledCheckSummary =
  sum_id :: id
  sum_configVersion :: int

definition due_monitor :: "time \<Rightarrow> db \<Rightarrow> Monitor \<Rightarrow> bool" where
  "due_monitor now d m \<longleftrightarrow>
     lifecycleStatus (mo_state m) = ACTIVE \<and> mo_deletedAt m = None \<and>
     (case mo_nextCheckAt m of None \<Rightarrow> False | Some t \<Rightarrow> t \<le> now) \<and>
     \<not> (\<exists>c \<in> set (scheduledChecks d). sc_monitorId c = mo_id m \<and> active_check c)"

text \<open>Rows locked by another transaction are skipped.\<close>

definition due_monitors :: "(id \<Rightarrow> bool) \<Rightarrow> time \<Rightarrow> nat \<Rightarrow> db \<Rightarrow> Monitor list" where
  "due_monitors locked now limit d =
     take limit (sort_key (\<lambda>m. case mo_nextCheckAt m of None \<Rightarrow> 0 | Some t \<Rightarrow> t)
       (filter (\<lambda>m. due_monitor now d m \<and> \<not> locked (mo_id m)) (monitors d)))"

definition new_check :: "id \<Rightarrow> id \<Rightarrow> time \<Rightarrow> int \<Rightarrow> time \<Rightarrow> ScheduledCheck" where
  "new_check cid monitorId scheduledAt version createdAt =
     \<lparr>sc_id = cid, sc_monitorId = monitorId, sc_scheduledAt = scheduledAt,
      sc_configVersion = version, sc_status = ScheduledCheckStatus.PENDING, sc_leaseOwner = None,
      sc_leaseUntil = None, sc_queueJobId = None, sc_attemptCount = 0,
      sc_failureReasonSafe = None, sc_enqueuedAt = None, sc_startedAt = None,
      sc_completedAt = None, sc_canceledAt = None, sc_createdAt = createdAt\<rparr>"

definition set_nextCheckAt :: "id \<Rightarrow> time option \<Rightarrow> db \<Rightarrow> db" where
  "set_nextCheckAt m t d =
     d\<lparr>monitors := update_where (\<lambda>r. mo_id r = m) (\<lambda>r. r\<lparr>mo_nextCheckAt := t\<rparr>) (monitors d)\<rparr>"

text \<open>The client refuses to write an invalid date.\<close>

definition create_due_check ::
  "(id \<Rightarrow> id) \<Rightarrow> time \<Rightarrow> Monitor \<Rightarrow> ScheduledCheckSummary list \<times> db \<Rightarrow>
   db_error + ScheduledCheckSummary list \<times> db" where
  "create_due_check newId now m acc =
     (case coalesceDueScheduledAt (mo_nextCheckAt m) (mo_intervalSec m) (Some now) of
        Inl e \<Rightarrow> Inl (Thrown e)
      | Inr None \<Rightarrow> Inr acc
      | Inr (Some scheduledAt) \<Rightarrow>
        (case calculateNextCheckAt scheduledAt (mo_intervalSec m) (Some now) of
           Inl e \<Rightarrow> Inl (Thrown e)
         | Inr nextCheckAt \<Rightarrow>
           (case (scheduledAt, nextCheckAt) of
              (Some slot, Some next') \<Rightarrow>
                (let version = configVersion (mo_state m);
                     check = new_check (newId (mo_id m)) (mo_id m) slot version now
                 in case create_check check (snd acc) of Inl e \<Rightarrow> Inl e
                    | Inr d \<Rightarrow>
                      Inr (fst acc @ [\<lparr>sum_id = sc_id check, sum_configVersion = version\<rparr>],
                           set_nextCheckAt (mo_id m) (Some next') d))
            | _ \<Rightarrow> Inl (Thrown (PlainError ''Invalid value for argument: Provided Date object is invalid'')))))"

definition createDueChecks ::
  "(id \<Rightarrow> bool) \<Rightarrow> (id \<Rightarrow> id) \<Rightarrow> time \<Rightarrow> nat \<Rightarrow> db \<Rightarrow>
   db_error + ScheduledCheckSummary list \<times> db" where
  "createDueChecks locked newId now limit d =
     fold_tx (create_due_check newId now) (due_monitors locked now limit d) ([], d)"

section \<open>Dispatching\<close>

record DispatchCandidate =
  can_id :: id
  can_configVersion :: int
  can_status :: ScheduledCheckStatus

definition has_result :: "db \<Rightarrow> ScheduledCheck \<Rightarrow> bool" where
  "has_result d c \<longleftrightarrow>
     (\<exists>r \<in> set (checkResults d). cr_scheduledCheckId r = Some (sc_id c) \<and>
        cr_monitorId r = Some (sc_monitorId c) \<and> cr_configVersion r = Some (sc_configVersion c))"

definition findDispatchCandidates :: "time \<Rightarrow> nat \<Rightarrow> db \<Rightarrow> DispatchCandidate list" where
  "findDispatchCandidates now limit d =
     map (\<lambda>c. \<lparr>can_id = sc_id c, can_configVersion = sc_configVersion c, can_status = sc_status c\<rparr>)
       (take limit (sort_key sc_createdAt (filter (\<lambda>c.
          (sc_status c = ScheduledCheckStatus.PENDING \<and>
             (sc_leaseUntil c = None \<or> lapsed (sc_leaseUntil c) now)) \<or>
          ((sc_status c = ScheduledCheckStatus.ENQUEUED \<or> sc_status c = RUNNING) \<and>
             lapsed (sc_leaseUntil c) now \<and> \<not> has_result d c)) (scheduledChecks d))))"

definition claimable_for_dispatch :: "time \<Rightarrow> ScheduledCheck \<Rightarrow> bool" where
  "claimable_for_dispatch now c \<longleftrightarrow>
     sc_completedAt c = None \<and>
     ((sc_status c = ScheduledCheckStatus.PENDING \<and>
         (sc_leaseUntil c = None \<or> lapsed (sc_leaseUntil c) now)) \<or>
      ((sc_status c = ScheduledCheckStatus.ENQUEUED \<or> sc_status c = RUNNING) \<and>
         lapsed (sc_leaseUntil c) now))"

definition claimForDispatch :: "id \<Rightarrow> jstring \<Rightarrow> time \<Rightarrow> time \<Rightarrow> db \<Rightarrow> bool \<times> db" where
  "claimForDispatch i owner now leaseUntil d =
     (case claim_rows sc_id (claimable_for_dispatch now)
        (\<lambda>c. c\<lparr>sc_status := ScheduledCheckStatus.PENDING, sc_leaseOwner := Some owner,
               sc_leaseUntil := Some leaseUntil, sc_attemptCount := sc_attemptCount c + 1,
               sc_failureReasonSafe := None\<rparr>) i (scheduledChecks d) of
        (ok, rows) \<Rightarrow> (ok, d\<lparr>scheduledChecks := rows\<rparr>))"

definition owned_pending :: "id \<Rightarrow> jstring \<Rightarrow> ScheduledCheck \<Rightarrow> bool" where
  "owned_pending i owner c \<longleftrightarrow>
     sc_id c = i \<and> sc_leaseOwner c = Some owner \<and> sc_status c = ScheduledCheckStatus.PENDING \<and>
     sc_completedAt c = None"

definition markEnqueued :: "id \<Rightarrow> jstring \<Rightarrow> time \<Rightarrow> time \<Rightarrow> db \<Rightarrow> db" where
  "markEnqueued i owner now leaseUntil d =
     d\<lparr>scheduledChecks := update_where (owned_pending i owner)
         (\<lambda>c. c\<lparr>sc_status := ScheduledCheckStatus.ENQUEUED, sc_queueJobId := Some i,
                sc_enqueuedAt := Some now, sc_leaseUntil := Some leaseUntil\<rparr>)
         (scheduledChecks d)\<rparr>"

definition releaseDispatchClaim :: "id \<Rightarrow> jstring \<Rightarrow> jstring \<Rightarrow> db \<Rightarrow> db" where
  "releaseDispatchClaim i owner safeReason d =
     d\<lparr>scheduledChecks := update_where (owned_pending i owner)
         (\<lambda>c. c\<lparr>sc_status := ScheduledCheckStatus.PENDING, sc_leaseOwner := None,
                sc_leaseUntil := None, sc_failureReasonSafe := Some (slice_to 1000 safeReason)\<rparr>)
         (scheduledChecks d)\<rparr>"

record CheckJobData =
  job_scheduledCheckId :: id
  job_configVersion :: int

text \<open>The retention options of the job concern the queue alone.\<close>

definition ensureQueueJob :: "(CheckJobData, 'q) queue_port \<Rightarrow> CheckJobData \<Rightarrow> 'q \<Rightarrow> bool \<times> 'q" where
  "ensureQueueJob port data q =
     (let i = job_scheduledCheckId data in
      case job_state port i q of
        None \<Rightarrow> (False, q)
      | Some None \<Rightarrow> job_add port data i q
      | Some (Some jobState) \<Rightarrow>
          (if jobState = js ''completed'' \<or> jobState = js ''failed''
           then (case job_remove port i q of
                   (False, q') \<Rightarrow> (False, q') | (True, q') \<Rightarrow> job_add port data i q')
           else (True, q)))"

definition enqueue_failed_reason :: jstring where
  "enqueue_failed_reason = [0xAC80, 0xC0AC, 0x20, 0xD050, 0xC5D0, 0x20, 0xC791, 0xC5C5, 0xC744, 0x20, 0xB4F1,
      0xB85D, 0xD558, 0xC9C0, 0x20, 0xBABB, 0xD588, 0xC2B5, 0xB2C8, 0xB2E4, 0x2E]"

definition dispatch_candidate ::
  "(CheckJobData, 'q) queue_port \<Rightarrow> jstring \<Rightarrow> int \<Rightarrow> time \<Rightarrow> DispatchCandidate \<Rightarrow>
   nat \<times> db \<times> 'q \<Rightarrow> nat \<times> db \<times> 'q" where
  "dispatch_candidate port owner leaseMs now cand acc =
     (case acc of (dispatched, d, q) \<Rightarrow>
       (let leaseUntil = now + leaseMs in
        case claimForDispatch (can_id cand) owner now leaseUntil d of
          (False, d1) \<Rightarrow> (dispatched, d1, q)
        | (True, d1) \<Rightarrow>
          (case ensureQueueJob port
                  \<lparr>job_scheduledCheckId = can_id cand, job_configVersion = can_configVersion cand\<rparr> q of
             (True, q') \<Rightarrow> (dispatched + 1, markEnqueued (can_id cand) owner now leaseUntil d1, q')
           | (False, q') \<Rightarrow>
               (dispatched, releaseDispatchClaim (can_id cand) owner enqueue_failed_reason d1, q'))))"

definition dispatch ::
  "(CheckJobData, 'q) queue_port \<Rightarrow> jstring \<Rightarrow> int \<Rightarrow> time \<Rightarrow> nat \<Rightarrow> db \<Rightarrow> 'q \<Rightarrow> nat \<times> db \<times> 'q" where
  "dispatch port owner leaseMs now limit d q =
     fold (dispatch_candidate port owner leaseMs now) (findDispatchCandidates now limit d) (0, d, q)"

record SchedulerRunResult =
  run_created :: nat
  run_dispatched :: nat

definition runOnce ::
  "(CheckJobData, 'q) queue_port \<Rightarrow> jstring \<Rightarrow> int \<Rightarrow> nat \<Rightarrow> nat \<Rightarrow> (id \<Rightarrow> bool) \<Rightarrow> (id \<Rightarrow> id) \<Rightarrow>
   time \<Rightarrow> db \<Rightarrow> 'q \<Rightarrow> db_error + SchedulerRunResult \<times> db \<times> 'q" where
  "runOnce port owner leaseMs dueBatchSize dispatchBatchSize locked newId now d q =
     (case createDueChecks locked newId now dueBatchSize d of Inl e \<Rightarrow> Inl e
      | Inr (created, d1) \<Rightarrow>
        (case dispatch port owner leaseMs now dispatchBatchSize d1 q of
           (dispatched, d2, q') \<Rightarrow>
             Inr (\<lparr>run_created = length created, run_dispatched = dispatched\<rparr>, d2, q')))"

section \<open>Health of the process\<close>

datatype SchedulerProcessStatus = starting | running | stopping
datatype SchedulerTickStatus = pending | fresh | stale

record SchedulerHealthSnapshot =
  hs_healthy :: bool
  hs_process :: SchedulerProcessStatus
  hs_tick :: SchedulerTickStatus

record SchedulerHealth =
  sh_staleAfterMs :: int
  sh_processStatus :: SchedulerProcessStatus
  sh_lastSuccessfulTickAt :: "time option"

definition new_SchedulerHealth :: "int \<Rightarrow> js_error + SchedulerHealth" where
  "new_SchedulerHealth staleAfterMs =
     (if staleAfterMs \<le> 0 then Inl (PlainError ''staleAfterMs must be positive'')
      else Inr \<lparr>sh_staleAfterMs = staleAfterMs, sh_processStatus = starting,
                sh_lastSuccessfulTickAt = None\<rparr>)"

definition markRunning :: "SchedulerHealth \<Rightarrow> SchedulerHealth" where
  "markRunning h = (if sh_processStatus h \<noteq> stopping then h\<lparr>sh_processStatus := running\<rparr> else h)"

definition markTickSucceeded :: "time \<Rightarrow> SchedulerHealth \<Rightarrow> SchedulerHealth" where
  "markTickSucceeded now h = h\<lparr>sh_lastSuccessfulTickAt := Some now\<rparr>"

definition markStopping :: "SchedulerHealth \<Rightarrow> SchedulerHealth" where
  "markStopping h = h\<lparr>sh_processStatus := stopping\<rparr>"

definition snapshot :: "time \<Rightarrow> SchedulerHealth \<Rightarrow> SchedulerHealthSnapshot" where
  "snapshot now h =
     (let tick = (case sh_lastSuccessfulTickAt h of None \<Rightarrow> pending
                  | Some t \<Rightarrow> if now - t \<le> sh_staleAfterMs h then fresh else stale)
      in \<lparr>hs_healthy = (sh_processStatus h = running \<and> tick = fresh),
          hs_process = sh_processStatus h, hs_tick = tick\<rparr>)"

definition schedulerTickFreshnessMs :: "int \<Rightarrow> int" where
  "schedulerTickFreshnessMs pollIntervalMs = max 15000 (pollIntervalMs * 3)"

datatype HealthEvent = MarkRunning | TickSucceeded time | MarkStopping

fun health_step :: "SchedulerHealth \<Rightarrow> HealthEvent \<Rightarrow> SchedulerHealth" where
  "health_step h MarkRunning = markRunning h"
| "health_step h (TickSucceeded t) = markTickSucceeded t h"
| "health_step h MarkStopping = markStopping h"

section \<open>What a batch of due monitors becomes\<close>

definition due_slot :: "time \<Rightarrow> Monitor \<Rightarrow> time" where
  "due_slot now m =
     (let nxt = (case mo_nextCheckAt m of None \<Rightarrow> 0 | Some t \<Rightarrow> t); ms = mo_intervalSec m * 1000
      in nxt + (now - nxt) div ms * ms)"

definition due_check :: "(id \<Rightarrow> id) \<Rightarrow> time \<Rightarrow> Monitor \<Rightarrow> ScheduledCheck" where
  "due_check newId now m =
     new_check (newId (mo_id m)) (mo_id m) (due_slot now m) (configVersion (mo_state m)) now"

definition due_next :: "time \<Rightarrow> Monitor \<Rightarrow> time" where
  "due_next now m = due_slot now m + mo_intervalSec m * 1000"

text \<open>A due row as the database keeps it: a supported interval and a date in range.\<close>

definition valid_due :: "time \<Rightarrow> Monitor \<Rightarrow> bool" where
  "valid_due now m \<longleftrightarrow>
     isSupportedIntervalSec (mo_intervalSec m) \<and>
     (case mo_nextCheckAt m of None \<Rightarrow> False | Some t \<Rightarrow> 0 \<le> t \<and> t \<le> now)"

definition now_in_range :: "time \<Rightarrow> bool" where
  "now_in_range now \<longleftrightarrow> 0 \<le> now \<and> now + MAX_MONITOR_INTERVAL_SECONDS * 1000 \<le> 8640000000000000"

text \<open>Every check of a monitor lies before the monitor's next slot.\<close>

definition slots_fresh :: "db \<Rightarrow> bool" where
  "slots_fresh d \<longleftrightarrow>
     (\<forall>m \<in> set (monitors d). \<forall>c \<in> set (scheduledChecks d). \<forall>t.
        sc_monitorId c = mo_id m \<and> mo_nextCheckAt m = Some t \<longrightarrow> sc_scheduledAt c < t)"

definition one_active_check :: "db \<Rightarrow> bool" where
  "one_active_check d \<longleftrightarrow>
     (\<forall>m. count_where (\<lambda>c. sc_monitorId c = m \<and> active_check c) (scheduledChecks d) \<le> 1)"

lemma valid_due_slot:
  assumes "valid_due now m" "now_in_range now"
  shows "coalesceDueScheduledAt (mo_nextCheckAt m) (mo_intervalSec m) (Some now)
           = Inr (Some (Some (due_slot now m)))"
    "calculateNextCheckAt (Some (due_slot now m)) (mo_intervalSec m) (Some now)
           = Inr (Some (due_next now m))"
    "\<And>t. mo_nextCheckAt m = Some t \<Longrightarrow> t \<le> due_slot now m"
    "due_slot now m \<le> now" "now < due_next now m"
proof -
  from assms obtain t where t: "mo_nextCheckAt m = Some t" "0 \<le> t" "t \<le> now"
    by (auto simp: valid_due_def split: option.splits)
  let ?n = "mo_intervalSec m"
  have n: "5 \<le> ?n" "?n \<le> 86400" "safe_integer ?n"
    using assms by (auto simp: valid_due_def isSupportedIntervalSec_def
        MIN_MONITOR_INTERVAL_SECONDS_def MAX_MONITOR_INTERVAL_SECONDS_def)
  have slot: "due_slot now m = t + (now - t) div (?n * 1000) * (?n * 1000)"
    by (simp add: due_slot_def t Let_def)
  have pos: "0 < ?n * 1000" using n by simp
  have "0 \<le> (now - t) div (?n * 1000)" using t pos by (simp add: pos_imp_zdiv_nonneg_iff)
  then have "0 \<le> (now - t) div (?n * 1000) * (?n * 1000)" using pos by simp
  with div_mult_bounds[OF pos, of "now - t"] slot
  have b: "t \<le> due_slot now m" "due_slot now m \<le> now" by linarith+
  have "new_date (due_slot now m) = Some (due_slot now m)"
    using b t assms(2) by (simp add: new_date_def now_in_range_def MAX_MONITOR_INTERVAL_SECONDS_def)
  with slot t n show co: "coalesceDueScheduledAt (mo_nextCheckAt m) ?n (Some now)
      = Inr (Some (Some (due_slot now m)))"
    by (simp add: coalesceDueScheduledAt_def assertDate_def intervalToMilliseconds_ok)
  have "new_date (due_next now m) = Some (due_next now m)"
    using b t n assms(2)
    by (simp add: new_date_def now_in_range_def MAX_MONITOR_INTERVAL_SECONDS_def due_next_def)
  with calculateNext_of_coalesced[OF co[unfolded t(1)]]
  show "calculateNextCheckAt (Some (due_slot now m)) ?n (Some now) = Inr (Some (due_next now m))"
    by (simp add: due_next_def)
  show "\<And>u. mo_nextCheckAt m = Some u \<Longrightarrow> u \<le> due_slot now m" using b t by simp
  show "due_slot now m \<le> now" by (rule b(2))
  show "now < due_next now m"
    using coalesce_slot(3)[OF co[unfolded t(1)]] by (simp add: due_next_def)
qed

lemma new_check_fields [simp]:
  "sc_id (new_check a b c v e) = a" "sc_monitorId (new_check a b c v e) = b"
  "sc_scheduledAt (new_check a b c v e) = c" "sc_configVersion (new_check a b c v e) = v"
  "sc_status (new_check a b c v e) = ScheduledCheckStatus.PENDING"
  "active_check (new_check a b c v e)"
  by (simp_all add: new_check_def active_check_def)

lemma create_due_check_ok:
  assumes "valid_due now m" "now_in_range now"
    and "\<forall>c \<in> set (scheduledChecks d). sc_monitorId c = mo_id m \<longrightarrow>
           \<not> active_check c \<and> sc_scheduledAt c < due_slot now m"
  shows "create_due_check newId now m (created, d) =
    Inr (created @ [\<lparr>sum_id = newId (mo_id m), sum_configVersion = configVersion (mo_state m)\<rparr>],
         set_nextCheckAt (mo_id m) (Some (due_next now m))
           (d\<lparr>scheduledChecks := scheduledChecks d @ [due_check newId now m]\<rparr>))"
proof -
  have "create_check (due_check newId now m) d
      = Inr (d\<lparr>scheduledChecks := scheduledChecks d @ [due_check newId now m]\<rparr>)"
    using assms(3) by (fastforce simp: create_check_def due_check_def)
  with valid_due_slot(1,2)[OF assms(1,2)] show ?thesis
    by (simp add: create_due_check_def due_check_def Let_def)
qed

definition advance :: "time \<Rightarrow> Monitor list \<Rightarrow> Monitor list \<Rightarrow> Monitor list" where
  "advance now xs rows =
     fold (\<lambda>m. update_where (\<lambda>r. mo_id r = mo_id m)
       (\<lambda>r. r\<lparr>mo_nextCheckAt := Some (due_next now m)\<rparr>)) xs rows"

lemma create_due_checks_fold:
  assumes "distinct (map mo_id xs)" "\<forall>m \<in> set xs. valid_due now m" "now_in_range now"
    and "\<forall>m \<in> set xs. \<forall>c \<in> set (scheduledChecks d). sc_monitorId c = mo_id m \<longrightarrow>
           \<not> active_check c \<and> sc_scheduledAt c < due_slot now m"
  shows "fold_tx (create_due_check newId now) xs (created, d) =
    Inr (created @ map (\<lambda>m. \<lparr>sum_id = newId (mo_id m),
                              sum_configVersion = configVersion (mo_state m)\<rparr>) xs,
         d\<lparr>scheduledChecks := scheduledChecks d @ map (due_check newId now) xs,
           monitors := advance now xs (monitors d)\<rparr>)"
  using assms
proof (induction xs arbitrary: d created)
  case Nil
  then show ?case by (simp add: advance_def)
next
  case (Cons m xs)
  let ?d = "set_nextCheckAt (mo_id m) (Some (due_next now m))
      (d\<lparr>scheduledChecks := scheduledChecks d @ [due_check newId now m]\<rparr>)"
  have "create_due_check newId now m (created, d) =
    Inr (created @ [\<lparr>sum_id = newId (mo_id m), sum_configVersion = configVersion (mo_state m)\<rparr>], ?d)"
    by (rule create_due_check_ok) (use Cons.prems in auto)
  moreover have "\<forall>m' \<in> set xs. \<forall>c \<in> set (scheduledChecks ?d). sc_monitorId c = mo_id m' \<longrightarrow>
           \<not> active_check c \<and> sc_scheduledAt c < due_slot now m'"
    using Cons.prems(1,4) by (auto simp: set_nextCheckAt_def due_check_def)
  ultimately show ?case
    using Cons.IH[of ?d] Cons.prems
    by (simp add: set_nextCheckAt_def advance_def)
qed

lemma find_advance:
  assumes "distinct (map mo_id xs)"
  shows "find (\<lambda>r. mo_id r = k) (advance now xs rows) =
    map_option (\<lambda>r. case find (\<lambda>m. mo_id m = k) xs of None \<Rightarrow> r
                     | Some m \<Rightarrow> r\<lparr>mo_nextCheckAt := Some (due_next now m)\<rparr>)
      (find (\<lambda>r. mo_id r = k) rows)"
  using assms
proof (induction xs arbitrary: rows)
  case Nil
  then show ?case by (simp add: advance_def option.map_ident)
next
  case (Cons x xs)
  have none: "find (\<lambda>m. mo_id m = mo_id x) xs = None"
    using Cons.prems by (simp add: find_None_iff) (metis image_eqI)
  have "find (\<lambda>r. mo_id r = k) (advance now (x # xs) rows)
    = find (\<lambda>r. mo_id r = k) (advance now xs (update_where (\<lambda>r. mo_id r = mo_id x)
        (\<lambda>r. r\<lparr>mo_nextCheckAt := Some (due_next now x)\<rparr>) rows))"
    by (simp add: advance_def)
  with Cons.IH Cons.prems show ?case
    by (auto simp: find_key_update none option.map_comp comp_def)
qed

lemma due_monitors_in:
  assumes "m \<in> set (due_monitors locked now limit d)"
  shows "m \<in> set (monitors d)" "due_monitor now d m" "\<not> locked (mo_id m)"
  using set_take_subset[of limit] assms unfolding due_monitors_def by (auto dest!: in_set_takeD)

lemma due_monitors_distinct:
  "distinct (map mo_id (monitors d)) \<Longrightarrow> distinct (map mo_id (due_monitors locked now limit d))"
proof -
  assume dist: "distinct (map mo_id (monitors d))"
  have "distinct (map mo_id (sort_key f (filter p (monitors d))))" for f :: "Monitor \<Rightarrow> int" and p
    using dist by (auto simp: distinct_map inj_on_def)
  then show ?thesis unfolding due_monitors_def by (simp add: take_map[symmetric])
qed

section \<open>What a dispatch does to each check\<close>

definition enqueued_check :: "jstring \<Rightarrow> time \<Rightarrow> time \<Rightarrow> ScheduledCheck \<Rightarrow> ScheduledCheck" where
  "enqueued_check owner now leaseUntil c =
     c\<lparr>sc_status := ScheduledCheckStatus.ENQUEUED, sc_leaseOwner := Some owner,
       sc_leaseUntil := Some leaseUntil, sc_attemptCount := sc_attemptCount c + 1,
       sc_failureReasonSafe := None, sc_queueJobId := Some (sc_id c), sc_enqueuedAt := Some now\<rparr>"

definition released_check :: "ScheduledCheck \<Rightarrow> ScheduledCheck" where
  "released_check c =
     c\<lparr>sc_status := ScheduledCheckStatus.PENDING, sc_leaseOwner := None, sc_leaseUntil := None,
       sc_attemptCount := sc_attemptCount c + 1,
       sc_failureReasonSafe := Some (slice_to 1000 enqueue_failed_reason)\<rparr>"

lemma claimForDispatch_refused:
  assumes "distinct (map sc_id (scheduledChecks d))"
    "claimForDispatch i owner now until d = (False, d1)"
  shows "d1 = d \<and> (\<forall>c. check_of i d = Some c \<longrightarrow> \<not> claimable_for_dispatch now c)"
proof
  obtain rows where rows: "claim_rows sc_id (claimable_for_dispatch now)
        (\<lambda>c. c\<lparr>sc_status := ScheduledCheckStatus.PENDING, sc_leaseOwner := Some owner,
               sc_leaseUntil := Some until, sc_attemptCount := sc_attemptCount c + 1,
               sc_failureReasonSafe := None\<rparr>) i (scheduledChecks d) = (False, rows)"
    and d1: "d1 = d\<lparr>scheduledChecks := rows\<rparr>"
    using assms(2) by (auto simp: claimForDispatch_def split: prod.splits)
  from claim_rows_refused[OF assms(1) rows] d1 show "d1 = d" by simp
  from rows have "count_where (\<lambda>r. sc_id r = i \<and> claimable_for_dispatch now r) (scheduledChecks d) \<noteq> 1"
    by (simp add: claim_rows_def)
  with count_where_key[OF assms(1), of i "claimable_for_dispatch now"]
  have "count_where (\<lambda>r. sc_id r = i \<and> claimable_for_dispatch now r) (scheduledChecks d) = 0" by linarith
  then have "\<forall>r \<in> set (scheduledChecks d). \<not> (sc_id r = i \<and> claimable_for_dispatch now r)"
    unfolding count_where_zero_iff .
  then show "\<forall>c. check_of i d = Some c \<longrightarrow> \<not> claimable_for_dispatch now c"
    using find_Some_in[of "\<lambda>c. sc_id c = i" "scheduledChecks d"] by metis
qed

lemma claimForDispatch_granted:
  assumes "distinct (map sc_id (scheduledChecks d))"
    "claimForDispatch i owner now until d = (True, d1)"
  obtains c where "check_of i d = Some c" "claimable_for_dispatch now c"
    "scheduledChecks d1 = update_where (\<lambda>r. sc_id r = i)
       (\<lambda>c. c\<lparr>sc_status := ScheduledCheckStatus.PENDING, sc_leaseOwner := Some owner,
              sc_leaseUntil := Some until, sc_attemptCount := sc_attemptCount c + 1,
              sc_failureReasonSafe := None\<rparr>) (scheduledChecks d)"
proof -
  obtain rows where rows: "claim_rows sc_id (claimable_for_dispatch now)
        (\<lambda>c. c\<lparr>sc_status := ScheduledCheckStatus.PENDING, sc_leaseOwner := Some owner,
               sc_leaseUntil := Some until, sc_attemptCount := sc_attemptCount c + 1,
               sc_failureReasonSafe := None\<rparr>) i (scheduledChecks d) = (True, rows)"
    and d1: "scheduledChecks d1 = rows"
    using assms(2) by (auto simp: claimForDispatch_def split: prod.splits)
  from claim_rows_granted[OF assms(1) rows] obtain r where r: "r \<in> set (scheduledChecks d)"
    "sc_id r = i" "claimable_for_dispatch now r"
    "rows = update_where (\<lambda>r. sc_id r = i) (\<lambda>c. c\<lparr>sc_status := ScheduledCheckStatus.PENDING,
       sc_leaseOwner := Some owner, sc_leaseUntil := Some until,
       sc_attemptCount := sc_attemptCount c + 1, sc_failureReasonSafe := None\<rparr>) (scheduledChecks d)" .
  show thesis by (rule that[OF find_key_distinct[OF assms(1) r(1,2)] r(3)]) (simp add: d1 r(4))
qed

lemma markEnqueued_checks:
  "check_of k (markEnqueued i owner now until d) =
     (if k = i then map_option (\<lambda>c. if sc_leaseOwner c = Some owner \<and>
           sc_status c = ScheduledCheckStatus.PENDING \<and> sc_completedAt c = None
         then c\<lparr>sc_status := ScheduledCheckStatus.ENQUEUED, sc_queueJobId := Some i,
                sc_enqueuedAt := Some now, sc_leaseUntil := Some until\<rparr> else c) (check_of k d)
      else check_of k d)"
  by (simp add: markEnqueued_def owned_pending_def[abs_def] find_key_update_where)

lemma releaseDispatchClaim_checks:
  "check_of k (releaseDispatchClaim i owner reason d) =
     (if k = i then map_option (\<lambda>c. if sc_leaseOwner c = Some owner \<and>
           sc_status c = ScheduledCheckStatus.PENDING \<and> sc_completedAt c = None
         then c\<lparr>sc_status := ScheduledCheckStatus.PENDING, sc_leaseOwner := None,
                sc_leaseUntil := None, sc_failureReasonSafe := Some (slice_to 1000 reason)\<rparr> else c)
         (check_of k d)
      else check_of k d)"
  by (simp add: releaseDispatchClaim_def owned_pending_def[abs_def] find_key_update_where)

lemma dispatch_frame_ids [simp]:
  "map sc_id (scheduledChecks (markEnqueued i owner now until d)) = map sc_id (scheduledChecks d)"
  "map sc_id (scheduledChecks (releaseDispatchClaim i owner reason d)) = map sc_id (scheduledChecks d)"
  "map sc_id (scheduledChecks (snd (claimForDispatch i owner now until d))) = map sc_id (scheduledChecks d)"
  by (simp_all add: markEnqueued_def releaseDispatchClaim_def claimForDispatch_def claim_rows_def
      map_update_where_frame)

text \<open>The outcome for one check: untouched if it was not claimable, else enqueued or released.\<close>

definition check_outcome ::
  "jstring \<Rightarrow> time \<Rightarrow> time \<Rightarrow> ScheduledCheck option \<Rightarrow> ScheduledCheck option \<Rightarrow> bool" where
  "check_outcome owner now leaseUntil before after \<longleftrightarrow>
     (case before of None \<Rightarrow> after = None
      | Some c \<Rightarrow>
          if claimable_for_dispatch now c
          then after = Some (enqueued_check owner now leaseUntil c) \<or> after = Some (released_check c)
          else after = Some c)"

definition was_enqueued :: "jstring \<Rightarrow> time \<Rightarrow> time \<Rightarrow> db \<Rightarrow> db \<Rightarrow> id \<Rightarrow> bool" where
  "was_enqueued owner now leaseUntil d d' i \<longleftrightarrow>
     (case check_of i d of None \<Rightarrow> False
      | Some c \<Rightarrow> claimable_for_dispatch now c \<and>
                 check_of i d' = Some (enqueued_check owner now leaseUntil c))"

lemma enqueued_neq_released: "enqueued_check owner now until c \<noteq> released_check c"
proof
  assume "enqueued_check owner now until c = released_check c"
  then have "sc_status (enqueued_check owner now until c) = sc_status (released_check c)" by simp
  then show False by (simp add: enqueued_check_def released_check_def)
qed

lemma dispatch_candidate_step:
  assumes "distinct (map sc_id (scheduledChecks d))"
    "dispatch_candidate port owner leaseMs now cand (n, d, q) = (n', d', q')"
  shows "map sc_id (scheduledChecks d') = map sc_id (scheduledChecks d)"
    "k \<noteq> can_id cand \<Longrightarrow> check_of k d' = check_of k d"
    "check_outcome owner now (now + leaseMs) (check_of (can_id cand) d) (check_of (can_id cand) d')"
    "n' = n + (if was_enqueued owner now (now + leaseMs) d d' (can_id cand) then 1 else 0)"
proof -
  let ?i = "can_id cand" and ?u = "now + leaseMs"
  obtain ok d1 where claim: "claimForDispatch ?i owner now ?u d = (ok, d1)" by fastforce
  have ids1: "map sc_id (scheduledChecks d1) = map sc_id (scheduledChecks d)"
    using dispatch_frame_ids(3)[of ?i owner now ?u d] claim by simp
  obtain qok q1 where queue: "ensureQueueJob port
      \<lparr>job_scheduledCheckId = ?i, job_configVersion = can_configVersion cand\<rparr> q = (qok, q1)"
    by fastforce
  have "map sc_id (scheduledChecks d') = map sc_id (scheduledChecks d) \<and>
      (\<forall>k. k \<noteq> ?i \<longrightarrow> check_of k d' = check_of k d) \<and>
      check_outcome owner now ?u (check_of ?i d) (check_of ?i d') \<and>
      n' = n + (if was_enqueued owner now ?u d d' ?i then 1 else 0)"
  proof (cases ok)
    case False
    with claim have "claimForDispatch ?i owner now ?u d = (False, d1)" by simp
    from claimForDispatch_refused[OF assms(1) this] have d1: "d1 = d"
      and no: "\<forall>c. check_of ?i d = Some c \<longrightarrow> \<not> claimable_for_dispatch now c" by simp_all
    with assms(2) claim False have "n' = n" "d' = d" by (simp_all add: dispatch_candidate_def)
    with no show ?thesis by (auto simp: check_outcome_def was_enqueued_def split: option.splits)
  next
    case True
    with claim have "claimForDispatch ?i owner now ?u d = (True, d1)" by simp
    from claimForDispatch_granted[OF assms(1) this] obtain c where c: "check_of ?i d = Some c"
      "claimable_for_dispatch now c" and rows: "scheduledChecks d1 = update_where (\<lambda>r. sc_id r = ?i)
       (\<lambda>c. c\<lparr>sc_status := ScheduledCheckStatus.PENDING, sc_leaseOwner := Some owner,
              sc_leaseUntil := Some ?u, sc_attemptCount := sc_attemptCount c + 1,
              sc_failureReasonSafe := None\<rparr>) (scheduledChecks d)" .
    have ci: "sc_id c = ?i" "sc_completedAt c = None"
      using c by (auto dest: find_Some_in simp: claimable_for_dispatch_def)
    have other: "check_of k d1 = check_of k d" if "k \<noteq> ?i" for k
      using that by (simp add: rows find_key_update)
    have this1: "check_of ?i d1 = Some (c\<lparr>sc_status := ScheduledCheckStatus.PENDING,
        sc_leaseOwner := Some owner, sc_leaseUntil := Some ?u,
        sc_attemptCount := sc_attemptCount c + 1, sc_failureReasonSafe := None\<rparr>)"
      by (simp add: rows find_key_update c)
    show ?thesis
    proof (cases qok)
      case True
      with assms(2) claim \<open>ok\<close> queue have d': "d' = markEnqueued ?i owner now ?u d1" "n' = n + 1"
        by (simp_all add: dispatch_candidate_def Let_def)
      have "check_of ?i d' = Some (enqueued_check owner now ?u c)"
        by (simp add: d' markEnqueued_checks this1 ci enqueued_check_def)
      moreover have "map sc_id (scheduledChecks d') = map sc_id (scheduledChecks d)"
        using ids1 by (simp add: d')
      moreover have "\<forall>k. k \<noteq> ?i \<longrightarrow> check_of k d' = check_of k d"
        using other by (simp add: d' markEnqueued_checks)
      ultimately show ?thesis using c \<open>n' = n + 1\<close>
        by (simp add: check_outcome_def was_enqueued_def)
    next
      case False
      with assms(2) claim \<open>ok\<close> queue
      have d': "d' = releaseDispatchClaim ?i owner enqueue_failed_reason d1" "n' = n"
        by (simp_all add: dispatch_candidate_def Let_def)
      have "check_of ?i d' = Some (released_check c)"
        by (simp add: d' releaseDispatchClaim_checks this1 ci released_check_def)
      moreover have "map sc_id (scheduledChecks d') = map sc_id (scheduledChecks d)"
        using ids1 by (simp add: d')
      moreover have "\<forall>k. k \<noteq> ?i \<longrightarrow> check_of k d' = check_of k d"
        using other by (simp add: d' releaseDispatchClaim_checks)
      ultimately show ?thesis using c \<open>n' = n\<close> enqueued_neq_released[of owner now ?u c]
        by (simp add: check_outcome_def was_enqueued_def)
    qed
  qed
  then show "map sc_id (scheduledChecks d') = map sc_id (scheduledChecks d)"
    "k \<noteq> ?i \<Longrightarrow> check_of k d' = check_of k d"
    "check_outcome owner now ?u (check_of ?i d) (check_of ?i d')"
    "n' = n + (if was_enqueued owner now ?u d d' ?i then 1 else 0)" by blast+
qed

lemma dispatch_fold:
  assumes "distinct (map can_id cands)" "distinct (map sc_id (scheduledChecks d))"
    "fold (dispatch_candidate port owner leaseMs now) cands (n, d, q) = (n', d', q')"
  shows "map sc_id (scheduledChecks d') = map sc_id (scheduledChecks d) \<and>
    (\<forall>k. k \<notin> can_id ` set cands \<longrightarrow> check_of k d' = check_of k d) \<and>
    (\<forall>k \<in> can_id ` set cands.
       check_outcome owner now (now + leaseMs) (check_of k d) (check_of k d')) \<and>
    n' = n + length (filter (was_enqueued owner now (now + leaseMs) d d') (map can_id cands))"
  using assms
proof (induction cands arbitrary: n d q)
  case Nil
  then show ?case by simp
next
  case (Cons c cands)
  obtain n1 d1 q1 where one: "dispatch_candidate port owner leaseMs now c (n, d, q) = (n1, d1, q1)"
    by (metis prod_cases3)
  note s1 = dispatch_candidate_step[OF Cons.prems(2) one]
  have IH: "map sc_id (scheduledChecks d') = map sc_id (scheduledChecks d1) \<and>
    (\<forall>k. k \<notin> can_id ` set cands \<longrightarrow> check_of k d' = check_of k d1) \<and>
    (\<forall>k \<in> can_id ` set cands.
       check_outcome owner now (now + leaseMs) (check_of k d1) (check_of k d')) \<and>
    n' = n1 + length (filter (was_enqueued owner now (now + leaseMs) d1 d') (map can_id cands))"
    by (rule Cons.IH[of d1 n1 q1]) (use Cons.prems one s1(1) in auto)
  have notin: "can_id c \<notin> can_id ` set cands" using Cons.prems(1) by simp
  then have last: "check_of (can_id c) d' = check_of (can_id c) d1" using IH by blast
  have we1: "was_enqueued owner now (now + leaseMs) d d1 (can_id c)
      = was_enqueued owner now (now + leaseMs) d d' (can_id c)"
    using last by (simp add: was_enqueued_def split: option.splits)
  have "filter (was_enqueued owner now (now + leaseMs) d1 d') (map can_id cands)
      = filter (was_enqueued owner now (now + leaseMs) d d') (map can_id cands)"
  proof (rule filter_cong[OF refl])
    fix k assume "k \<in> set (map can_id cands)"
    moreover have "can_id c \<notin> set (map can_id cands)" using notin by simp
    ultimately have "k \<noteq> can_id c" by blast
    then show "was_enqueued owner now (now + leaseMs) d1 d' k
        = was_enqueued owner now (now + leaseMs) d d' k"
      by (simp add: was_enqueued_def s1(2))
  qed
  with IH s1(4) we1 have "n' = n + length (filter (was_enqueued owner now (now + leaseMs) d d')
      (map can_id (c # cands)))" by simp
  moreover have "check_outcome owner now (now + leaseMs) (check_of k d) (check_of k d')"
    if "k \<in> can_id ` set (c # cands)" for k
  proof (cases "k = can_id c")
    case True
    with s1(3) last show ?thesis by simp
  next
    case False
    with that IH s1(2)[OF False] show ?thesis by auto
  qed
  ultimately show ?case using IH s1(1,2) by auto
qed

lemma candidates_distinct:
  assumes "distinct (map sc_id (scheduledChecks d))"
  shows "distinct (map can_id (findDispatchCandidates now limit d))"
    "length (findDispatchCandidates now limit d) \<le> limit"
proof -
  have "distinct (map sc_id (sort_key f (filter p (scheduledChecks d))))" for f :: "ScheduledCheck \<Rightarrow> int" and p
    using assms by (auto simp: distinct_map inj_on_def)
  then show "distinct (map can_id (findDispatchCandidates now limit d))"
    by (simp add: findDispatchCandidates_def comp_def take_map[symmetric])
  show "length (findDispatchCandidates now limit d) \<le> limit"
    by (simp add: findDispatchCandidates_def)
qed

section \<open>The lease store\<close>

definition dispatch_grant :: "jstring \<Rightarrow> time \<Rightarrow> time \<Rightarrow> ScheduledCheck \<Rightarrow> ScheduledCheck" where
  "dispatch_grant owner now leaseUntil c =
     c\<lparr>sc_status := ScheduledCheckStatus.PENDING, sc_leaseOwner := Some owner,
       sc_leaseUntil := Some leaseUntil, sc_attemptCount := sc_attemptCount c + 1,
       sc_failureReasonSafe := None\<rparr>"

interpretation dispatch_rows: row_lease sc_id claimable_for_dispatch dispatch_grant sc_leaseUntil
  scheduledChecks "\<lambda>rows d. d\<lparr>scheduledChecks := rows\<rparr>"
  by unfold_locales (auto simp: dispatch_grant_def claimable_for_dispatch_def)

lemma claimForDispatch_rows:
  "claimForDispatch = (\<lambda>i owner now leaseUntil d.
     case claim_rows sc_id (claimable_for_dispatch now) (dispatch_grant owner now leaseUntil) i
       (scheduledChecks d) of (ok, rows) \<Rightarrow> (ok, d\<lparr>scheduledChecks := rows\<rparr>))"
  by (intro ext) (simp add: claimForDispatch_def dispatch_grant_def[abs_def])

interpretation dispatch_lease: lease_store claimForDispatch
  "\<lambda>d i. Option.bind (check_of i d) sc_leaseUntil" "\<lambda>d. distinct (map sc_id (scheduledChecks d))"
  unfolding claimForDispatch_rows by (rule dispatch_rows.rows.lease_store_axioms)

interpretation stopping: invariant_system health_step "\<lambda>h. sh_processStatus h = stopping"
proof
  fix h :: SchedulerHealth and e
  assume "sh_processStatus h = stopping"
  then show "sh_processStatus (health_step h e) = stopping"
    by (cases e) (simp_all add: markRunning_def markTickSucceeded_def markStopping_def)
qed

section \<open>Invariants of a batch\<close>

lemma advance_ids: "map mo_id (advance now xs rows) = map mo_id rows"
  by (induction xs arbitrary: rows) (simp_all add: advance_def map_update_where_frame)

lemma find_id_distinct:
  "distinct (map mo_id xs) \<Longrightarrow> m \<in> set xs \<Longrightarrow> mo_id m = k \<Longrightarrow> find (\<lambda>m. mo_id m = k) xs = Some m"
  by (rule find_key_distinct)

lemma find_advance_due:
  assumes "distinct (map mo_id (monitors d))"
  shows "find (\<lambda>r. mo_id r = k) (advance now (due_monitors locked now limit d) (monitors d)) =
    map_option (\<lambda>r. if r \<in> set (due_monitors locked now limit d)
                     then r\<lparr>mo_nextCheckAt := Some (due_next now r)\<rparr> else r)
      (find (\<lambda>r. mo_id r = k) (monitors d))"
proof (cases "find (\<lambda>r. mo_id r = k) (monitors d)")
  case None
  then show ?thesis by (simp add: find_advance due_monitors_distinct[OF assms])
next
  case (Some r)
  let ?xs = "due_monitors locked now limit d"
  from Some have r: "r \<in> set (monitors d)" "mo_id r = k" by (auto dest: find_Some_in)
  have "find (\<lambda>m. mo_id m = k) ?xs = (if r \<in> set ?xs then Some r else None)"
  proof (cases "r \<in> set ?xs")
    case True
    then show ?thesis using find_id_distinct[OF due_monitors_distinct[OF assms] True r(2)] by simp
  next
    case False
    have "mo_id m \<noteq> k" if "m \<in> set ?xs" for m
    proof
      assume "mo_id m = k"
      then have "m = r" using due_monitors_in(1)[OF that] r assms by (auto simp: distinct_map inj_on_def)
      with that False show False by simp
    qed
    then have "find (\<lambda>m. mo_id m = k) ?xs = None" by (auto simp: find_None_iff)
    with False show ?thesis by simp
  qed
  with Some show ?thesis by (simp add: find_advance due_monitors_distinct[OF assms])
qed

lemma one_active_append:
  assumes "one_active_check d" "distinct (map sc_monitorId cs)"
    "\<forall>c \<in> set cs. \<forall>x \<in> set (scheduledChecks d). sc_monitorId x = sc_monitorId c \<longrightarrow> \<not> active_check x"
  shows "one_active_check (d\<lparr>scheduledChecks := scheduledChecks d @ cs, monitors := ms\<rparr>)"
  unfolding one_active_check_def
proof
  fix m
  let ?p = "\<lambda>c. sc_monitorId c = m \<and> active_check c"
  show "count_where ?p (scheduledChecks (d\<lparr>scheduledChecks := scheduledChecks d @ cs, monitors := ms\<rparr>)) \<le> 1"
  proof (cases "\<exists>c \<in> set cs. sc_monitorId c = m")
    case True
    with assms(3) have "count_where ?p (scheduledChecks d) = 0" by (auto simp: count_where_zero_iff)
    with count_where_key[OF assms(2), of m active_check] show ?thesis by simp
  next
    case False
    then have "count_where ?p cs = 0" by (auto simp: count_where_zero_iff)
    with assms(1) show ?thesis by (simp add: one_active_check_def)
  qed
qed

lemma createDueChecks_result:
  assumes "distinct (map mo_id (monitors d))" "slots_fresh d" "now_in_range now"
    "\<forall>m \<in> set (monitors d). due_monitor now d m \<longrightarrow> valid_due now m"
  shows "createDueChecks locked newId now limit d =
    Inr (map (\<lambda>m. \<lparr>sum_id = newId (mo_id m), sum_configVersion = configVersion (mo_state m)\<rparr>)
           (due_monitors locked now limit d),
         d\<lparr>scheduledChecks := scheduledChecks d @
             map (due_check newId now) (due_monitors locked now limit d),
           monitors := advance now (due_monitors locked now limit d) (monitors d)\<rparr>)"
proof -
  let ?xs = "due_monitors locked now limit d"
  have valid: "\<forall>m \<in> set ?xs. valid_due now m" using due_monitors_in(1,2) assms(4) by blast
  have free: "\<not> active_check c \<and> sc_scheduledAt c < due_slot now m"
    if "m \<in> set ?xs" "c \<in> set (scheduledChecks d)" "sc_monitorId c = mo_id m" for m c
  proof -
    from valid that(1) obtain t where t: "mo_nextCheckAt m = Some t"
      by (auto simp: valid_due_def split: option.splits)
    have "sc_scheduledAt c < t"
      using assms(2) due_monitors_in(1)[OF that(1)] that(2,3) t unfolding slots_fresh_def by blast
    moreover have "t \<le> due_slot now m" using valid_due_slot(3)[OF _ assms(3) t] valid that(1) by blast
    moreover have "\<not> active_check c"
      using due_monitors_in(2)[OF that(1)] that(2,3) by (auto simp: due_monitor_def)
    ultimately show ?thesis by simp
  qed
  from create_due_checks_fold[OF due_monitors_distinct[OF assms(1)] valid assms(3), of d newId "[]"] free
  show ?thesis unfolding createDueChecks_def by simp
qed

lemma createDueChecks_fresh:
  assumes "distinct (map mo_id (monitors d))" "slots_fresh d" "now_in_range now"
    "\<forall>m \<in> set (monitors d). due_monitor now d m \<longrightarrow> valid_due now m"
    "createDueChecks locked newId now limit d = Inr (created, d')"
  shows "slots_fresh d'"
  unfolding slots_fresh_def
proof (intro ballI allI impI)
  fix m c t
  let ?xs = "due_monitors locked now limit d"
  assume m: "m \<in> set (monitors d')" and c: "c \<in> set (scheduledChecks d')"
    and mc: "sc_monitorId c = mo_id m \<and> mo_nextCheckAt m = Some t"
  from createDueChecks_result[OF assms(1-4), of locked newId limit] assms(5)
  have d': "monitors d' = advance now ?xs (monitors d)"
    "scheduledChecks d' = scheduledChecks d @ map (due_check newId now) ?xs" by auto
  have "distinct (map mo_id (monitors d'))" by (simp add: d' advance_ids assms(1))
  from find_id_distinct[OF this m refl]
  have "find (\<lambda>r. mo_id r = mo_id m) (advance now ?xs (monitors d)) = Some m" by (simp add: d')
  then have "map_option (\<lambda>r. if r \<in> set ?xs then r\<lparr>mo_nextCheckAt := Some (due_next now r)\<rparr> else r)
      (find (\<lambda>r. mo_id r = mo_id m) (monitors d)) = Some m"
    unfolding find_advance_due[OF assms(1), of "mo_id m" now locked limit] .
  then obtain r where r: "find (\<lambda>r. mo_id r = mo_id m) (monitors d) = Some r"
    and mr: "(if r \<in> set ?xs then r\<lparr>mo_nextCheckAt := Some (due_next now r)\<rparr> else r) = m"
    unfolding map_option_eq_Some by blast
  from r have rin: "r \<in> set (monitors d)" "mo_id r = mo_id m" by (auto dest: find_Some_in)
  have old: "sc_scheduledAt x < u" if "x \<in> set (scheduledChecks d)" "sc_monitorId x = mo_id r"
    "mo_nextCheckAt r = Some u" for x u
    using assms(2) rin(1) that unfolding slots_fresh_def by blast
  show "sc_scheduledAt c < t"
  proof (cases "r \<in> set ?xs")
    case True
    have v: "valid_due now r" using due_monitors_in(1,2)[OF True] assms(4) by blast
    then obtain u where u: "mo_nextCheckAt r = Some u" by (auto simp: valid_due_def split: option.splits)
    have lt: "u \<le> now" "now < due_next now r" "due_slot now r \<le> now"
      using valid_due_slot(3)[OF v assms(3) u] valid_due_slot(4,5)[OF v assms(3)] by simp_all
    have "mo_nextCheckAt m = Some (due_next now r)" using mr True by auto
    with mc have "t = due_next now r" by simp
    moreover have "c \<in> set (scheduledChecks d) \<or> (\<exists>x \<in> set ?xs. c = due_check newId now x)"
      using c d' by auto
    moreover have "sc_scheduledAt c < u" if "c \<in> set (scheduledChecks d)"
      using old[OF that _ u] mc rin by simp
    moreover have "sc_scheduledAt (due_check newId now x) \<le> now" if "x \<in> set ?xs" for x
    proof -
      have "valid_due now x" using due_monitors_in(1,2)[OF that] assms(4) by blast
      from valid_due_slot(4)[OF this assms(3)] show ?thesis by (simp add: due_check_def)
    qed
    ultimately show ?thesis using lt by fastforce
  next
    case False
    with mr have "m = r" by simp
    have "c \<in> set (scheduledChecks d)"
    proof (rule ccontr)
      assume "c \<notin> set (scheduledChecks d)"
      with c d' obtain x where x: "x \<in> set ?xs" "c = due_check newId now x" by auto
      then have "mo_id x = mo_id r" using mc rin by (simp add: due_check_def)
      then have "x = r" using due_monitors_in(1)[OF x(1)] rin assms(1)
        by (auto simp: distinct_map inj_on_def)
      with x False show False by simp
    qed
    with old mc \<open>m = r\<close> show ?thesis by blast
  qed
qed

section \<open>Properties\<close>

text \<open>C2. A scheduler tick never fails on well-formed rows and turns each due monitor it picked
(active, not deleted, due, without an active check, not locked, earliest first, at most the
batch size) into exactly one pending check for its latest due slot, moves the monitor's next
slot past now, and touches no other monitor; afterwards every check still lies before its
monitor's next slot and no monitor has two active checks.\<close>

theorem due_checks_created:
  assumes "distinct (map mo_id (monitors d))" "slots_fresh d" "now_in_range now"
    "\<forall>m \<in> set (monitors d). due_monitor now d m \<longrightarrow> valid_due now m"
  shows "\<exists>created d'. createDueChecks locked newId now limit d = Inr (created, d') \<and>
    scheduledChecks d' = scheduledChecks d @
      map (due_check newId now) (due_monitors locked now limit d) \<and>
    length created = length (due_monitors locked now limit d) \<and> length created \<le> limit \<and>
    (\<forall>k. find_by mo_id k (monitors d') =
       map_option (\<lambda>m. if m \<in> set (due_monitors locked now limit d)
                        then m\<lparr>mo_nextCheckAt := Some (due_next now m)\<rparr> else m)
         (find_by mo_id k (monitors d))) \<and>
    (\<forall>m \<in> set (due_monitors locked now limit d).
       due_slot now m \<le> now \<and> now < due_next now m) \<and>
    slots_fresh d' \<and> (one_active_check d \<longrightarrow> one_active_check d')"
proof -
  let ?xs = "due_monitors locked now limit d"
  note res = createDueChecks_result[OF assms, of locked newId limit]
  have bounds: "due_slot now m \<le> now \<and> now < due_next now m" if "m \<in> set ?xs" for m
    using valid_due_slot(4,5)[OF _ assms(3)] due_monitors_in(1,2)[OF that] assms(4) by blast
  have len: "length ?xs \<le> limit" by (simp add: due_monitors_def)
  have one: "one_active_check d \<Longrightarrow> one_active_check (d\<lparr>scheduledChecks := scheduledChecks d @
      map (due_check newId now) ?xs, monitors := advance now ?xs (monitors d)\<rparr>)"
    by (rule one_active_append)
      (use due_monitors_distinct[OF assms(1)] due_monitors_in(2) in
       \<open>auto simp: due_check_def comp_def due_monitor_def\<close>)
  show ?thesis
    unfolding res using createDueChecks_fresh[OF assms res] bounds len one
      find_advance_due[OF assms(1)] by (simp add: find_by_def)
qed

theorem due_checks_created_witness:
  "\<exists>created d'. createDueChecks (\<lambda>_. False) (\<lambda>_. js ''c1'') 130000 10
       (empty_db\<lparr>monitors := [example_monitor]\<rparr>) = Inr (created, d') \<and>
     length created = 1 \<and> sc_scheduledAt (hd (scheduledChecks d')) = 121000"
proof -
  let ?d = "empty_db\<lparr>monitors := [example_monitor]\<rparr>"
  have due: "due_monitors (\<lambda>_. False) 130000 10 ?d = [example_monitor]"
    by (simp add: due_monitors_def due_monitor_def example_monitor_def empty_db_def initial_state_def)
  have "valid_due 130000 example_monitor"
    by (simp add: valid_due_def example_monitor_def isSupportedIntervalSec_def safe_integer_def
        MIN_MONITOR_INTERVAL_SECONDS_def MAX_MONITOR_INTERVAL_SECONDS_def)
  then have "\<exists>created d'. createDueChecks (\<lambda>_. False) (\<lambda>_. js ''c1'') 130000 10 ?d = Inr (created, d')
      \<and> scheduledChecks d' = scheduledChecks ?d @ map (due_check (\<lambda>_. js ''c1'') 130000) [example_monitor]
      \<and> length created = length [example_monitor]"
    using due_checks_created[of ?d 130000 "\<lambda>_. False" "\<lambda>_. js ''c1''" 10] due
    by (auto simp: slots_fresh_def empty_db_def now_in_range_def MAX_MONITOR_INTERVAL_SECONDS_def)
  then show ?thesis
    by (auto simp: empty_db_def due_check_def due_slot_def example_monitor_def)
qed

text \<open>However many schedulers claim checks for dispatch, in any order, the leases granted on
one check never overlap: a later grant happens after the earlier lease has lapsed.\<close>

theorem dispatch_leases_disjoint:
  assumes "distinct (map sc_id (scheduledChecks d))" "\<forall>c \<in> set cs. cl_now c \<le> cl_until c"
  shows "sorted_wrt (\<lambda>g h. cl_id g = cl_id h \<longrightarrow> cl_until g < cl_now h)
           (run_claims claimForDispatch cs d)"
  using assms by (rule dispatch_lease.leases_disjoint)

definition example_check :: ScheduledCheck where
  "example_check = new_check (js ''c1'') (js ''m1'') 1000 1 1000"

theorem dispatch_leases_disjoint_witness:
  "let claim = (\<lambda>w t. \<lparr>cl_id = js ''c1'', cl_owner = w, cl_now = t, cl_until = t + 500\<rparr>);
       d = empty_db\<lparr>scheduledChecks := [example_check]\<rparr>;
       granted = run_claims claimForDispatch
         [claim (js ''a'') 1000, claim (js ''b'') 1200, claim (js ''b'') 1501] d
   in map cl_now granted = [1000, 1501] \<and>
      sorted_wrt (\<lambda>g h. cl_id g = cl_id h \<longrightarrow> cl_until g < cl_now h) granted"
proof -
  let ?c = "\<lambda>w t. \<lparr>cl_id = js ''c1'', cl_owner = w, cl_now = t, cl_until = t + 500\<rparr>"
  let ?d = "empty_db\<lparr>scheduledChecks := [example_check]\<rparr>"
  let ?cs = "[?c (js ''a'') 1000, ?c (js ''b'') 1200, ?c (js ''b'') 1501]"
  have "map cl_now (run_claims claimForDispatch ?cs ?d) = [1000, 1501]"
    by (simp add: claimForDispatch_def claim_rows_def claimable_for_dispatch_def example_check_def
        new_check_def empty_db_def)
  with dispatch_leases_disjoint[of ?d ?cs] show ?thesis
    by (simp only: Let_def) (simp add: empty_db_def)
qed

text \<open>A dispatch pass decides each of at most limit candidates on its own row: a check
that was not claimable any more is left alone, a claimed one ends either enqueued under the
new lease or, when the queue refused it, released as pending with the reason; every other
check is untouched, and the count returned is the number of checks enqueued.\<close>

theorem dispatch_outcome:
  assumes "distinct (map sc_id (scheduledChecks d))"
    "dispatch port owner leaseMs now limit d q = (n, d', q')"
  shows "map sc_id (scheduledChecks d') = map sc_id (scheduledChecks d) \<and>
    (\<forall>k. k \<notin> can_id ` set (findDispatchCandidates now limit d) \<longrightarrow> check_of k d' = check_of k d) \<and>
    (\<forall>k \<in> can_id ` set (findDispatchCandidates now limit d).
       check_outcome owner now (now + leaseMs) (check_of k d) (check_of k d')) \<and>
    n = length (filter (was_enqueued owner now (now + leaseMs) d d')
          (map can_id (findDispatchCandidates now limit d))) \<and> n \<le> limit"
proof -
  note c = candidates_distinct[OF assms(1), of now limit]
  from dispatch_fold[OF c(1) assms(1) assms(2)[unfolded dispatch_def]]
  have r: "map sc_id (scheduledChecks d') = map sc_id (scheduledChecks d)"
    "\<forall>k. k \<notin> can_id ` set (findDispatchCandidates now limit d) \<longrightarrow> check_of k d' = check_of k d"
    "\<forall>k \<in> can_id ` set (findDispatchCandidates now limit d).
       check_outcome owner now (now + leaseMs) (check_of k d) (check_of k d')"
    "n = length (filter (was_enqueued owner now (now + leaseMs) d d')
          (map can_id (findDispatchCandidates now limit d)))" by simp_all
  have "length (filter (was_enqueued owner now (now + leaseMs) d d')
      (map can_id (findDispatchCandidates now limit d))) \<le> limit"
    using c(2) length_filter_le[of _ "map can_id (findDispatchCandidates now limit d)"]
    by (simp only: length_map) (rule order_trans)
  with r show ?thesis by simp
qed

definition example_queue :: "(CheckJobData, nat) queue_port" where
  "example_queue = \<lparr>job_state = (\<lambda>_ _. Some None), job_remove = (\<lambda>_ q. (True, q)),
     job_add = (\<lambda>_ _ q. (True, q + 1))\<rparr>"

theorem dispatch_outcome_witness:
  "\<exists>d'. dispatch example_queue (js ''w'') 500 2000 10 (empty_db\<lparr>scheduledChecks := [example_check]\<rparr>) 0
        = (1, d', 1) \<and>
     check_outcome (js ''w'') 2000 2500 (Some example_check) (check_of (js ''c1'') d')"
proof -
  let ?d = "empty_db\<lparr>scheduledChecks := [example_check]\<rparr>"
  have "\<exists>d'. dispatch example_queue (js ''w'') 500 2000 10 ?d 0 = (1, d', 1)"
    by (simp add: dispatch_def findDispatchCandidates_def dispatch_candidate_def claimForDispatch_def
        claim_rows_def claimable_for_dispatch_def example_check_def new_check_def empty_db_def
        ensureQueueJob_def example_queue_def Let_def)
  then obtain d' where d': "dispatch example_queue (js ''w'') 500 2000 10 ?d 0 = (1, d', 1)" by blast
  have "can_id ` set (findDispatchCandidates 2000 10 ?d) = {js ''c1''}"
    by (simp add: findDispatchCandidates_def example_check_def empty_db_def)
      (simp add: new_check_def)
  moreover have "check_of (js ''c1'') ?d = Some example_check"
    by (simp add: example_check_def empty_db_def)
  ultimately have "check_outcome (js ''w'') 2000 2500 (Some example_check) (check_of (js ''c1'') d')"
    using dispatch_outcome[OF _ d'] by (simp add: empty_db_def)
  with d' show ?thesis by blast
qed

text \<open>The health report is healthy only while the process runs and its last successful tick
is recent enough; once shutdown has begun no later event makes it healthy again.\<close>

theorem stopping_never_healthy:
  "\<not> hs_healthy (snapshot now (foldl health_step (markStopping h) es)) \<and>
   (hs_healthy (snapshot now h) \<longleftrightarrow>
      sh_processStatus h = running \<and>
      (\<exists>t. sh_lastSuccessfulTickAt h = Some t \<and> now - t \<le> sh_staleAfterMs h))"
proof -
  have "sh_processStatus (foldl health_step (markStopping h) es) = stopping"
    by (rule stopping.run_inv) (simp add: markStopping_def)
  then show ?thesis by (auto simp: snapshot_def Let_def split: option.splits)
qed

end
