(* ===== verification/Network_Guard.thy ===== *)
theory Network_Guard
  imports Database Check_Types Secret_Lifecycle
begin

text \<open>
  The network guard of the worker: the pure policy of \<open>apps/worker/src/network-policy.ts\<close>, the
  reference probes of \<open>packages/monitoring/src/reference-check.ts\<close>, and
  \<open>apps/worker/src/network-guard.ts\<close> with the assessment of a failed check, the inspection
  that opens and closes outages, and the summary of an outage. A probe runs through the
  parameter \<open>runner\<close> (\<open>None\<close> is a throw); settings are read in one database state and the
  transaction runs in a later one.
\<close>

section \<open>Policy\<close>

definition st_online :: jstring where "st_online = js ''ONLINE''"
definition st_offline :: jstring where "st_offline = js ''OFFLINE''"
definition st_unknown :: jstring where "st_unknown = js ''UNKNOWN''"
definition st_disabled :: jstring where "st_disabled = js ''DISABLED''"

lemma status_distinct [simp]:
  "st_online \<noteq> st_offline" "st_offline \<noteq> st_online" "st_online \<noteq> st_unknown" "st_unknown \<noteq> st_online"
  "st_online \<noteq> st_disabled" "st_disabled \<noteq> st_online" "st_offline \<noteq> st_unknown"
  "st_unknown \<noteq> st_offline" "st_offline \<noteq> st_disabled" "st_disabled \<noteq> st_offline"
  "st_unknown \<noteq> st_disabled" "st_disabled \<noteq> st_unknown"
  by (simp_all add: st_online_def st_offline_def st_unknown_def st_disabled_def js_inj)

definition referenceCheckIntervalMs :: "jstring \<Rightarrow> id option \<Rightarrow> int" where
  "referenceCheckIntervalMs status outageId =
     (if status = st_offline \<or> outageId \<noteq> None then 10000 else 60000)"

definition NETWORK_ERRORS :: "CheckErrorType list" where
  "NETWORK_ERRORS = [DNS_ERROR, CONNECT_TIMEOUT, CONNECTION_REFUSED, TTFB_TIMEOUT, REQUEST_TIMEOUT,
     NETWORK_ERROR]"

definition isNetworkFailure :: "MonitorCheckResult \<Rightarrow> bool" where
  "isNetworkFailure r \<longleftrightarrow>
     rs_outcome r = TARGET_FAILURE \<and> rs_statusCode r = None \<and>
     (case rs_errorType r of None \<Rightarrow> False | Some e \<Rightarrow> List.member NETWORK_ERRORS e)"

definition referenceStatus :: "MonitorCheckResult list \<Rightarrow> jstring" where
  "referenceStatus results =
     (if list_ex (\<lambda>r. rs_statusCode r \<noteq> None) results then st_online
      else if 2 \<le> length results \<and> list_all isNetworkFailure results then st_offline
      else st_unknown)"

definition inconclusive_message :: jstring where
  "inconclusive_message =
     [0xAC10, 0xC2DC, 0x20, 0x50, 0x43, 0xC758, 0x20, 0xC678, 0xBD80, 0x20, 0xC5F0, 0xACB0,
      0x20, 0xC774, 0xC0C1, 0xC774, 0x20, 0xC758, 0xC2EC, 0xB418, 0xC5B4, 0x20, 0xB300,
      0xC0C1, 0x20, 0xC0C1, 0xD0DC, 0xB97C, 0x20, 0xD655, 0xC778, 0xD560, 0x20, 0xC218, 0x20,
      0xC5C6, 0xC2B5, 0xB2C8, 0xB2E4, 0x2E]"

definition inconclusiveNetworkResult :: "MonitorCheckResult \<Rightarrow> MonitorCheckResult" where
  "inconclusiveNetworkResult r =
     r\<lparr>rs_outcome := INCONCLUSIVE, rs_errorMessageSafe := Some inconclusive_message\<rparr>"

section \<open>Reference probes\<close>

type_synonym check_runner = "MonitorCheckConfig \<Rightarrow> MonitorCheckResult option"

definition reference_config :: "jstring \<Rightarrow> MonitorCheckConfig" where
  "reference_config url =
     \<lparr>cf_url = url, cf_method = Some HEAD, cf_timeoutMs = Some 5000,
      cf_expectedStatusMin = Some 100, cf_expectedStatusMax = Some 599,
      cf_expectedKeyword = None, cf_followRedirects = Some False, cf_maxRedirects = Some 0,
      cf_source = Some CheckSource.TEST, cf_configVersion = None\<rparr>"

definition probe_failed_message :: jstring where
  "probe_failed_message = [0xC5F0, 0xACB0, 0x20, 0xD14C, 0xC2A4, 0xD2B8, 0xB97C, 0x20, 0xC644, 0xB8CC, 0xD558,
      0xC9C0, 0x20, 0xBABB, 0xD588, 0xC2B5, 0xB2C8, 0xB2E4, 0x2E, 0x20, 0xC7A0, 0xC2DC, 0x20,
      0xD6C4, 0x20, 0xB2E4, 0xC2DC, 0x20, 0xC2DC, 0xB3C4, 0xD574, 0x20, 0xC8FC, 0xC138,
      0xC694, 0x2E]"

definition probe_failed :: "jstring \<Rightarrow> time \<Rightarrow> time \<Rightarrow> MonitorCheckResult" where
  "probe_failed url startedAt finishedAt =
     \<lparr>rs_source = CheckSource.TEST, rs_outcome = CheckOutcome.PLATFORM_ERROR, rs_configVersion = None,
      rs_startedAt = startedAt, rs_finishedAt = finishedAt, rs_statusCode = None, rs_ttfbMs = None,
      rs_totalMs = elapsed startedAt finishedAt, rs_errorType = Some CheckErrorType.PLATFORM_ERROR,
      rs_errorMessageSafe = Some probe_failed_message, rs_finalUrlDisplay = url,
      rs_redirectCount = 0, rs_inspectedBodyBytes = 0\<rparr>"

text \<open>All probes start together; the two clock readings are common to them.\<close>

definition checkReferenceUrls ::
  "check_runner \<Rightarrow> time \<Rightarrow> time \<Rightarrow> jstring list \<Rightarrow> MonitorCheckResult list" where
  "checkReferenceUrls runner startedAt finishedAt urls =
     map (\<lambda>url. case runner (reference_config url) of
       Some r \<Rightarrow> r | None \<Rightarrow> probe_failed url startedAt finishedAt) urls"

section \<open>Assessment of a failed check\<close>

record Snapshot =
  sn_status :: jstring
  sn_outageId :: "id option"
  sn_checkedAt :: time

record NetworkAssessment =
  na_result :: MonitorCheckResult
  na_outageId :: "id option"

text \<open>
  The inspection (forced or not) and the retry of the check act on a state; either may throw.
\<close>

definition assess ::
  "(bool \<Rightarrow> 's \<Rightarrow> (db_error + Snapshot) \<times> 's) \<Rightarrow> ('s \<Rightarrow> (db_error + MonitorCheckResult) \<times> 's) \<Rightarrow>
   MonitorCheckResult \<Rightarrow> 's \<Rightarrow> (db_error + NetworkAssessment) \<times> 's" where
  "assess inspect retry result s =
     (if \<not> isNetworkFailure result then (Inr \<lparr>na_result = result, na_outageId = None\<rparr>, s)
      else (case inspect False s of (Inl e, s1) \<Rightarrow> (Inl e, s1)
      | (Inr snap, s1) \<Rightarrow>
        if sn_status snap = st_disabled then (Inr \<lparr>na_result = result, na_outageId = None\<rparr>, s1)
        else if sn_status snap = st_online then
          (case retry s1 of (Inl e, s2) \<Rightarrow> (Inl e, s2)
           | (Inr retried, s2) \<Rightarrow>
             if \<not> isNetworkFailure retried then (Inr \<lparr>na_result = retried, na_outageId = None\<rparr>, s2)
             else (case inspect True s2 of (Inl e, s3) \<Rightarrow> (Inl e, s3)
                   | (Inr confirmed, s3) \<Rightarrow>
                     if sn_status confirmed = st_online \<or> sn_status confirmed = st_disabled
                     then (Inr \<lparr>na_result = retried, na_outageId = None\<rparr>, s3)
                     else (Inr \<lparr>na_result = inconclusiveNetworkResult retried,
                                na_outageId = sn_outageId confirmed\<rparr>, s3)))
        else (Inr \<lparr>na_result = inconclusiveNetworkResult result, na_outageId = sn_outageId snap\<rparr>, s1)))"

section \<open>Inspection\<close>

text \<open>What \<open>inspectFresh\<close> reads before it probes, and what it writes in its transaction.\<close>

definition settings_row :: "db \<Rightarrow> NetworkSettings option" where
  "settings_row d = find_by ns_id 1 (networkSettings d)"

definition settings_version :: "NetworkSettings option \<Rightarrow> int" where
  "settings_version s = (case s of None \<Rightarrow> 0 | Some x \<Rightarrow> ns_version x)"

definition settings_urls :: "NetworkSettings option \<Rightarrow> jstring list" where
  "settings_urls s = string_items (map_option ns_urls s)"

definition probing_enabled :: "NetworkSettings option \<Rightarrow> bool" where
  "probing_enabled s \<longleftrightarrow>
     (case s of None \<Rightarrow> False | Some x \<Rightarrow> ns_enabled x) \<and> 2 \<le> length (settings_urls s)"

definition probe_json :: "jstring \<Rightarrow> MonitorCheckResult \<Rightarrow> json" where
  "probe_json url r =
     JObj [(js ''url'', JStr url), (js ''reachable'', JBool (rs_statusCode r \<noteq> None)),
           (js ''outcome'', JStr (js (outcome_name (rs_outcome r)))),
           (js ''errorType'', json_error (rs_errorType r)),
           (js ''statusCode'', nullable JNum (rs_statusCode r))]"

definition upsert_observer :: "jstring \<Rightarrow> db \<Rightarrow> db" where
  "upsert_observer observerId d =
     (if find_by no_id observerId (networkObservers d) = None
      then d\<lparr>networkObservers := networkObservers d @
             [\<lparr>no_id = observerId, no_status = st_unknown, no_checkedAt = None,
               no_probeResults = None, no_activeOutageId = None\<rparr>]\<rparr>
      else d)"

text \<open>Monitors with an observation of the outage that was not rechecked are due at once.\<close>

definition awaiting_recheck :: "db \<Rightarrow> id \<Rightarrow> Monitor \<Rightarrow> bool" where
  "awaiting_recheck d outageId m \<longleftrightarrow>
     lifecycleStatus (mo_state m) = ACTIVE \<and> mo_deletedAt m = None \<and>
     (\<exists>n \<in> set (networkObservations d). nb_monitorId n = mo_id m \<and> nb_outageId n = outageId \<and>
        nb_recheckedAt n = None)"

definition open_outage :: "jstring \<Rightarrow> time \<Rightarrow> json \<Rightarrow> id \<Rightarrow> NetworkOutage" where
  "open_outage observerId startedAt channelIds oid =
     \<lparr>nu_id = oid, nu_observerId = observerId, nu_startedAt = startedAt, nu_recoveredAt = None,
      nu_canceledAt = None, nu_summarizedAt = None, nu_channelIds = channelIds\<rparr>"

definition close_outage :: "jstring \<Rightarrow> time \<Rightarrow> NetworkOutage \<Rightarrow> NetworkOutage" where
  "close_outage status checkedAt u =
     (if status = st_online then u\<lparr>nu_recoveredAt := Some checkedAt\<rparr>
      else u\<lparr>nu_canceledAt := Some checkedAt, nu_summarizedAt := Some checkedAt\<rparr>)"

definition write_observer ::
  "jstring \<Rightarrow> jstring list \<Rightarrow> MonitorCheckResult list \<Rightarrow> jstring \<Rightarrow> time \<Rightarrow> id option \<Rightarrow> db \<Rightarrow> db" where
  "write_observer observerId urls results status checkedAt outageId d =
     d\<lparr>networkObservers := update_where (\<lambda>o'. no_id o' = observerId)
         (\<lambda>o'. o'\<lparr>no_status := status, no_checkedAt := Some checkedAt,
                  no_activeOutageId := outageId,
                  no_probeResults := Some (JArr (map (\<lambda>(u, r). probe_json u r) (zip urls results)))\<rparr>)
         (networkObservers d)\<rparr>"

definition inspect_write ::
  "jstring \<Rightarrow> id \<Rightarrow> NetworkSettings option \<Rightarrow> time \<Rightarrow> time \<Rightarrow> MonitorCheckResult list \<Rightarrow> jstring \<Rightarrow>
   NetworkObserver \<Rightarrow> db \<Rightarrow> db_error + Snapshot \<times> db" where
  "inspect_write observerId newOutage settings startedAt checkedAt results status observer d =
     (let urls = settings_urls settings;
          finish = (\<lambda>outageId d'. Inr
            (\<lparr>sn_status = status, sn_outageId = outageId, sn_checkedAt = checkedAt\<rparr>,
             write_observer observerId urls results status checkedAt outageId d'))
      in case no_activeOutageId observer of
           None \<Rightarrow>
             if status = st_offline
             then finish (Some newOutage)
               (d\<lparr>networkOutages := networkOutages d @
                   [open_outage observerId startedAt
                      (case settings of None \<Rightarrow> JArr [] | Some x \<Rightarrow> ns_channelIds x) newOutage]\<rparr>)
             else finish None d
         | Some outageId \<Rightarrow>
             if status = st_online \<or> status = st_disabled
             then (if find_by nu_id outageId (networkOutages d) = None then Inl RecordNotFound
                   else finish None
                     (d\<lparr>networkOutages := update_where (\<lambda>u. nu_id u = outageId)
                          (close_outage status checkedAt) (networkOutages d),
                        monitors := update_where (awaiting_recheck d outageId)
                          (\<lambda>m. m\<lparr>mo_nextCheckAt := Some checkedAt\<rparr>) (monitors d)\<rparr>))
             else finish (Some outageId) d)"

definition inspect_tx ::
  "jstring \<Rightarrow> id \<Rightarrow> NetworkSettings option \<Rightarrow> time \<Rightarrow> time \<Rightarrow> MonitorCheckResult list \<Rightarrow> jstring \<Rightarrow> db \<Rightarrow>
   db_error + Snapshot \<times> db" where
  "inspect_tx observerId newOutage settings startedAt checkedAt results status d =
     (if settings_version (settings_row d) \<noteq> settings_version settings
      then Inr (\<lparr>sn_status = st_unknown, sn_outageId = None, sn_checkedAt = checkedAt\<rparr>, d)
      else
       (let d1 = upsert_observer observerId d in
        case find_by no_id observerId (networkObservers d1) of None \<Rightarrow> Inl RecordNotFound
        | Some observer \<Rightarrow>
          (case no_checkedAt observer of
             Some seen \<Rightarrow>
               if startedAt < seen
               then Inr (\<lparr>sn_status = no_status observer, sn_outageId = no_activeOutageId observer,
                          sn_checkedAt = seen\<rparr>, d1)
               else inspect_write observerId newOutage settings startedAt checkedAt results status
                      observer d1
           | None \<Rightarrow> inspect_write observerId newOutage settings startedAt checkedAt results status
                      observer d1)))"

definition inspectFresh ::
  "jstring \<Rightarrow> check_runner \<Rightarrow> id \<Rightarrow> time \<Rightarrow> time \<Rightarrow> db \<Rightarrow> db \<Rightarrow> db_error + Snapshot \<times> db" where
  "inspectFresh observerId probe newOutage startedAt checkedAt d0 d =
     (let settings = settings_row d0;
          enabled = probing_enabled settings;
          results = (if enabled
                     then checkReferenceUrls probe startedAt checkedAt (settings_urls settings) else []);
          status = (if enabled then referenceStatus results else st_disabled)
      in inspect_tx observerId newOutage settings startedAt checkedAt results status d)"

text \<open>
  The guard's memory: the last snapshot, and the result of an inspection in flight when the
  call is made (a concurrent caller gets that inspection's promise).
\<close>

record NetworkGuard =
  ng_inFlight :: "Snapshot option"
  ng_cached :: "Snapshot option"

definition inspect ::
  "(db \<Rightarrow> db_error + Snapshot \<times> db) \<Rightarrow> time \<Rightarrow> bool \<Rightarrow> NetworkGuard \<times> db \<Rightarrow>
   (db_error + Snapshot) \<times> NetworkGuard \<times> db" where
  "inspect fresh now force gd =
     (case gd of (g, d) \<Rightarrow>
       (case ng_inFlight g of
          Some s \<Rightarrow> (Inr s, g, d)
        | None \<Rightarrow>
          (case (if force then None else
                 (case ng_cached g of None \<Rightarrow> None
                  | Some c \<Rightarrow> if now - sn_checkedAt c < 1000 then Some c else None)) of
             Some c \<Rightarrow> (Inr c, g, d)
           | None \<Rightarrow>
             (case fresh d of
                Inl e \<Rightarrow> (Inl e, g, d)
              | Inr (s, d') \<Rightarrow> (Inr s, g\<lparr>ng_cached := Some s\<rparr>, d')))))"

definition nextPollDelayMs :: "time \<Rightarrow> NetworkGuard \<Rightarrow> int" where
  "nextPollDelayMs now g =
     (case ng_cached g of None \<Rightarrow> 10000
      | Some c \<Rightarrow>
        (let remaining = referenceCheckIntervalMs (sn_status c) (sn_outageId c) - (now - sn_checkedAt c)
         in min 10000 (max 1 remaining)))"

section \<open>Summaries\<close>

definition check_in_flight :: "time \<Rightarrow> ScheduledCheck \<Rightarrow> bool" where
  "check_in_flight recoveredAt c \<longleftrightarrow>
     (sc_status c = RUNNING \<or> sc_status c = ScheduledCheckStatus.ENQUEUED) \<and>
     (case sc_startedAt c of None \<Rightarrow> False | Some t \<Rightarrow> t \<le> recoveredAt) \<and> sc_completedAt c = None"

definition pending_observation :: "db \<Rightarrow> NetworkObservation \<Rightarrow> bool" where
  "pending_observation d n \<longleftrightarrow>
     nb_recheckedAt n = None \<and>
     (case find_by mo_id (nb_monitorId n) (monitors d) of None \<Rightarrow> False
      | Some m \<Rightarrow> lifecycleStatus (mo_state m) = ACTIVE \<and> mo_deletedAt m = None \<and>
          configVersion (mo_state m) = nb_configVersion n)"

definition outage_dedupeKey :: "id \<Rightarrow> id \<Rightarrow> jstring" where
  "outage_dedupeKey outageId channelId =
     js ''network:'' @ outageId @ js '':channel:'' @ channelId @ js '':recovery''"

definition hidden_network :: jstring where "hidden_network = [0x28, 0xAC10, 0xC2DC, 0x20, 0x50, 0x43, 0x20, 0xC678, 0xBD80, 0x20, 0xC5F0, 0xACB0, 0x29]"

definition summary_text :: "int \<Rightarrow> int \<Rightarrow> int \<Rightarrow> int \<Rightarrow> jstring" where
  "summary_text success failed waiting skipped =
     [0xB300, 0xC0C1, 0x20, 0xC7AC, 0xAC80, 0xC0AC, 0x3A, 0x20, 0xC815, 0xC0C1, 0x20, 0xC751,
      0xB2F5, 0x20] @ js_number success @
     [0xAC1C, 0x2C, 0x20, 0xB300, 0xC0C1, 0x20, 0xC624, 0xB958, 0x20] @ js_number failed @
     [0xAC1C, 0x2C, 0x20, 0xD655, 0xC778, 0x20, 0xB300, 0xAE30, 0x20] @ js_number waiting @
     [0xAC1C, 0x2C, 0x20, 0xC911, 0xC9C0, 0xB7, 0xC124, 0xC815, 0x20, 0xBCC0, 0xACBD, 0x20,
      0xB4F1, 0x20, 0xC81C, 0xC678, 0x20] @ js_number skipped @
     [0xAC1C, 0x2E, 0x20, 0xD655, 0xC778, 0x20, 0xBD88, 0xAC00, 0x20, 0xAD6C, 0xAC04, 0xC5D0,
      0xB294, 0x20, 0xB300, 0xC0C1, 0x20, 0xC7A5, 0xC560, 0xB7, 0xBCF5, 0xAD6C, 0xB97C, 0x20,
      0xD655, 0xC815, 0xD558, 0xC9C0, 0x20, 0xC54A, 0xC558, 0xC2B5, 0xB2C8, 0xB2E4, 0x2E]"

text \<open>A row created with the defaults of the schema.\<close>

definition default_outbox ::
  "id \<Rightarrow> id option \<Rightarrow> id option \<Rightarrow> id \<Rightarrow> NotificationEventType \<Rightarrow> int \<Rightarrow> jstring \<Rightarrow> json \<Rightarrow>
   jstring \<Rightarrow> jstring \<Rightarrow> 8 word list \<Rightarrow> jstring \<Rightarrow> time \<Rightarrow> NotificationOutbox" where
  "default_outbox oid monitorId incidentId channelId eventType seq dedupeKey payload ctype cname
     snapshot messageId now =
     \<lparr>ob_id = oid, ob_monitorId = monitorId, ob_incidentId = incidentId, ob_channelId = channelId,
      ob_eventType = eventType, ob_sequence = seq, ob_dedupeKey = dedupeKey,
      ob_payloadSafe = payload, ob_channelTypeSnapshot = ctype,
      ob_channelDisplayNameSnapshot = cname, ob_encryptedConfigSnapshot = snapshot,
      ob_status = NotificationOutboxStatus.PENDING, ob_availableAt = now, ob_leaseOwner = None,
      ob_leaseUntil = None, ob_queueJobId = None, ob_messageId = messageId, ob_attemptCount = 0,
      ob_maxAttempts = 3, ob_lastErrorSafe = None, ob_enqueuedAt = None, ob_processingAt = None,
      ob_sentAt = None, ob_failedAt = None, ob_canceledAt = None, ob_createdAt = now\<rparr>"

definition telegram :: jstring where "telegram = js ''TELEGRAM''"

definition usable_channel :: "NotificationChannel \<Rightarrow> bool" where
  "usable_channel c \<longleftrightarrow> ch_type c = telegram \<and> ch_enabled c \<and> ch_deletedAt c = None"

record guard_env =
  ge_observerId :: jstring
  ge_appBaseUrl :: "jstring option"
  ge_sha256 :: "jstring \<Rightarrow> jstring"
  ge_outboxId :: "id \<Rightarrow> id \<Rightarrow> id"

definition summary_payload ::
  "guard_env \<Rightarrow> NetworkOutage \<Rightarrow> time \<Rightarrow> jstring \<Rightarrow> json" where
  "summary_payload env outage recoveredAt text =
     JObj ([(js ''eventType'', JStr (js ''NETWORK_RECOVERY'')),
            (js ''monitorName'', JStr (ge_observerId env)),
            (js ''displayUrl'', JStr hidden_network),
            (js ''occurredAt'', JStr (toISOString recoveredAt)),
            (js ''networkStartedAt'', JStr (toISOString (nu_startedAt outage))),
            (js ''durationMs'', JNum (recoveredAt - nu_startedAt outage)),
            (js ''errorMessageSafe'', JStr text)] @
           (case ge_appBaseUrl env of None \<Rightarrow> []
            | Some u \<Rightarrow> if u = [] then [] else [(js ''dashboardUrl'', JStr (u @ js ''/network''))]))"

text \<open>The upsert with an empty update: an existing row for the key is kept as it is.\<close>

definition upsert_summary ::
  "guard_env \<Rightarrow> NetworkOutage \<Rightarrow> json \<Rightarrow> time \<Rightarrow> NotificationChannel \<Rightarrow> db \<Rightarrow> db_error + db" where
  "upsert_summary env outage payload now c d =
     (let key = outage_dedupeKey (nu_id outage) (ch_id c) in
      if find_by ob_dedupeKey key (outbox d) \<noteq> None then Inr d
      else create_outbox (default_outbox (ge_outboxId env (nu_id outage) (ch_id c)) None None (ch_id c)
             NETWORK_RECOVERY 1 key payload (ch_type c) (ch_displayName c) (ch_encryptedConfig c)
             (createStableMessageId (ge_sha256 env) key None) now) d)"

definition summarize_outage :: "guard_env \<Rightarrow> time \<Rightarrow> id \<Rightarrow> db \<Rightarrow> db_error + db" where
  "summarize_outage env now outageId d =
     (case find_by nu_id outageId (networkOutages d) of None \<Rightarrow> Inl RecordNotFound
      | Some outage \<Rightarrow>
        (case nu_recoveredAt outage of None \<Rightarrow> Inr d
         | Some recoveredAt \<Rightarrow>
           if nu_summarizedAt outage \<noteq> None then Inr d
           else if list_ex (check_in_flight recoveredAt) (scheduledChecks d) then Inr d
           else
             (let observations = filter (\<lambda>n. nb_outageId n = outageId) (networkObservations d);
                  waiting = filter (pending_observation d) observations;
                  d1 = (if waiting = [] then d
                        else d\<lparr>monitors := update_where
                               (\<lambda>m. List.member (map nb_monitorId waiting) (mo_id m) \<and>
                                    (case mo_nextCheckAt m of None \<Rightarrow> False | Some t \<Rightarrow> now < t))
                               (\<lambda>m. m\<lparr>mo_nextCheckAt := Some now\<rparr>) (monitors d)\<rparr>)
              in if waiting \<noteq> [] \<and> now - recoveredAt < 120000 then Inr d1
                 else
                   (let success = int (count_where (\<lambda>n. nb_outcome n = Some (js ''SUCCESS'')) observations);
                        failed = int (count_where (\<lambda>n. nb_outcome n = Some (js ''TARGET_FAILURE'')) observations);
                        wait = int (length waiting);
                        skipped = int (length observations) - success - failed - wait;
                        ids = string_items (Some (nu_channelIds outage));
                        chans = filter (\<lambda>c. List.member ids (ch_id c) \<and> usable_channel c) (channels d1);
                        payload = summary_payload env outage recoveredAt
                          (summary_text success failed wait skipped)
                    in case fold_tx (upsert_summary env outage payload now) chans d1 of
                         Inl e \<Rightarrow> Inl e
                       | Inr d2 \<Rightarrow>
                         Inr (d2\<lparr>networkOutages := update_where (\<lambda>u. nu_id u = outageId)
                                  (\<lambda>u. u\<lparr>nu_summarizedAt := Some now\<rparr>) (networkOutages d2)\<rparr>)))))"

text \<open>Each outage is summarized in a transaction of its own; a throw ends the pass.\<close>

definition outages_to_summarize :: "jstring \<Rightarrow> db \<Rightarrow> id list" where
  "outages_to_summarize observerId d =
     map nu_id (take 10 (sort_key nu_startedAt (filter (\<lambda>u. nu_observerId u = observerId \<and>
       nu_recoveredAt u \<noteq> None \<and> nu_summarizedAt u = None) (networkOutages d))))"

fun summarize_all :: "guard_env \<Rightarrow> time \<Rightarrow> id list \<Rightarrow> db \<Rightarrow> db_error option \<times> db" where
  "summarize_all env now [] d = (None, d)"
| "summarize_all env now (u # us) d =
     (case summarize_outage env now u d of
        Inl e \<Rightarrow> (Some e, d) | Inr d' \<Rightarrow> summarize_all env now us d')"

definition summarize :: "guard_env \<Rightarrow> time \<Rightarrow> db \<Rightarrow> db_error option \<times> db" where
  "summarize env now d = summarize_all env now (outages_to_summarize (ge_observerId env) d) d"

definition tick ::
  "guard_env \<Rightarrow> (db \<Rightarrow> db_error + Snapshot \<times> db) \<Rightarrow> time \<Rightarrow> NetworkGuard \<times> db \<Rightarrow>
   db_error option \<times> NetworkGuard \<times> db" where
  "tick env fresh now gd =
     (case inspect fresh now True gd of
        (Inl e, gd') \<Rightarrow> (Some e, gd')
      | (Inr _, g, d) \<Rightarrow> (case summarize env now d of (e, d') \<Rightarrow> (e, g, d')))"

definition poll ::
  "guard_env \<Rightarrow> (db \<Rightarrow> db_error + Snapshot \<times> db) \<Rightarrow> time \<Rightarrow> NetworkGuard \<times> db \<Rightarrow>
   db_error option \<times> NetworkGuard \<times> db" where
  "poll env fresh now gd =
     (let due = (case ng_cached (fst gd) of None \<Rightarrow> True
                 | Some c \<Rightarrow> referenceCheckIntervalMs (sn_status c) (sn_outageId c)
                              \<le> now - sn_checkedAt c)
      in if due then tick env fresh now gd
         else (case gd of (g, d) \<Rightarrow> (case summarize env now d of (e, d') \<Rightarrow> (e, g, d'))))"

section \<open>Outages of an observer\<close>

definition outage_open :: "NetworkOutage \<Rightarrow> bool" where
  "outage_open u \<longleftrightarrow> nu_recoveredAt u = None \<and> nu_canceledAt u = None"

definition open_outages :: "jstring \<Rightarrow> db \<Rightarrow> id list" where
  "open_outages ob d =
     map nu_id (filter (\<lambda>u. nu_observerId u = ob \<and> outage_open u) (networkOutages d))"

definition outage_inv :: "db \<Rightarrow> bool" where
  "outage_inv d \<longleftrightarrow>
     distinct (map no_id (networkObservers d)) \<and> distinct (map nu_id (networkOutages d)) \<and>
     (\<forall>u \<in> set (networkOutages d). outage_open u \<longrightarrow>
        nu_observerId u \<in> set (map no_id (networkObservers d))) \<and>
     (\<forall>o' \<in> set (networkObservers d).
        open_outages (no_id o') d = (case no_activeOutageId o' of None \<Rightarrow> [] | Some u \<Rightarrow> [u]) \<and>
        (no_status o' = st_offline \<longrightarrow> no_activeOutageId o' \<noteq> None))"

lemma filter_update_dropped:
  assumes "\<And>r. key r = k \<Longrightarrow> \<not> p (f r)"
  shows "filter p (update_where (\<lambda>r. key r = k) f rows) = filter (\<lambda>r. p r \<and> key r \<noteq> k) rows"
  by (induction rows) (auto simp: assms)

lemma close_outage_fields [simp]:
  "nu_id (close_outage st t u) = nu_id u" "nu_observerId (close_outage st t u) = nu_observerId u"
  "\<not> outage_open (close_outage st t u)"
  by (simp_all add: close_outage_def outage_open_def)

lemma open_outage_fields [simp]:
  "nu_id (open_outage ob t c i) = i" "nu_observerId (open_outage ob t c i) = ob"
  "outage_open (open_outage ob t c i)"
  by (simp_all add: open_outage_def outage_open_def)

text \<open>Writing the observer row of an observer whose open outages are the given ones.\<close>

lemma write_observer_inv:
  assumes "distinct (map no_id (networkObservers d))" "distinct (map nu_id (networkOutages d))"
    and "\<forall>u \<in> set (networkOutages d). outage_open u \<longrightarrow>
        nu_observerId u \<in> set (map no_id (networkObservers d))"
    and "\<forall>o' \<in> set (networkObservers d). no_id o' \<noteq> ob \<longrightarrow>
        open_outages (no_id o') d = (case no_activeOutageId o' of None \<Rightarrow> [] | Some u \<Rightarrow> [u]) \<and>
        (no_status o' = st_offline \<longrightarrow> no_activeOutageId o' \<noteq> None)"
    and "open_outages ob d = (case oid of None \<Rightarrow> [] | Some u \<Rightarrow> [u])"
    and "st = st_offline \<Longrightarrow> oid \<noteq> None"
  shows "outage_inv (write_observer ob urls rs st t oid d)"
proof -
  let ?d = "write_observer ob urls rs st t oid d"
  have ids: "map no_id (networkObservers ?d) = map no_id (networkObservers d)"
    by (simp add: write_observer_def map_update_where_frame)
  have out: "networkOutages ?d = networkOutages d" by (simp add: write_observer_def)
  have "open_outages (no_id o') ?d = (case no_activeOutageId o' of None \<Rightarrow> [] | Some u \<Rightarrow> [u]) \<and>
        (no_status o' = st_offline \<longrightarrow> no_activeOutageId o' \<noteq> None)"
    if "o' \<in> set (networkObservers ?d)" for o'
  proof -
    have eq: "open_outages x ?d = open_outages x d" for x by (simp add: open_outages_def out)
    from that consider r where "r \<in> set (networkObservers d)" "no_id r = ob"
        "o' = r\<lparr>no_status := st, no_checkedAt := Some t, no_activeOutageId := oid,
          no_probeResults := Some (JArr (map (\<lambda>(u, r). probe_json u r) (zip urls rs)))\<rparr>"
      | "o' \<in> set (networkObservers d)" "no_id o' \<noteq> ob"
      unfolding write_observer_def by (auto elim!: update_whereE)
    then show ?thesis
    proof cases
      case 1
      with assms(5,6) eq show ?thesis by simp
    next
      case 2
      with assms(4) eq show ?thesis by simp
    qed
  qed
  with ids out assms(1-3) show ?thesis unfolding outage_inv_def by simp
qed

lemma upsert_observer_inv:
  assumes "outage_inv d"
  shows "outage_inv (upsert_observer ob d)"
proof (cases "find_by no_id ob (networkObservers d) = None")
  case True
  then have new: "ob \<notin> set (map no_id (networkObservers d))" by (auto simp: find_by_None)
  with assms have "\<forall>u \<in> set (networkOutages d). outage_open u \<longrightarrow> nu_observerId u \<noteq> ob"
    unfolding outage_inv_def by metis
  then have none: "open_outages ob d = []" by (auto simp: open_outages_def filter_empty_conv)
  let ?d = "upsert_observer ob d"
  have eq: "open_outages x ?d = open_outages x d" "networkOutages ?d = networkOutages d" for x
    by (simp_all add: upsert_observer_def open_outages_def)
  have obs: "networkObservers ?d = networkObservers d @ [\<lparr>no_id = ob, no_status = st_unknown,
      no_checkedAt = None, no_probeResults = None, no_activeOutageId = None\<rparr>]"
    using True by (simp add: upsert_observer_def)
  from assms new none show ?thesis
    unfolding outage_inv_def eq obs by auto
next
  case False
  then have "upsert_observer ob d = d" by (simp add: upsert_observer_def)
  with assms show ?thesis by simp
qed

lemma inspect_write_inv:
  assumes inv: "outage_inv d" and ob: "ob' \<in> set (networkObservers d)" "no_id ob' = ob"
    and fresh: "newOutage \<notin> set (map nu_id (networkOutages d))"
    and st: "st \<in> {st_online, st_offline, st_unknown, st_disabled}"
    and res: "inspect_write ob newOutage settings t0 t1 results st ob' d = Inr (s, d')"
  shows "outage_inv d' \<and> (sn_status s = st_offline \<longrightarrow> sn_outageId s \<noteq> None)"
proof (cases "no_activeOutageId ob'")
  case None
  with inv ob have none: "open_outages ob d = []" by (auto simp: outage_inv_def)
  show ?thesis
  proof (cases "st = st_offline")
    case True
    define d1 where "d1 = d\<lparr>networkOutages := networkOutages d @ [open_outage ob t0
        (case settings of None \<Rightarrow> JArr [] | Some x \<Rightarrow> ns_channelIds x) newOutage]\<rparr>"
    have d': "d' = write_observer ob (settings_urls settings) results st t1 (Some newOutage) d1"
      "sn_outageId s = Some newOutage"
      using res None True by (auto simp: inspect_write_def Let_def d1_def)
    have "open_outages x d1 = open_outages x d @ (if x = ob then [newOutage] else [])" for x
      by (simp add: open_outages_def d1_def)
    then have "outage_inv d'"
      unfolding d'(1) by (intro write_observer_inv)
        (use inv ob fresh none in \<open>auto simp: outage_inv_def d1_def\<close>)
    with d' show ?thesis by simp
  next
    case False
    with res None have d': "d' = write_observer ob (settings_urls settings) results st t1 None d"
      "sn_status s = st" by (auto simp: inspect_write_def Let_def)
    have "outage_inv d'"
      unfolding d'(1) by (rule write_observer_inv) (use inv none False in \<open>auto simp: outage_inv_def\<close>)
    with d' False show ?thesis by simp
  qed
next
  case (Some u)
  with inv ob have one: "open_outages ob d = [u]" by (auto simp: outage_inv_def)
  show ?thesis
  proof (cases "st = st_online \<or> st = st_disabled")
    case True
    define d1 where "d1 = d\<lparr>networkOutages := update_where (\<lambda>x. nu_id x = u)
        (close_outage st t1) (networkOutages d),
        monitors := update_where (awaiting_recheck d u) (\<lambda>m. m\<lparr>mo_nextCheckAt := Some t1\<rparr>) (monitors d)\<rparr>"
    have d': "d' = write_observer ob (settings_urls settings) results st t1 None d1" "sn_status s = st"
      using res Some True by (auto simp: inspect_write_def Let_def d1_def split: if_splits)
    have open1: "open_outages x d1 = filter (\<lambda>i. i \<noteq> u) (open_outages x d)" for x
    proof -
      have "open_outages x d1 = map nu_id (filter (\<lambda>y. (nu_observerId y = x \<and> outage_open y) \<and>
          nu_id y \<noteq> u) (networkOutages d))"
        unfolding open_outages_def d1_def by (simp add: filter_update_dropped)
      also have "\<dots> = filter (\<lambda>i. i \<noteq> u) (open_outages x d)"
        by (simp add: open_outages_def filter_map comp_def conj_commute)
      finally show ?thesis .
    qed
    have other: "u \<notin> set (open_outages x d)" if "x \<noteq> ob" for x
    proof
      assume "u \<in> set (open_outages x d)"
      moreover have "u \<in> set (open_outages ob d)" using one by simp
      ultimately obtain y z where "y \<in> set (networkOutages d)" "nu_id y = u" "nu_observerId y = x"
        "z \<in> set (networkOutages d)" "nu_id z = u" "nu_observerId z = ob"
        by (auto simp: open_outages_def)
      with inv have "y = z" by (auto simp: outage_inv_def distinct_map inj_on_def)
      with \<open>nu_observerId y = x\<close> \<open>nu_observerId z = ob\<close> that show False by simp
    qed
    have ids1: "map nu_id (networkOutages d1) = map nu_id (networkOutages d)"
      "networkObservers d1 = networkObservers d"
      by (simp_all add: d1_def map_update_where_frame)
    have kept: "\<forall>x \<in> set (networkOutages d1). outage_open x \<longrightarrow> x \<in> set (networkOutages d)"
      by (auto simp: d1_def elim!: update_whereE)
    have "outage_inv d'"
      unfolding d'(1)
    proof (rule write_observer_inv)
      show "distinct (map no_id (networkObservers d1))" "distinct (map nu_id (networkOutages d1))"
        using inv ids1 by (simp_all add: outage_inv_def)
      show "\<forall>x \<in> set (networkOutages d1). outage_open x \<longrightarrow>
          nu_observerId x \<in> set (map no_id (networkObservers d1))"
        using kept inv ids1 by (simp add: outage_inv_def)
      show "\<forall>o' \<in> set (networkObservers d1). no_id o' \<noteq> ob \<longrightarrow>
          open_outages (no_id o') d1 = (case no_activeOutageId o' of None \<Rightarrow> [] | Some u \<Rightarrow> [u]) \<and>
          (no_status o' = st_offline \<longrightarrow> no_activeOutageId o' \<noteq> None)"
      proof (intro ballI impI)
        fix o' assume o': "o' \<in> set (networkObservers d1)" "no_id o' \<noteq> ob"
        have "filter (\<lambda>i. i \<noteq> u) (open_outages (no_id o') d) = open_outages (no_id o') d"
          using other[OF o'(2)] by (auto simp: filter_id_conv)
        with inv o'(1) ids1 open1 show "open_outages (no_id o') d1
            = (case no_activeOutageId o' of None \<Rightarrow> [] | Some u \<Rightarrow> [u]) \<and>
          (no_status o' = st_offline \<longrightarrow> no_activeOutageId o' \<noteq> None)"
          by (simp add: outage_inv_def)
      qed
      show "open_outages ob d1 = (case None of None \<Rightarrow> [] | Some u \<Rightarrow> [u])"
        by (simp add: open1 one)
      show "st = st_offline \<Longrightarrow> None \<noteq> None" using True by auto
    qed
    with d' True show ?thesis by auto
  next
    case False
    with res Some have d': "d' = write_observer ob (settings_urls settings) results st t1 (Some u) d"
      "sn_outageId s = Some u" by (auto simp: inspect_write_def Let_def)
    have "outage_inv d'"
      unfolding d'(1) by (rule write_observer_inv) (use inv one in \<open>auto simp: outage_inv_def\<close>)
    with d' show ?thesis by simp
  qed
qed

lemma inspect_tx_inv:
  assumes "outage_inv d" "newOutage \<notin> set (map nu_id (networkOutages d))"
    "st \<in> {st_online, st_offline, st_unknown, st_disabled}"
    "inspect_tx ob newOutage settings t0 t1 results st d = Inr (s, d')"
  shows "outage_inv d' \<and> (sn_status s = st_offline \<longrightarrow> sn_outageId s \<noteq> None)"
proof (cases "settings_version (settings_row d) \<noteq> settings_version settings")
  case True
  with assms show ?thesis by (auto simp: inspect_tx_def)
next
  case False
  let ?d = "upsert_observer ob d"
  have inv: "outage_inv ?d" using assms(1) by (rule upsert_observer_inv)
  have fresh: "newOutage \<notin> set (map nu_id (networkOutages ?d))"
    using assms(2) by (simp add: upsert_observer_def)
  from False assms(4) obtain o' where o': "find_by no_id ob (networkObservers ?d) = Some o'"
    and cases: "(d' = ?d \<and> sn_status s = no_status o' \<and> sn_outageId s = no_activeOutageId o') \<or>
      inspect_write ob newOutage settings t0 t1 results st o' ?d = Inr (s, d')"
    by (auto simp: inspect_tx_def Let_def split: option.splits if_splits)
  from find_by_Some[OF o'] have o: "o' \<in> set (networkObservers ?d)" "no_id o' = ob" by simp_all
  from cases show ?thesis
  proof
    assume "d' = ?d \<and> sn_status s = no_status o' \<and> sn_outageId s = no_activeOutageId o'"
    with inv o(1) show ?thesis by (auto simp: outage_inv_def)
  next
    assume "inspect_write ob newOutage settings t0 t1 results st o' ?d = Inr (s, d')"
    from inspect_write_inv[OF inv o fresh assms(3) this] show ?thesis .
  qed
qed

lemma inspectFresh_inv:
  assumes "outage_inv d" "newOutage \<notin> set (map nu_id (networkOutages d))"
    "inspectFresh ob probe newOutage t0 t1 d0 d = Inr (s, d')"
  shows "outage_inv d' \<and> (sn_status s = st_offline \<longrightarrow> sn_outageId s \<noteq> None)"
proof -
  have "referenceStatus rs \<in> {st_online, st_offline, st_unknown, st_disabled}" for rs
    by (simp add: referenceStatus_def)
  then have "(if probing_enabled (settings_row d0) then referenceStatus rs else st_disabled)
      \<in> {st_online, st_offline, st_unknown, st_disabled}" for rs by simp
  from inspect_tx_inv[OF assms(1,2) this assms(3)[unfolded inspectFresh_def Let_def]] show ?thesis .
qed

lemma isNetworkFailure_inconclusive [simp]: "\<not> isNetworkFailure (inconclusiveNetworkResult r)"
  by (simp add: isNetworkFailure_def inconclusiveNetworkResult_def)

lemma assess_cases:
  assumes "assess insp retry result s = (Inr a, s')"
  obtains (passed) "\<not> isNetworkFailure result" "na_result a = result" "na_outageId a = None"
  | (accepted) f s1 snap s2 where "isNetworkFailure result" "isNetworkFailure (na_result a)" "na_outageId a = None"
      "insp f s1 = (Inr snap, s2)" "sn_status snap \<in> {st_online, st_disabled}"
  | (retried) s1 s2 where "\<not> isNetworkFailure (na_result a)" "na_outageId a = None"
      "retry s1 = (Inr (na_result a), s2)" "isNetworkFailure result"
  | (suppressed) f s1 snap s2 r where "isNetworkFailure result" "isNetworkFailure r"
      "na_result a = inconclusiveNetworkResult r" "insp f s1 = (Inr snap, s2)"
      "sn_status snap \<notin> {st_online, st_disabled}" "na_outageId a = sn_outageId snap"
  using assms unfolding assess_def
  by (auto split: if_splits prod.splits sum.splits)

section \<open>Properties\<close>

text \<open>A check that failed for a network reason is reported as a failure of the target only
after an inspection found the references reachable (or monitoring of them disabled); when
the inspection found anything else the result becomes inconclusive and carries the outage,
and every other result passes through unchanged or is the retry's own result.\<close>

theorem assessment_sound:
  assumes "assess insp retry result s = (Inr a, s')"
  shows "(isNetworkFailure (na_result a) \<longrightarrow>
           (\<exists>f s1 snap s2. insp f s1 = (Inr snap, s2) \<and> sn_status snap \<in> {st_online, st_disabled})) \<and>
         (na_result a \<noteq> result \<and> \<not> isNetworkFailure (na_result a) \<longrightarrow>
           (\<exists>s1 s2. retry s1 = (Inr (na_result a), s2)) \<or>
           (\<exists>f s1 snap s2 r. isNetworkFailure r \<and> na_result a = inconclusiveNetworkResult r \<and>
              insp f s1 = (Inr snap, s2) \<and> sn_status snap \<notin> {st_online, st_disabled} \<and>
              na_outageId a = sn_outageId snap)) \<and>
         (\<not> isNetworkFailure result \<longrightarrow> na_result a = result \<and> na_outageId a = None)"
  using assms
proof (rule assess_cases, goal_cases passed accepted retried suppressed)
  case passed
  then show ?case by simp
next
  case (accepted f s1 snap s2)
  then show ?case by blast
next
  case (retried s1 s2)
  then show ?case by blast
next
  case (suppressed f s1 snap s2 r)
  then show ?case by (metis isNetworkFailure_inconclusive)
qed

definition failed_result :: MonitorCheckResult where
  "failed_result =
     \<lparr>rs_source = SCHEDULED, rs_outcome = TARGET_FAILURE, rs_configVersion = Some 1,
      rs_startedAt = 1000, rs_finishedAt = 2000, rs_statusCode = None, rs_ttfbMs = None,
      rs_totalMs = 1000, rs_errorType = Some DNS_ERROR, rs_errorMessageSafe = None,
      rs_finalUrlDisplay = js ''https://a.example/'', rs_redirectCount = 0,
      rs_inspectedBodyBytes = 0\<rparr>"

theorem assessment_sound_witness:
  "\<exists>a. assess (\<lambda>_ s. (Inr \<lparr>sn_status = st_offline, sn_outageId = Some (js ''o1''),
              sn_checkedAt = 3000\<rparr>, s)) (\<lambda>s. (Inr failed_result, s)) failed_result () = (Inr a, ()) \<and>
       rs_outcome (na_result a) = INCONCLUSIVE \<and> na_outageId a = Some (js ''o1'') \<and>
       \<not> isNetworkFailure (na_result a)"
proof -
  let ?i = "\<lambda>_ s. (Inr \<lparr>sn_status = st_offline, sn_outageId = Some (js ''o1''), sn_checkedAt = 3000\<rparr>, s)"
  let ?a = "\<lparr>na_result = inconclusiveNetworkResult failed_result, na_outageId = Some (js ''o1'')\<rparr>"
  have eval: "assess ?i (\<lambda>s. (Inr failed_result, s)) failed_result () = (Inr ?a, ())"
    by (simp add: assess_def isNetworkFailure_def failed_result_def NETWORK_ERRORS_def)
  from assessment_sound[OF eval] have "\<not> isNetworkFailure (na_result ?a)" by auto
  with eval show ?thesis by (auto simp: inconclusiveNetworkResult_def)
qed

text \<open>C30. Inspections keep the outage ledger consistent: each observer has at most one open
outage, it is the one recorded on the observer, and an observer that is offline has one; a
snapshot that says offline therefore always names an outage, whatever the probes and the
settings were.\<close>

theorem inspection_keeps_outages:
  assumes "outage_inv d" "newOutage \<notin> set (map nu_id (networkOutages d))"
    "inspectFresh observerId probe newOutage t0 t1 d0 d = Inr (s, d')"
  shows "outage_inv d' \<and> (sn_status s = st_offline \<longrightarrow> sn_outageId s \<noteq> None)"
  using inspectFresh_inv[OF assms] .

definition offline_db :: db where
  "offline_db = empty_db\<lparr>networkSettings := [\<lparr>ns_id = 1, ns_enabled = True,
     ns_urls = JArr [JStr (js ''https://a/''), JStr (js ''https://b/'')], ns_channelIds = JArr [],
     ns_version = 1\<rparr>]\<rparr>"

theorem inspection_keeps_outages_witness:
  "\<exists>s d'. inspectFresh (js ''pc'') (\<lambda>_. Some failed_result) (js ''o1'') 1000 2000 offline_db offline_db
       = Inr (s, d') \<and> sn_status s = st_offline \<and> sn_outageId s = Some (js ''o1'') \<and> outage_inv d'"
proof -
  have "outage_inv offline_db" by (simp add: outage_inv_def offline_db_def empty_db_def)
  moreover have "js ''o1'' \<notin> set (map nu_id (networkOutages offline_db))"
    by (simp add: offline_db_def empty_db_def)
  moreover have "\<exists>s d'. inspectFresh (js ''pc'') (\<lambda>_. Some failed_result) (js ''o1'') 1000 2000
       offline_db offline_db = Inr (s, d') \<and> sn_status s = st_offline \<and> sn_outageId s = Some (js ''o1'')"
    by (simp add: inspectFresh_def inspect_tx_def inspect_write_def offline_db_def empty_db_def
        settings_row_def settings_urls_def probing_enabled_def find_by_def checkReferenceUrls_def
        referenceStatus_def isNetworkFailure_def failed_result_def NETWORK_ERRORS_def Let_def
        upsert_observer_def)
  ultimately show ?thesis using inspection_keeps_outages by blast
qed

end
