(* ===== verification/Check_Processor.thy ===== *)
theory Check_Processor
  imports Network_Guard Leases
begin

text \<open>
  The worker's processor of scheduled checks, \<open>apps/worker/src/check-processor.ts\<close>: the claim
  of the ledger row, the check and its assessment by the network guard, and the transaction
  that persists the result, advances the monitor, keeps its incident and writes the outbox.
  Row ids, SHA-256, the cipher, the check runner and the text of a unique-constraint target
  are parameters. A transaction that throws leaves the database as it was.
\<close>

section \<open>Configuration\<close>

record CheckProcessorConfig =
  pc_instanceId :: jstring
  pc_region :: jstring
  pc_leaseMs :: int
  pc_decipher :: decipher
  pc_appBaseUrl :: "jstring option"
  pc_messageIdDomain :: "jstring option"

text \<open>Code outside the file: hashing, new row ids, and how the client prints a constraint.\<close>

record runtime =
  rt_sha256 :: "jstring \<Rightarrow> jstring"
  rt_resultId :: "id \<Rightarrow> id"
  rt_incidentId :: "id \<Rightarrow> id"
  rt_outboxId :: "id \<Rightarrow> NotificationEventType \<Rightarrow> id \<Rightarrow> id"
  rt_target :: "string \<Rightarrow> string"

datatype ProcessStatus = completed | duplicate | canceled

definition unreadable_message :: jstring where
  "unreadable_message = [0xAC80, 0xC0AC, 0x20, 0xC124, 0xC815, 0xC744, 0x20, 0xC548, 0xC804, 0xD558, 0xAC8C,
      0x20, 0xC77D, 0xC9C0, 0x20, 0xBABB, 0xD588, 0xC2B5, 0xB2C8, 0xB2E4, 0x2E]"

definition platformFailure :: "int \<Rightarrow> time \<Rightarrow> time \<Rightarrow> MonitorCheckResult" where
  "platformFailure version startedAt finishedAt =
     \<lparr>rs_source = SCHEDULED, rs_outcome = CheckOutcome.PLATFORM_ERROR,
      rs_configVersion = Some version, rs_startedAt = startedAt, rs_finishedAt = finishedAt,
      rs_statusCode = None, rs_ttfbMs = None, rs_totalMs = elapsed startedAt finishedAt,
      rs_errorType = Some CheckErrorType.PLATFORM_ERROR,
      rs_errorMessageSafe = Some unreadable_message, rs_finalUrlDisplay = hidden_url,
      rs_redirectCount = 0, rs_inspectedBodyBytes = 0\<rparr>"

section \<open>Outbox rows of an incident\<close>

definition message_domain :: "CheckProcessorConfig \<Rightarrow> jstring option" where
  "message_domain config = (if pc_messageIdDomain config = Some [] then None
                            else pc_messageIdDomain config)"

definition event_outbox ::
  "CheckProcessorConfig \<Rightarrow> runtime \<Rightarrow> Monitor \<Rightarrow> Incident \<Rightarrow> MonitorCheckResult \<Rightarrow> time \<Rightarrow>
   NotificationEventType \<Rightarrow> id \<Rightarrow> bool \<Rightarrow> jstring \<Rightarrow> jstring \<Rightarrow> 8 word list \<Rightarrow>
   db_error + NotificationOutbox" where
  "event_outbox config rt monitor incident result now eventType channelId notifyOnRecovery
     ctype cname snapshot =
     (case createNotificationDedupeKey \<lparr>dp_incidentId = ic_id incident, dp_channelId = channelId,
             dp_eventType = eventType\<rparr> of
        Inl e \<Rightarrow> Inl (Thrown e)
      | Inr dedupeKey \<Rightarrow>
        (case makeNotificationPayload eventType (payload_monitor monitor) (payload_incident incident)
                (Some result) (pc_appBaseUrl config) notifyOnRecovery now of
           Inl e \<Rightarrow> Inl (Thrown e)
         | Inr payload \<Rightarrow>
           Inr (default_outbox (rt_outboxId rt (ic_id incident) eventType channelId)
             (Some (mo_id monitor)) (Some (ic_id incident)) channelId eventType
             (notificationSequence eventType) dedupeKey payload ctype cname snapshot
             (createStableMessageId (rt_sha256 rt) dedupeKey (message_domain config)) now)))"

text \<open>Bindings of the monitor that want DOWN on a usable channel, each with its channel.\<close>

definition down_bindings :: "id \<Rightarrow> db \<Rightarrow> (MonitorChannel \<times> NotificationChannel) list" where
  "down_bindings monitorId d =
     [(b, c). b \<leftarrow> monitorChannels d, mc_monitorId b = monitorId \<and> mc_notifyOnDown b,
              c \<leftarrow> channels d, ch_id c = mc_channelId b \<and> usable_channel c]"

definition createOutbox ::
  "CheckProcessorConfig \<Rightarrow> runtime \<Rightarrow> Monitor \<Rightarrow> Incident \<Rightarrow> MonitorCheckResult \<Rightarrow> time \<Rightarrow> db \<Rightarrow>
   db_error + db" where
  "createOutbox config rt monitor incident result now d =
     fold_tx (\<lambda>(b, c) d'.
       case event_outbox config rt monitor incident result now NotificationEventType.DOWN
              (mc_channelId b) (mc_notifyOnRecovery b) (ch_type c) (ch_displayName c)
              (ch_encryptedConfig c) of
         Inl e \<Rightarrow> Inl e
       | Inr row \<Rightarrow> create_outbox row d')
       (down_bindings (mo_id monitor) d) d"

text \<open>\<open>update\<close> by id throws when the row is gone.\<close>

definition update_outbox :: "id \<Rightarrow> (NotificationOutbox \<Rightarrow> NotificationOutbox) \<Rightarrow> db \<Rightarrow> db_error + db" where
  "update_outbox i f d =
     (if find_by ob_id i (outbox d) = None then Inl RecordNotFound
      else Inr (d\<lparr>outbox := update_where (\<lambda>r. ob_id r = i) f (outbox d)\<rparr>))"

definition down_events :: "Monitor \<Rightarrow> Incident \<Rightarrow> db \<Rightarrow> NotificationOutbox list" where
  "down_events monitor incident d =
     sort_key ob_createdAt (filter (\<lambda>r.
       ob_incidentId r = Some (ic_id incident) \<and> ob_eventType r = NotificationEventType.DOWN \<and>
       (\<exists>c \<in> set (channels d). ch_id c = ob_channelId r \<and> usable_channel c \<and>
          (\<exists>b \<in> set (monitorChannels d). mc_channelId b = ch_id c \<and>
             mc_monitorId b = mo_id monitor \<and> mc_notifyOnRecovery b))) (outbox d))"

definition retire_unless_retained ::
  "NotificationOutbox \<Rightarrow> NotificationOutboxStatus \<Rightarrow> jstring option \<Rightarrow> bool \<Rightarrow> IncidentStatus \<Rightarrow> db \<Rightarrow>
   db_error + db" where
  "retire_unless_retained down status lastError allows incidentStatus d =
     (if \<not> shouldRetainNotificationSecret
            \<lparr>nss_status = status, nss_eventType = ob_eventType down, nss_lastErrorSafe = lastError,
             nss_payloadAllowsRecovery = allows, nss_incidentStatus = Some incidentStatus\<rparr>
      then update_outbox (ob_id down) retiredNotificationSecretData d else Inr d)"

text \<open>
  The replacement of a waiting DOWN: the plan, the status and the last error that hold after
  the conditional cancellation.
\<close>

definition replace_down ::
  "Incident \<Rightarrow> NotificationOutbox \<Rightarrow> RecoveryNotificationPlan \<Rightarrow> db \<Rightarrow>
   db_error + RecoveryNotificationPlan \<times> NotificationOutboxStatus \<times> jstring option \<times> db" where
  "replace_down incident down plan d =
     (if plan \<noteq> REPLACE_WITH_RESOLVED_SUMMARY
      then Inr (plan, ob_status down, ob_lastErrorSafe down, d)
      else
       (let p = (\<lambda>r. ob_id r = ob_id down \<and> ob_attemptCount r = 0 \<and>
                  (ob_status r = NotificationOutboxStatus.PENDING \<or>
                   ob_status r = NotificationOutboxStatus.ENQUEUED));
            count = count_where p (outbox d);
            d1 = d\<lparr>outbox := update_where p (\<lambda>r. r\<lparr>ob_status := NotificationOutboxStatus.CANCELED,
                   ob_canceledAt := ic_resolvedAt incident, ob_leaseOwner := None,
                   ob_leaseUntil := None\<rparr>) (outbox d)\<rparr>
        in if count = 0
           then (case find_by ob_id (ob_id down) (outbox d1) of
                   None \<Rightarrow> Inl RecordNotFound
                 | Some current \<Rightarrow>
                   (case planRecoveryNotification (ob_status current) (ob_attemptCount current) of
                      Inl e \<Rightarrow> Inl (Thrown e)
                    | Inr plan' \<Rightarrow> Inr (plan', ob_status current, ob_lastErrorSafe current, d1)))
           else Inr (plan, if count = 1 then NotificationOutboxStatus.CANCELED else ob_status down,
                     ob_lastErrorSafe down, d1)))"

definition recover_down ::
  "CheckProcessorConfig \<Rightarrow> runtime \<Rightarrow> Monitor \<Rightarrow> Incident \<Rightarrow> MonitorCheckResult \<Rightarrow> time \<Rightarrow>
   NotificationOutbox \<Rightarrow> db \<Rightarrow> db_error + db" where
  "recover_down config rt monitor incident result now down d =
     (let allows = payloadAllowsRecovery (ob_payloadSafe down) in
      if \<not> allows
      then retire_unless_retained down (ob_status down) (ob_lastErrorSafe down) False (ic_status incident) d
      else
       (case planRecoveryNotification (ob_status down) (ob_attemptCount down) of
          Inl e \<Rightarrow> Inl (Thrown e)
        | Inr plan0 \<Rightarrow>
         (case replace_down incident down plan0 d of Inl e \<Rightarrow> Inl e
          | Inr (plan, status, lastError, d1) \<Rightarrow>
            if plan = SKIP
            then retire_unless_retained down status lastError allows (ic_status incident) d1
            else
             (let eventType = (if plan = REPLACE_WITH_RESOLVED_SUMMARY then RESOLVED_SUMMARY
                               else RECOVERY)
              in case event_outbox config rt monitor incident result now eventType
                        (ob_channelId down) True (ob_channelTypeSnapshot down)
                        (ob_channelDisplayNameSnapshot down) (ob_encryptedConfigSnapshot down) of
                   Inl e \<Rightarrow> Inl e
                 | Inr row \<Rightarrow>
                   (case create_outbox row d1 of Inl e \<Rightarrow> Inl e
                    | Inr d2 \<Rightarrow>
                      retire_unless_retained down status lastError allows (ic_status incident) d2)))))"

definition createRecoveryOutbox ::
  "CheckProcessorConfig \<Rightarrow> runtime \<Rightarrow> Monitor \<Rightarrow> Incident \<Rightarrow> MonitorCheckResult \<Rightarrow> time \<Rightarrow> db \<Rightarrow>
   db_error + db" where
  "createRecoveryOutbox config rt monitor incident result now d =
     fold_tx (recover_down config rt monitor incident result now) (down_events monitor incident d) d"

section \<open>Incidents\<close>

definition update_incident :: "id \<Rightarrow> (Incident \<Rightarrow> Incident) \<Rightarrow> db \<Rightarrow> db" where
  "update_incident i f d = d\<lparr>incidents := update_where (\<lambda>r. ic_id r = i) f (incidents d)\<rparr>"

definition current_incident :: "id \<Rightarrow> db \<Rightarrow> Incident option" where
  "current_incident monitorId d =
     find_latest (\<lambda>i. ic_monitorId i = monitorId \<and> open_incident i) ic_detectedAt (incidents d)"

definition new_incident ::
  "id \<Rightarrow> Monitor \<Rightarrow> time \<Rightarrow> time \<Rightarrow> CheckErrorType option \<Rightarrow> CheckErrorType option \<Rightarrow> time \<Rightarrow> Incident" where
  "new_incident i monitor firstAt detAt firstErr lastErr now =
     \<lparr>ic_id = i, ic_monitorId = mo_id monitor, ic_configVersion = configVersion (mo_state monitor),
      ic_status = IncidentStatus.OPEN, ic_firstFailureAt = firstAt,
      ic_detectedAt = detAt, ic_resolvedAt = None, ic_canceledAt = None,
      ic_firstErrorType = firstErr, ic_lastErrorType = lastErr, ic_closureReason = None,
      ic_createdAt = now\<rparr>"

definition resolved_incident :: "time \<Rightarrow> Incident \<Rightarrow> Incident" where
  "resolved_incident t i =
     i\<lparr>ic_status := RESOLVED, ic_resolvedAt := Some t, ic_closureReason := Some RECOVERED\<rparr>"

definition applyIncidentEffect ::
  "CheckProcessorConfig \<Rightarrow> runtime \<Rightarrow> id \<Rightarrow> Monitor \<Rightarrow> MonitorCheckResult \<Rightarrow> IncidentEffect \<Rightarrow> time \<Rightarrow>
   db \<Rightarrow> db_error + db" where
  "applyIncidentEffect config rt newId monitor result effect now d =
     (case effect of
        NONE \<Rightarrow> Inr d
      | OPEN firstAt detAt firstErr lastErr \<Rightarrow>
        (case current_incident (mo_id monitor) d of
           Some existing \<Rightarrow>
             Inr (update_incident (ic_id existing) (\<lambda>i. i\<lparr>ic_lastErrorType := lastErr\<rparr>) d)
         | None \<Rightarrow>
           (let incident = new_incident newId monitor firstAt detAt firstErr lastErr now in
            case create_incident incident d of Inl e \<Rightarrow> Inl e
            | Inr d1 \<Rightarrow> createOutbox config rt monitor incident result now d1))
      | UPDATE lastErr \<Rightarrow>
        (case current_incident (mo_id monitor) d of None \<Rightarrow> Inr d
         | Some current \<Rightarrow>
           Inr (update_incident (ic_id current) (\<lambda>i. i\<lparr>ic_lastErrorType := lastErr\<rparr>) d))
      | RESOLVE t \<Rightarrow>
        (case current_incident (mo_id monitor) d of None \<Rightarrow> Inr d
         | Some current \<Rightarrow>
           createRecoveryOutbox config rt monitor (resolved_incident t current) result now
             (update_incident (ic_id current) (resolved_incident t) d))
      | IncidentEffect.CANCEL _ _ \<Rightarrow> Inr d)"

section \<open>Persisting a result\<close>

definition monitorUpdate ::
  "MonitorCheckResult \<Rightarrow> StateTransitionResult \<Rightarrow> Monitor \<Rightarrow> Monitor" where
  "monitorUpdate result transition m =
     (let ok = (rs_outcome result = SUCCESS); s = state transition in
      m\<lparr>mo_state := (mo_state m)\<lparr>healthState := healthState s,
          consecutiveFailures := consecutiveFailures s,
          consecutiveSuccesses := consecutiveSuccesses s,
          failureStreakStartedAt := failureStreakStartedAt s,
          failureStreakFirstErrorType := failureStreakFirstErrorType s\<rparr>,
        mo_lastCheckedAt := Some (rs_finishedAt result),
        mo_networkUnknownSince := None,
        mo_lastStatusCode := rs_statusCode result,
        mo_lastTtfbMs := rs_ttfbMs result,
        mo_lastTotalMs := Some (rs_totalMs result),
        mo_lastErrorType := rs_errorType result,
        mo_lastSuccessAt := (if ok then Some (rs_finishedAt result) else mo_lastSuccessAt m),
        mo_lastFailureAt := (if ok then mo_lastFailureAt m else Some (rs_finishedAt result))\<rparr>)"

definition update_monitor :: "id \<Rightarrow> (Monitor \<Rightarrow> Monitor) \<Rightarrow> db \<Rightarrow> db" where
  "update_monitor i f d = d\<lparr>monitors := update_where (\<lambda>m. mo_id m = i) f (monitors d)\<rparr>"

definition check_result_row ::
  "CheckProcessorConfig \<Rightarrow> runtime \<Rightarrow> Monitor \<Rightarrow> Monitor \<Rightarrow> ScheduledCheck \<Rightarrow> MonitorCheckResult \<Rightarrow> time \<Rightarrow>
   CheckResult" where
  "check_result_row config rt original monitor scheduled result now =
     \<lparr>cr_id = rt_resultId rt (sc_id scheduled), cr_monitorId = Some (mo_id monitor),
      cr_scheduledCheckId = Some (sc_id scheduled), cr_source = SCHEDULED,
      cr_outcome = rs_outcome result, cr_configVersion = Some (sc_configVersion scheduled),
      cr_displayUrlSnapshot = mo_displayUrl original, cr_startedAt = rs_startedAt result,
      cr_finishedAt = rs_finishedAt result, cr_statusCode = rs_statusCode result,
      cr_ttfbMs = rs_ttfbMs result, cr_totalMs = rs_totalMs result,
      cr_errorType = rs_errorType result,
      cr_errorMessageSafe = map_option (slice_to 1000) (rs_errorMessageSafe result),
      cr_workerRegion = Some (pc_region config), cr_redirectCount = rs_redirectCount result,
      cr_responseBytesRead = Some (rs_inspectedBodyBytes result), cr_createdAt = now\<rparr>"

definition result_valid :: "ScheduledCheck \<Rightarrow> Monitor \<Rightarrow> bool" where
  "result_valid scheduled monitor \<longleftrightarrow>
     active_check scheduled \<and> sc_configVersion scheduled = configVersion (mo_state monitor) \<and>
     lifecycleStatus (mo_state monitor) = ACTIVE \<and> mo_deletedAt monitor = None"

definition observe_inconclusive ::
  "bool \<Rightarrow> id option \<Rightarrow> Monitor \<Rightarrow> ScheduledCheck \<Rightarrow> MonitorCheckResult \<Rightarrow> db \<Rightarrow> db" where
  "observe_inconclusive guarded outageId monitor scheduled result d =
     (if guarded \<and> rs_outcome result = INCONCLUSIVE then
       (let d1 = update_monitor (mo_id monitor)
              (\<lambda>m. m\<lparr>mo_networkUnknownSince :=
                 coalesce (mo_networkUnknownSince monitor) (Some (rs_startedAt result))\<rparr>) d
        in case outageId of None \<Rightarrow> d1
           | Some u \<Rightarrow>
             if u = [] \<or> list_ex (\<lambda>n. nb_outageId n = u \<and> nb_monitorId n = mo_id monitor)
                  (networkObservations d1) then d1
             else d1\<lparr>networkObservations := networkObservations d1 @
                    [\<lparr>nb_outageId = u, nb_monitorId = mo_id monitor,
                      nb_configVersion = sc_configVersion scheduled, nb_recheckedAt = None,
                      nb_outcome = None\<rparr>]\<rparr>)
      else d)"

definition observe_recheck ::
  "bool \<Rightarrow> Monitor \<Rightarrow> ScheduledCheck \<Rightarrow> MonitorCheckResult \<Rightarrow> db \<Rightarrow> db" where
  "observe_recheck guarded monitor scheduled result d =
     (if guarded \<and> (rs_outcome result = SUCCESS \<or> rs_outcome result = TARGET_FAILURE) then
        d\<lparr>networkObservations := update_where
            (\<lambda>n. nb_monitorId n = mo_id monitor \<and> nb_recheckedAt n = None \<and>
                 nb_configVersion n = sc_configVersion scheduled \<and>
                 list_ex (\<lambda>u. nu_id u = nb_outageId n \<and>
                   (case nu_recoveredAt u of None \<Rightarrow> False | Some t \<Rightarrow> t \<le> rs_startedAt result))
                   (networkOutages d))
            (\<lambda>n. n\<lparr>nb_recheckedAt := Some (rs_finishedAt result),
                   nb_outcome := Some (js (outcome_name (rs_outcome result)))\<rparr>)
            (networkObservations d)\<rparr>
      else d)"

definition transition_input :: "Monitor \<Rightarrow> ScheduledCheck \<Rightarrow> MonitorCheckResult \<Rightarrow> CheckTransitionInput" where
  "transition_input monitor scheduled result =
     \<lparr>in_source = SCHEDULED, in_outcome = rs_outcome result,
      in_configVersion = sc_configVersion scheduled, in_checkedAt = Some (rs_finishedAt result),
      in_errorType = rs_errorType result, in_failureThreshold = mo_failureThreshold monitor,
      in_recoveryThreshold = mo_recoveryThreshold monitor\<rparr>"

definition persist_valid ::
  "CheckProcessorConfig \<Rightarrow> runtime \<Rightarrow> bool \<Rightarrow> id option \<Rightarrow> Monitor \<Rightarrow> ScheduledCheck \<Rightarrow>
   MonitorCheckResult \<Rightarrow> time \<Rightarrow> db \<Rightarrow> db_error + db" where
  "persist_valid config rt guarded outageId monitor scheduled result now d =
     (let d1 = observe_recheck guarded monitor scheduled result
                 (observe_inconclusive guarded outageId monitor scheduled result d)
      in case applyCheckResult (mo_state monitor) (transition_input monitor scheduled result) of
           Inl e \<Rightarrow> Inl (Thrown e)
         | Inr transition \<Rightarrow>
           if applied transition
           then applyIncidentEffect config rt (rt_incidentId rt (sc_id scheduled)) monitor result
                  (incidentEffect transition) now
                  (update_monitor (mo_id monitor) (monitorUpdate result transition) d1)
           else Inr d1)"

definition complete_check :: "id \<Rightarrow> time \<Rightarrow> db \<Rightarrow> db" where
  "complete_check i finishedAt d =
     d\<lparr>scheduledChecks := update_where (\<lambda>c. sc_id c = i)
         (\<lambda>c. c\<lparr>sc_status := COMPLETED, sc_completedAt := Some finishedAt, sc_leaseOwner := None,
                sc_leaseUntil := None, sc_failureReasonSafe := None\<rparr>) (scheduledChecks d)\<rparr>"

definition result_of :: "db \<Rightarrow> ScheduledCheck \<Rightarrow> CheckResult option" where
  "result_of d c =
     find (\<lambda>r. cr_scheduledCheckId r = Some (sc_id c) \<and> cr_monitorId r = Some (sc_monitorId c) \<and>
               cr_configVersion r = Some (sc_configVersion c)) (checkResults d)"

definition persist_tx ::
  "CheckProcessorConfig \<Rightarrow> runtime \<Rightarrow> bool \<Rightarrow> ScheduledCheck \<Rightarrow> Monitor \<Rightarrow> MonitorCheckResult \<Rightarrow>
   id option \<Rightarrow> time \<Rightarrow> db \<Rightarrow> db_error + ProcessStatus \<times> db" where
  "persist_tx config rt guarded original originalMonitor result outageId now d =
     (case find_by sc_id (sc_id original) (scheduledChecks d) of
        None \<Rightarrow> Inr (duplicate, d)
      | Some scheduled \<Rightarrow>
        if result_of d scheduled \<noteq> None then Inr (duplicate, d)
        else
         (case find_by mo_id (sc_monitorId original) (monitors d) of
            None \<Rightarrow> Inl RecordNotFound
          | Some monitor \<Rightarrow>
            (case create_result
                    (check_result_row config rt originalMonitor monitor scheduled result now) d of
               Inl e \<Rightarrow> Inl e
             | Inr d1 \<Rightarrow>
               (let valid = result_valid scheduled monitor in
                case (if valid
                      then persist_valid config rt guarded outageId monitor scheduled result now d1
                      else Inr d1) of
                  Inl e \<Rightarrow> Inl e
                | Inr d2 \<Rightarrow>
                  Inr (if valid then completed else canceled,
                       if sc_status scheduled \<noteq> ScheduledCheckStatus.CANCELED
                       then complete_check (sc_id scheduled) (rs_finishedAt result) d2 else d2)))))"

fun contains :: "string \<Rightarrow> string \<Rightarrow> bool" where
  "contains needle [] = (needle = [])"
| "contains needle (c # cs) = (take (length needle) (c # cs) = needle \<or> contains needle cs)"

text \<open>The transaction, with its rollback and the catch of a lost race.\<close>

definition persist ::
  "CheckProcessorConfig \<Rightarrow> runtime \<Rightarrow> bool \<Rightarrow> ScheduledCheck \<Rightarrow> Monitor \<Rightarrow> MonitorCheckResult \<Rightarrow>
   id option \<Rightarrow> time \<Rightarrow> db \<Rightarrow> (db_error + ProcessStatus) \<times> db" where
  "persist config rt guarded original originalMonitor result outageId now d =
     (case persist_tx config rt guarded original originalMonitor result outageId now d of
        Inr (status, d') \<Rightarrow> (Inr status, d')
      | Inl (UniqueConstraint index) \<Rightarrow>
          if contains ''scheduled_check'' (rt_target rt index) then (Inr duplicate, d)
          else (Inl (UniqueConstraint index), d)
      | Inl e \<Rightarrow> (Inl e, d))"

section \<open>Processing a job\<close>

record CheckJob =
  cj_scheduledCheckId :: id
  cj_configVersion :: int

definition stale_reason :: jstring where
  "stale_reason = [0xC124, 0xC815, 0x20, 0xBCC0, 0xACBD, 0x20, 0xB610, 0xB294, 0x20, 0xBAA8, 0xB2C8,
      0xD130, 0x20, 0xC911, 0xC9C0, 0xB85C, 0x20, 0xAC80, 0xC0AC, 0xAC00, 0x20, 0xCDE8,
      0xC18C, 0xB418, 0xC5C8, 0xC2B5, 0xB2C8, 0xB2E4, 0x2E]"

definition cancelStale :: "id \<Rightarrow> time \<Rightarrow> db \<Rightarrow> db" where
  "cancelStale i now d =
     d\<lparr>scheduledChecks := update_where (\<lambda>c. sc_id c = i \<and> active_check c)
         (\<lambda>c. c\<lparr>sc_status := ScheduledCheckStatus.CANCELED, sc_canceledAt := Some now,
                sc_leaseOwner := None, sc_leaseUntil := None,
                sc_failureReasonSafe := Some stale_reason\<rparr>) (scheduledChecks d)\<rparr>"

definition claimable_for_run :: "time \<Rightarrow> ScheduledCheck \<Rightarrow> bool" where
  "claimable_for_run now c \<longleftrightarrow>
     sc_completedAt c = None \<and>
     (sc_status c = ScheduledCheckStatus.PENDING \<or> sc_status c = ScheduledCheckStatus.ENQUEUED \<or>
      (sc_status c = RUNNING \<and> lapsed (sc_leaseUntil c) now))"

definition run_grant :: "jstring \<Rightarrow> time \<Rightarrow> time \<Rightarrow> ScheduledCheck \<Rightarrow> ScheduledCheck" where
  "run_grant owner now leaseUntil c =
     c\<lparr>sc_status := RUNNING, sc_leaseOwner := Some owner, sc_leaseUntil := Some leaseUntil,
       sc_startedAt := Some now\<rparr>"

definition claim_run :: "id \<Rightarrow> jstring \<Rightarrow> time \<Rightarrow> time \<Rightarrow> db \<Rightarrow> bool \<times> db" where
  "claim_run i owner now leaseUntil d =
     (case claim_rows sc_id (claimable_for_run now) (run_grant owner now leaseUntil) i
        (scheduledChecks d) of (ok, rows) \<Rightarrow> (ok, d\<lparr>scheduledChecks := rows\<rparr>))"

datatype begin_result =
    Finished ProcessStatus
  | Claimed ScheduledCheck Monitor

definition process_begin ::
  "CheckProcessorConfig \<Rightarrow> CheckJob \<Rightarrow> time \<Rightarrow> db \<Rightarrow> (db_error + begin_result) \<times> db" where
  "process_begin config data now d =
     (case find_by sc_id (cj_scheduledCheckId data) (scheduledChecks d) of
        None \<Rightarrow> (Inr (Finished canceled), d)
      | Some scheduled \<Rightarrow>
        (case find_by mo_id (sc_monitorId scheduled) (monitors d) of
           None \<Rightarrow> (Inl RecordNotFound, d)
         | Some monitor \<Rightarrow>
           if result_of d scheduled \<noteq> None \<or> sc_status scheduled = COMPLETED
           then (Inr (Finished duplicate), d)
           else if sc_configVersion scheduled \<noteq> cj_configVersion data
           then (Inr (Finished duplicate), d)
           else if configVersion (mo_state monitor) \<noteq> cj_configVersion data \<or>
                   lifecycleStatus (mo_state monitor) \<noteq> ACTIVE \<or> mo_deletedAt monitor \<noteq> None
           then (Inr (Finished canceled), cancelStale (sc_id scheduled) now d)
           else
            (case claim_run (sc_id scheduled) (pc_instanceId config) now (now + pc_leaseMs config) d of
               (False, d') \<Rightarrow> (Inr (Finished duplicate), d')
             | (True, d') \<Rightarrow> (Inr (Claimed scheduled monitor), d'))))"

definition scheduled_config :: "jstring \<Rightarrow> Monitor \<Rightarrow> ScheduledCheck \<Rightarrow> MonitorCheckConfig" where
  "scheduled_config url m c =
     \<lparr>cf_url = url, cf_method = Some (mo_method m), cf_timeoutMs = Some (mo_timeoutMs m),
      cf_expectedStatusMin = Some (mo_expectedStatusMin m),
      cf_expectedStatusMax = Some (mo_expectedStatusMax m),
      cf_expectedKeyword = mo_expectedKeyword m, cf_followRedirects = Some (mo_followRedirects m),
      cf_maxRedirects = Some (mo_maxRedirects m), cf_source = Some SCHEDULED,
      cf_configVersion = Some (sc_configVersion c)\<rparr>"

text \<open>The first run; without a readable URL there is no configuration to retry with.\<close>

definition run_first ::
  "CheckProcessorConfig \<Rightarrow> check_runner \<Rightarrow> ScheduledCheck \<Rightarrow> Monitor \<Rightarrow> time \<Rightarrow> time \<Rightarrow>
   MonitorCheckResult \<times> MonitorCheckConfig option" where
  "run_first config runCheck scheduled monitor now failedAt =
     (case decryptString (pc_decipher config) (mo_requestUrlEncrypted monitor) of
        None \<Rightarrow> (platformFailure (sc_configVersion scheduled) now failedAt, None)
      | Some url \<Rightarrow>
        (let checkConfig = scheduled_config url monitor scheduled in
         (case runCheck checkConfig of
            Some r \<Rightarrow> r
          | None \<Rightarrow> platformFailure (sc_configVersion scheduled) now failedAt, Some checkConfig)))"

definition retry_check ::
  "check_runner \<Rightarrow> MonitorCheckConfig \<Rightarrow> MonitorCheckResult \<Rightarrow> time \<Rightarrow> time \<Rightarrow> 's \<Rightarrow>
   (db_error + MonitorCheckResult) \<times> 's" where
  "retry_check runCheck checkConfig firstResult leaseUntil retryNow s =
     (if (case cf_timeoutMs checkConfig of None \<Rightarrow> 10000 | Some t \<Rightarrow> t) + 10000 < leaseUntil - retryNow
      then (case runCheck checkConfig of
              None \<Rightarrow> (Inl (Thrown (PlainError ''check failed'')), s) | Some r \<Rightarrow> (Inr r, s))
      else (Inr firstResult, s))"

text \<open>
  The clock readings of one job, and what other processes do to the database while the
  network request runs.
\<close>

record job_times =
  jt_now :: time
  jt_failedAt :: time
  jt_inspectAt :: time
  jt_retryAt :: time
  jt_persistAt :: time

definition process ::
  "CheckProcessorConfig \<Rightarrow> runtime \<Rightarrow> check_runner \<Rightarrow> check_runner \<Rightarrow>
   (db \<Rightarrow> db_error + Snapshot \<times> db) option \<Rightarrow> (db \<Rightarrow> db) \<Rightarrow> job_times \<Rightarrow> CheckJob \<Rightarrow>
   NetworkGuard \<times> db \<Rightarrow> (db_error + ProcessStatus) \<times> NetworkGuard \<times> db" where
  "process config rt firstRun secondRun guardFresh others clock data gd =
     (case gd of (g, d) \<Rightarrow>
       (case process_begin config data (jt_now clock) d of
          (Inl e, d1) \<Rightarrow> (Inl e, g, d1)
        | (Inr (Finished status), d1) \<Rightarrow> (Inr status, g, d1)
        | (Inr (Claimed scheduled monitor), d1) \<Rightarrow>
          (case run_first config firstRun scheduled monitor (jt_now clock) (jt_failedAt clock) of
             (result, checkConfig) \<Rightarrow>
            (case (case (guardFresh, checkConfig) of
                     (Some fresh, Some retryConfig) \<Rightarrow>
                       assess (inspect fresh (jt_inspectAt clock))
                         (retry_check secondRun retryConfig result
                            (jt_now clock + pc_leaseMs config) (jt_retryAt clock))
                         result (g, others d1)
                   | _ \<Rightarrow> (Inr \<lparr>na_result = result, na_outageId = None\<rparr>, g, others d1)) of
               (Inl e, g', d2) \<Rightarrow> (Inl e, g', d2)
             | (Inr a, g', d2) \<Rightarrow>
               (case persist config rt (guardFresh \<noteq> None) scheduled monitor (na_result a)
                       (na_outageId a) (jt_persistAt clock) d2 of
                  (r, d3) \<Rightarrow> (r, g', d3))))))"

section \<open>What each statement leaves alone\<close>

definition only_outbox :: "db \<Rightarrow> db \<Rightarrow> bool" where
  "only_outbox d d' \<longleftrightarrow> d' = d\<lparr>outbox := outbox d'\<rparr>"

lemma only_outbox_refl [simp]: "only_outbox d d"
  by (simp add: only_outbox_def)

lemma only_outbox_trans: "only_outbox d d1 \<Longrightarrow> only_outbox d1 d2 \<Longrightarrow> only_outbox d d2"
proof -
  assume "only_outbox d d1" "only_outbox d1 d2"
  then obtain o1 o2 where "d1 = d\<lparr>outbox := o1\<rparr>" "d2 = d1\<lparr>outbox := o2\<rparr>"
    unfolding only_outbox_def by blast
  then show "only_outbox d d2" by (simp add: only_outbox_def)
qed

lemma only_outboxD:
  assumes "only_outbox d d'"
  shows "monitors d' = monitors d" "incidents d' = incidents d"
    "scheduledChecks d' = scheduledChecks d" "checkResults d' = checkResults d"
    "channels d' = channels d" "monitorChannels d' = monitorChannels d"
    "networkObservations d' = networkObservations d" "deliveries d' = deliveries d"
proof -
  from assms obtain o' where "d' = d\<lparr>outbox := o'\<rparr>" unfolding only_outbox_def by blast
  then show "monitors d' = monitors d" "incidents d' = incidents d"
    "scheduledChecks d' = scheduledChecks d" "checkResults d' = checkResults d"
    "channels d' = channels d" "monitorChannels d' = monitorChannels d"
    "networkObservations d' = networkObservations d" "deliveries d' = deliveries d"
    by simp_all
qed

lemma create_outbox_only: "create_outbox x d = Inr d' \<Longrightarrow> only_outbox d d'"
  by (drule create_outbox_Inr) (simp add: only_outbox_def)

lemma update_outbox_only: "update_outbox i f d = Inr d' \<Longrightarrow> only_outbox d d'"
  by (auto simp: update_outbox_def only_outbox_def split: if_splits)

lemma retire_only: "retire_unless_retained down st e a i d = Inr d' \<Longrightarrow> only_outbox d d'"
  by (auto simp: retire_unless_retained_def split: if_splits intro: update_outbox_only)

lemma replace_down_only: "replace_down inc down plan d = Inr (p, st, e, d') \<Longrightarrow> only_outbox d d'"
  by (auto simp: replace_down_def Let_def only_outbox_def split: if_splits option.splits sum.splits)

lemma recover_down_only:
  "recover_down config rt m inc r now down d = Inr d' \<Longrightarrow> only_outbox d d'"
  unfolding recover_down_def Let_def
  by (auto split: if_splits sum.splits dest!: replace_down_only create_outbox_only retire_only)
    (blast intro: only_outbox_trans)+

lemma fold_tx_only:
  assumes "\<And>x d d'. x \<in> set xs \<Longrightarrow> f x d = Inr d' \<Longrightarrow> only_outbox d d'" "fold_tx f xs d = Inr d'"
  shows "only_outbox d d'"
  using assms(2) by (rule fold_tx_inv) (auto intro: only_outbox_trans assms(1))

lemma createOutbox_only: "createOutbox config rt m inc r now d = Inr d' \<Longrightarrow> only_outbox d d'"
  unfolding createOutbox_def
  by (rule fold_tx_only) (auto split: prod.splits sum.splits intro: create_outbox_only)

lemma createRecoveryOutbox_only:
  "createRecoveryOutbox config rt m inc r now d = Inr d' \<Longrightarrow> only_outbox d d'"
  unfolding createRecoveryOutbox_def by (rule fold_tx_only) (rule recover_down_only)

section \<open>The incident of a monitor\<close>

lemma current_incident_Some:
  "current_incident m d = Some i \<Longrightarrow> i \<in> set (incidents d) \<and> ic_monitorId i = m \<and> open_incident i"
  unfolding current_incident_def by (drule find_latest_Some) simp

lemma current_incident_None: "current_incident m d = None \<longleftrightarrow> open_incidents m d = 0"
  unfolding current_incident_def open_incidents_def
  by (auto simp: find_latest_None count_where_zero_iff)

lemma open_incidents_cong: "incidents d = incidents d' \<Longrightarrow> open_incidents m d = open_incidents m d'"
  by (simp add: open_incidents_def)

lemma resolved_incident_fields [simp]:
  "\<not> open_incident (resolved_incident t i)" "ic_monitorId (resolved_incident t i) = ic_monitorId i"
  "ic_id (resolved_incident t i) = ic_id i" "ic_status (resolved_incident t i) = RESOLVED"
  by (simp_all add: resolved_incident_def open_incident_def)

lemma new_incident_fields [simp]:
  "open_incident (new_incident i m a b c e t)" "ic_monitorId (new_incident i m a b c e t) = mo_id m"
  "ic_id (new_incident i m a b c e t) = i"
  by (simp_all add: new_incident_def open_incident_def)

lemma open_incidents_update_frame:
  "(\<And>i. open_incident (f i) = open_incident i \<and> ic_monitorId (f i) = ic_monitorId i) \<Longrightarrow>
   open_incidents m (update_incident k f d) = open_incidents m d"
  unfolding open_incidents_def update_incident_def by (simp add: count_where_update_frame)

lemma open_incidents_close:
  assumes "distinct (map ic_id (incidents d))" "i \<in> set (incidents d)" "open_incident i"
    and "\<And>x. \<not> open_incident (f x)"
  shows "open_incidents m (update_incident (ic_id i) f d)
       = open_incidents m d - (if ic_monitorId i = m then 1 else 0)"
  using count_where_update_key[OF assms(1,2) refl, of "\<lambda>i. open_incident i \<and> ic_monitorId i = m" f]
    assms(3,4)
  by (simp add: open_incidents_def update_incident_def)

lemma applyIncidentEffect_frame:
  assumes "applyIncidentEffect config rt k m r e now d = Inr d'"
  shows "d' = d\<lparr>incidents := incidents d', outbox := outbox d'\<rparr>"
proof -
  have upd: "update_incident i f d = d\<lparr>incidents := incidents (update_incident i f d),
      outbox := outbox (update_incident i f d)\<rparr>" for i f
    by (simp add: update_incident_def)
  have step: "d' = d\<lparr>incidents := incidents d', outbox := outbox d'\<rparr>"
    if "only_outbox x d'" "x = d\<lparr>incidents := i\<rparr>" for x i
  proof -
    from that(1) obtain o' where "d' = x\<lparr>outbox := o'\<rparr>" unfolding only_outbox_def by blast
    with that(2) show ?thesis by simp
  qed
  show ?thesis
  proof (cases e)
    case (OPEN a b c e')
    then show ?thesis
      using assms upd
      by (auto simp: applyIncidentEffect_def Let_def split: option.splits sum.splits
          dest!: create_incident_Inr createOutbox_only intro: step)
  next
    case (RESOLVE t)
    then show ?thesis
      using assms
      by (auto simp: applyIncidentEffect_def update_incident_def split: option.splits
          dest!: createRecoveryOutbox_only intro: step)
  qed (use assms upd in \<open>auto simp: applyIncidentEffect_def split: option.splits\<close>)
qed

text \<open>The effect changes the number of open incidents of its monitor as it says.\<close>

lemma applyIncidentEffect_open:
  assumes "applyIncidentEffect config rt k m r e now d = Inr d'"
    and "distinct (map ic_id (incidents d))"
    and "effect_matches e before after" "open_incidents (mo_id m) d = of_bool before"
    and "\<forall>t reason. e \<noteq> IncidentEffect.CANCEL t reason"
  shows "open_incidents (mo_id m) d' = of_bool after \<and>
    (\<forall>x. x \<noteq> mo_id m \<longrightarrow> open_incidents x d' = open_incidents x d) \<and>
    (k \<notin> ic_id ` set (incidents d) \<longrightarrow> distinct (map ic_id (incidents d')))"
proof (cases e)
  case NONE
  with assms show ?thesis by (simp add: applyIncidentEffect_def)
next
  case (OPEN a b c f)
  with assms(3,4) have none: "current_incident (mo_id m) d = None" "after"
    by (simp_all add: current_incident_None)
  with OPEN assms(1) obtain d1 where d1: "create_incident (new_incident k m a b c f now) d = Inr d1"
    and d': "createOutbox config rt m (new_incident k m a b c f now) r now d1 = Inr d'"
    by (auto simp: applyIncidentEffect_def Let_def split: sum.splits)
  have "incidents d' = incidents d @ [new_incident k m a b c f now]"
    using only_outboxD(2)[OF createOutbox_only[OF d']] create_incident_Inr[OF d1] by simp
  with assms(2,3,4) OPEN \<open>after\<close> show ?thesis by (auto simp: open_incidents_def)
next
  case (UPDATE f)
  then show ?thesis
    using assms(1-4)
    by (auto simp: applyIncidentEffect_def open_incidents_update_frame open_incident_def
        update_incident_def map_update_where_frame split: option.splits)
      (auto simp: open_incidents_def count_where_update_frame open_incident_def)
next
  case (RESOLVE t)
  with assms(3) have ba: "before" "\<not> after" by simp_all
  with assms(4) obtain i where i: "current_incident (mo_id m) d = Some i"
    using current_incident_None[of "mo_id m" d] by (cases "current_incident (mo_id m) d") auto
  note cur = current_incident_Some[OF i]
  let ?d = "update_incident (ic_id i) (resolved_incident t) d"
  from RESOLVE i assms(1)
  have "createRecoveryOutbox config rt m (resolved_incident t i) r now ?d = Inr d'"
    by (simp add: applyIncidentEffect_def)
  then have inc: "incidents d' = incidents ?d"
    using only_outboxD(2)[OF createRecoveryOutbox_only] by blast
  have cnt: "open_incidents x d' = open_incidents x d - (if ic_monitorId i = x then 1 else 0)" for x
    using open_incidents_close[OF assms(2), of i "resolved_incident t" x] cur open_incidents_cong[OF inc]
    by simp
  have "map ic_id (incidents d') = map ic_id (incidents d)"
    by (simp add: inc update_incident_def map_update_where_frame)
  with cnt cur ba assms(2,4) show ?thesis by auto
next
  case (CANCEL t reason)
  with assms(5) show ?thesis by blast
qed

section \<open>Persisting keeps incidents and health in step\<close>

definition health_view :: "db \<Rightarrow> (id \<times> MonitorState) list" where
  "health_view d = map (\<lambda>m. (mo_id m, mo_state m)) (monitors d)"

text \<open>
  A monitor has an open incident exactly while its health state says so, and its state is
  well formed.
\<close>

definition incident_inv :: "db \<Rightarrow> bool" where
  "incident_inv d \<longleftrightarrow>
     distinct (map fst (health_view d)) \<and> distinct (map ic_id (incidents d)) \<and>
     (\<forall>(i, s) \<in> set (health_view d). wf_state s \<and>
        open_incidents i d = of_bool (has_incident (healthState s)))"

lemma incident_inv_cong:
  assumes "health_view d' = health_view d" "incidents d' = incidents d"
  shows "incident_inv d' = incident_inv d"
  using assms open_incidents_cong[OF assms(2)] by (simp add: incident_inv_def)

lemma health_view_update_monitor:
  "health_view (update_monitor i f d) =
     map (\<lambda>m. (mo_id (if mo_id m = i then f m else m), mo_state (if mo_id m = i then f m else m)))
       (monitors d)"
  by (simp add: health_view_def update_monitor_def update_where_def comp_def)

lemma update_monitor_frame [simp]:
  "incidents (update_monitor i f d) = incidents d" "scheduledChecks (update_monitor i f d) = scheduledChecks d"
  "checkResults (update_monitor i f d) = checkResults d" "outbox (update_monitor i f d) = outbox d"
  "channels (update_monitor i f d) = channels d"
  "monitorChannels (update_monitor i f d) = monitorChannels d"
  "networkObservations (update_monitor i f d) = networkObservations d"
  by (simp_all add: update_monitor_def)

lemma observe_frame [simp]:
  "health_view (observe_inconclusive g u m c r d) = health_view d"
  "incidents (observe_inconclusive g u m c r d) = incidents d"
  "scheduledChecks (observe_inconclusive g u m c r d) = scheduledChecks d"
  "checkResults (observe_inconclusive g u m c r d) = checkResults d"
  "outbox (observe_inconclusive g u m c r d) = outbox d"
  "health_view (observe_recheck g m c r d) = health_view d"
  "incidents (observe_recheck g m c r d) = incidents d"
  "scheduledChecks (observe_recheck g m c r d) = scheduledChecks d"
  "checkResults (observe_recheck g m c r d) = checkResults d"
  "outbox (observe_recheck g m c r d) = outbox d"
  by (simp_all add: observe_inconclusive_def observe_recheck_def health_view_def update_monitor_def
      update_where_def comp_def Let_def split: option.splits)

lemma applied_state_eq:
  assumes "applyCheckResult s i = Inr r" "applied r"
  shows "s\<lparr>healthState := healthState (state r), consecutiveFailures := consecutiveFailures (state r),
            consecutiveSuccesses := consecutiveSuccesses (state r),
            failureStreakStartedAt := failureStreakStartedAt (state r),
            failureStreakFirstErrorType := failureStreakFirstErrorType (state r)\<rparr> = state r"
proof -
  have "state_bearing s i" using assms applyCheckResult_applied_iff by blast
  from applyCheckResult_applied(5)[OF assms(1) this]
  have "state r = fst (apply_success s (the (in_checkedAt i)) (in_recoveryThreshold i)) \<or>
        state r = fst (apply_failure s (the (in_checkedAt i)) (in_errorType i) (in_failureThreshold i))"
    by (metis fst_conv)
  then show ?thesis by (auto simp: apply_success_def apply_failure_def Let_def)
qed

lemma applyCheckResult_no_cancel:
  assumes "applyCheckResult s i = Inr r"
  shows "incidentEffect r \<noteq> IncidentEffect.CANCEL t reason"
proof (cases "state_bearing s i")
  case True
  from applyCheckResult_applied(5)[OF assms True] show ?thesis
    by (auto simp: apply_success_def apply_failure_def Let_def split: if_splits)
next
  case False
  with assms show ?thesis by (simp add: applyCheckResult_ignored)
qed

lemma monitorUpdate_state:
  assumes "applyCheckResult (mo_state m) i = Inr t" "applied t"
  shows "mo_state (monitorUpdate r t m) = state t" "mo_id (monitorUpdate r t m) = mo_id m"
  using applied_state_eq[OF assms] by (simp_all add: monitorUpdate_def Let_def)

lemma persist_valid_Inr:
  assumes "persist_valid config rt g u m c r now d = Inr d'"
  obtains t where "applyCheckResult (mo_state m) (transition_input m c r) = Inr t"
    "(if applied t then applyIncidentEffect config rt (rt_incidentId rt (sc_id c)) m r
        (incidentEffect t) now (update_monitor (mo_id m) (monitorUpdate r t)
          (observe_recheck g m c r (observe_inconclusive g u m c r d)))
      else Inr (observe_recheck g m c r (observe_inconclusive g u m c r d))) = Inr d'"
  using assms by (auto simp: persist_valid_def Let_def split: sum.splits)

lemma persist_valid_inv:
  assumes inv: "incident_inv d" and m: "find_by mo_id k (monitors d) = Some m"
    and fresh: "rt_incidentId rt (sc_id c) \<notin> ic_id ` set (incidents d)"
    and res: "persist_valid config rt g u m c r now d = Inr d'"
  shows "incident_inv d'"
proof -
  define d1 where "d1 = observe_recheck g m c r (observe_inconclusive g u m c r d)"
  have hv: "health_view d1 = health_view d" "incidents d1 = incidents d"
    by (simp_all add: d1_def)
  have inv1: "incident_inv d1" using inv incident_inv_cong[OF hv] by simp
  from res obtain t where t: "applyCheckResult (mo_state m) (transition_input m c r) = Inr t"
    and step: "(if applied t then applyIncidentEffect config rt (rt_incidentId rt (sc_id c)) m r
        (incidentEffect t) now (update_monitor (mo_id m) (monitorUpdate r t) d1) else Inr d1) = Inr d'"
    unfolding d1_def by (rule persist_valid_Inr)
  show ?thesis
  proof (cases "applied t")
    case False
    with step inv1 show ?thesis by simp
  next
    case True
    let ?d2 = "update_monitor (mo_id m) (monitorUpdate r t) d1"
    from True step have eff: "applyIncidentEffect config rt (rt_incidentId rt (sc_id c)) m r
        (incidentEffect t) now ?d2 = Inr d'" by simp
    have min: "m \<in> set (monitors d)" "mo_id m = k" using find_by_Some[OF m] by simp_all
    then have mv: "(mo_id m, mo_state m) \<in> set (health_view d1)"
      unfolding hv by (auto simp: health_view_def)
    with inv1 have wf: "wf_state (mo_state m)"
      and cnt: "open_incidents (mo_id m) d1 = of_bool (has_incident (healthState (mo_state m)))"
      by (auto simp: incident_inv_def)
    have d2i: "incidents ?d2 = incidents d" using hv by simp
    have ids2: "distinct (map ic_id (incidents ?d2))" using inv d2i by (simp add: incident_inv_def)
    have cnt2: "open_incidents (mo_id m) ?d2 = of_bool (has_incident (healthState (mo_state m)))"
      using cnt open_incidents_cong[of ?d2 d1] hv d2i by simp
    from applyIncidentEffect_open[OF eff ids2 applyCheckResult_effect[OF t] cnt2]
      applyCheckResult_no_cancel[OF t] fresh d2i
    have after: "open_incidents (mo_id m) d' = of_bool (has_incident (healthState (state t)))"
      and others: "\<forall>x. x \<noteq> mo_id m \<longrightarrow> open_incidents x d' = open_incidents x ?d2"
      and ids': "distinct (map ic_id (incidents d'))" by auto
    have view: "health_view d' = map (\<lambda>(i, s). (i, if i = mo_id m then state t else s)) (health_view d1)"
    proof -
      obtain i' o' where "d' = ?d2\<lparr>incidents := i', outbox := o'\<rparr>"
        using applyIncidentEffect_frame[OF eff] by blast
      then have "health_view d' = health_view ?d2" by (simp add: health_view_def)
      also have "\<dots> = map (\<lambda>(i, s). (i, if i = mo_id m then state t else s)) (health_view d1)"
        unfolding health_view_update_monitor
      proof -
        have "x \<in> set (monitors d1) \<Longrightarrow> mo_id x = mo_id m \<Longrightarrow> mo_state x = mo_state m" for x
        proof -
          assume x: "x \<in> set (monitors d1)" "mo_id x = mo_id m"
          then have "(mo_id m, mo_state x) \<in> set (health_view d1)"
            unfolding health_view_def set_map
            using imageI[OF x(1), of "\<lambda>m. (mo_id m, mo_state m)"] by simp
          moreover have "distinct (map fst (health_view d1))" using inv1 by (simp add: incident_inv_def)
          ultimately show "mo_state x = mo_state m" using mv by (metis eq_key_imp_eq_value)
        qed
        then show "map (\<lambda>x. (mo_id (if mo_id x = mo_id m then monitorUpdate r t x else x),
            mo_state (if mo_id x = mo_id m then monitorUpdate r t x else x))) (monitors d1)
          = map (\<lambda>(i, s). (i, if i = mo_id m then state t else s)) (health_view d1)"
          using True t by (auto simp: health_view_def monitorUpdate_state)
      qed
      finally show ?thesis .
    qed
    have wf': "wf_state (state t)"
      using applyCheckResult_wf wf t by blast
    have fsts: "map fst (health_view d') = map fst (health_view d1)"
      by (simp add: view comp_def case_prod_beta)
    have "wf_state s \<and> open_incidents i d' = of_bool (has_incident (healthState s))"
      if "(i, s) \<in> set (health_view d')" for i s
    proof (cases "i = mo_id m")
      case True
      with that view have "s = state t" by auto
      with wf' after True show ?thesis by simp
    next
      case False
      with that view have "(i, s) \<in> set (health_view d1)" by auto
      with inv1 have "wf_state s" "open_incidents i d1 = of_bool (has_incident (healthState s))"
        by (auto simp: incident_inv_def)
      moreover have "open_incidents i ?d2 = open_incidents i d1"
        by (rule open_incidents_cong) (simp add: hv)
      ultimately show ?thesis using others False by simp
    qed
    with fsts ids' inv1 show ?thesis by (auto simp: incident_inv_def)
  qed
qed

lemma persist_valid_frame:
  assumes "persist_valid config rt g u m c r now d = Inr d'"
  shows "scheduledChecks d' = scheduledChecks d" "checkResults d' = checkResults d"
proof -
  define d1 where "d1 = observe_recheck g m c r (observe_inconclusive g u m c r d)"
  have f: "scheduledChecks d1 = scheduledChecks d" "checkResults d1 = checkResults d"
    by (simp_all add: d1_def)
  from assms obtain t where step: "(if applied t then applyIncidentEffect config rt (rt_incidentId rt (sc_id c)) m r
        (incidentEffect t) now (update_monitor (mo_id m) (monitorUpdate r t) d1) else Inr d1) = Inr d'"
    unfolding d1_def by (rule persist_valid_Inr)
  have "scheduledChecks d' = scheduledChecks d \<and> checkResults d' = checkResults d"
  proof (cases "applied t")
    case True
    with step have eff: "applyIncidentEffect config rt (rt_incidentId rt (sc_id c)) m r
        (incidentEffect t) now (update_monitor (mo_id m) (monitorUpdate r t) d1) = Inr d'" by simp
    obtain i' o' where "d' = (update_monitor (mo_id m) (monitorUpdate r t) d1)\<lparr>incidents := i', outbox := o'\<rparr>"
      using applyIncidentEffect_frame[OF eff] by blast
    then show ?thesis by (simp add: f)
  next
    case False
    with step f show ?thesis by simp
  qed
  then show "scheduledChecks d' = scheduledChecks d" "checkResults d' = checkResults d" by blast+
qed

lemma result_of_append:
  "result_of (d\<lparr>checkResults := checkResults d @ [r]\<rparr>) c \<noteq> None \<longleftrightarrow>
     result_of d c \<noteq> None \<or> (cr_scheduledCheckId r = Some (sc_id c) \<and>
       cr_monitorId r = Some (sc_monitorId c) \<and> cr_configVersion r = Some (sc_configVersion c))"
  by (auto simp: result_of_def find_None_iff)

lemma check_result_row_fields [simp]:
  "cr_scheduledCheckId (check_result_row config rt om m c r now) = Some (sc_id c)"
  "cr_monitorId (check_result_row config rt om m c r now) = Some (mo_id m)"
  "cr_configVersion (check_result_row config rt om m c r now) = Some (sc_configVersion c)"
  "cr_outcome (check_result_row config rt om m c r now) = rs_outcome r"
  by (simp_all add: check_result_row_def)

lemma complete_check_frame [simp]:
  "health_view (complete_check i t d) = health_view d" "incidents (complete_check i t d) = incidents d"
  "checkResults (complete_check i t d) = checkResults d" "monitors (complete_check i t d) = monitors d"
  "outbox (complete_check i t d) = outbox d"
  by (simp_all add: complete_check_def health_view_def)

text \<open>The cases of the transaction: nothing to do, or one result and the row's completion.\<close>

lemma persist_tx_Inr:
  assumes "persist_tx config rt g oc om r u now d = Inr (st, d')"
  obtains (skipped) "st = duplicate" "d' = d"
      "\<And>c. find_by sc_id (sc_id oc) (scheduledChecks d) = Some c \<Longrightarrow> result_of d c \<noteq> None"
  | (written) c m d1 d2 where "find_by sc_id (sc_id oc) (scheduledChecks d) = Some c"
      "result_of d c = None" "find_by mo_id (sc_monitorId oc) (monitors d) = Some m"
      "d1 = d\<lparr>checkResults := checkResults d @ [check_result_row config rt om m c r now]\<rparr>"
      "st = (if result_valid c m then completed else canceled)"
      "(if result_valid c m then persist_valid config rt g u m c r now d1 else Inr d1) = Inr d2"
      "d' = (if sc_status c \<noteq> ScheduledCheckStatus.CANCELED
             then complete_check (sc_id c) (rs_finishedAt r) d2 else d2)"
proof (cases "find_by sc_id (sc_id oc) (scheduledChecks d)")
  case None
  with assms skipped show thesis by (simp add: persist_tx_def)
next
  case (Some c)
  show thesis
  proof (cases "result_of d c = None")
    case False
    with Some assms have "st = duplicate" "d' = d" by (auto simp: persist_tx_def)
    with skipped Some False show thesis by simp
  next
    case True
    with Some assms obtain m d1 d2 where m: "find_by mo_id (sc_monitorId oc) (monitors d) = Some m"
      and d1: "create_result (check_result_row config rt om m c r now) d = Inr d1"
      and d2: "(if result_valid c m then persist_valid config rt g u m c r now d1 else Inr d1) = Inr d2"
      and fin: "st = (if result_valid c m then completed else canceled)"
        "d' = (if sc_status c \<noteq> ScheduledCheckStatus.CANCELED
             then complete_check (sc_id c) (rs_finishedAt r) d2 else d2)"
      by (auto simp: persist_tx_def Let_def split: option.splits sum.splits)
    show thesis by (rule written[OF Some True m create_result_Inr[OF d1] fin(1) d2 fin(2)])
  qed
qed

lemma persist_Inr:
  "persist config rt g oc om r u now d = (Inr st, d') \<Longrightarrow>
   persist_tx config rt g oc om r u now d = Inr (st, d') \<or> (st = duplicate \<and> d' = d)"
  by (auto simp: persist_def split: sum.splits db_error.splits if_splits)

lemma persist_Inl:
  "persist config rt g oc om r u now d = (Inl e, d') \<Longrightarrow> d' = d"
  by (auto simp: persist_def split: sum.splits db_error.splits if_splits)

lemma persist_tx_inv:
  assumes "incident_inv d" "rt_incidentId rt (sc_id oc) \<notin> ic_id ` set (incidents d)"
    "persist_tx config rt g oc om r u now d = Inr (st, d')"
  shows "incident_inv d'"
  using assms(3)
proof (cases rule: persist_tx_Inr)
  case skipped
  with assms(1) show ?thesis by simp
next
  case (written c m d1 d2)
  have f: "health_view d1 = health_view d" "incidents d1 = incidents d" "monitors d1 = monitors d"
    by (simp_all add: written(4) health_view_def)
  have inv1: "incident_inv d1" using assms(1) incident_inv_cong[OF f(1,2)] by simp
  have id: "sc_id c = sc_id oc" using find_by_Some[OF written(1)] by simp
  have "incident_inv d2"
  proof (cases "result_valid c m")
    case True
    with written(6) have "persist_valid config rt g u m c r now d1 = Inr d2" by simp
    moreover have "find_by mo_id (sc_monitorId oc) (monitors d1) = Some m" using written(3) f by simp
    ultimately show ?thesis using persist_valid_inv[OF inv1] assms(2) f(2) id by metis
  next
    case False
    with written(6) inv1 show ?thesis by simp
  qed
  then show ?thesis
    unfolding written(7)
    using incident_inv_cong[of "complete_check (sc_id c) (rs_finishedAt r) d2" d2] by simp
qed

lemma persist_inv:
  assumes "incident_inv d" "rt_incidentId rt (sc_id oc) \<notin> ic_id ` set (incidents d)"
    "persist config rt g oc om r u now d = (out, d')"
  shows "incident_inv d'"
proof (cases out)
  case (Inl e)
  with assms(3) have "persist config rt g oc om r u now d = (Inl e, d')" by simp
  then have "d' = d" by (rule persist_Inl)
  with assms(1) show ?thesis by simp
next
  case (Inr st)
  with assms(3) have "persist config rt g oc om r u now d = (Inr st, d')" by simp
  from persist_Inr[OF this] show ?thesis
  proof
    assume "persist_tx config rt g oc om r u now d = Inr (st, d')"
    then show ?thesis by (rule persist_tx_inv[OF assms(1,2)])
  next
    assume "st = duplicate \<and> d' = d"
    with assms(1) show ?thesis by simp
  qed
qed

text \<open>After a written result every later attempt for the check finds it.\<close>

lemma find_sc_complete:
  "find_by sc_id k (scheduledChecks (complete_check i t d)) =
     map_option (\<lambda>c. if k = i then c\<lparr>sc_status := COMPLETED, sc_completedAt := Some t,
         sc_leaseOwner := None, sc_leaseUntil := None, sc_failureReasonSafe := None\<rparr> else c)
       (find_by sc_id k (scheduledChecks d))"
  by (cases "find_by sc_id k (scheduledChecks d)")
    (auto simp: find_by_def complete_check_def find_key_update)

lemma persist_tx_written:
  assumes "persist_tx config rt g oc om r u now d = Inr (st, d')" "st \<noteq> duplicate"
    and "\<And>c. find_by sc_id (sc_id oc) (scheduledChecks d) = Some c \<Longrightarrow> sc_monitorId c = sc_monitorId oc"
  obtains c c' where "find_by sc_id (sc_id oc) (scheduledChecks d) = Some c" "result_of d c = None"
    "find_by sc_id (sc_id oc) (scheduledChecks d') = Some c'" "result_of d' c' \<noteq> None"
    "checkResults d' = checkResults d @ [last (checkResults d')]"
    "cr_scheduledCheckId (last (checkResults d')) = Some (sc_id oc)"
    "cr_outcome (last (checkResults d')) = rs_outcome r"
    "c' = (if sc_status c \<noteq> ScheduledCheckStatus.CANCELED then
       c\<lparr>sc_status := COMPLETED, sc_completedAt := Some (rs_finishedAt r), sc_leaseOwner := None,
         sc_leaseUntil := None, sc_failureReasonSafe := None\<rparr> else c)"
  using assms(1)
proof (cases rule: persist_tx_Inr)
  case skipped
  with assms(2) show thesis by simp
next
  case (written c m d1 d2)
  have frame: "scheduledChecks d2 = scheduledChecks d" "checkResults d2 = checkResults d1"
  proof -
    have "scheduledChecks d2 = scheduledChecks d1 \<and> checkResults d2 = checkResults d1"
    proof (cases "result_valid c m")
      case True
      with written(6) have "persist_valid config rt g u m c r now d1 = Inr d2" by simp
      from persist_valid_frame[OF this] show ?thesis by simp
    next
      case False
      with written(6) show ?thesis by simp
    qed
    then show "scheduledChecks d2 = scheduledChecks d" "checkResults d2 = checkResults d1"
      by (simp_all add: written(4))
  qed
  let ?row = "check_result_row config rt om m c r now"
  let ?c' = "if sc_status c \<noteq> ScheduledCheckStatus.CANCELED then
       c\<lparr>sc_status := COMPLETED, sc_completedAt := Some (rs_finishedAt r), sc_leaseOwner := None,
         sc_leaseUntil := None, sc_failureReasonSafe := None\<rparr> else c"
  have results: "checkResults d' = checkResults d @ [?row]"
    unfolding written(7) by (simp add: frame written(4))
  have ids: "sc_id c = sc_id oc" "mo_id m = sc_monitorId c"
    using find_by_Some[OF written(1)] find_by_Some[OF written(3)] assms(3)[OF written(1)] by simp_all
  have fc: "find_by sc_id (sc_id oc) (scheduledChecks d') = Some ?c'"
    unfolding written(7) using written(1) ids by (simp add: find_sc_complete frame)
  have "result_of d' ?c' \<noteq> None"
  proof -
    have "result_of d' ?c' = result_of (d\<lparr>checkResults := checkResults d @ [?row]\<rparr>) ?c'"
      by (simp add: result_of_def results)
    moreover have "result_of (d\<lparr>checkResults := checkResults d @ [?row]\<rparr>) ?c' \<noteq> None"
      unfolding result_of_append using ids by simp
    ultimately show ?thesis by simp
  qed
  with written(1,2) fc results ids that show thesis by simp
qed

lemma persist_tx_again:
  assumes "find_by sc_id (sc_id oc') (scheduledChecks d) = Some c" "result_of d c \<noteq> None"
  shows "persist config' rt' g' oc' om' r' u' now' d = (Inr duplicate, d)"
  using assms by (simp add: persist_def persist_tx_def)

lemma persist_ignored:
  assumes "persist_tx config rt g oc om r u now d = Inr (st, d')"
    "rs_outcome r \<noteq> SUCCESS" "rs_outcome r \<noteq> TARGET_FAILURE"
  shows "health_view d' = health_view d \<and> incidents d' = incidents d \<and> outbox d' = outbox d"
  using assms(1)
proof (cases rule: persist_tx_Inr)
  case skipped
  then show ?thesis by simp
next
  case (written c m d1 d2)
  have f: "health_view d1 = health_view d" "incidents d1 = incidents d" "outbox d1 = outbox d"
    by (simp_all add: written(4) health_view_def)
  have "health_view d2 = health_view d \<and> incidents d2 = incidents d \<and> outbox d2 = outbox d"
  proof (cases "result_valid c m")
    case True
    with written(6) have "persist_valid config rt g u m c r now d1 = Inr d2" by simp
    then obtain t where t: "applyCheckResult (mo_state m) (transition_input m c r) = Inr t"
      "(if applied t then applyIncidentEffect config rt (rt_incidentId rt (sc_id c)) m r
        (incidentEffect t) now (update_monitor (mo_id m) (monitorUpdate r t)
          (observe_recheck g m c r (observe_inconclusive g u m c r d1)))
      else Inr (observe_recheck g m c r (observe_inconclusive g u m c r d1))) = Inr d2"
      by (rule persist_valid_Inr)
    have "\<not> applied t"
      using applyCheckResult_applied_iff[OF t(1)] assms(2,3)
      by (simp add: state_bearing_def transition_input_def)
    with t(2) f show ?thesis by auto
  next
    case False
    with written(6) f show ?thesis by simp
  qed
  then show ?thesis unfolding written(7) by simp
qed

section \<open>The run lease\<close>

definition run_lease :: "ScheduledCheck \<Rightarrow> time option" where
  "run_lease c = (if sc_status c = RUNNING then sc_leaseUntil c else None)"

interpretation run_rows: row_lease sc_id claimable_for_run run_grant run_lease
  scheduledChecks "\<lambda>rows d. d\<lparr>scheduledChecks := rows\<rparr>"
  by unfold_locales (auto simp: run_grant_def claimable_for_run_def run_lease_def)

lemma claim_run_rows:
  "claim_run = (\<lambda>i owner now leaseUntil d.
     case claim_rows sc_id (claimable_for_run now) (run_grant owner now leaseUntil) i
       (scheduledChecks d) of (ok, rows) \<Rightarrow> (ok, d\<lparr>scheduledChecks := rows\<rparr>))"
  by (intro ext) (simp add: claim_run_def)

interpretation run_claim: lease_store claim_run
  "\<lambda>d i. Option.bind (check_of i d) run_lease" "\<lambda>d. distinct (map sc_id (scheduledChecks d))"
  unfolding claim_run_rows by (rule run_rows.rows.lease_store_axioms)

section \<open>DOWN notifications of a new incident\<close>

lemma event_outbox_Inr:
  assumes "event_outbox config rt m i r now ev ch flag ctype cname snap = Inr row"
  shows "ob_incidentId row = Some (ic_id i)" "ob_channelId row = ch" "ob_eventType row = ev"
    "ob_status row = NotificationOutboxStatus.PENDING" "ob_attemptCount row = 0"
    "ob_encryptedConfigSnapshot row = snap" "ob_monitorId row = Some (mo_id m)"
    "ob_sequence row = notificationSequence ev" "ob_channelTypeSnapshot row = ctype"
  using assms by (auto simp: event_outbox_def default_outbox_def split: sum.splits)

definition down_row_ok :: "id \<Rightarrow> id \<Rightarrow> MonitorChannel \<times> NotificationChannel \<Rightarrow> NotificationOutbox \<Rightarrow> bool" where
  "down_row_ok monitorId incidentId bc row \<longleftrightarrow>
     ob_channelId row = mc_channelId (fst bc) \<and> ob_eventType row = NotificationEventType.DOWN \<and>
     ob_status row = NotificationOutboxStatus.PENDING \<and> ob_attemptCount row = 0 \<and>
     ob_monitorId row = Some monitorId \<and> ob_incidentId row = Some incidentId \<and>
     ob_encryptedConfigSnapshot row = ch_encryptedConfig (snd bc)"

lemma createOutbox_rows:
  assumes "fold_tx (\<lambda>(b, c) d'.
       case event_outbox config rt monitor incident result now NotificationEventType.DOWN
              (mc_channelId b) (mc_notifyOnRecovery b) (ch_type c) (ch_displayName c)
              (ch_encryptedConfig c) of
         Inl e \<Rightarrow> Inl e
       | Inr row \<Rightarrow> create_outbox row d') bs d = Inr d'"
  shows "\<exists>rows. outbox d' = outbox d @ rows \<and>
    list_all2 (down_row_ok (mo_id monitor) (ic_id incident)) bs rows"
  using assms
proof (induction bs arbitrary: d)
  case Nil
  then show ?case by simp
next
  case (Cons bc bs)
  obtain b c where bc: "bc = (b, c)" by fastforce
  from Cons.prems bc obtain row d1 where row: "event_outbox config rt monitor incident result now
      NotificationEventType.DOWN (mc_channelId b) (mc_notifyOnRecovery b) (ch_type c)
      (ch_displayName c) (ch_encryptedConfig c) = Inr row" and d1: "create_outbox row d = Inr d1"
    and rest: "fold_tx (\<lambda>(b, c) d'.
       case event_outbox config rt monitor incident result now NotificationEventType.DOWN
              (mc_channelId b) (mc_notifyOnRecovery b) (ch_type c) (ch_displayName c)
              (ch_encryptedConfig c) of
         Inl e \<Rightarrow> Inl e
       | Inr row \<Rightarrow> create_outbox row d') bs d1 = Inr d'"
    by (auto split: sum.splits)
  from Cons.IH[OF rest] obtain rows where rows: "outbox d' = outbox d1 @ rows"
    "list_all2 (down_row_ok (mo_id monitor) (ic_id incident)) bs rows" by blast
  have "outbox d1 = outbox d @ [row]" using create_outbox_Inr[OF d1] by simp
  moreover have "down_row_ok (mo_id monitor) (ic_id incident) bc row"
    using event_outbox_Inr[OF row] by (simp add: down_row_ok_def bc)
  ultimately show ?case using rows by (intro exI[of _ "row # rows"]) simp
qed

section \<open>Properties\<close>

text \<open>C28. A scheduled check is settled once: the attempt that persists it adds exactly one result
row for it, with the outcome of that attempt, and from then on every attempt for the same
check, by any worker with any result, is a duplicate that changes nothing.\<close>

theorem result_persisted_once:
  assumes "persist config rt g oc om r u now d = (Inr st, d')" "st \<noteq> duplicate"
    and "\<forall>c. find_by sc_id (sc_id oc) (scheduledChecks d) = Some c \<longrightarrow> sc_monitorId c = sc_monitorId oc"
  shows "(\<exists>row. checkResults d' = checkResults d @ [row] \<and>
            cr_scheduledCheckId row = Some (sc_id oc) \<and> cr_outcome row = rs_outcome r) \<and>
         (\<forall>config2 rt2 g2 oc2 om2 r2 u2 now2. sc_id oc2 = sc_id oc \<longrightarrow>
            persist config2 rt2 g2 oc2 om2 r2 u2 now2 d' = (Inr duplicate, d'))"
proof -
  from persist_Inr[OF assms(1)] assms(2) have tx: "persist_tx config rt g oc om r u now d = Inr (st, d')"
    by simp
  show ?thesis
    by (rule persist_tx_written[OF tx assms(2)]) (use assms(3) persist_tx_again in auto)
qed

definition example_config :: CheckProcessorConfig where
  "example_config = \<lparr>pc_instanceId = js ''w1'', pc_region = js ''local'', pc_leaseMs = 60000,
     pc_decipher = (\<lambda>_ _ _. None), pc_appBaseUrl = None, pc_messageIdDomain = None\<rparr>"

definition example_runtime :: runtime where
  "example_runtime = \<lparr>rt_sha256 = (\<lambda>s. s), rt_resultId = (\<lambda>i. js ''r'' @ i),
     rt_incidentId = (\<lambda>i. js ''i'' @ i), rt_outboxId = (\<lambda>i e c. i @ c), rt_target = (\<lambda>s. s)\<rparr>"

definition queued_check :: ScheduledCheck where
  "queued_check =
     \<lparr>sc_id = js ''c1'', sc_monitorId = js ''m1'', sc_scheduledAt = 1000, sc_configVersion = 1,
      sc_status = ScheduledCheckStatus.ENQUEUED, sc_leaseOwner = Some (js ''s''),
      sc_leaseUntil = Some 9000, sc_queueJobId = None, sc_attemptCount = 1,
      sc_failureReasonSafe = None, sc_enqueuedAt = Some 1000, sc_startedAt = None,
      sc_completedAt = None, sc_canceledAt = None, sc_createdAt = 1000\<rparr>"

definition example_db :: db where
  "example_db = empty_db\<lparr>monitors := [example_monitor], scheduledChecks := [queued_check]\<rparr>"

lemma example_persist:
  "\<exists>d'. persist example_config example_runtime False queued_check example_monitor failed_result None
        2000 example_db = (Inr completed, d') \<and> length (incidents d') = 1"
  by (simp add: persist_def persist_tx_def example_db_def empty_db_def find_by_def result_of_def
      create_result_def check_result_row_def result_valid_def persist_valid_def active_check_def
      observe_recheck_def observe_inconclusive_def applyCheckResult_def transition_input_def
      assertState_def assertTransitionInput_def safe_integer_def apply_failure_def
      applyIncidentEffect_def current_incident_def find_latest_def create_incident_def
      createOutbox_def down_bindings_def update_monitor_def monitorUpdate_def failed_result_def
      queued_check_def example_monitor_def initial_state_def Let_def)

theorem result_persisted_once_witness:
  "\<exists>d'. persist example_config example_runtime False queued_check example_monitor failed_result None
        2000 example_db = (Inr completed, d') \<and>
     (\<exists>row. checkResults d' = [row] \<and> cr_outcome row = TARGET_FAILURE) \<and>
     persist example_config example_runtime False queued_check example_monitor failed_result None
        3000 d' = (Inr duplicate, d')"
proof -
  obtain d' where d': "persist example_config example_runtime False queued_check example_monitor
      failed_result None 2000 example_db = (Inr completed, d')" using example_persist by blast
  have "\<forall>c. find_by sc_id (sc_id queued_check) (scheduledChecks example_db) = Some c \<longrightarrow>
      sc_monitorId c = sc_monitorId queued_check"
    by (simp add: example_db_def find_by_def)
  from result_persisted_once[OF d' _ this] d' show ?thesis
    by (auto simp: example_db_def empty_db_def failed_result_def)
qed

text \<open>Incidents and health never drift apart: persisting any result, whether it succeeds,
loses a race or throws, keeps every monitor's state well formed and keeps exactly one open
incident for each monitor that is DOWN or RECOVERING and none for every other.\<close>

theorem persist_keeps_incidents:
  assumes "incident_inv d" "rt_incidentId rt (sc_id oc) \<notin> ic_id ` set (incidents d)"
    "persist config rt g oc om r u now d = (out, d')"
  shows "incident_inv d'"
  by (rule persist_inv[OF assms])

theorem persist_keeps_incidents_witness:
  "\<exists>d'. persist example_config example_runtime False queued_check example_monitor failed_result None
        2000 example_db = (Inr completed, d') \<and> incident_inv d' \<and> length (incidents d') = 1"
proof -
  obtain d' where d': "persist example_config example_runtime False queued_check example_monitor
      failed_result None 2000 example_db = (Inr completed, d')" "length (incidents d') = 1"
    using example_persist by blast
  have "incident_inv example_db"
    by (simp add: incident_inv_def health_view_def example_db_def empty_db_def example_monitor_def
        wf_initial_state open_incidents_def)
      (simp add: initial_state_def has_incident_def)
  moreover have "rt_incidentId example_runtime (sc_id queued_check) \<notin> ic_id ` set (incidents example_db)"
    by (simp add: example_db_def empty_db_def)
  ultimately show ?thesis using persist_keeps_incidents d' by blast
qed

text \<open>A result that says nothing about the target (a platform error, or a failure suppressed as
inconclusive) is recorded but changes no monitor's health state, no incident and no
notification.\<close>

theorem inconclusive_never_advances:
  assumes "persist config rt g oc om r u now d = (out, d')"
    "rs_outcome r = INCONCLUSIVE \<or> rs_outcome r = CheckOutcome.PLATFORM_ERROR"
  shows "health_view d' = health_view d \<and> incidents d' = incidents d \<and> outbox d' = outbox d"
proof (cases out)
  case (Inl e)
  with assms(1) have "persist config rt g oc om r u now d = (Inl e, d')" by simp
  from persist_Inl[OF this] show ?thesis by simp
next
  case (Inr st)
  with assms(1) have "persist config rt g oc om r u now d = (Inr st, d')" by simp
  from persist_Inr[OF this] show ?thesis
  proof
    assume "persist_tx config rt g oc om r u now d = Inr (st, d')"
    then show ?thesis by (rule persist_ignored) (use assms(2) in auto)
  next
    assume "st = duplicate \<and> d' = d"
    then show ?thesis by simp
  qed
qed

theorem inconclusive_never_advances_witness:
  "let r = inconclusiveNetworkResult failed_result;
       after = snd (persist example_config example_runtime True queued_check example_monitor r None
                      2000 example_db)
   in health_view after = health_view example_db \<and> incidents after = []"
proof -
  let ?r = "inconclusiveNetworkResult failed_result"
  obtain out d' where p: "persist example_config example_runtime True queued_check example_monitor ?r
      None 2000 example_db = (out, d')" by fastforce
  have "rs_outcome ?r = INCONCLUSIVE" by (simp add: inconclusiveNetworkResult_def)
  with inconclusive_never_advances[OF p] p show ?thesis
    by (simp add: Let_def) (simp add: example_db_def empty_db_def)
qed

text \<open>A check is run by one worker at a time: among the run claims of any workers in any
order, a later grant of the same check happens only after the earlier run lease lapsed.\<close>

theorem run_leases_disjoint:
  assumes "distinct (map sc_id (scheduledChecks d))" "\<forall>c \<in> set cs. cl_now c \<le> cl_until c"
  shows "sorted_wrt (\<lambda>g h. cl_id g = cl_id h \<longrightarrow> cl_until g < cl_now h) (run_claims claim_run cs d)"
  using assms by (rule run_claim.leases_disjoint)

theorem run_leases_disjoint_witness:
  "let claim = (\<lambda>w t. \<lparr>cl_id = js ''c1'', cl_owner = w, cl_now = t, cl_until = t + 500\<rparr>);
       granted = run_claims claim_run
         [claim (js ''a'') 1000, claim (js ''b'') 1200, claim (js ''b'') 1501] example_db
   in map cl_now granted = [1000, 1501] \<and>
      sorted_wrt (\<lambda>g h. cl_id g = cl_id h \<longrightarrow> cl_until g < cl_now h) granted"
proof -
  let ?c = "\<lambda>w t. \<lparr>cl_id = js ''c1'', cl_owner = w, cl_now = t, cl_until = t + 500\<rparr>"
  let ?cs = "[?c (js ''a'') 1000, ?c (js ''b'') 1200, ?c (js ''b'') 1501]"
  have "map cl_now (run_claims claim_run ?cs example_db) = [1000, 1501]"
    by (simp add: claim_run_def claim_rows_def claimable_for_run_def run_grant_def queued_check_def
        example_db_def empty_db_def)
  with run_leases_disjoint[of example_db ?cs] show ?thesis
    by (simp only: Let_def) (simp add: example_db_def empty_db_def)
qed

text \<open>When an incident opens, every binding of the monitor that asks for DOWN on a usable
Telegram channel gets exactly one pending DOWN row, in order, with the channel's current
encrypted destination, and no other outbox row is added or changed.\<close>

theorem down_notifications_created:
  assumes "applyIncidentEffect config rt k m r (OPEN first detected firstErr lastErr) now d = Inr d'"
    and "open_incidents (mo_id m) d = 0"
  shows "\<exists>rows. outbox d' = outbox d @ rows \<and>
    list_all2 (down_row_ok (mo_id m) k) (down_bindings (mo_id m) d) rows"
proof -
  let ?i = "new_incident k m first detected firstErr lastErr now"
  have "current_incident (mo_id m) d = None" using assms(2) by (simp add: current_incident_None)
  with assms(1) obtain d1 where d1: "create_incident ?i d = Inr d1"
    and d': "createOutbox config rt m ?i r now d1 = Inr d'"
    by (auto simp: applyIncidentEffect_def Let_def split: sum.splits)
  have eq: "d1 = d\<lparr>incidents := incidents d @ [?i]\<rparr>" using create_incident_Inr[OF d1] .
  have "down_bindings (mo_id m) d1 = down_bindings (mo_id m) d"
    by (simp add: eq down_bindings_def cong: if_cong)
  with createOutbox_rows[OF d'[unfolded createOutbox_def]] show ?thesis by (simp add: eq)
qed

definition bound_db :: db where
  "bound_db = example_db\<lparr>channels := [\<lparr>ch_id = js ''t1'', ch_type = telegram,
       ch_displayName = js ''ops'', ch_encryptedConfig = [7], ch_verifiedAt = None,
       ch_enabled = True, ch_createdAt = 0, ch_deletedAt = None\<rparr>],
     monitorChannels := [\<lparr>mc_monitorId = js ''m1'', mc_channelId = js ''t1'',
       mc_notifyOnDown = True, mc_notifyOnRecovery = True, mc_createdAt = 0\<rparr>]\<rparr>"

theorem down_notifications_created_witness:
  "\<exists>d'. applyIncidentEffect example_config example_runtime (js ''i1'') example_monitor failed_result
         (OPEN 1000 2000 (Some DNS_ERROR) (Some DNS_ERROR)) 2000 bound_db = Inr d' \<and>
       length (outbox d') = 1 \<and> ob_encryptedConfigSnapshot (hd (outbox d')) = [7]"
proof -
  have "\<exists>row. event_outbox example_config example_runtime example_monitor
      (new_incident (js ''i1'') example_monitor 1000 2000 (Some DNS_ERROR) (Some DNS_ERROR) 2000)
      failed_result 2000 NotificationEventType.DOWN (js ''t1'') True telegram (js ''ops'') [7] = Inr row"
  proof -
    have "\<exists>k. createNotificationDedupeKey \<lparr>dp_incidentId = js ''i1'', dp_channelId = js ''t1'',
        dp_eventType = NotificationEventType.DOWN\<rparr> = Inr k"
      by (rule exI[of _ "js ''incident:i1:channel:t1:event:DOWN''"]) code_simp
    then show ?thesis
      by (auto simp: event_outbox_def new_incident_def makeNotificationPayload_def example_config_def
          Let_def)
  qed
  then have "\<exists>d'. applyIncidentEffect example_config example_runtime (js ''i1'') example_monitor
      failed_result (OPEN 1000 2000 (Some DNS_ERROR) (Some DNS_ERROR)) 2000 bound_db = Inr d'"
    by (auto simp: applyIncidentEffect_def current_incident_def find_latest_def create_incident_def
        createOutbox_def down_bindings_def bound_db_def example_db_def empty_db_def usable_channel_def
        create_outbox_def example_monitor_def Let_def)
  then obtain d' where d': "applyIncidentEffect example_config example_runtime (js ''i1'')
      example_monitor failed_result (OPEN 1000 2000 (Some DNS_ERROR) (Some DNS_ERROR)) 2000 bound_db
      = Inr d'" by blast
  have "open_incidents (mo_id example_monitor) bound_db = 0"
    by (simp add: open_incidents_def bound_db_def example_db_def empty_db_def)
  from down_notifications_created[OF d' this]
  obtain rows where rows: "outbox d' = outbox bound_db @ rows"
    "list_all2 (down_row_ok (mo_id example_monitor) (js ''i1''))
       (down_bindings (mo_id example_monitor) bound_db) rows" by blast
  have "outbox bound_db = []" by (simp add: bound_db_def example_db_def empty_db_def)
  moreover have "map (\<lambda>p. ch_encryptedConfig (snd p)) (down_bindings (mo_id example_monitor) bound_db) = [[7]]"
    by (simp add: down_bindings_def bound_db_def example_monitor_def usable_channel_def)
  ultimately show ?thesis
    using d' rows by (auto simp: map_eq_Cons_conv list_all2_Cons1 down_row_ok_def)
qed

text \<open>A job is run only if the ledger still wants it: the claimed check has no result, its
version is the job's and the monitor's current one, the monitor is active, and the row is
then running under this worker's lease; a job whose monitor moved on cancels exactly its own
check if that was still active, and every other refusal leaves the check as it was.\<close>

theorem job_admission:
  assumes "distinct (map sc_id (scheduledChecks d))" "process_begin config data now d = (Inr out, d')"
  shows "case out of
      Claimed c m \<Rightarrow>
        check_of (cj_scheduledCheckId data) d = Some c \<and> result_of d c = None \<and>
        sc_configVersion c = cj_configVersion data \<and>
        configVersion (mo_state m) = cj_configVersion data \<and>
        lifecycleStatus (mo_state m) = ACTIVE \<and> mo_deletedAt m = None \<and> claimable_for_run now c \<and>
        check_of (cj_scheduledCheckId data) d' =
          Some (run_grant (pc_instanceId config) now (now + pc_leaseMs config) c)
    | Finished canceled \<Rightarrow>
        check_of (cj_scheduledCheckId data) d' =
          map_option (\<lambda>c. if active_check c then c\<lparr>sc_status := ScheduledCheckStatus.CANCELED,
              sc_canceledAt := Some now, sc_leaseOwner := None, sc_leaseUntil := None,
              sc_failureReasonSafe := Some stale_reason\<rparr> else c)
            (check_of (cj_scheduledCheckId data) d)
    | Finished _ \<Rightarrow> out = Finished duplicate \<and> d' = d"
proof (cases "find_by sc_id (cj_scheduledCheckId data) (scheduledChecks d)")
  case None
  with assms(2) show ?thesis by (auto simp: process_begin_def find_by_def)
next
  case (Some c)
  have id: "sc_id c = cj_scheduledCheckId data" using find_by_Some[OF Some] by simp
  obtain ok d1 where claim: "claim_run (sc_id c) (pc_instanceId config) now (now + pc_leaseMs config) d
      = (ok, d1)" by fastforce
  have granted: "ok \<Longrightarrow> claimable_for_run now c \<and> check_of (sc_id c) d1 =
      Some (run_grant (pc_instanceId config) now (now + pc_leaseMs config) c)"
  proof -
    assume ok
    with claim obtain rows where rows: "claim_rows sc_id (claimable_for_run now)
        (run_grant (pc_instanceId config) now (now + pc_leaseMs config)) (sc_id c)
        (scheduledChecks d) = (True, rows)" "d1 = d\<lparr>scheduledChecks := rows\<rparr>"
      by (auto simp: claim_run_def split: prod.splits)
    from run_rows.claim_granted[OF assms(1) rows(1)] Some id obtain
      "claimable_for_run now c" "rows = update_where (\<lambda>r. sc_id r = sc_id c)
        (run_grant (pc_instanceId config) now (now + pc_leaseMs config)) (scheduledChecks d)"
      by (auto simp: find_by_def)
    with Some id rows(2) show ?thesis
      by (simp add: find_key_update run_rows.grant_key find_by_def)
  qed
  have refused: "\<not> ok \<Longrightarrow> d1 = d"
  proof -
    assume "\<not> ok"
    with claim have "claim_run (sc_id c) (pc_instanceId config) now (now + pc_leaseMs config) d
        = (False, d1)" by simp
    then show ?thesis by (rule run_claim.claim_refused[OF assms(1)])
  qed
  have stale: "check_of (sc_id c) (cancelStale (sc_id c) now d) =
      map_option (\<lambda>c. if active_check c then c\<lparr>sc_status := ScheduledCheckStatus.CANCELED,
              sc_canceledAt := Some now, sc_leaseOwner := None, sc_leaseUntil := None,
              sc_failureReasonSafe := Some stale_reason\<rparr> else c) (check_of (sc_id c) d)"
    by (simp add: cancelStale_def find_key_update_where)
  from assms(2) Some id claim granted refused stale show ?thesis
    by (cases ok) (auto simp: process_begin_def find_by_def split: option.splits if_splits)
qed

theorem job_admission_witness:
  "\<exists>d'. process_begin example_config \<lparr>cj_scheduledCheckId = js ''c1'', cj_configVersion = 1\<rparr> 2000
         example_db = (Inr (Claimed queued_check example_monitor), d') \<and>
       check_of (js ''c1'') d' = Some (run_grant (js ''w1'') 2000 62000 queued_check)"
proof -
  let ?j = "\<lparr>cj_scheduledCheckId = js ''c1'', cj_configVersion = 1\<rparr>"
  have "\<exists>d'. process_begin example_config ?j 2000 example_db
      = (Inr (Claimed queued_check example_monitor), d')"
    by (simp add: process_begin_def example_db_def empty_db_def find_by_def queued_check_def
        example_monitor_def result_of_def initial_state_def claim_run_def claim_rows_def
        claimable_for_run_def)
  then obtain d' where d': "process_begin example_config ?j 2000 example_db
      = (Inr (Claimed queued_check example_monitor), d')" by blast
  have "distinct (map sc_id (scheduledChecks example_db))" by (simp add: example_db_def empty_db_def)
  from job_admission[OF this d'] d' show ?thesis by (simp add: example_config_def)
qed

end
