(* ===== verification/Outbox_Dispatcher.thy ===== *)
theory Outbox_Dispatcher
  imports Secret_Lifecycle Leases "HOL-Library.List_Lexorder" "HOL-Library.Product_Lexorder"
begin

text \<open>
  The dispatcher of outbox rows, \<open>apps/worker/src/outbox-dispatcher.ts\<close>: the scan for rows
  that may be delivered, the ordering of a RECOVERY behind its DOWN, the dispatch lease, and
  the queue job. The scan is a loop bounded by its budget; the model is a total function.
\<close>

section \<open>Rows a dispatcher may take\<close>

definition RECOVERY_RECHECK_DELAY_MS :: int where "RECOVERY_RECHECK_DELAY_MS = 2000"
definition DISPATCH_SCAN_MULTIPLIER :: int where "DISPATCH_SCAN_MULTIPLIER = 5"
definition MAX_DISPATCH_SCAN :: int where "MAX_DISPATCH_SCAN = 5000"

definition availableForDispatch :: "time \<Rightarrow> NotificationOutbox \<Rightarrow> bool" where
  "availableForDispatch now r \<longleftrightarrow>
     ob_availableAt r \<le> now \<and>
     (((ob_status r = NotificationOutboxStatus.PENDING \<or> ob_status r = RETRY) \<and>
        (ob_leaseUntil r = None \<or> lapsed (ob_leaseUntil r) now)) \<or>
      ((ob_status r = NotificationOutboxStatus.ENQUEUED \<or> ob_status r = PROCESSING) \<and>
        lapsed (ob_leaseUntil r) now))"

record NotificationJobData =
  nj_outboxId :: id

definition ensureNotificationJob ::
  "(NotificationJobData, 'q) queue_port \<Rightarrow> id \<Rightarrow> 'q \<Rightarrow> bool \<times> 'q" where
  "ensureNotificationJob port outboxId q =
     (case job_state port outboxId q of
        None \<Rightarrow> (False, q)
      | Some None \<Rightarrow> job_add port \<lparr>nj_outboxId = outboxId\<rparr> outboxId q
      | Some (Some jobState) \<Rightarrow>
          (if jobState = js ''completed'' \<or> jobState = js ''failed''
           then (case job_remove port outboxId q of
                   (False, q') \<Rightarrow> (False, q')
                 | (True, q') \<Rightarrow> job_add port \<lparr>nj_outboxId = outboxId\<rparr> outboxId q')
           else (True, q)))"

section \<open>Conditional updates\<close>

definition deferred_row :: "time \<Rightarrow> NotificationOutbox \<Rightarrow> NotificationOutbox" where
  "deferred_row now r = r\<lparr>ob_availableAt := now + RECOVERY_RECHECK_DELAY_MS\<rparr>"

definition canceled_row :: "time \<Rightarrow> jstring \<Rightarrow> bool \<Rightarrow> NotificationOutbox \<Rightarrow> NotificationOutbox" where
  "canceled_row now reason retain r =
     (let c = r\<lparr>ob_status := NotificationOutboxStatus.CANCELED, ob_canceledAt := Some now,
                ob_leaseOwner := None, ob_leaseUntil := None, ob_lastErrorSafe := Some reason\<rparr>
      in if retain then c else retiredNotificationSecretData c)"

definition outbox_grant :: "jstring \<Rightarrow> time \<Rightarrow> time \<Rightarrow> NotificationOutbox \<Rightarrow> NotificationOutbox" where
  "outbox_grant owner now leaseUntil r =
     r\<lparr>ob_status := RETRY, ob_leaseOwner := Some owner, ob_leaseUntil := Some leaseUntil\<rparr>"

definition update_available ::
  "(NotificationOutbox \<Rightarrow> NotificationOutbox) \<Rightarrow> id \<Rightarrow> time \<Rightarrow> db \<Rightarrow> bool \<times> db" where
  "update_available f i now d =
     (case claim_rows ob_id (availableForDispatch now) f i (outbox d) of
        (ok, rows) \<Rightarrow> (ok, d\<lparr>outbox := rows\<rparr>))"

definition deferRecovery :: "id \<Rightarrow> time \<Rightarrow> db \<Rightarrow> bool \<times> db" where
  "deferRecovery i now d = update_available (deferred_row now) i now d"

definition cancel_available :: "id \<Rightarrow> time \<Rightarrow> jstring \<Rightarrow> bool \<Rightarrow> db \<Rightarrow> bool \<times> db" where
  "cancel_available i now reason retainForLateDownSuccess d =
     update_available (canceled_row now reason retainForLateDownSuccess) i now d"

definition claim_outbox :: "id \<Rightarrow> jstring \<Rightarrow> time \<Rightarrow> time \<Rightarrow> db \<Rightarrow> bool \<times> db" where
  "claim_outbox i owner now leaseUntil d = update_available (outbox_grant owner now leaseUntil) i now d"

definition owned_retry :: "id \<Rightarrow> jstring \<Rightarrow> NotificationOutbox \<Rightarrow> bool" where
  "owned_retry i owner r \<longleftrightarrow> ob_id r = i \<and> ob_leaseOwner r = Some owner \<and> ob_status r = RETRY"

definition mark_enqueued_outbox :: "id \<Rightarrow> jstring \<Rightarrow> time \<Rightarrow> time \<Rightarrow> db \<Rightarrow> db" where
  "mark_enqueued_outbox i owner now leaseUntil d =
     d\<lparr>outbox := update_where (owned_retry i owner)
         (\<lambda>r. r\<lparr>ob_status := NotificationOutboxStatus.ENQUEUED, ob_queueJobId := Some i,
                ob_enqueuedAt := Some now, ob_leaseUntil := Some leaseUntil\<rparr>) (outbox d)\<rparr>"

definition notify_enqueue_failed :: jstring where
  "notify_enqueue_failed = [0xC54C, 0xB9BC, 0x20, 0xD050, 0xC5D0, 0x20, 0xC791, 0xC5C5, 0xC744, 0x20, 0xB4F1,
      0xB85D, 0xD558, 0xC9C0, 0x20, 0xBABB, 0xD588, 0xC2B5, 0xB2C8, 0xB2E4, 0x2E]"

definition release_outbox :: "id \<Rightarrow> jstring \<Rightarrow> time \<Rightarrow> db \<Rightarrow> db" where
  "release_outbox i owner now d =
     d\<lparr>outbox := update_where (owned_retry i owner)
         (\<lambda>r. r\<lparr>ob_status := RETRY, ob_availableAt := now + 2000, ob_leaseOwner := None,
                ob_leaseUntil := None, ob_lastErrorSafe := Some notify_enqueue_failed\<rparr>) (outbox d)\<rparr>"

section \<open>One candidate\<close>

definition channel_live :: "db \<Rightarrow> id \<Rightarrow> bool" where
  "channel_live d c \<longleftrightarrow>
     (case find_by ch_id c (channels d) of None \<Rightarrow> False
      | Some x \<Rightarrow> ch_enabled x \<and> ch_deletedAt x = None)"

definition down_status :: "db \<Rightarrow> id \<Rightarrow> id \<Rightarrow> NotificationOutboxStatus option" where
  "down_status d incidentId channelId =
     map_option ob_status (find (\<lambda>r. ob_incidentId r = Some incidentId \<and>
       ob_channelId r = channelId \<and> ob_eventType r = NotificationEventType.DOWN) (outbox d))"

definition channel_disabled :: jstring where
  "channel_disabled = [0xC54C, 0xB9BC, 0x20, 0xCC44, 0xB110, 0xC774, 0x20, 0xBE44, 0xD65C, 0xC131, 0xD654,
      0xB418, 0xC5C8, 0xC2B5, 0xB2C8, 0xB2E4, 0x2E]"

text \<open>A RECOVERY of an incident; the code tests the identifier for being non-empty.\<close>

definition recovery_of :: "NotificationOutbox \<Rightarrow> id option" where
  "recovery_of r =
     (if ob_eventType r = RECOVERY then (case ob_incidentId r of None \<Rightarrow> None
        | Some i \<Rightarrow> if i = [] then None else Some i) else None)"

definition dispatch_row ::
  "(NotificationJobData, 'q) queue_port \<Rightarrow> jstring \<Rightarrow> int \<Rightarrow> time \<Rightarrow> id \<Rightarrow>
   bool \<times> nat \<times> db \<times> 'q \<Rightarrow> bool \<times> nat \<times> db \<times> 'q" where
  "dispatch_row port owner leaseMs now i acc =
     (case acc of (progress, n, d, q) \<Rightarrow>
       (case claim_outbox i owner now (now + leaseMs) d of
          (False, d1) \<Rightarrow> (progress, n, d1, q)
        | (True, d1) \<Rightarrow>
          (case ensureNotificationJob port i q of
             (True, q') \<Rightarrow> (True, n + 1, mark_enqueued_outbox i owner now (now + leaseMs) d1, q')
           | (False, q') \<Rightarrow> (True, n, release_outbox i owner now d1, q'))))"

definition process_candidate ::
  "(NotificationJobData, 'q) queue_port \<Rightarrow> jstring \<Rightarrow> int \<Rightarrow> time \<Rightarrow> NotificationOutbox \<times> bool \<Rightarrow>
   bool \<times> nat \<times> db \<times> 'q \<Rightarrow> bool \<times> nat \<times> db \<times> 'q" where
  "process_candidate port owner leaseMs now cand acc =
     (case acc of (progress, n, d, q) \<Rightarrow>
       (case cand of (r, live) \<Rightarrow>
         if \<not> live
         then (case cancel_available (ob_id r) now channel_disabled False d of
                 (ok, d') \<Rightarrow> (ok \<or> progress, n, d', q))
         else
          (case recovery_of r of
             Some incidentId \<Rightarrow>
               (let down = down_status d incidentId (ob_channelId r) in
                case recoveryPrerequisiteStatus down of
                  WAIT \<Rightarrow> (case deferRecovery (ob_id r) now d of
                             (ok, d') \<Rightarrow> (ok \<or> progress, n, d', q))
                | CANCEL \<Rightarrow>
                    (case cancel_available (ob_id r) now DOWN_NOT_DELIVERED_RECOVERY_CANCEL_REASON
                            (down = Some NotificationOutboxStatus.FAILED) d of
                       (ok, d') \<Rightarrow> (ok \<or> progress, n, d', q))
                | READY \<Rightarrow> dispatch_row port owner leaseMs now (ob_id r) acc)
           | None \<Rightarrow> dispatch_row port owner leaseMs now (ob_id r) acc)))"

section \<open>The scan\<close>

definition dispatch_page :: "time \<Rightarrow> nat \<Rightarrow> db \<Rightarrow> (NotificationOutbox \<times> bool) list" where
  "dispatch_page now count d =
     map (\<lambda>r. (r, channel_live d (ob_channelId r)))
       (take count (sort_key (\<lambda>r. (ob_availableAt r, ob_createdAt r, ob_id r))
          (filter (availableForDispatch now) (outbox d))))"

function dispatch_scan ::
  "(NotificationJobData, 'q) queue_port \<Rightarrow> jstring \<Rightarrow> int \<Rightarrow> time \<Rightarrow> nat \<Rightarrow> nat \<Rightarrow> nat \<Rightarrow> nat \<Rightarrow> db \<Rightarrow> 'q \<Rightarrow>
   nat \<times> db \<times> 'q" where
  "dispatch_scan port owner leaseMs now limit budget dispatched scanned d q =
     (if dispatched < limit \<and> scanned < budget then
        (let candidates = dispatch_page now (min (limit - dispatched) (budget - scanned)) d in
         if candidates = [] then (dispatched, d, q)
         else (case fold (process_candidate port owner leaseMs now) candidates
                      (False, dispatched, d, q) of
                 (progress, dispatched', d', q') \<Rightarrow>
                   if progress
                   then dispatch_scan port owner leaseMs now limit budget dispatched'
                          (scanned + length candidates) d' q'
                   else (dispatched', d', q')))
      else (dispatched, d, q))"
  by pat_completeness auto
termination
  by (relation "measure (\<lambda>(port, owner, leaseMs, now, limit, budget, dispatched, scanned, d, q).
    budget - scanned)") (auto intro!: diff_less_mono2)

declare dispatch_scan.simps [simp del]

definition dispatch_outbox ::
  "(NotificationJobData, 'q) queue_port \<Rightarrow> jstring \<Rightarrow> int \<Rightarrow> time \<Rightarrow> int \<Rightarrow> db \<Rightarrow> 'q \<Rightarrow> nat \<times> db \<times> 'q" where
  "dispatch_outbox port owner leaseMs now limit d q =
     (if \<not> safe_integer limit \<or> limit \<le> 0 then (0, d, q)
      else
       (let scanBudget = max limit (min MAX_DISPATCH_SCAN (limit * DISPATCH_SCAN_MULTIPLIER))
        in dispatch_scan port owner leaseMs now (nat limit) (nat scanBudget) 0 0 d q))"

section \<open>What a pass does to each row\<close>

definition enqueued_row :: "jstring \<Rightarrow> time \<Rightarrow> time \<Rightarrow> NotificationOutbox \<Rightarrow> NotificationOutbox" where
  "enqueued_row owner now leaseUntil r =
     r\<lparr>ob_status := NotificationOutboxStatus.ENQUEUED, ob_leaseOwner := Some owner,
       ob_leaseUntil := Some leaseUntil, ob_queueJobId := Some (ob_id r), ob_enqueuedAt := Some now\<rparr>"

definition released_row :: "time \<Rightarrow> NotificationOutbox \<Rightarrow> NotificationOutbox" where
  "released_row now r =
     r\<lparr>ob_status := RETRY, ob_availableAt := now + 2000, ob_leaseOwner := None,
       ob_leaseUntil := None, ob_lastErrorSafe := Some notify_enqueue_failed\<rparr>"

definition may_send :: "db \<Rightarrow> NotificationOutbox \<Rightarrow> bool" where
  "may_send d r \<longleftrightarrow>
     (case recovery_of r of None \<Rightarrow> True | Some i \<Rightarrow> down_status d i (ob_channelId r) = Some SENT)"

definition dispatch_moved ::
  "jstring \<Rightarrow> time \<Rightarrow> time \<Rightarrow> db \<Rightarrow> NotificationOutbox \<Rightarrow> NotificationOutbox \<Rightarrow> bool" where
  "dispatch_moved owner now leaseUntil d r r' \<longleftrightarrow>
     r' = r \<or>
     (availableForDispatch now r \<and>
       (r' = deferred_row now r \<or> (\<exists>reason retain. r' = canceled_row now reason retain r) \<or>
        r' = released_row now r \<or> (r' = enqueued_row owner now leaseUntil r \<and> may_send d r)))"

lemma moved_fields [simp]:
  "ob_id (canceled_row t e k r) = ob_id r" "ob_incidentId (canceled_row t e k r) = ob_incidentId r"
  "ob_channelId (canceled_row t e k r) = ob_channelId r"
  "ob_eventType (canceled_row t e k r) = ob_eventType r"
  "ob_status (canceled_row t e k r) = NotificationOutboxStatus.CANCELED"
  "ob_id (deferred_row t r) = ob_id r" "ob_incidentId (deferred_row t r) = ob_incidentId r"
  "ob_channelId (deferred_row t r) = ob_channelId r" "ob_eventType (deferred_row t r) = ob_eventType r"
  "ob_status (deferred_row t r) = ob_status r" "ob_availableAt (deferred_row t r) = t + 2000"
  "ob_id (released_row t r) = ob_id r" "ob_incidentId (released_row t r) = ob_incidentId r"
  "ob_channelId (released_row t r) = ob_channelId r" "ob_eventType (released_row t r) = ob_eventType r"
  "ob_status (released_row t r) = RETRY" "ob_availableAt (released_row t r) = t + 2000"
  "ob_id (enqueued_row w t u r) = ob_id r" "ob_incidentId (enqueued_row w t u r) = ob_incidentId r"
  "ob_channelId (enqueued_row w t u r) = ob_channelId r"
  "ob_eventType (enqueued_row w t u r) = ob_eventType r"
  "ob_status (enqueued_row w t u r) = NotificationOutboxStatus.ENQUEUED"
  "ob_leaseUntil (enqueued_row w t u r) = Some u"
  by (simp_all add: canceled_row_def deferred_row_def released_row_def enqueued_row_def Let_def
      retiredNotificationSecretData_def RECOVERY_RECHECK_DELAY_MS_def)

lemma recovery_of_cong:
  "ob_eventType r = ob_eventType r' \<Longrightarrow> ob_incidentId r = ob_incidentId r' \<Longrightarrow>
   recovery_of r = recovery_of r'"
  by (simp add: recovery_of_def)

lemma moved_keys:
  assumes "dispatch_moved owner now until d r r'"
  shows "ob_id r' = ob_id r" "ob_incidentId r' = ob_incidentId r" "ob_channelId r' = ob_channelId r"
    "ob_eventType r' = ob_eventType r" "recovery_of r' = recovery_of r"
proof -
  from assms have k: "ob_id r' = ob_id r \<and> ob_incidentId r' = ob_incidentId r \<and>
      ob_channelId r' = ob_channelId r \<and> ob_eventType r' = ob_eventType r"
    unfolding dispatch_moved_def by auto
  then show "ob_id r' = ob_id r" "ob_incidentId r' = ob_incidentId r"
    "ob_channelId r' = ob_channelId r" "ob_eventType r' = ob_eventType r" by simp_all
  from k show "recovery_of r' = recovery_of r" by (intro recovery_of_cong) simp_all
qed

lemma moved_sent:
  assumes "dispatch_moved owner now until d r r'"
  shows "ob_status r' = SENT \<longleftrightarrow> ob_status r = SENT"
  using assms unfolding dispatch_moved_def by (auto simp: availableForDispatch_def)

lemma moved_unavailable:
  assumes "dispatch_moved owner now until d r r'" "r' \<noteq> r" "now \<le> until"
  shows "\<not> availableForDispatch now r'"
  using assms unfolding dispatch_moved_def by (auto simp: availableForDispatch_def)

lemma down_status_moved:
  assumes "list_all2 (dispatch_moved owner now until e) xs ys"
  shows "(map_option ob_status (find (\<lambda>r. ob_incidentId r = Some i \<and> ob_channelId r = c \<and>
            ob_eventType r = NotificationEventType.DOWN) ys) = Some SENT) \<longleftrightarrow>
         (map_option ob_status (find (\<lambda>r. ob_incidentId r = Some i \<and> ob_channelId r = c \<and>
            ob_eventType r = NotificationEventType.DOWN) xs) = Some SENT)"
  using assms
proof (induction rule: list_all2_induct)
  case Nil
  then show ?case by simp
next
  case (Cons x xs y ys)
  note k = moved_keys[OF Cons.hyps(1)] and s = moved_sent[OF Cons.hyps(1)]
  show ?case
  proof (cases "ob_incidentId x = Some i \<and> ob_channelId x = c \<and>
      ob_eventType x = NotificationEventType.DOWN")
    case True
    with k s show ?thesis by simp
  next
    case False
    with k Cons.IH show ?thesis by (auto simp del: map_option_eq_Some)
  qed
qed

definition pass_step :: "jstring \<Rightarrow> time \<Rightarrow> time \<Rightarrow> db \<Rightarrow> db \<Rightarrow> bool" where
  "pass_step owner now until d d' \<longleftrightarrow>
     d' = d\<lparr>outbox := outbox d'\<rparr> \<and> list_all2 (dispatch_moved owner now until d) (outbox d) (outbox d')"

lemma pass_step_refl [simp]: "pass_step owner now until d d"
  by (simp add: pass_step_def list_all2_refl dispatch_moved_def)

lemma pass_step_ids: "pass_step owner now until d d' \<Longrightarrow> map ob_id (outbox d') = map ob_id (outbox d)"
proof -
  assume "pass_step owner now until d d'"
  then have "list_all2 (dispatch_moved owner now until d) (outbox d) (outbox d')"
    by (simp add: pass_step_def)
  then show ?thesis by (induction rule: list_all2_induct) (auto dest: moved_keys)
qed

lemma may_send_pass:
  assumes "pass_step owner now until d d'"
  shows "may_send d' r = may_send d r"
  using down_status_moved[of owner now until d "outbox d" "outbox d'"] assms
  by (auto simp: may_send_def down_status_def pass_step_def split: option.splits
      simp del: map_option_eq_Some)

lemma pass_step_trans:
  assumes "pass_step owner now until d d1" "pass_step owner now until d1 d2" "now \<le> until"
  shows "pass_step owner now until d d2"
proof -
  have "list_all2 (dispatch_moved owner now until d) (outbox d) (outbox d1)"
    "list_all2 (dispatch_moved owner now until d1) (outbox d1) (outbox d2)"
    using assms(1,2) by (simp_all add: pass_step_def)
  then have "list_all2 (dispatch_moved owner now until d) (outbox d) (outbox d2)"
  proof (rule list_all2_trans[rotated])
    fix a b c
    assume ab: "dispatch_moved owner now until d a b" and bc: "dispatch_moved owner now until d1 b c"
    show "dispatch_moved owner now until d a c"
    proof (cases "b = a")
      case True
      from bc[unfolded True] show ?thesis
        unfolding dispatch_moved_def may_send_pass[OF assms(1)] .
    next
      case False
      with moved_unavailable[OF ab] assms(3) have "\<not> availableForDispatch now b" by blast
      with bc have "c = b" by (auto simp: dispatch_moved_def)
      with ab show ?thesis by simp
    qed
  qed
  moreover obtain o1 o2 where "d1 = d\<lparr>outbox := o1\<rparr>" "d2 = d1\<lparr>outbox := o2\<rparr>"
    using assms(1,2) unfolding pass_step_def by blast
  ultimately show ?thesis by (simp add: pass_step_def)
qed

lemma map_step:
  assumes "\<And>r. r \<in> set (outbox d) \<Longrightarrow> dispatch_moved owner now until d r (g r)"
  shows "pass_step owner now until d (d\<lparr>outbox := map g (outbox d)\<rparr>)"
  using assms by (auto simp: pass_step_def list_all2_map2 intro!: list.rel_refl_strong)

lemma update_available_step:
  assumes "update_available f i now d = (ok, d')"
    and "\<And>r. availableForDispatch now r \<Longrightarrow> dispatch_moved owner now until d r (f r)"
  shows "pass_step owner now until d d'"
proof -
  have d': "d' = d\<lparr>outbox := map (\<lambda>r. if ob_id r = i \<and> availableForDispatch now r then f r else r) (outbox d)\<rparr>"
    using assms(1) by (simp add: update_available_def claim_rows_def update_where_def)
  show ?thesis
    unfolding d' by (rule map_step) (use assms(2) in \<open>auto simp: dispatch_moved_def\<close>)
qed

lemma dispatch_row_step:
  assumes "distinct (map ob_id (outbox d))"
    "dispatch_row port owner leaseMs now i (progress, n, d, q) = (progress', n', d', q')"
    "\<And>r. r \<in> set (outbox d) \<Longrightarrow> ob_id r = i \<Longrightarrow> may_send d r"
  shows "pass_step owner now (now + leaseMs) d d' \<and> n' \<le> n + 1"
proof -
  obtain ok d1 where claim: "claim_outbox i owner now (now + leaseMs) d = (ok, d1)" by fastforce
  obtain qok q1 where queue: "ensureNotificationJob port i q = (qok, q1)" by fastforce
  obtain rows where rows: "claim_rows ob_id (availableForDispatch now)
      (outbox_grant owner now (now + leaseMs)) i (outbox d) = (ok, rows)" "d1 = d\<lparr>outbox := rows\<rparr>"
    using claim by (auto simp: claim_outbox_def update_available_def split: prod.splits)
  show ?thesis
  proof (cases ok)
    case False
    with claim_rows_refused[OF assms(1)] rows have "d1 = d" by auto
    with assms(2) claim False show ?thesis by (simp add: dispatch_row_def)
  next
    case True
    with rows have granted: "claim_rows ob_id (availableForDispatch now)
      (outbox_grant owner now (now + leaseMs)) i (outbox d) = (True, rows)" by simp
    from claim_rows_granted[OF assms(1) granted] obtain r0 where r0: "r0 \<in> set (outbox d)"
      "ob_id r0 = i" "availableForDispatch now r0"
      and up: "rows = update_where (\<lambda>r. ob_id r = i) (outbox_grant owner now (now + leaseMs)) (outbox d)" .
    have av: "availableForDispatch now r" if "r \<in> set (outbox d)" "ob_id r = i" for r
    proof -
      have "r = r0" using assms(1) r0 that by (auto simp: distinct_map inj_on_def)
      with r0 show ?thesis by simp
    qed
    show ?thesis
    proof (cases qok)
      case True
      with assms(2) claim \<open>ok\<close> queue have n: "n' = n + 1"
        and d': "d' = mark_enqueued_outbox i owner now (now + leaseMs) d1"
        by (simp_all add: dispatch_row_def)
      have "d' = d\<lparr>outbox := map (\<lambda>r. if ob_id r = i then enqueued_row owner now (now + leaseMs) r else r)
          (outbox d)\<rparr>"
        by (simp add: d' rows(2) up mark_enqueued_outbox_def update_where_def comp_def owned_retry_def
            outbox_grant_def enqueued_row_def)
      moreover have "pass_step owner now (now + leaseMs) d (d\<lparr>outbox := map (\<lambda>r. if ob_id r = i
          then enqueued_row owner now (now + leaseMs) r else r) (outbox d)\<rparr>)"
        by (rule map_step) (use av assms(3) in \<open>auto simp: dispatch_moved_def\<close>)
      ultimately show ?thesis using n by simp
    next
      case False
      with assms(2) claim \<open>ok\<close> queue have n: "n' = n" and d': "d' = release_outbox i owner now d1"
        by (simp_all add: dispatch_row_def)
      have "d' = d\<lparr>outbox := map (\<lambda>r. if ob_id r = i then released_row now r else r) (outbox d)\<rparr>"
        by (simp add: d' rows(2) up release_outbox_def update_where_def comp_def owned_retry_def
            outbox_grant_def released_row_def)
      moreover have "pass_step owner now (now + leaseMs) d
          (d\<lparr>outbox := map (\<lambda>r. if ob_id r = i then released_row now r else r) (outbox d)\<rparr>)"
        by (rule map_step) (use av in \<open>auto simp: dispatch_moved_def\<close>)
      ultimately show ?thesis using n by simp
    qed
  qed
qed

text \<open>
  A candidate is a row of the page; its keys are those of the row it became in the pass.
\<close>

definition candidate_ok :: "db \<Rightarrow> NotificationOutbox \<times> bool \<Rightarrow> bool" where
  "candidate_ok d cand \<longleftrightarrow>
     (\<forall>r \<in> set (outbox d). ob_id r = ob_id (fst cand) \<longrightarrow>
        recovery_of r = recovery_of (fst cand) \<and> ob_channelId r = ob_channelId (fst cand))"

lemma process_candidate_step:
  assumes "distinct (map ob_id (outbox d))" "candidate_ok d cand"
    "process_candidate port owner leaseMs now cand (progress, n, d, q) = (progress', n', d', q')"
  shows "pass_step owner now (now + leaseMs) d d' \<and> n' \<le> n + 1"
proof -
  obtain r live where cand: "cand = (r, live)" by fastforce
  have cancel: "pass_step owner now (now + leaseMs) d e"
    if "cancel_available (ob_id r) now reason retain d = (ok, e)" for reason retain ok e
    using that unfolding cancel_available_def
    by (rule update_available_step) (auto simp: dispatch_moved_def)
  have deferral: "pass_step owner now (now + leaseMs) d e"
    if "deferRecovery (ob_id r) now d = (ok, e)" for ok e
    using that unfolding deferRecovery_def
    by (rule update_available_step) (auto simp: dispatch_moved_def)
  have send: "pass_step owner now (now + leaseMs) d d' \<and> n' \<le> n + 1"
    if "dispatch_row port owner leaseMs now (ob_id r) (progress, n, d, q) = (progress', n', d', q')"
      "case recovery_of r of None \<Rightarrow> True | Some i \<Rightarrow> down_status d i (ob_channelId r) = Some SENT"
  proof (rule dispatch_row_step[OF assms(1) that(1)])
    fix x assume "x \<in> set (outbox d)" "ob_id x = ob_id r"
    with assms(2) cand that(2) show "may_send d x"
      by (auto simp: candidate_ok_def may_send_def split: option.splits)
  qed
  show ?thesis
  proof (cases live)
    case False
    with assms(3) cand cancel show ?thesis
      by (auto simp: process_candidate_def split: prod.splits)
  next
    case True
    show ?thesis
    proof (cases "recovery_of r")
      case None
      with True assms(3) cand send show ?thesis by (simp add: process_candidate_def)
    next
      case (Some i)
      show ?thesis
      proof (cases "recoveryPrerequisiteStatus (down_status d i (ob_channelId r))")
        case READY
        then have "down_status d i (ob_channelId r) = Some SENT"
          by (auto simp: recoveryPrerequisiteStatus_def split: if_splits)
        with READY True Some assms(3) cand send show ?thesis
          by (simp add: process_candidate_def Let_def)
      next
        case WAIT
        with True Some assms(3) cand deferral show ?thesis
          by (auto simp: process_candidate_def Let_def split: prod.splits)
      next
        case CANCEL
        with True Some assms(3) cand cancel show ?thesis
          by (auto simp: process_candidate_def Let_def split: prod.splits)
      qed
    qed
  qed
qed

lemma candidate_ok_pass:
  assumes "pass_step owner now until d d'" "candidate_ok d cand"
  shows "candidate_ok d' cand"
  unfolding candidate_ok_def
proof (intro ballI impI)
  fix y assume y: "y \<in> set (outbox d')" "ob_id y = ob_id (fst cand)"
  from assms(1) have "list_all2 (dispatch_moved owner now until d) (outbox d) (outbox d')"
    by (simp add: pass_step_def)
  with y(1) obtain x where "x \<in> set (outbox d)" "dispatch_moved owner now until d x y"
    by (metis list_all2_conv_all_nth in_set_conv_nth)
  with moved_keys[OF this(2)] assms(2) y(2)
  show "recovery_of y = recovery_of (fst cand) \<and> ob_channelId y = ob_channelId (fst cand)"
    by (simp add: candidate_ok_def)
qed

lemma candidates_fold:
  assumes "distinct (map ob_id (outbox d))" "\<forall>c \<in> set cands. candidate_ok d c" "0 \<le> leaseMs"
    "fold (process_candidate port owner leaseMs now) cands (progress, n, d, q) = (progress', n', d', q')"
  shows "pass_step owner now (now + leaseMs) d d' \<and> n' \<le> n + length cands"
  using assms
proof (induction cands arbitrary: progress n d q)
  case Nil
  then show ?case by simp
next
  case (Cons c cands)
  obtain p1 n1 d1 q1 where one: "process_candidate port owner leaseMs now c (progress, n, d, q)
      = (p1, n1, d1, q1)" by (metis prod_cases4)
  have s1: "pass_step owner now (now + leaseMs) d d1 \<and> n1 \<le> n + 1"
    by (rule process_candidate_step[OF Cons.prems(1) _ one]) (use Cons.prems(2) in simp)
  have "pass_step owner now (now + leaseMs) d1 d' \<and> n' \<le> n1 + length cands"
  proof (rule Cons.IH)
    show "distinct (map ob_id (outbox d1))" using Cons.prems(1) pass_step_ids s1 by metis
    show "\<forall>c \<in> set cands. candidate_ok d1 c" using Cons.prems(2) candidate_ok_pass s1 by auto
    show "fold (process_candidate port owner leaseMs now) cands (p1, n1, d1, q1) = (progress', n', d', q')"
      using Cons.prems(4) one by simp
  qed (rule Cons.prems(3))
  with s1 Cons.prems(3) show ?case using pass_step_trans by fastforce
qed

lemma page_candidates_ok:
  assumes "distinct (map ob_id (outbox d))" "c \<in> set (dispatch_page now k d)"
  shows "candidate_ok d c"
proof -
  from assms(2) have "fst c \<in> set (outbox d)"
    unfolding dispatch_page_def by (auto dest!: in_set_takeD)
  then show ?thesis
    using assms(1) by (auto simp: candidate_ok_def distinct_map inj_on_def)
qed

lemma dispatch_scan_pass:
  assumes "distinct (map ob_id (outbox d))" "0 \<le> leaseMs" "dispatched \<le> limit"
    "dispatch_scan port owner leaseMs now limit budget dispatched scanned d q = (n, d', q')"
  shows "pass_step owner now (now + leaseMs) d d' \<and> n \<le> limit"
  using assms
proof (induction "budget - scanned" arbitrary: dispatched scanned d q rule: less_induct)
  case less
  let ?page = "dispatch_page now (min (limit - dispatched) (budget - scanned)) d"
  show ?case
  proof (cases "dispatched < limit \<and> scanned < budget \<and> ?page \<noteq> []")
    case False
    with less.prems(4) have "n = dispatched" "d' = d"
      by (auto simp: dispatch_scan.simps[of _ _ _ _ limit] Let_def split: if_splits)
    with less.prems(3) show ?thesis by simp
  next
    case True
    obtain p1 n1 d1 q1 where one: "fold (process_candidate port owner leaseMs now) ?page
        (False, dispatched, d, q) = (p1, n1, d1, q1)" by (metis prod_cases4)
    have ok: "\<forall>c \<in> set ?page. candidate_ok d c" using page_candidates_ok[OF less.prems(1)] by blast
    note s1 = candidates_fold[OF less.prems(1) ok less.prems(2) one]
    have len: "length ?page \<le> limit - dispatched" by (simp add: dispatch_page_def)
    with s1 True have n1: "n1 \<le> limit" by linarith
    show ?thesis
    proof (cases p1)
      case False
      with less.prems(4) True one have "n = n1" "d' = d1"
        by (auto simp: dispatch_scan.simps[of _ _ _ _ limit] Let_def)
      with s1 n1 show ?thesis by simp
    next
      case p1: True
      with less.prems(4) True one
      have rec: "dispatch_scan port owner leaseMs now limit budget n1 (scanned + length ?page) d1 q1 = (n, d', q')"
        by (auto simp: dispatch_scan.simps[of _ _ _ _ limit] Let_def)
      have "0 < length ?page" using True by simp
      then have dec: "budget - (scanned + length ?page) < budget - scanned" using True by linarith
      have ids1: "distinct (map ob_id (outbox d1))"
        using s1 less.prems(1) pass_step_ids by metis
      from less.hyps[OF dec ids1 less.prems(2) n1 rec] s1 less.prems(2) show ?thesis
        using pass_step_trans[of owner now "now + leaseMs" d d1 d'] by simp
    qed
  qed
qed

interpretation outbox_rows: row_lease ob_id availableForDispatch outbox_grant ob_leaseUntil
  outbox "\<lambda>rows d. d\<lparr>outbox := rows\<rparr>"
  by unfold_locales (auto simp: outbox_grant_def availableForDispatch_def)

lemma claim_outbox_rows:
  "claim_outbox = (\<lambda>i owner now leaseUntil d.
     case claim_rows ob_id (availableForDispatch now) (outbox_grant owner now leaseUntil) i (outbox d) of
       (ok, rows) \<Rightarrow> (ok, d\<lparr>outbox := rows\<rparr>))"
  by (intro ext) (simp add: claim_outbox_def update_available_def)

interpretation outbox_claim: lease_store claim_outbox
  "\<lambda>d i. Option.bind (find (\<lambda>r. ob_id r = i) (outbox d)) ob_leaseUntil"
  "\<lambda>d. distinct (map ob_id (outbox d))"
  unfolding claim_outbox_rows by (rule outbox_rows.rows.lease_store_axioms)

lemma dispatch_outbox_pass:
  assumes "distinct (map ob_id (outbox d))" "0 \<le> leaseMs"
    "dispatch_outbox port owner leaseMs now limit d q = (n, d', q')"
  shows "pass_step owner now (now + leaseMs) d d' \<and> int n \<le> max 0 limit"
proof (cases "safe_integer limit \<and> 0 < limit")
  case True
  with assms(3) have "dispatch_scan port owner leaseMs now (nat limit)
      (nat (max limit (min MAX_DISPATCH_SCAN (limit * DISPATCH_SCAN_MULTIPLIER)))) 0 0 d q = (n, d', q')"
    by (simp add: dispatch_outbox_def Let_def)
  from dispatch_scan_pass[OF assms(1,2) _ this]
  have "pass_step owner now (now + leaseMs) d d'" "n \<le> nat limit" by simp_all
  moreover have "int (nat limit) = limit" using True by simp
  ultimately show ?thesis using True by linarith
next
  case False
  with assms(3) have "n = 0" "d' = d" by (auto simp: dispatch_outbox_def split: if_splits)
  then show ?thesis by simp
qed

section \<open>Properties\<close>

text \<open>One dispatch pass, however many pages it scans, moves each outbox row at most once and
only if it was available: the row is deferred, canceled with a reason, enqueued under the
new lease, or released after a queue failure; nothing else in the database changes and at
most the limit is reported as dispatched.\<close>

theorem outbox_dispatch_outcome:
  assumes "distinct (map ob_id (outbox d))" "0 \<le> leaseMs"
    "dispatch_outbox port owner leaseMs now limit d q = (n, d', q')"
  shows "d' = d\<lparr>outbox := outbox d'\<rparr> \<and>
    list_all2 (dispatch_moved owner now (now + leaseMs) d) (outbox d) (outbox d') \<and>
    int n \<le> max 0 limit"
  using dispatch_outbox_pass[OF assms] by (simp add: pass_step_def)

definition example_outbox :: "id \<Rightarrow> NotificationEventType \<Rightarrow> NotificationOutboxStatus \<Rightarrow> NotificationOutbox" where
  "example_outbox i ev st =
     \<lparr>ob_id = i, ob_monitorId = Some (js ''m1''), ob_incidentId = Some (js ''i1''),
      ob_channelId = js ''t1'', ob_eventType = ev, ob_sequence = notificationSequence ev,
      ob_dedupeKey = i, ob_payloadSafe = JNull, ob_channelTypeSnapshot = js ''TELEGRAM'',
      ob_channelDisplayNameSnapshot = js ''ops'', ob_encryptedConfigSnapshot = [7],
      ob_status = st, ob_availableAt = 1000, ob_leaseOwner = None, ob_leaseUntil = None,
      ob_queueJobId = None, ob_messageId = i, ob_attemptCount = 0, ob_maxAttempts = 3,
      ob_lastErrorSafe = None, ob_enqueuedAt = None, ob_processingAt = None, ob_sentAt = None,
      ob_failedAt = None, ob_canceledAt = None, ob_createdAt = 1000\<rparr>"

definition example_channel :: NotificationChannel where
  "example_channel = \<lparr>ch_id = js ''t1'', ch_type = js ''TELEGRAM'', ch_displayName = js ''ops'',
     ch_encryptedConfig = [7], ch_verifiedAt = None, ch_enabled = True, ch_createdAt = 0,
     ch_deletedAt = None\<rparr>"

definition outbox_db :: "NotificationOutboxStatus \<Rightarrow> db" where
  "outbox_db st = empty_db\<lparr>channels := [example_channel],
     outbox := [example_outbox (js ''d'') NotificationEventType.DOWN st,
                example_outbox (js ''r'') RECOVERY NotificationOutboxStatus.PENDING]\<rparr>"

definition counting_queue :: "(NotificationJobData, nat) queue_port" where
  "counting_queue = \<lparr>job_state = (\<lambda>_ _. Some None), job_remove = (\<lambda>_ q. (True, q)),
     job_add = (\<lambda>_ _ q. (True, q + 1))\<rparr>"

lemma outbox_db_distinct: "distinct (map ob_id (outbox (outbox_db st)))"
  by (simp add: outbox_db_def example_outbox_def js_inj)

lemma example_dispatch:
  "\<exists>d'. dispatch_outbox counting_queue (js ''w'') 500 2000 1 (outbox_db SENT) 0 = (1, d', 1) \<and>
     map ob_status (outbox d') = [SENT, NotificationOutboxStatus.ENQUEUED]"
proof -
  have ids: "(js ''r'' = js ''d'') = False" "(js ''d'' = js ''r'') = False" by (simp_all add: js_inj)
  have page: "dispatch_page 2000 (Suc 0) (outbox_db SENT)
      = [(example_outbox (js ''r'') RECOVERY NotificationOutboxStatus.PENDING, True)]"
    by (simp add: dispatch_page_def outbox_db_def availableForDispatch_def example_outbox_def
        channel_live_def example_channel_def find_by_def)
  have "\<exists>d'. process_candidate counting_queue (js ''w'') 500 2000
      (example_outbox (js ''r'') RECOVERY NotificationOutboxStatus.PENDING, True)
      (False, 0, outbox_db SENT, 0) = (True, 1, d', 1) \<and>
      map ob_status (outbox d') = [SENT, NotificationOutboxStatus.ENQUEUED]"
    by (simp add: process_candidate_def recovery_of_def example_outbox_def down_status_def outbox_db_def
        js_def recoveryPrerequisiteStatus_def Let_def dispatch_row_def claim_outbox_def
        update_available_def claim_rows_def availableForDispatch_def outbox_grant_def
        ensureNotificationJob_def counting_queue_def mark_enqueued_outbox_def owned_retry_def)
  then show ?thesis
    by (auto simp: dispatch_outbox_def safe_integer_def MAX_DISPATCH_SCAN_def
        DISPATCH_SCAN_MULTIPLIER_def dispatch_scan.simps[of _ _ _ _ "Suc 0"] page Let_def)
qed

theorem outbox_dispatch_outcome_witness:
  "\<exists>d'. dispatch_outbox counting_queue (js ''w'') 500 2000 1 (outbox_db SENT) 0 = (1, d', 1) \<and>
     list_all2 (dispatch_moved (js ''w'') 2000 2500 (outbox_db SENT)) (outbox (outbox_db SENT)) (outbox d')"
proof -
  obtain d' where d': "dispatch_outbox counting_queue (js ''w'') 500 2000 1 (outbox_db SENT) 0 = (1, d', 1)"
    using example_dispatch by blast
  from outbox_dispatch_outcome[OF outbox_db_distinct _ d'] d' show ?thesis by simp
qed

text \<open>C29. A recovery never overtakes its outage: a RECOVERY row becomes enqueued in a pass only if
the DOWN row of the same incident and channel was already SENT before the pass.\<close>

theorem recovery_waits_for_down:
  assumes "distinct (map ob_id (outbox d))" "0 \<le> leaseMs"
    "dispatch_outbox port owner leaseMs now limit d q = (n, d', q')"
    "k < length (outbox d)" "outbox d' ! k \<noteq> outbox d ! k"
    "ob_status (outbox d' ! k) = NotificationOutboxStatus.ENQUEUED"
    "ob_status (outbox d ! k) \<noteq> NotificationOutboxStatus.ENQUEUED"
    "recovery_of (outbox d ! k) = Some incidentId"
  shows "down_status d incidentId (ob_channelId (outbox d ! k)) = Some SENT"
proof -
  have "list_all2 (dispatch_moved owner now (now + leaseMs) d) (outbox d) (outbox d')"
    using dispatch_outbox_pass[OF assms(1-3)] by (simp add: pass_step_def)
  then have "dispatch_moved owner now (now + leaseMs) d (outbox d ! k) (outbox d' ! k)"
    using assms(4) by (simp add: list_all2_conv_all_nth)
  with assms(5-8) show ?thesis
    unfolding dispatch_moved_def by (auto simp: may_send_def)
qed

theorem recovery_waits_for_down_witness:
  "\<exists>d'. dispatch_outbox counting_queue (js ''w'') 500 2000 1 (outbox_db SENT) 0 = (1, d', 1) \<and>
     ob_status (outbox d' ! 1) = NotificationOutboxStatus.ENQUEUED \<and>
     down_status (outbox_db SENT) (js ''i1'') (js ''t1'') = Some SENT"
proof -
  obtain d' where d': "dispatch_outbox counting_queue (js ''w'') 500 2000 1 (outbox_db SENT) 0 = (1, d', 1)"
    "map ob_status (outbox d') = [SENT, NotificationOutboxStatus.ENQUEUED]"
    using example_dispatch by (elim exE conjE) (rule that)
  let ?r = "example_outbox (js ''r'') RECOVERY NotificationOutboxStatus.PENDING"
  have r: "outbox (outbox_db SENT) ! 1 = ?r" "1 < length (outbox (outbox_db SENT))"
    by (simp_all add: outbox_db_def)
  have len: "length (outbox d') = 2" using arg_cong[OF d'(2), of length] by simp
  have "map ob_status (outbox d') ! 1 = NotificationOutboxStatus.ENQUEUED" unfolding d'(2) by simp
  then have st: "ob_status (outbox d' ! 1) = NotificationOutboxStatus.ENQUEUED" using len by simp
  have r0: "ob_status ?r = NotificationOutboxStatus.PENDING" "ob_channelId ?r = js ''t1''"
    "recovery_of ?r = Some (js ''i1'')"
    by (simp_all add: example_outbox_def recovery_of_def)
  have changed: "outbox d' ! 1 \<noteq> outbox (outbox_db SENT) ! 1"
  proof
    assume "outbox d' ! 1 = outbox (outbox_db SENT) ! 1"
    then have "ob_status (outbox d' ! 1) = ob_status ?r" unfolding r(1) by (rule arg_cong)
    then show False unfolding st r0(1) by simp
  qed
  have "down_status (outbox_db SENT) (js ''i1'') (ob_channelId (outbox (outbox_db SENT) ! 1)) = Some SENT"
  proof (rule recovery_waits_for_down[OF outbox_db_distinct _ d'(1) r(2) changed st])
    show "ob_status (outbox (outbox_db SENT) ! 1) \<noteq> NotificationOutboxStatus.ENQUEUED"
      unfolding r(1) r0(1) by simp
    show "recovery_of (outbox (outbox_db SENT) ! 1) = Some (js ''i1'')"
      unfolding r(1) r0(3) by (rule refl)
  qed simp
  then have "down_status (outbox_db SENT) (js ''i1'') (js ''t1'') = Some SENT"
    by (simp only: r(1) r0(2))
  with d'(1) st show ?thesis by blast
qed

text \<open>The dispatch leases granted on one outbox row by any dispatchers never overlap.\<close>

theorem outbox_leases_disjoint:
  assumes "distinct (map ob_id (outbox d))" "\<forall>c \<in> set cs. cl_now c \<le> cl_until c"
  shows "sorted_wrt (\<lambda>g h. cl_id g = cl_id h \<longrightarrow> cl_until g < cl_now h) (run_claims claim_outbox cs d)"
  using assms by (rule outbox_claim.leases_disjoint)

theorem outbox_leases_disjoint_witness:
  "let claim = (\<lambda>t. \<lparr>cl_id = js ''d'', cl_owner = js ''w'', cl_now = t, cl_until = t + 500\<rparr>);
       granted = run_claims claim_outbox [claim 2000, claim 2400, claim 2501]
         (outbox_db NotificationOutboxStatus.PENDING)
   in map cl_now granted = [2000, 2501] \<and>
      sorted_wrt (\<lambda>g h. cl_id g = cl_id h \<longrightarrow> cl_until g < cl_now h) granted"
proof -
  let ?c = "\<lambda>t. \<lparr>cl_id = js ''d'', cl_owner = js ''w'', cl_now = t, cl_until = t + 500\<rparr>"
  let ?cs = "[?c 2000, ?c 2400, ?c 2501]"
  have "(js ''r'' = js ''d'') = False" by (simp add: js_inj)
  then have "map cl_now (run_claims claim_outbox ?cs (outbox_db NotificationOutboxStatus.PENDING)) = [2000, 2501]"
    by (simp add: claim_outbox_def update_available_def claim_rows_def availableForDispatch_def
        outbox_grant_def outbox_db_def example_outbox_def)
  with outbox_leases_disjoint[OF outbox_db_distinct, of ?cs] show ?thesis
    by (simp only: Let_def) simp
qed

end
