(* ===== verification/Web_Url.thy ===== *)
theory Web_Url
  imports Prelude
begin

text \<open>
  Web addresses as the runtime's URL parser returns them. The parser itself is a parameter of
  the components that use it; writing a parsed address back is the serialisation of http and
  https addresses, with the user information only when there is any. As in the members \<open>search\<close> and
  \<open>hash\<close> of the runtime, a lone question mark or number sign is not told apart from none.
\<close>

record Url =
  u_protocol :: jstring
  u_username :: jstring
  u_password :: jstring
  u_hostname :: jstring
  u_port :: jstring
  u_pathname :: jstring
  u_search :: jstring
  u_hash :: jstring

definition u_host :: "Url \<Rightarrow> jstring" where
  "u_host u = u_hostname u @ (if u_port u = [] then [] else js '':'' @ u_port u)"

definition url_toString :: "Url \<Rightarrow> jstring" where
  "url_toString u =
     u_protocol u @ js ''//'' @
     (if u_username u = [] \<and> u_password u = [] then []
      else u_username u @ (if u_password u = [] then [] else js '':'' @ u_password u) @ js ''@'') @
     u_host u @ u_pathname u @ u_search u @ u_hash u"

definition web_protocol :: "jstring \<Rightarrow> bool" where
  "web_protocol p \<longleftrightarrow> p = js ''http:'' \<or> p = js ''https:''"

text \<open>An address without credentials, query and fragment.\<close>

definition bare_url :: "Url \<Rightarrow> Url" where
  "bare_url u = u\<lparr>u_username := [], u_password := [], u_search := [], u_hash := []\<rparr>"

lemma bare_url_toString:
  "url_toString (bare_url u) = u_protocol u @ js ''//'' @ u_host u @ u_pathname u"
  by (simp add: bare_url_def url_toString_def u_host_def)

text \<open>Two parse results that differ in credentials, query and fragment at most.\<close>

definition same_page :: "Url option \<Rightarrow> Url option \<Rightarrow> bool" where
  "same_page a b \<longleftrightarrow>
     (case (a, b) of (None, None) \<Rightarrow> True
      | (Some u, Some v) \<Rightarrow> u_protocol u = u_protocol v \<and> u_host u = u_host v \<and> u_pathname u = u_pathname v
      | _ \<Rightarrow> False)"

section \<open>Splitting and lower case\<close>

fun split_units :: "16 word \<Rightarrow> jstring \<Rightarrow> jstring list" where
  "split_units sep [] = [[]]"
| "split_units sep (c # cs) =
     (if c = sep then [] # split_units sep cs
      else (case split_units sep cs of [] \<Rightarrow> [[c]] | w # ws \<Rightarrow> (c # w) # ws))"

definition ascii_lower :: "jstring \<Rightarrow> jstring" where
  "ascii_lower s = map (\<lambda>c. if 65 \<le> c \<and> c \<le> 90 then c + 32 else c) s"

lemma split_units_nonempty [simp]: "split_units sep s \<noteq> []"
  by (induction s) (auto split: list.splits)

lemma split_units_none: "sep \<notin> set s \<Longrightarrow> split_units sep s = [s]"
  by (induction s) auto

lemma split_units_append:
  "sep \<notin> set xs \<Longrightarrow> split_units sep (xs @ sep # ys) = xs # split_units sep ys"
  by (induction xs) auto

end
