(* ===== verification/Telegram_Adapter.thy ===== *)
theory Telegram_Adapter
  imports Secret_Lifecycle Web_Url
begin

text \<open>
  The text of a notification, \<open>packages/notifications/src/message.ts\<close>, and the Telegram adapter
  that sends it, \<open>telegram.ts\<close> and \<open>provider-error.ts\<close> of the same package. The URL parser, the
  date parser and formatter, the number parser, JSON decoding and the HTTP exchange are
  parameters; the sanitising of what they return is the code's.
\<close>

section \<open>Cleaning text\<close>

definition MAX_NAME_LENGTH :: nat where "MAX_NAME_LENGTH = 160"
definition MAX_SAFE_MESSAGE_LENGTH :: nat where "MAX_SAFE_MESSAGE_LENGTH = 500"
definition MAX_TELEGRAM_LENGTH :: nat where "MAX_TELEGRAM_LENGTH = 4096"

definition control_unit :: "16 word \<Rightarrow> bool" where
  "control_unit c \<longleftrightarrow> c \<le> 8 \<or> c = 0xB \<or> c = 0xC \<or> (0xE \<le> c \<and> c \<le> 0x1F) \<or> c = 0x7F"

definition line_unit :: "16 word \<Rightarrow> bool" where
  "line_unit c \<longleftrightarrow> c = 13 \<or> c = 10 \<or> c = 9"

text \<open>\<open>s.replace(/p{k,}/g, ' ')\<close>: every maximal run of at least \<open>k\<close> units in the class becomes a blank.\<close>

function replace_runs :: "(16 word \<Rightarrow> bool) \<Rightarrow> nat \<Rightarrow> jstring \<Rightarrow> jstring" where
  "replace_runs p k [] = []"
| "replace_runs p k (c # cs) =
     (if p c
      then (let run = takeWhile p (c # cs) in (if k \<le> length run then [0x20] else run)) @
           replace_runs p k (dropWhile p cs)
      else c # replace_runs p k cs)"
  by pat_completeness auto
termination
  by (relation "measure (\<lambda>(p, k, s). length s)") (auto simp: le_imp_less_Suc length_dropWhile_le)

definition cleanText :: "jstring option \<Rightarrow> nat \<Rightarrow> jstring" where
  "cleanText value maxLength =
     (case value of None \<Rightarrow> []
      | Some s \<Rightarrow>
        slice_to maxLength (js_trim (replace_runs js_whitespace 2 (replace_runs line_unit 1
          (map (\<lambda>c. if control_unit c then 0x20 else c) s)))))"

section \<open>Display addresses\<close>

definition stripped_url :: "Url \<Rightarrow> jstring" where
  "stripped_url u = slice_to 2000 (url_toString (bare_url u))"

definition sanitizeDisplayUrl :: "(jstring \<Rightarrow> Url option) \<Rightarrow> jstring option \<Rightarrow> jstring" where
  "sanitizeDisplayUrl new_URL value =
     (case Option.bind value new_URL of None \<Rightarrow> hidden_url
      | Some u \<Rightarrow> if \<not> web_protocol (u_protocol u) then hidden_url else stripped_url u)"

definition safeDashboardUrl :: "(jstring \<Rightarrow> Url option) \<Rightarrow> jstring option \<Rightarrow> jstring option" where
  "safeDashboardUrl new_URL value =
     (case Option.bind value new_URL of None \<Rightarrow> None
      | Some u \<Rightarrow> if \<not> web_protocol (u_protocol u) then None else Some (stripped_url u))"

section \<open>Labels, dates and durations\<close>

fun eventLabel :: "NotificationEventType \<Rightarrow> jstring" where
  "eventLabel NETWORK_RECOVERY = [0xAC10, 0xC2DC, 0x20, 0x50, 0x43, 0x20, 0xC678, 0xBD80, 0x20, 0xC5F0, 0xACB0, 0x20,
      0xBCF5, 0xAD6C]"
| "eventLabel NotificationEventType.DOWN = [0xC7A5, 0xC560, 0x20, 0xBC1C, 0xC0DD]"
| "eventLabel RECOVERY = [0xBCF5, 0xAD6C, 0x20, 0xC644, 0xB8CC]"
| "eventLabel RESOLVED_SUMMARY = [0xC7A5, 0xC560, 0x20, 0xBC0F, 0x20, 0xBCF5, 0xAD6C, 0x20, 0xC694, 0xC57D]"
| "eventLabel TEST = [0xC2DC, 0xD5D8, 0x20, 0xC54C, 0xB9BC]"

text \<open>The parts the formatter of the runtime prints for a valid date in Seoul.\<close>

record DateParts =
  dp_year :: jstring
  dp_month :: jstring
  dp_day :: jstring
  dp_hour :: jstring
  dp_minute :: jstring
  dp_second :: jstring

record text_env =
  te_new_URL :: "jstring \<Rightarrow> Url option"
  te_new_Date :: "jstring \<Rightarrow> js_date"
  te_parts :: "time \<Rightarrow> DateParts"

definition formatDate :: "text_env \<Rightarrow> jstring \<Rightarrow> jstring" where
  "formatDate env value =
     (case te_new_Date env value of None \<Rightarrow> [0xD655, 0xC778, 0x20, 0xBD88, 0xAC00]
      | Some t \<Rightarrow>
        (let p = te_parts env t
         in dp_year p @ js ''-'' @ dp_month p @ js ''-'' @ dp_day p @ js '' '' @ dp_hour p @ js '':'' @
            dp_minute p @ js '':'' @ dp_second p @ js '' (KST)''))"

definition formatDuration :: "int option \<Rightarrow> jstring option" where
  "formatDuration durationMs =
     (case durationMs of None \<Rightarrow> None
      | Some ms \<Rightarrow>
        if ms < 0 then None
        else
         (let seconds = (ms + 500) div 1000 in
          if seconds < 60 then Some (js_number seconds @ [0xCD08])
          else
           (let minutes = seconds div 60; remainingSeconds = seconds mod 60 in
            if minutes < 60
            then Some (js_number minutes @ [0xBD84, 0x20] @ js_number remainingSeconds @ [0xCD08])
            else
             (let hours = minutes div 60
              in Some (js_number hours @ [0xC2DC, 0xAC04, 0x20] @ js_number (minutes mod 60) @ [0xBD84])))))"

section \<open>The message\<close>

definition truncation_notice :: jstring where
  "truncation_notice = 10 # [0x2026, 0x20, 0xB0B4, 0xC6A9, 0xC774, 0x20, 0xAE38, 0xC5B4, 0x20, 0xAD00, 0xB9AC, 0x20,
      0xD654, 0xBA74, 0xC5D0, 0xC11C, 0x20, 0xD655, 0xC778, 0xD574, 0x20, 0xC8FC, 0xC138,
      0xC694, 0x2E]"

definition truncateTelegram :: "jstring \<Rightarrow> jstring" where
  "truncateTelegram text =
     (if length text \<le> MAX_TELEGRAM_LENGTH then text
      else slice_to (MAX_TELEGRAM_LENGTH - 2000) text @ truncation_notice)"

definition message_rows :: "text_env \<Rightarrow> SafeNotificationPayload \<Rightarrow> (jstring \<times> jstring) list" where
  "message_rows env p =
     (let network = (sp_eventType p = NETWORK_RECOVERY);
          cleanName = cleanText (Some (sp_monitorName p)) MAX_NAME_LENGTH;
          monitorName = (if cleanName = [] then unnamed_monitor else cleanName);
          errorType = cleanText (sp_errorType p) 80;
          errorMessage = cleanText (sp_errorMessageSafe p) MAX_SAFE_MESSAGE_LENGTH
      in [(if network then [0xAC10, 0xC2DC, 0x20, 0x50, 0x43] else [0xBAA8, 0xB2C8, 0xD130], monitorName),
          ([0xB300, 0xC0C1], sanitizeDisplayUrl (te_new_URL env) (Some (sp_displayUrl p))),
          ([0xC2DC, 0xAC01], formatDate env (sp_occurredAt p))] @
         (case sp_networkStartedAt p of None \<Rightarrow> []
          | Some s \<Rightarrow> if network \<and> s \<noteq> [] then [([0xC5F0, 0xACB0, 0x20, 0xC774, 0xC0C1, 0x20, 0xAC10, 0xC9C0], formatDate env s)] else []) @
         (if errorType \<noteq> [] then [([0xC624, 0xB958, 0x20, 0xC720, 0xD615], errorType)] else []) @
         (if errorMessage \<noteq> [] then [([0xC124, 0xBA85], errorMessage)] else []) @
         (case sp_statusCode p of None \<Rightarrow> [] | Some n \<Rightarrow> [([0x48, 0x54, 0x54, 0x50, 0x20, 0xC0C1, 0xD0DC], js_number n)]) @
         (case sp_ttfbMs p of None \<Rightarrow> [] | Some n \<Rightarrow> [([0xC751, 0xB2F5, 0x20, 0xC2DC, 0xAC04], js_number (max 0 n) @ js ''ms'')]) @
         (case formatDuration (sp_durationMs p) of None \<Rightarrow> []
          | Some x \<Rightarrow> [(if network then [0xC5F0, 0xACB0, 0x20, 0xD655, 0xC778, 0x20, 0xBD88, 0xAC00, 0x20, 0xC2DC, 0xAC04] else [0xC7A5, 0xC560, 0x20, 0xC9C0, 0xC18D], x)]))"

fun join_lines :: "jstring list \<Rightarrow> jstring" where
  "join_lines [] = []"
| "join_lines [x] = x"
| "join_lines (x # xs) = x @ [10] @ join_lines xs"

definition text_lines :: "text_env \<Rightarrow> SafeNotificationPayload \<Rightarrow> jstring list" where
  "text_lines env p =
     [js ''LinkAlive '' @ eventLabel (sp_eventType p), []] @
     map (\<lambda>(key, value). key @ js '': '' @ value) (message_rows env p) @
     (case safeDashboardUrl (te_new_URL env) (sp_dashboardUrl p) of None \<Rightarrow> []
      | Some u \<Rightarrow> if u = [] then [] else [[], [0xAD00, 0xB9AC, 0x20, 0xD654, 0xBA74, 0x3A, 0x20] @ u])"

definition renderNotification :: "text_env \<Rightarrow> SafeNotificationPayload \<Rightarrow> jstring" where
  "renderNotification env p = truncateTelegram (join_lines (text_lines env p))"

section \<open>Provider errors\<close>

record NotificationProviderError =
  pe_code :: jstring
  pe_retryable :: bool
  pe_deliveryUncertain :: bool
  pe_safeMessage :: jstring
  pe_retryAfterMs :: "int option"

definition provider_error :: "string \<Rightarrow> bool \<Rightarrow> bool \<Rightarrow> jstring \<Rightarrow> NotificationProviderError" where
  "provider_error code retryable uncertain message =
     \<lparr>pe_code = js code, pe_retryable = retryable, pe_deliveryUncertain = uncertain,
      pe_safeMessage = message, pe_retryAfterMs = None\<rparr>"

section \<open>Destinations\<close>

record TelegramDestination =
  td_botToken :: jstring
  td_chatId :: jstring

definition digit_unit :: "16 word \<Rightarrow> bool" where
  "digit_unit c \<longleftrightarrow> 48 \<le> c \<and> c \<le> 57"

definition letter_unit :: "16 word \<Rightarrow> bool" where
  "letter_unit c \<longleftrightarrow> (65 \<le> c \<and> c \<le> 90) \<or> (97 \<le> c \<and> c \<le> 122)"

definition name_unit :: "16 word \<Rightarrow> bool" where
  "name_unit c \<longleftrightarrow> letter_unit c \<or> digit_unit c \<or> c = 95"

text \<open>\<open>/^\d{6,12}:[A-Za-z0-9_-]{20,}$/\<close>: the colon is the first unit that is not a digit.\<close>

definition valid_token :: "jstring \<Rightarrow> bool" where
  "valid_token s =
     (let digits = takeWhile digit_unit s; rest = dropWhile digit_unit s
      in 6 \<le> length digits \<and> length digits \<le> 12 \<and> rest \<noteq> [] \<and> hd rest = 58 \<and>
         20 \<le> length (tl rest) \<and> list_all (\<lambda>c. name_unit c \<or> c = 45) (tl rest))"

text \<open>\<open>/^-?\d{1,20}$|^@[A-Za-z][A-Za-z0-9_]{4,31}$/\<close>\<close>

definition valid_chat_number :: "jstring \<Rightarrow> bool" where
  "valid_chat_number s =
     (let digits = (case s of [] \<Rightarrow> [] | c # cs \<Rightarrow> if c = 45 then cs else s)
      in 1 \<le> length digits \<and> length digits \<le> 20 \<and> list_all digit_unit digits)"

definition valid_chat_name :: "jstring \<Rightarrow> bool" where
  "valid_chat_name s =
     (case s of a # b # cs \<Rightarrow> a = 64 \<and> letter_unit b \<and> 4 \<le> length cs \<and> length cs \<le> 31 \<and>
                             list_all name_unit cs
      | _ \<Rightarrow> False)"

definition validateDestination :: "TelegramDestination \<Rightarrow> NotificationProviderError option" where
  "validateDestination dest =
     (if \<not> valid_token (td_botToken dest)
      then Some (provider_error ''INVALID_TELEGRAM_CONFIG'' False False
                   [0x54, 0x65, 0x6C, 0x65, 0x67, 0x72, 0x61, 0x6D, 0x20, 0x62, 0x6F, 0x74, 0x20, 0xC124,
      0xC815, 0xC774, 0x20, 0xC62C, 0xBC14, 0xB974, 0xC9C0, 0x20, 0xC54A, 0xC2B5, 0xB2C8,
      0xB2E4, 0x2E])
      else if \<not> (valid_chat_number (td_chatId dest) \<or> valid_chat_name (td_chatId dest))
      then Some (provider_error ''INVALID_TELEGRAM_DESTINATION'' False False
                   [0x54, 0x65, 0x6C, 0x65, 0x67, 0x72, 0x61, 0x6D, 0x20, 0xCC44, 0xD305, 0x20, 0xB300,
      0xC0C1, 0xC774, 0x20, 0xC62C, 0xBC14, 0xB974, 0xC9C0, 0x20, 0xC54A, 0xC2B5, 0xB2C8,
      0xB2E4, 0x2E])
      else None)"

section \<open>The HTTP exchange\<close>

definition MAX_RETRY_AFTER_MS :: int where "MAX_RETRY_AFTER_MS = 15 * 60000"
definition MAX_TELEGRAM_ERROR_BODY_BYTES :: nat where "MAX_TELEGRAM_ERROR_BODY_BYTES = 64 * 1024"

text \<open>
  A response: its status, the two headers the adapter reads, the chunks of its body (\<open>None\<close>
  when there is no body) with whether reading them ends in an error, and what \<open>json()\<close> gives
  (\<open>None\<close> when it throws). A request that throws says whether it was aborted by the timeout.
\<close>

record http_response =
  rp_status :: int
  rp_contentLength :: "jstring option"
  rp_retryAfter :: "jstring option"
  rp_chunks :: "8 word list list option"
  rp_readFails :: bool
  rp_json :: "json option"

datatype fetch_result = FetchThrew bool | Responded http_response

text \<open>\<open>Number(text)\<close> and \<open>JSON.parse\<close> of decoded bytes; \<open>None\<close> is not finite or a throw.\<close>

record parse_env =
  pv_number :: "jstring \<Rightarrow> rat option"
  pv_json :: "8 word list \<Rightarrow> json option"

fun retry_seconds :: "parse_env \<Rightarrow> json option \<Rightarrow> rat option" where
  "retry_seconds env (Some (JNum n)) = Some (of_int n)"
| "retry_seconds env (Some (JStr s)) = (if js_trim s = [] then None else pv_number env s)"
| "retry_seconds env _ = None"

definition parseRetryAfterMs :: "parse_env \<Rightarrow> json option \<Rightarrow> int option" where
  "parseRetryAfterMs env value =
     (case retry_seconds env value of None \<Rightarrow> None
      | Some seconds \<Rightarrow>
        if seconds < 0 then None else Some (min MAX_RETRY_AFTER_MS \<lceil>seconds * 1000\<rceil>))"

fun read_chunks :: "8 word list list \<Rightarrow> nat \<Rightarrow> 8 word list option" where
  "read_chunks [] bytesRead = Some []"
| "read_chunks (v # vs) bytesRead =
     (if MAX_TELEGRAM_ERROR_BODY_BYTES < bytesRead + length v then None
      else map_option ((@) v) (read_chunks vs (bytesRead + length v)))"

definition declared_too_long :: "parse_env \<Rightarrow> http_response \<Rightarrow> bool" where
  "declared_too_long env r \<longleftrightarrow>
     (case Option.bind (rp_contentLength r) (pv_number env) of None \<Rightarrow> False
      | Some n \<Rightarrow> of_nat MAX_TELEGRAM_ERROR_BODY_BYTES < n)"

definition readBoundedTelegramError :: "parse_env \<Rightarrow> http_response \<Rightarrow> json option" where
  "readBoundedTelegramError env r =
     (if declared_too_long env r then None
      else case rp_chunks r of None \<Rightarrow> None
        | Some chunks \<Rightarrow>
          (case read_chunks chunks 0 of None \<Rightarrow> None
           | Some bytes \<Rightarrow> if rp_readFails r then None else pv_json env bytes))"

definition retry_after :: "parse_env \<Rightarrow> http_response \<Rightarrow> int option" where
  "retry_after env r =
     (let fromHeader = parseRetryAfterMs env (map_option JStr (rp_retryAfter r))
      in if rp_status r = 429 \<and> fromHeader = None
         then (case readBoundedTelegramError env r of
                 Some (JObj kvs) \<Rightarrow>
                   (case jget (JObj kvs) (js ''parameters'') of
                      Some (JObj ps) \<Rightarrow> parseRetryAfterMs env (jget (JObj ps) (js ''retry_after''))
                    | _ \<Rightarrow> None)
               | _ \<Rightarrow> None)
         else fromHeader)"

definition unconfirmed_message :: jstring where
  "unconfirmed_message = [0x54, 0x65, 0x6C, 0x65, 0x67, 0x72, 0x61, 0x6D, 0x20, 0xC751, 0xB2F5, 0xC744, 0x20,
      0xD655, 0xC778, 0xD558, 0xC9C0, 0x20, 0xBABB, 0xD574, 0x20, 0xC804, 0xB2EC, 0x20,
      0xC5EC, 0xBD80, 0xAC00, 0x20, 0xBD88, 0xD655, 0xC2E4, 0xD569, 0xB2C8, 0xB2E4, 0x2E]"

definition fetch_error :: "bool \<Rightarrow> NotificationProviderError" where
  "fetch_error timedOut =
     (if timedOut then provider_error ''TELEGRAM_TIMEOUT'' True True unconfirmed_message
      else provider_error ''TELEGRAM_NETWORK_ERROR'' True False
             [0x54, 0x65, 0x6C, 0x65, 0x67, 0x72, 0x61, 0x6D, 0x20, 0xC81C, 0xACF5, 0xC790, 0xC640,
      0x20, 0xD1B5, 0xC2E0, 0xD558, 0xC9C0, 0x20, 0xBABB, 0xD588, 0xC2B5, 0xB2C8, 0xB2E4, 0x2E])"

definition http_error :: "parse_env \<Rightarrow> http_response \<Rightarrow> NotificationProviderError" where
  "http_error env r =
     (let retryable = (rp_status r = 429 \<or> 500 \<le> rp_status r)
      in \<lparr>pe_code = js ''TELEGRAM_HTTP_'' @ js_number (rp_status r), pe_retryable = retryable,
          pe_deliveryUncertain = False,
          pe_safeMessage =
            (if retryable then [0x54, 0x65, 0x6C, 0x65, 0x67, 0x72, 0x61, 0x6D, 0x20, 0xC81C, 0xACF5, 0xC790, 0xAC00,
      0x20, 0xC77C, 0xC2DC, 0xC801, 0xC73C, 0xB85C, 0x20, 0xC694, 0xCCAD, 0xC744, 0x20,
      0xCC98, 0xB9AC, 0xD558, 0xC9C0, 0x20, 0xBABB, 0xD588, 0xC2B5, 0xB2C8, 0xB2E4, 0x2E]
             else [0x54, 0x65, 0x6C, 0x65, 0x67, 0x72, 0x61, 0x6D, 0x20, 0xC81C, 0xACF5, 0xC790, 0xAC00,
      0x20, 0xBA54, 0xC2DC, 0xC9C0, 0xB97C, 0x20, 0xAC70, 0xC808, 0xD588, 0xC2B5, 0xB2C8,
      0xB2E4, 0x2E]),
          pe_retryAfterMs = retry_after env r\<rparr>)"

text \<open>The provider's identifier in an accepted response; \<open>None\<close> outside is a throw.\<close>

definition accepted_message_id :: "http_response \<Rightarrow> jstring option option" where
  "accepted_message_id r =
     (case rp_json r of None \<Rightarrow> None
      | Some body \<Rightarrow>
        if jget body (js ''ok'') \<noteq> Some (JBool True) then None
        else Some (case Option.bind (jget body (js ''result'')) (\<lambda>x. jget x (js ''message_id'')) of
                     Some (JNum n) \<Rightarrow> Some (js_number n)
                   | Some (JStr s) \<Rightarrow> Some s
                   | _ \<Rightarrow> None))"

definition response_ok :: "http_response \<Rightarrow> bool" where
  "response_ok r \<longleftrightarrow> 200 \<le> rp_status r \<and> rp_status r \<le> 299"

text \<open>\<open>fetch\<close> posts a text to a chat of a bot.\<close>

definition send ::
  "text_env \<Rightarrow> parse_env \<Rightarrow> (jstring \<Rightarrow> jstring \<Rightarrow> jstring \<Rightarrow> fetch_result) \<Rightarrow> SafeNotificationPayload \<Rightarrow>
   TelegramDestination \<Rightarrow> NotificationProviderError + jstring option" where
  "send tenv penv fetch payload dest =
     (case validateDestination dest of Some e \<Rightarrow> Inl e
      | None \<Rightarrow>
        (case fetch (td_botToken dest) (td_chatId dest) (renderNotification tenv payload) of
           FetchThrew timedOut \<Rightarrow> Inl (fetch_error timedOut)
         | Responded r \<Rightarrow>
           if \<not> response_ok r then Inl (http_error penv r)
           else (case accepted_message_id r of
                   None \<Rightarrow> Inl (provider_error ''TELEGRAM_INVALID_RESPONSE'' True True unconfirmed_message)
                 | Some i \<Rightarrow> Inr i)))"

section \<open>Lemmas\<close>

lemma replace_runs_set: "set (replace_runs p k s) \<subseteq> set s \<union> {0x20}"
  by (induction p k s rule: replace_runs.induct)
    (auto simp: Let_def dest: set_takeWhileD set_dropWhileD split: if_splits)

lemma replace_runs_none:
  "c \<in> set (replace_runs p (Suc 0) s) \<Longrightarrow> \<not> p c \<or> c = 0x20"
  by (induction p "Suc 0" s rule: replace_runs.induct)
    (auto simp: Let_def dest: set_takeWhileD split: if_splits)

text \<open>No two adjacent units of the class after runs of two and more were replaced.\<close>

fun no_adjacent :: "(16 word \<Rightarrow> bool) \<Rightarrow> jstring \<Rightarrow> bool" where
  "no_adjacent p (a # b # s) \<longleftrightarrow> \<not> (p a \<and> p b) \<and> no_adjacent p (b # s)"
| "no_adjacent p _ \<longleftrightarrow> True"

lemma no_adjacent_Cons: "no_adjacent p (a # s) \<longleftrightarrow> no_adjacent p s \<and> (s = [] \<or> \<not> (p a \<and> p (hd s)))"
  by (cases s) auto

lemma replace_runs_hd:
  "p 0x20 \<Longrightarrow> replace_runs p k s \<noteq> [] \<Longrightarrow> p (hd (replace_runs p k s)) = p (hd s)"
  by (cases s) (auto simp: Let_def)

lemma replace_runs_empty: "replace_runs p k s = [] \<longleftrightarrow> s = []"
  by (cases s) (auto simp: Let_def)

lemma replace_runs_adjacent: "p 0x20 \<Longrightarrow> no_adjacent p (replace_runs p 2 s)"
proof (induction p "2 :: nat" s rule: replace_runs.induct)
  case (1 p)
  then show ?case by simp
next
  case (2 p c cs)
  show ?case
  proof (cases "p c")
    case True
    let ?rest = "replace_runs p 2 (dropWhile p cs)"
    have run: "(if 2 \<le> length (takeWhile p (c # cs)) then [0x20] else takeWhile p (c # cs)) =
        [if 2 \<le> length (takeWhile p (c # cs)) then 0x20 else c]"
      using True by (cases "takeWhile p cs") auto
    have "?rest = [] \<or> \<not> p (hd ?rest)"
      using replace_runs_hd[of p 2 "dropWhile p cs"] 2(3) hd_dropWhile[of p cs]
      by (auto simp: replace_runs_empty)
    moreover have "replace_runs p 2 (c # cs) =
        (if 2 \<le> length (takeWhile p (c # cs)) then 0x20 else c) # ?rest"
      using True run by (simp only: replace_runs.simps Let_def if_True append_Cons append_Nil)
    moreover have "no_adjacent p ?rest" using 2 True by simp
    ultimately show ?thesis by (simp only: no_adjacent_Cons) blast
  next
    case False
    with 2 show ?thesis by (simp add: no_adjacent_Cons)
  qed
qed

lemma no_adjacent_append: "no_adjacent p (xs @ ys) \<Longrightarrow> no_adjacent p xs \<and> no_adjacent p ys"
proof (induction xs)
  case Nil
  then show ?case by simp
next
  case (Cons x xs)
  then show ?case by (cases xs) (auto simp: no_adjacent_Cons)
qed

lemma no_adjacent_take: "no_adjacent p s \<Longrightarrow> no_adjacent p (take n s)"
  using no_adjacent_append[of p "take n s" "drop n s"] by simp

lemma js_trim_infix: "\<exists>a b. s = a @ js_trim s @ b"
proof -
  let ?t = "dropWhile js_whitespace s"
  have "rev (dropWhile js_whitespace (rev ?t)) @ rev (takeWhile js_whitespace (rev ?t))
      = rev (takeWhile js_whitespace (rev ?t) @ dropWhile js_whitespace (rev ?t))"
    by (simp only: rev_append)
  then have t: "?t = js_trim s @ rev (takeWhile js_whitespace (rev ?t))"
    by (simp add: js_trim_def)
  have "s = takeWhile js_whitespace s @ ?t" by simp
  with t show ?thesis by metis
qed

lemma cleanText_props:
  "length (cleanText v n) \<le> n" "c \<in> set (cleanText v n) \<Longrightarrow> \<not> control_unit c \<and> \<not> line_unit c"
  "no_adjacent js_whitespace (cleanText v n)"
proof -
  let ?step1 = "\<lambda>s. map (\<lambda>c. if control_unit c then 0x20 else c) s :: jstring"
  let ?step2 = "\<lambda>s. replace_runs line_unit 1 (?step1 s)"
  let ?step3 = "\<lambda>s. replace_runs js_whitespace 2 (?step2 s)"
  have cl: "cleanText (Some s) n = take n (js_trim (?step3 s))" for s
    by (simp add: cleanText_def slice_to_def)
  show "length (cleanText v n) \<le> n"
    by (cases v) (simp_all add: cl, simp add: cleanText_def)
  have blank: "\<not> control_unit 0x20" "\<not> line_unit 0x20" "js_whitespace 0x20"
    by (simp_all add: control_unit_def line_unit_def js_whitespace_def)
  have s1: "\<not> control_unit c" if "c \<in> set (?step1 s)" for c s
    using that blank(1) by (auto split: if_splits)
  have s2: "\<not> control_unit c \<and> \<not> line_unit c" if c: "c \<in> set (?step2 s)" for c s
  proof -
    have in1: "c \<in> set (?step1 s) \<or> c = 0x20" using replace_runs_set c by blast
    have in2: "\<not> line_unit c \<or> c = 0x20"
      using replace_runs_none[of c line_unit "?step1 s", folded One_nat_def] c by blast
    show ?thesis
    proof (cases "c = 0x20")
      case True
      show ?thesis unfolding True using blank by blast
    next
      case False
      with in1 in2 s1[of c s] show ?thesis by blast
    qed
  qed
  have s3: "\<not> control_unit c \<and> \<not> line_unit c" if "c \<in> set (?step3 s)" for c s
    using replace_runs_set[of js_whitespace 2 "?step2 s"] that s2 blank by blast
  have trim: "set (js_trim s) \<subseteq> set s" "no_adjacent p s \<Longrightarrow> no_adjacent p (js_trim s)" for s p
  proof -
    obtain a b where s: "s = a @ js_trim s @ b" using js_trim_infix by blast
    have "set s = set a \<union> (set (js_trim s) \<union> set b)"
      using arg_cong[OF s, of set] by (simp only: set_append)
    then show "set (js_trim s) \<subseteq> set s" by blast
    assume "no_adjacent p s"
    then have "no_adjacent p (a @ js_trim s @ b)" by (simp only: s[symmetric])
    then show "no_adjacent p (js_trim s)" using no_adjacent_append by blast
  qed
  show "no_adjacent js_whitespace (cleanText v n)"
    by (cases v) (simp_all add: cl no_adjacent_take trim(2) replace_runs_adjacent blank, simp add: cleanText_def)
  assume c: "c \<in> set (cleanText v n)"
  then obtain s where v: "v = Some s" by (cases v) (simp_all add: cleanText_def)
  with c have "c \<in> set (js_trim (?step3 s))" using set_take_subset by (fastforce simp: cl)
  with trim(1) s3 show "\<not> control_unit c \<and> \<not> line_unit c" by blast
qed

lemma stripped_url_eq: "stripped_url u = slice_to 2000 (u_protocol u @ js ''//'' @ u_host u @ u_pathname u)"
  by (simp add: stripped_url_def bare_url_toString)

lemma sanitize_same_page:
  assumes "same_page (new_URL x) (new_URL y)"
  shows "sanitizeDisplayUrl new_URL (Some x) = sanitizeDisplayUrl new_URL (Some y)"
    and "safeDashboardUrl new_URL (Some x) = safeDashboardUrl new_URL (Some y)"
  using assms
  by (auto simp: same_page_def sanitizeDisplayUrl_def safeDashboardUrl_def stripped_url_eq
      split: option.splits)

lemma retry_after_range: "retry_after env r = Some t \<Longrightarrow> 0 \<le> t \<and> t \<le> MAX_RETRY_AFTER_MS"
proof -
  have p: "parseRetryAfterMs env v = Some t \<Longrightarrow> 0 \<le> t \<and> t \<le> MAX_RETRY_AFTER_MS" for v
    by (auto simp: parseRetryAfterMs_def MAX_RETRY_AFTER_MS_def split: option.splits if_splits)
  assume "retry_after env r = Some t"
  then show ?thesis
    unfolding retry_after_def Let_def
    by (auto split: if_splits option.splits json.splits dest: p simp del: jget.simps)
qed

section \<open>Properties\<close>

text \<open>A name, error type or message placed in a notification is one bounded line: no control
character and no line break survives, and no two blanks follow each other.\<close>

theorem clean_text_single_line:
  "length (cleanText v n) \<le> n \<and> list_all (\<lambda>c. \<not> control_unit c \<and> \<not> line_unit c) (cleanText v n) \<and>
   no_adjacent js_whitespace (cleanText v n)"
  using cleanText_props by (auto simp: list_all_iff)

text \<open>C31. The text sent to a chat fits Telegram's limit and reveals nothing of an address but
scheme, host and path: credentials, query and fragment of the monitored URL and of the
dashboard link never influence it.\<close>

theorem rendering_hides_url_secrets:
  assumes "same_page (te_new_URL env (sp_displayUrl p)) (te_new_URL env shown)"
    "same_page (te_new_URL env dash) (te_new_URL env dash')"
  shows "renderNotification env (p\<lparr>sp_displayUrl := shown, sp_dashboardUrl := Some dash'\<rparr>) =
           renderNotification env (p\<lparr>sp_dashboardUrl := Some dash\<rparr>) \<and>
         length (renderNotification env p) \<le> MAX_TELEGRAM_LENGTH"
proof -
  have "message_rows env (p\<lparr>sp_displayUrl := shown, sp_dashboardUrl := Some dash'\<rparr>) =
        message_rows env (p\<lparr>sp_dashboardUrl := Some dash\<rparr>)"
    using sanitize_same_page(1)[OF assms(1)] by (simp add: message_rows_def Let_def)
  then have "text_lines env (p\<lparr>sp_displayUrl := shown, sp_dashboardUrl := Some dash'\<rparr>) =
        text_lines env (p\<lparr>sp_dashboardUrl := Some dash\<rparr>)"
    using sanitize_same_page(2)[OF assms(2)] by (simp add: text_lines_def)
  moreover have "length (truncateTelegram t) \<le> MAX_TELEGRAM_LENGTH" for t
    by (simp add: truncateTelegram_def MAX_TELEGRAM_LENGTH_def truncation_notice_def slice_to_def)
  ultimately show ?thesis by (simp add: renderNotification_def)
qed

definition example_env :: text_env where
  "example_env = \<lparr>te_new_URL = (\<lambda>s. Some \<lparr>u_protocol = js ''https:'', u_username = [], u_password = s,
       u_hostname = js ''a.example'', u_port = [], u_pathname = js ''/'', u_search = s, u_hash = []\<rparr>),
     te_new_Date = (\<lambda>_. None),
     te_parts = (\<lambda>_. \<lparr>dp_year = [], dp_month = [], dp_day = [], dp_hour = [], dp_minute = [], dp_second = []\<rparr>)\<rparr>"

definition example_payload :: SafeNotificationPayload where
  "example_payload = \<lparr>sp_eventType = RECOVERY, sp_monitorName = js ''site'', sp_displayUrl = js ''one'',
     sp_occurredAt = [], sp_errorType = None, sp_errorMessageSafe = None, sp_statusCode = Some 200,
     sp_ttfbMs = None, sp_durationMs = Some 61000, sp_dashboardUrl = Some (js ''three''),
     sp_networkStartedAt = None\<rparr>"

theorem rendering_hides_url_secrets_witness:
  "renderNotification example_env
     (example_payload\<lparr>sp_displayUrl := js ''two'', sp_dashboardUrl := Some (js ''four'')\<rparr>) =
   renderNotification example_env (example_payload\<lparr>sp_dashboardUrl := Some (js ''three'')\<rparr>)"
proof -
  have same: "same_page (te_new_URL example_env x) (te_new_URL example_env y)" for x y
    by (simp add: example_env_def same_page_def u_host_def)
  show ?thesis
    using rendering_hides_url_secrets[of example_env example_payload "js ''two''" "js ''three''" "js ''four''"]
      same by blast
qed

text \<open>What one attempt to send reports: success exactly when the destination is well formed and
Telegram confirmed the message in a readable 2xx answer; delivery is called uncertain,
and is then retried, exactly when the request timed out or a 2xx answer could not be
read; a requested delay lies between zero and fifteen minutes.\<close>

theorem send_classification:
  "case send tenv penv fetch payload dest of
     Inr i \<Rightarrow> validateDestination dest = None \<and>
       (\<exists>r. fetch (td_botToken dest) (td_chatId dest) (renderNotification tenv payload) = Responded r \<and>
          response_ok r \<and> accepted_message_id r = Some i)
   | Inl e \<Rightarrow>
       (let answer = fetch (td_botToken dest) (td_chatId dest) (renderNotification tenv payload);
            unknown = (validateDestination dest = None \<and>
              (answer = FetchThrew True \<or>
               (\<exists>r. answer = Responded r \<and> response_ok r \<and> accepted_message_id r = None)))
        in pe_deliveryUncertain e = unknown \<and> (pe_deliveryUncertain e \<and> pe_retryable e) = unknown \<and>
           (case pe_retryAfterMs e of None \<Rightarrow> True | Some t \<Rightarrow> 0 \<le> t \<and> t \<le> MAX_RETRY_AFTER_MS))"
proof (cases "validateDestination dest")
  case (Some e)
  then have "pe_deliveryUncertain e = False" "pe_retryAfterMs e = None"
    by (auto simp: validateDestination_def provider_error_def split: if_splits)
  with Some show ?thesis by (simp add: send_def)
next
  case None
  show ?thesis
  proof (cases "fetch (td_botToken dest) (td_chatId dest) (renderNotification tenv payload)")
    case (FetchThrew t)
    with None show ?thesis by (simp add: send_def fetch_error_def provider_error_def)
  next
    case (Responded r)
    with None show ?thesis
      by (auto simp: send_def http_error_def provider_error_def Let_def retry_after_range
          split: option.splits)
  qed
qed

end
