(* ===== verification/Notification_Processor.thy ===== *)
theory Notification_Processor
  imports Check_Processor Outbox_Dispatcher Telegram_Adapter
begin

text \<open>
  The processor of notification jobs, \<open>apps/worker/src/notification-processor.ts\<close>: the claim of
  an outbox row with its delivery record, the attempt to send it, and the two transactions
  that record the answer. The identifiers of new rows, SHA-256, the cipher, the value of
  \<open>Math.random\<close> and what other processes do to the database during the attempt are parameters.
\<close>

section \<open>Values\<close>

record NotificationProcessorConfig =
  np_instanceId :: jstring
  np_leaseMs :: int
  np_decipher :: decipher

record ClaimedNotification =
  cn_row :: NotificationOutbox
  cn_deliveryId :: id
  cn_deliveryAttempt :: int

definition MAX_PROVIDER_MESSAGE_ID_LENGTH :: nat where "MAX_PROVIDER_MESSAGE_ID_LENGTH = 512"

text \<open>\<open>Array.from\<close> on a string: its code points, a lone surrogate being one of its own.\<close>

definition high_surrogate :: "16 word \<Rightarrow> bool" where "high_surrogate c \<longleftrightarrow> 0xD800 \<le> c \<and> c \<le> 0xDBFF"
definition low_surrogate :: "16 word \<Rightarrow> bool" where "low_surrogate c \<longleftrightarrow> 0xDC00 \<le> c \<and> c \<le> 0xDFFF"

fun array_from :: "jstring \<Rightarrow> jstring list" where
  "array_from (c # d # cs) =
     (if high_surrogate c \<and> low_surrogate d then [c, d] # array_from cs
      else [c] # array_from (d # cs))"
| "array_from [c] = [[c]]"
| "array_from [] = []"

definition normalizeProviderMessageId :: "jstring option \<Rightarrow> jstring option" where
  "normalizeProviderMessageId value =
     (case value of None \<Rightarrow> None
      | Some s \<Rightarrow>
        (let normalized = js_trim (filter (\<lambda>c. \<not> (c \<le> 0x1F \<or> c = 0x7F)) s)
         in if normalized = [] then None
            else Some (concat (take MAX_PROVIDER_MESSAGE_ID_LENGTH (array_from normalized)))))"

definition configError :: "jstring \<Rightarrow> NotificationProviderError" where
  "configError message = provider_error ''INVALID_CHANNEL_CONFIG'' False False message"

fun telegramDestination :: "json \<Rightarrow> NotificationProviderError + TelegramDestination" where
  "telegramDestination (JObj kvs) =
     (case (jget (JObj kvs) (js ''botToken''), jget (JObj kvs) (js ''chatId'')) of
        (Some (JStr token), Some (JStr chat)) \<Rightarrow> Inr \<lparr>td_botToken = token, td_chatId = chat\<rparr>
      | _ \<Rightarrow> Inl (configError [0x54, 0x65, 0x6C, 0x65, 0x67, 0x72, 0x61, 0x6D, 0x20, 0x62, 0x6F, 0x74, 0x20, 0xB610,
      0xB294, 0x20, 0xCC44, 0xD305, 0x20, 0xB300, 0xC0C1, 0xC774, 0x20, 0xC124, 0xC815,
      0xB418, 0xC5B4, 0x20, 0xC788, 0xC9C0, 0x20, 0xC54A, 0xC2B5, 0xB2C8, 0xB2E4, 0x2E]))"
| "telegramDestination _ = Inl (configError [0x54, 0x65, 0x6C, 0x65, 0x67, 0x72, 0x61, 0x6D, 0x20, 0xCC44, 0xB110, 0x20, 0xC124,
      0xC815, 0xC744, 0x20, 0xC77D, 0xC744, 0x20, 0xC218, 0x20, 0xC5C6, 0xC2B5, 0xB2C8,
      0xB2E4, 0x2E])"

section \<open>Claiming a row\<close>

definition terminal :: "NotificationOutboxStatus \<Rightarrow> bool" where
  "terminal s \<longleftrightarrow> s = SENT \<or> s = NotificationOutboxStatus.FAILED \<or> s = NotificationOutboxStatus.CANCELED"

definition disabled_row :: "time \<Rightarrow> NotificationOutbox \<Rightarrow> NotificationOutbox" where
  "disabled_row now r = retiredNotificationSecretData
     (if \<not> terminal (ob_status r)
      then r\<lparr>ob_status := NotificationOutboxStatus.CANCELED, ob_canceledAt := Some now,
             ob_leaseOwner := None, ob_leaseUntil := None, ob_lastErrorSafe := Some channel_disabled\<rparr>
      else r)"

definition claimable :: "time \<Rightarrow> NotificationOutbox \<Rightarrow> bool" where
  "claimable now r \<longleftrightarrow>
     (if ob_status r \<noteq> NotificationOutboxStatus.PENDING \<and> ob_status r \<noteq> RETRY \<and>
         ob_status r \<noteq> NotificationOutboxStatus.ENQUEUED
      then ob_status r = PROCESSING \<and> lapsed (ob_leaseUntil r) now
      else \<not> ((ob_status r = NotificationOutboxStatus.PENDING \<or> ob_status r = RETRY) \<and>
              now < ob_availableAt r))"

definition interrupted_message :: jstring where
  "interrupted_message = [0xC774, 0xC804, 0x20, 0xBC1C, 0xC1A1, 0x20, 0xC791, 0xC5C5, 0xC774, 0x20, 0xC911,
      0xB2E8, 0xB418, 0xC5B4, 0x20, 0xC804, 0xB2EC, 0x20, 0xC5EC, 0xBD80, 0xB97C, 0x20,
      0xD655, 0xC778, 0xD560, 0x20, 0xC218, 0x20, 0xC5C6, 0xC2B5, 0xB2C8, 0xB2E4, 0x2E]"

definition interrupt_attempts :: "id \<Rightarrow> time \<Rightarrow> db \<Rightarrow> db" where
  "interrupt_attempts i now d =
     d\<lparr>deliveries := update_where (\<lambda>n. nd_outboxId n = i \<and> nd_status n = ATTEMPTING)
         (\<lambda>n. n\<lparr>nd_status := NotificationDeliveryStatus.UNKNOWN,
                nd_errorSafe := Some interrupted_message, nd_finishedAt := Some now\<rparr>) (deliveries d)\<rparr>"

definition waiting_recovery :: "id \<Rightarrow> id \<Rightarrow> NotificationOutbox \<Rightarrow> bool" where
  "waiting_recovery incidentId channelId r \<longleftrightarrow>
     ob_incidentId r = Some incidentId \<and> ob_channelId r = channelId \<and> ob_eventType r = RECOVERY \<and>
     (ob_status r = NotificationOutboxStatus.PENDING \<or> ob_status r = RETRY \<or>
      ob_status r = NotificationOutboxStatus.ENQUEUED)"

definition undelivered_row :: "time \<Rightarrow> NotificationOutbox \<Rightarrow> NotificationOutbox" where
  "undelivered_row now r = r\<lparr>ob_status := NotificationOutboxStatus.CANCELED,
     ob_canceledAt := Some now, ob_leaseOwner := None, ob_leaseUntil := None,
     ob_lastErrorSafe := Some DOWN_NOT_DELIVERED_RECOVERY_CANCEL_REASON\<rparr>"

text \<open>The DOWN of an incident; the code tests the identifier for being non-empty.\<close>

definition down_of :: "NotificationOutbox \<Rightarrow> id option" where
  "down_of r =
     (if ob_eventType r = NotificationEventType.DOWN then (case ob_incidentId r of None \<Rightarrow> None
        | Some i \<Rightarrow> if i = [] then None else Some i) else None)"

definition cancel_recoveries :: "NotificationOutbox \<Rightarrow> time \<Rightarrow> db \<Rightarrow> db" where
  "cancel_recoveries r now d =
     (case down_of r of None \<Rightarrow> d
      | Some i \<Rightarrow> d\<lparr>outbox := update_where (waiting_recovery i (ob_channelId r))
                              (undelivered_row now) (outbox d)\<rparr>)"

definition exhausted_message :: jstring where
  "exhausted_message = [0xCD5C, 0xB300, 0x20, 0xC54C, 0xB9BC, 0x20, 0xBC1C, 0xC1A1, 0x20, 0xD69F, 0xC218,
      0xB97C, 0x20, 0xCD08, 0xACFC, 0xD588, 0xC2B5, 0xB2C8, 0xB2E4, 0x2E]"

definition failed_row :: "time \<Rightarrow> jstring \<Rightarrow> NotificationOutbox \<Rightarrow> NotificationOutbox" where
  "failed_row now message r = retiredNotificationSecretData
     (r\<lparr>ob_status := NotificationOutboxStatus.FAILED, ob_failedAt := Some now,
        ob_leaseOwner := None, ob_leaseUntil := None, ob_lastErrorSafe := Some message\<rparr>)"

definition processing_row :: "jstring \<Rightarrow> time \<Rightarrow> time \<Rightarrow> NotificationOutbox \<Rightarrow> NotificationOutbox" where
  "processing_row owner now leaseUntil r =
     r\<lparr>ob_status := PROCESSING, ob_attemptCount := ob_attemptCount r + 1,
       ob_processingAt := Some now, ob_leaseOwner := Some owner, ob_leaseUntil := Some leaseUntil,
       ob_lastErrorSafe := None\<rparr>"

definition new_delivery :: "id \<Rightarrow> NotificationOutbox \<Rightarrow> time \<Rightarrow> NotificationDelivery" where
  "new_delivery newId r now =
     \<lparr>nd_id = newId, nd_outboxId = ob_id r, nd_attempt = ob_attemptCount r + 1,
      nd_status = ATTEMPTING, nd_messageId = ob_messageId r, nd_providerMessageId = None,
      nd_errorSafe = None, nd_startedAt = now, nd_finishedAt = None, nd_sentAt = None,
      nd_createdAt = now\<rparr>"

abbreviation set_row :: "id \<Rightarrow> (NotificationOutbox \<Rightarrow> NotificationOutbox) \<Rightarrow> db \<Rightarrow> db" where
  "set_row i f d \<equiv> d\<lparr>outbox := update_where (\<lambda>r. ob_id r = i) f (outbox d)\<rparr>"

text \<open>From the interruption of earlier attempts on: the row was found claimable.\<close>

definition start_attempt ::
  "NotificationProcessorConfig \<Rightarrow> id \<Rightarrow> NotificationOutbox \<Rightarrow> time \<Rightarrow> db \<Rightarrow>
   db_error + ClaimedNotification option \<times> db" where
  "start_attempt config newId r now d =
     (let i = ob_id r; d1 = interrupt_attempts i now d;
          unsent = (case recovery_of r of None \<Rightarrow> False
                    | Some inc \<Rightarrow> down_status d1 inc (ob_channelId r) \<noteq> Some SENT)
      in if unsent then Inr (None, d1)
         else if ob_maxAttempts r \<le> ob_attemptCount r
         then Inr (None, cancel_recoveries r now (set_row i (failed_row now exhausted_message) d1))
         else
          (let processing = processing_row (np_instanceId config) now (now + np_leaseMs config)
           in case create_delivery (new_delivery newId r now) (set_row i processing d1) of
                Inl e \<Rightarrow> Inl e
              | Inr d2 \<Rightarrow> Inr (Some \<lparr>cn_row = processing r, cn_deliveryId = newId,
                                     cn_deliveryAttempt = ob_attemptCount r + 1\<rparr>, d2)))"

definition claim ::
  "NotificationProcessorConfig \<Rightarrow> id \<Rightarrow> id \<Rightarrow> time \<Rightarrow> db \<Rightarrow>
   db_error + ClaimedNotification option \<times> db" where
  "claim config newId i now d =
     (case find_by ob_id i (outbox d) of None \<Rightarrow> Inr (None, d)
      | Some r \<Rightarrow>
        if \<not> channel_live d (ob_channelId r) then Inr (None, set_row i (disabled_row now) d)
        else if \<not> claimable now r then Inr (None, d)
        else start_attempt config newId r now d)"

section \<open>The provider confirmed the message\<close>

definition update_delivery ::
  "id \<Rightarrow> (NotificationDelivery \<Rightarrow> NotificationDelivery) \<Rightarrow> db \<Rightarrow> db_error + db" where
  "update_delivery i f d =
     (if find_by nd_id i (deliveries d) = None then Inl RecordNotFound
      else Inr (d\<lparr>deliveries := update_where (\<lambda>n. nd_id n = i) f (deliveries d)\<rparr>))"

fun messageDomain :: "jstring \<Rightarrow> jstring option" where
  "messageDomain [] = None"
| "messageDomain (c # cs) =
     (if c = 64 \<and> cs \<noteq> [] \<and> last cs = 62 \<and> butlast cs \<noteq> [] \<and> 62 \<notin> set (butlast cs)
      then Some (butlast cs) else messageDomain cs)"

definition recovery_payload ::
  "Incident \<Rightarrow> time \<Rightarrow> Monitor option \<Rightarrow> SafeNotificationPayload \<Rightarrow> json" where
  "recovery_payload incident resolvedAt monitor original = JObj
     ([(js ''eventType'', JStr (js (event_name RECOVERY))),
       (js ''monitorName'', JStr (sp_monitorName original)),
       (js ''displayUrl'', JStr (sp_displayUrl original)),
       (js ''occurredAt'', JStr (toISOString resolvedAt)),
       (js ''errorType'', json_error (ic_lastErrorType incident)),
       (js ''errorMessageSafe'', nullable JStr (sp_errorMessageSafe original)),
       (js ''statusCode'', nullable JNum (Option.bind monitor mo_lastStatusCode)),
       (js ''ttfbMs'', nullable JNum (Option.bind monitor mo_lastTtfbMs)),
       (js ''durationMs'', JNum (max 0 (resolvedAt - ic_firstFailureAt incident))),
       (js ''notifyOnRecovery'', JBool True)] @
      (case sp_dashboardUrl original of None \<Rightarrow> []
       | Some u \<Rightarrow> if u = [] then [] else [(js ''dashboardUrl'', JStr u)]))"

definition reactivated_row :: "8 word list \<Rightarrow> time \<Rightarrow> NotificationOutbox \<Rightarrow> NotificationOutbox" where
  "reactivated_row snapshot now r =
     r\<lparr>ob_status := NotificationOutboxStatus.PENDING, ob_availableAt := now, ob_canceledAt := None,
       ob_queueJobId := None, ob_enqueuedAt := None, ob_leaseOwner := None, ob_leaseUntil := None,
       ob_lastErrorSafe := None, ob_encryptedConfigSnapshot := snapshot\<rparr>"

definition undelivered_recovery :: "NotificationOutbox \<Rightarrow> bool" where
  "undelivered_recovery r \<longleftrightarrow> ob_eventType r = RECOVERY \<and>
     ob_status r = NotificationOutboxStatus.CANCELED \<and>
     ob_lastErrorSafe r = Some DOWN_NOT_DELIVERED_RECOVERY_CANCEL_REASON"

definition recovery_row :: "id \<Rightarrow> id \<Rightarrow> NotificationOutbox \<Rightarrow> bool" where
  "recovery_row incidentId channelId r \<longleftrightarrow> ob_incidentId r = Some incidentId \<and>
     ob_channelId r = channelId \<and> ob_sequence r = notificationSequence RECOVERY"

text \<open>The recovery of a resolved incident whose DOWN was just delivered.\<close>

definition late_recovery ::
  "runtime \<Rightarrow> NotificationOutbox \<Rightarrow> id \<Rightarrow> id \<Rightarrow> Incident \<Rightarrow> time \<Rightarrow> time \<Rightarrow> db \<Rightarrow> db_error + db" where
  "late_recovery rt down incidentId monitorId incident resolvedAt now d =
     (case find (recovery_row incidentId (ob_channelId down)) (outbox d) of
        Some existing \<Rightarrow>
          if undelivered_recovery existing
          then update_outbox (ob_id existing)
                 (reactivated_row (ob_encryptedConfigSnapshot down) now) d
          else Inr d
      | None \<Rightarrow>
        (let monitor = find_by mo_id monitorId (monitors d);
             original = parseNotificationPayload (ob_payloadSafe down) NotificationEventType.DOWN now
         in case createNotificationDedupeKey \<lparr>dp_incidentId = incidentId,
                   dp_channelId = ob_channelId down, dp_eventType = RECOVERY\<rparr> of
              Inl e \<Rightarrow> Inl (Thrown e)
            | Inr dedupeKey \<Rightarrow>
              create_outbox (default_outbox (rt_outboxId rt incidentId RECOVERY (ob_channelId down))
                (Some monitorId) (Some incidentId) (ob_channelId down) RECOVERY
                (notificationSequence RECOVERY) dedupeKey
                (recovery_payload incident resolvedAt monitor original)
                (ob_channelTypeSnapshot down) (ob_channelDisplayNameSnapshot down)
                (ob_encryptedConfigSnapshot down)
                (createStableMessageId (rt_sha256 rt) dedupeKey (messageDomain (ob_messageId down)))
                now) d))"

definition wants_recovery :: "db \<Rightarrow> id \<Rightarrow> id \<Rightarrow> bool" where
  "wants_recovery d monitorId channelId \<longleftrightarrow>
     (\<exists>b \<in> set (monitorChannels d). mc_monitorId b = monitorId \<and> mc_channelId b = channelId \<and>
        mc_notifyOnRecovery b)"

definition ensureRecoveryAfterLateDownSuccess ::
  "runtime \<Rightarrow> NotificationOutbox \<Rightarrow> time \<Rightarrow> db \<Rightarrow> db_error + IncidentStatus option \<times> db" where
  "ensureRecoveryAfterLateDownSuccess rt down now d =
     (case down_of down of None \<Rightarrow> Inr (None, d)
      | Some incidentId \<Rightarrow>
        if \<not> payloadAllowsRecovery (ob_payloadSafe down) then Inr (None, d)
        else (case find_by ic_id incidentId (incidents d) of None \<Rightarrow> Inr (None, d)
          | Some incident \<Rightarrow>
            (let status = Some (ic_status incident) in
             case (ic_resolvedAt incident, ob_monitorId down) of
               (Some resolvedAt, Some monitorId) \<Rightarrow>
                 if ic_status incident \<noteq> RESOLVED \<or> monitorId = [] \<or>
                    \<not> channel_live d (ob_channelId down) \<or>
                    \<not> wants_recovery d monitorId (ob_channelId down)
                 then Inr (status, d)
                 else (case late_recovery rt down incidentId monitorId incident resolvedAt now d of
                         Inl e \<Rightarrow> Inl e | Inr d' \<Rightarrow> Inr (status, d'))
             | _ \<Rightarrow> Inr (status, d))))"

definition delivered :: "jstring option \<Rightarrow> time \<Rightarrow> NotificationDelivery \<Rightarrow> NotificationDelivery" where
  "delivered providerMessageId now n =
     n\<lparr>nd_status := SUCCEEDED, nd_providerMessageId := normalizeProviderMessageId providerMessageId,
       nd_errorSafe := None, nd_finishedAt := Some now, nd_sentAt := Some now\<rparr>"

definition sent_row :: "time \<Rightarrow> NotificationOutbox \<Rightarrow> NotificationOutbox" where
  "sent_row now r =
     r\<lparr>ob_status := SENT, ob_sentAt := Some now, ob_failedAt := None, ob_leaseOwner := None,
       ob_leaseUntil := None, ob_lastErrorSafe := None\<rparr>"

definition markSent ::
  "runtime \<Rightarrow> ClaimedNotification \<Rightarrow> jstring option \<Rightarrow> time \<Rightarrow> db \<Rightarrow> db_error + db" where
  "markSent rt c providerMessageId now d =
     (case update_delivery (cn_deliveryId c) (delivered providerMessageId now) d of Inl e \<Rightarrow> Inl e
      | Inr d1 \<Rightarrow>
        (let row = cn_row c;
             p = (\<lambda>r. ob_id r = ob_id row \<and> ob_status r \<noteq> NotificationOutboxStatus.CANCELED);
             d2 = d1\<lparr>outbox := update_where p (sent_row now) (outbox d1)\<rparr>
         in if count_where p (outbox d1) \<noteq> 1 then Inr d2
            else (case ensureRecoveryAfterLateDownSuccess rt row now d2 of Inl e \<Rightarrow> Inl e
              | Inr (incidentStatus, d3) \<Rightarrow>
                if \<not> shouldRetainNotificationSecret
                       \<lparr>nss_status = SENT, nss_eventType = ob_eventType row, nss_lastErrorSafe = None,
                        nss_payloadAllowsRecovery = payloadAllowsRecovery (ob_payloadSafe row),
                        nss_incidentStatus = incidentStatus\<rparr>
                then update_outbox (ob_id row) retiredNotificationSecretData d3
                else Inr d3)))"

section \<open>The attempt failed\<close>

definition current_attempt :: "ClaimedNotification \<Rightarrow> NotificationOutbox \<Rightarrow> bool" where
  "current_attempt c r \<longleftrightarrow> ob_id r = ob_id (cn_row c) \<and> ob_status r = PROCESSING \<and>
     ob_attemptCount r = cn_deliveryAttempt c"

definition retry_row :: "time \<Rightarrow> jstring \<Rightarrow> NotificationOutbox \<Rightarrow> NotificationOutbox" where
  "retry_row availableAt message r =
     r\<lparr>ob_status := RETRY, ob_availableAt := availableAt, ob_leaseOwner := None,
       ob_leaseUntil := None, ob_lastErrorSafe := Some message\<rparr>"

definition will_retry :: "ClaimedNotification \<Rightarrow> NotificationProviderError \<Rightarrow> bool" where
  "will_retry c e \<longleftrightarrow> pe_retryable e \<and> cn_deliveryAttempt c < ob_maxAttempts (cn_row c)"

definition failed_delivery ::
  "NotificationProviderError \<Rightarrow> time \<Rightarrow> NotificationDelivery \<Rightarrow> NotificationDelivery" where
  "failed_delivery e now n =
     n\<lparr>nd_status := (if pe_deliveryUncertain e then NotificationDeliveryStatus.UNKNOWN
                     else NotificationDeliveryStatus.FAILED),
       nd_errorSafe := Some (slice_to 1000 (pe_safeMessage e)), nd_finishedAt := Some now\<rparr>"

definition retry_available :: "ClaimedNotification \<Rightarrow> NotificationProviderError \<Rightarrow> rat \<Rightarrow> time \<Rightarrow> time" where
  "retry_available c e random now =
     now + max (case pe_retryAfterMs e of None \<Rightarrow> 0 | Some t \<Rightarrow> t)
               (retryDelayMs (cn_deliveryAttempt c) random)"

definition markFailed ::
  "ClaimedNotification \<Rightarrow> NotificationProviderError \<Rightarrow> rat \<Rightarrow> time \<Rightarrow> db \<Rightarrow> db_error + bool \<times> db" where
  "markFailed c e random now d =
     (let retry = will_retry c e; safeMessage = slice_to 1000 (pe_safeMessage e) in
      case update_delivery (cn_deliveryId c) (failed_delivery e now) d of Inl x \<Rightarrow> Inl x
      | Inr d1 \<Rightarrow>
        (let f = (if retry then retry_row (retry_available c e random now) safeMessage
                  else failed_row now safeMessage);
             d2 = d1\<lparr>outbox := update_where (current_attempt c) f (outbox d1)\<rparr>
         in Inr (retry, if count_where (current_attempt c) (outbox d1) = 1 \<and> \<not> retry
                        then cancel_recoveries (cn_row c) now d2 else d2)))"

section \<open>One job\<close>

datatype NotificationResult = Sent | Retried | Failed_finally | Ignored

datatype process_error = TransactionFailed db_error | NotificationPersistenceError db_error

definition internal_error :: NotificationProviderError where
  "internal_error = provider_error ''NOTIFICATION_INTERNAL_ERROR'' False False
     [0xC54C, 0xB9BC, 0xC744, 0x20, 0xC548, 0xC804, 0xD558, 0xAC8C, 0x20, 0xCC98, 0xB9AC,
      0xD558, 0xC9C0, 0x20, 0xBABB, 0xD588, 0xC2B5, 0xB2C8, 0xB2E4, 0x2E]"

type_synonym telegram_port =
  "SafeNotificationPayload \<Rightarrow> TelegramDestination \<Rightarrow> NotificationProviderError + jstring option"

definition attempt_send ::
  "NotificationProcessorConfig \<Rightarrow> (jstring \<Rightarrow> json option) \<Rightarrow> telegram_port \<Rightarrow> NotificationOutbox \<Rightarrow> time \<Rightarrow>
   NotificationProviderError + jstring option" where
  "attempt_send config parse adapter r now =
     (let payload = parseNotificationPayload (ob_payloadSafe r) (ob_eventType r) now in
      case decryptJson (np_decipher config) parse (ob_encryptedConfigSnapshot r) of
        None \<Rightarrow> Inl internal_error
      | Some channelConfig \<Rightarrow>
        if ob_channelTypeSnapshot r = telegram
        then (case telegramDestination channelConfig of Inl e \<Rightarrow> Inl e
              | Inr dest \<Rightarrow> adapter payload dest)
        else Inl (configError [0xC9C0, 0xC6D0, 0xD558, 0xC9C0, 0x20, 0xC54A, 0xB294, 0x20, 0xC54C, 0xB9BC, 0x20,
      0xCC44, 0xB110, 0xC785, 0xB2C8, 0xB2E4, 0x2E]))"

record notification_times =
  nt_claimedAt :: time
  nt_parsedAt :: time
  nt_settledAt :: time

definition process_notification ::
  "NotificationProcessorConfig \<Rightarrow> runtime \<Rightarrow> (jstring \<Rightarrow> json option) \<Rightarrow> telegram_port \<Rightarrow> id \<Rightarrow> rat \<Rightarrow>
   (db \<Rightarrow> db) \<Rightarrow> notification_times \<Rightarrow> NotificationJobData \<Rightarrow> db \<Rightarrow>
   (process_error + NotificationResult) \<times> db" where
  "process_notification config rt parse adapter newId random others clock data d =
     (case claim config newId (nj_outboxId data) (nt_claimedAt clock) d of
        Inl e \<Rightarrow> (Inl (TransactionFailed e), d)
      | Inr (None, d1) \<Rightarrow> (Inr Ignored, d1)
      | Inr (Some c, d1) \<Rightarrow>
        (let d2 = others d1 in
         case attempt_send config parse adapter (cn_row c) (nt_parsedAt clock) of
           Inl e \<Rightarrow>
             (case markFailed c e random (nt_settledAt clock) d2 of
                Inl x \<Rightarrow> (Inl (TransactionFailed x), d2)
              | Inr (retry, d3) \<Rightarrow> (Inr (if retry then Retried else Failed_finally), d3))
         | Inr providerMessageId \<Rightarrow>
             (case markSent rt c providerMessageId (nt_settledAt clock) d2 of
                Inl x \<Rightarrow> (Inl (NotificationPersistenceError x), d2)
              | Inr d3 \<Rightarrow> (Inr Sent, d3))))"

section \<open>The status of a row\<close>

definition row_status :: "db \<Rightarrow> id \<Rightarrow> NotificationOutboxStatus option" where
  "row_status d i = map_option ob_status (find_by ob_id i (outbox d))"

lemma find_by_update:
  assumes "\<And>r. key (f r) = key r"
  shows "find_by key i (update_where p f rows) =
    map_option (\<lambda>r. if p r then f r else r) (find_by key i rows)"
  unfolding find_by_def by (induction rows) (auto simp: assms)

lemma find_by_append: "find_by key i xs = Some r \<Longrightarrow> find_by key i (xs @ ys) = Some r"
  unfolding find_by_def by (induction xs) auto

definition keeps_sent :: "db \<Rightarrow> db \<Rightarrow> bool" where
  "keeps_sent d d' \<longleftrightarrow> (\<forall>i. row_status d i = Some SENT \<longrightarrow> row_status d' i = Some SENT)"

lemma keeps_sent_same: "outbox d' = outbox d \<Longrightarrow> keeps_sent d d'"
  by (simp add: keeps_sent_def row_status_def)

lemma keeps_sent_trans: "keeps_sent d d1 \<Longrightarrow> keeps_sent d1 d2 \<Longrightarrow> keeps_sent d d2"
  by (simp add: keeps_sent_def)

lemma keeps_sent_update:
  assumes "outbox d' = update_where p f (outbox d)" "\<And>r. ob_id (f r) = ob_id r"
    "\<And>i r. find_by ob_id i (outbox d) = Some r \<Longrightarrow> p r \<Longrightarrow> ob_status r = SENT \<Longrightarrow> ob_status (f r) = SENT"
  shows "keeps_sent d d'"
proof (unfold keeps_sent_def, intro allI impI)
  fix i assume "row_status d i = Some SENT"
  then obtain r where r: "find_by ob_id i (outbox d) = Some r" "ob_status r = SENT"
    by (auto simp: row_status_def)
  have "find_by ob_id i (outbox d') = Some (if p r then f r else r)"
    unfolding assms(1) find_by_update[of ob_id f, OF assms(2)] by (simp add: r(1))
  with r assms(3)[OF r(1)] show "row_status d' i = Some SENT" by (simp add: row_status_def)
qed

lemma keeps_sent_create: "create_outbox x d = Inr d' \<Longrightarrow> keeps_sent d d'"
proof (unfold keeps_sent_def, intro allI impI)
  fix i assume c: "create_outbox x d = Inr d'" and "row_status d i = Some SENT"
  then obtain r where r: "find_by ob_id i (outbox d) = Some r" "ob_status r = SENT"
    by (auto simp: row_status_def)
  from find_by_append[OF r(1)] r(2) create_outbox_Inr[OF c] show "row_status d' i = Some SENT"
    by (simp add: row_status_def)
qed

lemma update_outbox_eq:
  "update_outbox i f d = Inr d' \<Longrightarrow> d' = d\<lparr>outbox := update_where (\<lambda>r. ob_id r = i) f (outbox d)\<rparr>"
  by (auto simp: update_outbox_def split: if_splits)

lemma update_delivery_eq:
  "update_delivery i f d = Inr d' \<Longrightarrow> d' = d\<lparr>deliveries := update_where (\<lambda>n. nd_id n = i) f (deliveries d)\<rparr>"
  by (auto simp: update_delivery_def split: if_splits)

lemma settled_fields [simp]:
  "ob_id (disabled_row t r) = ob_id r" "ob_id (undelivered_row t r) = ob_id r"
  "ob_id (failed_row t m r) = ob_id r" "ob_id (processing_row w t u r) = ob_id r"
  "ob_id (reactivated_row x t r) = ob_id r" "ob_id (sent_row t r) = ob_id r"
  "ob_id (retry_row a m r) = ob_id r"
  "ob_attemptCount (disabled_row t r) = ob_attemptCount r"
  "ob_attemptCount (undelivered_row t r) = ob_attemptCount r"
  "ob_attemptCount (failed_row t m r) = ob_attemptCount r"
  "ob_attemptCount (processing_row w t u r) = ob_attemptCount r + 1"
  "ob_attemptCount (reactivated_row x t r) = ob_attemptCount r"
  "ob_attemptCount (sent_row t r) = ob_attemptCount r"
  "ob_attemptCount (retry_row a m r) = ob_attemptCount r"
  "ob_maxAttempts (disabled_row t r) = ob_maxAttempts r"
  "ob_maxAttempts (undelivered_row t r) = ob_maxAttempts r"
  "ob_maxAttempts (failed_row t m r) = ob_maxAttempts r"
  "ob_maxAttempts (processing_row w t u r) = ob_maxAttempts r"
  "ob_maxAttempts (reactivated_row x t r) = ob_maxAttempts r"
  "ob_maxAttempts (sent_row t r) = ob_maxAttempts r"
  "ob_maxAttempts (retry_row a m r) = ob_maxAttempts r"
  "ob_status (failed_row t m r) = NotificationOutboxStatus.FAILED"
  "ob_status (sent_row t r) = SENT" "ob_status (retry_row a m r) = RETRY"
  "ob_status (processing_row w t u r) = PROCESSING"
  "ob_status (undelivered_row t r) = NotificationOutboxStatus.CANCELED"
  "ob_status (reactivated_row x t r) = NotificationOutboxStatus.PENDING"
  "ob_encryptedConfigSnapshot (failed_row t m r) = secretTombstoneBytes"
  "ob_encryptedConfigSnapshot (disabled_row t r) = secretTombstoneBytes"
  by (simp_all add: disabled_row_def undelivered_row_def failed_row_def processing_row_def
      reactivated_row_def sent_row_def retry_row_def)

lemma interrupt_attempts_outbox [simp]: "outbox (interrupt_attempts i t d) = outbox d"
  by (simp add: interrupt_attempts_def)

lemma cancel_recoveries_sent: "keeps_sent d (cancel_recoveries r now d)"
proof (cases "down_of r")
  case None
  then show ?thesis by (simp add: cancel_recoveries_def keeps_sent_same)
next
  case (Some i)
  show ?thesis
    by (rule keeps_sent_update[of _ "waiting_recovery i (ob_channelId r)" "undelivered_row now"])
      (auto simp: cancel_recoveries_def Some waiting_recovery_def)
qed

text \<open>The result of a claim, case by case.\<close>

lemma claim_cases:
  assumes "claim config newId i now d = Inr (out, d')"
  obtains (unchanged) "out = None" "d' = d"
  | (disabled) "out = None" "d' = set_row i (disabled_row now) d"
  | (unsent) "out = None" "d' = interrupt_attempts i now d"
  | (exhausted) r where "out = None" "find_by ob_id i (outbox d) = Some r" "claimable now r"
      "ob_maxAttempts r \<le> ob_attemptCount r"
      "d' = cancel_recoveries r now
         (set_row i (failed_row now exhausted_message) (interrupt_attempts i now d))"
  | (claimed) r where
      "out = Some \<lparr>cn_row = processing_row (np_instanceId config) now (now + np_leaseMs config) r,
                   cn_deliveryId = newId, cn_deliveryAttempt = ob_attemptCount r + 1\<rparr>"
      "find_by ob_id i (outbox d) = Some r" "channel_live d (ob_channelId r)" "claimable now r"
      "may_send d r" "ob_attemptCount r < ob_maxAttempts r"
      "create_delivery (new_delivery newId r now)
         (set_row i (processing_row (np_instanceId config) now (now + np_leaseMs config))
           (interrupt_attempts i now d)) = Inr d'"
proof -
  consider (gone) "find_by ob_id i (outbox d) = None"
    | (dead) r where "find_by ob_id i (outbox d) = Some r" "\<not> channel_live d (ob_channelId r)"
    | (busy) r where "find_by ob_id i (outbox d) = Some r" "channel_live d (ob_channelId r)" "\<not> claimable now r"
    | (start) r where "find_by ob_id i (outbox d) = Some r" "channel_live d (ob_channelId r)" "claimable now r"
    by (cases "find_by ob_id i (outbox d)") auto
  then show thesis
  proof cases
    case (start r)
    from find_by_Some[OF start(1)] have i: "ob_id r = i" by simp
    from start assms have st: "start_attempt config newId r now d = Inr (out, d')"
      by (simp add: claim_def)
    have down: "down_status (interrupt_attempts i now d) x c = down_status d x c" for x c
      by (simp add: down_status_def)
    show thesis
    proof (cases "may_send d r")
      case False
      with st i have "out = None" "d' = interrupt_attempts i now d"
        by (auto simp: start_attempt_def Let_def may_send_def down split: option.splits)
      then show thesis by (rule unsent)
    next
      case True
      then have sends: "\<not> (case recovery_of r of None \<Rightarrow> False
          | Some inc \<Rightarrow> down_status (interrupt_attempts i now d) inc (ob_channelId r) \<noteq> Some SENT)"
        by (auto simp: may_send_def down split: option.splits)
      show thesis
      proof (cases "ob_maxAttempts r \<le> ob_attemptCount r")
        case True
        with st i sends have "out = None" "d' = cancel_recoveries r now
            (set_row i (failed_row now exhausted_message) (interrupt_attempts i now d))"
          by (simp_all add: start_attempt_def Let_def)
        with True start show thesis by (intro exhausted)
      next
        case more: False
        with st i sends show thesis
          using claimed[OF _ start(1,2,3) True]
          by (auto simp: start_attempt_def Let_def split: sum.splits)
      qed
    qed
  next
    case gone
    with assms show thesis by (intro unchanged) (simp_all add: claim_def)
  next
    case (dead r)
    with assms show thesis by (intro disabled) (simp_all add: claim_def)
  next
    case (busy r)
    with assms show thesis by (intro unchanged) (simp_all add: claim_def)
  qed
qed

lemma keeps_sent_row:
  assumes "find_by ob_id i (outbox d) = Some r" "ob_status r \<noteq> SENT" "outbox d' = outbox d"
    "\<And>r. ob_id (f r) = ob_id r"
  shows "keeps_sent d (set_row i f d')"
proof (rule keeps_sent_update[of _ "\<lambda>r. ob_id r = i" f])
  fix j x assume x: "find_by ob_id j (outbox d) = Some x" "ob_id x = i" "ob_status x = SENT"
  with find_by_Some[OF x(1)] assms(1) have "x = r" by simp
  with x(3) assms(2) show "ob_status (f x) = SENT" by simp
qed (simp_all add: assms(3,4))

lemma claimable_not_sent: "claimable now r \<Longrightarrow> ob_status r \<noteq> SENT"
  by (auto simp: claimable_def)

lemma claim_sent:
  assumes "claim config newId i now d = Inr (out, d')"
  shows "keeps_sent d d'"
  using assms
proof (cases rule: claim_cases)
  case unchanged
  then show ?thesis by (simp add: keeps_sent_same)
next
  case disabled
  show ?thesis unfolding disabled(2)
    by (rule keeps_sent_update[of _ "\<lambda>r. ob_id r = i" "disabled_row now"])
      (simp_all add: disabled_row_def terminal_def)
next
  case unsent
  then show ?thesis by (simp add: keeps_sent_same)
next
  case (exhausted r)
  have "keeps_sent d (set_row i (failed_row now exhausted_message) (interrupt_attempts i now d))"
    by (rule keeps_sent_row[OF exhausted(2) claimable_not_sent[OF exhausted(3)]]) simp_all
  then show ?thesis unfolding exhausted(5) by (rule keeps_sent_trans[OF _ cancel_recoveries_sent])
next
  case (claimed r)
  have "keeps_sent d (set_row i (processing_row (np_instanceId config) now (now + np_leaseMs config))
      (interrupt_attempts i now d))"
    by (rule keeps_sent_row[OF claimed(2) claimable_not_sent[OF claimed(4)]]) simp_all
  then show ?thesis using create_delivery_Inr[OF claimed(7)] by (simp add: keeps_sent_def row_status_def)
qed

lemma late_recovery_sent:
  assumes "late_recovery rt down inc m i r now d = Inr d'" "distinct (map ob_id (outbox d))"
  shows "keeps_sent d d'"
proof (cases "find (recovery_row inc (ob_channelId down)) (outbox d)")
  case None
  with assms show ?thesis
    by (auto simp: late_recovery_def Let_def split: sum.splits intro: keeps_sent_create)
next
  case (Some x)
  show ?thesis
  proof (cases "undelivered_recovery x")
    case False
    with assms Some show ?thesis by (simp add: late_recovery_def keeps_sent_same)
  next
    case True
    let ?f = "reactivated_row (ob_encryptedConfigSnapshot down) now"
    from True assms Some have "d' = set_row (ob_id x) ?f d"
      by (simp add: late_recovery_def update_outbox_eq)
    moreover have "find_by ob_id (ob_id x) (outbox d) = Some x"
      using find_by_distinct[OF assms(2)] find_Some_in[OF Some] by blast
    moreover have "ob_status x \<noteq> SENT" using True by (simp add: undelivered_recovery_def)
    ultimately show ?thesis using keeps_sent_row[of "ob_id x" d x d ?f] by simp
  qed
qed

lemma ensureRecovery_cases:
  assumes "ensureRecoveryAfterLateDownSuccess rt down now d = Inr (st, d')"
  obtains (none) "d' = d"
  | (late) inc m i r where "down_of down = Some inc" "find_by ic_id inc (incidents d) = Some i"
      "ic_status i = RESOLVED" "ic_resolvedAt i = Some r" "ob_monitorId down = Some m"
      "late_recovery rt down inc m i r now d = Inr d'"
  using assms
  by (auto simp: ensureRecoveryAfterLateDownSuccess_def Let_def split: option.splits if_splits sum.splits)

text \<open>The result of the transaction that records a confirmed message.\<close>

lemma markSent_cases:
  assumes "markSent rt c pm now d = Inr d'"
  obtains d2 where
    "d2 = d\<lparr>deliveries := update_where (\<lambda>n. nd_id n = cn_deliveryId c) (delivered pm now) (deliveries d),
            outbox := update_where (\<lambda>r. ob_id r = ob_id (cn_row c) \<and>
              ob_status r \<noteq> NotificationOutboxStatus.CANCELED) (sent_row now) (outbox d)\<rparr>"
    "d' = d2 \<or> (\<exists>st d3. ensureRecoveryAfterLateDownSuccess rt (cn_row c) now d2 = Inr (st, d3) \<and>
       (d' = d3 \<or> d' = set_row (ob_id (cn_row c)) retiredNotificationSecretData d3))"
proof -
  from assms obtain d1 where d1: "update_delivery (cn_deliveryId c) (delivered pm now) d = Inr d1"
    by (auto simp: markSent_def split: sum.splits)
  let ?p = "\<lambda>r. ob_id r = ob_id (cn_row c) \<and> ob_status r \<noteq> NotificationOutboxStatus.CANCELED"
  define d2 where "d2 = d1\<lparr>outbox := update_where ?p (sent_row now) (outbox d1)\<rparr>"
  have eq: "d2 = d\<lparr>deliveries := update_where (\<lambda>n. nd_id n = cn_deliveryId c) (delivered pm now) (deliveries d),
      outbox := update_where ?p (sent_row now) (outbox d)\<rparr>"
    by (simp add: d2_def update_delivery_eq[OF d1])
  show thesis
  proof (cases "count_where ?p (outbox d1) \<noteq> 1")
    case True
    with assms have "d' = d2" by (simp add: markSent_def d1 Let_def d2_def)
    then show thesis using that[OF eq] by blast
  next
    case False
    with assms obtain st d3 where d3: "ensureRecoveryAfterLateDownSuccess rt (cn_row c) now d2 = Inr (st, d3)"
      by (auto simp: markSent_def d1 Let_def d2_def split: sum.splits)
    with assms False have "d' = d3 \<or> update_outbox (ob_id (cn_row c)) retiredNotificationSecretData d3 = Inr d'"
      by (simp add: markSent_def d1 Let_def flip: d2_def split: if_splits)
    then have "d' = d3 \<or> d' = set_row (ob_id (cn_row c)) retiredNotificationSecretData d3"
      using update_outbox_eq by blast
    with d3 show thesis using that[OF eq] by blast
  qed
qed

lemma retired_sent: "keeps_sent d (set_row i retiredNotificationSecretData d)"
  by (rule keeps_sent_update[of _ "\<lambda>r. ob_id r = i" retiredNotificationSecretData]) simp_all

lemma ensureRecovery_sent:
  assumes "ensureRecoveryAfterLateDownSuccess rt down now d = Inr (st, d')" "distinct (map ob_id (outbox d))"
  shows "keeps_sent d d'"
  using assms(1)
proof (cases rule: ensureRecovery_cases)
  case none
  then show ?thesis by (simp add: keeps_sent_same)
next
  case (late inc m i r)
  then show ?thesis using late_recovery_sent assms(2) by blast
qed

lemma markSent_sent:
  assumes "markSent rt c pm now d = Inr d'" "distinct (map ob_id (outbox d))"
  shows "keeps_sent d d'"
proof (rule markSent_cases[OF assms(1)], goal_cases)
  case (1 d2)
  have out: "outbox d2 = update_where (\<lambda>r. ob_id r = ob_id (cn_row c) \<and>
       ob_status r \<noteq> NotificationOutboxStatus.CANCELED) (sent_row now) (outbox d)"
    by (simp add: 1(1))
  have s: "keeps_sent d d2" by (rule keeps_sent_update[OF out]) simp_all
  have ids: "distinct (map ob_id (outbox d2))"
    using assms(2) by (simp add: out distinct_update_where)
  from 1(2) show ?case
  proof (elim disjE exE conjE)
    assume "d' = d2"
    with s show ?thesis by simp
  next
    fix st d3
    assume d3: "ensureRecoveryAfterLateDownSuccess rt (cn_row c) now d2 = Inr (st, d3)" "d' = d3"
    show ?thesis unfolding d3(2) by (rule keeps_sent_trans[OF s ensureRecovery_sent[OF d3(1) ids]])
  next
    fix st d3
    assume d3: "ensureRecoveryAfterLateDownSuccess rt (cn_row c) now d2 = Inr (st, d3)"
      "d' = set_row (ob_id (cn_row c)) retiredNotificationSecretData d3"
    show ?thesis unfolding d3(2)
      by (rule keeps_sent_trans[OF s keeps_sent_trans[OF ensureRecovery_sent[OF d3(1) ids] retired_sent]])
  qed
qed

text \<open>The result of the transaction that records a failure.\<close>

lemma markFailed_cases:
  assumes "markFailed c e random now d = Inr (retry, d')"
  obtains f d2 where "retry = will_retry c e"
    "f = (if retry then retry_row (retry_available c e random now) (slice_to 1000 (pe_safeMessage e))
          else failed_row now (slice_to 1000 (pe_safeMessage e)))"
    "d2 = d\<lparr>deliveries := update_where (\<lambda>n. nd_id n = cn_deliveryId c) (failed_delivery e now) (deliveries d),
            outbox := update_where (current_attempt c) f (outbox d)\<rparr>"
    "d' = d2 \<or> d' = cancel_recoveries (cn_row c) now d2"
proof -
  from assms obtain d1 where d1: "update_delivery (cn_deliveryId c) (failed_delivery e now) d = Inr d1"
    by (auto simp: markFailed_def Let_def split: sum.splits)
  let ?f = "if retry then retry_row (retry_available c e random now) (slice_to 1000 (pe_safeMessage e))
            else failed_row now (slice_to 1000 (pe_safeMessage e))"
  let ?d2 = "d1\<lparr>outbox := update_where (current_attempt c) ?f (outbox d1)\<rparr>"
  from assms have r: "retry = will_retry c e" by (simp add: markFailed_def d1 Let_def)
  with assms have "d' = ?d2 \<or> d' = cancel_recoveries (cn_row c) now ?d2"
    by (simp add: markFailed_def d1 Let_def split: if_splits)
  then show thesis
    by (intro that[OF r refl refl]) (simp add: update_delivery_eq[OF d1])
qed

lemma markFailed_sent:
  assumes "markFailed c e random now d = Inr (retry, d')"
  shows "keeps_sent d d'"
proof (rule markFailed_cases[OF assms], goal_cases)
  case (1 f d2)
  have out: "outbox d2 = update_where (current_attempt c) f (outbox d)" by (simp add: 1(3))
  have "ob_id (f r) = ob_id r" for r by (simp add: 1(2))
  then have "keeps_sent d d2"
    by (rule keeps_sent_update[OF out]) (simp add: current_attempt_def)
  with 1(4) show ?case using cancel_recoveries_sent keeps_sent_trans by blast
qed

section \<open>The ledger of attempts\<close>

definition attempt_view :: "db \<Rightarrow> (id \<times> int \<times> int) list" where
  "attempt_view d = map (\<lambda>r. (ob_id r, ob_attemptCount r, ob_maxAttempts r)) (outbox d)"

definition delivery_view :: "db \<Rightarrow> (id \<times> id \<times> int) list" where
  "delivery_view d = map (\<lambda>n. (nd_id n, nd_outboxId n, nd_attempt n)) (deliveries d)"

definition attempting :: "id \<Rightarrow> db \<Rightarrow> nat" where
  "attempting i d = count_where (\<lambda>n. nd_outboxId n = i \<and> nd_status n = ATTEMPTING) (deliveries d)"

text \<open>
  Row ids and delivery ids are unique; no row was attempted more often than allowed; each
  delivery belongs to a row and carries one of its attempt numbers, no number twice; and at
  most one delivery of a row is still open.
\<close>

definition attempt_ledger :: "(id \<times> int \<times> int) list \<Rightarrow> (id \<times> id \<times> int) list \<Rightarrow> bool" where
  "attempt_ledger rows ns \<longleftrightarrow> distinct (map fst rows) \<and> (\<forall>(i, a, m) \<in> set rows. 0 \<le> a \<and> a \<le> m) \<and>
     distinct (map fst ns) \<and> distinct (map snd ns) \<and>
     (\<forall>(k, i, a) \<in> set ns. \<exists>(j, c, m) \<in> set rows. j = i \<and> 1 \<le> a \<and> a \<le> c)"

definition ledger_inv :: "db \<Rightarrow> bool" where
  "ledger_inv d \<longleftrightarrow> attempt_ledger (attempt_view d) (delivery_view d) \<and> (\<forall>i. attempting i d \<le> 1)"

lemma attempt_view_ids: "map fst (attempt_view d) = map ob_id (outbox d)"
  by (simp add: attempt_view_def comp_def)

lemma ledger_ids: "ledger_inv d \<Longrightarrow> distinct (map ob_id (outbox d))"
  by (simp add: ledger_inv_def attempt_ledger_def attempt_view_ids)

lemma attempt_ledger_new:
  assumes "attempt_ledger rows ns" "i \<notin> fst ` set rows" "0 \<le> m"
  shows "attempt_ledger (rows @ [(i, 0, m)]) ns"
  using assms unfolding attempt_ledger_def by (auto; fastforce)

text \<open>A statement that leaves the columns of the ledger alone, or adds a row of its own.\<close>

definition ledger_frame :: "db \<Rightarrow> db \<Rightarrow> bool" where
  "ledger_frame d d' \<longleftrightarrow>
     (attempt_view d' = attempt_view d \<or>
      (\<exists>i m. i \<notin> ob_id ` set (outbox d) \<and> 0 \<le> m \<and> attempt_view d' = attempt_view d @ [(i, 0, m)])) \<and>
     delivery_view d' = delivery_view d \<and> (\<forall>i. attempting i d' \<le> attempting i d)"

lemma ledger_frame_inv: "ledger_inv d \<Longrightarrow> ledger_frame d d' \<Longrightarrow> ledger_inv d'"
proof -
  assume inv: "ledger_inv d" and fr: "ledger_frame d d'"
  have ids: "fst ` set (attempt_view d) = ob_id ` set (outbox d)"
    using arg_cong[OF attempt_view_ids, of set d] by simp
  have "attempt_ledger (attempt_view d') (delivery_view d')"
    using inv fr attempt_ledger_new[of "attempt_view d" "delivery_view d"]
    unfolding ledger_inv_def ledger_frame_def ids by auto
  moreover have "attempting i d' \<le> 1" for i
    using inv fr unfolding ledger_inv_def ledger_frame_def by (meson le_trans)
  ultimately show ?thesis by (simp add: ledger_inv_def)
qed

lemma attempt_view_update:
  assumes "outbox d' = update_where p f (outbox d)"
    "\<And>r. ob_id (f r) = ob_id r \<and> ob_attemptCount (f r) = ob_attemptCount r \<and> ob_maxAttempts (f r) = ob_maxAttempts r"
  shows "attempt_view d' = attempt_view d"
  unfolding attempt_view_def assms(1) by (rule map_update_where_frame) (simp add: assms(2))

lemma delivery_view_update:
  assumes "deliveries d' = update_where p f (deliveries d)"
    "\<And>n. nd_id (f n) = nd_id n \<and> nd_outboxId (f n) = nd_outboxId n \<and> nd_attempt (f n) = nd_attempt n \<and>
         nd_status (f n) \<noteq> ATTEMPTING"
  shows "delivery_view d' = delivery_view d" "attempting i d' \<le> attempting i d"
proof -
  show "delivery_view d' = delivery_view d"
    unfolding delivery_view_def assms(1) by (rule map_update_where_frame) (simp add: assms(2))
  have "count_where (\<lambda>n. nd_outboxId n = i \<and> nd_status n = ATTEMPTING) (update_where p f xs)
      \<le> count_where (\<lambda>n. nd_outboxId n = i \<and> nd_status n = ATTEMPTING) xs" for xs
    by (induction xs) (auto simp: assms(2))
  then show "attempting i d' \<le> attempting i d" by (simp add: attempting_def assms(1))
qed

lemma ledger_frame_rows:
  assumes "outbox d' = update_where p f (outbox d)" "deliveries d' = deliveries d"
    "\<And>r. ob_id (f r) = ob_id r \<and> ob_attemptCount (f r) = ob_attemptCount r \<and> ob_maxAttempts (f r) = ob_maxAttempts r"
  shows "ledger_frame d d'"
  using attempt_view_update[OF assms(1,3)] assms(2)
  by (simp add: ledger_frame_def delivery_view_def attempting_def)

lemma ledger_frame_deliveries:
  assumes "deliveries d' = update_where p f (deliveries d)" "outbox d' = outbox d"
    "\<And>n. nd_id (f n) = nd_id n \<and> nd_outboxId (f n) = nd_outboxId n \<and> nd_attempt (f n) = nd_attempt n \<and>
         nd_status (f n) \<noteq> ATTEMPTING"
  shows "ledger_frame d d'"
  using delivery_view_update[OF assms(1,3)] assms(2) by (simp add: ledger_frame_def attempt_view_def)

lemma ledger_frame_refl [simp]: "ledger_frame d d"
  by (simp add: ledger_frame_def)

lemma ledger_frame_create:
  assumes "create_outbox x d = Inr d'" "ob_id x \<notin> ob_id ` set (outbox d)" "ob_attemptCount x = 0"
    "0 \<le> ob_maxAttempts x"
  shows "ledger_frame d d'"
  using create_outbox_Inr[OF assms(1)] assms(2-4)
  by (auto simp: ledger_frame_def attempt_view_def delivery_view_def attempting_def)

lemma cancel_recoveries_frame: "ledger_frame d (cancel_recoveries r now d)"
proof (cases "down_of r")
  case None
  then show ?thesis by (simp add: cancel_recoveries_def)
next
  case (Some i)
  show ?thesis
    by (rule ledger_frame_rows[of _ "waiting_recovery i (ob_channelId r)" "undelivered_row now"])
      (simp_all add: cancel_recoveries_def Some)
qed

lemma late_recovery_frame:
  assumes "late_recovery rt down inc m i r now d = Inr d'"
    "rt_outboxId rt inc RECOVERY (ob_channelId down) \<notin> ob_id ` set (outbox d)"
  shows "ledger_frame d d'"
proof (cases "find (recovery_row inc (ob_channelId down)) (outbox d)")
  case None
  with assms(1) obtain x where "create_outbox x d = Inr d'" "ob_attemptCount x = 0" "0 \<le> ob_maxAttempts x"
    "ob_id x = rt_outboxId rt inc RECOVERY (ob_channelId down)"
    by (auto simp: late_recovery_def Let_def default_outbox_def split: sum.splits)
  with assms(2) ledger_frame_create[of x d d'] show ?thesis by simp
next
  case (Some x)
  show ?thesis
  proof (cases "undelivered_recovery x")
    case False
    with assms Some show ?thesis by (simp add: late_recovery_def)
  next
    case True
    let ?f = "reactivated_row (ob_encryptedConfigSnapshot down) now"
    from True assms Some have "d' = set_row (ob_id x) ?f d"
      by (simp add: late_recovery_def update_outbox_eq)
    then show ?thesis by (intro ledger_frame_rows[of _ "\<lambda>r. ob_id r = ob_id x" ?f]) simp_all
  qed
qed

definition fresh_recovery :: "runtime \<Rightarrow> db \<Rightarrow> bool" where
  "fresh_recovery rt d \<longleftrightarrow> (\<forall>i e c. rt_outboxId rt i e c \<notin> ob_id ` set (outbox d))"

lemma ensureRecovery_frame:
  assumes "ensureRecoveryAfterLateDownSuccess rt down now d = Inr (st, d')" "fresh_recovery rt d"
  shows "ledger_frame d d'"
  using assms(1)
proof (cases rule: ensureRecovery_cases)
  case none
  then show ?thesis by simp
next
  case (late inc m i r)
  then show ?thesis using late_recovery_frame assms(2) unfolding fresh_recovery_def by blast
qed

lemma delivered_fields [simp]:
  "nd_id (delivered pm t n) = nd_id n" "nd_outboxId (delivered pm t n) = nd_outboxId n"
  "nd_attempt (delivered pm t n) = nd_attempt n" "nd_status (delivered pm t n) = SUCCEEDED"
  "nd_id (failed_delivery e t n) = nd_id n" "nd_outboxId (failed_delivery e t n) = nd_outboxId n"
  "nd_attempt (failed_delivery e t n) = nd_attempt n" "nd_status (failed_delivery e t n) \<noteq> ATTEMPTING"
  by (simp_all add: delivered_def failed_delivery_def)

lemma ledger_settle:
  assumes "ledger_inv d" "d' = d\<lparr>deliveries := update_where p f (deliveries d), outbox := update_where q g (outbox d)\<rparr>"
    "\<And>n. nd_id (f n) = nd_id n \<and> nd_outboxId (f n) = nd_outboxId n \<and> nd_attempt (f n) = nd_attempt n \<and>
         nd_status (f n) \<noteq> ATTEMPTING"
    "\<And>r. ob_id (g r) = ob_id r \<and> ob_attemptCount (g r) = ob_attemptCount r \<and> ob_maxAttempts (g r) = ob_maxAttempts r"
  shows "ledger_inv d'"
proof -
  have "ledger_frame d (d\<lparr>deliveries := update_where p f (deliveries d)\<rparr>)"
    by (rule ledger_frame_deliveries[of _ p f]) (simp_all add: assms(3))
  moreover have "ledger_frame (d\<lparr>deliveries := update_where p f (deliveries d)\<rparr>) d'"
    by (rule ledger_frame_rows[of _ q g]) (simp_all add: assms(2,4))
  ultimately show ?thesis using assms(1) ledger_frame_inv by blast
qed

lemma markSent_ledger:
  assumes "ledger_inv d" "markSent rt c pm now d = Inr d'" "fresh_recovery rt d"
  shows "ledger_inv d'"
proof (rule markSent_cases[OF assms(2)], goal_cases)
  case (1 d2)
  let ?p = "\<lambda>r. ob_id r = ob_id (cn_row c) \<and> ob_status r \<noteq> NotificationOutboxStatus.CANCELED"
  have inv: "ledger_inv d2" by (rule ledger_settle[OF assms(1) 1(1)]) simp_all
  have "map ob_id (outbox d2) = map ob_id (outbox d)" by (simp add: 1(1) map_update_where_frame)
  then have "ob_id ` set (outbox d2) = ob_id ` set (outbox d)" by (metis set_map)
  with assms(3) have fresh: "fresh_recovery rt d2" by (simp add: fresh_recovery_def)
  from 1(2) show ?case
  proof (elim disjE exE conjE)
    assume "d' = d2"
    with inv show ?thesis by simp
  next
    fix st d3
    assume d3: "ensureRecoveryAfterLateDownSuccess rt (cn_row c) now d2 = Inr (st, d3)" "d' = d3"
    show ?thesis unfolding d3(2) by (rule ledger_frame_inv[OF inv ensureRecovery_frame[OF d3(1) fresh]])
  next
    fix st d3
    assume d3: "ensureRecoveryAfterLateDownSuccess rt (cn_row c) now d2 = Inr (st, d3)"
      "d' = set_row (ob_id (cn_row c)) retiredNotificationSecretData d3"
    have "ledger_frame d3 d'" unfolding d3(2)
      by (rule ledger_frame_rows[of _ "\<lambda>r. ob_id r = ob_id (cn_row c)" retiredNotificationSecretData]) simp_all
    then show ?thesis
      using ledger_frame_inv[OF ledger_frame_inv[OF inv ensureRecovery_frame[OF d3(1) fresh]]] by blast
  qed
qed

lemma markFailed_ledger:
  assumes "ledger_inv d" "markFailed c e random now d = Inr (retry, d')"
  shows "ledger_inv d'"
proof (rule markFailed_cases[OF assms(2)], goal_cases)
  case (1 f d2)
  have inv: "ledger_inv d2" by (rule ledger_settle[OF assms(1) 1(3)]) (simp_all add: 1(2))
  with 1(4) show ?case using ledger_frame_inv cancel_recoveries_frame by blast
qed

lemma attempt_ledger_start:
  assumes "attempt_ledger rows ns" "(i, a, m) \<in> set rows" "a < m" "newId \<notin> fst ` set ns"
  shows "attempt_ledger (map (\<lambda>(j, c, l). (j, if j = i then c + 1 else c, l)) rows) (ns @ [(newId, i, a + 1)])"
    and "(i, a + 1) \<notin> snd ` set ns"
proof -
  let ?f = "\<lambda>(j, c, l). (j, if j = i then c + 1 else c, l :: int)"
  have ids: "map fst (map ?f rows) = map fst rows" by (induction rows) auto
  have uniq: "c = a \<and> l = m" if "(i, c, l) \<in> set rows" for c l
    using assms(1,2) that eq_key_imp_eq_value[of rows i "(c, l)" "(a, m)"]
    by (simp add: attempt_ledger_def)
  show new: "(i, a + 1) \<notin> snd ` set ns"
  proof
    assume "(i, a + 1) \<in> snd ` set ns"
    then obtain k where "(k, i, a + 1) \<in> set ns" by auto
    with assms(1) obtain c l where "(i, c, l) \<in> set rows" "a + 1 \<le> c"
      unfolding attempt_ledger_def by fastforce
    with uniq show False by fastforce
  qed
  have bounds: "0 \<le> c \<and> c \<le> l" if c: "(j, c, l) \<in> set (map ?f rows)" for j c l
  proof -
    from c obtain c0 where c0: "(j, c0, l) \<in> set rows" "c = (if j = i then c0 + 1 else c0)" by auto
    with assms(1) have "0 \<le> c0 \<and> c0 \<le> l" unfolding attempt_ledger_def by blast
    with c0 assms(3) uniq[of c0 l] show ?thesis by (auto split: if_splits)
  qed
  have owner: "\<exists>(j, c, l) \<in> set (map ?f rows). j = x \<and> 1 \<le> y \<and> y \<le> c"
    if n: "(k, x, y) \<in> set (ns @ [(newId, i, a + 1)])" for k x y
  proof (cases "(k, x, y) \<in> set ns")
    case True
    with assms(1) obtain c l where c: "(x, c, l) \<in> set rows" "1 \<le> y" "y \<le> c"
      unfolding attempt_ledger_def by fastforce
    then have "(x, if x = i then c + 1 else c, l) \<in> set (map ?f rows)" by force
    with c(2,3) show ?thesis by (intro bexI[of _ "(x, if x = i then c + 1 else c, l)"]) auto
  next
    case False
    with n have "x = i" "y = a + 1" by auto
    moreover have "(i, a + 1, m) \<in> set (map ?f rows)" using assms(2) by force
    moreover have "0 \<le> a" using assms(1,2) unfolding attempt_ledger_def by blast
    ultimately show ?thesis by (intro bexI[of _ "(i, a + 1, m)"]) auto
  qed
  have "distinct (map fst (ns @ [(newId, i, a + 1)]))" "distinct (map snd (ns @ [(newId, i, a + 1)]))"
    using assms(1,4) new by (simp_all add: attempt_ledger_def)
  moreover have "distinct (map fst (map ?f rows))" using assms(1) unfolding ids by (simp add: attempt_ledger_def)
  ultimately show "attempt_ledger (map ?f rows) (ns @ [(newId, i, a + 1)])"
    using bounds owner unfolding attempt_ledger_def by blast
qed

lemma interrupt_fields:
  "delivery_view (interrupt_attempts i t d) = delivery_view d"
  "attempting j (interrupt_attempts i t d) = (if j = i then 0 else attempting j d)"
proof -
  let ?p = "\<lambda>n. nd_outboxId n = i \<and> nd_status n = ATTEMPTING"
  let ?f = "\<lambda>n. n\<lparr>nd_status := NotificationDeliveryStatus.UNKNOWN,
                nd_errorSafe := Some interrupted_message, nd_finishedAt := Some t\<rparr>"
  show "delivery_view (interrupt_attempts i t d) = delivery_view d"
    by (rule delivery_view_update[of _ ?p ?f]) (simp_all add: interrupt_attempts_def)
  have "count_where (\<lambda>n. nd_outboxId n = j \<and> nd_status n = ATTEMPTING) (update_where ?p ?f xs) =
      (if j = i then 0 else count_where (\<lambda>n. nd_outboxId n = j \<and> nd_status n = ATTEMPTING) xs)" for xs
    by (induction xs) auto
  moreover have eq: "deliveries (interrupt_attempts i t d) = update_where ?p ?f (deliveries d)"
    by (simp add: interrupt_attempts_def)
  ultimately show "attempting j (interrupt_attempts i t d) = (if j = i then 0 else attempting j d)"
    unfolding attempting_def eq by blast
qed

lemma interrupt_frame: "ledger_frame d (interrupt_attempts i t d)"
  using interrupt_fields by (simp add: ledger_frame_def attempt_view_def)

lemma attempt_view_start:
  "attempt_view (set_row i (processing_row w t u) d) =
     map (\<lambda>(j, c, l). (j, if j = i then c + 1 else c, l)) (attempt_view d)"
  by (simp add: attempt_view_def update_where_def)

lemma find_by_attempt:
  "find_by ob_id i (outbox d) = Some r \<Longrightarrow> (i, ob_attemptCount r, ob_maxAttempts r) \<in> set (attempt_view d)"
  using find_by_Some[of ob_id i "outbox d" r] by (force simp: attempt_view_def)

lemma claim_ledger:
  assumes "ledger_inv d" "newId \<notin> nd_id ` set (deliveries d)" "claim config newId i now d = Inr (out, d')"
  shows "ledger_inv d'"
  using assms(3)
proof (cases rule: claim_cases)
  case unchanged
  with assms(1) show ?thesis by simp
next
  case disabled
  have "ledger_frame d d'" unfolding disabled(2)
    by (rule ledger_frame_rows[of _ "\<lambda>r. ob_id r = i" "disabled_row now"]) simp_all
  with assms(1) show ?thesis by (rule ledger_frame_inv)
next
  case unsent
  with interrupt_frame assms(1) show ?thesis using ledger_frame_inv by blast
next
  case (exhausted r)
  have inv: "ledger_inv (interrupt_attempts i now d)" by (rule ledger_frame_inv[OF assms(1) interrupt_frame])
  have "ledger_frame (interrupt_attempts i now d)
      (set_row i (failed_row now exhausted_message) (interrupt_attempts i now d))"
    by (rule ledger_frame_rows[of _ "\<lambda>r. ob_id r = i" "failed_row now exhausted_message"]) simp_all
  from ledger_frame_inv[OF ledger_frame_inv[OF inv this] cancel_recoveries_frame] show ?thesis
    unfolding exhausted(5) .
next
  case (claimed r)
  let ?p = "processing_row (np_instanceId config) now (now + np_leaseMs config)"
  note d' = create_delivery_Inr[OF claimed(7)]
  have i: "ob_id r = i" using find_by_Some[OF claimed(2)] by simp
  have rows: "attempt_view d' = map (\<lambda>(j, c, l). (j, if j = i then c + 1 else c, l)) (attempt_view d)"
    using attempt_view_start[of i "np_instanceId config" now "now + np_leaseMs config" d]
    by (simp add: d' attempt_view_def)
  have ns: "delivery_view d' = delivery_view d @ [(newId, i, ob_attemptCount r + 1)]"
    using interrupt_fields(1)[of i now d] by (simp add: d' delivery_view_def new_delivery_def i)
  have old: "newId \<notin> fst ` set (delivery_view d)" using assms(2) by (force simp: delivery_view_def)
  have L: "attempt_ledger (attempt_view d) (delivery_view d)" using assms(1) by (simp add: ledger_inv_def)
  have "attempt_ledger (attempt_view d') (delivery_view d')"
    unfolding rows ns by (rule attempt_ledger_start(1)[OF L find_by_attempt[OF claimed(2)] claimed(6) old])
  moreover have "attempting j d' \<le> 1" for j
  proof -
    have "attempting j d' = attempting j (interrupt_attempts i now d) + (if j = i then 1 else 0)"
      by (simp add: d' attempting_def new_delivery_def i)
    with interrupt_fields(2)[of j i now d] assms(1) show ?thesis by (simp add: ledger_inv_def)
  qed
  ultimately show ?thesis by (simp add: ledger_inv_def)
qed

text \<open>With the ledger intact the unique index never refuses a new delivery.\<close>

lemma claim_total:
  assumes "ledger_inv d" "newId \<notin> nd_id ` set (deliveries d)"
  shows "\<exists>res. claim config newId i now d = Inr res"
proof (cases "claim config newId i now d")
  case (Inl e)
  then obtain r where r: "find_by ob_id i (outbox d) = Some r" "start_attempt config newId r now d = Inl e"
    by (auto simp: claim_def split: option.splits if_splits)
  have i: "ob_id r = i" using find_by_Some[OF r(1)] by simp
  let ?d = "set_row i (processing_row (np_instanceId config) now (now + np_leaseMs config)) (interrupt_attempts i now d)"
  from r(2) i have less: "ob_attemptCount r < ob_maxAttempts r" and c: "create_delivery (new_delivery newId r now) ?d = Inl e"
    by (auto simp: start_attempt_def Let_def split: if_splits sum.splits)
  from c have "\<exists>n \<in> set (deliveries (interrupt_attempts i now d)). nd_outboxId n = i \<and> nd_attempt n = ob_attemptCount r + 1"
    by (auto simp: create_delivery_def new_delivery_def i split: if_splits)
  then have "(i, ob_attemptCount r + 1) \<in> snd ` set (delivery_view (interrupt_attempts i now d))"
    by (force simp: delivery_view_def)
  then have "(i, ob_attemptCount r + 1) \<in> snd ` set (delivery_view d)" by (simp add: interrupt_fields)
  moreover have "newId \<notin> fst ` set (delivery_view d)" using assms(2) by (force simp: delivery_view_def)
  ultimately show ?thesis
    using attempt_ledger_start(2)[OF _ find_by_attempt[OF r(1)] less] assms(1) by (auto simp: ledger_inv_def)
qed blast

section \<open>Workers and dispatchers side by side\<close>

text \<open>
  The database and the notifications some worker holds. A worker claims a row, settles a
  notification it holds, or dies with it; dispatchers pass over the outbox in between, each
  pass of \<open>dispatch_outbox\<close> being a \<open>pass_step\<close>.
\<close>

inductive worker_step ::
  "db \<times> ClaimedNotification list \<Rightarrow> db \<times> ClaimedNotification list \<Rightarrow> bool" where
  ws_claimed: "\<lbrakk>claim config newId i now d = Inr (Some c, d'); newId \<notin> nd_id ` set (deliveries d)\<rbrakk> \<Longrightarrow>
     worker_step (d, cs) (d', c # cs)"
| ws_refused: "claim config newId i now d = Inr (None, d') \<Longrightarrow> worker_step (d, cs) (d', cs)"
| ws_sent: "\<lbrakk>c \<in> set cs; markSent rt c pm now d = Inr d'; fresh_recovery rt d\<rbrakk> \<Longrightarrow>
     worker_step (d, cs) (d', remove1 c cs)"
| ws_failed: "\<lbrakk>c \<in> set cs; markFailed c e random now d = Inr (retry, d')\<rbrakk> \<Longrightarrow>
     worker_step (d, cs) (d', remove1 c cs)"
| ws_died: "c \<in> set cs \<Longrightarrow> worker_step (d, cs) (d, remove1 c cs)"
| ws_dispatch: "pass_step owner now leaseUntil d d' \<Longrightarrow> worker_step (d, cs) (d', cs)"

inductive_cases worker_stepE: "worker_step (d, cs) s'"

lemma claim_refused_ledger:
  assumes "ledger_inv d" "claim config newId i now d = Inr (None, d')"
  shows "ledger_inv d'"
  using assms(2)
proof (cases rule: claim_cases)
  case unchanged
  with assms(1) show ?thesis by simp
next
  case disabled
  have "ledger_frame d d'" unfolding disabled(2)
    by (rule ledger_frame_rows[of _ "\<lambda>r. ob_id r = i" "disabled_row now"]) simp_all
  with assms(1) show ?thesis by (rule ledger_frame_inv)
next
  case unsent
  with interrupt_frame assms(1) show ?thesis using ledger_frame_inv by blast
next
  case (exhausted r)
  have "ledger_frame (interrupt_attempts i now d)
      (set_row i (failed_row now exhausted_message) (interrupt_attempts i now d))"
    by (rule ledger_frame_rows[of _ "\<lambda>r. ob_id r = i" "failed_row now exhausted_message"]) simp_all
  from ledger_frame_inv[OF ledger_frame_inv[OF ledger_frame_inv[OF assms(1) interrupt_frame] this]
      cancel_recoveries_frame] show ?thesis unfolding exhausted(5) .
qed simp

lemma moved_attempts:
  assumes "dispatch_moved owner now until d r r'"
  shows "ob_attemptCount r' = ob_attemptCount r \<and> ob_maxAttempts r' = ob_maxAttempts r"
  using assms unfolding dispatch_moved_def
  by (auto simp: deferred_row_def canceled_row_def released_row_def enqueued_row_def Let_def)

lemma pass_frame:
  assumes "pass_step owner now until d d'"
  shows "ledger_frame d d'" and "keeps_sent d d'"
proof -
  from assms have all: "list_all2 (dispatch_moved owner now until d) (outbox d) (outbox d')"
    and "d' = d\<lparr>outbox := outbox d'\<rparr>" by (simp_all add: pass_step_def)
  then obtain rows where d': "d' = d\<lparr>outbox := rows\<rparr>" by metis
  from all have "attempt_view d' = attempt_view d" unfolding attempt_view_def
    by (induction rule: list_all2_induct) (auto dest: moved_attempts moved_keys(1))
  then show "ledger_frame d d'" by (simp add: ledger_frame_def delivery_view_def attempting_def d')
  have keeps: "find_by ob_id i xs = Some r \<Longrightarrow> ob_status r = SENT \<Longrightarrow>
      \<exists>r'. find_by ob_id i ys = Some r' \<and> ob_status r' = SENT"
    if "list_all2 (dispatch_moved owner now until e) xs ys" for i r xs ys e
    using that
  proof (induction arbitrary: r rule: list_all2_induct)
    case Nil
    then show ?case by (simp add: find_by_def)
  next
    case (Cons x xs y ys)
    then show ?case
      using moved_keys(1)[OF Cons.hyps(1)] moved_sent[OF Cons.hyps(1)]
      by (cases "ob_id x = i") (auto simp: find_by_def)
  qed
  show "keeps_sent d d'"
  proof (unfold keeps_sent_def, intro allI impI)
    fix i assume "row_status d i = Some SENT"
    then obtain r where "find_by ob_id i (outbox d) = Some r" "ob_status r = SENT"
      by (auto simp: row_status_def)
    from keeps[OF all this] show "row_status d' i = Some SENT" by (auto simp: row_status_def)
  qed
qed

lemma worker_step_inv:
  assumes "worker_step s s'" "ledger_inv (fst s)"
  shows "ledger_inv (fst s') \<and> keeps_sent (fst s) (fst s')"
  using assms
proof (induction rule: worker_step.induct)
  case (ws_claimed config newId i now d c d' cs)
  from claim_ledger[OF _ ws_claimed(2,1)] claim_sent[OF ws_claimed(1)] ws_claimed(3) show ?case by simp
next
  case (ws_refused config newId i now d d' cs)
  from claim_refused_ledger[OF _ ws_refused(1)] claim_sent[OF ws_refused(1)] ws_refused(2) show ?case by simp
next
  case (ws_sent c cs rt pm now d d')
  from markSent_ledger[OF _ ws_sent(2,3)] markSent_sent[OF ws_sent(2) ledger_ids] ws_sent(4) show ?case by simp
next
  case (ws_failed c cs e random now d retry d')
  from markFailed_ledger[OF _ ws_failed(2)] markFailed_sent[OF ws_failed(2)] ws_failed(3) show ?case by simp
next
  case (ws_died c cs d)
  then show ?case by (simp add: keeps_sent_same)
next
  case (ws_dispatch owner now leaseUntil d d' cs)
  from ledger_frame_inv[OF _ pass_frame(1)[OF ws_dispatch(1)]] pass_frame(2)[OF ws_dispatch(1)] ws_dispatch(2) show ?case by simp
qed

lemma worker_run_inv:
  assumes "worker_step\<^sup>*\<^sup>* s s'" "ledger_inv (fst s)"
  shows "ledger_inv (fst s') \<and> keeps_sent (fst s) (fst s')"
  using assms(1)
proof (induction rule: rtranclp_induct)
  case base
  with assms(2) show ?case by (simp add: keeps_sent_same)
next
  case (step y z)
  with worker_step_inv show ?case using keeps_sent_trans by blast
qed

section \<open>Properties\<close>

text \<open>C33. Any number of workers claiming, sending, failing and dying, with dispatch passes in
between, keep the ledger of attempts: no row is attempted more than its maximum, delivery
records carry distinct attempt numbers of their own row, at most one attempt of a row is
open; and on every database so reached a claim succeeds, the unique index never refusing it.\<close>

theorem attempts_stay_in_ledger:
  assumes "worker_step\<^sup>*\<^sup>* (d0, cs0) (d, cs)" "ledger_inv d0"
  shows "ledger_inv d \<and>
    (newId \<notin> nd_id ` set (deliveries d) \<longrightarrow> (\<exists>res. claim config newId i now d = Inr res))"
  using worker_run_inv[OF assms(1)] assms(2) claim_total by simp

definition processor_config :: NotificationProcessorConfig where
  "processor_config = \<lparr>np_instanceId = js ''w'', np_leaseMs = 500, np_decipher = (\<lambda>_ _ _. Some [])\<rparr>"

lemma outbox_db_ledger: "ledger_inv (outbox_db st)"
  by (simp add: ledger_inv_def attempt_ledger_def attempt_view_def delivery_view_def attempting_def
      outbox_db_def empty_db_def example_outbox_def js_inj)

lemma example_claim:
  "\<exists>c d'. claim processor_config (js ''n'') (js ''d'') 2000 (outbox_db NotificationOutboxStatus.PENDING)
     = Inr (Some c, d') \<and> length (deliveries d') = 1"
  by (simp add: claim_def outbox_db_def empty_db_def example_outbox_def example_channel_def find_by_def
      channel_live_def claimable_def start_attempt_def Let_def recovery_of_def interrupt_attempts_def
      create_delivery_def new_delivery_def)

theorem attempts_stay_in_ledger_witness:
  "\<exists>cs d. worker_step\<^sup>*\<^sup>* (outbox_db NotificationOutboxStatus.PENDING, []) (d, cs) \<and>
     length cs = 1 \<and> ledger_inv d"
proof -
  let ?d0 = "outbox_db NotificationOutboxStatus.PENDING"
  obtain c d' where c: "claim processor_config (js ''n'') (js ''d'') 2000 ?d0 = Inr (Some c, d')"
    using example_claim by (elim exE conjE) (rule that)
  have "worker_step (?d0, []) (d', [c])"
    by (rule ws_claimed[OF c]) (simp add: outbox_db_def empty_db_def)
  then have run: "worker_step\<^sup>*\<^sup>* (?d0, []) (d', [c])" by (rule r_into_rtranclp)
  from attempts_stay_in_ledger[OF run outbox_db_ledger] have "ledger_inv d'" by blast
  with run show ?thesis by (intro exI[of _ "[c]"] exI[of _ d']) simp
qed

text \<open>C32. A delivery the provider confirmed is final: once a row is SENT it stays SENT whatever any
worker, late failure, interrupted attempt, disabled channel or dispatch pass does later.\<close>

theorem sent_is_final:
  assumes "worker_step\<^sup>*\<^sup>* (d0, cs0) (d, cs)" "ledger_inv d0" "row_status d0 i = Some SENT"
  shows "row_status d i = Some SENT"
  using worker_run_inv[OF assms(1)] assms(2,3) by (simp add: keeps_sent_def)

theorem sent_is_final_witness:
  "\<exists>d. worker_step\<^sup>*\<^sup>* (outbox_db SENT, []) (d, []) \<and>
     row_status d (js ''d'') = Some SENT \<and> outbox d \<noteq> outbox (outbox_db SENT)"
proof -
  let ?d0 = "outbox_db SENT"
  obtain d' where d': "dispatch_outbox counting_queue (js ''w'') 500 2000 1 ?d0 0 = (1, d', 1)"
    "map ob_status (outbox d') = [SENT, NotificationOutboxStatus.ENQUEUED]"
    using example_dispatch by (elim exE conjE) (rule that)
  have "pass_step (js ''w'') 2000 (2000 + 500) ?d0 d'"
    using dispatch_outbox_pass[OF outbox_db_distinct _ d'(1)] by simp
  then have run: "worker_step\<^sup>*\<^sup>* (?d0, []) (d', [])" by (intro r_into_rtranclp ws_dispatch)
  have sent: "row_status ?d0 (js ''d'') = Some SENT"
    by (simp add: row_status_def outbox_db_def example_outbox_def find_by_def)
  have "map ob_status (outbox ?d0) \<noteq> map ob_status (outbox d')"
    unfolding d'(2) by (simp add: outbox_db_def example_outbox_def)
  then have "outbox d' \<noteq> outbox ?d0" by metis
  with run sent_is_final[OF run outbox_db_ledger sent] show ?thesis by blast
qed

section \<open>Settling one notification\<close>

lemma count_where_one:
  assumes "distinct (map ob_id rows)" "find_by ob_id i rows = Some r" "p r"
  shows "count_where (\<lambda>r. ob_id r = i \<and> p r) rows = 1"
proof -
  have "count_where (\<lambda>r. ob_id r = i \<and> p r) rows \<noteq> 0"
    using find_by_Some[OF assms(2)] assms(3) by (auto simp: count_where_zero_iff)
  with count_where_key[OF assms(1), of i p] show ?thesis by simp
qed

lemma markSent_current:
  assumes "markSent rt c pm now d = Inr d'" "distinct (map ob_id (outbox d))"
    "find_by ob_id (ob_id (cn_row c)) (outbox d) = Some r" "ob_status r \<noteq> NotificationOutboxStatus.CANCELED"
  obtains d2 st d3 where
    "d2 = d\<lparr>deliveries := update_where (\<lambda>n. nd_id n = cn_deliveryId c) (delivered pm now) (deliveries d),
            outbox := update_where (\<lambda>r. ob_id r = ob_id (cn_row c) \<and>
              ob_status r \<noteq> NotificationOutboxStatus.CANCELED) (sent_row now) (outbox d)\<rparr>"
    "ensureRecoveryAfterLateDownSuccess rt (cn_row c) now d2 = Inr (st, d3)"
    "if shouldRetainNotificationSecret \<lparr>nss_status = SENT, nss_eventType = ob_eventType (cn_row c),
          nss_lastErrorSafe = None, nss_payloadAllowsRecovery = payloadAllowsRecovery (ob_payloadSafe (cn_row c)),
          nss_incidentStatus = st\<rparr>
     then d' = d3 else d' = set_row (ob_id (cn_row c)) retiredNotificationSecretData d3"
proof -
  from assms(1) obtain d1 where d1: "update_delivery (cn_deliveryId c) (delivered pm now) d = Inr d1"
    by (auto simp: markSent_def split: sum.splits)
  let ?p = "\<lambda>r. ob_id r = ob_id (cn_row c) \<and> ob_status r \<noteq> NotificationOutboxStatus.CANCELED"
  define d2 where "d2 = d1\<lparr>outbox := update_where ?p (sent_row now) (outbox d1)\<rparr>"
  have eq: "d2 = d\<lparr>deliveries := update_where (\<lambda>n. nd_id n = cn_deliveryId c) (delivered pm now) (deliveries d),
      outbox := update_where ?p (sent_row now) (outbox d)\<rparr>"
    by (simp add: d2_def update_delivery_eq[OF d1])
  have "outbox d1 = outbox d" by (simp add: update_delivery_eq[OF d1])
  then have one: "count_where ?p (outbox d1) = 1"
    using count_where_one[OF assms(2,3), of "\<lambda>r. ob_status r \<noteq> NotificationOutboxStatus.CANCELED"] assms(4)
    by simp
  with assms(1) obtain st d3 where d3: "ensureRecoveryAfterLateDownSuccess rt (cn_row c) now d2 = Inr (st, d3)"
    by (auto simp: markSent_def d1 Let_def d2_def split: sum.splits)
  show thesis
    by (rule that[OF eq d3])
      (use assms(1) one d3 update_outbox_eq in \<open>auto simp: markSent_def d1 Let_def simp flip: d2_def split: if_splits\<close>)
qed

lemma late_recovery_keeps:
  assumes "late_recovery rt down inc m i t now d = Inr d'" "distinct (map ob_id (outbox d))"
    "find_by ob_id k (outbox d) = Some r" "ob_status r = SENT"
  shows "find_by ob_id k (outbox d') = Some r"
proof (cases "find (recovery_row inc (ob_channelId down)) (outbox d)")
  case None
  with assms(1) obtain x where "create_outbox x d = Inr d'"
    by (auto simp: late_recovery_def Let_def split: sum.splits)
  from create_outbox_Inr[OF this] find_by_append[OF assms(3)] show ?thesis by simp
next
  case (Some x)
  show ?thesis
  proof (cases "undelivered_recovery x")
    case False
    with assms Some show ?thesis by (simp add: late_recovery_def)
  next
    case True
    let ?f = "reactivated_row (ob_encryptedConfigSnapshot down) now"
    from True assms(1) Some have d': "d' = set_row (ob_id x) ?f d"
      by (simp add: late_recovery_def update_outbox_eq)
    have "ob_id r \<noteq> ob_id x"
    proof
      assume "ob_id r = ob_id x"
      then have "find_by ob_id k (outbox d) = Some x"
        using find_by_distinct[OF assms(2), of x k] find_Some_in[OF Some] find_by_Some[OF assms(3)] by simp
      with assms(3,4) True show False by (simp add: undelivered_recovery_def)
    qed
    then show ?thesis by (simp add: d' find_by_update assms(3))
  qed
qed

lemma ensureRecovery_keeps:
  assumes "ensureRecoveryAfterLateDownSuccess rt down now d = Inr (st, d')" "distinct (map ob_id (outbox d))"
    "find_by ob_id k (outbox d) = Some r" "ob_status r = SENT"
  shows "find_by ob_id k (outbox d') = Some r"
  using assms(1)
proof (cases rule: ensureRecovery_cases)
  case none
  with assms(3) show ?thesis by simp
next
  case (late inc m i t)
  then show ?thesis using late_recovery_keeps assms(2-4) by blast
qed

lemma ensureRecovery_open:
  assumes "ensureRecoveryAfterLateDownSuccess rt down now d = Inr (Some IncidentStatus.OPEN, d')"
  shows "\<exists>inc i. down_of down = Some inc \<and> find_by ic_id inc (incidents d) = Some i \<and> open_incident i"
  using assms
  by (auto simp: ensureRecoveryAfterLateDownSuccess_def Let_def open_incident_def
      split: option.splits if_splits sum.splits)

lemma shouldRetain_sent:
  "shouldRetainNotificationSecret \<lparr>nss_status = SENT, nss_eventType = ev, nss_lastErrorSafe = e,
      nss_payloadAllowsRecovery = a, nss_incidentStatus = st\<rparr> \<longleftrightarrow>
   ev = NotificationEventType.DOWN \<and> a \<and> st = Some IncidentStatus.OPEN"
  by (simp add: shouldRetainNotificationSecret_def TERMINAL_STATUSES_def)

definition still_needed :: "NotificationOutbox \<Rightarrow> db \<Rightarrow> bool" where
  "still_needed r d \<longleftrightarrow> payloadAllowsRecovery (ob_payloadSafe r) \<and>
     (\<exists>inc i. down_of r = Some inc \<and> find_by ic_id inc (incidents d) = Some i \<and> open_incident i)"

lemma markSent_settles:
  assumes "markSent rt c pm now d = Inr d'" "distinct (map ob_id (outbox d))"
    "find_by ob_id (ob_id (cn_row c)) (outbox d) = Some r" "ob_status r \<noteq> NotificationOutboxStatus.CANCELED"
  shows "\<exists>r'. find_by ob_id (ob_id (cn_row c)) (outbox d') = Some r' \<and> ob_status r' = SENT \<and>
    (ob_encryptedConfigSnapshot r' = secretTombstoneBytes \<or> still_needed (cn_row c) d)"
proof (rule markSent_current[OF assms], goal_cases)
  case (1 d2 st d3)
  let ?i = "ob_id (cn_row c)"
  have out: "outbox d2 = update_where (\<lambda>r. ob_id r = ?i \<and>
      ob_status r \<noteq> NotificationOutboxStatus.CANCELED) (sent_row now) (outbox d)" by (simp add: 1(1))
  have "find_by ob_id ?i (outbox d2) = Some (sent_row now r)"
    using find_by_Some[OF assms(3)] assms(4) by (simp add: out find_by_update assms(3))
  moreover have "distinct (map ob_id (outbox d2))" using assms(2) by (simp add: out distinct_update_where)
  ultimately have d3: "find_by ob_id ?i (outbox d3) = Some (sent_row now r)"
    using ensureRecovery_keeps[OF 1(2)] by simp
  show ?case
  proof (cases "d' = d3")
    case False
    with 1(3) have "d' = set_row ?i retiredNotificationSecretData d3" by (simp split: if_splits)
    with d3 find_by_Some[OF assms(3)] show ?thesis by (simp add: find_by_update)
  next
    case same: True
    show ?thesis
    proof (cases "ob_eventType (cn_row c) = NotificationEventType.DOWN \<and>
        payloadAllowsRecovery (ob_payloadSafe (cn_row c)) \<and> st = Some IncidentStatus.OPEN")
      case True
      with 1(2) have "still_needed (cn_row c) d2" using ensureRecovery_open by (simp add: still_needed_def)
      then have "still_needed (cn_row c) d" by (simp add: still_needed_def 1(1))
      with same d3 show ?thesis by simp
    next
      case False
      with 1(3) have "d' = set_row ?i retiredNotificationSecretData d3" unfolding shouldRetain_sent by argo
      with d3 find_by_Some[OF assms(3)] show ?thesis by (simp add: find_by_update)
    qed
  qed
qed

lemma cancel_recoveries_keeps:
  assumes "find_by ob_id k (outbox d) = Some r" "ob_status r = NotificationOutboxStatus.FAILED"
  shows "find_by ob_id k (outbox (cancel_recoveries x now d)) = Some r"
proof (cases "down_of x")
  case None
  with assms(1) show ?thesis by (simp add: cancel_recoveries_def)
next
  case (Some i)
  with assms show ?thesis
    by (simp add: cancel_recoveries_def find_by_update) (simp add: waiting_recovery_def)
qed

lemma markFailed_settles:
  assumes "markFailed c e random now d = Inr (retry, d')"
    "find_by ob_id (ob_id (cn_row c)) (outbox d) = Some r" "current_attempt c r"
  shows "\<exists>r'. find_by ob_id (ob_id (cn_row c)) (outbox d') = Some r' \<and>
    ob_attemptCount r' = cn_deliveryAttempt c \<and>
    (if retry then cn_deliveryAttempt c < ob_maxAttempts (cn_row c) \<and> ob_status r' = RETRY \<and>
        ob_availableAt r' = retry_available c e random now
     else ob_status r' = NotificationOutboxStatus.FAILED \<and>
        ob_encryptedConfigSnapshot r' = secretTombstoneBytes)"
proof (rule markFailed_cases[OF assms(1)], goal_cases)
  case (1 f d2)
  let ?i = "ob_id (cn_row c)"
  have out: "outbox d2 = update_where (current_attempt c) f (outbox d)" by (simp add: 1(3))
  have fr: "find_by ob_id ?i (outbox d2) = Some (f r)"
    unfolding out by (subst find_by_update) (simp_all add: 1(2) assms(2,3))
  have count: "ob_attemptCount r = cn_deliveryAttempt c" using assms(3) by (simp add: current_attempt_def)
  show ?case
  proof (cases retry)
    case True
    then have "d' = d2" using assms(1) 1(2,3) by (auto simp: markFailed_def Let_def split: sum.splits dest!: update_delivery_eq)
    with True fr count 1(1,2) show ?thesis by (simp add: will_retry_def) (simp add: retry_row_def)
  next
    case False
    have "find_by ob_id ?i (outbox d') = Some (f r)"
      using 1(4) fr cancel_recoveries_keeps[OF fr] False by (auto simp: 1(2))
    with False count show ?thesis by (simp add: 1(2))
  qed
qed

lemma retry_available_after:
  assumes "0 \<le> random" "random < 1"
  shows "now + 1500 \<le> retry_available c e random now"
proof -
  have "1500 \<le> retryDelayMs (cn_deliveryAttempt c) random"
    using retryDelayMs_bounds(1)[OF assms] retry_base_bounds(1)[of "cn_deliveryAttempt c"] by smt
  then show ?thesis unfolding retry_available_def by linarith
qed

lemma claim_find:
  assumes "claim config newId i now d = Inr (Some c, d')" "ledger_inv d"
  shows "ob_id (cn_row c) = i \<and> find_by ob_id i (outbox d') = Some (cn_row c) \<and> current_attempt c (cn_row c) \<and>
    distinct (map ob_id (outbox d'))"
  using assms(1)
proof (cases rule: claim_cases)
  case (claimed r)
  have i: "ob_id r = i" using find_by_Some[OF claimed(2)] by simp
  let ?p = "processing_row (np_instanceId config) now (now + np_leaseMs config)"
  have d': "outbox d' = update_where (\<lambda>r. ob_id r = i) ?p (outbox d)"
    by (simp add: create_delivery_Inr[OF claimed(7)])
  have "find_by ob_id i (outbox d') = Some (?p r)"
    unfolding d' by (simp add: find_by_update claimed(2) i)
  moreover have "distinct (map ob_id (outbox d'))"
    using ledger_ids[OF assms(2)] by (simp add: d' distinct_update_where)
  ultimately show ?thesis using claimed(1) i by (simp add: current_attempt_def)
qed simp_all

lemma claim_refused_deliveries:
  assumes "claim config newId i now d = Inr (None, d')"
  shows "length (deliveries d') = length (deliveries d)"
  using assms
proof (cases rule: claim_cases)
  case (exhausted r)
  then show ?thesis by (simp add: cancel_recoveries_def interrupt_attempts_def split: option.splits)
qed (simp_all add: interrupt_attempts_def)

text \<open>What a job leaves behind: after a confirmed send the row is SENT and its destination is
retired unless it is a DOWN whose incident is still open and will need it for the recovery;
after a retryable failure attempts are left and the row waits at least a second and a half;
after a final failure the row is FAILED and its destination retired; an ignored job starts
no delivery.\<close>

theorem notification_job_outcome:
  assumes "ledger_inv d" "0 \<le> random" "random < 1"
    "process_notification config rt parse adapter newId random (\<lambda>x. x) clock data d = (Inr res, d')"
  shows "case res of
      Ignored \<Rightarrow> length (deliveries d') = length (deliveries d)
    | Sent \<Rightarrow> \<exists>r r'. find_by ob_id (nj_outboxId data) (outbox d) = Some r \<and>
        find_by ob_id (nj_outboxId data) (outbox d') = Some r' \<and> ob_status r' = SENT \<and>
        (ob_encryptedConfigSnapshot r' = secretTombstoneBytes \<or> still_needed r d)
    | Retried \<Rightarrow> \<exists>r'. find_by ob_id (nj_outboxId data) (outbox d') = Some r' \<and> ob_status r' = RETRY \<and>
        nt_settledAt clock + 1500 \<le> ob_availableAt r'
    | Failed_finally \<Rightarrow> \<exists>r'. find_by ob_id (nj_outboxId data) (outbox d') = Some r' \<and>
        ob_status r' = NotificationOutboxStatus.FAILED \<and>
        ob_encryptedConfigSnapshot r' = secretTombstoneBytes"
proof -
  let ?i = "nj_outboxId data"
  from assms(4) obtain out d1 where cl: "claim config newId ?i (nt_claimedAt clock) d = Inr (out, d1)"
    by (auto simp: process_notification_def split: sum.splits)
  show ?thesis
  proof (cases out)
    case None
    with cl assms(4) have "res = Ignored" "d' = d1" by (simp_all add: process_notification_def)
    with claim_refused_deliveries[OF cl[unfolded None]] show ?thesis by simp
  next
    case (Some c)
    with cl have cl: "claim config newId ?i (nt_claimedAt clock) d = Inr (Some c, d1)" by simp
    note row = claim_find[OF cl assms(1)]
    show ?thesis
    proof (cases "attempt_send config parse adapter (cn_row c) (nt_parsedAt clock)")
      case (Inl e)
      with cl assms(4) obtain retry where mf: "markFailed c e random (nt_settledAt clock) d1 = Inr (retry, d')"
        and res: "res = (if retry then Retried else Failed_finally)"
        by (auto simp: process_notification_def split: sum.splits)
      have "\<exists>r'. find_by ob_id (ob_id (cn_row c)) (outbox d') = Some r' \<and>
        ob_attemptCount r' = cn_deliveryAttempt c \<and>
        (if retry then cn_deliveryAttempt c < ob_maxAttempts (cn_row c) \<and> ob_status r' = RETRY \<and>
            ob_availableAt r' = retry_available c e random (nt_settledAt clock)
         else ob_status r' = NotificationOutboxStatus.FAILED \<and>
            ob_encryptedConfigSnapshot r' = secretTombstoneBytes)"
        by (rule markFailed_settles[OF mf]) (use row in auto)
      with row res retry_available_after[OF assms(2,3), of "nt_settledAt clock" c e] show ?thesis
        by (cases retry) auto
    next
      case (Inr pm)
      with cl assms(4) have ms: "markSent rt c pm (nt_settledAt clock) d1 = Inr d'" and res: "res = Sent"
        by (auto simp: process_notification_def split: sum.splits)
      have "ob_status (cn_row c) \<noteq> NotificationOutboxStatus.CANCELED" using row by (simp add: current_attempt_def)
      then have settled: "\<exists>r'. find_by ob_id (ob_id (cn_row c)) (outbox d') = Some r' \<and> ob_status r' = SENT \<and>
          (ob_encryptedConfigSnapshot r' = secretTombstoneBytes \<or> still_needed (cn_row c) d1)"
        using markSent_settles[OF ms] row by simp
      from cl obtain r where r: "find_by ob_id ?i (outbox d) = Some r" "still_needed (cn_row c) d1 = still_needed r d"
      proof (cases rule: claim_cases)
        case (claimed r)
        from claimed(1) have "cn_row c = processing_row (np_instanceId config) (nt_claimedAt clock)
            (nt_claimedAt clock + np_leaseMs config) r" by simp
        moreover have "incidents d1 = incidents d"
          by (simp add: create_delivery_Inr[OF claimed(7)] interrupt_attempts_def)
        ultimately have "still_needed (cn_row c) d1 = still_needed r d"
          by (simp add: still_needed_def down_of_def processing_row_def)
        with claimed(2) that show thesis by blast
      qed simp_all
      from settled r row res show ?thesis by auto
    qed
  qed
qed

theorem notification_job_outcome_witness:
  "\<exists>d' r'. process_notification processor_config example_runtime (\<lambda>_. Some JNull) (\<lambda>_ _. Inr None) (js ''n'') 0
       (\<lambda>x. x) \<lparr>nt_claimedAt = 2000, nt_parsedAt = 2001, nt_settledAt = 2100\<rparr> \<lparr>nj_outboxId = js ''d''\<rparr>
       (outbox_db NotificationOutboxStatus.PENDING) = (Inr Failed_finally, d') \<and>
     find_by ob_id (js ''d'') (outbox d') = Some r' \<and>
     ob_encryptedConfigSnapshot r' = secretTombstoneBytes"
proof -
  let ?clock = "\<lparr>nt_claimedAt = 2000, nt_parsedAt = 2001, nt_settledAt = 2100\<rparr>"
  let ?run = "process_notification processor_config example_runtime (\<lambda>_. Some JNull) (\<lambda>_ _. Inr None) (js ''n'') 0
       (\<lambda>x. x) ?clock \<lparr>nj_outboxId = js ''d''\<rparr> (outbox_db NotificationOutboxStatus.PENDING)"
  have "decryptJson (np_decipher processor_config) (\<lambda>_. Some JNull) [7] \<noteq> Some (JObj kvs)" for kvs
    by (auto simp: decryptJson_def split: option.splits)
  then have send: "\<exists>e. attempt_send processor_config (\<lambda>_. Some JNull) (\<lambda>_ _. Inr None) r 2001 = Inl e \<and>
      \<not> pe_retryable e" if "ob_encryptedConfigSnapshot r = [7]" for r
    using that by (auto simp: attempt_send_def Let_def internal_error_def configError_def provider_error_def
        decryptJson_def split: option.splits)
  obtain c d1 where c: "claim processor_config (js ''n'') (js ''d'') 2000 (outbox_db NotificationOutboxStatus.PENDING)
      = Inr (Some c, d1)" "deliveries d1 = [new_delivery (js ''n'') (example_outbox (js ''d'')
          NotificationEventType.DOWN NotificationOutboxStatus.PENDING) 2000]"
      "ob_encryptedConfigSnapshot (cn_row c) = [7]" "cn_deliveryId c = js ''n''"
    by (simp add: claim_def outbox_db_def empty_db_def example_outbox_def example_channel_def find_by_def
        channel_live_def claimable_def start_attempt_def Let_def recovery_of_def interrupt_attempts_def
        create_delivery_def new_delivery_def processing_row_def)
  from send[OF c(3)] obtain e where e: "attempt_send processor_config (\<lambda>_. Some JNull) (\<lambda>_ _. Inr None) (cn_row c) 2001 = Inl e"
    "\<not> pe_retryable e" by blast
  have "\<exists>d'. markFailed c e 0 2100 d1 = Inr (False, d')"
    using e(2) c(2,4) by (simp add: markFailed_def update_delivery_def find_by_def new_delivery_def will_retry_def Let_def)
  with c(1) e(1) obtain d' where d': "?run = (Inr Failed_finally, d')"
    by (auto simp: process_notification_def)
  from notification_job_outcome[OF outbox_db_ledger _ _ d'] d' show ?thesis by auto
qed

lemma find_update_where:
  assumes "\<And>r. P (f r) = P r"
  shows "find P (update_where p f rows) = map_option (\<lambda>r. if p r then f r else r) (find P rows)"
  by (induction rows) (auto simp: assms)

lemma find_append_Some: "find P xs = Some r \<Longrightarrow> find P (xs @ ys) = Some r"
  by (induction xs) auto

definition down_row :: "id \<Rightarrow> id \<Rightarrow> NotificationOutbox \<Rightarrow> bool" where
  "down_row incidentId channelId r \<longleftrightarrow> ob_incidentId r = Some incidentId \<and>
     ob_channelId r = channelId \<and> ob_eventType r = NotificationEventType.DOWN"

text \<open>A recovery that a worker can send at once.\<close>

definition resumed_recovery :: "id \<Rightarrow> NotificationOutbox \<Rightarrow> time \<Rightarrow> db \<Rightarrow> NotificationOutbox \<Rightarrow> bool" where
  "resumed_recovery inc down now d y \<longleftrightarrow>
     find_by ob_id (ob_id y) (outbox d) = Some y \<and> recovery_row inc (ob_channelId down) y \<and>
     ob_eventType y = RECOVERY \<and> ob_status y = NotificationOutboxStatus.PENDING \<and> ob_availableAt y = now \<and>
     ob_encryptedConfigSnapshot y = ob_encryptedConfigSnapshot down \<and>
     (\<forall>config newId t. now \<le> t \<and> ob_attemptCount y < ob_maxAttempts y \<and> newId \<notin> nd_id ` set (deliveries d) \<longrightarrow>
        (\<exists>c d1. claim config newId (ob_id y) t d = Inr (Some c, d1) \<and> ob_id (cn_row c) = ob_id y))"

lemma claim_starts:
  assumes "ledger_inv d" "find_by ob_id (ob_id y) (outbox d) = Some y" "channel_live d (ob_channelId y)"
    "ob_status y = NotificationOutboxStatus.PENDING" "ob_availableAt y \<le> t" "ob_attemptCount y < ob_maxAttempts y"
    "newId \<notin> nd_id ` set (deliveries d)" "recovery_of y = Some inc" "down_status d inc (ob_channelId y) = Some SENT"
  shows "\<exists>c d1. claim config newId (ob_id y) t d = Inr (Some c, d1) \<and> ob_id (cn_row c) = ob_id y"
proof -
  obtain res where total: "claim config newId (ob_id y) t d = Inr res" using claim_total[OF assms(1,7)] by blast
  have "claim config newId (ob_id y) t d = start_attempt config newId y t d"
    using assms(2-5) by (simp add: claim_def claimable_def)
  moreover have "down_status (interrupt_attempts (ob_id y) t d) inc (ob_channelId y) = Some SENT"
    using assms(9) by (simp add: down_status_def)
  ultimately show ?thesis
    using total assms(6,8) by (auto simp: start_attempt_def Let_def processing_row_def split: sum.splits)
qed

lemma row_kind_preserved:
  "down_row inc ch (sent_row now r) = down_row inc ch r"
  "down_row inc ch (reactivated_row s now r) = down_row inc ch r"
  "down_row inc ch (retiredNotificationSecretData r) = down_row inc ch r"
  "recovery_row inc ch (sent_row now r) = recovery_row inc ch r"
  by (simp_all add: down_row_def recovery_row_def sent_row_def reactivated_row_def retiredNotificationSecretData_def)

text \<open>The recovery after the confirmation of its DOWN, row by row.\<close>

lemma late_recovery_rows:
  assumes "late_recovery rt down inc m i t now d = Inr d'" "fresh_recovery rt d"
  obtains (created) y where "find (recovery_row inc (ob_channelId down)) (outbox d) = None"
      "d' = d\<lparr>outbox := outbox d @ [y]\<rparr>" "recovery_row inc (ob_channelId down) y" "ob_eventType y = RECOVERY"
      "ob_status y = NotificationOutboxStatus.PENDING" "ob_availableAt y = now"
      "ob_encryptedConfigSnapshot y = ob_encryptedConfigSnapshot down" "ob_id y \<notin> ob_id ` set (outbox d)"
  | (reactivated) x where "find (recovery_row inc (ob_channelId down)) (outbox d) = Some x" "undelivered_recovery x"
      "d' = set_row (ob_id x) (reactivated_row (ob_encryptedConfigSnapshot down) now) d"
  | (kept) x where "find (recovery_row inc (ob_channelId down)) (outbox d) = Some x" "\<not> undelivered_recovery x"
      "d' = d"
proof (cases "find (recovery_row inc (ob_channelId down)) (outbox d)")
  case None
  with assms(1) obtain y where y: "create_outbox y d = Inr d'" "recovery_row inc (ob_channelId down) y"
    "ob_eventType y = RECOVERY" "ob_status y = NotificationOutboxStatus.PENDING" "ob_availableAt y = now"
    "ob_id y = rt_outboxId rt inc RECOVERY (ob_channelId down)"
    "ob_encryptedConfigSnapshot y = ob_encryptedConfigSnapshot down"
    by (auto simp: late_recovery_def Let_def default_outbox_def recovery_row_def split: sum.splits)
  with created[OF None create_outbox_Inr[OF y(1)] y(2-5,7)] assms(2) show ?thesis by (auto simp: fresh_recovery_def)
next
  case (Some x)
  show ?thesis
  proof (cases "undelivered_recovery x")
    case True
    with assms(1) Some reactivated[OF Some True] show ?thesis by (simp add: late_recovery_def update_outbox_eq)
  next
    case False
    with assms(1) Some kept[OF Some False] show ?thesis by (simp add: late_recovery_def)
  qed
qed

text \<open>C34. Confirming a DOWN late settles its recovery: when the provider confirms the DOWN of an
incident that is already resolved (its row not canceled meanwhile, its payload allowing a
recovery, its channel live and still assigned with recoveries wanted), then
  (1) if there is no recovery of the incident and channel yet, or it was canceled because the DOWN
      was not delivered, there is one afterwards (the same row in the second case) that is pending,
      due at once and holds the destination of the DOWN, and as long as it has attempts left the
      next claim of it starts an attempt, so it does not wait for the DOWN any more;
  (2) if there is a recovery in any other state (pending, sent, failed, canceled for another
      reason or replaced by a summary), that row is left as it is.\<close>

theorem late_down_success_recovers:
  assumes "ledger_inv d" "markSent rt c pm now d = Inr d'" "fresh_recovery rt d"
    "find_by ob_id (ob_id (cn_row c)) (outbox d) = Some r" "ob_status r \<noteq> NotificationOutboxStatus.CANCELED"
    "find (down_row inc (ob_channelId (cn_row c))) (outbox d) = Some r" "ob_sequence r \<noteq> notificationSequence RECOVERY"
    "down_of (cn_row c) = Some inc" "payloadAllowsRecovery (ob_payloadSafe (cn_row c))"
    "find_by ic_id inc (incidents d) = Some i" "ic_status i = RESOLVED" "ic_resolvedAt i = Some t"
    "ob_monitorId (cn_row c) = Some m" "m \<noteq> []"
    "channel_live d (ob_channelId (cn_row c))" "wants_recovery d m (ob_channelId (cn_row c))"
  shows "case find (recovery_row inc (ob_channelId (cn_row c))) (outbox d) of
      None \<Rightarrow> \<exists>y. resumed_recovery inc (cn_row c) now d' y \<and> ob_id y \<notin> ob_id ` set (outbox d)
    | Some x \<Rightarrow>
        if undelivered_recovery x then \<exists>y. resumed_recovery inc (cn_row c) now d' y \<and> ob_id y = ob_id x
        else x \<in> set (outbox d')"
proof -
  let ?k = "ob_id (cn_row c)" and ?ch = "ob_channelId (cn_row c)"
  note ids = ledger_ids[OF assms(1)] and inv = markSent_ledger[OF assms(1-3)]
  have r: "r \<in> set (outbox d)" "ob_id r = ?k" using find_by_Some[OF assms(4)] by auto
  have unique: "y = r" if "y \<in> set (outbox d)" "ob_id y = ?k" for y
    using find_by_distinct[OF ids that] assms(4) by simp
  obtain d2 st d3 where
    d2: "d2 = d\<lparr>deliveries := update_where (\<lambda>n. nd_id n = cn_deliveryId c) (delivered pm now) (deliveries d),
          outbox := update_where (\<lambda>r. ob_id r = ?k \<and> ob_status r \<noteq> NotificationOutboxStatus.CANCELED)
            (sent_row now) (outbox d)\<rparr>"
    and d3: "ensureRecoveryAfterLateDownSuccess rt (cn_row c) now d2 = Inr (st, d3)"
    and d': "d' = d3 \<or> d' = set_row ?k retiredNotificationSecretData d3"
  proof (rule markSent_current[OF assms(2) ids assms(4,5)], goal_cases)
    case (1 d2 st d3)
    from 1(4) have "d' = d3 \<or> d' = set_row ?k retiredNotificationSecretData d3" by (simp split: if_splits)
    with 1(1)[OF 1(2,3)] show ?thesis .
  qed
  have "channel_live d2 ?ch" "wants_recovery d2 m ?ch"
    using assms(15,16) by (simp_all add: d2 channel_live_def wants_recovery_def)
  with d3 assms(8-14) have late: "late_recovery rt (cn_row c) inc m i t now d2 = Inr d3"
    by (auto simp: ensureRecoveryAfterLateDownSuccess_def d2 Let_def split: sum.splits)
  have ids2: "map ob_id (outbox d2) = map ob_id (outbox d)" by (simp add: d2 map_update_where_frame)
  then have same_ids: "ob_id ` set (outbox d2) = ob_id ` set (outbox d)" by (metis set_map)
  with assms(3) have fresh: "fresh_recovery rt d2" by (simp add: fresh_recovery_def)
  have not_down: "ob_id x \<noteq> ?k" if "x \<in> set (outbox d)" "recovery_row inc ?ch x" for x
    using unique[OF that(1)] that(2) assms(7) by (auto simp: recovery_row_def)
  have found: "find (recovery_row inc ?ch) (outbox d2) = find (recovery_row inc ?ch) (outbox d)"
    unfolding d2 using not_down
    by (cases "find (recovery_row inc ?ch) (outbox d)")
      (auto simp: find_update_where row_kind_preserved dest: find_Some_in)
  have other: "ob_id x \<noteq> ?k" if "find (recovery_row inc ?ch) (outbox d2) = Some x" for x
    using not_down[of x] that found find_Some_in by metis
  have down2: "find (down_row inc ?ch) (outbox d2) = Some (sent_row now r)"
    unfolding d2 by (simp add: find_update_where row_kind_preserved assms(5,6) r(2))
  have down3: "find (down_row inc ?ch) (outbox d3) = Some (sent_row now r)"
    using late fresh
  proof (cases rule: late_recovery_rows)
    case (reactivated x)
    have "ob_id (sent_row now r) \<noteq> ob_id x" using other[OF reactivated(1)] r(2) by (simp add: sent_row_def)
    then show ?thesis by (simp add: reactivated(3) find_update_where row_kind_preserved down2)
  qed (simp_all add: find_append_Some down2)
  then have sent: "down_status d' inc ?ch = Some SENT"
    using d' unfolding down_status_def down_row_def[symmetric, abs_def]
    by (auto simp: find_update_where row_kind_preserved)
  have live: "channel_live d' ?ch"
  proof -
    have "channels d3 = channels d2" using late fresh by (cases rule: late_recovery_rows) simp_all
    with d' \<open>channel_live d2 ?ch\<close> show ?thesis by (auto simp: channel_live_def)
  qed
  have resumes: "resumed_recovery inc (cn_row c) now d' y"
    if "y \<in> set (outbox d')" "recovery_row inc ?ch y" "ob_eventType y = RECOVERY"
      "ob_status y = NotificationOutboxStatus.PENDING" "ob_availableAt y = now"
      "ob_encryptedConfigSnapshot y = ob_encryptedConfigSnapshot (cn_row c)" for y
  proof -
    have "inc \<noteq> []" using assms(8) by (auto simp: down_of_def split: if_splits option.splits)
    then have "recovery_of y = Some inc" using that by (simp add: recovery_of_def recovery_row_def)
    moreover have "ob_channelId y = ?ch" using that(2) by (simp add: recovery_row_def)
    moreover have y: "find_by ob_id (ob_id y) (outbox d') = Some y"
      using find_by_distinct[OF ledger_ids[OF inv] that(1)] by simp
    ultimately have "\<exists>c d1. claim config newId (ob_id y) t d' = Inr (Some c, d1) \<and> ob_id (cn_row c) = ob_id y"
      if "now \<le> t" "ob_attemptCount y < ob_maxAttempts y" "newId \<notin> nd_id ` set (deliveries d')" for config newId t
      by (intro claim_starts[OF inv, where inc = inc])
        (use that \<open>ob_status y = _\<close> \<open>ob_availableAt y = now\<close> sent live in simp_all)
    with that y show ?thesis unfolding resumed_recovery_def by blast
  qed
  have keep: "x \<in> set (outbox d')" if "x \<in> set (outbox d3)" "ob_id x \<noteq> ?k" for x
    using d' that by (auto simp: set_update_where)
  from late fresh show ?thesis
  proof (cases rule: late_recovery_rows)
    case (created y)
    have "?k \<in> ob_id ` set (outbox d2)" unfolding same_ids using imageI[OF r(1), of ob_id] unfolding r(2) .
    with created(8) have "ob_id y \<noteq> ?k" by metis
    then have "y \<in> set (outbox d')" using keep[of y] by (simp add: created(2))
    then have "resumed_recovery inc (cn_row c) now d' y" by (rule resumes) (rule created(3-7))+
    moreover have "ob_id y \<notin> ob_id ` set (outbox d)" using created(8) unfolding same_ids .
    moreover have "find (recovery_row inc ?ch) (outbox d) = None" using created(1) unfolding found .
    ultimately show ?thesis by auto
  next
    case (reactivated x)
    let ?y = "reactivated_row (ob_encryptedConfigSnapshot (cn_row c)) now x"
    have x: "x \<in> set (outbox d2)" "recovery_row inc ?ch x" using find_Some_in[OF reactivated(1)] by simp_all
    then have "?y \<in> set (outbox d3)" by (auto simp: reactivated(3) set_update_where)
    moreover have id: "ob_id ?y = ob_id x" by (simp add: reactivated_row_def)
    moreover note other[OF reactivated(1)]
    ultimately have "?y \<in> set (outbox d')" using keep[of ?y] by simp
    moreover have "recovery_row inc ?ch ?y" "ob_eventType ?y = RECOVERY" "ob_availableAt ?y = now"
      "ob_status ?y = NotificationOutboxStatus.PENDING"
      "ob_encryptedConfigSnapshot ?y = ob_encryptedConfigSnapshot (cn_row c)"
      using x(2) reactivated(2) by (simp_all add: recovery_row_def reactivated_row_def undelivered_recovery_def)
    ultimately have "resumed_recovery inc (cn_row c) now d' ?y" by (intro resumes)
    moreover have "find (recovery_row inc ?ch) (outbox d) = Some x" using reactivated(1) unfolding found .
    ultimately show ?thesis using id reactivated(2) by auto
  next
    case (kept x)
    have "x \<in> set (outbox d')"
      using keep[OF _ other[OF kept(1)]] find_Some_in[OF kept(1)] by (simp add: kept(3))
    moreover have "find (recovery_row inc ?ch) (outbox d) = Some x" using kept(1) unfolding found .
    ultimately show ?thesis using kept(2) by simp
  qed
qed

definition late_down :: NotificationOutbox where
  "late_down = (example_outbox (js ''d'') NotificationEventType.DOWN PROCESSING)
     \<lparr>ob_attemptCount := 1, ob_payloadSafe := JObj [(js ''notifyOnRecovery'', JBool True)]\<rparr>"

definition late_db :: db where
  "late_db = empty_db\<lparr>channels := [example_channel],
     incidents := [\<lparr>ic_id = js ''i1'', ic_monitorId = js ''m1'', ic_configVersion = 1, ic_status = RESOLVED,
        ic_firstFailureAt = 100, ic_detectedAt = 200, ic_resolvedAt = Some 900, ic_canceledAt = None,
        ic_firstErrorType = None, ic_lastErrorType = None, ic_closureReason = None, ic_createdAt = 200\<rparr>],
     monitorChannels := [\<lparr>mc_monitorId = js ''m1'', mc_channelId = js ''t1'', mc_notifyOnDown = True,
        mc_notifyOnRecovery = True, mc_createdAt = 0\<rparr>],
     deliveries := [new_delivery (js ''n'') (example_outbox (js ''d'') NotificationEventType.DOWN
        NotificationOutboxStatus.PENDING) 2000],
     outbox := [late_down, (example_outbox (js ''r'') RECOVERY NotificationOutboxStatus.CANCELED)
        \<lparr>ob_lastErrorSafe := Some DOWN_NOT_DELIVERED_RECOVERY_CANCEL_REASON\<rparr>]\<rparr>"

theorem late_down_success_recovers_witness:
  "\<exists>d'. markSent (example_runtime\<lparr>rt_outboxId := (\<lambda>_ _ _. js ''new'')\<rparr>)
      \<lparr>cn_row = late_down, cn_deliveryId = js ''n'', cn_deliveryAttempt = 1\<rparr> None 2500 late_db = Inr d' \<and>
    (\<exists>y. resumed_recovery (js ''i1'') late_down 2500 d' y \<and> ob_id y = js ''r'')"
proof -
  let ?rt = "example_runtime\<lparr>rt_outboxId := (\<lambda>_ _ _. js ''new'')\<rparr>"
  let ?c = "\<lparr>cn_row = late_down, cn_deliveryId = js ''n'', cn_deliveryAttempt = 1\<rparr>"
  let ?i = "\<lparr>ic_id = js ''i1'', ic_monitorId = js ''m1'', ic_configVersion = 1, ic_status = RESOLVED,
        ic_firstFailureAt = 100, ic_detectedAt = 200, ic_resolvedAt = Some 900, ic_canceledAt = None,
        ic_firstErrorType = None, ic_lastErrorType = None, ic_closureReason = None, ic_createdAt = 200\<rparr>"
  have nonempty: "js ''i1'' \<noteq> []" "js ''m1'' \<noteq> []" by (simp_all add: js_def)
  have keys: "js ''d'' \<noteq> js ''r''" "js ''r'' \<noteq> js ''d''" "js ''new'' \<noteq> js ''d''" "js ''new'' \<noteq> js ''r''"
    by (simp_all add: js_inj)
  have down: "down_of late_down = Some (js ''i1'')" "ob_monitorId late_down = Some (js ''m1'')"
    "ob_channelId late_down = js ''t1''" "ob_id late_down = js ''d''" "ob_status late_down = PROCESSING"
    "ob_sequence late_down = 1"
    by (simp_all add: down_of_def late_down_def example_outbox_def nonempty)
  have allows: "payloadAllowsRecovery (ob_payloadSafe late_down)"
    by (simp add: payloadAllowsRecovery_def late_down_def)
  let ?r = "(example_outbox (js ''r'') RECOVERY NotificationOutboxStatus.CANCELED)
        \<lparr>ob_lastErrorSafe := Some DOWN_NOT_DELIVERED_RECOVERY_CANCEL_REASON\<rparr>"
  have r: "ob_id ?r = js ''r''" "recovery_row (js ''i1'') (js ''t1'') ?r" "undelivered_recovery ?r"
    by (simp_all add: example_outbox_def recovery_row_def undelivered_recovery_def)
  have rows: "outbox late_db = [late_down, ?r]" by (simp add: late_db_def)
  have ledger: "ledger_inv late_db"
    by (auto simp: ledger_inv_def attempt_ledger_def attempt_view_def delivery_view_def attempting_def late_db_def
        late_down_def example_outbox_def new_delivery_def keys empty_db_def count_where_def)
  have inc: "find_by ic_id (js ''i1'') (incidents late_db) = Some ?i" by (simp add: late_db_def find_by_def)
  have live: "channel_live late_db (js ''t1'')" "wants_recovery late_db (js ''m1'') (js ''t1'')"
    by (simp_all add: late_db_def channel_live_def example_channel_def find_by_def wants_recovery_def)
  let ?d1 = "late_db\<lparr>deliveries := update_where (\<lambda>n. nd_id n = js ''n'') (delivered None 2500) (deliveries late_db)\<rparr>"
  let ?d2 = "?d1\<lparr>outbox := [sent_row 2500 late_down, ?r]\<rparr>"
  have upd: "update_delivery (js ''n'') (delivered None 2500) late_db = Inr ?d1"
    by (simp add: update_delivery_def late_db_def find_by_def new_delivery_def)
  have seq: "recovery_row (js ''i1'') (js ''t1'') (sent_row 2500 late_down) = False"
    by (simp add: recovery_row_def sent_row_def down)
  have "late_recovery ?rt late_down (js ''i1'') (js ''m1'') ?i 900 2500 ?d2 =
      update_outbox (js ''r'') (reactivated_row (ob_encryptedConfigSnapshot late_down) 2500) ?d2"
    by (simp add: late_recovery_def down seq r)
  then obtain d3 where late: "late_recovery ?rt late_down (js ''i1'') (js ''m1'') ?i 900 2500 ?d2 = Inr d3"
    "ob_id ` set (outbox d3) = {js ''d'', js ''r''}"
    by (auto simp: update_outbox_def find_by_def r down keys)
  have "ensureRecoveryAfterLateDownSuccess ?rt late_down 2500 ?d2 = Inr (Some RESOLVED, d3)"
    using late(1) inc live by (simp add: ensureRecoveryAfterLateDownSuccess_def down allows nonempty
        channel_live_def wants_recovery_def)
  moreover have "js ''d'' \<in> ob_id ` set (outbox d3)" using late(2) by simp
  then have "\<exists>x \<in> set (outbox d3). ob_id x = js ''d''" by fastforce
  ultimately have "\<exists>d'. markSent ?rt ?c None 2500 late_db = Inr d'"
    by (auto simp: markSent_def upd rows down keys r shouldRetain_sent update_outbox_def find_by_None)
  then obtain d' where d': "markSent ?rt ?c None 2500 late_db = Inr d'" ..
  have "fresh_recovery ?rt late_db" by (simp add: fresh_recovery_def rows down r keys)
  moreover have "find_by ob_id (js ''d'') (outbox late_db) = Some late_down" by (simp add: find_by_def rows down)
  moreover have "find (down_row (js ''i1'') (js ''t1'')) (outbox late_db) = Some late_down"
    by (simp add: rows down_row_def late_down_def example_outbox_def)
  moreover have "find (recovery_row (js ''i1'') (js ''t1'')) (outbox late_db) = Some ?r"
    using seq r(2) by (simp add: rows recovery_row_def down)
  ultimately have "\<exists>y. resumed_recovery (js ''i1'') late_down 2500 d' y \<and> ob_id y = js ''r''"
    using late_down_success_recovers[OF ledger d', of late_down "js ''i1''" ?i 900 "js ''m1''"]
      inc live allows down nonempty r by simp
  with d' show ?thesis by blast
qed

end
