(* ===== verification/Url_Policy.thy ===== *)
theory Url_Policy
  imports Web_Url Check_Types Json_Values
begin

text \<open>
  The address policy of the checker: \<open>packages/monitoring/src/url-policy.ts\<close> and
  \<open>errors.ts\<close>. Classification of IPv4 and IPv6 addresses, the checks on a monitored URL, its
  display form, and the resolution of its host. The URL parser, \<open>isIP\<close> and the DNS lookup of
  the runtime are parameters.
\<close>

section \<open>Errors of a check\<close>

datatype failure_class = PlainFailure | UrlPolicyError | RedirectPolicyError | DestinationLimiterError

record CheckFailure =
  fa_class :: failure_class
  fa_outcome :: CheckOutcome
  fa_errorType :: CheckErrorType
  fa_safeMessage :: jstring

definition target_failure :: "CheckErrorType \<Rightarrow> jstring \<Rightarrow> CheckFailure" where
  "target_failure errorType message =
     \<lparr>fa_class = PlainFailure, fa_outcome = TARGET_FAILURE, fa_errorType = errorType,
      fa_safeMessage = message\<rparr>"

definition url_policy_error :: "jstring \<Rightarrow> CheckFailure" where
  "url_policy_error message =
     \<lparr>fa_class = UrlPolicyError, fa_outcome = INCONCLUSIVE, fa_errorType = DNS_ERROR,
      fa_safeMessage = message\<rparr>"

definition redirect_policy_error :: "jstring \<Rightarrow> CheckFailure" where
  "redirect_policy_error message =
     \<lparr>fa_class = RedirectPolicyError, fa_outcome = TARGET_FAILURE, fa_errorType = REDIRECT_ERROR,
      fa_safeMessage = message\<rparr>"

definition destination_limiter_error :: "jstring \<Rightarrow> CheckFailure" where
  "destination_limiter_error message =
     \<lparr>fa_class = DestinationLimiterError, fa_outcome = CheckOutcome.PLATFORM_ERROR,
      fa_errorType = CheckErrorType.PLATFORM_ERROR, fa_safeMessage = message\<rparr>"

section \<open>IPv4\<close>

definition digit :: "16 word \<Rightarrow> bool" where
  "digit c \<longleftrightarrow> 48 \<le> c \<and> c \<le> 57"

definition decimal_value :: "jstring \<Rightarrow> nat" where
  "decimal_value s = fold (\<lambda>c n. 10 * n + (unat c - 48)) s 0"

definition octet :: "jstring \<Rightarrow> nat option" where
  "octet p =
     (if p \<noteq> [] \<and> length p \<le> 3 \<and> list_all digit p
      then (if 255 < decimal_value p then None else Some (decimal_value p)) else None)"

fun ipv4_value :: "jstring list \<Rightarrow> 32 word \<Rightarrow> 32 word option" where
  "ipv4_value [] v = Some v"
| "ipv4_value (p # ps) v =
     (case octet p of None \<Rightarrow> None | Some n \<Rightarrow> ipv4_value ps (push_bit 8 v OR of_nat n))"

definition ipv4ToNumber :: "jstring \<Rightarrow> 32 word option" where
  "ipv4ToNumber address =
     (let parts = split_units 46 address
      in if length parts \<noteq> 4 then None else ipv4_value parts 0)"

definition parseCidr4 :: "jstring \<Rightarrow> (32 word \<times> 32 word) option" where
  "parseCidr4 cidr =
     (case split_units 47 cidr of
        address # prefixText # _ \<Rightarrow>
          (let prefix = decimal_value prefixText;
               m = (if prefix = 0 then 0 else push_bit (32 - prefix) (- 1))
           in map_option (\<lambda>v. (v AND m, m)) (ipv4ToNumber address))
      | _ \<Rightarrow> None)"

definition BLOCKED_IPV4_CIDRS :: "(32 word \<times> 32 word) option list" where
  "BLOCKED_IPV4_CIDRS = map (\<lambda>c. parseCidr4 (js c))
     [''0.0.0.0/8'', ''10.0.0.0/8'', ''100.64.0.0/10'', ''127.0.0.0/8'', ''169.254.0.0/16'',
      ''172.16.0.0/12'', ''192.0.0.0/24'', ''192.0.2.0/24'', ''192.88.99.0/24'', ''192.168.0.0/16'',
      ''198.18.0.0/15'', ''198.51.100.0/24'', ''203.0.113.0/24'', ''224.0.0.0/4'', ''240.0.0.0/4'']"

definition isBlockedIpv4 :: "jstring \<Rightarrow> bool option" where
  "isBlockedIpv4 address =
     map_option (\<lambda>value. list_ex (\<lambda>c. case c of None \<Rightarrow> False
         | Some (base, m) \<Rightarrow> value AND m = base) BLOCKED_IPV4_CIDRS) (ipv4ToNumber address)"

section \<open>IPv6\<close>

definition hex_lower :: "16 word \<Rightarrow> bool" where
  "hex_lower c \<longleftrightarrow> digit c \<or> (97 \<le> c \<and> c \<le> 102)"

definition hex_units :: "jstring \<Rightarrow> int" where
  "hex_units s = fold (\<lambda>c n. 16 * n + (if digit c then uint c - 48 else uint c - 87)) s 0"

text \<open>\<open>n.toString(16)\<close>\<close>

function to_hex :: "nat \<Rightarrow> jstring" where
  "to_hex n =
     (if n < 16 then [of_nat (if n < 10 then 48 + n else 87 + n)]
      else to_hex (n div 16) @ [of_nat (if n mod 16 < 10 then 48 + n mod 16 else 87 + n mod 16)])"
  by pat_completeness auto
termination by (relation "measure id") auto

declare to_hex.simps [simp del]

text \<open>\<open>s.split('::')\<close>\<close>

fun split_double_colon :: "jstring \<Rightarrow> jstring list" where
  "split_double_colon (c # d # cs) =
     (if c = 58 \<and> d = 58 then [] # split_double_colon cs
      else (case split_double_colon (d # cs) of [] \<Rightarrow> [[c]] | w # ws \<Rightarrow> (c # w) # ws))"
| "split_double_colon s = [s]"

text \<open>An embedded IPv4 tail is rewritten as two groups.\<close>

definition expand_ipv4_tail :: "jstring \<Rightarrow> jstring option" where
  "expand_ipv4_tail address =
     (if 46 \<in> set address
      then (if 58 \<notin> set address then None
            else
             (let tail = rev (takeWhile (\<lambda>c. c \<noteq> 58) (rev address));
                  prefix = rev (tl (dropWhile (\<lambda>c. c \<noteq> 58) (rev address)))
              in map_option (\<lambda>ipv4. prefix @ js '':'' @ to_hex (unat (drop_bit 16 ipv4)) @ js '':'' @
                     to_hex (unat (ipv4 AND 0xffff))) (ipv4ToNumber tail)))
      else Some address)"

fun ipv6_value :: "jstring list \<Rightarrow> int \<Rightarrow> int option" where
  "ipv6_value [] v = Some v"
| "ipv6_value (g # gs) v =
     (if g \<noteq> [] \<and> length g \<le> 4 \<and> list_all hex_lower g
      then ipv6_value gs (push_bit 16 v OR hex_units g) else None)"

definition groups_of :: "jstring \<Rightarrow> jstring list" where
  "groups_of half = (if half = [] then [] else split_units 58 half)"

definition ipv6_groups :: "jstring \<Rightarrow> jstring list option" where
  "ipv6_groups address =
     (let halves = split_double_colon address in
      if 2 < length halves then None
      else
       (let left = groups_of (hd halves);
            right = (if length halves = 2 then groups_of (halves ! 1) else []);
            missing = 8 - int (length left) - int (length right)
        in if (length halves = 1 \<and> missing \<noteq> 0) \<or> missing < 0 then None
           else Some (left @ replicate (nat missing) (js ''0'') @ right)))"

definition parseIpv6 :: "jstring \<Rightarrow> int option" where
  "parseIpv6 input =
     (case expand_ipv4_tail (takeWhile (\<lambda>c. c \<noteq> 37) (ascii_lower input)) of None \<Rightarrow> None
      | Some address \<Rightarrow>
        (case ipv6_groups address of None \<Rightarrow> None
         | Some groups \<Rightarrow> if length groups \<noteq> 8 then None else ipv6_value groups 0))"

definition isInIpv6Cidr :: "int \<Rightarrow> int \<Rightarrow> nat \<Rightarrow> bool" where
  "isInIpv6Cidr value base prefix \<longleftrightarrow>
     (if prefix = 0 then True else drop_bit (128 - prefix) value = drop_bit (128 - prefix) base)"

definition mappedIpv4 :: "int \<Rightarrow> jstring option" where
  "mappedIpv4 value =
     (if drop_bit 32 value \<noteq> 0xffff then None
      else
       (let raw = value AND 0xffffffff
        in Some (js_number (drop_bit 24 raw) @ js ''.'' @ js_number (drop_bit 16 raw AND 255) @ js ''.'' @
             js_number (drop_bit 8 raw AND 255) @ js ''.'' @ js_number (raw AND 255))))"

definition BLOCKED_IPV6_CIDRS :: "(int option \<times> nat) list" where
  "BLOCKED_IPV6_CIDRS = [(parseIpv6 (js ''2001::''), 23), (parseIpv6 (js ''2001:db8::''), 32),
     (parseIpv6 (js ''2002::''), 16), (parseIpv6 (js ''3fff::''), 20)]"

definition in_parsed_cidr :: "int \<Rightarrow> int option \<times> nat \<Rightarrow> bool" where
  "in_parsed_cidr value c =
     (case c of (None, prefix) \<Rightarrow> False | (Some base, prefix) \<Rightarrow> isInIpv6Cidr value base prefix)"

definition isBlockedIpv6 :: "jstring \<Rightarrow> bool option" where
  "isBlockedIpv6 address =
     (case parseIpv6 address of None \<Rightarrow> None
      | Some value \<Rightarrow>
        (case mappedIpv4 value of Some mapped \<Rightarrow> isBlockedIpv4 mapped
         | None \<Rightarrow>
           Some (if \<not> in_parsed_cidr value (parseIpv6 (js ''2000::''), 3) then True
                 else list_ex (in_parsed_cidr value) BLOCKED_IPV6_CIDRS)))"

definition isPublicAddress :: "(jstring \<Rightarrow> nat) \<Rightarrow> jstring \<Rightarrow> bool" where
  "isPublicAddress isIP address =
     (if isIP address = 4 then isBlockedIpv4 address = Some False
      else if isIP address = 6 then isBlockedIpv6 address = Some False
      else False)"

section \<open>Monitored addresses\<close>

definition strip_brackets :: "jstring \<Rightarrow> jstring" where
  "strip_brackets s =
     (let t = (if s \<noteq> [] \<and> hd s = 91 then tl s else s)
      in if t \<noteq> [] \<and> last t = 93 then butlast t else t)"

definition strip_dot :: "jstring \<Rightarrow> jstring" where
  "strip_dot s = (if s \<noteq> [] \<and> last s = 46 then butlast s else s)"

definition policy_hostname :: "Url \<Rightarrow> jstring" where
  "policy_hostname u = ascii_lower (strip_dot (strip_brackets (u_hostname u)))"

definition valid_labels :: "jstring \<Rightarrow> bool" where
  "valid_labels hostname \<longleftrightarrow> length hostname \<le> 253 \<and>
     list_all (\<lambda>label. label \<noteq> [] \<and> length label \<le> 63) (split_units 46 hostname)"

definition parseMonitorUrl ::
  "(jstring \<Rightarrow> Url option) \<Rightarrow> (jstring \<Rightarrow> nat) \<Rightarrow> jstring \<Rightarrow> CheckFailure + Url" where
  "parseMonitorUrl new_URL isIP input =
     (case new_URL input of
        None \<Rightarrow> Inl (url_policy_error [0xC62C, 0xBC14, 0xB978, 0x20, 0x48, 0x54, 0x54, 0x50, 0x20, 0xB610, 0xB294, 0x20, 0x48,
      0x54, 0x54, 0x50, 0x53, 0x20, 0x55, 0x52, 0x4C, 0xC774, 0x20, 0xC544, 0xB2D9, 0xB2C8,
      0xB2E4, 0x2E])
      | Some url \<Rightarrow>
        if \<not> web_protocol (u_protocol url)
        then Inl (url_policy_error [0x48, 0x54, 0x54, 0x50, 0xC640, 0x20, 0x48, 0x54, 0x54, 0x50, 0x53, 0x20, 0x55, 0x52,
      0x4C, 0xB9CC, 0x20, 0xAC80, 0xC0AC, 0xD560, 0x20, 0xC218, 0x20, 0xC788, 0xC2B5, 0xB2C8,
      0xB2E4, 0x2E])
        else if u_hostname url = []
        then Inl (url_policy_error [0x55, 0x52, 0x4C, 0xC5D0, 0x20, 0xD638, 0xC2A4, 0xD2B8, 0x20, 0xC774, 0xB984, 0xC774,
      0x20, 0xD544, 0xC694, 0xD569, 0xB2C8, 0xB2E4, 0x2E])
        else if isIP (policy_hostname url) = 0 \<and> \<not> valid_labels (policy_hostname url)
        then Inl (url_policy_error [0xB3C4, 0xBA54, 0xC778, 0x20, 0xC774, 0xB984, 0xC758, 0x20, 0xAE38, 0xC774, 0xAC00,
      0x20, 0xC62C, 0xBC14, 0xB974, 0xC9C0, 0x20, 0xC54A, 0xC2B5, 0xB2C8, 0xB2E4, 0x2E])
        else Inr (url\<lparr>u_hash := []\<rparr>))"

definition displayUrl :: "(jstring \<Rightarrow> Url option) \<Rightarrow> jstring \<Rightarrow> jstring" where
  "displayUrl new_URL input =
     (case new_URL input of None \<Rightarrow> js ''(invalid URL)''
      | Some u \<Rightarrow> url_toString (bare_url u))"

section \<open>Resolution\<close>

record ResolvedAddress =
  ra_address :: jstring
  ra_family :: nat

record SafeDestination =
  sd_url :: Url
  sd_addresses :: "ResolvedAddress list"

text \<open>The lookup of the runtime: its entries, or whether its signal was aborted when it failed.\<close>

definition resolve_host ::
  "(jstring \<Rightarrow> nat) \<Rightarrow> (jstring \<Rightarrow> bool + ResolvedAddress list) \<Rightarrow> jstring \<Rightarrow>
   CheckFailure + ResolvedAddress list" where
  "resolve_host isIP lookup hostname =
     (if isIP hostname = 4 \<or> isIP hostname = 6
      then Inr [\<lparr>ra_address = hostname, ra_family = isIP hostname\<rparr>]
      else case lookup hostname of
        Inr entries \<Rightarrow> Inr (filter (\<lambda>e. ra_family e = 4 \<or> ra_family e = 6) entries)
      | Inl True \<Rightarrow> Inl (target_failure DNS_ERROR [0x44, 0x4E, 0x53, 0x20, 0xC870, 0xD68C, 0x20, 0xC2DC, 0xAC04, 0xC774, 0x20, 0xCD08,
      0xACFC, 0xB418, 0xC5C8, 0xC2B5, 0xB2C8, 0xB2E4, 0x2E])
      | Inl False \<Rightarrow> Inl (target_failure DNS_ERROR [0xB3C4, 0xBA54, 0xC778, 0x20, 0xC774, 0xB984, 0xC744, 0x20, 0xC870, 0xD68C, 0xD560,
      0x20, 0xC218, 0x20, 0xC5C6, 0xC2B5, 0xB2C8, 0xB2E4, 0x2E]))"

definition first_occurrences :: "'a list \<Rightarrow> 'a list" where
  "first_occurrences xs = rev (remdups (rev xs))"

definition safe_destination :: "Url \<Rightarrow> ResolvedAddress list \<Rightarrow> CheckFailure + SafeDestination" where
  "safe_destination url addresses =
     (if addresses = []
      then Inl (target_failure DNS_ERROR [0xB3C4, 0xBA54, 0xC778, 0x20, 0xC774, 0xB984, 0xC5D0, 0x20, 0xC5F0, 0xACB0, 0x20,
      0xAC00, 0xB2A5, 0xD55C, 0x20, 0xC8FC, 0xC18C, 0xAC00, 0x20, 0xC5C6, 0xC2B5, 0xB2C8,
      0xB2E4, 0x2E])
      else Inr \<lparr>sd_url = url, sd_addresses = first_occurrences addresses\<rparr>)"

definition resolveSafeDestination ::
  "(jstring \<Rightarrow> Url option) \<Rightarrow> (jstring \<Rightarrow> nat) \<Rightarrow> (jstring \<Rightarrow> CheckFailure + ResolvedAddress list) \<Rightarrow>
   jstring \<Rightarrow> CheckFailure + SafeDestination" where
  "resolveSafeDestination new_URL isIP resolve input =
     (case parseMonitorUrl new_URL isIP input of Inl e \<Rightarrow> Inl e
      | Inr url \<Rightarrow>
        (case resolve (strip_brackets (u_hostname url)) of Inl e \<Rightarrow> Inl e
         | Inr addresses \<Rightarrow> safe_destination url addresses))"

section \<open>Lemmas\<close>

definition quad :: "nat \<times> nat \<times> nat \<times> nat \<Rightarrow> nat" where
  "quad = (\<lambda>(a, b, c, d). 16777216 * a + 65536 * b + 256 * c + d)"

definition dotted :: "nat \<times> nat \<times> nat \<times> nat \<Rightarrow> jstring" where
  "dotted = (\<lambda>(a, b, c, d). js_number (int a) @ js ''.'' @ js_number (int b) @ js ''.'' @
     js_number (int c) @ js ''.'' @ js_number (int d))"

lemma octet_numerals:
  "list_all (\<lambda>n. octet (js_number (int n)) = Some n \<and> 46 \<notin> set (js_number (int n))) [0..<256]"
  by code_simp

lemma octet_js_number:
  "n < 256 \<Longrightarrow> octet (js_number (int n)) = Some n" "n < 256 \<Longrightarrow> 46 \<notin> set (js_number (int n))"
  using octet_numerals by (simp_all add: list_all_iff)

lemma shift_or:
  fixes v :: "32 word"
  assumes "n < 256"
  shows "push_bit 8 v OR of_nat n = v * 256 + of_nat n"
proof -
  have high: "\<not> bit n m" if "8 \<le> m" for m
  proof -
    have "(2::nat) ^ 8 \<le> 2 ^ m" using that by (intro power_increasing) auto
    with assms have "n < 2 ^ m" by simp
    then show ?thesis by (simp add: bit_iff_odd)
  qed
  have "push_bit 8 v AND of_nat n = (0 :: 32 word)"
    by (intro bit_word_eqI) (auto simp: bit_simps bit_of_nat_iff not_less high)
  then have "push_bit 8 v OR of_nat n = push_bit 8 v + of_nat n"
    by (simp add: disjunctive_add_eq_or)
  then show ?thesis by (simp add: push_bit_eq_mult)
qed

lemma dotted_parts:
  assumes "a < 256" "b < 256" "c < 256" "d < 256"
  shows "split_units 46 (dotted (a, b, c, d)) = map (\<lambda>n. js_number (int n)) [a, b, c, d]"
  using assms by (simp add: dotted_def js_def split_units_append split_units_none octet_js_number)

lemma ipv4_dotted:
  assumes "a < 256" "b < 256" "c < 256" "d < 256"
  shows "ipv4ToNumber (dotted (a, b, c, d)) = Some (of_nat (quad (a, b, c, d)))"
  using assms
  by (simp add: ipv4ToNumber_def dotted_parts octet_js_number shift_or quad_def algebra_simps)


lemma unat_bound: "unat (v :: 32 word) < 2 ^ 32"
proof -
  have "unat v < 2 ^ LENGTH(32)" by (rule unsigned_less)
  then show ?thesis by simp
qed

lemma unat_of_nat32: "n < 2 ^ 32 \<Longrightarrow> unat (of_nat n :: 32 word) = n"
  by (simp add: unsigned_of_nat take_bit_nat_eq_self)

lemma in_block:
  fixes v :: "32 word"
  assumes "k < 32" "2 ^ k dvd unat b"
  shows "v AND push_bit k (- 1) = b \<longleftrightarrow> unat b \<le> unat v \<and> unat v < unat b + 2 ^ k"
proof -
  have "v AND push_bit k (- 1) = push_bit k (drop_bit k v)"
    by (intro bit_word_eqI) (auto simp: bit_simps)
  then have "unat (v AND push_bit k (- 1)) = unat v div 2 ^ k * 2 ^ k"
  proof -
    assume eq: "v AND push_bit k (- 1) = push_bit k (drop_bit k v)"
    have "unat (drop_bit k v) = unat v div 2 ^ k" by (subst unat_drop_bit_eq) (rule drop_bit_eq_div)
    moreover have "unat v div 2 ^ k * 2 ^ k < 2 ^ 32"
      using div_times_less_eq_dividend[of "unat v" "2 ^ k"] unat_bound[of v] by (rule le_less_trans)
    ultimately show ?thesis
      unfolding eq unsigned_push_bit_eq by (simp add: push_bit_eq_mult take_bit_eq_mod)
  qed
  then have "v AND push_bit k (- 1) = b \<longleftrightarrow> unat v div 2 ^ k * 2 ^ k = unat b"
    by (metis unsigned_word_eqI)
  also have "\<dots> \<longleftrightarrow> unat b \<le> unat v \<and> unat v < unat b + 2 ^ k"
  proof -
    from assms(2) obtain q where q: "unat b = 2 ^ k * q" by blast
    have "unat v div 2 ^ k = q \<longleftrightarrow> 2 ^ k * q \<le> unat v \<and> unat v < 2 ^ k * q + 2 ^ k"
    proof
      assume "unat v div 2 ^ k = q"
      then have "unat v = 2 ^ k * q + unat v mod 2 ^ k" using mult_div_mod_eq[of "2 ^ k" "unat v"] by simp
      moreover have "unat v mod 2 ^ k < 2 ^ k" by simp
      ultimately show "2 ^ k * q \<le> unat v \<and> unat v < 2 ^ k * q + 2 ^ k" by linarith
    next
      assume "2 ^ k * q \<le> unat v \<and> unat v < 2 ^ k * q + 2 ^ k"
      then show "unat v div 2 ^ k = q" by (intro div_nat_eqI) (simp_all add: mult.commute)
    qed
    then show ?thesis by (simp add: q mult.commute)
  qed
  finally show ?thesis .
qed

lemma in_block_mask:
  fixes v :: "32 word"
  assumes "k < 32" "2 ^ k dvd unat b"
  shows "v AND NOT (mask k) = b \<longleftrightarrow> unat b \<le> unat v \<and> unat v < unat b + 2 ^ k"
  using in_block[OF assms, of v] by simp

text \<open>The reserved ranges, first and last address of each.\<close>

definition reserved_ranges :: "((nat \<times> nat \<times> nat \<times> nat) \<times> (nat \<times> nat \<times> nat \<times> nat)) list" where
  "reserved_ranges =
     [((0, 0, 0, 0), (0, 255, 255, 255)), ((10, 0, 0, 0), (10, 255, 255, 255)),
      ((100, 64, 0, 0), (100, 127, 255, 255)), ((127, 0, 0, 0), (127, 255, 255, 255)),
      ((169, 254, 0, 0), (169, 254, 255, 255)), ((172, 16, 0, 0), (172, 31, 255, 255)),
      ((192, 0, 0, 0), (192, 0, 0, 255)), ((192, 0, 2, 0), (192, 0, 2, 255)),
      ((192, 88, 99, 0), (192, 88, 99, 255)), ((192, 168, 0, 0), (192, 168, 255, 255)),
      ((198, 18, 0, 0), (198, 19, 255, 255)), ((198, 51, 100, 0), (198, 51, 100, 255)),
      ((203, 0, 113, 0), (203, 0, 113, 255)), ((224, 0, 0, 0), (239, 255, 255, 255)),
      ((240, 0, 0, 0), (255, 255, 255, 255))]"

definition reserved4 :: "nat \<Rightarrow> bool" where
  "reserved4 n \<longleftrightarrow> list_ex (\<lambda>(lo, hi). quad lo \<le> n \<and> n \<le> quad hi) reserved_ranges"

lemma blocked_cidrs:
  "BLOCKED_IPV4_CIDRS = map (\<lambda>(b, k). Some (b, push_bit k (- 1)))
     [(0, 24), (0x0A000000, 24), (0x64400000, 22), (0x7F000000, 24), (0xA9FE0000, 16), (0xAC100000, 20),
      (0xC0000000, 8), (0xC0000200, 8), (0xC0586300, 8), (0xC0A80000, 16), (0xC6120000, 17),
      (0xC6336400, 8), (0xCB007100, 8), (0xE0000000, 28), (0xF0000000, 28)]"
  by code_simp

lemma isBlockedIpv4_number:
  assumes "ipv4ToNumber s = Some v"
  shows "isBlockedIpv4 s = Some (reserved4 (unat v))"
proof -
  have "unat v < 2 ^ 32" using unat_bound[of v] by simp
  then show ?thesis
    by (simp add: isBlockedIpv4_def assms blocked_cidrs in_block_mask reserved4_def reserved_ranges_def quad_def
        less_Suc_eq_le[symmetric])
qed

lemma ipv6_value_bound:
  "ipv6_value gs v = Some w \<Longrightarrow> 0 \<le> v \<Longrightarrow> v < 2 ^ n \<Longrightarrow> 0 \<le> w \<and> w < 2 ^ (n + 16 * length gs)"
proof (induction gs arbitrary: v n)
  case Nil
  then show ?case by simp
next
  case (Cons g gs)
  from Cons.prems(1) have g: "length g \<le> 4" "list_all hex_lower g"
    and rest: "ipv6_value gs (push_bit 16 v OR hex_units g) = Some w" by (auto split: if_splits)
  have fold: "0 \<le> fold (\<lambda>c n. 16 * n + (if digit c then uint c - 48 else uint c - 87)) s x \<and>
      fold (\<lambda>c n. 16 * n + (if digit c then uint c - 48 else uint c - 87)) s x < 16 ^ (m + length s)"
    if "list_all hex_lower s" "0 \<le> x" "x < 16 ^ m" for s x m
    using that
  proof (induction s arbitrary: x m)
    case Nil
    then show ?case by simp
  next
    case (Cons c s)
    let ?h = "if digit c then uint c - 48 else uint c - 87"
    have h: "0 \<le> ?h \<and> ?h < 16"
      using Cons.prems(1) by (auto simp: hex_lower_def digit_def word_le_def)
    have "list_all hex_lower s" "0 \<le> 16 * x + ?h" "16 * x + ?h < 16 ^ Suc m"
      using h Cons.prems by (simp_all del: power_Suc add: power_Suc[of 16 m])
    from Cons.IH[OF this] show ?case by simp
  qed
  have h: "0 \<le> hex_units g" "hex_units g < 2 ^ 16"
  proof -
    have "(16::int) ^ length g \<le> 16 ^ 4" using g(1) by (intro power_increasing) auto
    with fold[of g 0 0] g(2) show "0 \<le> hex_units g" "hex_units g < 2 ^ 16" by (auto simp: hex_units_def)
  qed
  have "push_bit 16 v < 2 ^ (n + 16)" "0 \<le> push_bit 16 v"
    using Cons.prems(2,3) by (simp_all add: push_bit_eq_mult power_add)
  moreover have "hex_units g < 2 ^ (n + 16)"
  proof -
    have "(2::int) ^ 16 \<le> 2 ^ (n + 16)" by (intro power_increasing) auto
    with h(2) show ?thesis by simp
  qed
  ultimately have "0 \<le> push_bit 16 v OR hex_units g" "push_bit 16 v OR hex_units g < 2 ^ (n + 16)"
    using h(1) by (simp_all add: OR_upper)
  from Cons.IH[OF rest this] show ?case by (simp add: algebra_simps)
qed

lemma parseIpv6_bound:
  assumes "parseIpv6 s = Some v"
  shows "0 \<le> v \<and> v < 2 ^ 128"
proof -
  from assms obtain gs where "length gs = 8" "ipv6_value gs 0 = Some v"
    by (auto simp: parseIpv6_def split: option.splits if_splits)
  with ipv6_value_bound[of gs 0 v 0] show ?thesis by simp
qed

lemma ipv6_bases:
  "parseIpv6 (js ''2000::'') = Some 0x20000000000000000000000000000000"
  "parseIpv6 (js ''2001::'') = Some 0x20010000000000000000000000000000"
  "parseIpv6 (js ''2001:db8::'') = Some 0x20010db8000000000000000000000000"
  "parseIpv6 (js ''2002::'') = Some 0x20020000000000000000000000000000"
  "parseIpv6 (js ''3fff::'') = Some 0x3fff0000000000000000000000000000"
  by code_simp+

lemma in_cidr6:
  assumes "p \<noteq> 0" "b = q * 2 ^ (128 - p)"
  shows "isInIpv6Cidr v b p \<longleftrightarrow> b \<le> v \<and> v < b + 2 ^ (128 - p)"
proof -
  let ?m = "2 ^ (128 - p) :: int"
  have "isInIpv6Cidr v b p \<longleftrightarrow> v div ?m = q"
    using assms by (simp add: isInIpv6Cidr_def drop_bit_eq_div)
  also have "\<dots> \<longleftrightarrow> q * ?m \<le> v \<and> v < q * ?m + ?m"
  proof
    assume "v div ?m = q"
    have m: "0 < ?m" by simp
    have "v = q * ?m + v mod ?m" using \<open>v div ?m = q\<close> div_mult_mod_eq[of v ?m] by simp
    with pos_mod_bound[OF m, of v] pos_mod_sign[OF m, of v] show "q * ?m \<le> v \<and> v < q * ?m + ?m" by linarith
  next
    assume "q * ?m \<le> v \<and> v < q * ?m + ?m"
    then show "v div ?m = q" by (intro int_div_pos_eq[of v ?m q "v - q * ?m"]) auto
  qed
  finally show ?thesis using assms(2) by simp
qed

definition reserved6 :: "int \<Rightarrow> bool" where
  "reserved6 v \<longleftrightarrow> v < 0x20000000000000000000000000000000 \<or> 0x40000000000000000000000000000000 \<le> v \<or>
     (0x20010000000000000000000000000000 \<le> v \<and> v < 0x20010200000000000000000000000000) \<or>
     (0x20010db8000000000000000000000000 \<le> v \<and> v < 0x20010db9000000000000000000000000) \<or>
     (0x20020000000000000000000000000000 \<le> v \<and> v < 0x20030000000000000000000000000000) \<or>
     (0x3fff0000000000000000000000000000 \<le> v \<and> v < 0x3fff1000000000000000000000000000)"

lemma mapped_dotted:
  assumes "0 \<le> raw" "raw < 2 ^ 32"
  shows "js_number (drop_bit 24 raw) @ js ''.'' @ js_number (drop_bit 16 raw AND 255) @ js ''.'' @
             js_number (drop_bit 8 raw AND 255) @ js ''.'' @ js_number (raw AND 255) =
         dotted (nat (raw div 2 ^ 24), nat (raw div 2 ^ 16 mod 256), nat (raw div 2 ^ 8 mod 256), nat (raw mod 256))"
proof -
  have a: "x AND 255 = x mod 256" for x :: int
    using and_exp_eq_0_iff_not_bit[of x 0] take_bit_eq_mask[of 8 x] by (simp add: take_bit_eq_mod mask_eq_exp_minus_1)
  show ?thesis using assms by (simp add: dotted_def a drop_bit_eq_div)
qed

lemma base256:
  "(x :: int) = 16777216 * (x div 16777216) + 65536 * (x div 65536 mod 256) + 256 * (x div 256 mod 256) + x mod 256"
proof -
  have "x = 256 * (x div 256) + x mod 256" by simp
  moreover have "x div 256 = 256 * (x div 65536) + x div 256 mod 256"
    using mult_div_mod_eq[of 256 "x div 256"] by (simp add: zdiv_zmult2_eq[symmetric])
  moreover have "x div 65536 = 256 * (x div 16777216) + x div 65536 mod 256"
    using mult_div_mod_eq[of 256 "x div 65536"] by (simp add: zdiv_zmult2_eq[symmetric])
  ultimately show ?thesis by linarith
qed

lemma quad_octets:
  assumes "0 \<le> x" "x < 2 ^ 32"
  shows "int (quad (nat (x div 2 ^ 24), nat (x div 2 ^ 16 mod 256), nat (x div 2 ^ 8 mod 256), nat (x mod 256))) = x"
proof -
  have "int (quad (nat (x div 2 ^ 24), nat (x div 2 ^ 16 mod 256), nat (x div 2 ^ 8 mod 256), nat (x mod 256))) =
      16777216 * (x div 16777216) + 65536 * (x div 65536 mod 256) + 256 * (x div 256 mod 256) + x mod 256"
    using assms by (simp add: quad_def)
  also have "\<dots> = x" by (rule base256[symmetric])
  finally show ?thesis .
qed

lemma mapped_blocked:
  assumes "0 \<le> v" "mappedIpv4 v = Some m"
  shows "v div 2 ^ 32 = 0xffff" "isBlockedIpv4 m = Some (reserved4 (nat (v mod 2 ^ 32)))"
proof -
  let ?raw = "v mod 2 ^ 32"
  have and_raw: "v AND 0xffffffff = ?raw"
    using take_bit_eq_mask[of 32 v] by (simp add: take_bit_eq_mod mask_eq_exp_minus_1)
  show "v div 2 ^ 32 = 0xffff"
    using assms(2) by (auto simp: mappedIpv4_def drop_bit_eq_div split: if_splits)
  have raw: "0 \<le> ?raw" "?raw < 2 ^ 32" by simp_all
  let ?q = "(nat (?raw div 2 ^ 24), nat (?raw div 2 ^ 16 mod 256), nat (?raw div 2 ^ 8 mod 256), nat (?raw mod 256))"
  have m: "m = dotted ?q"
    using assms(2) mapped_dotted[OF raw] by (auto simp: mappedIpv4_def and_raw Let_def split: if_splits)
  have octets: "nat (?raw div 2 ^ 24) < 256" "nat (?raw div 2 ^ 16 mod 256) < 256"
    "nat (?raw div 2 ^ 8 mod 256) < 256" "nat (?raw mod 256) < 256"
    using raw by (simp_all add: nat_less_iff)
  have "int (quad ?q) = ?raw" by (rule quad_octets[OF raw])
  from arg_cong[OF this, of nat] have quad: "quad ?q = nat ?raw" by (simp only: nat_int)
  have "ipv4ToNumber m = Some (of_nat (quad ?q))" unfolding m by (rule ipv4_dotted[OF octets])
  note blocked = isBlockedIpv4_number[OF this]
  have "nat ?raw < 2 ^ 32" using raw(2) by (simp add: nat_less_iff)
  then have "unat (of_nat (nat ?raw) :: 32 word) = nat ?raw" by (rule unat_of_nat32)
  with blocked show "isBlockedIpv4 m = Some (reserved4 (nat (v mod 2 ^ 32)))"
    unfolding quad by (simp only:)
qed

lemma reserved6_cidrs:
  "(if \<not> in_parsed_cidr v (parseIpv6 (js ''2000::''), 3) then True
    else list_ex (in_parsed_cidr v) BLOCKED_IPV6_CIDRS) = reserved6 v"
proof -
  have base: "isInIpv6Cidr v 0x20000000000000000000000000000000 3 \<longleftrightarrow>
      0x20000000000000000000000000000000 \<le> v \<and> v < 0x40000000000000000000000000000000"
    using in_cidr6[of 3 "0x20000000000000000000000000000000" 1 v] by simp
  have b1: "isInIpv6Cidr v 0x20010000000000000000000000000000 23 \<longleftrightarrow>
      0x20010000000000000000000000000000 \<le> v \<and> v < 0x20010200000000000000000000000000"
    using in_cidr6[of 23 "0x20010000000000000000000000000000" "0x100080" v] by simp
  have b2: "isInIpv6Cidr v 0x20010db8000000000000000000000000 32 \<longleftrightarrow>
      0x20010db8000000000000000000000000 \<le> v \<and> v < 0x20010db9000000000000000000000000"
    using in_cidr6[of 32 "0x20010db8000000000000000000000000" "0x20010db8" v] by simp
  have b3: "isInIpv6Cidr v 0x20020000000000000000000000000000 16 \<longleftrightarrow>
      0x20020000000000000000000000000000 \<le> v \<and> v < 0x20030000000000000000000000000000"
    using in_cidr6[of 16 "0x20020000000000000000000000000000" "0x2002" v] by simp
  have b4: "isInIpv6Cidr v 0x3fff0000000000000000000000000000 20 \<longleftrightarrow>
      0x3fff0000000000000000000000000000 \<le> v \<and> v < 0x3fff1000000000000000000000000000"
    using in_cidr6[of 20 "0x3fff0000000000000000000000000000" "0x3fff0" v] by simp
  show ?thesis
    by (simp add: in_parsed_cidr_def BLOCKED_IPV6_CIDRS_def ipv6_bases base b1 b2 b3 b4 reserved6_def) auto
qed

section \<open>Properties\<close>

text \<open>C40. What counts as a public address: an IPv4 address outside the fifteen reserved ranges; an
IPv6 address that maps an IPv4 one is judged as that one, any other is public exactly
within 2000::/3 outside the four reserved blocks.\<close>

theorem public_address_ranges:
  "(isIP a = 4 \<and> ipv4ToNumber a = Some n \<longrightarrow> isPublicAddress isIP a = (\<not> reserved4 (unat n))) \<and>
   (isIP a = 6 \<and> parseIpv6 a = Some v \<longrightarrow> isPublicAddress isIP a =
      (\<not> (if v div 2 ^ 32 = 0xffff then reserved4 (nat (v mod 2 ^ 32)) else reserved6 v)))"
proof (intro conjI impI; elim conjE)
  show "isIP a = 4 \<Longrightarrow> ipv4ToNumber a = Some n \<Longrightarrow> isPublicAddress isIP a = (\<not> reserved4 (unat n))"
    by (simp add: isPublicAddress_def isBlockedIpv4_number)
next
  assume six: "isIP a = 6" and v: "parseIpv6 a = Some v"
  have pos: "0 \<le> v" using parseIpv6_bound[OF v] by simp
  show "isPublicAddress isIP a =
      (\<not> (if v div 2 ^ 32 = 0xffff then reserved4 (nat (v mod 2 ^ 32)) else reserved6 v))"
  proof (cases "mappedIpv4 v")
    case None
    then have "v div 2 ^ 32 \<noteq> 0xffff" by (auto simp: mappedIpv4_def Let_def drop_bit_eq_div split: if_splits)
    with six v None reserved6_cidrs[of v] show ?thesis by (simp add: isPublicAddress_def isBlockedIpv6_def)
  next
    case (Some m)
    from mapped_blocked[OF pos Some] six v Some show ?thesis
      by (simp add: isPublicAddress_def isBlockedIpv6_def)
  qed
qed

theorem public_address_ranges_witness:
  "isPublicAddress (\<lambda>_. 4) (dotted (93, 184, 216, 34)) \<and> \<not> isPublicAddress (\<lambda>_. 4) (dotted (192, 168, 1, 1)) \<and>
   \<not> isPublicAddress (\<lambda>_. 6) (js ''::ffff:10.0.0.1'')"
proof -
  have v: "parseIpv6 (js ''::ffff:10.0.0.1'') = Some 0xffff0a000001" by code_simp
  have r: "reserved4 (quad (192, 168, 1, 1))" "\<not> reserved4 (quad (93, 184, 216, 34))" "reserved4 (nat 0x0a000001)"
    by (simp_all add: reserved4_def reserved_ranges_def quad_def)
  show ?thesis
    using public_address_ranges[of "\<lambda>_. 4" "dotted (93, 184, 216, 34)" "of_nat (quad (93, 184, 216, 34))" 0]
      public_address_ranges[of "\<lambda>_. 4" "dotted (192, 168, 1, 1)" "of_nat (quad (192, 168, 1, 1))" 0]
      public_address_ranges[of "\<lambda>_. 6" "js ''::ffff:10.0.0.1''" 0 "0xffff0a000001"] r v
    by (simp add: ipv4_dotted) (simp add: quad_def)
qed

end
