(* ===== verification/Worker_Health.thy ===== *)
theory Worker_Health
  imports Prelude
begin

text \<open>
  The liveness state of a worker, \<open>apps/worker/src/health.ts\<close>: the counters the job handlers
  advance, the probes of the dependencies, and the verdict the health endpoint serves. The
  HTTP server around it is I/O. A probe is given by what happens to it, in order: its
  operation is fulfilled or rejected, or its timer fires.
\<close>

datatype WorkerProcessStatus = Starting | Running | Stopping
datatype OutboxPollStatus = Poll_pending | Fresh | Stale
datatype DependencyStatus = Ok | Unavailable | Not_checked
datatype CheckPipelineStatus =
  Idle | Active | Healthy | Failing | Stalled | Pipeline_unavailable | Pipeline_not_checked

record CheckActivitySnapshot =
  ca_activeJobs :: int
  ca_failures :: int
  ca_lastStartedAgoMs :: "int option"
  ca_lastSucceededAgoMs :: "int option"
  ca_lastFailedAgoMs :: "int option"

record WorkerHealthSnapshot =
  wsn_healthy :: bool
  wsn_process :: WorkerProcessStatus
  wsn_outboxPoll :: OutboxPollStatus
  wsn_checkPipeline :: CheckPipelineStatus
  wsn_checkActivity :: CheckActivitySnapshot
  wsn_database :: DependencyStatus
  wsn_producerRedis :: DependencyStatus
  wsn_consumerRedis :: DependencyStatus

section \<open>Probes\<close>

datatype probe_event = Fulfilled | Rejected | Timer_fired

fun probe_finish :: "DependencyStatus option \<Rightarrow> probe_event \<Rightarrow> DependencyStatus option" where
  "probe_finish (Some s) e = Some s"
| "probe_finish None Fulfilled = Some Ok"
| "probe_finish None e = Some Unavailable"

definition probeWithin :: "probe_event list \<Rightarrow> int \<Rightarrow> js_error + DependencyStatus option" where
  "probeWithin events timeoutMs =
     (if timeoutMs \<le> 0 then Inl (PlainError ''timeoutMs must be positive'')
      else Inr (foldl probe_finish None events))"

section \<open>The state\<close>

record WorkerHealth =
  wh_outboxStaleAfterMs :: int
  wh_checkPipelineStaleAfterMs :: int
  wh_checkFailureThreshold :: int
  wh_processStatus :: WorkerProcessStatus
  wh_lastSuccessfulOutboxPollAt :: "time option"
  wh_activeCheckJobs :: int
  wh_failures :: int
  wh_lastCheckStartedAt :: "time option"
  wh_lastCheckSucceededAt :: "time option"
  wh_lastCheckFailedAt :: "time option"

definition new_WorkerHealth :: "int \<Rightarrow> int \<Rightarrow> int \<Rightarrow> js_error + WorkerHealth" where
  "new_WorkerHealth outboxStaleAfterMs checkPipelineStaleAfterMs checkFailureThreshold =
     (if outboxStaleAfterMs \<le> 0 then Inl (PlainError ''outboxStaleAfterMs must be positive'')
      else if checkPipelineStaleAfterMs \<le> 0
      then Inl (PlainError ''checkPipelineStaleAfterMs must be positive'')
      else if \<not> safe_integer checkFailureThreshold \<or> checkFailureThreshold \<le> 0
      then Inl (PlainError ''checkFailureThreshold must be a positive integer'')
      else Inr \<lparr>wh_outboxStaleAfterMs = outboxStaleAfterMs,
        wh_checkPipelineStaleAfterMs = checkPipelineStaleAfterMs,
        wh_checkFailureThreshold = checkFailureThreshold, wh_processStatus = Starting,
        wh_lastSuccessfulOutboxPollAt = None, wh_activeCheckJobs = 0, wh_failures = 0,
        wh_lastCheckStartedAt = None, wh_lastCheckSucceededAt = None, wh_lastCheckFailedAt = None\<rparr>)"

definition workerMarkRunning :: "WorkerHealth \<Rightarrow> WorkerHealth" where
  "workerMarkRunning h = (if wh_processStatus h \<noteq> Stopping then h\<lparr>wh_processStatus := Running\<rparr> else h)"

definition markOutboxPollSucceeded :: "time \<Rightarrow> WorkerHealth \<Rightarrow> WorkerHealth" where
  "markOutboxPollSucceeded now h = h\<lparr>wh_lastSuccessfulOutboxPollAt := Some now\<rparr>"

definition markCheckStarted :: "time \<Rightarrow> WorkerHealth \<Rightarrow> WorkerHealth" where
  "markCheckStarted startedAt h =
     (let lapsed = (case wh_lastCheckFailedAt h of None \<Rightarrow> False
                    | Some t \<Rightarrow> wh_checkPipelineStaleAfterMs h < startedAt - t)
      in h\<lparr>wh_failures := (if lapsed then 0 else wh_failures h),
           wh_activeCheckJobs := wh_activeCheckJobs h + 1, wh_lastCheckStartedAt := Some startedAt\<rparr>)"

definition markCheckSucceeded :: "time \<Rightarrow> WorkerHealth \<Rightarrow> WorkerHealth" where
  "markCheckSucceeded now h = h\<lparr>wh_activeCheckJobs := max 0 (wh_activeCheckJobs h - 1),
     wh_failures := 0, wh_lastCheckSucceededAt := Some now\<rparr>"

definition markCheckFailed :: "time \<Rightarrow> WorkerHealth \<Rightarrow> WorkerHealth" where
  "markCheckFailed now h = h\<lparr>wh_activeCheckJobs := max 0 (wh_activeCheckJobs h - 1),
     wh_failures := wh_failures h + 1, wh_lastCheckFailedAt := Some now\<rparr>"

definition workerMarkStopping :: "WorkerHealth \<Rightarrow> WorkerHealth" where
  "workerMarkStopping h = h\<lparr>wh_processStatus := Stopping\<rparr>"

definition outboxPollFreshnessMs :: "int \<Rightarrow> int" where
  "outboxPollFreshnessMs pollIntervalMs = max 30000 (pollIntervalMs * 5)"

section \<open>Inspection\<close>

definition age_of :: "time \<Rightarrow> time option \<Rightarrow> int option" where
  "age_of inspectedAt timestamp = map_option (\<lambda>t. max 0 (inspectedAt - t)) timestamp"

definition checkActivitySnapshot :: "time \<Rightarrow> WorkerHealth \<Rightarrow> CheckActivitySnapshot" where
  "checkActivitySnapshot inspectedAt h =
     \<lparr>ca_activeJobs = wh_activeCheckJobs h, ca_failures = wh_failures h,
      ca_lastStartedAgoMs = age_of inspectedAt (wh_lastCheckStartedAt h),
      ca_lastSucceededAgoMs = age_of inspectedAt (wh_lastCheckSucceededAt h),
      ca_lastFailedAgoMs = age_of inspectedAt (wh_lastCheckFailedAt h)\<rparr>"

definition outbox_poll_status :: "time \<Rightarrow> WorkerHealth \<Rightarrow> OutboxPollStatus" where
  "outbox_poll_status inspectedAt h =
     (case wh_lastSuccessfulOutboxPollAt h of None \<Rightarrow> Poll_pending
      | Some t \<Rightarrow> if inspectedAt - t \<le> wh_outboxStaleAfterMs h then Fresh else Stale)"

definition within_stale :: "WorkerHealth \<Rightarrow> int option \<Rightarrow> bool" where
  "within_stale h ago \<longleftrightarrow> (case ago of None \<Rightarrow> False | Some ms \<Rightarrow> ms \<le> wh_checkPipelineStaleAfterMs h)"

definition pipeline_status ::
  "WorkerHealth \<Rightarrow> CheckActivitySnapshot \<Rightarrow> DependencyStatus \<Rightarrow> bool \<Rightarrow> CheckPipelineStatus" where
  "pipeline_status h a checkLedger hasStalledCheckWork =
     (if checkLedger = Unavailable then Pipeline_unavailable
      else if hasStalledCheckWork then Stalled
      else if wh_checkFailureThreshold h \<le> ca_failures a \<and> within_stale h (ca_lastFailedAgoMs a) then Failing
      else if 0 < ca_activeJobs a then Active
      else if list_ex (within_stale h)
                [ca_lastStartedAgoMs a, ca_lastSucceededAgoMs a, ca_lastFailedAgoMs a] then Healthy
      else Idle)"

record WorkerHealthDependencies =
  hd_database :: DependencyStatus
  hd_producerRedis :: DependencyStatus
  hd_consumerRedis :: DependencyStatus
  hd_checkLedger :: DependencyStatus
  hd_hasStalledCheckWork :: bool

text \<open>
  The dependencies are probed only while running; \<open>processAfter\<close> is the status once all the
  probes have settled.
\<close>

definition inspect_health ::
  "time \<Rightarrow> WorkerHealthDependencies \<Rightarrow> WorkerProcessStatus \<Rightarrow> WorkerHealth \<Rightarrow> WorkerHealthSnapshot" where
  "inspect_health inspectedAt deps processAfter h =
     (let outboxPoll = outbox_poll_status inspectedAt h; a = checkActivitySnapshot inspectedAt h in
      if wh_processStatus h \<noteq> Running
      then \<lparr>wsn_healthy = False, wsn_process = wh_processStatus h, wsn_outboxPoll = outboxPoll,
            wsn_checkPipeline = Pipeline_not_checked, wsn_checkActivity = a, wsn_database = Not_checked,
            wsn_producerRedis = Not_checked, wsn_consumerRedis = Not_checked\<rparr>
      else
       (let pipeline = pipeline_status h a (hd_checkLedger deps) (hd_hasStalledCheckWork deps)
        in \<lparr>wsn_healthy = (processAfter = Running \<and> outboxPoll = Fresh \<and>
              (pipeline = Idle \<or> pipeline = Active \<or> pipeline = Healthy) \<and>
              hd_database deps = Ok \<and> hd_producerRedis deps = Ok \<and> hd_consumerRedis deps = Ok),
            wsn_process = processAfter, wsn_outboxPoll = outboxPoll, wsn_checkPipeline = pipeline,
            wsn_checkActivity = a, wsn_database = hd_database deps,
            wsn_producerRedis = hd_producerRedis deps, wsn_consumerRedis = hd_consumerRedis deps\<rparr>))"

text \<open>The answer of the health endpoint: status code and whether it says \<open>ok\<close>.\<close>

definition health_response ::
  "jstring \<Rightarrow> jstring \<Rightarrow> WorkerHealthSnapshot option \<Rightarrow> int" where
  "health_response httpMethod pathname snapshot =
     (if pathname \<noteq> js ''/health'' then 404
      else if httpMethod \<noteq> js ''GET'' \<and> httpMethod \<noteq> js ''HEAD'' then 405
      else case snapshot of None \<Rightarrow> 503 | Some s \<Rightarrow> if wsn_healthy s then 200 else 503)"

section \<open>Runs\<close>

datatype health_event =
    Ev_running | Ev_poll time | Ev_started time | Ev_succeeded time | Ev_failed time | Ev_stopping

fun health_step :: "WorkerHealth \<Rightarrow> health_event \<Rightarrow> WorkerHealth" where
  "health_step h Ev_running = workerMarkRunning h"
| "health_step h (Ev_poll t) = markOutboxPollSucceeded t h"
| "health_step h (Ev_started t) = markCheckStarted t h"
| "health_step h (Ev_succeeded t) = markCheckSucceeded t h"
| "health_step h (Ev_failed t) = markCheckFailed t h"
| "health_step h Ev_stopping = workerMarkStopping h"

text \<open>The failures at the end of a history, newest event first, and the newest poll.\<close>

fun failure_streak :: "health_event list \<Rightarrow> nat" where
  "failure_streak [] = 0"
| "failure_streak (Ev_failed t # es) = Suc (failure_streak es)"
| "failure_streak (Ev_succeeded t # es) = 0"
| "failure_streak (e # es) = failure_streak es"

fun last_poll :: "health_event list \<Rightarrow> time option" where
  "last_poll [] = None"
| "last_poll (Ev_poll t # es) = Some t"
| "last_poll (e # es) = last_poll es"

fun last_failure :: "health_event list \<Rightarrow> time option" where
  "last_failure [] = None"
| "last_failure (Ev_failed t # es) = Some t"
| "last_failure (e # es) = last_failure es"

text \<open>Checks started in the history whose end it does not hold.\<close>

fun open_jobs :: "health_event list \<Rightarrow> int" where
  "open_jobs [] = 0"
| "open_jobs (Ev_started t # es) = open_jobs es + 1"
| "open_jobs (Ev_succeeded t # es) = max 0 (open_jobs es - 1)"
| "open_jobs (Ev_failed t # es) = max 0 (open_jobs es - 1)"
| "open_jobs (e # es) = open_jobs es"

text \<open>Every start comes within the window of the last failure before it.\<close>

fun no_gap :: "int \<Rightarrow> health_event list \<Rightarrow> bool" where
  "no_gap w [] \<longleftrightarrow> True"
| "no_gap w (Ev_started t # es) \<longleftrightarrow>
     (case last_failure es of None \<Rightarrow> True | Some f \<Rightarrow> t - f \<le> w) \<and> no_gap w es"
| "no_gap w (e # es) \<longleftrightarrow> no_gap w es"

lemmas health_defs = workerMarkRunning_def markOutboxPollSucceeded_def markCheckStarted_def
  markCheckSucceeded_def markCheckFailed_def workerMarkStopping_def

definition history_of :: "WorkerHealth \<Rightarrow> WorkerHealth \<Rightarrow> health_event list \<Rightarrow> bool" where
  "history_of h0 h es \<longleftrightarrow>
     wh_outboxStaleAfterMs h = wh_outboxStaleAfterMs h0 \<and>
     wh_checkPipelineStaleAfterMs h = wh_checkPipelineStaleAfterMs h0 \<and>
     wh_checkFailureThreshold h = wh_checkFailureThreshold h0 \<and>
     wh_lastSuccessfulOutboxPollAt h = last_poll es \<and>
     wh_lastCheckFailedAt h = last_failure es \<and> wh_activeCheckJobs h = open_jobs es \<and>
     0 \<le> wh_failures h \<and> wh_failures h \<le> int (failure_streak es) \<and>
     (no_gap (wh_checkPipelineStaleAfterMs h0) es \<longrightarrow> wh_failures h = int (failure_streak es)) \<and>
     (wh_processStatus h = Stopping \<longleftrightarrow> Ev_stopping \<in> set es)"

lemma history_step:
  assumes "history_of h0 h es"
  shows "history_of h0 (health_step h e) (e # es)"
  using assms
  by (cases e) (auto simp: history_of_def health_defs Let_def split: option.splits)

lemma history_run:
  assumes "new_WorkerHealth a b c = Inr h0"
  shows "history_of h0 (foldl health_step h0 es) (rev es)"
proof (induction es rule: rev_induct)
  case Nil
  from assms show ?case by (auto simp: history_of_def new_WorkerHealth_def split: if_splits)
next
  case (snoc e es)
  then show ?case using history_step by simp
qed

section \<open>Properties\<close>

text \<open>What a healthy answer says of the history of a worker: it was not told to stop, it polled
the outbox within its window, the ledger was readable and held no stalled work, every
dependency answered, and unless its last failed check lies further back than the window,
the failures since the last success are below the threshold whenever no start came later
than the window after a failure.\<close>

theorem healthy_answer_sound:
  assumes "new_WorkerHealth a b c = Inr h0"
    "wsn_healthy (inspect_health t deps processAfter (foldl health_step h0 es))"
  shows "Ev_stopping \<notin> set es \<and> processAfter = Running \<and>
    (\<exists>p. last_poll (rev es) = Some p \<and> t - p \<le> a) \<and>
    hd_checkLedger deps \<noteq> Unavailable \<and> \<not> hd_hasStalledCheckWork deps \<and>
    hd_database deps = Ok \<and> hd_producerRedis deps = Ok \<and> hd_consumerRedis deps = Ok \<and>
    (\<forall>f. last_failure (rev es) = Some f \<and> t - f \<le> b \<and> no_gap b (rev es) \<longrightarrow>
       int (failure_streak (rev es)) < c)"
proof -
  let ?h = "foldl health_step h0 es"
  have conf: "wh_outboxStaleAfterMs h0 = a" "wh_checkPipelineStaleAfterMs h0 = b"
    "wh_checkFailureThreshold h0 = c" "0 < b"
    using assms(1) by (auto simp: new_WorkerHealth_def split: if_splits)
  note hist = history_run[OF assms(1), of es, unfolded history_of_def conf]
  from assms(2) have run: "wh_processStatus ?h = Running" "processAfter = Running"
    "outbox_poll_status t ?h = Fresh"
    and pipe: "pipeline_status ?h (checkActivitySnapshot t ?h) (hd_checkLedger deps)
      (hd_hasStalledCheckWork deps) \<in> {Idle, Active, Healthy}"
    and deps: "hd_database deps = Ok" "hd_producerRedis deps = Ok" "hd_consumerRedis deps = Ok"
    by (auto simp: inspect_health_def Let_def split: if_splits)
  have "\<exists>p. last_poll (rev es) = Some p \<and> t - p \<le> a"
    using run(3) hist by (auto simp: outbox_poll_status_def split: option.splits if_splits)
  moreover have "Ev_stopping \<notin> set es" using run(1) hist by auto
  moreover have "hd_checkLedger deps \<noteq> Unavailable \<and> \<not> hd_hasStalledCheckWork deps \<and>
      \<not> (wh_checkFailureThreshold ?h \<le> wh_failures ?h \<and> within_stale ?h (age_of t (wh_lastCheckFailedAt ?h)))"
    using pipe by (auto simp: pipeline_status_def checkActivitySnapshot_def split: if_splits)
  ultimately show ?thesis
    using run(2) deps hist conf(4) by (auto simp: within_stale_def age_of_def)
qed

theorem healthy_answer_sound_witness:
  "\<exists>h0. new_WorkerHealth 1000 5000 3 = Inr h0 \<and>
     wsn_healthy (inspect_health 900
       \<lparr>hd_database = Ok, hd_producerRedis = Ok, hd_consumerRedis = Ok, hd_checkLedger = Ok,
        hd_hasStalledCheckWork = False\<rparr> Running
       (foldl health_step h0 [Ev_running, Ev_poll 100, Ev_started 200, Ev_failed 300, Ev_started 400])) \<and>
     int (failure_streak (rev [Ev_running, Ev_poll 100, Ev_started 200, Ev_failed 300, Ev_started 400])) < 3"
proof -
  let ?deps = "\<lparr>hd_database = Ok, hd_producerRedis = Ok, hd_consumerRedis = Ok, hd_checkLedger = Ok,
        hd_hasStalledCheckWork = False\<rparr>"
  let ?es = "[Ev_running, Ev_poll 100, Ev_started 200, Ev_failed 300, Ev_started 400]"
  obtain h0 where h0: "new_WorkerHealth 1000 5000 3 = Inr h0"
    by (simp add: new_WorkerHealth_def safe_integer_def)
  have healthy: "wsn_healthy (inspect_health 900 ?deps Running (foldl health_step h0 ?es))"
    using h0 by (auto simp: new_WorkerHealth_def safe_integer_def inspect_health_def health_defs Let_def
        outbox_poll_status_def pipeline_status_def checkActivitySnapshot_def within_stale_def age_of_def)
  from healthy_answer_sound[OF h0 healthy] h0 healthy show ?thesis by simp
qed

text \<open>A probe always settles: its timer fires in the end, and whatever happens first decides, a
late answer never turning an unavailable dependency into an available one.\<close>

theorem probe_settles:
  assumes "0 < timeoutMs" "Timer_fired \<in> set events"
  shows "\<exists>s. probeWithin events timeoutMs = Inr (Some s) \<and>
    (s = Ok \<longleftrightarrow> (\<exists>rest. events = Fulfilled # rest)) \<and> s \<noteq> Not_checked"
proof -
  have stays: "foldl probe_finish (Some s) es = Some s" for s es by (induction es) simp_all
  from assms(2) obtain e es where es: "events = e # es" by (cases events) auto
  then show ?thesis using assms(1) by (cases e) (simp_all add: probeWithin_def stays)
qed

theorem probe_settles_witness:
  "probeWithin [Timer_fired, Fulfilled] 1500 = Inr (Some Unavailable)"
  using probe_settles[of 1500 "[Timer_fired, Fulfilled]"] by (auto simp: probeWithin_def)

end
