(* ===== verification/Keyword_Search.thy ===== *)
theory Keyword_Search
  imports Url_Policy Notification_Policy "HOL-Library.Sublist"
begin

text \<open>
  Reading a response of the checker, \<open>packages/monitoring/src/checker.ts\<close>: headers, the limits
  on the size of headers and of an encoded body, and the search for a keyword in the chunks of
  a body as they arrive. The UTF-8 decoder and the byte length of a string are the runtime's, as the
  Encoding Standard defines them; the decompressors are a parameter.
\<close>

section \<open>UTF-8 in the runtime\<close>

text \<open>\<open>Buffer.byteLength(s, 'utf8')\<close>: an unpaired surrogate counts as the replacement character.\<close>

fun byteLength :: "jstring \<Rightarrow> nat" where
  "byteLength [] = 0"
| "byteLength (c # cs) =
     (if c < 0x80 then 1 + byteLength cs
      else if c < 0x800 then 2 + byteLength cs
      else if 0xD800 \<le> c \<and> c \<le> 0xDBFF
      then (case cs of [] \<Rightarrow> 3
            | d # ds \<Rightarrow> if 0xDC00 \<le> d \<and> d \<le> 0xDFFF then 4 + byteLength ds else 3 + byteLength cs)
      else 3 + byteLength cs)"

type_synonym byte = "8 word"

text \<open>The decoder between two bytes: how many it still needs, and the bounds of the next one.\<close>

datatype utf8_state = Ready | Needs nat nat byte byte

text \<open>One byte; the result is a list of code points, the replacement character for an error.\<close>

definition lead_byte :: "byte \<Rightarrow> nat list \<times> utf8_state" where
  "lead_byte b =
     (if b < 0x80 then ([unat b], Ready)
      else if 0xC2 \<le> b \<and> b \<le> 0xDF then ([], Needs 1 (unat b mod 32) 0x80 0xBF)
      else if 0xE0 \<le> b \<and> b \<le> 0xEF
      then ([], Needs 2 (unat b mod 16) (if b = 0xE0 then 0xA0 else 0x80) (if b = 0xED then 0x9F else 0xBF))
      else if 0xF0 \<le> b \<and> b \<le> 0xF4
      then ([], Needs 3 (unat b mod 8) (if b = 0xF0 then 0x90 else 0x80) (if b = 0xF4 then 0x8F else 0xBF))
      else ([0xFFFD], Ready))"

fun decode_byte :: "utf8_state \<Rightarrow> byte \<Rightarrow> nat list \<times> utf8_state" where
  "decode_byte Ready b = lead_byte b"
| "decode_byte (Needs n cp lower upper) b =
     (if b < lower \<or> upper < b then (case lead_byte b of (out, st) \<Rightarrow> (0xFFFD # out, st))
      else if n \<le> 1 then ([cp * 64 + unat b mod 64], Ready)
      else ([], Needs (n - 1) (cp * 64 + unat b mod 64) 0x80 0xBF))"

fun decode_bytes :: "utf8_state \<Rightarrow> byte list \<Rightarrow> nat list \<times> utf8_state" where
  "decode_bytes st [] = ([], st)"
| "decode_bytes st (b # bs) =
     (case decode_byte st b of (out, st1) \<Rightarrow>
      (case decode_bytes st1 bs of (out', st2) \<Rightarrow> (out @ out', st2)))"

definition decode_end :: "utf8_state \<Rightarrow> nat list" where
  "decode_end st = (if st = Ready then [] else [0xFFFD])"

definition utf16 :: "nat \<Rightarrow> jstring" where
  "utf16 cp =
     (if cp < 0x10000 then [of_nat cp]
      else [of_nat (0xD800 + (cp - 0x10000) div 0x400), of_nat (0xDC00 + (cp - 0x10000) mod 0x400)])"

text \<open>A \<open>TextDecoder\<close>; the first code point of a stream is dropped when it is a byte order mark.\<close>

record text_decoder =
  td_state :: utf8_state
  td_bomSeen :: bool

definition new_TextDecoder :: text_decoder where
  "new_TextDecoder = \<lparr>td_state = Ready, td_bomSeen = False\<rparr>"

definition drop_bom :: "bool \<Rightarrow> nat list \<Rightarrow> nat list \<times> bool" where
  "drop_bom seen cps =
     (case cps of [] \<Rightarrow> ([], seen)
      | cp # rest \<Rightarrow> (if \<not> seen \<and> cp = 0xFEFF then rest else cps, True))"

text \<open>\<open>decoder.decode(bytes, { stream })\<close>\<close>

definition text_decode :: "text_decoder \<Rightarrow> byte list \<Rightarrow> bool \<Rightarrow> jstring \<times> text_decoder" where
  "text_decode d bytes stream =
     (case decode_bytes (td_state d) bytes of (cps, st) \<Rightarrow>
      (case drop_bom (td_bomSeen d) (if stream then cps else cps @ decode_end st) of (shown, seen) \<Rightarrow>
        (concat (map utf16 shown),
         if stream then \<lparr>td_state = st, td_bomSeen = seen\<rparr> else new_TextDecoder)))"

text \<open>The text of a complete body.\<close>

definition body_text :: "byte list \<Rightarrow> jstring" where
  "body_text bytes = fst (text_decode new_TextDecoder bytes False)"

lemma decode_bytes_append:
  "decode_bytes st (xs @ ys) =
     (let (a, st1) = decode_bytes st xs; (b, st2) = decode_bytes st1 ys in (a @ b, st2))"
  by (induction xs arbitrary: st) (auto simp: Let_def split: prod.splits)

section \<open>Headers\<close>

definition MAX_HEADER_BYTES :: nat where "MAX_HEADER_BYTES = 32 * 1024"
definition MAX_BODY_BYTES :: nat where "MAX_BODY_BYTES = 64 * 1024"
definition MAX_ENCODED_BODY_BYTES :: nat where "MAX_ENCODED_BODY_BYTES = 256 * 1024"
definition MAX_KEYWORD_BYTES :: nat where "MAX_KEYWORD_BYTES = 4 * 1024"

datatype header_value = Undefined_value | One_value jstring | Values "jstring list"

type_synonym headers = "(jstring \<times> header_value) list"

definition header_field :: "headers \<Rightarrow> jstring \<Rightarrow> header_value" where
  "header_field headers name =
     (case map_of headers name of None \<Rightarrow> Undefined_value | Some v \<Rightarrow> v)"

definition firstHeader :: "headers \<Rightarrow> jstring \<Rightarrow> jstring option" where
  "firstHeader headers name =
     (let value = (case header_field headers name of
                     Undefined_value \<Rightarrow> header_field headers (ascii_lower name) | v \<Rightarrow> v)
      in case value of Undefined_value \<Rightarrow> None | One_value v \<Rightarrow> Some v
         | Values vs \<Rightarrow> (case vs of [] \<Rightarrow> None | v # _ \<Rightarrow> Some v))"

definition header_lines :: "header_value \<Rightarrow> jstring list" where
  "header_lines value = (case value of Undefined_value \<Rightarrow> [[]] | One_value v \<Rightarrow> [v] | Values vs \<Rightarrow> vs)"

definition approximateHeaderBytes :: "headers \<Rightarrow> nat" where
  "approximateHeaderBytes headers =
     2 + sum_list (map (\<lambda>(name, value).
           sum_list (map (\<lambda>item. byteLength (name @ js '': '' @ item @ [13, 10])) (header_lines value)))
         headers)"

section \<open>Encodings\<close>

datatype content_coding = Gunzip | Inflate | BrotliDecompress

definition coding_name :: "jstring option \<Rightarrow> jstring option" where
  "coding_name contentEncoding = map_option (\<lambda>e. ascii_lower (js_trim e)) contentEncoding"

definition decompressorFor :: "jstring option \<Rightarrow> CheckFailure + content_coding option" where
  "decompressorFor contentEncoding =
     (let encoding = coding_name contentEncoding in
      if encoding = None \<or> encoding = Some [] \<or> encoding = Some (js ''identity'') then Inr None
      else if encoding = Some (js ''gzip'') \<or> encoding = Some (js ''x-gzip'') then Inr (Some Gunzip)
      else if encoding = Some (js ''deflate'') then Inr (Some Inflate)
      else if encoding = Some (js ''br'') then Inr (Some BrotliDecompress)
      else Inl (target_failure NETWORK_ERROR [0xC9C0, 0xC6D0, 0xD558, 0xC9C0, 0x20, 0xC54A, 0xB294, 0x20, 0xC751, 0xB2F5, 0x20,
      0xC555, 0xCD95, 0x20, 0xD615, 0xC2DD, 0xC785, 0xB2C8, 0xB2E4, 0x2E]))"

definition encoded_limit_error :: CheckFailure where
  "encoded_limit_error =
     target_failure RESPONSE_LIMIT_EXCEEDED [0xC555, 0xCD95, 0x20, 0xC751, 0xB2F5, 0xC758, 0x20, 0xC804, 0xC1A1, 0x20, 0xD06C,
      0xAE30, 0x20, 0xC81C, 0xD55C, 0xC744, 0x20, 0xCD08, 0xACFC, 0xD588, 0xC2B5, 0xB2C8,
      0xB2E4, 0x2E]"

text \<open>\<open>BigInt\<close> of a numeral is exact; a numeral too long for it is too long for a header.\<close>

definition assertEncodedContentLength :: "headers \<Rightarrow> CheckFailure option" where
  "assertEncodedContentLength headers =
     (case map_option js_trim (firstHeader headers (js ''content-length'')) of
        None \<Rightarrow> None
      | Some raw \<Rightarrow>
          if raw = [] \<or> \<not> list_all digit raw then None
          else if MAX_ENCODED_BODY_BYTES < decimal_value raw then Some encoded_limit_error
          else None)"

section \<open>Bodies\<close>

text \<open>What can be thrown: a \<open>CheckFailure\<close>, any other error object, or no object at all.\<close>

datatype error_class = HeadersTimeoutError | ConnectTimeoutError | Other_error

datatype thrown_value =
    Failure CheckFailure
  | Error_object error_class "jstring option" "thrown_value option"
  | Primitive_value

text \<open>
  A body as its reader meets it: the chunks, each with whether the signal was aborted when it
  arrived, and how the stream ended.
\<close>

datatype body_end = Ended | Broken bool thrown_value

record body_stream =
  bs_chunks :: "(bool \<times> byte list) list"
  bs_end :: body_end

text \<open>\<open>EncodedBodyLimitTransform\<close>: the chunk that passes the limit ends the stream with an error.\<close>

fun limit_encoded :: "nat \<Rightarrow> (bool \<times> byte list) list \<Rightarrow> body_end \<Rightarrow> body_stream" where
  "limit_encoded bytesRead [] e = \<lparr>bs_chunks = [], bs_end = e\<rparr>"
| "limit_encoded bytesRead ((aborted, chunk) # chunks) e =
     (if MAX_ENCODED_BODY_BYTES < bytesRead + length chunk
      then \<lparr>bs_chunks = [], bs_end = Broken aborted (Failure encoded_limit_error)\<rparr>
      else (let rest = limit_encoded (bytesRead + length chunk) chunks e
            in rest\<lparr>bs_chunks := (aborted, chunk) # bs_chunks rest\<rparr>))"

definition decoded_stream ::
  "(content_coding \<Rightarrow> body_stream \<Rightarrow> body_stream) \<Rightarrow> content_coding option \<Rightarrow> body_stream \<Rightarrow> body_stream" where
  "decoded_stream decompress decompressor source =
     (case decompressor of None \<Rightarrow> source
      | Some c \<Rightarrow> decompress c (limit_encoded 0 (bs_chunks source) (bs_end source)))"

section \<open>The search\<close>

text \<open>\<open>text.slice(-Math.max(keyword.length - 1, 0))\<close>: for a keyword of one unit that is all of it.\<close>

definition keep_overlap :: "jstring \<Rightarrow> jstring \<Rightarrow> jstring" where
  "keep_overlap keyword text =
     (let n = length keyword - 1 in if n = 0 then text else drop (length text - n) text)"

text \<open>\<open>signal.reason\<close> is the error of the overall timeout.\<close>

definition overall_timeout :: thrown_value where
  "overall_timeout = Error_object Other_error None None"

datatype search_result = Result bool nat | Threw bool thrown_value

definition search_tail :: "jstring \<Rightarrow> text_decoder \<Rightarrow> nat \<Rightarrow> jstring \<Rightarrow> search_result" where
  "search_tail keyword d inspected overlap =
     Result (sublist keyword (overlap @ fst (text_decode d [] False))) inspected"

primrec search_chunks ::
  "jstring \<Rightarrow> body_end \<Rightarrow> (bool \<times> byte list) list \<Rightarrow> text_decoder \<Rightarrow> nat \<Rightarrow> jstring \<Rightarrow> search_result" where
  "search_chunks keyword e [] d inspected overlap =
     (case e of Ended \<Rightarrow> search_tail keyword d inspected overlap
      | Broken aborted error \<Rightarrow> Threw aborted error)"
| "search_chunks keyword e (c # chunks) d inspected overlap =
     (case c of (aborted, chunk) \<Rightarrow>
       if aborted then Threw True overall_timeout
       else
        (let remaining = int MAX_BODY_BYTES - int inspected in
         if remaining \<le> 0 then search_tail keyword d inspected overlap
         else
          (let bounded = take (nat remaining) chunk;
               inspected' = inspected + length bounded;
               decoded = text_decode d bounded (inspected' < MAX_BODY_BYTES);
               seen = overlap @ fst decoded
           in if sublist keyword seen then Result True inspected'
              else if length bounded < length chunk \<or> MAX_BODY_BYTES \<le> inspected'
              then search_tail keyword (snd decoded) inspected' (keep_overlap keyword seen)
              else search_chunks keyword e chunks (snd decoded) inspected' (keep_overlap keyword seen))))"

definition unsafe_body :: CheckFailure where
  "unsafe_body = target_failure NETWORK_ERROR [0xC751, 0xB2F5, 0x20, 0xBCF8, 0xBB38, 0xC744, 0x20, 0xC548, 0xC804, 0xD558, 0xAC8C,
      0x20, 0xCC98, 0xB9AC, 0xD560, 0x20, 0xC218, 0x20, 0xC5C6, 0xC2B5, 0xB2C8, 0xB2E4, 0x2E]"

definition is_check_failure :: "thrown_value \<Rightarrow> bool" where
  "is_check_failure v = (case v of Failure f \<Rightarrow> True | _ \<Rightarrow> False)"

definition inspectKeyword ::
  "(content_coding \<Rightarrow> body_stream \<Rightarrow> body_stream) \<Rightarrow> headers \<Rightarrow> body_stream \<Rightarrow> jstring \<Rightarrow>
   thrown_value + bool \<times> nat" where
  "inspectKeyword decompress headers body keyword =
     (let contentEncoding = firstHeader headers (js ''content-encoding'');
          normalized = coding_name contentEncoding;
          tooLong = (if normalized \<in> Some ` {js ''gzip'', js ''x-gzip'', js ''deflate'', js ''br''}
                     then assertEncodedContentLength headers else None)
      in case tooLong of Some f \<Rightarrow> Inl (Failure f)
       | None \<Rightarrow>
        (case decompressorFor contentEncoding of Inl f \<Rightarrow> Inl (Failure f)
         | Inr decompressor \<Rightarrow>
           (let stream = decoded_stream decompress decompressor body in
            case search_chunks keyword (bs_end stream) (bs_chunks stream) new_TextDecoder 0 [] of
              Result found inspected \<Rightarrow> Inr (found, inspected)
            | Threw aborted error \<Rightarrow>
                Inl (if aborted \<or> is_check_failure error then error else Failure unsafe_body))))"

section \<open>The search is a search in the text\<close>

lemma drop_bom_append:
  "drop_bom seen (a @ b) =
     (let (x, s1) = drop_bom seen a; (y, s2) = drop_bom s1 b in (x @ y, s2))"
  by (cases a; cases b) (simp_all add: drop_bom_def)

lemma text_decode_append:
  "fst (text_decode d (xs @ ys) stream) =
     fst (text_decode d xs True) @ fst (text_decode (snd (text_decode d xs True)) ys stream)"
  by (auto simp: text_decode_def decode_bytes_append drop_bom_append Let_def split: prod.splits)

lemma text_decode_closed [simp]: "snd (text_decode d xs False) = new_TextDecoder"
  by (simp add: text_decode_def split: prod.splits)

lemma text_decode_new_Nil [simp]: "fst (text_decode new_TextDecoder [] False) = []"
  by (simp add: text_decode_def new_TextDecoder_def decode_end_def drop_bom_def)

text \<open>Nothing of an occurrence that ends later is lost with the dropped part.\<close>

lemma sublist_keep_overlap:
  assumes "\<not> sublist keyword text"
  shows "sublist keyword (text @ later) = sublist keyword (keep_overlap keyword text @ later)"
proof (cases "length keyword - 1 = 0 \<or> length text \<le> length keyword - 1")
  case True
  then show ?thesis by (auto simp: keep_overlap_def Let_def)
next
  case False
  define n where "n = length keyword - 1"
  define kept where "kept = drop (length text - n) text"
  have kept: "keep_overlap keyword text = kept" "length kept = n" "suffix kept text"
    using False by (auto simp: keep_overlap_def kept_def n_def Let_def suffix_drop)
  have none: "\<not> sublist keyword kept" using assms kept(3) by (meson suffix_imp_sublist sublist_order.order_trans)
  have "suffix a text = suffix a kept" if "keyword = a @ b" "b \<noteq> []" for a b
  proof -
    have "length a \<le> length kept" using that kept(2) by (cases b) (auto simp: n_def)
    then show ?thesis using kept(3) by (meson suffix_length_suffix suffix_order.order_trans)
  qed
  then have "(\<exists>a b. keyword = a @ b \<and> suffix a text \<and> prefix b later) =
             (\<exists>a b. keyword = a @ b \<and> suffix a kept \<and> prefix b later)"
    using assms none by (metis append_Nil2 suffix_imp_sublist)
  then show ?thesis using assms none by (simp add: kept(1) sublist_append)
qed

lemma search_chunks_result:
  assumes "\<And>a c. (a, c) \<in> set chunks \<Longrightarrow> \<not> a" "n \<le> MAX_BODY_BYTES"
    and "e = Ended \<or> MAX_BODY_BYTES \<le> n + length (concat (map snd chunks))"
    and "e \<noteq> Ended \<Longrightarrow> n < MAX_BODY_BYTES"
  shows "\<exists>m \<le> MAX_BODY_BYTES. search_chunks keyword e chunks d n overlap =
     Result (sublist keyword
       (overlap @ fst (text_decode d (take (MAX_BODY_BYTES - n) (concat (map snd chunks))) False))) m"
  using assms
proof (induction chunks arbitrary: d n overlap)
  case Nil
  then have "e = Ended" by auto
  with Nil show ?case by (auto simp: search_tail_def)
next
  case (Cons c chunks)
  obtain chunk where c: "c = (False, chunk)" using Cons.prems(1) by (cases c) auto
  show ?case
  proof (cases "n < MAX_BODY_BYTES")
    case False
    then show ?thesis using Cons.prems(2) by (auto simp: c search_tail_def)
  next
    case True
    define bounded where "bounded = take (MAX_BODY_BYTES - n) chunk"
    define n' where "n' = n + length bounded"
    define window where "window = overlap @ fst (text_decode d bounded (n' < MAX_BODY_BYTES))"
    have nat_rem: "nat (int MAX_BODY_BYTES - int n) = MAX_BODY_BYTES - n" by simp
    have step: "search_chunks keyword e (c # chunks) d n overlap =
      (if sublist keyword window then Result True n'
       else if MAX_BODY_BYTES \<le> n'
       then search_tail keyword (snd (text_decode d bounded (n' < MAX_BODY_BYTES))) n' (keep_overlap keyword window)
       else search_chunks keyword e chunks (snd (text_decode d bounded (n' < MAX_BODY_BYTES))) n'
              (keep_overlap keyword window))"
      using True by (auto simp: c Let_def nat_rem bounded_def n'_def window_def)
    have n': "n' \<le> MAX_BODY_BYTES" using True by (auto simp: n'_def bounded_def)
    show ?thesis
    proof (cases "n' < MAX_BODY_BYTES")
      case False
      then have all: "take (MAX_BODY_BYTES - n) (concat (map snd (c # chunks))) = bounded"
        by (auto simp: n'_def bounded_def c)
      show ?thesis
        using False n' sublist_keep_overlap[of keyword window "[]"] unfolding step all
        by (auto simp: search_tail_def window_def)
    next
      case True
      then have chunk: "bounded = chunk" and n'_eq: "n' = n + length chunk"
        by (auto simp: bounded_def n'_def)
      have all: "take (MAX_BODY_BYTES - n) (concat (map snd (c # chunks))) =
          chunk @ take (MAX_BODY_BYTES - n') (concat (map snd chunks))"
        using True by (simp add: c n'_eq)
      have "\<exists>m \<le> MAX_BODY_BYTES. search_chunks keyword e chunks (snd (text_decode d chunk True)) n'
          (keep_overlap keyword window) = Result (sublist keyword (keep_overlap keyword window @
            fst (text_decode (snd (text_decode d chunk True))
              (take (MAX_BODY_BYTES - n') (concat (map snd chunks))) False))) m"
        by (rule Cons.IH) (use Cons.prems True in \<open>auto simp: c n'_eq\<close>)
      then show ?thesis
        using True n' sublist_keep_overlap[of keyword window] unfolding step all text_decode_append
        by (auto simp: chunk window_def intro: sublist_order.order_trans)
    qed
  qed
qed

text \<open>C36. The keyword is looked for in the text, not in the chunks. When the body arrives undisturbed, or is at
  least as long as the inspected prefix, the answer of the search is whether the keyword occurs in the
  decoding of the first 64 KiB of the (decompressed) body, wherever the chunks were cut; at
  most 64 KiB are inspected.
\<close>

theorem keyword_search_in_text:
  assumes "decompressorFor (firstHeader headers (js ''content-encoding'')) = Inr coding"
    and "coding = None \<or> assertEncodedContentLength headers = None"
    and "stream = decoded_stream decompress coding body"
    and "\<And>a c. (a, c) \<in> set (bs_chunks stream) \<Longrightarrow> \<not> a"
    and "bs_end stream = Ended \<or> MAX_BODY_BYTES \<le> length (concat (map snd (bs_chunks stream)))"
  shows "\<exists>m \<le> MAX_BODY_BYTES. inspectKeyword decompress headers body keyword =
     Inr (sublist keyword (body_text (take MAX_BODY_BYTES (concat (map snd (bs_chunks stream))))), m)"
proof -
  have "\<exists>m \<le> MAX_BODY_BYTES. search_chunks keyword (bs_end stream) (bs_chunks stream) new_TextDecoder 0 [] =
     Result (sublist keyword ([] @ fst (text_decode new_TextDecoder
       (take (MAX_BODY_BYTES - 0) (concat (map snd (bs_chunks stream)))) False))) m"
    by (rule search_chunks_result) (use assms(4,5) in \<open>auto simp: MAX_BODY_BYTES_def\<close>)
  moreover have "coding = None \<Longrightarrow>
      coding_name (firstHeader headers (js ''content-encoding'')) \<notin>
        Some ` {js ''gzip'', js ''x-gzip'', js ''deflate'', js ''br''}"
    using assms(1) by (auto simp: decompressorFor_def Let_def js_inj split: if_splits)
  ultimately show ?thesis
    using assms(1,2) by (auto simp: inspectKeyword_def Let_def body_text_def assms(3))
qed

lemma keyword_search_in_text_witness:
  "\<exists>m \<le> MAX_BODY_BYTES. inspectKeyword (\<lambda>_ b. b) []
     \<lparr>bs_chunks = [(False, [0x6F]), (False, [0x6B])], bs_end = Ended\<rparr> (js ''ok'') = Inr (True, m)"
proof -
  have "body_text [0x6F, 0x6B] = js ''ok''"
    by (simp add: body_text_def text_decode_def new_TextDecoder_def drop_bom_def utf16_def lead_byte_def
        decode_end_def js_def)
  then show ?thesis
    using keyword_search_in_text[OF _ _ refl, of "[]" None "\<lambda>_ b. b"
        "\<lparr>bs_chunks = [(False, [0x6F]), (False, [0x6B])], bs_end = Ended\<rparr>" "js ''ok''"]
    by (auto simp add: decompressorFor_def coding_name_def firstHeader_def header_field_def decoded_stream_def
        MAX_BODY_BYTES_def del: One_nat_def)
qed

section \<open>The decoder reads what was encoded\<close>

definition byte_list :: "nat list \<Rightarrow> byte list" where
  "byte_list ns = map of_nat ns"

definition scalar_value :: "nat \<Rightarrow> bool" where
  "scalar_value cp \<longleftrightarrow> cp < 0x110000 \<and> \<not> (0xD800 \<le> cp \<and> cp \<le> 0xDFFF)"

lemma unat_byte: "n < 256 \<Longrightarrow> unat (of_nat n :: byte) = n"
  by (simp add: unsigned_of_nat take_bit_nat_eq_self)

lemma byte_le:
  "n < 256 \<Longrightarrow> m < 256 \<Longrightarrow> (of_nat n :: byte) \<le> of_nat m \<longleftrightarrow> n \<le> m"
  "n < 256 \<Longrightarrow> m < 256 \<Longrightarrow> (of_nat n :: byte) < of_nat m \<longleftrightarrow> n < m"
  by (simp_all add: word_le_nat_alt word_less_nat_alt unat_byte)

lemma byte_numeral_le:
  "n < 256 \<Longrightarrow> (numeral w :: nat) < 256 \<Longrightarrow> (of_nat n :: byte) \<le> numeral w \<longleftrightarrow> n \<le> numeral w"
  "n < 256 \<Longrightarrow> (numeral w :: nat) < 256 \<Longrightarrow> numeral w \<le> (of_nat n :: byte) \<longleftrightarrow> numeral w \<le> n"
  "n < 256 \<Longrightarrow> (numeral w :: nat) < 256 \<Longrightarrow> (of_nat n :: byte) < numeral w \<longleftrightarrow> n < numeral w"
  "n < 256 \<Longrightarrow> (numeral w :: nat) < 256 \<Longrightarrow> numeral w < (of_nat n :: byte) \<longleftrightarrow> numeral w < n"
  "n < 256 \<Longrightarrow> (numeral w :: nat) < 256 \<Longrightarrow> (of_nat n :: byte) = numeral w \<longleftrightarrow> n = numeral w"
  using byte_le[of n "numeral w"] byte_le[of "numeral w" n] by (auto intro: order_antisym)

lemma lead_byte_nat:
  assumes "n < 256"
  shows "lead_byte (of_nat n) =
     (if n < 0x80 then ([n], Ready)
      else if 0xC2 \<le> n \<and> n \<le> 0xDF then ([], Needs 1 (n mod 32) 0x80 0xBF)
      else if 0xE0 \<le> n \<and> n \<le> 0xEF
      then ([], Needs 2 (n mod 16) (if n = 0xE0 then 0xA0 else 0x80) (if n = 0xED then 0x9F else 0xBF))
      else if 0xF0 \<le> n \<and> n \<le> 0xF4
      then ([], Needs 3 (n mod 8) (if n = 0xF0 then 0x90 else 0x80) (if n = 0xF4 then 0x8F else 0xBF))
      else ([0xFFFD], Ready))"
proof -
  have small: "(numeral w :: nat) < 256 \<Longrightarrow> (of_nat n :: byte) \<le> numeral w \<longleftrightarrow> n \<le> numeral w"
    "(numeral w :: nat) < 256 \<Longrightarrow> numeral w \<le> (of_nat n :: byte) \<longleftrightarrow> numeral w \<le> n"
    "(numeral w :: nat) < 256 \<Longrightarrow> (of_nat n :: byte) < numeral w \<longleftrightarrow> n < numeral w"
    "(numeral w :: nat) < 256 \<Longrightarrow> (of_nat n :: byte) = numeral w \<longleftrightarrow> n = numeral w" for w
    using assms by (simp_all only: byte_numeral_le)
  have bounds: "(0x80 :: nat) < 256" "(0xC2 :: nat) < 256" "(0xDF :: nat) < 256" "(0xE0 :: nat) < 256"
    "(0xEF :: nat) < 256" "(0xF0 :: nat) < 256" "(0xF4 :: nat) < 256" "(0xED :: nat) < 256" by simp_all
  show ?thesis
    by (simp only: lead_byte_def small(1)[OF bounds(3)] small(2)[OF bounds(2)] small(2)[OF bounds(4)]
        small(1)[OF bounds(5)] small(2)[OF bounds(6)] small(1)[OF bounds(7)] small(3)[OF bounds(1)]
        small(4)[OF bounds(4)] small(4)[OF bounds(8)] small(4)[OF bounds(6)] small(4)[OF bounds(7)]
        unat_byte[OF assms])
qed

lemma next_byte:
  assumes "n < 256" "\<not> of_nat n < lower" "\<not> upper < of_nat n"
  shows "decode_byte (Needs k cp lower upper) (of_nat n) =
     (if k \<le> 1 then ([cp * 64 + n mod 64], Ready) else ([], Needs (k - 1) (cp * 64 + n mod 64) 0x80 0xBF))"
  using assms by (simp only: decode_byte.simps unat_byte if_False simp_thms)

lemma next_byte_any:
  assumes "0x80 \<le> n" "n < 0xC0"
  shows "decode_byte (Needs k cp 0x80 0xBF) (of_nat n) =
     (if k \<le> 1 then ([cp * 64 + n mod 64], Ready) else ([], Needs (k - 1) (cp * 64 + n mod 64) 0x80 0xBF))"
  by (rule next_byte) (use assms byte_numeral_le(3)[of n] byte_numeral_le(4)[of n] in simp_all)

lemma lead_one:
  assumes "n \<le> 0x7F"
  shows "lead_byte (of_nat n) = ([n], Ready)"
proof -
  have facts: "n < 256" "n < 0x80" using assms by linarith+
  show ?thesis using assms by (simp only: lead_byte_nat[OF facts(1)] facts if_True if_False simp_thms)
qed

lemma lead_two:
  assumes "0xC2 \<le> n" "n \<le> 0xDF"
  shows "lead_byte (of_nat n) = ([], Needs 1 (n mod 32) 0x80 0xBF)"
proof -
  have facts: "n < 256" "\<not> n < 0x80" using assms by linarith+
  show ?thesis using assms by (simp only: lead_byte_nat[OF facts(1)] facts if_True if_False simp_thms)
qed

lemma lead_three:
  assumes "0xE0 \<le> n" "n \<le> 0xEF"
  shows "lead_byte (of_nat n) = 
     ([], Needs 2 (n mod 16) (if n = 0xE0 then 0xA0 else 0x80) (if n = 0xED then 0x9F else 0xBF))"
proof -
  have facts: "n < 256" "\<not> n < 0x80" "\<not> n \<le> 0xDF" using assms by linarith+
  show ?thesis using assms by (simp only: lead_byte_nat[OF facts(1)] facts if_True if_False simp_thms)
qed

lemma lead_four:
  assumes "0xF0 \<le> n" "n \<le> 0xF4"
  shows "lead_byte (of_nat n) = 
     ([], Needs 3 (n mod 8) (if n = 0xF0 then 0x90 else 0x80) (if n = 0xF4 then 0x8F else 0xBF))"
proof -
  have facts: "n < 256" "\<not> n < 0x80" "\<not> n \<le> 0xDF" "\<not> n \<le> 0xEF" using assms by linarith+
  show ?thesis using assms by (simp only: lead_byte_nat[OF facts(1)] facts if_True if_False simp_thms)
qed

lemma low_bits:
  "c < 64 \<Longrightarrow> (0x80 + c) mod 64 = (c :: nat)"
  "q < 32 \<Longrightarrow> (0xC0 + q) mod 32 = (q :: nat)"
  "q < 16 \<Longrightarrow> (0xE0 + q) mod 16 = (q :: nat)"
  "q < 8 \<Longrightarrow> (0xF0 + q) mod 8 = (q :: nat)"
  using mod_mult_self1[of c 2 64] mod_mult_self1[of q 6 32] mod_mult_self1[of q 14 16]
    mod_mult_self1[of q 30 8] by (simp_all add: add.commute)

lemma next_byte_from:
  assumes "lo \<le> n" "n \<le> hi" "hi < 256" "lower = of_nat lo" "upper = of_nat hi" "\<not> k \<le> 1"
  shows "decode_byte (Needs k cp lower upper) (of_nat n) = ([], Needs (k - 1) (cp * 64 + n mod 64) 0x80 0xBF)"
proof -
  have "n < 256" "lo < 256" using assms by linarith+
  then show ?thesis
    using next_byte[of n lower upper k cp] assms by (simp add: byte_le del: decode_byte.simps)
qed

lemmas decode_steps = byte_list_def list.map decode_bytes.simps decode_byte.simps(1) case_prod_conv
  append.simps append_Nil2

lemma decode_utf8:
  assumes "scalar_value cp"
  shows "decode_bytes Ready (byte_list (utf8 cp)) = ([cp], Ready)"
proof -
  consider "cp < 0x80" | "0x80 \<le> cp" "cp < 0x800" | "0x800 \<le> cp" "cp < 0x10000" | "0x10000 \<le> cp"
    by linarith
  then show ?thesis
  proof cases
    case 1
    then show ?thesis by (simp add: byte_list_def utf8_def lead_one)
  next
    case 2
    define q where "q = cp div 64"
    define c where "c = cp mod 64"
    have cp: "q * 64 + c = cp" and q: "2 \<le> q" "q < 32" and c: "c < 64" using 2 by (auto simp: q_def c_def)
    have utf8: "utf8 cp = [0xC0 + q, 0x80 + c]" using 2 by (simp add: utf8_def q_def c_def)
    have lead: "lead_byte (of_nat (0xC0 + q)) = ([], Needs 1 q 0x80 0xBF)"
      using lead_two[of "0xC0 + q"] q low_bits(2)[OF q(2)] by simp
    have "decode_byte (Needs 1 q 0x80 0xBF) (of_nat (0x80 + c)) = ([cp], Ready)"
      using next_byte_any[of "0x80 + c" 1 q] c low_bits(1)[OF c] cp by simp
    then show ?thesis using lead by (simp only: byte_list_def utf8 list.map decode_bytes.simps
      decode_byte.simps(1) case_prod_conv append.simps append_Nil2)
  next
    case 3
    define q where "q = cp div 4096"
    define d where "d = cp div 64 mod 64"
    define c where "c = cp mod 64"
    have cp: "(q * 64 + d) * 64 + c = cp" and q: "q < 16" and d: "d < 64" and c: "c < 64"
      using 3 by (auto simp: q_def d_def c_def div_mult2_eq[of cp 64 64, simplified])
    have utf8: "utf8 cp = [0xE0 + q, 0x80 + d, 0x80 + c]" using 3 by (simp add: utf8_def q_def d_def c_def)
    have low: "q = 0 \<Longrightarrow> 32 \<le> d" using 3 cp c by auto
    have high: "q = 13 \<Longrightarrow> d \<le> 31" using assms cp c d by (auto simp: scalar_value_def)
    let ?lo = "if q = 0 then 0xA0 else 0x80" and ?hi = "if q = 13 then 0x9F else 0xBF"
    have lead: "lead_byte (of_nat (0xE0 + q)) =
        ([], Needs 2 q (if q = 0 then 0xA0 else 0x80) (if q = 13 then 0x9F else 0xBF))"
      using lead_three[of "0xE0 + q"] q low_bits(3)[OF q] by simp
    have second: "decode_byte (Needs 2 q (if q = 0 then 0xA0 else 0x80) (if q = 13 then 0x9F else 0xBF))
        (of_nat (0x80 + d)) = ([], Needs 1 (q * 64 + d) 0x80 0xBF)"
      by (subst next_byte_from[where lo = ?lo and hi = ?hi]) (use low high d low_bits(1)[OF d] in auto)
    have third: "decode_byte (Needs 1 (q * 64 + d) 0x80 0xBF) (of_nat (0x80 + c)) = ([cp], Ready)"
      using next_byte_any[of "0x80 + c" 1 "q * 64 + d"] c low_bits(1)[OF c] cp by simp
    show ?thesis using lead second third by (simp only: decode_steps utf8)
  next
    case 4
    define q where "q = cp div 262144"
    define e where "e = cp div 4096 mod 64"
    define d where "d = cp div 64 mod 64"
    define c where "c = cp mod 64"
    have small: "cp < 0x110000" using assms by (simp add: scalar_value_def)
    have cp: "((q * 64 + e) * 64 + d) * 64 + c = cp" and q: "q < 8" and e: "e < 64" and d: "d < 64" and c: "c < 64"
      using small by (auto simp: q_def e_def d_def c_def div_mult2_eq[of cp 64 64, simplified]
          div_mult2_eq[of cp 64 4096, simplified] div_mult2_eq[of "cp div 64" 64 64, simplified])
    have utf8: "utf8 cp = [0xF0 + q, 0x80 + e, 0x80 + d, 0x80 + c]"
      using 4 by (simp add: utf8_def q_def e_def d_def c_def)
    have low: "q = 0 \<Longrightarrow> 16 \<le> e" using 4 cp c d by auto
    have q4: "q \<le> 4" using small cp by auto
    have high: "q = 4 \<Longrightarrow> e \<le> 15" using small cp by auto
    let ?lo = "if q = 0 then 0x90 else 0x80" and ?hi = "if q = 4 then 0x8F else 0xBF"
    have lead: "lead_byte (of_nat (0xF0 + q)) =
        ([], Needs 3 q (if q = 0 then 0x90 else 0x80) (if q = 4 then 0x8F else 0xBF))"
      using lead_four[of "0xF0 + q"] q4 low_bits(4)[OF q] by simp
    have second: "decode_byte (Needs 3 q (if q = 0 then 0x90 else 0x80) (if q = 4 then 0x8F else 0xBF))
        (of_nat (0x80 + e)) = ([], Needs 2 (q * 64 + e) 0x80 0xBF)"
      by (subst next_byte_from[where lo = ?lo and hi = ?hi]) (use low high e low_bits(1)[OF e] in auto)
    have third: "decode_byte (Needs 2 (q * 64 + e) 0x80 0xBF) (of_nat (0x80 + d)) =
        ([], Needs 1 ((q * 64 + e) * 64 + d) 0x80 0xBF)"
      using next_byte_any[of "0x80 + d" 2 "q * 64 + e"] d low_bits(1)[OF d] by simp
    have fourth: "decode_byte (Needs 1 ((q * 64 + e) * 64 + d) 0x80 0xBF) (of_nat (0x80 + c)) = ([cp], Ready)"
      using next_byte_any[of "0x80 + c" 1 "(q * 64 + e) * 64 + d"] c low_bits(1)[OF c] cp by simp
    show ?thesis using lead second third fourth by (simp only: decode_steps utf8)
  qed
qed

lemma decode_all:
  "list_all scalar_value cps \<Longrightarrow> decode_bytes Ready (byte_list (concat (map utf8 cps))) = (cps, Ready)"
proof (induction cps)
  case Nil
  then show ?case by (simp add: byte_list_def)
next
  case (Cons cp cps)
  then have "decode_bytes Ready (byte_list (utf8 cp)) = ([cp], Ready)" by (simp add: decode_utf8)
  with Cons show ?case by (simp add: byte_list_def decode_bytes_append)
qed

lemma code_points_scalar:
  "code_points s = Some cps \<Longrightarrow> list_all scalar_value cps \<and> concat (map utf16 cps) = s"
proof (induction s arbitrary: cps rule: code_points.induct)
  case 1
  then show ?case by simp
next
  case (2 c cs)
  show ?case
  proof (cases "0xD800 \<le> c \<and> c \<le> 0xDBFF")
    case True
    with "2.prems" obtain d ds where cs: "cs = d # ds" and d: "0xDC00 \<le> d" "d \<le> 0xDFFF"
      by (auto split: list.splits if_splits)
    from "2.prems" True cs d obtain ps where ps: "code_points ds = Some ps" "cps = supplementary c d # ps"
      by auto
    have u: "0xD800 \<le> unat c" "unat c \<le> 0xDBFF" "0xDC00 \<le> unat d" "unat d \<le> 0xDFFF"
      using True d by (simp_all add: word_le_nat_alt)
    define hi where "hi = unat c - 0xD800"
    define lo where "lo = unat d - 0xDC00"
    have hilo: "hi < 0x400" "lo < 0x400" "unat c = 0xD800 + hi" "unat d = 0xDC00 + lo"
      using u by (auto simp: hi_def lo_def)
    have sup: "supplementary c d = 0x10000 + hi * 0x400 + lo" by (simp add: supplementary_def hi_def lo_def)
    have "(hi * 0x400 + lo) div 0x400 = hi" "(hi * 0x400 + lo) mod 0x400 = lo" using hilo by simp_all
    then have "utf16 (supplementary c d) = [c, d]"
      by (simp add: utf16_def sup flip: hilo(3,4) of_nat_add)
    moreover have "scalar_value (supplementary c d)" using hilo by (simp add: scalar_value_def sup)
    ultimately show ?thesis using "2.IH" True cs d ps by auto
  next
    case False
    with "2.prems" obtain ps where ps: "code_points cs = Some ps" "cps = unat c # ps"
      and nc: "\<not> (0xDC00 \<le> c \<and> c \<le> 0xDFFF)"
      by (auto split: if_splits)
    have "unat c < 0x10000" using unsigned_less[of c] by simp
    moreover have "\<not> (0xD800 \<le> unat c \<and> unat c \<le> 0xDFFF)"
      using False nc by (auto simp: word_le_nat_alt)
    ultimately have "scalar_value (unat c)" "utf16 (unat c) = [c]"
      by (simp_all add: scalar_value_def utf16_def)
    with "2.IH" False nc ps show ?thesis by auto
  qed
qed

text \<open>Encoding and decoding: the text read from a body is the string whose UTF-8 form the body is, code unit by code
  unit, when the string is well formed and does not start with a byte order mark.
\<close>

theorem body_text_roundtrip:
  assumes "code_points s = Some cps" "cps = [] \<or> hd cps \<noteq> 0xFEFF"
  shows "body_text (byte_list (concat (map utf8 cps))) = s"
proof -
  have "decode_bytes Ready (byte_list (concat (map utf8 cps))) = (cps, Ready)" "concat (map utf16 cps) = s"
    using code_points_scalar[OF assms(1)] decode_all by auto
  then show ?thesis
    using assms(2) by (cases cps) (auto simp: body_text_def text_decode_def new_TextDecoder_def
        decode_end_def drop_bom_def)
qed

lemma body_text_roundtrip_witness:
  "body_text (byte_list (concat (map utf8 [0xC11C, 0x1F600]))) = [0xC11C, 0xD83D, 0xDE00]"
  by (rule body_text_roundtrip) (simp_all add: supplementary_def)

end
