(* ===== verification/Destination_Limiter.thy ===== *)
theory Destination_Limiter
  imports Url_Policy
begin

text \<open>
  The cross-process guard of outbound requests,
  \<open>packages/monitoring/src/destination-limiter.ts\<close>: the subjects of a destination, the two
  scripts that run atomically inside Redis, and the client that sends them. Redis is modelled
  by the commands the scripts use on sorted sets and counters with expiry; SHA-256, \<open>isIP\<close>, the
  URL parser and what becomes of a command on its way are parameters.
\<close>

section \<open>The store\<close>

type_synonym zset = "(jstring \<times> int) list"

record redis =
  rd_zsets :: "jstring \<Rightarrow> (zset \<times> time option) option"
  rd_counters :: "jstring \<Rightarrow> (int \<times> time option) option"

definition empty_redis :: redis where
  "empty_redis = \<lparr>rd_zsets = (\<lambda>_. None), rd_counters = (\<lambda>_. None)\<rparr>"

text \<open>A key is gone once its expiry lies in the past.\<close>

definition live :: "time \<Rightarrow> ('v \<times> time option) option \<Rightarrow> ('v \<times> time option) option" where
  "live t v = (case v of None \<Rightarrow> None
     | Some (x, e) \<Rightarrow> (case e of None \<Rightarrow> v | Some y \<Rightarrow> if t \<le> y then v else None))"

definition zset_at :: "time \<Rightarrow> redis \<Rightarrow> jstring \<Rightarrow> zset" where
  "zset_at t r k = (case live t (rd_zsets r k) of None \<Rightarrow> [] | Some (xs, e) \<Rightarrow> xs)"

definition zset_put :: "jstring \<Rightarrow> zset \<Rightarrow> time option \<Rightarrow> redis \<Rightarrow> redis" where
  "zset_put k xs e r = r\<lparr>rd_zsets := (rd_zsets r)(k := if xs = [] then None else Some (xs, e))\<rparr>"

definition zset_expiry :: "time \<Rightarrow> redis \<Rightarrow> jstring \<Rightarrow> time option" where
  "zset_expiry t r k = Option.bind (live t (rd_zsets r k)) snd"

definition zremrangebyscore :: "time \<Rightarrow> jstring \<Rightarrow> redis \<Rightarrow> redis" where
  "zremrangebyscore t k r =
     zset_put k (filter (\<lambda>x. t < snd x) (zset_at t r k)) (zset_expiry t r k) r"

definition zadd :: "time \<Rightarrow> jstring \<Rightarrow> int \<Rightarrow> jstring \<Rightarrow> redis \<Rightarrow> redis" where
  "zadd t k score token r =
     zset_put k ((token, score) # filter (\<lambda>x. fst x \<noteq> token) (zset_at t r k)) (zset_expiry t r k) r"

definition zrem :: "time \<Rightarrow> jstring \<Rightarrow> jstring \<Rightarrow> redis \<Rightarrow> redis" where
  "zrem t k token r = zset_put k (filter (\<lambda>x. fst x \<noteq> token) (zset_at t r k)) (zset_expiry t r k) r"

definition zset_pexpire :: "time \<Rightarrow> jstring \<Rightarrow> int \<Rightarrow> redis \<Rightarrow> redis" where
  "zset_pexpire t k ms r = zset_put k (zset_at t r k) (Some (t + ms)) r"

definition counter_at :: "time \<Rightarrow> redis \<Rightarrow> jstring \<Rightarrow> int" where
  "counter_at t r k = (case live t (rd_counters r k) of None \<Rightarrow> 0 | Some (n, e) \<Rightarrow> n)"

text \<open>\<open>PTTL\<close>: \<open>-2\<close> without the key, \<open>-1\<close> without an expiry.\<close>

definition counter_pttl :: "time \<Rightarrow> redis \<Rightarrow> jstring \<Rightarrow> int" where
  "counter_pttl t r k =
     (case live t (rd_counters r k) of None \<Rightarrow> - 2 | Some (n, None) \<Rightarrow> - 1 | Some (n, Some e) \<Rightarrow> e - t)"

definition counter_pexpire :: "time \<Rightarrow> jstring \<Rightarrow> int \<Rightarrow> redis \<Rightarrow> redis" where
  "counter_pexpire t k ms r =
     r\<lparr>rd_counters := (rd_counters r)(k :=
         map_option (\<lambda>(n, e). (n, Some (t + ms))) (live t (rd_counters r k)))\<rparr>"

definition incr :: "time \<Rightarrow> jstring \<Rightarrow> redis \<Rightarrow> redis" where
  "incr t k r =
     r\<lparr>rd_counters := (rd_counters r)(k :=
         Some (counter_at t r k + 1, Option.bind (live t (rd_counters r k)) snd))\<rparr>"

section \<open>The scripts\<close>

definition WINDOW_MS :: int where "WINDOW_MS = 60000"
definition MAX_DESTINATION_ADDRESSES :: nat where "MAX_DESTINATION_ADDRESSES = 64"

record limits =
  li_leaseMs :: int
  li_maxConcurrent :: int
  li_maxPerWindow :: int

text \<open>The first loop: it stops with an answer at the first subject that is at a limit.\<close>

definition oldest_wait :: "time \<Rightarrow> zset \<Rightarrow> int" where
  "oldest_wait t xs = (case xs of [] \<Rightarrow> 1 | x # ys \<Rightarrow> max 1 (fold min (map snd ys) (snd x) - t))"

definition ensure_window :: "time \<Rightarrow> jstring \<Rightarrow> redis \<Rightarrow> redis" where
  "ensure_window t k r =
     (if 0 < counter_at t r k \<and> counter_pttl t r k < 0 then counter_pexpire t k WINDOW_MS r else r)"

fun check_limits ::
  "limits \<Rightarrow> time \<Rightarrow> (jstring \<times> jstring) list \<Rightarrow> redis \<Rightarrow> (int \<times> int \<times> int) option \<times> redis" where
  "check_limits l t [] r = (None, r)"
| "check_limits l t ((activeKey, rateKey) # keys) r =
     (let r1 = zremrangebyscore t activeKey r; active = zset_at t r1 activeKey in
      if li_maxConcurrent l \<le> int (length active) then (Some (0, 1, oldest_wait t active), r1)
      else
       (let rateCount = counter_at t r1 rateKey; r2 = ensure_window t rateKey r1 in
        if li_maxPerWindow l \<le> rateCount then (Some (0, 2, max 1 (counter_pttl t r2 rateKey)), r2)
        else check_limits l t keys r2))"

definition grant_slot :: "limits \<Rightarrow> time \<Rightarrow> jstring \<Rightarrow> jstring \<times> jstring \<Rightarrow> redis \<Rightarrow> redis" where
  "grant_slot l t token keys r =
     (case keys of (activeKey, rateKey) \<Rightarrow>
       (let r1 = zadd t activeKey (t + li_leaseMs l) token r;
            r2 = zset_pexpire t activeKey (li_leaseMs l + 1000) r1;
            r3 = incr t rateKey r2
        in if counter_at t r3 rateKey = 1 \<or> counter_pttl t r3 rateKey < 0
           then counter_pexpire t rateKey WINDOW_MS r3 else r3))"

definition acquire_script ::
  "limits \<Rightarrow> time \<Rightarrow> (jstring \<times> jstring) list \<Rightarrow> jstring \<Rightarrow> redis \<Rightarrow> (int \<times> int \<times> int) \<times> redis" where
  "acquire_script l t keys token r =
     (case check_limits l t keys r of
        (Some answer, r1) \<Rightarrow> (answer, r1)
      | (None, r1) \<Rightarrow> ((1, 0, 0), fold (grant_slot l t token) keys r1))"

text \<open>An emptied sorted set is no key any more, so the \<open>DEL\<close> of the script changes nothing.\<close>

definition release_script :: "time \<Rightarrow> jstring list \<Rightarrow> jstring \<Rightarrow> redis \<Rightarrow> redis" where
  "release_script t keys token r = fold (\<lambda>k. zrem t k token) keys r"

section \<open>Subjects and keys\<close>

definition canonicalAddress ::
  "(jstring \<Rightarrow> Url option) \<Rightarrow> (jstring \<Rightarrow> nat) \<Rightarrow> ResolvedAddress \<Rightarrow> jstring option" where
  "canonicalAddress new_URL isIP a =
     (if isIP (ra_address a) \<noteq> ra_family a then None
      else if ra_family a = 4
      then (case map (\<lambda>p. js_number (int (decimal_value p))) (split_units 46 (ra_address a)) of
              [] \<Rightarrow> Some []
            | x # xs \<Rightarrow> Some (x @ concat (map (\<lambda>y. js ''.'' @ y) xs)))
      else map_option (\<lambda>u. ascii_lower (strip_brackets (u_hostname u)))
             (new_URL (js ''http://['' @ ra_address a @ js '']/'')))"

fun address_subjects ::
  "(jstring \<Rightarrow> Url option) \<Rightarrow> (jstring \<Rightarrow> nat) \<Rightarrow> ResolvedAddress list \<Rightarrow> jstring list option" where
  "address_subjects new_URL isIP [] = Some []"
| "address_subjects new_URL isIP (a # as) =
     (case canonicalAddress new_URL isIP a of None \<Rightarrow> None
      | Some c \<Rightarrow> map_option ((#) (js ''ip'' @ js_number (int (ra_family a)) @ js '':'' @ c))
                   (address_subjects new_URL isIP as))"

definition destinationSubjects ::
  "(jstring \<Rightarrow> Url option) \<Rightarrow> (jstring \<Rightarrow> nat) \<Rightarrow> SafeDestination \<Rightarrow> CheckFailure + jstring list" where
  "destinationSubjects new_URL isIP d =
     (if MAX_DESTINATION_ADDRESSES < length (sd_addresses d)
      then Inl (destination_limiter_error
                  [0xB300, 0xC0C1, 0xC758, 0x20, 0xC8FC, 0xC18C, 0xAC00, 0x20, 0xB108, 0xBB34, 0x20,
      0xB9CE, 0xC544, 0x20, 0xBCF4, 0xD638, 0x20, 0xC81C, 0xD55C, 0xC744, 0x20, 0xC548,
      0xC804, 0xD558, 0xAC8C, 0x20, 0xC801, 0xC6A9, 0xD560, 0x20, 0xC218, 0x20, 0xC5C6,
      0xC2B5, 0xB2C8, 0xB2E4, 0x2E])
      else case address_subjects new_URL isIP (sd_addresses d) of
        None \<Rightarrow> Inl (destination_limiter_error
                  [0xAC80, 0xC99D, 0xB41C, 0x20, 0xBAA9, 0xC801, 0xC9C0, 0x20, 0xC8FC, 0xC18C, 0xC5D0,
      0x20, 0xBCF4, 0xD638, 0x20, 0xC81C, 0xD55C, 0xC744, 0x20, 0xC548, 0xC804, 0xD558,
      0xAC8C, 0x20, 0xC801, 0xC6A9, 0xD560, 0x20, 0xC218, 0x20, 0xC5C6, 0xC2B5, 0xB2C8,
      0xB2E4, 0x2E])
      | Some ss \<Rightarrow> Inr (first_occurrences ((js ''host:'' @ policy_hostname (sd_url d)) # ss)))"

definition subject_keys :: "(jstring \<Rightarrow> jstring) \<Rightarrow> jstring list \<Rightarrow> (jstring \<times> jstring) list" where
  "subject_keys digest subjects =
     map (\<lambda>s. let base = js ''linkalive:destination-limit:{global}:'' @ digest s
              in (base @ js '':active'', base @ js '':rate'')) subjects"

definition destinationKeys ::
  "(jstring \<Rightarrow> jstring) \<Rightarrow> (jstring \<Rightarrow> Url option) \<Rightarrow> (jstring \<Rightarrow> nat) \<Rightarrow> SafeDestination \<Rightarrow>
   CheckFailure + (jstring \<times> jstring) list" where
  "destinationKeys digest new_URL isIP d =
     (case destinationSubjects new_URL isIP d of Inl e \<Rightarrow> Inl e
      | Inr subjects \<Rightarrow> Inr (subject_keys digest subjects))"

section \<open>The client\<close>

record RedisDestinationLimiterOptions =
  lo_maxConcurrent :: int
  lo_maxPerMinute :: int
  lo_leaseMs :: int
  lo_commandTimeoutMs :: int

definition in_range :: "int \<Rightarrow> int \<Rightarrow> int \<Rightarrow> bool" where
  "in_range value minimum maximum \<longleftrightarrow> safe_integer value \<and> minimum \<le> value \<and> value \<le> maximum"

definition valid_limiter_options :: "RedisDestinationLimiterOptions \<Rightarrow> bool" where
  "valid_limiter_options o' \<longleftrightarrow>
     in_range (lo_maxConcurrent o') 1 1000 \<and> in_range (lo_maxPerMinute o') 1 100000 \<and>
     in_range (lo_leaseMs o') 31000 (10 * 60000) \<and> in_range (lo_commandTimeoutMs o') 100 10000"

definition limits_of :: "RedisDestinationLimiterOptions \<Rightarrow> limits" where
  "limits_of o' = \<lparr>li_leaseMs = lo_leaseMs o', li_maxConcurrent = lo_maxConcurrent o',
     li_maxPerWindow = lo_maxPerMinute o'\<rparr>"

text \<open>
  What becomes of a command: it is answered, or the client gives up on it (timeout, abort,
  connection) after Redis ran it or without Redis having run it.
\<close>

datatype command_fate = Answered | Executed_unanswered | Not_executed

definition runCommand ::
  "bool \<Rightarrow> command_fate \<Rightarrow> (redis \<Rightarrow> 'a \<times> redis) \<Rightarrow> redis \<Rightarrow> 'a option \<times> redis" where
  "runCommand aborted fate command r =
     (if aborted then (None, r)
      else case fate of
        Answered \<Rightarrow> (case command r of (x, r') \<Rightarrow> (Some x, r'))
      | Executed_unanswered \<Rightarrow> (None, snd (command r))
      | Not_executed \<Rightarrow> (None, r))"

record DestinationLease =
  dl_activeKeys :: "jstring list"
  dl_token :: jstring

definition refused_message :: jstring where
  "refused_message = [0xAC19, 0xC740, 0x20, 0xB300, 0xC0C1, 0xC5D0, 0x20, 0xB300, 0xD55C, 0x20, 0xAC80,
      0xC0AC, 0x20, 0xBCF4, 0xD638, 0x20, 0xC81C, 0xD55C, 0xC73C, 0xB85C, 0x20, 0xC774,
      0xBC88, 0x20, 0xAC80, 0xC0AC, 0xB97C, 0x20, 0xC2E4, 0xD589, 0xD558, 0xC9C0, 0x20,
      0xC54A, 0xC558, 0xC2B5, 0xB2C8, 0xB2E4, 0x2E]"

definition unavailable_message :: jstring where
  "unavailable_message = [0xAC80, 0xC0AC, 0x20, 0xBCF4, 0xD638, 0x20, 0xC81C, 0xD55C, 0xC744, 0x20, 0xD655,
      0xC778, 0xD560, 0x20, 0xC218, 0x20, 0xC5C6, 0xC5B4, 0x20, 0xC774, 0xBC88, 0x20, 0xAC80,
      0xC0AC, 0xB97C, 0x20, 0xC2DC, 0xC791, 0xD558, 0xC9C0, 0x20, 0xC54A, 0xC558, 0xC2B5,
      0xB2C8, 0xB2E4, 0x2E]"

definition acquire_lease ::
  "limits \<Rightarrow> (SafeDestination \<Rightarrow> CheckFailure + (jstring \<times> jstring) list) \<Rightarrow> jstring \<Rightarrow> bool \<Rightarrow> command_fate \<Rightarrow>
   time \<Rightarrow> SafeDestination \<Rightarrow> redis \<Rightarrow> (CheckFailure + DestinationLease) \<times> redis" where
  "acquire_lease l keys_of token aborted fate t d r =
     (case keys_of d of Inl e \<Rightarrow> (Inl e, r)
      | Inr keys \<Rightarrow>
        (case runCommand aborted fate (acquire_script l t keys token) r of
           (None, r') \<Rightarrow> (Inl (destination_limiter_error unavailable_message), r')
         | (Some (status, _), r') \<Rightarrow>
           if status = 0 then (Inl (destination_limiter_error refused_message), r')
           else if status \<noteq> 1
           then (Inl (destination_limiter_error
                   [0xAC80, 0xC0AC, 0x20, 0xBCF4, 0xD638, 0x20, 0xC81C, 0xD55C, 0xC758, 0x20, 0xC751,
      0xB2F5, 0xC744, 0x20, 0xD655, 0xC778, 0xD560, 0x20, 0xC218, 0x20, 0xC5C6, 0xC5B4, 0x20,
      0xC774, 0xBC88, 0x20, 0xAC80, 0xC0AC, 0xB97C, 0x20, 0xC2DC, 0xC791, 0xD558, 0xC9C0,
      0x20, 0xC54A, 0xC558, 0xC2B5, 0xB2C8, 0xB2E4, 0x2E]), r')
           else (Inr \<lparr>dl_activeKeys = map fst keys, dl_token = token\<rparr>, r')))"

definition release_failed_message :: jstring where
  "release_failed_message = [0xAC80, 0xC0AC, 0x20, 0xBCF4, 0xD638, 0x20, 0xC81C, 0xD55C, 0xC744, 0x20, 0xC548,
      0xC804, 0xD558, 0xAC8C, 0x20, 0xD574, 0xC81C, 0xD558, 0xC9C0, 0x20, 0xBABB, 0xD574,
      0x20, 0xACB0, 0xACFC, 0xB97C, 0x20, 0xD655, 0xC815, 0xD558, 0xC9C0, 0x20, 0xC54A,
      0xC558, 0xC2B5, 0xB2C8, 0xB2E4, 0x2E]"

text \<open>\<open>released\<close> is the flag of the lease object.\<close>

definition release_lease ::
  "bool \<Rightarrow> command_fate \<Rightarrow> time \<Rightarrow> DestinationLease \<Rightarrow> redis \<Rightarrow> (CheckFailure + bool) \<times> redis" where
  "release_lease released fate t lease r =
     (if released then (Inr True, r)
      else case runCommand False fate
                  (\<lambda>r. ((), release_script t (dl_activeKeys lease) (dl_token lease) r)) r of
        (None, r') \<Rightarrow> (Inl (destination_limiter_error release_failed_message), r')
      | (Some _, r') \<Rightarrow> (Inr True, r'))"

section \<open>What the scripts do to one sorted set\<close>

definition live_entries :: "time \<Rightarrow> redis \<Rightarrow> jstring \<Rightarrow> zset" where
  "live_entries t r k = filter (\<lambda>x. t < snd x) (zset_at t r k)"

text \<open>The entry of a token is in a sorted set that outlives the entry's own time.\<close>

definition has_slot :: "redis \<Rightarrow> jstring \<Rightarrow> jstring \<Rightarrow> time \<Rightarrow> bool" where
  "has_slot r k token e \<longleftrightarrow>
     (\<exists>xs y. rd_zsets r k = Some (xs, Some y) \<and> (token, e) \<in> set xs \<and> e + 1000 \<le> y)"

lemma counter_ops_zsets [simp]:
  "rd_zsets (counter_pexpire t k ms r) = rd_zsets r"
  "rd_zsets (incr t k r) = rd_zsets r"
  "rd_zsets (ensure_window t k r) = rd_zsets r"
  by (simp_all add: counter_pexpire_def incr_def ensure_window_def)

lemma zset_ops_counters [simp]:
  "rd_counters (zremrangebyscore t k r) = rd_counters r"
  "rd_counters (zadd t k score token r) = rd_counters r"
  "rd_counters (zset_pexpire t k ms r) = rd_counters r"
  "rd_counters (zrem t k token r) = rd_counters r"
  by (simp_all add: zremrangebyscore_def zadd_def zset_pexpire_def zrem_def zset_put_def)

lemma zset_at_cong: "rd_zsets r = rd_zsets r' \<Longrightarrow> zset_at t r k = zset_at t r' k"
  by (simp add: zset_at_def)

lemma live_entries_cong: "rd_zsets r = rd_zsets r' \<Longrightarrow> live_entries t r k = live_entries t r' k"
  by (simp add: live_entries_def zset_at_def)

lemma has_slot_cong: "rd_zsets r = rd_zsets r' \<Longrightarrow> has_slot r k token e = has_slot r' k token e"
  by (simp add: has_slot_def)

lemma zset_at_put:
  "zset_at t (zset_put k xs e r) k' =
     (if k' = k then if \<exists>y. e = Some y \<and> y < t then [] else xs else zset_at t r k')"
  by (auto simp: zset_at_def zset_put_def live_def split: option.splits)

lemma zset_expiry_live: "zset_expiry t r k = Some y \<Longrightarrow> t \<le> y"
  by (auto simp: zset_expiry_def live_def bind_eq_Some_conv split: option.splits if_splits)

lemma zset_at_rem:
  "zset_at t (zremrangebyscore t k r) k' = (if k' = k then live_entries t r k else zset_at t r k')"
  by (auto simp: zremrangebyscore_def zset_at_put live_entries_def
      dest: zset_expiry_live)

lemma live_entries_rem: "live_entries t (zremrangebyscore t k r) k' = live_entries t r k'"
  by (simp add: live_entries_def zset_at_rem)

lemma has_slot_rem: "has_slot r k token e \<Longrightarrow> t < e \<Longrightarrow> has_slot (zremrangebyscore t a r) k token e"
  by (force simp: has_slot_def zremrangebyscore_def zset_put_def zset_at_def zset_expiry_def live_def
      filter_empty_conv)

lemma has_slot_live: "has_slot r k token e \<Longrightarrow> t < e \<Longrightarrow> (token, e) \<in> set (live_entries t r k)"
  by (auto simp: has_slot_def live_entries_def zset_at_def live_def)

lemma grant_slot_zsets:
  "rd_zsets (grant_slot l t token (a, b) r) =
     (rd_zsets r)(a := Some ((token, t + li_leaseMs l) # filter (\<lambda>x. fst x \<noteq> token) (zset_at t r a),
                             Some (t + li_leaseMs l + 1000)))"
  by (auto simp: grant_slot_def Let_def zset_pexpire_def zadd_def zset_put_def zset_at_def
      zset_expiry_def live_def add.assoc split: option.splits if_splits)

lemma has_slot_grant_own:
  "has_slot (grant_slot l t token (a, b) r) a token (t + li_leaseMs l)"
  by (simp add: has_slot_def grant_slot_zsets)

lemma has_slot_grant:
  "has_slot r k other e \<Longrightarrow> other \<noteq> token \<Longrightarrow> t < e \<Longrightarrow> e \<le> t + li_leaseMs l \<Longrightarrow>
   has_slot (grant_slot l t token ab r) k other e"
  by (cases ab) (auto simp: has_slot_def grant_slot_zsets zset_at_def live_def)

lemma has_slot_grant_same:
  "has_slot r k token (t + li_leaseMs l) \<Longrightarrow> has_slot (grant_slot l t token ab r) k token (t + li_leaseMs l)"
  by (cases ab) (auto simp: has_slot_def grant_slot_zsets)

lemma has_slot_grants:
  "has_slot r k other e \<Longrightarrow> other \<noteq> token \<Longrightarrow> t < e \<Longrightarrow> e \<le> t + li_leaseMs l \<Longrightarrow>
   has_slot (fold (grant_slot l t token) keys r) k other e"
  by (induction keys arbitrary: r) (auto intro: has_slot_grant)

lemma has_slot_grants_own:
  "has_slot r k token (t + li_leaseMs l) \<or> k \<in> fst ` set keys \<Longrightarrow>
   has_slot (fold (grant_slot l t token) keys r) k token (t + li_leaseMs l)"
proof (induction keys arbitrary: r)
  case Nil
  then show ?case by simp
next
  case (Cons ab keys)
  have "has_slot (grant_slot l t token ab r) k token (t + li_leaseMs l) \<or> k \<in> fst ` set keys"
    using Cons.prems has_slot_grant_same[of r k token t l ab]
      has_slot_grant_own[of l t token "fst ab" "snd ab" r] by auto
  then show ?case using Cons.IH by simp
qed

lemma zset_at_zrem:
  "zset_at t (zrem t a token r) k =
     (if k = a then filter (\<lambda>x. fst x \<noteq> token) (zset_at t r a) else zset_at t r k)"
  by (auto simp: zrem_def zset_at_put dest: zset_expiry_live)

lemma has_slot_zrem:
  "has_slot r k other e \<Longrightarrow> other \<noteq> token \<Longrightarrow> t < e \<Longrightarrow> has_slot (zrem t a token r) k other e"
  by (force simp: has_slot_def zrem_def zset_put_def zset_at_def zset_expiry_def live_def
      filter_empty_conv)

lemma has_slot_release:
  "has_slot r k other e \<Longrightarrow> other \<noteq> token \<Longrightarrow> t < e \<Longrightarrow> has_slot (release_script t keys token r) k other e"
  unfolding release_script_def by (induction keys arbitrary: r) (auto intro: has_slot_zrem)

section \<open>The first loop\<close>

lemma check_limits_kept:
  "check_limits l t keys r = (answer, r') \<Longrightarrow>
   (\<forall>k. live_entries t r' k = live_entries t r k) \<and>
   (\<forall>k token e. has_slot r k token e \<longrightarrow> t < e \<longrightarrow> has_slot r' k token e)"
proof (induction l t keys r arbitrary: r' rule: check_limits.induct)
  case (1 l t r)
  then show ?case by simp
next
  case (2 l t a b keys r)
  define r1 where "r1 = zremrangebyscore t a r"
  have live1: "live_entries t r1 k = live_entries t r k" for k by (simp add: r1_def live_entries_rem)
  have live2: "live_entries t (ensure_window t b r1) k = live_entries t r k" for k
    using live1 live_entries_cong[of "ensure_window t b r1" r1] by simp
  have slot1: "has_slot r k token e \<Longrightarrow> t < e \<Longrightarrow> has_slot r1 k token e" for k token e
    by (simp add: r1_def has_slot_rem)
  have slot2: "has_slot r k token e \<Longrightarrow> t < e \<Longrightarrow> has_slot (ensure_window t b r1) k token e" for k token e
    using slot1 has_slot_cong[of "ensure_window t b r1" r1] by simp
  show ?case
    using "2.prems" "2.IH"[OF refl refl _ refl refl] live1 live2 slot1 slot2
    by (auto simp: Let_def r1_def[symmetric] split: if_splits)
qed

lemma check_limits_pass:
  "check_limits l t keys r = (None, r') \<Longrightarrow> (a, b) \<in> set keys \<Longrightarrow>
   int (length (live_entries t r a)) < li_maxConcurrent l"
proof (induction l t keys r arbitrary: r' rule: check_limits.induct)
  case (1 l t r)
  then show ?case by simp
next
  case (2 l t a' b' keys r)
  have live: "live_entries t (ensure_window t b' (zremrangebyscore t a' r)) a = live_entries t r a"
    using live_entries_cong[of "ensure_window t b' (zremrangebyscore t a' r)" "zremrangebyscore t a' r"]
    by (simp add: live_entries_rem)
  from "2.prems" "2.IH"[OF refl refl _ refl refl, of r'] live show ?case
    by (auto simp: Let_def zset_at_rem split: if_splits)
qed

section \<open>Leases in use\<close>

text \<open>
  The history of one limiter shared by any number of worker processes: time passes, a process
  acquires a lease or is refused, a process gives its lease back. The third part of the state
  is no part of the program: the leases the processes hold, each with the end of its time. A
  token is fresh (\<open>randomUUID\<close>), and a process stops using a destination when it calls release,
  whether or not the command comes through.
\<close>

type_synonym lease_history = "time \<times> redis \<times> (DestinationLease \<times> time) list"

definition tokens_in_use :: "(DestinationLease \<times> time) list \<Rightarrow> jstring set" where
  "tokens_in_use held = (\<lambda>h. dl_token (fst h)) ` set held"

inductive limiter_step ::
  "limits \<Rightarrow> (SafeDestination \<Rightarrow> CheckFailure + (jstring \<times> jstring) list) \<Rightarrow>
   lease_history \<Rightarrow> lease_history \<Rightarrow> bool" for l keys_of where
  passes: "t \<le> t' \<Longrightarrow> limiter_step l keys_of (t, r, held) (t', r, held)"
| acquires: "acquire_lease l keys_of token aborted fate t d r = (Inr lease, r') \<Longrightarrow>
    token \<notin> tokens_in_use held \<Longrightarrow>
    limiter_step l keys_of (t, r, held) (t, r', (lease, t + li_leaseMs l) # held)"
| refuses: "acquire_lease l keys_of token aborted fate t d r = (Inl e, r') \<Longrightarrow>
    token \<notin> tokens_in_use held \<Longrightarrow>
    limiter_step l keys_of (t, r, held) (t, r', held)"
| releases: "release_lease released fate t lease r = (answer, r') \<Longrightarrow>
    limiter_step l keys_of (t, r, held)
      (t, r', filter (\<lambda>h. dl_token (fst h) \<noteq> dl_token lease) held)"

abbreviation limiter_reaches ::
  "limits \<Rightarrow> (SafeDestination \<Rightarrow> CheckFailure + (jstring \<times> jstring) list) \<Rightarrow>
   lease_history \<Rightarrow> bool" where
  "limiter_reaches l keys_of \<equiv> (limiter_step l keys_of)\<^sup>*\<^sup>* (0, empty_redis, [])"

definition in_use :: "time \<Rightarrow> jstring \<Rightarrow> (DestinationLease \<times> time) list \<Rightarrow> (DestinationLease \<times> time) list" where
  "in_use t k held = filter (\<lambda>h. k \<in> set (dl_activeKeys (fst h)) \<and> t < snd h) held"

definition limiter_inv :: "limits \<Rightarrow> lease_history \<Rightarrow> bool" where
  "limiter_inv l h \<longleftrightarrow>
     (case h of (t, r, held) \<Rightarrow>
       distinct (map (\<lambda>h. dl_token (fst h)) held) \<and>
       (\<forall>h \<in> set held. snd h \<le> t + li_leaseMs l \<and>
          (t < snd h \<longrightarrow> (\<forall>k \<in> set (dl_activeKeys (fst h)). has_slot r k (dl_token (fst h)) (snd h)))) \<and>
       (\<forall>k. int (length (in_use t k held)) \<le> li_maxConcurrent l))"

text \<open>What the two script calls look like to the client.\<close>

lemma runCommand_cases:
  assumes "runCommand aborted fate command r = (answer, r')"
  obtains "r' = r" "answer = None" | x where "command r = (x, r')" "answer = None \<or> answer = Some x"
  using assms by (cases "command r") (auto simp: runCommand_def split: if_splits command_fate.splits)

lemma acquire_lease_script:
  assumes "acquire_lease l keys_of token aborted fate t d r = (answer, r')"
  obtains "r' = r" "\<exists>e. answer = Inl e"
    | keys x where "keys_of d = Inr keys" "acquire_script l t keys token r = (x, r')"
        "\<And>lease. answer = Inr lease \<Longrightarrow>
           fst x = 1 \<and> lease = \<lparr>dl_activeKeys = map fst keys, dl_token = token\<rparr>"
proof (cases "keys_of d")
  case (Inl e)
  with assms that(1) show ?thesis by (auto simp: acquire_lease_def)
next
  case (Inr keys)
  obtain y r2 where y: "runCommand aborted fate (acquire_script l t keys token) r = (y, r2)"
    by (cases "runCommand aborted fate (acquire_script l t keys token) r")
  from assms Inr y have r2: "r2 = r'"
    by (auto simp: acquire_lease_def split: option.splits prod.splits if_splits)
  from y show ?thesis
  proof (rule runCommand_cases)
    assume "r2 = r" "y = None"
    with assms Inr y r2 that(1) show ?thesis by (auto simp: acquire_lease_def)
  next
    fix x assume x: "acquire_script l t keys token r = (x, r2)" "y = None \<or> y = Some x"
    show ?thesis
    proof (rule that(2)[OF Inr])
      show "acquire_script l t keys token r = (x, r')" using x r2 by simp
      fix lease assume "answer = Inr lease"
      with assms Inr y x show "fst x = 1 \<and> lease = \<lparr>dl_activeKeys = map fst keys, dl_token = token\<rparr>"
        by (auto simp: acquire_lease_def split: option.splits prod.splits if_splits)
    qed
  qed
qed

lemma release_lease_script:
  assumes "release_lease released fate t lease r = (answer, r')"
  obtains "r' = r" | "r' = release_script t (dl_activeKeys lease) (dl_token lease) r"
  using assms unfolding release_lease_def
  by (auto split: if_splits option.splits prod.splits elim!: runCommand_cases)

lemma check_limits_answer: "check_limits l t keys r = (Some x, r') \<Longrightarrow> fst x = 0"
  by (induction l t keys r arbitrary: r' rule: check_limits.induct) (auto simp: Let_def split: if_splits)

lemma acquire_script_cases:
  assumes "acquire_script l t keys token r = (x, r')"
  obtains "check_limits l t keys r = (Some x, r')" "fst x = 0"
    | r1 where "check_limits l t keys r = (None, r1)" "x = (1, 0, 0)"
        "r' = fold (grant_slot l t token) keys r1"
  using assms by (auto simp: acquire_script_def check_limits_answer split: prod.splits option.splits)

lemma acquire_script_keeps:
  assumes "acquire_script l t keys token r = (x, r')"
    and "has_slot r k other e" "other \<noteq> token" "t < e" "e \<le> t + li_leaseMs l"
  shows "has_slot r' k other e"
  using assms(1)
proof (cases rule: acquire_script_cases)
  case 1
  then show ?thesis using check_limits_kept assms(2,4) by blast
next
  case (2 r1)
  then have "has_slot r1 k other e" using check_limits_kept assms(2,4) by blast
  then show ?thesis unfolding 2(3) by (rule has_slot_grants) (use assms in simp_all)
qed

lemma in_use_slots:
  assumes "distinct (map (\<lambda>h. dl_token (fst h)) held)"
    and "\<And>h. h \<in> set held \<Longrightarrow> t < snd h \<Longrightarrow> k \<in> set (dl_activeKeys (fst h)) \<Longrightarrow>
           has_slot r k (dl_token (fst h)) (snd h)"
  shows "length (in_use t k held) \<le> length (live_entries t r k)"
proof -
  let ?f = "\<lambda>h. (dl_token (fst h), snd h)"
  have "distinct (map (\<lambda>h. dl_token (fst h)) (in_use t k held))"
    using assms(1) by (auto simp: in_use_def distinct_map_filter)
  then have "distinct (map fst (map ?f (in_use t k held)))" by (simp add: comp_def)
  then have dist: "distinct (map ?f (in_use t k held))" by (simp only: distinct_map)
  have sub: "set (map ?f (in_use t k held)) \<subseteq> set (live_entries t r k)"
    using assms(2) by (auto simp: in_use_def intro!: has_slot_live)
  have "length (map ?f (in_use t k held)) = card (set (map ?f (in_use t k held)))"
    by (rule distinct_card[OF dist, symmetric])
  also have "\<dots> \<le> card (set (live_entries t r k))" by (rule card_mono[OF List.finite_set sub])
  also have "\<dots> \<le> length (live_entries t r k)" by (rule card_length)
  finally show ?thesis by simp
qed

lemma in_use_later: "t \<le> t' \<Longrightarrow> length (in_use t' k held) \<le> length (in_use t k held)"
  unfolding in_use_def by (induction held) auto

lemma in_use_filter: "length (in_use t k (filter P held)) \<le> length (in_use t k held)"
  by (induction held) (auto simp: in_use_def)

lemma acquires_inv:
  assumes inv: "limiter_inv l (t, r, held)"
    and answer: "acquire_lease l keys_of token aborted fate t d r = (Inr lease, r')"
    and fresh: "token \<notin> tokens_in_use held"
  shows "limiter_inv l (t, r', (lease, t + li_leaseMs l) # held)"
  using answer
proof (cases rule: acquire_lease_script)
  case 1
  then show ?thesis by simp
next
  case (2 keys x)
  from 2(3)[OF refl] have x: "fst x = 1" and lease: "lease = \<lparr>dl_activeKeys = map fst keys, dl_token = token\<rparr>"
    by simp_all
  have other: "\<forall>h \<in> set held. dl_token (fst h) \<noteq> token"
    using fresh by (auto simp: tokens_in_use_def)
  from 2(2) x obtain r1 where r1: "check_limits l t keys r = (None, r1)"
    and r': "r' = fold (grant_slot l t token) keys r1"
    by (cases rule: acquire_script_cases) auto
  have slots: "has_slot r' k (dl_token (fst h)) (snd h)"
    if "h \<in> set held" "t < snd h" "k \<in> set (dl_activeKeys (fst h))" for h k
    using acquire_script_keeps[OF 2(2)] that inv other by (auto simp: limiter_inv_def)
  have own: "has_slot r' k token (t + li_leaseMs l)" if "k \<in> fst ` set keys" for k
    unfolding r' by (rule has_slot_grants_own) (use that in simp)
  have "int (length (in_use t k ((lease, t + li_leaseMs l) # held))) \<le> li_maxConcurrent l" for k
  proof (cases "k \<in> fst ` set keys")
    case True
    then obtain b where "(k, b) \<in> set keys" by force
    then have "int (length (live_entries t r k)) < li_maxConcurrent l" by (rule check_limits_pass[OF r1])
    moreover have "length (in_use t k held) \<le> length (live_entries t r k)"
      by (rule in_use_slots) (use inv in \<open>auto simp: limiter_inv_def\<close>)
    ultimately show ?thesis by (simp add: in_use_def)
  next
    case False
    then have "k \<notin> set (dl_activeKeys lease)" by (simp add: lease)
    then show ?thesis using inv by (simp add: in_use_def limiter_inv_def)
  qed
  then show ?thesis
    using inv slots own other unfolding limiter_inv_def by (fastforce simp: lease)
qed

lemma refuses_inv:
  assumes inv: "limiter_inv l (t, r, held)"
    and answer: "acquire_lease l keys_of token aborted fate t d r = (Inl e, r')"
    and fresh: "token \<notin> tokens_in_use held"
  shows "limiter_inv l (t, r', held)"
  using answer
proof (cases rule: acquire_lease_script)
  case 1
  with inv show ?thesis by simp
next
  case (2 keys x)
  have "h \<in> set held \<Longrightarrow> dl_token (fst h) \<noteq> token" for h using fresh by (auto simp: tokens_in_use_def)
  then show ?thesis
    using inv acquire_script_keeps[OF 2(2)] by (fastforce simp: limiter_inv_def)
qed

lemma releases_inv:
  assumes inv: "limiter_inv l (t, r, held)"
    and answer: "release_lease released fate t lease r = (answer, r')"
  shows "limiter_inv l (t, r', filter (\<lambda>h. dl_token (fst h) \<noteq> dl_token lease) held)"
proof -
  have "has_slot r' k other e" if "has_slot r k other e" "other \<noteq> dl_token lease" "t < e" for k other e
    using answer by (cases rule: release_lease_script) (use that in \<open>auto intro: has_slot_release\<close>)
  moreover have "int (length (in_use t k (filter (\<lambda>h. dl_token (fst h) \<noteq> dl_token lease) held)))
      \<le> li_maxConcurrent l" for k
  proof -
    have "int (length (in_use t k held)) \<le> li_maxConcurrent l" using inv by (simp add: limiter_inv_def)
    then show ?thesis using in_use_filter[of t k "\<lambda>h. dl_token (fst h) \<noteq> dl_token lease" held] by linarith
  qed
  ultimately show ?thesis using inv by (auto simp: limiter_inv_def distinct_map_filter)
qed

lemma limiter_step_inv:
  assumes "limiter_step l keys_of h h'" "limiter_inv l h"
  shows "limiter_inv l h'"
  using assms
proof (induction rule: limiter_step.induct)
  case (passes t t' r held)
  have "int (length (in_use t' k held)) \<le> li_maxConcurrent l" for k
  proof -
    have "int (length (in_use t k held)) \<le> li_maxConcurrent l" using passes by (simp add: limiter_inv_def)
    then show ?thesis using in_use_later[OF passes.hyps, of k held] by linarith
  qed
  with passes show ?case by (fastforce simp: limiter_inv_def)
qed (auto intro: acquires_inv refuses_inv releases_inv)

lemma limiter_reaches_inv:
  assumes "0 \<le> li_maxConcurrent l" "limiter_reaches l keys_of h"
  shows "limiter_inv l h"
  using assms(2)
proof (induction rule: rtranclp_induct)
  case base
  then show ?case using assms(1) by (simp add: limiter_inv_def in_use_def)
next
  case (step h h')
  then show ?case using limiter_step_inv by blast
qed

text \<open>C35. No destination ever has more checks under way than its limit: at every moment of every
  history of acquisitions, refusals and releases, with commands lost, repeated or unanswered,
  the leases that are held and still in time on one key are at most maxConcurrent.
\<close>

theorem destination_concurrency_bound:
  assumes "0 \<le> li_maxConcurrent l" "limiter_reaches l keys_of (t, r, held)"
  shows "int (length (in_use t k held)) \<le> li_maxConcurrent l"
  using limiter_reaches_inv[OF assms] by (simp add: limiter_inv_def)

text \<open>An example: a limit of one check at a time, taken at time 0.\<close>

definition example_limits :: limits where
  "example_limits = \<lparr>li_leaseMs = 31000, li_maxConcurrent = 1, li_maxPerWindow = 2\<rparr>"

definition example_keys :: "SafeDestination \<Rightarrow> CheckFailure + (jstring \<times> jstring) list" where
  "example_keys d = Inr [(js ''a'', js ''b'')]"

definition example_target :: SafeDestination where
  "example_target = \<lparr>sd_url = \<lparr>u_protocol = js ''http:'', u_username = [], u_password = [], u_hostname = js ''h'',
     u_port = [], u_pathname = js ''/'', u_search = [], u_hash = []\<rparr>, sd_addresses = []\<rparr>"

definition example_lease :: DestinationLease where
  "example_lease = \<lparr>dl_activeKeys = [js ''a''], dl_token = js ''t''\<rparr>"

lemma example_acquired:
  "\<exists>r. acquire_lease example_limits example_keys (js ''t'') False Answered 0 d empty_redis
     = (Inr example_lease, r)"
  by (simp add: acquire_lease_def example_keys_def example_limits_def example_lease_def
      acquire_script_def runCommand_def Let_def zset_at_def zremrangebyscore_def zset_put_def
      empty_redis_def live_def counter_at_def split: prod.splits)

lemma example_reached: "\<exists>r. limiter_reaches example_limits example_keys (0, r, [(example_lease, 31000)])"
proof -
  obtain r where "acquire_lease example_limits example_keys (js ''t'') False Answered 0 undefined empty_redis
     = (Inr example_lease, r)" using example_acquired by blast
  then have "limiter_step example_limits example_keys (0, empty_redis, [])
      (0, r, [(example_lease, 0 + li_leaseMs example_limits)])"
    by (rule acquires) (simp add: tokens_in_use_def)
  then show ?thesis by (auto simp: example_limits_def)
qed

lemma destination_concurrency_bound_witness:
  "\<exists>r. limiter_reaches example_limits example_keys (0, r, [(example_lease, 31000)]) \<and>
     int (length (in_use 0 (js ''a'') [(example_lease, 31000)])) \<le> 1"
proof -
  obtain r where r: "limiter_reaches example_limits example_keys (0, r, [(example_lease, 31000)])"
    using example_reached by blast
  have "int (length (in_use 0 (js ''a'') [(example_lease, 31000)])) \<le> li_maxConcurrent example_limits"
    by (rule destination_concurrency_bound[OF _ r]) (simp add: example_limits_def)
  with r show ?thesis by (auto simp: example_limits_def)
qed

section \<open>The rate counters\<close>

lemma zset_ops_counter_at [simp]:
  "counter_at t (zremrangebyscore t' k r) b = counter_at t r b"
  by (simp add: counter_at_def)

lemma counter_at_ensure [simp]: "counter_at t (ensure_window t k r) b = counter_at t r b"
  by (auto simp: counter_at_def ensure_window_def counter_pexpire_def WINDOW_MS_def live_def
      split: option.splits)

lemma check_limits_counter_at: "check_limits l t keys r = (x, r') \<Longrightarrow> counter_at t r' b = counter_at t r b"
  by (induction l t keys r arbitrary: r' rule: check_limits.induct) (auto simp: Let_def split: if_splits)

lemma check_limits_rate:
  "check_limits l t keys r = (None, r') \<Longrightarrow> (a, b) \<in> set keys \<Longrightarrow> counter_at t r b < li_maxPerWindow l"
  by (induction l t keys r arbitrary: r' rule: check_limits.induct) (auto simp: Let_def split: if_splits)

lemma grant_slot_counter:
  "counter_at t (grant_slot l t token (a, b) r) k = counter_at t r k + (if k = b then 1 else 0)"
  by (auto simp: grant_slot_def Let_def counter_at_def counter_pexpire_def incr_def live_def WINDOW_MS_def
      split: option.splits if_splits)

lemma grants_counter:
  "distinct (map snd keys) \<Longrightarrow>
   counter_at t (fold (grant_slot l t token) keys r) k
     = counter_at t r k + (if k \<in> snd ` set keys then 1 else 0)"
  by (induction keys arbitrary: r) (force simp: grant_slot_counter image_iff)+

text \<open>Taking the slots of a destination is all or nothing. An answered acquisition either yields a
  lease on every key of the destination, counted once against the minute of each and within
  maxPerMinute, or it is refused with the same entries in every active set and the same
  counters as before.
\<close>

theorem acquire_all_or_nothing:
  assumes "keys_of d = Inr keys" "distinct (map snd keys)"
    and "acquire_lease l keys_of token False Answered t d r = (answer, r')"
  shows "case answer of
      Inr lease \<Rightarrow> dl_activeKeys lease = map fst keys \<and>
        (\<forall>(a, b) \<in> set keys. has_slot r' a token (t + li_leaseMs l) \<and>
           counter_at t r' b = counter_at t r b + 1 \<and> counter_at t r' b \<le> li_maxPerWindow l) \<and>
        (\<forall>b. b \<notin> snd ` set keys \<longrightarrow> counter_at t r' b = counter_at t r b)
    | Inl e \<Rightarrow> e = destination_limiter_error refused_message \<and>
        (\<forall>k. live_entries t r' k = live_entries t r k \<and> counter_at t r' k = counter_at t r k)"
proof -
  obtain x where x: "acquire_script l t keys token r = (x, r')"
    and answer: "answer = (if fst x = 0 then Inl (destination_limiter_error refused_message)
       else if fst x \<noteq> 1 then answer else Inr \<lparr>dl_activeKeys = map fst keys, dl_token = token\<rparr>)"
    using assms(1,3) by (auto simp: acquire_lease_def runCommand_def split: prod.splits if_splits)
  from x show ?thesis
  proof (cases rule: acquire_script_cases)
    case 1
    then show ?thesis using answer check_limits_kept check_limits_counter_at by force
  next
    case (2 r1)
    have "counter_at t r1 b = counter_at t r b" for b by (rule check_limits_counter_at[OF 2(1)])
    then have "counter_at t r' k = counter_at t r k + (if k \<in> snd ` set keys then 1 else 0)" for k
      using 2(3) grants_counter[OF assms(2)] by simp
    moreover have "has_slot r' a token (t + li_leaseMs l)" if "(a, b) \<in> set keys" for a b
      unfolding 2(3) by (rule has_slot_grants_own) (use that in force)
    moreover have "counter_at t r b < li_maxPerWindow l" if "(a, b) \<in> set keys" for a b
      by (rule check_limits_rate[OF 2(1) that])
    ultimately show ?thesis using answer 2(2) by force
  qed
qed

lemma acquire_all_or_nothing_witness:
  "has_slot (snd (acquire_lease example_limits example_keys (js ''t'') False Answered 0
     example_target empty_redis)) (js ''a'') (js ''t'') 31000"
proof -
  obtain r where r: "acquire_lease example_limits example_keys (js ''t'') False Answered 0 example_target empty_redis
     = (Inr example_lease, r)" using example_acquired by blast
  show ?thesis
    using acquire_all_or_nothing[OF _ _ r, of "[(js ''a'', js ''b'')]"]
    by (simp add: r example_keys_def) (simp add: example_limits_def)
qed

text \<open>A counter always has an end, one window after some moment in the past at most.\<close>

definition rate_inv :: "limits \<Rightarrow> time \<Rightarrow> redis \<Rightarrow> bool" where
  "rate_inv l t r \<longleftrightarrow>
     (\<forall>k n e. rd_counters r k = Some (n, e) \<longrightarrow>
        0 < n \<and> n \<le> li_maxPerWindow l \<and> (\<exists>y. e = Some y \<and> y \<le> t + WINDOW_MS))"

lemma rate_inv_ensure: "rate_inv l t r \<Longrightarrow> rd_counters (ensure_window t k r) = rd_counters r"
  by (fastforce simp: ensure_window_def rate_inv_def counter_pttl_def counter_at_def live_def
      split: option.splits if_splits)

lemma check_limits_counters:
  "check_limits l t keys r = (x, r') \<Longrightarrow> rate_inv l t r \<Longrightarrow> rd_counters r' = rd_counters r"
proof (induction l t keys r arbitrary: r' rule: check_limits.induct)
  case (1 l t r)
  then show ?case by simp
next
  case (2 l t a b keys r)
  have inv1: "rate_inv l t (zremrangebyscore t a r)" using "2.prems" by (simp add: rate_inv_def)
  then have inv2: "rd_counters (ensure_window t b (zremrangebyscore t a r)) = rd_counters r"
    by (simp add: rate_inv_ensure)
  then have "rate_inv l t (ensure_window t b (zremrangebyscore t a r))"
    using "2.prems" by (simp add: rate_inv_def)
  with inv2 "2.prems"(1) "2.IH"[OF refl refl _ refl refl, of r'] show ?case
    by (auto simp: Let_def split: if_splits)
qed

lemma rate_inv_grant:
  "rate_inv l t r \<Longrightarrow> counter_at t r b < li_maxPerWindow l \<Longrightarrow> rate_inv l t (grant_slot l t token (a, b) r)"
  by (auto simp: rate_inv_def grant_slot_def Let_def counter_at_def counter_pttl_def counter_pexpire_def
      incr_def live_def WINDOW_MS_def split: option.splits if_splits) force+

lemma rate_inv_grants:
  "rate_inv l t r \<Longrightarrow> distinct (map snd keys) \<Longrightarrow>
   \<forall>(a, b) \<in> set keys. counter_at t r b < li_maxPerWindow l \<Longrightarrow>
   rate_inv l t (fold (grant_slot l t token) keys r)"
proof (induction keys arbitrary: r)
  case Nil
  then show ?case by simp
next
  case (Cons ab keys)
  obtain a b where ab: "ab = (a, b)" by (cases ab)
  have "rate_inv l t (grant_slot l t token (a, b) r)" using Cons.prems by (simp add: ab rate_inv_grant)
  moreover have "\<forall>(a', b') \<in> set keys. counter_at t (grant_slot l t token (a, b) r) b' < li_maxPerWindow l"
    using Cons.prems by (force simp: ab grant_slot_counter image_iff)
  ultimately show ?case using Cons.IH Cons.prems by (simp add: ab)
qed

lemma rate_inv_script:
  assumes "rate_inv l t r" "distinct (map snd keys)" "acquire_script l t keys token r = (x, r')"
  shows "rate_inv l t r'"
  using assms(3)
proof (cases rule: acquire_script_cases)
  case 1
  then show ?thesis using check_limits_counters assms(1) by (simp add: rate_inv_def)
next
  case (2 r1)
  then have "rate_inv l t r1" using check_limits_counters assms(1) by (simp add: rate_inv_def)
  moreover have "\<forall>(a, b) \<in> set keys. counter_at t r1 b < li_maxPerWindow l"
    using check_limits_rate[OF 2(1)] check_limits_counter_at[OF 2(1)] by auto
  ultimately show ?thesis unfolding 2(3) by (intro rate_inv_grants assms(2))
qed

lemma release_counters: "rd_counters (release_script t keys token r) = rd_counters r"
  unfolding release_script_def by (induction keys arbitrary: r) auto

lemma rate_inv_acquire:
  assumes "\<And>d keys. keys_of d = Inr keys \<Longrightarrow> distinct (map snd keys)" "rate_inv l t r"
    and "acquire_lease l keys_of token aborted fate t d r = (answer, r')"
  shows "rate_inv l t r'"
  using assms(3)
  by (cases rule: acquire_lease_script) (use assms(1,2) rate_inv_script in blast)+

lemma limiter_step_rate:
  assumes "limiter_step l keys_of h h'" "\<And>d keys. keys_of d = Inr keys \<Longrightarrow> distinct (map snd keys)"
  shows "rate_inv l (fst h) (fst (snd h)) \<Longrightarrow> rate_inv l (fst h') (fst (snd h'))"
  using assms(1)
proof (induction rule: limiter_step.induct)
  case (passes t t' r held)
  then show ?case by (fastforce simp: rate_inv_def)
next
  case (releases released fate t lease r answer r' held)
  from releases(1) have "rd_counters r' = rd_counters r"
    by (cases rule: release_lease_script) (simp_all add: release_counters)
  with releases(2) show ?case by (simp add: rate_inv_def)
qed (auto intro: rate_inv_acquire[OF assms(2)])

text \<open>No destination is checked without end: in every history the counter of a key stays within
  maxPerMinute, and a counter that counts anything runs out within one minute, so that a
  refusal for the rate never outlasts the window.
\<close>

theorem rate_window_bound:
  assumes "limiter_reaches l keys_of (t, r, held)" "0 \<le> li_maxPerWindow l"
    and "\<And>d keys. keys_of d = Inr keys \<Longrightarrow> distinct (map snd keys)"
  shows "counter_at t r k \<le> li_maxPerWindow l \<and>
    (counter_at t r k \<noteq> 0 \<longrightarrow> 0 \<le> counter_pttl t r k \<and> counter_pttl t r k \<le> WINDOW_MS)"
proof -
  have "rate_inv l (fst h) (fst (snd h))" if "limiter_reaches l keys_of h" for h
    using that
  proof (induction rule: rtranclp_induct)
    case base
    then show ?case by (simp add: rate_inv_def empty_redis_def)
  next
    case (step h h')
    show ?case by (rule limiter_step_rate[OF step.hyps(2)]) (use assms(3) step.IH in blast)+
  qed
  from this[OF assms(1)] show ?thesis using assms(2)
    by (fastforce simp: rate_inv_def counter_at_def counter_pttl_def live_def split: option.splits)
qed

lemma rate_window_bound_witness:
  "\<exists>r. limiter_reaches example_limits example_keys (0, r, [(example_lease, 31000)]) \<and>
     counter_at 0 r (js ''b'') \<le> 2"
proof -
  obtain r where r: "limiter_reaches example_limits example_keys (0, r, [(example_lease, 31000)])"
    using example_reached by blast
  have "counter_at 0 r (js ''b'') \<le> li_maxPerWindow example_limits"
    using rate_window_bound[OF r, of "js ''b''"] by (simp add: example_limits_def example_keys_def)
  with r show ?thesis by (auto simp: example_limits_def)
qed

end
