(* ===== verification/Http_Checker.thy ===== *)
theory Http_Checker
  imports Keyword_Search Destination_Limiter Complex_Main
begin

text \<open>
  The check of one URL, \<open>packages/monitoring/src/checker.ts\<close>: the configuration, the
  classification of errors, the loop over redirects with its lease, cookies and limits, and
  the result. The runtime and the collaborators (clock, timer, resolver, limiter, transport,
  cookie jar, URL parser, decompressors) are the fields of a record over an arbitrary world.
\<close>

section \<open>Configuration\<close>

definition MIN_TIMEOUT_MS :: int where "MIN_TIMEOUT_MS = 500"
definition MAX_TIMEOUT_MS :: int where "MAX_TIMEOUT_MS = 30000"
definition DEFAULT_TIMEOUT_MS :: int where "DEFAULT_TIMEOUT_MS = 10000"
definition DEFAULT_MAX_REDIRECTS :: int where "DEFAULT_MAX_REDIRECTS = 5"
definition REDIRECT_STATUSES :: "int set" where "REDIRECT_STATUSES = {301, 302, 303, 307, 308}"

record NormalizedConfig =
  nc_url :: jstring
  nc_method :: HttpMethod
  nc_timeoutMs :: int
  nc_expectedStatusMin :: int
  nc_expectedStatusMax :: int
  nc_expectedKeyword :: "jstring option"
  nc_followRedirects :: bool
  nc_maxRedirects :: int
  nc_source :: CheckSource
  nc_configVersion :: "int option"

definition or_default :: "'a option \<Rightarrow> 'a \<Rightarrow> 'a" where
  "or_default v d = (case v of None \<Rightarrow> d | Some x \<Rightarrow> x)"

text \<open>The typed configuration holds integers and no other method than these two.\<close>

definition normalizeConfig :: "MonitorCheckConfig \<Rightarrow> CheckFailure + NormalizedConfig" where
  "normalizeConfig config =
     (let method = or_default (cf_method config) GET;
          timeoutMs = or_default (cf_timeoutMs config) DEFAULT_TIMEOUT_MS;
          expectedStatusMin = or_default (cf_expectedStatusMin config) 200;
          expectedStatusMax = or_default (cf_expectedStatusMax config) 299;
          expectedKeyword = (case cf_expectedKeyword config of None \<Rightarrow> None
             | Some k \<Rightarrow> if js_trim k = [] then None else Some k);
          maxRedirects = or_default (cf_maxRedirects config) DEFAULT_MAX_REDIRECTS
      in if timeoutMs < MIN_TIMEOUT_MS \<or> MAX_TIMEOUT_MS < timeoutMs
         then Inl (url_policy_error [0xC804, 0xCCB4, 0x20, 0xC81C, 0xD55C, 0x20, 0xC2DC, 0xAC04, 0xC740, 0x20, 0x35, 0x30,
      0x30, 0x7E, 0x33, 0x30, 0x30, 0x30, 0x30, 0x6D, 0x73, 0xC5EC, 0xC57C, 0x20, 0xD569,
      0xB2C8, 0xB2E4, 0x2E])
         else if expectedStatusMin < 100 \<or> 599 < expectedStatusMax \<or> expectedStatusMax < expectedStatusMin
         then Inl (url_policy_error [0xAE30, 0xB300, 0x20, 0x48, 0x54, 0x54, 0x50, 0x20, 0xC0C1, 0xD0DC, 0x20, 0xCF54,
      0xB4DC, 0x20, 0xBC94, 0xC704, 0xAC00, 0x20, 0xC62C, 0xBC14, 0xB974, 0xC9C0, 0x20,
      0xC54A, 0xC2B5, 0xB2C8, 0xB2E4, 0x2E])
         else if maxRedirects < 0 \<or> DEFAULT_MAX_REDIRECTS < maxRedirects
         then Inl (url_policy_error [0xB9AC, 0xB2E4, 0xC774, 0xB809, 0xD2B8, 0xB294, 0x20, 0xCD5C, 0xB300, 0x20, 0x35,
      0xD68C, 0xAE4C, 0xC9C0, 0x20, 0xD5C8, 0xC6A9, 0xB429, 0xB2C8, 0xB2E4, 0x2E])
         else if method = HEAD \<and> expectedKeyword \<noteq> None
         then Inl (url_policy_error [0x48, 0x45, 0x41, 0x44, 0x20, 0xAC80, 0xC0AC, 0xC5D0, 0xB294, 0x20, 0xC751, 0xB2F5,
      0x20, 0xD0A4, 0xC6CC, 0xB4DC, 0xB97C, 0x20, 0xC124, 0xC815, 0xD560, 0x20, 0xC218, 0x20,
      0xC5C6, 0xC2B5, 0xB2C8, 0xB2E4, 0x2E])
         else if (case expectedKeyword of None \<Rightarrow> False | Some k \<Rightarrow> MAX_KEYWORD_BYTES < byteLength k)
         then Inl (url_policy_error [0xC751, 0xB2F5, 0x20, 0xD0A4, 0xC6CC, 0xB4DC, 0xB294, 0x20, 0x34, 0x30, 0x39, 0x36,
      0xBC14, 0xC774, 0xD2B8, 0x20, 0xC774, 0xD558, 0xC5EC, 0xC57C, 0x20, 0xD569, 0xB2C8,
      0xB2E4, 0x2E])
         else Inr \<lparr>nc_url = cf_url config, nc_method = method, nc_timeoutMs = timeoutMs,
                nc_expectedStatusMin = expectedStatusMin, nc_expectedStatusMax = expectedStatusMax,
                nc_expectedKeyword = expectedKeyword,
                nc_followRedirects = or_default (cf_followRedirects config) True,
                nc_maxRedirects = maxRedirects,
                nc_source = or_default (cf_source config) SCHEDULED,
                nc_configVersion = cf_configVersion config\<rparr>)"

definition fallback_config :: "MonitorCheckConfig \<Rightarrow> NormalizedConfig" where
  "fallback_config input =
     \<lparr>nc_url = cf_url input, nc_method = (if cf_method input = Some HEAD then HEAD else GET),
      nc_timeoutMs = DEFAULT_TIMEOUT_MS, nc_expectedStatusMin = 200, nc_expectedStatusMax = 299,
      nc_expectedKeyword = None, nc_followRedirects = True, nc_maxRedirects = DEFAULT_MAX_REDIRECTS,
      nc_source = or_default (cf_source input) SCHEDULED, nc_configVersion = cf_configVersion input\<rparr>"

section \<open>Errors\<close>

fun nested_code :: "nat \<Rightarrow> thrown_value option \<Rightarrow> jstring option" where
  "nested_code 0 e = None"
| "nested_code (Suc depth) (Some (Error_object k (Some code) cause)) = Some code"
| "nested_code (Suc depth) (Some (Error_object k None cause)) = nested_code depth cause"
| "nested_code (Suc depth) e = None"

definition nestedErrorCode :: "thrown_value \<Rightarrow> jstring option" where
  "nestedErrorCode error = nested_code 5 (Some error)"

definition error_class_of :: "thrown_value \<Rightarrow> error_class" where
  "error_class_of error = (case error of Error_object k _ _ \<Rightarrow> k | _ \<Rightarrow> Other_error)"

definition TLS_CODES :: "jstring list" where
  "TLS_CODES = map js [''CERT_HAS_EXPIRED'', ''CERT_NOT_YET_VALID'', ''DEPTH_ZERO_SELF_SIGNED_CERT'',
     ''SELF_SIGNED_CERT_IN_CHAIN'', ''UNABLE_TO_GET_ISSUER_CERT'', ''UNABLE_TO_VERIFY_LEAF_SIGNATURE'']"

definition NETWORK_CODES :: "jstring list" where
  "NETWORK_CODES = map js [''ECONNRESET'', ''ECONNABORTED'', ''EHOSTUNREACH'', ''ENETUNREACH'',
     ''ENETDOWN'', ''EPIPE'']"

definition internal_failure :: CheckFailure where
  "internal_failure =
     \<lparr>fa_class = PlainFailure, fa_outcome = CheckOutcome.PLATFORM_ERROR,
      fa_errorType = CheckErrorType.PLATFORM_ERROR,
      fa_safeMessage = [0xAC80, 0xC0AC, 0x20, 0xCC98, 0xB9AC, 0x20, 0xC911, 0x20, 0xB0B4, 0xBD80, 0x20, 0xC624,
      0xB958, 0xAC00, 0x20, 0xBC1C, 0xC0DD, 0xD588, 0xC2B5, 0xB2C8, 0xB2E4, 0x2E]\<rparr>"

definition classifyUnknownError :: "thrown_value \<Rightarrow> bool \<Rightarrow> CheckFailure" where
  "classifyUnknownError error aborted =
     (case error of Failure f \<Rightarrow> f
      | _ \<Rightarrow>
        (let code = nestedErrorCode error;
             is = (\<lambda>s. code = Some (js s));
             starts = (\<lambda>s. case code of None \<Rightarrow> False | Some c \<Rightarrow> prefix (js s) c);
             among = (\<lambda>cs. case code of None \<Rightarrow> False | Some c \<Rightarrow> c \<in> set cs)
         in if aborted \<or> is ''ABORT_ERR''
            then target_failure REQUEST_TIMEOUT [0xC804, 0xCCB4, 0x20, 0xC694, 0xCCAD, 0x20, 0xC81C, 0xD55C, 0x20, 0xC2DC, 0xAC04,
      0xC774, 0x20, 0xCD08, 0xACFC, 0xB418, 0xC5C8, 0xC2B5, 0xB2C8, 0xB2E4, 0x2E]
            else if error_class_of error = HeadersTimeoutError \<or> is ''UND_ERR_HEADERS_TIMEOUT''
            then target_failure TTFB_TIMEOUT [0xCCAB, 0x20, 0xC751, 0xB2F5, 0x20, 0xBC14, 0xC774, 0xD2B8, 0x20, 0xC81C, 0xD55C, 0x20,
      0xC2DC, 0xAC04, 0xC774, 0x20, 0xCD08, 0xACFC, 0xB418, 0xC5C8, 0xC2B5, 0xB2C8, 0xB2E4,
      0x2E]
            else if error_class_of error = ConnectTimeoutError \<or> is ''UND_ERR_CONNECT_TIMEOUT'' \<or> is ''ETIMEDOUT''
            then target_failure CONNECT_TIMEOUT [0xB300, 0xC0C1, 0x20, 0xC11C, 0xBC84, 0x20, 0xC5F0, 0xACB0, 0x20, 0xC2DC, 0xAC04,
      0xC774, 0x20, 0xCD08, 0xACFC, 0xB418, 0xC5C8, 0xC2B5, 0xB2C8, 0xB2E4, 0x2E]
            else if is ''ECONNREFUSED''
            then target_failure CONNECTION_REFUSED [0xB300, 0xC0C1, 0x20, 0xC11C, 0xBC84, 0xAC00, 0x20, 0xC5F0, 0xACB0, 0xC744, 0x20,
      0xAC70, 0xC808, 0xD588, 0xC2B5, 0xB2C8, 0xB2E4, 0x2E]
            else if starts ''ERR_TLS'' \<or> starts ''ERR_SSL'' \<or> among TLS_CODES
            then target_failure TLS_ERROR [0x54, 0x4C, 0x53, 0x20, 0xC5F0, 0xACB0, 0x20, 0xB610, 0xB294, 0x20, 0xC778, 0xC99D,
      0xC11C, 0x20, 0xAC80, 0xC99D, 0xC5D0, 0x20, 0xC2E4, 0xD328, 0xD588, 0xC2B5, 0xB2C8,
      0xB2E4, 0x2E]
            else if is ''UND_ERR_HEADERS_OVERFLOW'' \<or> is ''HPE_HEADER_OVERFLOW''
            then target_failure RESPONSE_LIMIT_EXCEEDED [0xC751, 0xB2F5, 0x20, 0xD5E4, 0xB354, 0x20, 0xD06C, 0xAE30, 0x20, 0xC81C, 0xD55C,
      0xC744, 0x20, 0xCD08, 0xACFC, 0xD588, 0xC2B5, 0xB2C8, 0xB2E4, 0x2E]
            else if is ''UND_ERR_BODY_TIMEOUT''
            then target_failure REQUEST_TIMEOUT [0xC751, 0xB2F5, 0x20, 0xBCF8, 0xBB38, 0x20, 0xCC98, 0xB9AC, 0x20, 0xC81C, 0xD55C, 0x20,
      0xC2DC, 0xAC04, 0xC774, 0x20, 0xCD08, 0xACFC, 0xB418, 0xC5C8, 0xC2B5, 0xB2C8, 0xB2E4,
      0x2E]
            else if is ''UND_ERR_SOCKET'' \<or> among NETWORK_CODES
            then target_failure NETWORK_ERROR [0xB300, 0xC0C1, 0x20, 0xC11C, 0xBC84, 0xC640, 0xC758, 0x20, 0xB124, 0xD2B8, 0xC6CC,
      0xD06C, 0x20, 0xC694, 0xCCAD, 0xC5D0, 0x20, 0xC2E4, 0xD328, 0xD588, 0xC2B5, 0xB2C8,
      0xB2E4, 0x2E]
            else internal_failure))"

section \<open>The world of a check\<close>

record TransportRequest =
  tq_method :: HttpMethod
  tq_headersTimeoutMs :: int
  tq_bodyTimeoutMs :: int
  tq_maxHeaderBytes :: nat
  tq_cookie :: "jstring option"

record TransportResponse =
  tr_statusCode :: int
  tr_headers :: headers

text \<open>
  The collaborators. Those that wait may throw and leave a new world; \<open>monotonicNow\<close> counts
  fractions of milliseconds. The controller belongs to the world: \<open>ce_arm\<close> starts its
  timer, \<open>ce_aborted\<close> is its signal.
\<close>

record ('c, 'l, 'w) checker_env =
  ce_now :: "'w \<Rightarrow> time \<times> 'w"
  ce_monotonicNow :: "'w \<Rightarrow> rat \<times> 'w"
  ce_arm :: "int \<Rightarrow> 'w \<Rightarrow> 'w"
  ce_disarm :: "'w \<Rightarrow> 'w"
  ce_aborted :: "'w \<Rightarrow> bool"
  ce_resolve :: "jstring \<Rightarrow> 'w \<Rightarrow> (thrown_value + ResolvedAddress list) \<times> 'w"
  ce_acquire :: "(SafeDestination \<Rightarrow> 'w \<Rightarrow> (thrown_value + 'l) \<times> 'w) option"
  ce_release :: "'l \<Rightarrow> 'w \<Rightarrow> (thrown_value + unit) \<times> 'w"
  ce_request :: "SafeDestination \<Rightarrow> TransportRequest \<Rightarrow> 'w \<Rightarrow> (thrown_value + TransportResponse) \<times> 'w"
  ce_body :: "'w \<Rightarrow> body_stream \<times> 'w"
  ce_destroy :: "'w \<Rightarrow> 'w"
  ce_close :: "'w \<Rightarrow> (thrown_value + unit) \<times> 'w"
  ce_new_URL :: "jstring \<Rightarrow> Url option"
  ce_relative_URL :: "jstring \<Rightarrow> Url \<Rightarrow> Url option"
  ce_isIP :: "jstring \<Rightarrow> nat"
  ce_new_jar :: 'c
  ce_cookies :: "'c \<Rightarrow> jstring \<Rightarrow> jstring"
  ce_set_cookie :: "jstring \<Rightarrow> jstring \<Rightarrow> 'c \<Rightarrow> 'c"
  ce_decompress :: "content_coding \<Rightarrow> body_stream \<Rightarrow> body_stream"

text \<open>The variables of one run of \<open>checkUrl\<close>; \<open>cs_response\<close> tells whether a response is open.\<close>

record ('c, 'l, 'w) check_state =
  cs_currentUrl :: jstring
  cs_statusCode :: "int option"
  cs_ttfbMs :: "int option"
  cs_redirects :: int
  cs_inspectedBodyBytes :: nat
  cs_response :: bool
  cs_lease :: "'l option"
  cs_visited :: "(jstring \<times> jstring) list"
  cs_cookies :: 'c
  cs_world :: 'w

text \<open>\<open>Math.round\<close>\<close>

definition js_round :: "rat \<Rightarrow> int" where
  "js_round x = \<lfloor>x + 1 / 2\<rfloor>"

section \<open>The result of a failure\<close>

definition failure_result ::
  "(jstring \<Rightarrow> Url option) \<Rightarrow> CheckFailure \<Rightarrow> NormalizedConfig \<Rightarrow> time \<Rightarrow> time \<Rightarrow> rat \<Rightarrow>
   int option \<Rightarrow> int option \<Rightarrow> jstring \<Rightarrow> int \<Rightarrow> nat \<Rightarrow> MonitorCheckResult" where
  "failure_result new_URL failure config startedAt finishedAt elapsedMs statusCode ttfbMs finalUrl
     redirects inspectedBodyBytes =
     \<lparr>rs_source = nc_source config, rs_outcome = fa_outcome failure,
      rs_configVersion = nc_configVersion config, rs_startedAt = startedAt,
      rs_finishedAt = finishedAt, rs_statusCode = statusCode, rs_ttfbMs = ttfbMs,
      rs_totalMs = max 0 (js_round elapsedMs), rs_errorType = Some (fa_errorType failure),
      rs_errorMessageSafe = Some (fa_safeMessage failure),
      rs_finalUrlDisplay = displayUrl new_URL finalUrl, rs_redirectCount = redirects,
      rs_inspectedBodyBytes = int inspectedBodyBytes\<rparr>"

section \<open>The steps of a round\<close>

text \<open>A step may throw; what it assigned before it threw stays assigned.\<close>

definition seq ::
  "('s \<Rightarrow> ('e + 'a) \<times> 's) \<Rightarrow> ('a \<Rightarrow> 's \<Rightarrow> ('e + 'b) \<times> 's) \<Rightarrow> 's \<Rightarrow> ('e + 'b) \<times> 's" where
  "seq m k s = (case m s of (Inl e, s1) \<Rightarrow> (Inl e, s1) | (Inr x, s1) \<Rightarrow> k x s1)"

definition on_world ::
  "('w \<Rightarrow> (thrown_value + 'a) \<times> 'w) \<Rightarrow> ('c, 'l, 'w) check_state \<Rightarrow>
   (thrown_value + 'a) \<times> ('c, 'l, 'w) check_state" where
  "on_world f s = (case f (cs_world s) of (x, w) \<Rightarrow> (x, s\<lparr>cs_world := w\<rparr>))"

definition throw_failure :: "CheckFailure \<Rightarrow> 's \<Rightarrow> (thrown_value + 'a) \<times> 's" where
  "throw_failure f s = (Inl (Failure f), s)"

definition as_limiter_error :: "jstring \<Rightarrow> thrown_value \<Rightarrow> thrown_value" where
  "as_limiter_error message error =
     (case error of Failure f \<Rightarrow>
        if fa_class f = DestinationLimiterError then error
        else Failure (destination_limiter_error message)
      | _ \<Rightarrow> Failure (destination_limiter_error message))"

definition resolve_step ::
  "('c, 'l, 'w) checker_env \<Rightarrow> ('c, 'l, 'w) check_state \<Rightarrow>
   (thrown_value + SafeDestination) \<times> ('c, 'l, 'w) check_state" where
  "resolve_step env s =
     (case parseMonitorUrl (ce_new_URL env) (ce_isIP env) (cs_currentUrl s) of
        Inl f \<Rightarrow> throw_failure f s
      | Inr url \<Rightarrow>
          seq (on_world (ce_resolve env (strip_brackets (u_hostname url))))
            (\<lambda>addresses s. case safe_destination url addresses of
               Inl f \<Rightarrow> throw_failure f s | Inr d \<Rightarrow> (Inr d, s)) s)"

definition visit_step ::
  "('c, 'l, 'w) checker_env \<Rightarrow> SafeDestination \<Rightarrow> ('c, 'l, 'w) check_state \<Rightarrow>
   (thrown_value + jstring) \<times> ('c, 'l, 'w) check_state" where
  "visit_step env d s =
     (let canonical = url_toString (sd_url d); cookie = ce_cookies env (cs_cookies s) canonical in
      if (canonical, cookie) \<in> set (cs_visited s)
      then throw_failure (redirect_policy_error [0xB9AC, 0xB2E4, 0xC774, 0xB809, 0xD2B8, 0x20, 0xC21C, 0xD658, 0xC774, 0x20, 0xAC10,
      0xC9C0, 0xB418, 0xC5C8, 0xC2B5, 0xB2C8, 0xB2E4, 0x2E]) s
      else (Inr cookie, s\<lparr>cs_visited := (canonical, cookie) # cs_visited s, cs_currentUrl := canonical\<rparr>))"

definition acquire_step ::
  "('c, 'l, 'w) checker_env \<Rightarrow> SafeDestination \<Rightarrow> ('c, 'l, 'w) check_state \<Rightarrow>
   (thrown_value + unit) \<times> ('c, 'l, 'w) check_state" where
  "acquire_step env d s =
     (case ce_acquire env of None \<Rightarrow> (Inr (), s\<lparr>cs_lease := None\<rparr>)
      | Some acquire \<Rightarrow>
        (case acquire d (cs_world s) of
           (Inl e, w) \<Rightarrow> (Inl (as_limiter_error unavailable_message e), s\<lparr>cs_world := w\<rparr>)
         | (Inr lease, w) \<Rightarrow> (Inr (), s\<lparr>cs_lease := Some lease, cs_world := w\<rparr>)))"

text \<open>\<open>releaseDestinationLease(destinationLease)\<close>, and \<open>destinationLease = null\<close> once it returns.\<close>

definition release_step ::
  "('c, 'l, 'w) checker_env \<Rightarrow> ('c, 'l, 'w) check_state \<Rightarrow>
   (thrown_value + unit) \<times> ('c, 'l, 'w) check_state" where
  "release_step env s =
     (case cs_lease s of None \<Rightarrow> (Inr (), s)
      | Some lease \<Rightarrow>
        (case ce_release env lease (cs_world s) of
           (Inl e, w) \<Rightarrow> (Inl (as_limiter_error release_failed_message e), s\<lparr>cs_world := w\<rparr>)
         | (Inr _, w) \<Rightarrow> (Inr (), s\<lparr>cs_lease := None, cs_world := w\<rparr>)))"

definition close_step ::
  "('c, 'l, 'w) checker_env \<Rightarrow> ('c, 'l, 'w) check_state \<Rightarrow>
   (thrown_value + unit) \<times> ('c, 'l, 'w) check_state" where
  "close_step env =
     seq (on_world (ce_close env)) (\<lambda>_ s. (Inr (), s\<lparr>cs_response := False\<rparr>))"

definition request_step ::
  "('c, 'l, 'w) checker_env \<Rightarrow> NormalizedConfig \<Rightarrow> rat \<Rightarrow> SafeDestination \<Rightarrow> jstring \<Rightarrow>
   ('c, 'l, 'w) check_state \<Rightarrow> (thrown_value + TransportResponse) \<times> ('c, 'l, 'w) check_state" where
  "request_step env config startedTick d cookie s =
     (case ce_monotonicNow env (cs_world s) of (tick, w) \<Rightarrow>
      (let remaining = max 1 \<lfloor>of_int (nc_timeoutMs config) - (tick - startedTick)\<rfloor>;
           request = \<lparr>tq_method = nc_method config, tq_headersTimeoutMs = min 5000 remaining,
             tq_bodyTimeoutMs = remaining, tq_maxHeaderBytes = MAX_HEADER_BYTES,
             tq_cookie = (if cookie = [] then None else Some cookie)\<rparr>
       in case ce_request env d request w of
           (Inl e, w1) \<Rightarrow> (Inl e, s\<lparr>cs_world := w1\<rparr>)
         | (Inr response, w1) \<Rightarrow>
           (case ce_monotonicNow env w1 of (tick1, w2) \<Rightarrow>
             (let s1 = s\<lparr>cs_response := True, cs_statusCode := Some (tr_statusCode response),
                        cs_ttfbMs := Some (max 0 (js_round (tick1 - startedTick))), cs_world := w2\<rparr>
              in if MAX_HEADER_BYTES < approximateHeaderBytes (tr_headers response)
                 then throw_failure (target_failure RESPONSE_LIMIT_EXCEEDED
                        [0xC751, 0xB2F5, 0x20, 0xD5E4, 0xB354, 0x20, 0xD06C, 0xAE30, 0x20, 0xC81C, 0xD55C,
      0xC744, 0x20, 0xCD08, 0xACFC, 0xD588, 0xC2B5, 0xB2C8, 0xB2E4, 0x2E]) s1
                 else (Inr response, s1)))))"

definition set_cookie_values :: "headers \<Rightarrow> jstring list" where
  "set_cookie_values headers =
     (case header_field headers (js ''set-cookie'') of
        Values vs \<Rightarrow> vs
      | One_value v \<Rightarrow> (if v = [] then [] else [v])
      | Undefined_value \<Rightarrow> [])"

definition redirect_step ::
  "('c, 'l, 'w) checker_env \<Rightarrow> NormalizedConfig \<Rightarrow> SafeDestination \<Rightarrow> TransportResponse \<Rightarrow> jstring \<Rightarrow>
   ('c, 'l, 'w) check_state \<Rightarrow> (thrown_value + unit) \<times> ('c, 'l, 'w) check_state" where
  "redirect_step env config d response location s =
     (if nc_maxRedirects config \<le> cs_redirects s
      then throw_failure (redirect_policy_error [0xD5C8, 0xC6A9, 0xB41C, 0x20, 0xB9AC, 0xB2E4, 0xC774, 0xB809, 0xD2B8, 0x20, 0xD69F,
      0xC218, 0xB97C, 0x20, 0xCD08, 0xACFC, 0xD588, 0xC2B5, 0xB2C8, 0xB2E4, 0x2E]) s
      else case ce_relative_URL env location (sd_url d) of
        None \<Rightarrow> throw_failure (redirect_policy_error [0xB9AC, 0xB2E4, 0xC774, 0xB809, 0xD2B8, 0x20, 0xC8FC, 0xC18C, 0xAC00, 0x20, 0xC62C,
      0xBC14, 0xB974, 0xC9C0, 0x20, 0xC54A, 0xC2B5, 0xB2C8, 0xB2E4, 0x2E]) s
      | Some target \<Rightarrow>
        (let jar = fold (\<lambda>v. ce_set_cookie env v (url_toString (sd_url d)))
                     (set_cookie_values (tr_headers response)) (cs_cookies s);
             s1 = s\<lparr>cs_cookies := jar, cs_world := ce_destroy env (cs_world s)\<rparr>
         in seq (close_step env) (\<lambda>_.
            seq (release_step env) (\<lambda>_ s.
              (Inr (), s\<lparr>cs_currentUrl := url_toString target, cs_redirects := cs_redirects s + 1\<rparr>))) s1))"

definition inspect_step ::
  "('c, 'l, 'w) checker_env \<Rightarrow> NormalizedConfig \<Rightarrow> TransportResponse \<Rightarrow> ('c, 'l, 'w) check_state \<Rightarrow>
   (thrown_value + unit) \<times> ('c, 'l, 'w) check_state" where
  "inspect_step env config response s =
     (case nc_expectedKeyword config of
        None \<Rightarrow> (Inr (), s\<lparr>cs_world := ce_destroy env (cs_world s)\<rparr>)
      | Some keyword \<Rightarrow>
        (case ce_body env (cs_world s) of (body, w) \<Rightarrow>
          (let s1 = s\<lparr>cs_world := ce_destroy env w\<rparr> in
           case inspectKeyword (ce_decompress env) (tr_headers response) body keyword of
             Inl e \<Rightarrow> (Inl e, s1)
           | Inr (found, inspected) \<Rightarrow>
             (let s2 = s1\<lparr>cs_inspectedBodyBytes := inspected\<rparr> in
              if found then (Inr (), s2)
              else throw_failure (target_failure CONTENT_MISMATCH
                     [0xC81C, 0xD55C, 0xB41C, 0x20, 0xC751, 0xB2F5, 0x20, 0xBCF8, 0xBB38, 0xC5D0, 0xC11C,
      0x20, 0xAE30, 0xB300, 0x20, 0xD0A4, 0xC6CC, 0xB4DC, 0xB97C, 0x20, 0xCC3E, 0xC9C0, 0x20,
      0xBABB, 0xD588, 0xC2B5, 0xB2C8, 0xB2E4, 0x2E]) s2))))"

definition success_step ::
  "('c, 'l, 'w) checker_env \<Rightarrow> NormalizedConfig \<Rightarrow> time \<Rightarrow> rat \<Rightarrow> int \<Rightarrow> ('c, 'l, 'w) check_state \<Rightarrow>
   (thrown_value + MonitorCheckResult) \<times> ('c, 'l, 'w) check_state" where
  "success_step env config startedAt startedTick statusCode s =
     (case ce_now env (cs_world s) of (finishedAt, w) \<Rightarrow>
      (case ce_monotonicNow env w of (tick, w1) \<Rightarrow>
        (Inr \<lparr>rs_source = nc_source config, rs_outcome = SUCCESS,
              rs_configVersion = nc_configVersion config, rs_startedAt = startedAt,
              rs_finishedAt = finishedAt, rs_statusCode = Some statusCode, rs_ttfbMs = cs_ttfbMs s,
              rs_totalMs = max 0 (js_round (tick - startedTick)), rs_errorType = None,
              rs_errorMessageSafe = None,
              rs_finalUrlDisplay = displayUrl (ce_new_URL env) (cs_currentUrl s),
              rs_redirectCount = cs_redirects s,
              rs_inspectedBodyBytes = int (cs_inspectedBodyBytes s)\<rparr>,
         s\<lparr>cs_world := w1\<rparr>)))"

definition status_mismatch :: "int \<Rightarrow> CheckFailure" where
  "status_mismatch statusCode =
     target_failure HTTP_STATUS_MISMATCH
       ([0xAE30, 0xB300, 0x20, 0xBC94, 0xC704, 0xB97C, 0x20, 0xBC97, 0xC5B4, 0xB09C, 0x20, 0x48,
      0x54, 0x54, 0x50, 0x20, 0xC0C1, 0xD0DC, 0x20, 0xCF54, 0xB4DC, 0x28] @ js_number statusCode @ [0x29, 0xB97C, 0x20, 0xBC1B, 0xC558, 0xC2B5, 0xB2C8, 0xB2E4, 0x2E])"

definition conclude_step ::
  "('c, 'l, 'w) checker_env \<Rightarrow> NormalizedConfig \<Rightarrow> time \<Rightarrow> rat \<Rightarrow> TransportResponse \<Rightarrow>
   ('c, 'l, 'w) check_state \<Rightarrow> (thrown_value + MonitorCheckResult) \<times> ('c, 'l, 'w) check_state" where
  "conclude_step env config startedAt startedTick response s =
     (if tr_statusCode response < nc_expectedStatusMin config \<or>
         nc_expectedStatusMax config < tr_statusCode response
      then throw_failure (status_mismatch (tr_statusCode response)) s
      else seq (inspect_step env config response) (\<lambda>_.
           seq (close_step env) (\<lambda>_.
           seq (release_step env) (\<lambda>_.
             success_step env config startedAt startedTick (tr_statusCode response)))) s)"

text \<open>One turn of \<open>while (true)\<close>: \<open>None\<close> is \<open>continue\<close>.\<close>

definition follows :: "NormalizedConfig \<Rightarrow> TransportResponse \<Rightarrow> jstring option" where
  "follows config response =
     (if nc_followRedirects config \<and> tr_statusCode response \<in> REDIRECT_STATUSES
      then (case firstHeader (tr_headers response) (js ''location'') of
              None \<Rightarrow> None | Some l \<Rightarrow> if l = [] then None else Some l)
      else None)"

definition check_round ::
  "('c, 'l, 'w) checker_env \<Rightarrow> NormalizedConfig \<Rightarrow> time \<Rightarrow> rat \<Rightarrow> ('c, 'l, 'w) check_state \<Rightarrow>
   (thrown_value + MonitorCheckResult option) \<times> ('c, 'l, 'w) check_state" where
  "check_round env config startedAt startedTick =
     seq (resolve_step env) (\<lambda>d.
     seq (visit_step env d) (\<lambda>cookie.
     seq (acquire_step env d) (\<lambda>_.
     seq (request_step env config startedTick d cookie) (\<lambda>response.
       case follows config response of
         Some location \<Rightarrow>
           seq (redirect_step env config d response location) (\<lambda>_ s. (Inr None, s))
       | None \<Rightarrow>
           seq (conclude_step env config startedAt startedTick response) (\<lambda>r s. (Inr (Some r), s))))))"

section \<open>Lemmas on the steps\<close>

lemma seq_InrE:
  assumes "seq m k s = (Inr y, s2)"
  obtains x s1 where "m s = (Inr x, s1)" "k x s1 = (Inr y, s2)"
  using assms by (auto simp: seq_def split: prod.splits sum.splits)

lemma seq_InlE:
  assumes "seq m k s = (Inl e, s2)"
  obtains "m s = (Inl e, s2)" | x s1 where "m s = (Inr x, s1)" "k x s1 = (Inl e, s2)"
  using assms by (auto simp: seq_def split: prod.splits sum.splits)

lemma redirect_step_counts:
  "redirect_step env config d response location s = (Inr x, s') \<Longrightarrow>
   cs_redirects s < nc_maxRedirects config \<and> cs_redirects s' = cs_redirects s + 1"
  by (auto simp: redirect_step_def throw_failure_def Let_def close_step_def release_step_def on_world_def
      split: if_splits option.splits prod.splits sum.splits elim!: seq_InrE)

lemma early_steps_redirects:
  "resolve_step env s = (x1, s1) \<Longrightarrow> cs_redirects s1 = cs_redirects s"
  "visit_step env d s = (x2, s1) \<Longrightarrow> cs_redirects s1 = cs_redirects s"
  "acquire_step env d s = (x3, s1) \<Longrightarrow> cs_redirects s1 = cs_redirects s"
  "request_step env config startedTick d cookie s = (x4, s1) \<Longrightarrow> cs_redirects s1 = cs_redirects s"
  by (auto simp: resolve_step_def visit_step_def acquire_step_def request_step_def seq_def on_world_def
      throw_failure_def Let_def split: sum.splits prod.splits option.splits if_splits)

text \<open>A round that goes on has used up one redirect, and there was one left.\<close>

lemma check_round_continues:
  assumes "check_round env config startedAt startedTick s = (Inr None, s')"
  shows "cs_redirects s < nc_maxRedirects config" "cs_redirects s' = cs_redirects s + 1"
proof -
  have "cs_redirects s < nc_maxRedirects config \<and> cs_redirects s' = cs_redirects s + 1"
    using assms unfolding check_round_def
    by (auto elim!: seq_InrE split: option.splits dest!: early_steps_redirects redirect_step_counts)
  then show "cs_redirects s < nc_maxRedirects config" "cs_redirects s' = cs_redirects s + 1" by simp_all
qed

section \<open>The loop\<close>

function check_loop ::
  "('c, 'l, 'w) checker_env \<Rightarrow> NormalizedConfig \<Rightarrow> time \<Rightarrow> rat \<Rightarrow> ('c, 'l, 'w) check_state \<Rightarrow>
   (thrown_value + MonitorCheckResult) \<times> ('c, 'l, 'w) check_state" where
  "check_loop env config startedAt startedTick s =
     (case check_round env config startedAt startedTick s of
        (Inl e, s') \<Rightarrow> (Inl e, s')
      | (Inr (Some r), s') \<Rightarrow> (Inr r, s')
      | (Inr None, s') \<Rightarrow> check_loop env config startedAt startedTick s')"
  by pat_completeness auto
termination
  by (relation "measure (\<lambda>(env, config, startedAt, startedTick, s).
        nat (nc_maxRedirects config - cs_redirects s))")
    (simp_all add: check_round_continues[OF sym])

declare check_loop.simps [simp del]

section \<open>The check\<close>

text \<open>The handler of what the loop throws.\<close>

definition close_quietly :: "('c, 'l, 'w) checker_env \<Rightarrow> ('c, 'l, 'w) check_state \<Rightarrow> ('c, 'l, 'w) check_state" where
  "close_quietly env s =
     (if cs_response s
      then s\<lparr>cs_response := False, cs_world := snd (ce_close env (ce_destroy env (cs_world s)))\<rparr> else s)"

definition release_failed ::
  "('c, 'l, 'w) checker_env \<Rightarrow> thrown_value \<Rightarrow> ('c, 'l, 'w) check_state \<Rightarrow> thrown_value \<times> ('c, 'l, 'w) check_state" where
  "release_failed env error s =
     (case release_step env s of
        (Inl e, s1) \<Rightarrow> (e, s1\<lparr>cs_lease := None\<rparr>) | (Inr _, s1) \<Rightarrow> (error, s1))"

definition redirected_policy :: "int \<Rightarrow> thrown_value \<Rightarrow> thrown_value" where
  "redirected_policy redirects error =
     (case error of Failure f \<Rightarrow>
        if fa_class f = UrlPolicyError \<and> 0 < redirects
        then Failure (redirect_policy_error [0xB9AC, 0xB2E4, 0xC774, 0xB809, 0xD2B8, 0x20, 0xB300, 0xC0C1, 0x20, 0x55, 0x52, 0x4C,
      0xC744, 0x20, 0xAC80, 0xC0AC, 0xD560, 0x20, 0xC218, 0x20, 0xC5C6, 0xC2B5, 0xB2C8,
      0xB2E4, 0x2E]) else error
      | _ \<Rightarrow> error)"

definition fail_check ::
  "('c, 'l, 'w) checker_env \<Rightarrow> NormalizedConfig \<Rightarrow> time \<Rightarrow> rat \<Rightarrow> thrown_value \<Rightarrow>
   ('c, 'l, 'w) check_state \<Rightarrow> MonitorCheckResult \<times> ('c, 'l, 'w) check_state" where
  "fail_check env config startedAt startedTick error s =
     (case release_failed env error (close_quietly env s) of (effective, s1) \<Rightarrow>
      (let failure = classifyUnknownError (redirected_policy (cs_redirects s1) effective)
                       (ce_aborted env (cs_world s1))
       in case ce_now env (cs_world s1) of (finishedAt, w) \<Rightarrow>
         (case ce_monotonicNow env w of (tick, w1) \<Rightarrow>
           (failure_result (ce_new_URL env) failure config startedAt finishedAt (tick - startedTick)
              (cs_statusCode s1) (cs_ttfbMs s1) (cs_currentUrl s1) (cs_redirects s1)
              (cs_inspectedBodyBytes s1),
            s1\<lparr>cs_world := w1\<rparr>))))"

text \<open>The \<open>finally\<close> block.\<close>

definition cleanup :: "('c, 'l, 'w) checker_env \<Rightarrow> ('c, 'l, 'w) check_state \<Rightarrow> 'w" where
  "cleanup env s =
     (let s1 = close_quietly env (s\<lparr>cs_world := ce_disarm env (cs_world s)\<rparr>)
      in case cs_lease s1 of None \<Rightarrow> cs_world s1
       | Some lease \<Rightarrow> snd (ce_release env lease (cs_world s1)))"

definition start_state :: "('c, 'l, 'w) checker_env \<Rightarrow> NormalizedConfig \<Rightarrow> 'w \<Rightarrow> ('c, 'l, 'w) check_state" where
  "start_state env config w =
     \<lparr>cs_currentUrl = nc_url config, cs_statusCode = None, cs_ttfbMs = None, cs_redirects = 0,
      cs_inspectedBodyBytes = 0, cs_response = False, cs_lease = None, cs_visited = [],
      cs_cookies = ce_new_jar env, cs_world = ce_arm env (nc_timeoutMs config) w\<rparr>"

definition run_check ::
  "('c, 'l, 'w) checker_env \<Rightarrow> NormalizedConfig \<Rightarrow> time \<Rightarrow> rat \<Rightarrow> 'w \<Rightarrow> MonitorCheckResult \<times> 'w" where
  "run_check env config startedAt startedTick w =
     (case check_loop env config startedAt startedTick (start_state env config w) of
        (Inr r, s) \<Rightarrow> (r, cleanup env s)
      | (Inl e, s) \<Rightarrow>
         (case fail_check env config startedAt startedTick e s of (r, s1) \<Rightarrow> (r, cleanup env s1)))"

definition checkUrl ::
  "('c, 'l, 'w) checker_env \<Rightarrow> MonitorCheckConfig \<Rightarrow> 'w \<Rightarrow> MonitorCheckResult \<times> 'w" where
  "checkUrl env input w =
     (case ce_now env w of (startedAt, w1) \<Rightarrow>
      (case ce_monotonicNow env w1 of (startedTick, w2) \<Rightarrow>
        (case normalizeConfig input of
           Inr config \<Rightarrow> run_check env config startedAt startedTick w2
         | Inl f \<Rightarrow>
           (case ce_now env w2 of (finishedAt, w3) \<Rightarrow>
            (case ce_monotonicNow env w3 of (tick, w4) \<Rightarrow>
              (failure_result (ce_new_URL env) (classifyUnknownError (Failure f) False)
                 (fallback_config input) startedAt finishedAt (tick - startedTick) None None
                 (cf_url input) 0 0, w4))))))"

section \<open>Results\<close>

definition isStateBearingResult :: "MonitorCheckResult \<Rightarrow> bool" where
  "isStateBearingResult result \<longleftrightarrow>
     rs_source result = SCHEDULED \<and> (rs_outcome result = SUCCESS \<or> rs_outcome result = TARGET_FAILURE)"

definition safeFailure ::
  "CheckOutcome \<Rightarrow> CheckErrorType \<Rightarrow> jstring \<Rightarrow> CheckOutcome \<times> CheckErrorType \<times> jstring" where
  "safeFailure outcome errorType message =
     (outcome, errorType, take 500 (map (\<lambda>c. if c = 13 \<or> c = 10 \<or> c = 9 then 32 else c) message))"

section \<open>Contracts of steps\<close>

text \<open>From \<open>P\<close>, a step returns with \<open>Q\<close> or throws with \<open>E\<close>.\<close>

definition triple ::
  "('s \<Rightarrow> bool) \<Rightarrow> ('s \<Rightarrow> ('e + 'a) \<times> 's) \<Rightarrow> ('a \<Rightarrow> 's \<Rightarrow> bool) \<Rightarrow> ('e \<Rightarrow> 's \<Rightarrow> bool) \<Rightarrow> bool" where
  "triple P m Q E \<longleftrightarrow>
     (\<forall>s. P s \<longrightarrow> (case m s of (Inl e, s') \<Rightarrow> E e s' | (Inr x, s') \<Rightarrow> Q x s'))"

lemma triple_seq:
  "triple P m Q E \<Longrightarrow> (\<And>x. triple (Q x) (k x) R E) \<Longrightarrow> triple P (seq m k) R E"
  by (fastforce simp: triple_def seq_def split: prod.splits sum.splits)

lemma triple_return: "(\<And>s. P s \<Longrightarrow> Q x (f s)) \<Longrightarrow> triple P (\<lambda>s. (Inr x, f s)) Q E"
  by (simp add: triple_def)

lemma triple_throw: "(\<And>s. P s \<Longrightarrow> E (Failure e) s) \<Longrightarrow> triple P (throw_failure e) Q E"
  by (simp add: triple_def throw_failure_def)

lemma triple_weaken:
  "triple P m Q E \<Longrightarrow> (\<And>s. P' s \<Longrightarrow> P s) \<Longrightarrow> (\<And>x s. Q x s \<Longrightarrow> Q' x s) \<Longrightarrow>
   (\<And>e s. E e s \<Longrightarrow> E' e s) \<Longrightarrow> triple P' m Q' E'"
  by (fastforce simp: triple_def split: prod.splits sum.splits)

lemma triple_InrD: "triple P m Q E \<Longrightarrow> P s \<Longrightarrow> m s = (Inr x, s') \<Longrightarrow> Q x s'"
  by (fastforce simp: triple_def)

lemma triple_InlD: "triple P m Q E \<Longrightarrow> P s \<Longrightarrow> m s = (Inl e, s') \<Longrightarrow> E e s'"
  by (fastforce simp: triple_def)

text \<open>An invariant of rounds is an invariant of the loop.\<close>

lemma triple_loop:
  assumes "triple P (check_round env config startedAt startedTick)
     (\<lambda>x s. case x of None \<Rightarrow> P s | Some r \<Rightarrow> Q r s) E"
  shows "triple P (check_loop env config startedAt startedTick) Q E"
proof -
  have "case check_loop env config startedAt startedTick s of
      (Inl e, s') \<Rightarrow> E e s' | (Inr x, s') \<Rightarrow> Q x s'" if "P s" for s
    using that
  proof (induction "nat (nc_maxRedirects config - cs_redirects s)" arbitrary: s rule: less_induct)
    case less
    obtain x s' where round: "check_round env config startedAt startedTick s = (x, s')"
      by (cases "check_round env config startedAt startedTick s")
    show ?case
    proof (cases x)
      case (Inl e)
      with round triple_InlD[OF assms less.prems] show ?thesis by (simp add: check_loop.simps)
    next
      case (Inr y)
      with round have y: "check_round env config startedAt startedTick s = (Inr y, s')" by simp
      show ?thesis
      proof (cases y)
        case None
        with y have none: "check_round env config startedAt startedTick s = (Inr None, s')" by simp
        have "P s'" using triple_InrD[OF assms less.prems none] by simp
        then show ?thesis
          using less.hyps[of s'] check_round_continues[OF none] none by (simp add: check_loop.simps[of _ _ _ _ s])
      next
        case (Some r)
        with y triple_InrD[OF assms less.prems y] show ?thesis by (simp add: check_loop.simps)
      qed
    qed
  qed
  then show ?thesis by (simp add: triple_def)
qed

text \<open>A round, step by step.\<close>

lemma triple_round:
  assumes "triple P (resolve_step env) (\<lambda>d. P1) E"
    and "\<And>d. triple P1 (visit_step env d) (\<lambda>c. P2) E"
    and "\<And>d. triple P2 (acquire_step env d) (\<lambda>_. P3) E"
    and "\<And>d c. triple P3 (request_step env config startedTick d c) P4 E"
    and "\<And>d response location. triple (P4 response) (redirect_step env config d response location) (\<lambda>_. P) E"
    and "\<And>response. triple (P4 response) (conclude_step env config startedAt startedTick response) Q E"
  shows "triple P (check_round env config startedAt startedTick)
     (\<lambda>x s. case x of None \<Rightarrow> P s | Some r \<Rightarrow> Q r s) E"
proof -
  have "triple (P4 response)
      (case follows config response of
         Some location \<Rightarrow> seq (redirect_step env config d response location) (\<lambda>_ s. (Inr None, s))
       | None \<Rightarrow> seq (conclude_step env config startedAt startedTick response) (\<lambda>r s. (Inr (Some r), s)))
      (\<lambda>x s. case x of None \<Rightarrow> P s | Some r \<Rightarrow> Q r s) E" for d response
    by (auto split: option.splits intro!: triple_seq[OF assms(5)] triple_seq[OF assms(6)] triple_return)
  then show ?thesis
    unfolding check_round_def by (intro triple_seq[OF assms(1)] triple_seq[OF assms(2)]
        triple_seq[OF assms(3)] triple_seq[OF assms(4)])
qed

section \<open>Bounds\<close>

definition within_bounds :: "NormalizedConfig \<Rightarrow> ('c, 'l, 'w) check_state \<Rightarrow> bool" where
  "within_bounds config s \<longleftrightarrow>
     0 \<le> cs_redirects s \<and> cs_redirects s \<le> nc_maxRedirects config \<and>
     cs_inspectedBodyBytes s \<le> MAX_BODY_BYTES \<and> (\<forall>t. cs_ttfbMs s = Some t \<longrightarrow> 0 \<le> t)"

lemma search_chunks_bound:
  "search_chunks keyword e chunks d n overlap = Result found m \<Longrightarrow> n \<le> MAX_BODY_BYTES \<Longrightarrow> m \<le> MAX_BODY_BYTES"
proof (induction chunks arbitrary: d n overlap)
  case Nil
  then show ?case by (auto simp: search_tail_def split: body_end.splits)
next
  case (Cons c chunks)
  obtain aborted chunk where c: "c = (aborted, chunk)" by (cases c)
  have "n + length (take (nat (int MAX_BODY_BYTES - int n)) chunk) \<le> MAX_BODY_BYTES" using Cons.prems(2) by auto
  with Cons show ?case by (auto simp: c search_tail_def Let_def split: if_splits)
qed

lemma inspectKeyword_bound:
  "inspectKeyword decompress headers body keyword = Inr (found, m) \<Longrightarrow> m \<le> MAX_BODY_BYTES"
  by (auto simp: inspectKeyword_def Let_def dest: search_chunks_bound
      split: option.splits sum.splits search_result.splits)

lemmas step_splits = sum.splits prod.splits option.splits if_splits

lemma bounds_resolve: "triple (within_bounds config) (resolve_step env) (\<lambda>_. within_bounds config) (\<lambda>_. within_bounds config)"
  by (auto simp: triple_def resolve_step_def seq_def on_world_def throw_failure_def within_bounds_def split: step_splits)

lemma bounds_visit: "triple (within_bounds config) (visit_step env d) (\<lambda>_. within_bounds config) (\<lambda>_. within_bounds config)"
  by (auto simp: triple_def visit_step_def throw_failure_def Let_def within_bounds_def split: step_splits)

lemma bounds_acquire: "triple (within_bounds config) (acquire_step env d) (\<lambda>_. within_bounds config) (\<lambda>_. within_bounds config)"
  by (auto simp: triple_def acquire_step_def within_bounds_def split: step_splits)

lemma bounds_release: "triple (within_bounds config) (release_step env) (\<lambda>_. within_bounds config) (\<lambda>_. within_bounds config)"
  by (auto simp: triple_def release_step_def within_bounds_def split: step_splits)

lemma bounds_close: "triple (within_bounds config) (close_step env) (\<lambda>_. within_bounds config) (\<lambda>_. within_bounds config)"
  by (auto simp: triple_def close_step_def seq_def on_world_def within_bounds_def split: step_splits)

lemma bounds_request:
  "triple (within_bounds config) (request_step env config startedTick d c) (\<lambda>_. within_bounds config) (\<lambda>_. within_bounds config)"
  by (auto simp: triple_def request_step_def throw_failure_def Let_def within_bounds_def split: step_splits)

lemma bounds_inspect:
  "triple (within_bounds config) (inspect_step env config response) (\<lambda>_. within_bounds config) (\<lambda>_. within_bounds config)"
  by (auto simp: triple_def inspect_step_def throw_failure_def Let_def within_bounds_def
      dest: inspectKeyword_bound split: step_splits)

text \<open>The redirect, once it is known that it may be followed.\<close>

lemma triple_redirect:
  fixes env :: "('c, 'l, 'w) checker_env"
  assumes follow: "\<And>u. triple R (seq (close_step env) (\<lambda>_. seq (release_step env) (\<lambda>_ s.
      (Inr (), s\<lparr>cs_currentUrl := u, cs_redirects := cs_redirects s + 1\<rparr>)))) (\<lambda>_. Q) E"
    and start: "\<And>s c. P s \<Longrightarrow> cs_redirects s < nc_maxRedirects config \<Longrightarrow>
      R (s\<lparr>cs_cookies := c, cs_world := ce_destroy env (cs_world s)\<rparr>)"
    and refuse: "\<And>f s. P s \<Longrightarrow> E (Failure f) s"
  shows "triple P (redirect_step env config d response location) (\<lambda>_. Q) E"
  unfolding triple_def
proof (intro allI impI)
  fix s :: "('c, 'l, 'w) check_state"
  assume s: "P s"
  show "case redirect_step env config d response location s of
      (Inl e, s') \<Rightarrow> E e s' | (Inr x, s') \<Rightarrow> Q s'"
  proof (cases "cs_redirects s < nc_maxRedirects config")
    case False
    with s refuse show ?thesis by (simp add: redirect_step_def throw_failure_def)
  next
    case True
    from follow[unfolded triple_def, rule_format, OF start[OF s True]] s True refuse show ?thesis
      by (auto simp: redirect_step_def throw_failure_def Let_def split: option.splits)
  qed
qed

lemma bounds_redirect:
  "triple (within_bounds config) (redirect_step env config d response location)
     (\<lambda>_. within_bounds config) (\<lambda>_. within_bounds config)"
proof (rule triple_redirect[where R = "\<lambda>s. within_bounds config s \<and> cs_redirects s < nc_maxRedirects config"])
  show "triple (\<lambda>s. within_bounds config s \<and> cs_redirects s < nc_maxRedirects config)
     (seq (close_step env) (\<lambda>_. seq (release_step env) (\<lambda>_ s.
        (Inr (), s\<lparr>cs_currentUrl := u, cs_redirects := cs_redirects s + 1\<rparr>))))
     (\<lambda>_. within_bounds config) (\<lambda>_. within_bounds config)" for u
    by (rule triple_seq[where Q = "\<lambda>_ s. within_bounds config s \<and> cs_redirects s < nc_maxRedirects config"]
        triple_seq[where Q = "\<lambda>_ s. within_bounds config s \<and> cs_redirects s < nc_maxRedirects config"])+
      (auto simp: triple_def close_step_def release_step_def seq_def on_world_def within_bounds_def
        split: step_splits)
qed (simp_all add: within_bounds_def)

definition bounded_result :: "MonitorCheckResult \<Rightarrow> bool" where
  "bounded_result r \<longleftrightarrow>
     0 \<le> rs_redirectCount r \<and> rs_redirectCount r \<le> DEFAULT_MAX_REDIRECTS \<and>
     0 \<le> rs_inspectedBodyBytes r \<and> rs_inspectedBodyBytes r \<le> int MAX_BODY_BYTES \<and>
     0 \<le> rs_totalMs r \<and> (\<forall>t. rs_ttfbMs r = Some t \<longrightarrow> 0 \<le> t)"

lemma normalized_redirects: "normalizeConfig input = Inr config \<Longrightarrow> nc_maxRedirects config \<le> DEFAULT_MAX_REDIRECTS"
  "normalizeConfig input = Inr config \<Longrightarrow> 0 \<le> nc_maxRedirects config"
  by (auto simp: normalizeConfig_def Let_def split: if_splits)

lemma bounds_success:
  "nc_maxRedirects config \<le> DEFAULT_MAX_REDIRECTS \<Longrightarrow>
   triple (within_bounds config) (success_step env config startedAt startedTick c)
     (\<lambda>r _. bounded_result r) (\<lambda>_. within_bounds config)"
  by (auto simp: triple_def success_step_def within_bounds_def bounded_result_def split: prod.splits)

lemma bounds_conclude:
  assumes "nc_maxRedirects config \<le> DEFAULT_MAX_REDIRECTS"
  shows "triple (within_bounds config) (conclude_step env config startedAt startedTick response)
     (\<lambda>r _. bounded_result r) (\<lambda>_. within_bounds config)"
proof -
  have "triple (within_bounds config)
     (seq (inspect_step env config response) (\<lambda>_. seq (close_step env) (\<lambda>_. seq (release_step env) (\<lambda>_.
        success_step env config startedAt startedTick (tr_statusCode response)))))
     (\<lambda>r _. bounded_result r) (\<lambda>_. within_bounds config)"
    by (intro triple_seq[OF bounds_inspect] triple_seq[OF bounds_close] triple_seq[OF bounds_release]
        bounds_success assms)
  then show ?thesis by (simp add: triple_def conclude_step_def throw_failure_def)
qed

lemma release_step_redirects:
  "release_step env s = (x, s') \<Longrightarrow>
   cs_redirects s' = cs_redirects s \<and> cs_inspectedBodyBytes s' = cs_inspectedBodyBytes s \<and> cs_ttfbMs s' = cs_ttfbMs s"
  by (auto simp: release_step_def split: step_splits)

lemma bounds_fail:
  assumes "within_bounds config s" "nc_maxRedirects config \<le> DEFAULT_MAX_REDIRECTS"
    and "fail_check env config startedAt startedTick error s = (r, s')"
  shows "bounded_result r"
proof -
  obtain effective s1 where s1: "release_failed env error (close_quietly env s) = (effective, s1)"
    by (cases "release_failed env error (close_quietly env s)")
  have "within_bounds config s1"
    using s1 assms(1) by (auto simp: release_failed_def close_quietly_def within_bounds_def
        split: step_splits dest!: release_step_redirects)
  with assms s1 show ?thesis
    by (auto simp: fail_check_def failure_result_def bounded_result_def within_bounds_def Let_def
        split: prod.splits)
qed

text \<open>C37. Every check of a URL comes to an end with a result within the limits, whatever the target, the
  configuration and the collaborators do: at most five redirects were followed, at most 64 KiB of body
  inspected, and no duration is negative.
\<close>

theorem check_result_bounded: "bounded_result (fst (checkUrl env input w))"
proof -
  obtain startedAt w1 where now: "ce_now env w = (startedAt, w1)" by (cases "ce_now env w")
  obtain startedTick w2 where tick: "ce_monotonicNow env w1 = (startedTick, w2)"
    by (cases "ce_monotonicNow env w1")
  show ?thesis
  proof (cases "normalizeConfig input")
    case (Inl f)
    then show ?thesis
      by (auto simp: checkUrl_def now tick failure_result_def bounded_result_def DEFAULT_MAX_REDIRECTS_def
          split: prod.splits)
  next
    case (Inr config)
    note max = normalized_redirects[OF Inr]
    have loop: "triple (within_bounds config) (check_loop env config startedAt startedTick)
        (\<lambda>r _. bounded_result r) (\<lambda>_. within_bounds config)"
      by (rule triple_loop, rule triple_round[OF bounds_resolve bounds_visit bounds_acquire bounds_request
          bounds_redirect bounds_conclude[OF max(1)]])
    have start: "within_bounds config (start_state env config w2)"
      using max by (simp add: within_bounds_def start_state_def)
    obtain x s where s: "check_loop env config startedAt startedTick (start_state env config w2) = (x, s)"
      by (cases "check_loop env config startedAt startedTick (start_state env config w2)")
    show ?thesis
    proof (cases x)
      case (Inl e)
      with s have "within_bounds config s" using triple_InlD[OF loop start] by blast
      with Inl Inr s max show ?thesis
        by (auto simp: checkUrl_def now tick run_check_def split: prod.splits intro: bounds_fail)
    next
      case (Inr r)
      with s have "bounded_result r" using triple_InrD[OF loop start] by blast
      with Inr \<open>normalizeConfig input = Inr config\<close> s show ?thesis
        by (simp add: checkUrl_def now tick run_check_def)
    qed
  qed
qed

section \<open>Success\<close>

text \<open>A round that ends in a redirect hands its state to the next one.\<close>

definition continues ::
  "('c, 'l, 'w) checker_env \<Rightarrow> NormalizedConfig \<Rightarrow> time \<Rightarrow> rat \<Rightarrow> ('c, 'l, 'w) check_state \<Rightarrow>
   ('c, 'l, 'w) check_state \<Rightarrow> bool" where
  "continues env config startedAt startedTick s s' \<longleftrightarrow>
     check_round env config startedAt startedTick s = (Inr None, s')"

text \<open>
  What the round that begins in \<open>s\<close> hears: it resolves its URL to \<open>d\<close>, and the transport answers
  the request it sends there with \<open>response\<close>, whose body is \<open>body\<close>.
\<close>

definition answered ::
  "('c, 'l, 'w) checker_env \<Rightarrow> NormalizedConfig \<Rightarrow> ('c, 'l, 'w) check_state \<Rightarrow> SafeDestination \<Rightarrow>
   TransportResponse \<Rightarrow> body_stream \<Rightarrow> bool" where
  "answered env config s d response body \<longleftrightarrow>
     (\<exists>s1 cookie s2 s3 request w. resolve_step env s = (Inr d, s1) \<and> visit_step env d s1 = (Inr cookie, s2) \<and>
        acquire_step env d s2 = (Inr (), s3) \<and> tq_method request = nc_method config \<and>
        ce_request env d request (snd (ce_monotonicNow env (cs_world s3))) = (Inr response, w) \<and>
        body = fst (ce_body env (snd (ce_monotonicNow env w))))"

definition successful ::
  "(content_coding \<Rightarrow> body_stream \<Rightarrow> body_stream) \<Rightarrow> NormalizedConfig \<Rightarrow> TransportResponse \<Rightarrow> body_stream \<Rightarrow>
   MonitorCheckResult \<Rightarrow> bool" where
  "successful decompress config response body r \<longleftrightarrow>
     rs_outcome r = SUCCESS \<and> rs_errorMessageSafe r = None \<and>
     rs_statusCode r = Some (tr_statusCode response) \<and>
     nc_expectedStatusMin config \<le> tr_statusCode response \<and>
     tr_statusCode response \<le> nc_expectedStatusMax config \<and>
     (\<forall>keyword. nc_expectedKeyword config = Some keyword \<longrightarrow>
        (\<exists>n. inspectKeyword decompress (tr_headers response) body keyword = Inr (True, n) \<and>
           rs_inspectedBodyBytes r = int n))"

lemma conclude_success:
  assumes "conclude_step env config startedAt startedTick response s = (Inr r, s')"
  shows "successful (ce_decompress env) config response (fst (ce_body env (cs_world s))) r"
    "rs_finalUrlDisplay r = displayUrl (ce_new_URL env) (cs_currentUrl s)" "rs_redirectCount r = cs_redirects s"
proof -
  have range: "nc_expectedStatusMin config \<le> tr_statusCode response"
    "tr_statusCode response \<le> nc_expectedStatusMax config"
    using assms by (auto simp: conclude_step_def throw_failure_def split: if_splits)
  with assms obtain s1 s2 s3 where
    s1: "inspect_step env config response s = (Inr (), s1)" and
    s2: "close_step env s1 = (Inr (), s2)" and s3: "release_step env s2 = (Inr (), s3)" and
    r: "success_step env config startedAt startedTick (tr_statusCode response) s3 = (Inr r, s')"
    by (auto simp: conclude_step_def elim!: seq_InrE)
  have same: "cs_inspectedBodyBytes s3 = cs_inspectedBodyBytes s1" "cs_currentUrl s3 = cs_currentUrl s1"
    "cs_redirects s3 = cs_redirects s1"
    using s2 s3 by (auto simp: close_step_def seq_def on_world_def release_step_def split: step_splits)
  have kept: "cs_currentUrl s1 = cs_currentUrl s" "cs_redirects s1 = cs_redirects s"
    using s1 by (auto simp: inspect_step_def throw_failure_def Let_def split: step_splits)
  have "inspectKeyword (ce_decompress env) (tr_headers response) (fst (ce_body env (cs_world s))) keyword =
      Inr (True, cs_inspectedBodyBytes s1)" if "nc_expectedKeyword config = Some keyword" for keyword
    using s1 that by (fastforce simp: inspect_step_def throw_failure_def Let_def split: step_splits)
  with r range same show "successful (ce_decompress env) config response (fst (ce_body env (cs_world s))) r"
    by (auto simp: success_step_def successful_def split: prod.splits)
  from r same kept show "rs_finalUrlDisplay r = displayUrl (ce_new_URL env) (cs_currentUrl s)"
    "rs_redirectCount r = cs_redirects s"
    by (auto simp: success_step_def split: prod.splits)
qed

lemma request_answered:
  assumes "request_step env config startedTick d cookie s = (Inr response, s')"
  obtains request w where "tq_method request = nc_method config"
    "ce_request env d request (snd (ce_monotonicNow env (cs_world s))) = (Inr response, w)"
    "cs_world s' = snd (ce_monotonicNow env w)" "cs_currentUrl s' = cs_currentUrl s"
proof -
  obtain tick w0 where tick: "ce_monotonicNow env (cs_world s) = (tick, w0)" by fastforce
  let ?remaining = "max 1 \<lfloor>of_int (nc_timeoutMs config) - (tick - startedTick)\<rfloor>"
  let ?request = "\<lparr>tq_method = nc_method config, tq_headersTimeoutMs = min 5000 ?remaining,
    tq_bodyTimeoutMs = ?remaining, tq_maxHeaderBytes = MAX_HEADER_BYTES,
    tq_cookie = (if cookie = [] then None else Some cookie)\<rparr>"
  obtain x w where asked: "ce_request env d ?request w0 = (x, w)" by fastforce
  show thesis
  proof (cases x)
    case (Inl e)
    with assms tick asked show ?thesis by (simp add: request_step_def)
  next
    case (Inr y)
    with assms tick asked show ?thesis
      by (intro that[of ?request w]) (auto simp: request_step_def Let_def throw_failure_def split: prod.splits if_splits)
  qed
qed

lemma round_success:
  assumes "check_round env config startedAt startedTick s = (Inr (Some r), s')"
  obtains d response body where "answered env config s d response body" "follows config response = None"
    "successful (ce_decompress env) config response body r"
    "rs_finalUrlDisplay r = displayUrl (ce_new_URL env) (url_toString (sd_url d))"
    "rs_redirectCount r = cs_redirects s"
proof -
  from assms obtain d s1 cookie s2 s3 response s4 where
    steps: "resolve_step env s = (Inr d, s1)" "visit_step env d s1 = (Inr cookie, s2)"
      "acquire_step env d s2 = (Inr (), s3)" "request_step env config startedTick d cookie s3 = (Inr response, s4)"
    and last: "follows config response = None" "conclude_step env config startedAt startedTick response s4 = (Inr r, s')"
    unfolding check_round_def by (auto elim!: seq_InrE split: option.splits)
  from request_answered[OF steps(4)] obtain request w where
    sent: "tq_method request = nc_method config"
      "ce_request env d request (snd (ce_monotonicNow env (cs_world s3))) = (Inr response, w)"
      "cs_world s4 = snd (ce_monotonicNow env w)" "cs_currentUrl s4 = cs_currentUrl s3" by blast
  note concl = conclude_success[OF last(2)]
  have "cs_currentUrl s3 = url_toString (sd_url d)"
    using steps(2,3) by (auto simp: visit_step_def acquire_step_def throw_failure_def Let_def split: step_splits)
  with concl(2) sent(4) have url: "rs_finalUrlDisplay r = displayUrl (ce_new_URL env) (url_toString (sd_url d))" by simp
  have "cs_redirects s4 = cs_redirects s" using early_steps_redirects steps by metis
  with concl(3) have count: "rs_redirectCount r = cs_redirects s" by simp
  have "answered env config s d response (fst (ce_body env (cs_world s4)))"
    unfolding answered_def sent(3) using steps(1-3) sent(1,2) by blast
  from that[OF this last(1) concl(1) url count] show thesis .
qed

lemma loop_success:
  assumes "check_loop env config startedAt startedTick s0 = (Inr r, s')"
  shows "\<exists>s. (continues env config startedAt startedTick)\<^sup>*\<^sup>* s0 s \<and>
    check_round env config startedAt startedTick s = (Inr (Some r), s')"
  using assms
proof (induction env config startedAt startedTick s0 rule: check_loop.induct)
  case (1 env config startedAt startedTick s)
  obtain x s1 where round: "check_round env config startedAt startedTick s = (x, s1)" by fastforce
  show ?case
  proof (cases x)
    case (Inl e)
    with "1.prems" round show ?thesis by (simp add: check_loop.simps)
  next
    case (Inr y)
    show ?thesis
    proof (cases y)
      case None
      with "1.prems" round Inr have "check_loop env config startedAt startedTick s1 = (Inr r, s')"
        by (subst (asm) check_loop.simps) simp
      from "1.IH"[OF round[symmetric] Inr None this] obtain t where
        "(continues env config startedAt startedTick)\<^sup>*\<^sup>* s1 t"
        "check_round env config startedAt startedTick t = (Inr (Some r), s')" by blast
      moreover have "continues env config startedAt startedTick s s1" using round Inr None by (simp add: continues_def)
      ultimately show ?thesis by (meson converse_rtranclp_into_rtranclp)
    next
      case (Some z)
      with "1.prems" round Inr have "check_round env config startedAt startedTick s = (Inr (Some r), s')"
        by (subst (asm) check_loop.simps) simp
      then show ?thesis by blast
    qed
  qed
qed

lemma fail_check_errorType:
  "fail_check env config startedAt startedTick e s = (r, s') \<Longrightarrow> rs_errorType r \<noteq> None \<and> rs_errorMessageSafe r \<noteq> None"
  by (auto simp: fail_check_def failure_result_def Let_def split: prod.splits)

text \<open>C38. A result without an error type is earned in that very check: the configuration was valid, and
the last round, which the check reached by following redirects, resolved its URL to a destination
that the policy admits, sent it a request of the configured method and got a response with a
status in the expected range that asks for no further redirect; the expected keyword, when there
is one, was found in the body of that response, read under that response's headers; and the
result reports that status, the number of bytes inspected, and the URL of that destination.\<close>

theorem success_is_earned:
  assumes "rs_errorType (fst (checkUrl env input w)) = None"
    and "ce_now env w = (startedAt, w1)" "ce_monotonicNow env w1 = (startedTick, w2)"
  shows "\<exists>config s d response body. normalizeConfig input = Inr config \<and>
     (continues env config startedAt startedTick)\<^sup>*\<^sup>* (start_state env config w2) s \<and>
     answered env config s d response body \<and> follows config response = None \<and>
     successful (ce_decompress env) config response body (fst (checkUrl env input w)) \<and>
     rs_redirectCount (fst (checkUrl env input w)) = cs_redirects s \<and>
     rs_finalUrlDisplay (fst (checkUrl env input w)) = displayUrl (ce_new_URL env) (url_toString (sd_url d))"
proof -
  note started = assms(2,3)
  obtain config where config: "normalizeConfig input = Inr config"
    using assms(1) by (cases "normalizeConfig input")
      (auto simp: checkUrl_def started failure_result_def split: prod.splits)
  obtain x s' where s': "check_loop env config startedAt startedTick (start_state env config w2) = (x, s')" by fastforce
  show ?thesis
  proof (cases x)
    case (Inl e)
    then show ?thesis
      using assms(1) s' fail_check_errorType
      by (fastforce simp: checkUrl_def started config run_check_def split: prod.splits)
  next
    case (Inr r)
    then have result: "fst (checkUrl env input w) = r" using s' by (simp add: checkUrl_def started config run_check_def)
    from loop_success[OF s'[unfolded Inr]] obtain s where
      s: "(continues env config startedAt startedTick)\<^sup>*\<^sup>* (start_state env config w2) s"
        "check_round env config startedAt startedTick s = (Inr (Some r), s')" by blast
    from round_success[OF s(2)] config s(1) show ?thesis unfolding result by metis
  qed
qed

text \<open>A configuration the policy rejects never reaches the network: the check ends inconclusive, so that it bears no
  state, with the reason of the rejection, and the only thing that has happened is that clocks were read.
\<close>

theorem invalid_config_stays_local:
  assumes "normalizeConfig input = Inl f"
  shows "rs_outcome (fst (checkUrl env input w)) = INCONCLUSIVE \<and>
     \<not> isStateBearingResult (fst (checkUrl env input w)) \<and>
     rs_errorMessageSafe (fst (checkUrl env input w)) = Some (fa_safeMessage f) \<and>
     rs_statusCode (fst (checkUrl env input w)) = None \<and>
     snd (checkUrl env input w) =
       snd (ce_monotonicNow env (snd (ce_now env (snd (ce_monotonicNow env (snd (ce_now env w)))))))"
proof -
  have "fa_outcome f = INCONCLUSIVE"
    using assms by (auto simp: normalizeConfig_def Let_def url_policy_error_def split: if_splits)
  with assms show ?thesis
    by (simp add: checkUrl_def failure_result_def isStateBearingResult_def classifyUnknownError_def
        split: prod.splits)
qed

text \<open>The codes the checker takes for a failure of the target.\<close>

definition target_code :: "jstring \<Rightarrow> bool" where
  "target_code c \<longleftrightarrow>
     c \<in> js ` {''ABORT_ERR'', ''UND_ERR_HEADERS_TIMEOUT'', ''UND_ERR_CONNECT_TIMEOUT'', ''ETIMEDOUT'',
       ''ECONNREFUSED'', ''UND_ERR_HEADERS_OVERFLOW'', ''HPE_HEADER_OVERFLOW'', ''UND_ERR_BODY_TIMEOUT'',
       ''UND_ERR_SOCKET''} \<or>
     prefix (js ''ERR_TLS'') c \<or> prefix (js ''ERR_SSL'') c \<or> c \<in> set TLS_CODES \<or> c \<in> set NETWORK_CODES"

text \<open>What counts against the target: an error that is no failure of the checker's own is a target failure exactly when
  the check was aborted by its timeout, the error is a timeout of the client, or the first code among the error and its
  causes is one of the listed ones; everything else is a platform error and can never take a monitor down.
\<close>

theorem unknown_error_classification:
  "fa_outcome (classifyUnknownError (Error_object k code cause) aborted) =
     (if aborted \<or> k \<noteq> Other_error \<or>
         (\<exists>c. nestedErrorCode (Error_object k code cause) = Some c \<and> target_code c)
      then TARGET_FAILURE else CheckOutcome.PLATFORM_ERROR)"
proof -
  have outcomes: "fa_outcome (target_failure t m) = TARGET_FAILURE"
    "fa_outcome internal_failure = CheckOutcome.PLATFORM_ERROR" for t m
    by (simp_all add: target_failure_def internal_failure_def)
  show ?thesis
  proof (cases "nestedErrorCode (Error_object k code cause)")
    case None
    then show ?thesis
      by (cases k) (simp_all add: classifyUnknownError_def error_class_of_def outcomes)
  next
    case (Some c)
    then show ?thesis
      by (cases k) (simp_all add: classifyUnknownError_def error_class_of_def target_code_def
          if_distrib[where f = fa_outcome] outcomes image_iff cong: if_cong)
  qed
qed

lemma unknown_error_classification_witness:
  "fa_outcome (classifyUnknownError
     (Error_object Other_error None (Some (Error_object Other_error (Some (js ''ECONNREFUSED'')) None))) False)
   = TARGET_FAILURE"
  unfolding unknown_error_classification
  by (simp add: nestedErrorCode_def target_code_def eval_nat_numeral)

end
