(* ===== verification/Checker_Safety.thy ===== *)
theory Checker_Safety
  imports Http_Checker
begin

text \<open>
  What a check leaves behind in the world around it: the slots of the destination limiter, over
  an interface that the Redis limiter of \<open>packages/monitoring/src/destination-limiter.ts\<close>
  implements, and the number of requests it sends.
\<close>

section \<open>Collaborators that change nothing of interest\<close>

text \<open>Every collaborator but the limiter and the transport relates the world before to the one after.\<close>

definition steady :: "('w \<Rightarrow> 'w \<Rightarrow> bool) \<Rightarrow> ('c, 'l, 'w) checker_env \<Rightarrow> bool" where
  "steady R env \<longleftrightarrow>
     (\<forall>w. R w (snd (ce_now env w)) \<and> R w (snd (ce_monotonicNow env w)) \<and>
          (\<forall>ms. R w (ce_arm env ms w)) \<and> R w (ce_disarm env w) \<and>
          (\<forall>h. R w (snd (ce_resolve env h w))) \<and> R w (snd (ce_body env w)) \<and>
          R w (ce_destroy env w) \<and> R w (snd (ce_close env w)))"

lemma steadyD:
  assumes "steady R env"
  shows "R w (snd (ce_now env w))" "R w (snd (ce_monotonicNow env w))" "R w (ce_arm env ms w)"
    "R w (ce_disarm env w)" "R w (snd (ce_resolve env h w))" "R w (snd (ce_body env w))"
    "R w (ce_destroy env w)" "R w (snd (ce_close env w))"
  using assms by (auto simp: steady_def)

lemma steady_results:
  assumes "steady R env"
  shows "ce_now env w = (x1, w') \<Longrightarrow> R w w'" "ce_monotonicNow env w = (x2, w') \<Longrightarrow> R w w'"
    "ce_resolve env h w = (x3, w') \<Longrightarrow> R w w'" "ce_body env w = (x4, w') \<Longrightarrow> R w w'"
    "ce_close env w = (x5, w') \<Longrightarrow> R w w'"
  using steadyD[OF assms, of w] by (metis snd_conv)+

section \<open>The interface of a destination limiter\<close>

text \<open>
  \<open>held w\<close> are the slots taken in a world. A lease that was acquired takes its own slots, a
  release that returned has given them back; what a limiter throws as its own error is of
  the class the program defines for it.
\<close>

locale destination_guard =
  fixes acquire :: "SafeDestination \<Rightarrow> 'w \<Rightarrow> (thrown_value + 'l) \<times> 'w"
    and release :: "'l \<Rightarrow> 'w \<Rightarrow> (thrown_value + unit) \<times> 'w"
    and slots :: "'l \<Rightarrow> 'k set"
    and held :: "'w \<Rightarrow> 'k set"
  assumes acquire_held: "acquire d w = (Inr l, w') \<Longrightarrow> held w' \<subseteq> held w \<union> slots l"
    and release_held: "release l w = (Inr (), w') \<Longrightarrow> held w' \<subseteq> held w - slots l"
    and acquire_class: "acquire d w = (Inl (Failure f), w') \<Longrightarrow> fa_class f = DestinationLimiterError \<Longrightarrow>
      fa_outcome f = CheckOutcome.PLATFORM_ERROR"
    and release_class: "release l w = (Inl (Failure f), w') \<Longrightarrow> fa_class f = DestinationLimiterError \<Longrightarrow>
      fa_outcome f = CheckOutcome.PLATFORM_ERROR"
begin

definition guards :: "('c, 'l, 'w) checker_env \<Rightarrow> bool" where
  "guards env \<longleftrightarrow> ce_acquire env = Some acquire \<and> ce_release env = release \<and>
     steady (\<lambda>w w'. held w' \<subseteq> held w) env \<and>
     (\<forall>d q w. held (snd (ce_request env d q w)) \<subseteq> held w)"

definition lease_slots :: "'l option \<Rightarrow> 'k set" where
  "lease_slots l = (case l of None \<Rightarrow> {} | Some x \<Rightarrow> slots x)"

definition accounted :: "'k set \<Rightarrow> ('c, 'l, 'w) check_state \<Rightarrow> bool" where
  "accounted h s \<longleftrightarrow> held (cs_world s) \<subseteq> h \<union> lease_slots (cs_lease s)"

definition limiter_thrown :: "thrown_value \<Rightarrow> bool" where
  "limiter_thrown e \<longleftrightarrow> (\<exists>f. e = Failure f \<and> fa_class f = DestinationLimiterError \<and>
     fa_outcome f = CheckOutcome.PLATFORM_ERROR)"

abbreviation threw_accounted :: "'k set \<Rightarrow> thrown_value \<Rightarrow> ('c, 'l, 'w) check_state \<Rightarrow> bool" where
  "threw_accounted h \<equiv> \<lambda>e s. limiter_thrown e \<or> accounted h s"

lemma guards_steady: "guards env \<Longrightarrow> steady (\<lambda>w w'. held w' \<subseteq> held w) env"
  by (simp add: guards_def)

lemma guards_limiter: "guards env \<Longrightarrow> ce_acquire env = Some acquire" "guards env \<Longrightarrow> ce_release env = release"
  by (simp_all add: guards_def)

lemmas guards_results = steady_results[OF guards_steady]
lemmas guards_quiet = steadyD[OF guards_steady]

lemma limiter_error_thrown:
  "(\<And>f. e = Failure f \<Longrightarrow> fa_class f = DestinationLimiterError \<Longrightarrow> fa_outcome f = CheckOutcome.PLATFORM_ERROR) \<Longrightarrow>
   limiter_thrown (as_limiter_error m e)"
  by (cases e) (auto simp: as_limiter_error_def limiter_thrown_def destination_limiter_error_def)

lemma accounted_frame:
  "accounted h s \<Longrightarrow> held (cs_world s') \<subseteq> held (cs_world s) \<Longrightarrow> cs_lease s' = cs_lease s \<Longrightarrow> accounted h s'"
  by (auto simp: accounted_def)

text \<open>Between two rounds no lease is held.\<close>

definition idle :: "'k set \<Rightarrow> ('c, 'l, 'w) check_state \<Rightarrow> bool" where
  "idle h s \<longleftrightarrow> accounted h s \<and> cs_lease s = None"

lemma idle_accounted: "idle h s \<Longrightarrow> accounted h s"
  by (simp add: idle_def)

lemma guard_resolve:
  assumes "guards env"
  shows "triple (idle h) (resolve_step env) (\<lambda>_. idle h) (threw_accounted h)"
  by (auto simp: triple_def resolve_step_def seq_def on_world_def throw_failure_def idle_def accounted_def
      split: step_splits dest!: guards_results(3)[OF assms]) blast+

lemma guard_visit:
  "triple (idle h) (visit_step env d) (\<lambda>_. idle h) (threw_accounted h)"
  by (auto simp: triple_def visit_step_def throw_failure_def Let_def idle_def accounted_def)

lemma guard_acquire:
  assumes "guards env"
  shows "triple (idle h) (acquire_step env d) (\<lambda>_. accounted h) (threw_accounted h)"
  by (auto simp: triple_def acquire_step_def guards_limiter[OF assms] idle_def accounted_def lease_slots_def
      split: step_splits dest!: acquire_held intro!: limiter_error_thrown dest: acquire_class)

lemma guard_request:
  assumes "guards env"
  shows "triple (accounted h) (request_step env config startedTick d c) (\<lambda>_. accounted h) (threw_accounted h)"
proof -
  have request: "ce_request env d q w = (z, w') \<Longrightarrow> held w' \<subseteq> held w" for q z w w'
    using assms unfolding guards_def by (metis snd_conv)
  show ?thesis
    by (auto simp: triple_def request_step_def throw_failure_def Let_def accounted_def
        split: step_splits dest!: guards_results(2)[OF assms] request)
qed

lemma guard_close:
  assumes "guards env"
  shows "triple (accounted h) (close_step env) (\<lambda>_. accounted h) (threw_accounted h)"
  by (auto simp: triple_def close_step_def seq_def on_world_def accounted_def split: step_splits
      dest!: guards_results(5)[OF assms]) blast+

lemma guard_release:
  assumes "guards env"
  shows "triple (accounted h) (release_step env) (\<lambda>_. idle h) (threw_accounted h)"
  by (auto simp: triple_def release_step_def guards_limiter[OF assms] idle_def accounted_def lease_slots_def
      split: step_splits dest!: release_held intro!: limiter_error_thrown dest: release_class)

lemma guard_inspect:
  assumes "guards env"
  shows "triple (accounted h) (inspect_step env config response) (\<lambda>_. accounted h) (threw_accounted h)"
  using guards_quiet(7)[OF assms]
  by (auto simp: triple_def inspect_step_def throw_failure_def Let_def accounted_def
      split: step_splits dest!: guards_results(4)[OF assms])

lemma guard_redirect:
  assumes "guards env"
  shows "triple (accounted h) (redirect_step env config d response location) (\<lambda>_. idle h) (threw_accounted h)"
proof (rule triple_redirect[where R = "accounted h"])
  show "triple (accounted h)
     (seq (close_step env) (\<lambda>_. seq (release_step env) (\<lambda>_ s.
        (Inr (), s\<lparr>cs_currentUrl := u, cs_redirects := cs_redirects s + 1\<rparr>))))
     (\<lambda>_. idle h) (threw_accounted h)" for u
    by (intro triple_seq[OF guard_close[OF assms]] triple_seq[OF guard_release[OF assms]] triple_return)
      (auto simp: idle_def accounted_def)
qed (use guards_quiet(7)[OF assms] in \<open>fastforce simp: accounted_def\<close>)+

lemma guard_success:
  assumes "guards env"
  shows "triple (idle h) (success_step env config startedAt startedTick c) (\<lambda>_. idle h) (threw_accounted h)"
  by (auto simp: triple_def success_step_def idle_def accounted_def split: prod.splits
      dest!: guards_results(1,2)[OF assms]) blast

lemma guard_conclude:
  assumes "guards env"
  shows "triple (accounted h) (conclude_step env config startedAt startedTick response) (\<lambda>_. idle h) (threw_accounted h)"
proof -
  have "triple (accounted h)
     (seq (inspect_step env config response) (\<lambda>_. seq (close_step env) (\<lambda>_. seq (release_step env) (\<lambda>_.
        success_step env config startedAt startedTick (tr_statusCode response)))))
     (\<lambda>_. idle h) (threw_accounted h)"
    by (intro triple_seq[OF guard_inspect[OF assms]] triple_seq[OF guard_close[OF assms]]
        triple_seq[OF guard_release[OF assms]] guard_success assms)
  then show ?thesis by (simp add: triple_def conclude_step_def throw_failure_def)
qed

lemma guard_loop:
  assumes "guards env"
  shows "triple (idle h) (check_loop env config startedAt startedTick) (\<lambda>_. idle h) (threw_accounted h)"
  by (rule triple_loop, rule triple_round[OF guard_resolve guard_visit guard_acquire guard_request
      guard_redirect guard_conclude]) (rule assms)+

lemma limiter_thrown_outcome:
  "limiter_thrown e \<Longrightarrow> fa_outcome (classifyUnknownError (redirected_policy n e) aborted) = CheckOutcome.PLATFORM_ERROR"
  by (auto simp: limiter_thrown_def redirected_policy_def classifyUnknownError_def)

lemma guard_fail:
  assumes "guards env" "threw_accounted h e s"
    and "fail_check env config startedAt startedTick e s = (r, s')"
    and "rs_outcome r \<noteq> CheckOutcome.PLATFORM_ERROR"
  shows "idle h s'"
proof -
  let ?s = "close_quietly env s"
  have close: "held (cs_world ?s) \<subseteq> held (cs_world s)" "cs_lease ?s = cs_lease s"
    using guards_quiet(7,8)[OF assms(1)] by (auto simp: close_quietly_def)
  obtain effective s1 where s1: "release_failed env e ?s = (effective, s1)"
    by (cases "release_failed env e ?s")
  have effective: "\<not> limiter_thrown effective"
    using assms(3,4) s1 limiter_thrown_outcome
    by (auto simp: fail_check_def failure_result_def Let_def split: prod.splits)
  obtain x s2 where x: "release_step env ?s = (x, s2)" by (cases "release_step env ?s")
  have idle1: "idle h s1"
  proof (cases x)
    case (Inl e')
    have "limiter_thrown e'"
      using x Inl by (auto simp: release_step_def guards_limiter[OF assms(1)] split: step_splits
          intro!: limiter_error_thrown dest: release_class)
    moreover have "effective = e'" using s1 x Inl by (simp add: release_failed_def)
    ultimately show ?thesis using effective by simp
  next
    case (Inr y)
    with s1 x have same: "effective = e" "s1 = s2" by (simp_all add: release_failed_def)
    with effective assms(2) have "accounted h s" by simp
    then have "accounted h ?s" using close by (auto simp: accounted_def)
    from triple_InrD[OF guard_release[OF assms(1)] this] x Inr same show ?thesis by blast
  qed
  then show ?thesis
    using assms(3) s1 by (auto simp: fail_check_def Let_def idle_def accounted_def split: prod.splits
        dest!: guards_results(1,2)[OF assms(1)]) blast
qed

lemma guard_cleanup:
  assumes "guards env" "idle h s"
  shows "held (cleanup env s) \<subseteq> h"
proof -
  have "held (cs_world s) \<subseteq> h" "cs_lease s = None" using assms(2) by (auto simp: idle_def accounted_def lease_slots_def)
  then show ?thesis
    using guards_quiet(4,7,8)[OF assms(1)]
    by (auto simp: cleanup_def close_quietly_def Let_def) blast+
qed

text \<open>A check that is not a platform error has given back every slot it took.\<close>

lemma check_gives_back:
  assumes "guards env" "rs_outcome (fst (checkUrl env input w)) \<noteq> CheckOutcome.PLATFORM_ERROR"
  shows "held (snd (checkUrl env input w)) \<subseteq> held w"
proof -
  obtain startedAt w1 where now: "ce_now env w = (startedAt, w1)" by (cases "ce_now env w")
  obtain startedTick w2 where tick: "ce_monotonicNow env w1 = (startedTick, w2)"
    by (cases "ce_monotonicNow env w1")
  have clocks: "held w2 \<subseteq> held w"
    using guards_results(1)[OF assms(1) now] guards_results(2)[OF assms(1) tick] by blast
  show ?thesis
  proof (cases "normalizeConfig input")
    case (Inl f)
    then show ?thesis
      using clocks by (auto simp: checkUrl_def now tick split: prod.splits
          dest!: guards_results(1,2)[OF assms(1)])
  next
    case (Inr config)
    have start: "idle (held w) (start_state env config w2)"
      using clocks guards_quiet(3)[OF assms(1)] by (fastforce simp: idle_def accounted_def start_state_def)
    obtain x s where s: "check_loop env config startedAt startedTick (start_state env config w2) = (x, s)"
      by (cases "check_loop env config startedAt startedTick (start_state env config w2)")
    show ?thesis
    proof (cases x)
      case (Inl e)
      have thrown: "threw_accounted (held w) e s"
        using triple_InlD[OF guard_loop[OF assms(1)] start] s Inl by blast
      obtain r s' where r: "fail_check env config startedAt startedTick e s = (r, s')"
        by (cases "fail_check env config startedAt startedTick e s")
      have result: "checkUrl env input w = (r, cleanup env s')"
        by (simp add: checkUrl_def now tick Inr run_check_def s Inl r)
      with assms(2) have "idle (held w) s'" using guard_fail[OF assms(1) thrown r] by simp
      then show ?thesis using guard_cleanup[OF assms(1)] by (simp add: result)
    next
      case (Inr r)
      have "idle (held w) s" using triple_InrD[OF guard_loop[OF assms(1)] start] s Inr by blast
      then show ?thesis
        using guard_cleanup[OF assms(1)] by (simp add: checkUrl_def now tick \<open>normalizeConfig input = Inr config\<close> run_check_def s Inr)
    qed
  qed
qed

end

section \<open>The Redis limiter\<close>

text \<open>
  The world of the Redis limiter: the time, the store, whether the signal is aborted, and, for the
  commands still to come, their random tokens and what becomes of them. A lease is dropped once its
  release returned, so its \<open>released\<close> flag is not set when it is released.
\<close>

record guard_world =
  gw_time :: time
  gw_redis :: redis
  gw_aborted :: bool
  gw_calls :: nat
  gw_uuid :: "nat \<Rightarrow> jstring"
  gw_fate :: "nat \<Rightarrow> command_fate"

definition redis_acquire ::
  "limits \<Rightarrow> (SafeDestination \<Rightarrow> CheckFailure + (jstring \<times> jstring) list) \<Rightarrow> SafeDestination \<Rightarrow>
   guard_world \<Rightarrow> (thrown_value + DestinationLease) \<times> guard_world" where
  "redis_acquire l keys_of d w =
     (case acquire_lease l keys_of (gw_uuid w (gw_calls w)) (gw_aborted w) (gw_fate w (gw_calls w))
             (gw_time w) d (gw_redis w) of
        (Inl f, r) \<Rightarrow> (Inl (Failure f), w\<lparr>gw_redis := r, gw_calls := gw_calls w + 1\<rparr>)
      | (Inr lease, r) \<Rightarrow> (Inr lease, w\<lparr>gw_redis := r, gw_calls := gw_calls w + 1\<rparr>))"

definition redis_release ::
  "DestinationLease \<Rightarrow> guard_world \<Rightarrow> (thrown_value + unit) \<times> guard_world" where
  "redis_release lease w =
     (case release_lease False (gw_fate w (gw_calls w)) (gw_time w) lease (gw_redis w) of
        (Inl f, r) \<Rightarrow> (Inl (Failure f), w\<lparr>gw_redis := r, gw_calls := gw_calls w + 1\<rparr>)
      | (Inr _, r) \<Rightarrow> (Inr (), w\<lparr>gw_redis := r, gw_calls := gw_calls w + 1\<rparr>))"

text \<open>The slots taken under a set of tokens, those this process may draw; other processes draw others.\<close>

definition slots_taken :: "jstring set \<Rightarrow> guard_world \<Rightarrow> (jstring \<times> jstring) set" where
  "slots_taken mine w =
     {(k, token). token \<in> mine \<and> (\<exists>e. (token, e) \<in> set (live_entries (gw_time w) (gw_redis w) k))}"

definition slots_of_lease :: "DestinationLease \<Rightarrow> (jstring \<times> jstring) set" where
  "slots_of_lease lease = (\<lambda>k. (k, dl_token lease)) ` set (dl_activeKeys lease)"

lemma live_entries_grant:
  "(other, e) \<in> set (live_entries t (grant_slot l t token (a, b) r) k) \<Longrightarrow>
   (other, e) \<in> set (live_entries t r k) \<or> (other = token \<and> k = a)"
  by (auto simp: live_entries_def zset_at_def live_def grant_slot_zsets split: option.splits if_splits)

lemma live_entries_grants:
  "(other, e) \<in> set (live_entries t (fold (grant_slot l t token) keys r) k) \<Longrightarrow>
   (other, e) \<in> set (live_entries t r k) \<or> (other = token \<and> k \<in> fst ` set keys)"
  by (induction keys arbitrary: r) (fastforce dest: live_entries_grant)+

lemma live_entries_release:
  "(other, e) \<in> set (live_entries t (release_script t keys token r) k) \<Longrightarrow>
   (other, e) \<in> set (live_entries t r k) \<and> \<not> (other = token \<and> k \<in> set keys)"
  unfolding release_script_def
  by (induction keys arbitrary: r) (fastforce simp: live_entries_def zset_at_zrem split: if_splits)+

lemma acquire_lease_taken:
  assumes "acquire_lease l keys_of token aborted fate t d r = (Inr lease, r')"
    and "(other, e) \<in> set (live_entries t r' k)"
  shows "(other, e) \<in> set (live_entries t r k) \<or> (other = dl_token lease \<and> k \<in> set (dl_activeKeys lease))"
  using assms(1)
proof (cases rule: acquire_lease_script)
  case 1
  then show ?thesis by simp
next
  case (2 keys x)
  then have lease: "lease = \<lparr>dl_activeKeys = map fst keys, dl_token = token\<rparr>" and x: "fst x = 1" by simp_all
  from 2(2) show ?thesis
  proof (cases rule: acquire_script_cases)
    case 1
    with x show ?thesis by simp
  next
    case (2 r1)
    then have "live_entries t r1 k = live_entries t r k" using check_limits_kept by blast
    then show ?thesis using live_entries_grants assms(2) 2(3) lease by fastforce
  qed
qed

lemma acquire_lease_class:
  "acquire_lease l keys_of token aborted fate t d r = (Inl f, r') \<Longrightarrow>
   (\<And>d f. keys_of d = Inl f \<Longrightarrow> fa_outcome f = CheckOutcome.PLATFORM_ERROR) \<Longrightarrow>
   fa_outcome f = CheckOutcome.PLATFORM_ERROR"
  by (auto simp: acquire_lease_def destination_limiter_error_def split: sum.splits prod.splits option.splits if_splits)

lemma release_lease_returned:
  "release_lease False fate t lease r = (Inr b, r') \<Longrightarrow>
   r' = release_script t (dl_activeKeys lease) (dl_token lease) r"
  by (auto simp: release_lease_def runCommand_def split: option.splits prod.splits if_splits command_fate.splits)

lemma destinationKeys_class:
  "destinationKeys digest new_URL isIP d = Inl f \<Longrightarrow> fa_outcome f = CheckOutcome.PLATFORM_ERROR"
  by (auto simp: destinationKeys_def destinationSubjects_def destination_limiter_error_def
      split: sum.splits option.splits if_splits)

interpretation redis_guard: destination_guard "redis_acquire l (destinationKeys digest new_URL isIP)"
  redis_release slots_of_lease "slots_taken mine" for l digest new_URL isIP mine
proof (unfold_locales, goal_cases)
  case (1 d w lease w')
  then have w': "gw_time w' = gw_time w" and "acquire_lease l (destinationKeys digest new_URL isIP)
      (gw_uuid w (gw_calls w)) (gw_aborted w) (gw_fate w (gw_calls w)) (gw_time w) d (gw_redis w)
      = (Inr lease, gw_redis w')"
    by (auto simp: redis_acquire_def split: prod.splits sum.splits)
  then show ?case using acquire_lease_taken by (fastforce simp: slots_taken_def slots_of_lease_def)
next
  case (2 lease w w')
  then obtain b where w': "gw_time w' = gw_time w" and "release_lease False (gw_fate w (gw_calls w)) (gw_time w) lease
      (gw_redis w) = (Inr b, gw_redis w')"
    by (auto simp: redis_release_def split: prod.splits sum.splits)
  then have "gw_redis w' = release_script (gw_time w) (dl_activeKeys lease) (dl_token lease) (gw_redis w)"
    using release_lease_returned by blast
  then show ?case
    using w' by (auto simp: slots_taken_def slots_of_lease_def dest!: live_entries_release)
next
  case (3 d w f w')
  then show ?case
    by (auto simp: redis_acquire_def split: prod.splits sum.splits
        dest!: acquire_lease_class dest: destinationKeys_class)
next
  case (4 lease w f w')
  then show ?case
    by (auto simp: redis_release_def release_lease_def runCommand_def destination_limiter_error_def
        split: prod.splits sum.splits option.splits if_splits command_fate.splits)
qed

text \<open>A checker on the Redis limiter; nothing else it uses takes slots with its tokens.\<close>

definition redis_checker ::
  "limits \<Rightarrow> (jstring \<Rightarrow> jstring) \<Rightarrow> (jstring \<Rightarrow> Url option) \<Rightarrow> (jstring \<Rightarrow> nat) \<Rightarrow> jstring set \<Rightarrow>
   ('c, DestinationLease, guard_world) checker_env \<Rightarrow> bool" where
  "redis_checker l digest new_URL isIP mine env \<longleftrightarrow>
     ce_acquire env = Some (redis_acquire l (destinationKeys digest new_URL isIP)) \<and>
     ce_release env = redis_release \<and>
     steady (\<lambda>w w'. slots_taken mine w' \<subseteq> slots_taken mine w) env \<and>
     (\<forall>d q w. slots_taken mine (snd (ce_request env d q w)) \<subseteq> slots_taken mine w)"

text \<open>C39. A result that can move a monitor's state was reached with every slot given back: when a check on the Redis
  limiter does not end as a platform error, no slot it took in any of its rounds is taken any more, whatever was lost
  or left unanswered on the way.
\<close>

theorem slots_given_back:
  assumes "redis_checker l digest new_URL isIP mine env"
    and "rs_outcome (fst (checkUrl env input w)) \<noteq> CheckOutcome.PLATFORM_ERROR"
  shows "slots_taken mine (snd (checkUrl env input w)) \<subseteq> slots_taken mine w"
  using assms
  by (intro redis_guard.check_gives_back) (simp_all add: redis_checker_def redis_guard.guards_def)

section \<open>Requests\<close>

text \<open>A count of the requests a world has seen: only the transport raises it, by one each time.\<close>

definition meters :: "('w \<Rightarrow> nat) \<Rightarrow> ('c, 'l, 'w) checker_env \<Rightarrow> bool" where
  "meters requests env \<longleftrightarrow> steady (\<lambda>w w'. requests w' \<le> requests w) env \<and>
     (\<forall>d q w. requests (snd (ce_request env d q w)) \<le> requests w + 1) \<and>
     (\<forall>acquire d w. ce_acquire env = Some acquire \<longrightarrow> requests (snd (acquire d w)) \<le> requests w) \<and>
     (\<forall>l w. requests (snd (ce_release env l w)) \<le> requests w)"

lemma metersD:
  assumes "meters requests env"
  shows "ce_request env d q w = (x, w') \<Longrightarrow> requests w' \<le> requests w + 1"
    "ce_acquire env = Some acquire \<Longrightarrow> acquire d w = (y, w') \<Longrightarrow> requests w' \<le> requests w"
    "ce_release env l w = (z, w') \<Longrightarrow> requests w' \<le> requests w"
  using assms unfolding meters_def by (metis snd_conv)+

lemma meters_steady: "meters requests env \<Longrightarrow> steady (\<lambda>w w'. requests w' \<le> requests w) env"
  by (simp add: meters_def)

lemmas meters_results = steady_results[OF meters_steady]
lemmas meters_quiet = steadyD[OF meters_steady]

definition sent :: "('w \<Rightarrow> nat) \<Rightarrow> nat \<Rightarrow> NormalizedConfig \<Rightarrow> nat \<Rightarrow> ('c, 'l, 'w) check_state \<Rightarrow> bool" where
  "sent requests n config k s \<longleftrightarrow>
     int (requests (cs_world s)) \<le> int n + cs_redirects s + int k \<and> 0 \<le> cs_redirects s \<and>
     cs_redirects s \<le> nc_maxRedirects config"

lemma sent_weaken: "sent requests n config 0 s \<Longrightarrow> sent requests n config 1 s"
  by (simp add: sent_def)

lemmas sent_steps = triple_def seq_def on_world_def throw_failure_def sent_def Let_def

lemma sent_resolve:
  assumes "meters requests env"
  shows "triple (sent requests n config 0) (resolve_step env) (\<lambda>_. sent requests n config 0) (\<lambda>_. sent requests n config 1)"
  by (auto simp: resolve_step_def sent_steps split: step_splits dest!: meters_results(3)[OF assms])

lemma sent_visit:
  "triple (sent requests n config 0) (visit_step env d) (\<lambda>_. sent requests n config 0) (\<lambda>_. sent requests n config 1)"
  by (auto simp: visit_step_def sent_steps split: step_splits)

lemma sent_acquire:
  assumes "meters requests env"
  shows "triple (sent requests n config 0) (acquire_step env d) (\<lambda>_. sent requests n config 0) (\<lambda>_. sent requests n config 1)"
  by (fastforce simp: acquire_step_def sent_steps split: step_splits dest: metersD(2)[OF assms])

lemma sent_request:
  assumes "meters requests env"
  shows "triple (sent requests n config 0) (request_step env config startedTick d c)
     (\<lambda>_. sent requests n config 1) (\<lambda>_. sent requests n config 1)"
  by (auto simp: request_step_def sent_steps split: step_splits
      dest!: metersD(1)[OF assms] meters_results(2)[OF assms])

lemma sent_close:
  assumes "meters requests env"
  shows "triple (sent requests n config k) (close_step env) (\<lambda>_. sent requests n config k) (\<lambda>_. sent requests n config k)"
  by (auto simp: close_step_def sent_steps split: step_splits dest!: meters_results(5)[OF assms])

lemma sent_release:
  assumes "meters requests env"
  shows "triple (sent requests n config k) (release_step env) (\<lambda>_. sent requests n config k) (\<lambda>_. sent requests n config k)"
  by (auto simp: release_step_def sent_steps split: step_splits dest!: metersD(3)[OF assms])

lemma sent_inspect:
  assumes "meters requests env"
  shows "triple (sent requests n config k) (inspect_step env config response)
     (\<lambda>_. sent requests n config k) (\<lambda>_. sent requests n config k)"
proof -
  have "requests (ce_destroy env w) \<le> requests w" for w using meters_quiet(7)[OF assms] .
  then show ?thesis
    by (auto simp: inspect_step_def sent_steps split: step_splits dest!: meters_results(4)[OF assms])
      (smt (verit) of_nat_mono order_trans)+
qed

lemma sent_success:
  assumes "meters requests env"
  shows "triple (sent requests n config k) (success_step env config startedAt startedTick c)
     (\<lambda>_. sent requests n config k) (\<lambda>_. sent requests n config k)"
  by (auto simp: success_step_def sent_steps split: step_splits dest!: meters_results(1,2)[OF assms])

lemma sent_redirect:
  assumes "meters requests env"
  shows "triple (sent requests n config 1) (redirect_step env config d response location)
     (\<lambda>_. sent requests n config 0) (\<lambda>_. sent requests n config 1)"
proof (rule triple_redirect[where R = "\<lambda>s. sent requests n config 1 s \<and> cs_redirects s < nc_maxRedirects config"])
  let ?R = "\<lambda>s. sent requests n config 1 s \<and> cs_redirects s < nc_maxRedirects config"
  have close: "triple ?R (close_step env) (\<lambda>_. ?R) (\<lambda>_. sent requests n config 1)"
    by (auto simp: close_step_def sent_steps split: step_splits dest!: meters_results(5)[OF assms])
  have release: "triple ?R (release_step env) (\<lambda>_. ?R) (\<lambda>_. sent requests n config 1)"
    by (auto simp: release_step_def sent_steps split: step_splits dest!: metersD(3)[OF assms])
  show "triple ?R (seq (close_step env) (\<lambda>_. seq (release_step env) (\<lambda>_ s.
        (Inr (), s\<lparr>cs_currentUrl := u, cs_redirects := cs_redirects s + 1\<rparr>))))
     (\<lambda>_. sent requests n config 0) (\<lambda>_. sent requests n config 1)" for u
    by (intro triple_seq[OF close] triple_seq[OF release] triple_return) (auto simp: sent_def)
  fix s :: "('b, 'c, 'a) check_state" and c
  assume "sent requests n config 1 s" "cs_redirects s < nc_maxRedirects config"
  then show "?R (s\<lparr>cs_cookies := c, cs_world := ce_destroy env (cs_world s)\<rparr>)"
    using meters_quiet(7)[OF assms, of "cs_world s"] by (simp add: sent_def)
qed simp

lemma sent_conclude:
  assumes "meters requests env"
  shows "triple (sent requests n config 1) (conclude_step env config startedAt startedTick response)
     (\<lambda>_. sent requests n config 1) (\<lambda>_. sent requests n config 1)"
proof -
  have "triple (sent requests n config 1)
     (seq (inspect_step env config response) (\<lambda>_. seq (close_step env) (\<lambda>_. seq (release_step env) (\<lambda>_.
        success_step env config startedAt startedTick (tr_statusCode response)))))
     (\<lambda>_. sent requests n config 1) (\<lambda>_. sent requests n config 1)"
    by (intro triple_seq[OF sent_inspect] triple_seq[OF sent_close] triple_seq[OF sent_release]
        sent_success assms)
  then show ?thesis by (simp add: triple_def conclude_step_def throw_failure_def)
qed

lemma sent_loop:
  assumes "meters requests env"
  shows "triple (sent requests n config 0) (check_loop env config startedAt startedTick)
     (\<lambda>_. sent requests n config 1) (\<lambda>_. sent requests n config 1)"
  by (rule triple_loop, rule triple_round[OF sent_resolve sent_visit sent_acquire sent_request
      sent_redirect sent_conclude]) (rule assms)+

lemma sent_close_quietly:
  assumes "meters requests env"
  shows "requests (cs_world (close_quietly env s)) \<le> requests (cs_world s)"
  using meters_quiet(7,8)[OF assms] by (auto simp: close_quietly_def) (meson order_trans)

lemma sent_fail:
  assumes "meters requests env" "fail_check env config startedAt startedTick e s = (r, s')"
  shows "requests (cs_world s') \<le> requests (cs_world s)"
proof -
  obtain x s1 where s1: "release_failed env e (close_quietly env s) = (x, s1)"
    by (cases "release_failed env e (close_quietly env s)")
  have "requests (cs_world s1) \<le> requests (cs_world (close_quietly env s))"
    using s1 by (auto simp: release_failed_def release_step_def split: step_splits dest!: metersD(3)[OF assms(1)])
  also have "\<dots> \<le> requests (cs_world s)" by (rule sent_close_quietly[OF assms(1)])
  finally show ?thesis
    using assms(2) s1 by (auto simp: fail_check_def Let_def split: prod.splits
        dest!: meters_results(1,2)[OF assms(1)])
qed

lemma sent_cleanup:
  assumes "meters requests env"
  shows "requests (cleanup env s) \<le> requests (cs_world s)"
proof -
  define s1 where "s1 = close_quietly env (s\<lparr>cs_world := ce_disarm env (cs_world s)\<rparr>)"
  have "requests (cs_world s1) \<le> requests (cs_world s)"
    using sent_close_quietly[OF assms, of "s\<lparr>cs_world := ce_disarm env (cs_world s)\<rparr>"]
      meters_quiet(4)[OF assms, of "cs_world s"] by (simp add: s1_def)
  moreover have "requests (snd (ce_release env l (cs_world s1))) \<le> requests (cs_world s1)" for l
    using assms by (simp add: meters_def)
  ultimately show ?thesis
    by (auto simp: cleanup_def Let_def s1_def[symmetric] split: option.splits intro: order_trans)
qed

text \<open>One check is a bounded load on the network: however targets redirect and collaborators behave, it sends at
  most six requests, one more than the redirects it may follow.
\<close>

theorem requests_bounded:
  assumes "meters requests env"
  shows "requests (snd (checkUrl env input w)) \<le> requests w + 6"
proof -
  obtain startedAt w1 where now: "ce_now env w = (startedAt, w1)" by (cases "ce_now env w")
  obtain startedTick w2 where tick: "ce_monotonicNow env w1 = (startedTick, w2)"
    by (cases "ce_monotonicNow env w1")
  have clocks: "requests w2 \<le> requests w"
    using meters_results(1)[OF assms now] meters_results(2)[OF assms tick] by linarith
  show ?thesis
  proof (cases "normalizeConfig input")
    case (Inl f)
    then show ?thesis
      using clocks by (auto simp: checkUrl_def now tick split: prod.splits dest!: meters_results(1,2)[OF assms])
  next
    case (Inr config)
    note max = normalized_redirects[OF Inr, unfolded DEFAULT_MAX_REDIRECTS_def]
    have start: "sent requests (requests w) config 0 (start_state env config w2)"
      using clocks meters_quiet(3)[OF assms, where w = w2 and ms = "nc_timeoutMs config"] max
      by (simp add: sent_def start_state_def)
    obtain x s where s: "check_loop env config startedAt startedTick (start_state env config w2) = (x, s)"
      by (cases "check_loop env config startedAt startedTick (start_state env config w2)")
    have "sent requests (requests w) config 1 s"
      using triple_InlD[OF sent_loop[OF assms] start] triple_InrD[OF sent_loop[OF assms] start] s
      by (cases x) blast+
    then have s6: "requests (cs_world s) \<le> requests w + 6" using max by (simp add: sent_def)
    show ?thesis
    proof (cases x)
      case (Inl e)
      obtain r s' where r: "fail_check env config startedAt startedTick e s = (r, s')"
        by (cases "fail_check env config startedAt startedTick e s")
      show ?thesis
        using sent_fail[OF assms r] sent_cleanup[OF assms, of s'] s6
        by (simp add: checkUrl_def now tick Inr run_check_def s Inl r)
    next
      case (Inr r)
      then show ?thesis
        using sent_cleanup[OF assms, of s] s6
        by (simp add: checkUrl_def now tick \<open>normalizeConfig input = Inr config\<close> run_check_def s)
    qed
  qed
qed

section \<open>Examples\<close>

definition example_url :: Url where
  "example_url = \<lparr>u_protocol = js ''http:'', u_username = [], u_password = [], u_hostname = js ''1.2.3.4'',
     u_port = [], u_pathname = js ''/'', u_search = [], u_hash = []\<rparr>"

text \<open>A target that answers 200 over a world that only the transport and the limiter change.\<close>

definition example_env ::
  "(SafeDestination \<Rightarrow> 'w \<Rightarrow> (thrown_value + 'l) \<times> 'w) option \<Rightarrow> ('l \<Rightarrow> 'w \<Rightarrow> (thrown_value + unit) \<times> 'w) \<Rightarrow>
   ('w \<Rightarrow> 'w) \<Rightarrow> (unit, 'l, 'w) checker_env" where
  "example_env acquire release seen =
     \<lparr>ce_now = (\<lambda>w. (0, w)), ce_monotonicNow = (\<lambda>w. (0, w)), ce_arm = (\<lambda>ms w. w), ce_disarm = (\<lambda>w. w),
      ce_aborted = (\<lambda>w. False),
      ce_resolve = (\<lambda>h w. (Inr [\<lparr>ra_address = js ''1.2.3.4'', ra_family = 4\<rparr>], w)),
      ce_acquire = acquire, ce_release = release,
      ce_request = (\<lambda>d q w. (Inr \<lparr>tr_statusCode = 200, tr_headers = []\<rparr>, seen w)),
      ce_body = (\<lambda>w. (\<lparr>bs_chunks = [], bs_end = Ended\<rparr>, w)), ce_destroy = (\<lambda>w. w),
      ce_close = (\<lambda>w. (Inr (), w)), ce_new_URL = (\<lambda>s. Some example_url),
      ce_relative_URL = (\<lambda>s u. Some example_url), ce_isIP = (\<lambda>s. 4), ce_new_jar = (),
      ce_cookies = (\<lambda>j u. []), ce_set_cookie = (\<lambda>v u j. j), ce_decompress = (\<lambda>c b. b)\<rparr>"

definition example_input :: MonitorCheckConfig where
  "example_input = \<lparr>cf_url = js ''http://1.2.3.4/'', cf_method = None, cf_timeoutMs = None,
     cf_expectedStatusMin = None, cf_expectedStatusMax = None, cf_expectedKeyword = None,
     cf_followRedirects = None, cf_maxRedirects = None, cf_source = None, cf_configVersion = None\<rparr>"

definition example_config :: NormalizedConfig where
  "example_config = \<lparr>nc_url = js ''http://1.2.3.4/'', nc_method = GET, nc_timeoutMs = 10000,
     nc_expectedStatusMin = 200, nc_expectedStatusMax = 299, nc_expectedKeyword = None,
     nc_followRedirects = True, nc_maxRedirects = 5, nc_source = SCHEDULED, nc_configVersion = None\<rparr>"

lemma example_normalized: "normalizeConfig example_input = Inr example_config"
  by (simp add: normalizeConfig_def example_input_def example_config_def or_default_def Let_def
      DEFAULT_TIMEOUT_MS_def MIN_TIMEOUT_MS_def MAX_TIMEOUT_MS_def DEFAULT_MAX_REDIRECTS_def)

lemma example_parse: "parseMonitorUrl (\<lambda>s. Some example_url) (\<lambda>s. 4) input = Inr example_url"
  by (simp add: parseMonitorUrl_def example_url_def web_protocol_def)

definition example_destination :: SafeDestination where
  "example_destination = \<lparr>sd_url = example_url, sd_addresses = [\<lparr>ra_address = js ''1.2.3.4'', ra_family = 4\<rparr>]\<rparr>"

lemma example_env_fields:
  "ce_now (example_env acquire release seen) = (\<lambda>w. (0, w))"
  "ce_monotonicNow (example_env acquire release seen) = (\<lambda>w. (0, w))"
  "ce_arm (example_env acquire release seen) = (\<lambda>ms w. w)"
  "ce_aborted (example_env acquire release seen) = (\<lambda>w. False)"
  "ce_acquire (example_env acquire release seen) = acquire"
  "ce_release (example_env acquire release seen) = release"
  "ce_request (example_env acquire release seen) = (\<lambda>d q w. (Inr \<lparr>tr_statusCode = 200, tr_headers = []\<rparr>, seen w))"
  "ce_destroy (example_env acquire release seen) = (\<lambda>w. w)"
  "ce_close (example_env acquire release seen) = (\<lambda>w. (Inr (), w))"
  "ce_new_URL (example_env acquire release seen) = (\<lambda>s. Some example_url)"
  "ce_cookies (example_env acquire release seen) = (\<lambda>j u. [])"
  "ce_decompress (example_env acquire release seen) = (\<lambda>c b. b)"
  "ce_new_jar (example_env acquire release seen) = ()"
  by (simp_all add: example_env_def)

lemma example_resolve: "resolve_step (example_env acquire release seen) s = (Inr example_destination, s)"
  by (simp add: resolve_step_def example_parse example_env_def seq_def on_world_def safe_destination_def
      first_occurrences_def example_destination_def)

text \<open>With a limiter that grants, the one round ends in success.\<close>

lemma example_check:
  assumes "case acquire of None \<Rightarrow> True | Some f \<Rightarrow> \<exists>l w1. f example_destination w = (Inr l, w1) \<and>
     (\<exists>w2. release l (seen w1) = (Inr (), w2))"
  shows "rs_outcome (fst (checkUrl (example_env acquire release seen) example_input w)) = SUCCESS \<and>
     rs_errorType (fst (checkUrl (example_env acquire release seen) example_input w)) = None"
proof -
  let ?env = "example_env acquire release seen"
  have round: "\<exists>r s. check_round ?env example_config 0 0 (start_state ?env example_config w) = (Inr (Some r), s) \<and>
      rs_outcome r = SUCCESS \<and> rs_errorType r = None"
  proof (cases acquire)
    case None
    then show ?thesis
      by (simp add: check_round_def seq_def example_resolve visit_step_def Let_def acquire_step_def request_step_def start_state_def
        example_env_fields example_config_def approximateHeaderBytes_def MAX_HEADER_BYTES_def
        follows_def firstHeader_def header_field_def conclude_step_def inspect_step_def close_step_def
        on_world_def release_step_def success_step_def)
  next
    case (Some f)
    with assms obtain l w1 w2 where "f example_destination w = (Inr l, w1)" "release l (seen w1) = (Inr (), w2)" by auto
    with Some show ?thesis
      by (simp add: check_round_def seq_def example_resolve visit_step_def Let_def acquire_step_def request_step_def start_state_def
        example_env_fields example_config_def approximateHeaderBytes_def MAX_HEADER_BYTES_def
        follows_def firstHeader_def header_field_def conclude_step_def inspect_step_def close_step_def
        on_world_def release_step_def success_step_def)
  qed
  then show ?thesis
    by (auto simp: checkUrl_def example_env_fields example_normalized run_check_def check_loop.simps)
qed

abbreviation example_plain :: "(unit, unit, nat) checker_env" where
  "example_plain \<equiv> example_env None (\<lambda>l w. (Inr (), w)) Suc"

lemma success_is_earned_witness:
  "\<exists>s d response body. answered example_plain example_config s d response body \<and>
     successful (\<lambda>c b. b) example_config response body (fst (checkUrl example_plain example_input 0))"
proof -
  have "rs_errorType (fst (checkUrl example_plain example_input 0)) = None"
    using example_check[where acquire = None and release = "\<lambda>(l :: unit) w. (Inr (), w)" and seen = Suc and w = 0] by simp
  moreover have "ce_now example_plain 0 = (0, 0)" "ce_monotonicNow example_plain 0 = (0, 0)"
    by (simp_all add: example_env_fields)
  ultimately show ?thesis
    using success_is_earned[of example_plain example_input 0 0 0 0 0]
    by (auto simp: example_normalized example_env_fields)
qed

lemma requests_bounded_witness:
  "snd (checkUrl example_plain example_input 0) \<le> 6"
  using requests_bounded[of "\<lambda>w. w" "example_plain" example_input 0]
  by (simp add: meters_def steady_def example_env_def)

lemma invalid_config_stays_local_witness:
  "rs_outcome (fst (checkUrl example_plain
     (example_input\<lparr>cf_timeoutMs := Some 1\<rparr>) 0)) = INCONCLUSIVE"
proof -
  obtain f where "normalizeConfig (example_input\<lparr>cf_timeoutMs := Some 1\<rparr>) = Inl f"
    by (simp add: normalizeConfig_def example_input_def or_default_def Let_def MIN_TIMEOUT_MS_def)
  from invalid_config_stays_local[OF this, of example_plain 0] show ?thesis by simp
qed

text \<open>The Redis limiter grants the slots of the example's host and address.\<close>

definition example_world :: guard_world where
  "example_world = \<lparr>gw_time = 0, gw_redis = empty_redis, gw_aborted = False, gw_calls = 0,
     gw_uuid = (\<lambda>n. replicate n 65), gw_fate = (\<lambda>n. Answered)\<rparr>"

abbreviation example_acquire :: "SafeDestination \<Rightarrow> guard_world \<Rightarrow> (thrown_value + DestinationLease) \<times> guard_world" where
  "example_acquire \<equiv> redis_acquire \<lparr>li_leaseMs = 31000, li_maxConcurrent = 2, li_maxPerWindow = 60\<rparr>
     (destinationKeys (\<lambda>s. s) (\<lambda>s. Some example_url) (\<lambda>s. 4))"

lemma example_keys_ok: "\<exists>ks. destinationKeys (\<lambda>s. s) (\<lambda>s. Some example_url) (\<lambda>s. 4) example_destination = Inr ks"
  by (simp add: destinationKeys_def destinationSubjects_def example_destination_def MAX_DESTINATION_ADDRESSES_def
      canonicalAddress_def split: option.splits list.splits)

lemma fresh_limits_pass:
  assumes "0 < li_maxConcurrent l" "0 < li_maxPerWindow l"
  shows "fst (check_limits l t keys empty_redis) = None \<and> snd (check_limits l t keys empty_redis) = empty_redis"
proof (induction keys)
  case Nil
  then show ?case by simp
next
  case (Cons ab keys)
  have rem: "zremrangebyscore t a empty_redis = empty_redis" for a
    by (simp add: zremrangebyscore_def zset_at_def live_def empty_redis_def zset_put_def fun_upd_idem)
  have none: "zset_at t empty_redis a = []" "counter_at t empty_redis a = 0" for a
    by (simp_all add: zset_at_def counter_at_def live_def empty_redis_def)
  obtain a b where "ab = (a, b)" by (cases ab)
  with Cons show ?case using assms by (simp add: rem none Let_def ensure_window_def)
qed

lemma example_grants: "\<exists>l w. example_acquire example_destination example_world = (Inr l, w) \<and> gw_fate w = (\<lambda>n. Answered)"
proof -
  obtain ks where ks: "destinationKeys (\<lambda>s. s) (\<lambda>s. Some example_url) (\<lambda>s. 4) example_destination = Inr ks"
    using example_keys_ok by blast
  have "check_limits \<lparr>li_leaseMs = 31000, li_maxConcurrent = 2, li_maxPerWindow = 60\<rparr> 0 ks empty_redis = (None, empty_redis)"
    using fresh_limits_pass[of "\<lparr>li_leaseMs = 31000, li_maxConcurrent = 2, li_maxPerWindow = 60\<rparr>" 0 ks]
    by (simp add: prod_eq_iff)
  then show ?thesis
    by (simp add: redis_acquire_def acquire_lease_def ks example_world_def runCommand_def acquire_script_def)
qed

lemma slots_given_back_witness:
  "slots_taken UNIV (snd (checkUrl (example_env (Some example_acquire) redis_release (\<lambda>w. w)) example_input example_world))
     \<subseteq> slots_taken UNIV example_world"
proof (rule slots_given_back)
  show "redis_checker \<lparr>li_leaseMs = 31000, li_maxConcurrent = 2, li_maxPerWindow = 60\<rparr> (\<lambda>s. s)
      (\<lambda>s. Some example_url) (\<lambda>s. 4) UNIV (example_env (Some example_acquire) redis_release (\<lambda>w. w))"
    by (simp add: redis_checker_def steady_def example_env_def)
  obtain l w where w: "example_acquire example_destination example_world = (Inr l, w)" "gw_fate w = (\<lambda>n. Answered)"
    using example_grants by blast
  then have "\<exists>w2. redis_release l w = (Inr (), w2)"
    by (simp add: redis_release_def release_lease_def runCommand_def)
  with w have "rs_outcome (fst (checkUrl (example_env (Some example_acquire) redis_release (\<lambda>w. w)) example_input example_world)) = SUCCESS"
    using example_check[where acquire = "Some example_acquire" and release = redis_release and seen = "\<lambda>w. w" and w = example_world]
    by simp
  then show "rs_outcome (fst (checkUrl (example_env (Some example_acquire) redis_release (\<lambda>w. w)) example_input example_world))
      \<noteq> CheckOutcome.PLATFORM_ERROR" by simp
qed

end
