(* ===== verification/Api_Core.thy ===== *)
theory Api_Core
  imports Database Web_Url Url_Policy Secret_Lifecycle
begin

text \<open>
  What the services of \<open>apps/api\<close> share: the exceptions they throw, transactions over the
  database, the authenticated user, the audit log, the address shown to users
  (\<open>common/display.ts\<close>), the sealing of strings (\<open>common/crypto.ts\<close>), the parsing of untrusted
  bodies (\<open>common/validation.ts\<close> over a schema library) and the keyset pages of the list
  operations. The schema library's issue list is not part of the exception; a schema is a
  function that refuses a value or returns what the operation receives.
\<close>

section \<open>Exceptions and transactions\<close>

datatype api_error =
    BadRequest jstring
  | Unauthorized jstring
  | Forbidden jstring
  | NotFound jstring
  | Conflict jstring
  | TooManyRequests jstring
  | BadGateway jstring
  | InvalidInput
  | CheckError CheckFailure
  | DatabaseError db_error
  | Uncaught js_error

text \<open>
  The body of \<open>prisma.$transaction\<close> runs on the database and may throw, which rolls back
  everything it wrote.
\<close>

type_synonym 'a tx = "db \<Rightarrow> api_error + 'a \<times> db"

definition transaction :: "'a tx \<Rightarrow> db \<Rightarrow> (api_error + 'a) \<times> db" where
  "transaction body d = (case body d of Inl e \<Rightarrow> (Inl e, d) | Inr (x, d') \<Rightarrow> (Inr x, d'))"

lemma transaction_Inl: "transaction body d = (Inl e, d') \<longleftrightarrow> body d = Inl e \<and> d' = d"
  by (auto simp: transaction_def split: sum.splits prod.splits)

lemma transaction_Inr: "transaction body d = (Inr x, d') \<longleftrightarrow> body d = Inr (x, d')"
  by (auto simp: transaction_def split: sum.splits prod.splits)

lemma transaction_inv:
  assumes "transaction body d = (r, d')" "P d"
    and "\<And>x. body d = Inr (x, d') \<Longrightarrow> P d'"
  shows "P d'"
proof (cases r)
  case (Inl e)
  with assms(1,2) show ?thesis by (simp add: transaction_Inl)
next
  case (Inr x)
  with assms(1,3) show ?thesis by (simp add: transaction_Inr)
qed

section \<open>Users and the audit log\<close>

record AuthenticatedUser =
  us_id :: id
  us_username :: jstring
  us_role :: AccountRole

definition audit_row ::
  "id \<Rightarrow> jstring \<Rightarrow> string \<Rightarrow> string \<Rightarrow> jstring \<Rightarrow> json option \<Rightarrow> time \<Rightarrow> AuditLog" where
  "audit_row i actorId action targetType targetId metadata now =
     \<lparr>al_id = i, al_actorId = Some actorId, al_action = js action, al_targetType = js targetType,
      al_targetId = targetId, al_metadataSafe = metadata, al_requestId = None, al_createdAt = now\<rparr>"

definition write_audit :: "AuditLog \<Rightarrow> db \<Rightarrow> db" where
  "write_audit row d = d\<lparr>auditLogs := auditLogs d @ [row]\<rparr>"

text \<open>Everything but the audit log.\<close>

definition business :: "db \<Rightarrow> db" where
  "business d = d\<lparr>auditLogs := []\<rparr>"

lemma business_audit [simp]: "business (write_audit row d) = business d"
  by (simp add: business_def write_audit_def)

lemma write_audit_frame [simp]:
  "accounts (write_audit row d) = accounts d" "loginSessions (write_audit row d) = loginSessions d"
  "monitors (write_audit row d) = monitors d" "scheduledChecks (write_audit row d) = scheduledChecks d"
  "checkResults (write_audit row d) = checkResults d" "incidents (write_audit row d) = incidents d"
  "channels (write_audit row d) = channels d"
  "monitorChannels (write_audit row d) = monitorChannels d" "outbox (write_audit row d) = outbox d"
  "networkSettings (write_audit row d) = networkSettings d" "deliveries (write_audit row d) = deliveries d"
  "auditLogs (write_audit row d) = auditLogs d @ [row]"
  by (simp_all add: write_audit_def)

section \<open>Displayed addresses\<close>

text \<open>\<open>new URL\<close> throws on a text that is no address; the result is then \<open>None\<close>.\<close>

definition toDisplayUrl :: "(jstring \<Rightarrow> Url option) \<Rightarrow> jstring \<Rightarrow> jstring option" where
  "toDisplayUrl new_URL rawUrl =
     (case new_URL rawUrl of None \<Rightarrow> None
      | Some url \<Rightarrow>
          (let hadQuery = u_search url \<noteq> []
           in Some (url_toString (url\<lparr>u_username := [], u_password := [],
                u_search := (if hadQuery then js ''?masked'' else []), u_hash := []\<rparr>))))"

section \<open>Sealing\<close>

text \<open>
  \<open>cipher\<close> is AES-256-GCM under the configured key with the initialisation vector drawn for the
  call; it gives the encoded vector, tag and ciphertext.
\<close>

type_synonym cipher = "jstring \<Rightarrow> 8 word list \<times> 8 word list \<times> 8 word list"

definition encryptString :: "cipher \<Rightarrow> jstring \<Rightarrow> 8 word list" where
  "encryptString cipher value =
     (case cipher value of (iv, tag, ciphertext) \<Rightarrow>
        [118, 49] @ [46] @ iv @ [46] @ tag @ [46] @ ciphertext)"

text \<open>The encoding has no dots, a vector and a tag are never empty, and a text of at least one
unit has a ciphertext.\<close>

definition seals :: "cipher \<Rightarrow> decipher \<Rightarrow> jstring \<Rightarrow> bool" where
  "seals cipher decipher value \<longleftrightarrow>
     (case cipher value of (iv, tag, ciphertext) \<Rightarrow>
        46 \<notin> set iv \<and> 46 \<notin> set tag \<and> 46 \<notin> set ciphertext \<and> iv \<noteq> [] \<and> tag \<noteq> [] \<and>
        (value \<noteq> [] \<longrightarrow> ciphertext \<noteq> []) \<and> decipher iv tag ciphertext = Some value)"

lemma split_on_none: "sep \<notin> set s \<Longrightarrow> split_on sep s = [s]"
  by (induction s) auto

lemma split_on_append:
  "sep \<notin> set xs \<Longrightarrow> split_on sep (xs @ sep # ys) = xs # split_on sep ys"
  by (induction xs) auto

lemma decrypt_encrypt:
  assumes "seals cipher decipher value" "value \<noteq> []"
  shows "decryptString decipher (encryptString cipher value) = Some value"
proof -
  obtain iv tag ct where c: "cipher value = (iv, tag, ct)" by (cases "cipher value") auto
  with assms have parts: "46 \<notin> set iv" "46 \<notin> set tag" "46 \<notin> set ct" "iv \<noteq> []" "tag \<noteq> []" "ct \<noteq> []"
    "decipher iv tag ct = Some value" by (simp_all add: seals_def)
  have "encryptString cipher value = [118, 49] @ 46 # (iv @ 46 # (tag @ 46 # ct))"
    by (simp add: encryptString_def c)
  also have "split_on 46 \<dots> = [[118, 49], iv, tag, ct]"
    by (subst split_on_append, simp)
      (simp only: split_on_append[OF parts(1)] split_on_append[OF parts(2)]
        split_on_none[OF parts(3)])
  finally show ?thesis
    using parts by (simp add: decryptString_def envelope_def field_def)
qed

section \<open>Reading untrusted values\<close>

text \<open>\<open>parseInput\<close> throws when the schema refuses.\<close>

definition parseInput :: "('i \<Rightarrow> 'a option) \<Rightarrow> 'i \<Rightarrow> api_error + 'a" where
  "parseInput schema input = (case schema input of Some x \<Rightarrow> Inr x | None \<Rightarrow> Inl InvalidInput)"

text \<open>\<open>Number(value)\<close> of the query parameter is given; \<open>None\<close> is a number that is not integral.\<close>

definition parseLimit :: "int option option \<Rightarrow> int \<Rightarrow> int \<Rightarrow> api_error + int" where
  "parseLimit value fallback maximum =
     (case value of None \<Rightarrow> Inr fallback
      | Some None \<Rightarrow> Inl (BadRequest ([0x6C, 0x69, 0x6D, 0x69, 0x74, 0xC740, 0x20, 0x31, 0x7E] @ js_number maximum @ [0x20, 0xC0AC, 0xC774, 0xC758, 0x20, 0xC815, 0xC218, 0xC5EC, 0xC57C, 0x20, 0xD569,
      0xB2C8, 0xB2E4, 0x2E]))
      | Some (Some parsed) \<Rightarrow>
          if parsed < 1 \<or> maximum < parsed
          then Inl (BadRequest ([0x6C, 0x69, 0x6D, 0x69, 0x74, 0xC740, 0x20, 0x31, 0x7E] @ js_number maximum @ [0x20, 0xC0AC, 0xC774, 0xC758, 0x20, 0xC815, 0xC218, 0xC5EC, 0xC57C, 0x20, 0xD569,
      0xB2C8, 0xB2E4, 0x2E]))
          else Inr parsed)"

definition string_field :: "nat \<Rightarrow> nat \<Rightarrow> json \<Rightarrow> jstring option" where
  "string_field lo hi v =
     (case v of JStr s \<Rightarrow> let t = js_trim s in if lo \<le> length t \<and> length t \<le> hi then Some t else None
      | _ \<Rightarrow> None)"

definition int_field :: "int \<Rightarrow> int \<Rightarrow> json \<Rightarrow> int option" where
  "int_field lo hi v = (case v of JNum n \<Rightarrow> if lo \<le> n \<and> n \<le> hi then Some n else None | _ \<Rightarrow> None)"

definition bool_field :: "json \<Rightarrow> bool option" where
  "bool_field v = (case v of JBool b \<Rightarrow> Some b | _ \<Rightarrow> None)"

definition uuid_field :: "(jstring \<Rightarrow> bool) \<Rightarrow> json \<Rightarrow> jstring option" where
  "uuid_field is_uuid v = (case v of JStr s \<Rightarrow> if is_uuid s then Some s else None | _ \<Rightarrow> None)"

fun each_item :: "(json \<Rightarrow> 'a option) \<Rightarrow> json list \<Rightarrow> 'a list option" where
  "each_item p [] = Some []"
| "each_item p (v # vs) =
     (case p v of None \<Rightarrow> None | Some x \<Rightarrow> map_option ((#) x) (each_item p vs))"

definition array_field :: "nat \<Rightarrow> nat \<Rightarrow> (json \<Rightarrow> 'a option) \<Rightarrow> json \<Rightarrow> 'a list option" where
  "array_field lo hi p v =
     (case v of JArr vs \<Rightarrow> if lo \<le> length vs \<and> length vs \<le> hi then each_item p vs else None
      | _ \<Rightarrow> None)"

text \<open>A member that must be there, one with a default, and one that may be missing.\<close>

definition required :: "(json \<Rightarrow> 'a option) \<Rightarrow> json option \<Rightarrow> 'a option" where
  "required p v = (case v of None \<Rightarrow> None | Some x \<Rightarrow> p x)"

definition defaulted :: "(json \<Rightarrow> 'a option) \<Rightarrow> 'a \<Rightarrow> json option \<Rightarrow> 'a option" where
  "defaulted p dflt v = (case v of None \<Rightarrow> Some dflt | Some x \<Rightarrow> p x)"

definition optional :: "(json \<Rightarrow> 'a option) \<Rightarrow> json option \<Rightarrow> 'a option option" where
  "optional p v = (case v of None \<Rightarrow> Some None | Some x \<Rightarrow> map_option Some (p x))"

text \<open>The members of a strict object; any other value, or an object with another key, is refused.\<close>

definition strict_object :: "jstring list \<Rightarrow> json \<Rightarrow> (jstring \<times> json) list option" where
  "strict_object keys v =
     (case v of JObj kvs \<Rightarrow> if list_all (\<lambda>(k, _). k \<in> set keys) kvs then Some kvs else None
      | _ \<Rightarrow> None)"

lemma string_field_Some:
  "string_field lo hi v = Some t \<Longrightarrow> lo \<le> length t \<and> length t \<le> hi \<and> (\<exists>s. v = JStr s \<and> t = js_trim s)"
  by (auto simp: string_field_def Let_def split: json.splits if_splits)

lemma int_field_Some: "int_field lo hi v = Some n \<Longrightarrow> lo \<le> n \<and> n \<le> hi \<and> v = JNum n"
  by (auto simp: int_field_def split: json.splits if_splits)

lemma int_field_JNum [simp]: "lo \<le> n \<Longrightarrow> n \<le> hi \<Longrightarrow> int_field lo hi (JNum n) = Some n"
  by (simp add: int_field_def)

lemma bool_field_JBool [simp]: "bool_field (JBool b) = Some b"
  by (simp add: bool_field_def)

lemma each_item_length: "each_item p vs = Some xs \<Longrightarrow> length xs = length vs"
  by (induction vs arbitrary: xs) (auto split: option.splits)

lemma each_item_image: "(\<And>x. x \<in> set xs \<Longrightarrow> p (f x) = Some x) \<Longrightarrow> each_item p (map f xs) = Some xs"
  by (induction xs) auto

lemma each_item_pred: "each_item p vs = Some xs \<Longrightarrow> (\<And>v x. p v = Some x \<Longrightarrow> q x) \<Longrightarrow> \<forall>x \<in> set xs. q x"
  by (induction vs arbitrary: xs) (auto split: option.splits)

lemma js_trim_ends:
  assumes "js_trim s \<noteq> []"
  shows "\<not> js_whitespace (hd (js_trim s))" "\<not> js_whitespace (last (js_trim s))"
proof -
  let ?u = "dropWhile js_whitespace s"
  let ?t = "rev (dropWhile js_whitespace (rev ?u))"
  have t: "js_trim s = ?t" by (simp add: js_trim_def)
  have ne: "dropWhile js_whitespace (rev ?u) \<noteq> []" using assms t by simp
  then show "\<not> js_whitespace (last (js_trim s))" using t hd_dropWhile[OF ne] by (simp add: last_rev)
  have u: "?u \<noteq> []" using ne by (metis dropWhile.simps(1) rev.simps(1))
  obtain pre where "rev ?u = pre @ dropWhile js_whitespace (rev ?u)"
    by (metis takeWhile_dropWhile_id)
  then have "?u = ?t @ rev pre" by (metis rev_append rev_rev_ident)
  moreover have "?t \<noteq> []" using ne by simp
  ultimately have "hd ?t = hd ?u" by (metis hd_append2)
  with t hd_dropWhile[OF u] show "\<not> js_whitespace (hd (js_trim s))" by simp
qed

lemma js_trim_idem [simp]: "js_trim (js_trim s) = js_trim s"
proof (cases "js_trim s")
  case Nil
  show ?thesis unfolding Nil by (simp add: js_trim_def)
next
  case (Cons c cs)
  then have ends: "\<not> js_whitespace (hd (c # cs))" "\<not> js_whitespace (last (c # cs))"
    using js_trim_ends[of s] by auto
  have "dropWhile js_whitespace (c # cs) = c # cs" using ends(1) by simp
  moreover have "dropWhile js_whitespace (rev (c # cs)) = rev (c # cs)"
    using ends(2) by (metis dropWhile_eq_self_iff hd_rev)
  ultimately show ?thesis unfolding Cons by (simp only: js_trim_def rev_rev_ident)
qed

lemma string_field_trim [simp]:
  "lo \<le> length s \<Longrightarrow> length s \<le> hi \<Longrightarrow> js_trim s = s \<Longrightarrow> string_field lo hi (JStr s) = Some s"
  by (simp add: string_field_def)

section \<open>Pages\<close>

text \<open>
  \<open>findMany({ orderBy, take: limit + 1, cursor, skip: 1 })\<close>: the rows are in the order asked
  for; a cursor starts after the row it names, and one that names no row gives nothing.
\<close>

definition after_cursor :: "('r \<Rightarrow> id) \<Rightarrow> id option \<Rightarrow> 'r list \<Rightarrow> 'r list" where
  "after_cursor key cursor rows =
     (case cursor of None \<Rightarrow> rows
      | Some c \<Rightarrow> if c = [] then rows else drop 1 (dropWhile (\<lambda>r. key r \<noteq> c) rows))"

definition take_page :: "nat \<Rightarrow> ('r \<Rightarrow> id) \<Rightarrow> 'r list \<Rightarrow> 'r list \<times> id option" where
  "take_page limit key fetched =
     (let hasMore = limit < length fetched;
          items = (if hasMore then take limit fetched else fetched)
      in (items, if hasMore then (if items = [] then None else Some (key (last items))) else None))"

definition find_page :: "nat \<Rightarrow> ('r \<Rightarrow> id) \<Rightarrow> id option \<Rightarrow> 'r list \<Rightarrow> 'r list \<times> id option" where
  "find_page limit key cursor rows = take_page limit key (take (limit + 1) (after_cursor key cursor rows))"

text \<open>A client that follows the cursors, with fuel for the number of pages.\<close>

fun all_pages :: "nat \<Rightarrow> (id option \<Rightarrow> 'r list \<times> id option) \<Rightarrow> id option \<Rightarrow> 'r list" where
  "all_pages 0 page cursor = []"
| "all_pages (Suc n) page cursor =
     (case page cursor of (items, None) \<Rightarrow> items | (items, Some c) \<Rightarrow> items @ all_pages n page (Some c))"

lemma after_cursor_split:
  assumes "distinct (map key (xs @ r # ys))" "key r \<noteq> []"
  shows "after_cursor key (Some (key r)) (xs @ r # ys) = ys"
proof -
  have "key r \<notin> key ` set xs" using assms(1) by (simp add: disjoint_iff) blast
  then have "\<And>x. x \<in> set xs \<Longrightarrow> key x \<noteq> key r" by (metis image_eqI)
  then have "dropWhile (\<lambda>x. key x \<noteq> key r) (xs @ r # ys) = dropWhile (\<lambda>x. key x \<noteq> key r) (r # ys)"
    by (rule dropWhile_append2)
  with assms(2) show ?thesis by (simp add: after_cursor_def)
qed

lemma all_pages_complete:
  assumes "distinct (map key rows)" "\<forall>r \<in> set rows. key r \<noteq> []" "0 < limit"
    and "rows = xs @ after_cursor key cursor rows" "length (after_cursor key cursor rows) \<le> n * limit" "0 < n"
  shows "all_pages n (\<lambda>c. find_page limit key c rows) cursor = after_cursor key cursor rows"
  using assms(4,5,6)
proof (induction n arbitrary: xs cursor)
  case 0
  then show ?case by simp
next
  case (Suc n)
  let ?rest = "after_cursor key cursor rows"
  show ?case
  proof (cases "limit < length ?rest")
    case False
    then show ?thesis by (simp add: find_page_def take_page_def Let_def)
  next
    case True
    obtain ys r where page: "take limit ?rest = ys @ [r]"
      using True assms(3) by (cases "take limit ?rest" rule: rev_cases) auto
    let ?zs = "drop limit ?rest"
    have rest: "?rest = ys @ r # ?zs"
      by (metis append.assoc append_Cons append_Nil append_take_drop_id page)
    have eq: "rows = (xs @ ys) @ r # ?zs" using Suc.prems(1) rest by simp
    have key: "key r \<noteq> []" using assms(2) eq by (metis in_set_conv_decomp)
    have next_rest: "after_cursor key (Some (key r)) rows = ?zs"
      using after_cursor_split[of key "xs @ ys" r ?zs] assms(1) eq key by metis
    have len: "length ?zs \<le> n * limit" using Suc.prems(2) by simp
    have "0 < n" using True len by (cases n) auto
    have "all_pages n (\<lambda>c. find_page limit key c rows) (Some (key r)) = ?zs"
    proof -
      have "rows = (xs @ ys @ [r]) @ after_cursor key (Some (key r)) rows"
        using eq next_rest by simp
      then have "all_pages n (\<lambda>c. find_page limit key c rows) (Some (key r))
          = after_cursor key (Some (key r)) rows"
        by (rule Suc.IH) (use next_rest len \<open>0 < n\<close> in simp_all)
      with next_rest show ?thesis by simp
    qed
    moreover have "find_page limit key cursor rows = (ys @ [r], Some (key r))"
      using True page by (simp add: find_page_def take_page_def Let_def min_def)
    ultimately show ?thesis using rest by simp
  qed
qed

end
