(* ===== verification/Monitor_Input.thy ===== *)
theory Monitor_Input
  imports Api_Core "HOL-Library.Monad_Syntax"
begin

text \<open>
  What a user may ask a monitor to be: the schemas of
  \<open>apps/api/src/monitors/monitor.schemas.ts\<close>, from the JSON body of a request to the input the
  service receives, and the permission check of \<open>monitor.permissions.ts\<close>. The library's test
  for the form of a UUID is a parameter.
\<close>

section \<open>Input\<close>

record MonitorInput =
  mi_name :: jstring
  mi_url :: jstring
  mi_method :: HttpMethod
  mi_intervalSec :: int
  mi_timeoutMs :: int
  mi_expectedStatusMin :: int
  mi_expectedStatusMax :: int
  mi_expectedKeyword :: jstring
  mi_followRedirects :: bool
  mi_maxRedirects :: int
  mi_failureThreshold :: int
  mi_recoveryThreshold :: int
  mi_channelIds :: "id list"

record MonitorPatch =
  mp_name :: "jstring option"
  mp_url :: "jstring option"
  mp_method :: "HttpMethod option"
  mp_intervalSec :: "int option"
  mp_timeoutMs :: "int option"
  mp_expectedStatusMin :: "int option"
  mp_expectedStatusMax :: "int option"
  mp_expectedKeyword :: "jstring option"
  mp_followRedirects :: "bool option"
  mp_maxRedirects :: "int option"
  mp_failureThreshold :: "int option"
  mp_recoveryThreshold :: "int option"
  mp_channelIds :: "id list option"

section \<open>Fields\<close>

definition name_field :: "json \<Rightarrow> jstring option" where "name_field = string_field 1 160"
definition url_field :: "json \<Rightarrow> jstring option" where "url_field = string_field 1 2048"
definition keyword_field :: "json \<Rightarrow> jstring option" where "keyword_field = string_field 0 512"

definition method_field :: "json \<Rightarrow> HttpMethod option" where
  "method_field v =
     (case v of JStr s \<Rightarrow> if s = js ''GET'' then Some GET else if s = js ''HEAD'' then Some HEAD else None
      | _ \<Rightarrow> None)"

definition interval_field :: "json \<Rightarrow> int option" where
  "interval_field = int_field MIN_MONITOR_INTERVAL_SECONDS MAX_MONITOR_INTERVAL_SECONDS"

definition timeout_field :: "json \<Rightarrow> int option" where "timeout_field = int_field 1000 30000"
definition status_field :: "json \<Rightarrow> int option" where "status_field = int_field 100 599"
definition redirects_field :: "json \<Rightarrow> int option" where "redirects_field = int_field 0 5"
definition threshold_field :: "json \<Rightarrow> int option" where "threshold_field = int_field 1 10"

definition channels_field :: "(jstring \<Rightarrow> bool) \<Rightarrow> json \<Rightarrow> id list option" where
  "channels_field is_uuid = array_field 0 20 (uuid_field is_uuid)"

definition monitor_keys :: "jstring list" where
  "monitor_keys =
     [js ''name'', js ''url'', js ''method'', js ''intervalSec'', js ''timeoutMs'',
      js ''expectedStatusMin'', js ''expectedStatusMax'', js ''expectedKeyword'',
      js ''followRedirects'', js ''maxRedirects'', js ''failureThreshold'',
      js ''recoveryThreshold'', js ''channelIds'']"

section \<open>Schemas\<close>

definition validateMonitorCombination :: "MonitorInput \<Rightarrow> bool" where
  "validateMonitorCombination value \<longleftrightarrow>
     \<not> mi_expectedStatusMax value < mi_expectedStatusMin value \<and>
     \<not> (mi_method value = HEAD \<and> mi_expectedKeyword value \<noteq> [])"

definition monitor_fields ::
  "(jstring \<Rightarrow> bool) \<Rightarrow> (jstring \<Rightarrow> json option) \<Rightarrow> MonitorInput option" where
  "monitor_fields is_uuid get = do {
     name \<leftarrow> required name_field (get (js ''name''));
     url \<leftarrow> required url_field (get (js ''url''));
     meth \<leftarrow> defaulted method_field GET (get (js ''method''));
     intervalSec \<leftarrow> defaulted interval_field 60 (get (js ''intervalSec''));
     timeoutMs \<leftarrow> defaulted timeout_field 10000 (get (js ''timeoutMs''));
     statusMin \<leftarrow> defaulted status_field 200 (get (js ''expectedStatusMin''));
     statusMax \<leftarrow> defaulted status_field 299 (get (js ''expectedStatusMax''));
     keyword \<leftarrow> defaulted keyword_field [] (get (js ''expectedKeyword''));
     follow \<leftarrow> defaulted bool_field True (get (js ''followRedirects''));
     redirects \<leftarrow> defaulted redirects_field 5 (get (js ''maxRedirects''));
     failures \<leftarrow> defaulted threshold_field 3 (get (js ''failureThreshold''));
     recoveries \<leftarrow> defaulted threshold_field 2 (get (js ''recoveryThreshold''));
     channelIds \<leftarrow> defaulted (channels_field is_uuid) [] (get (js ''channelIds''));
     Some \<lparr>mi_name = name, mi_url = url, mi_method = meth, mi_intervalSec = intervalSec,
           mi_timeoutMs = timeoutMs, mi_expectedStatusMin = statusMin,
           mi_expectedStatusMax = statusMax, mi_expectedKeyword = keyword,
           mi_followRedirects = follow, mi_maxRedirects = redirects,
           mi_failureThreshold = failures, mi_recoveryThreshold = recoveries,
           mi_channelIds = channelIds\<rparr>}"

definition monitorInputSchema :: "(jstring \<Rightarrow> bool) \<Rightarrow> json \<Rightarrow> MonitorInput option" where
  "monitorInputSchema is_uuid body = do {
     members \<leftarrow> strict_object monitor_keys body;
     value \<leftarrow> monitor_fields is_uuid (map_of members);
     if validateMonitorCombination value then Some value else None}"

definition monitorPatchSchema :: "(jstring \<Rightarrow> bool) \<Rightarrow> json \<Rightarrow> MonitorPatch option" where
  "monitorPatchSchema is_uuid body = do {
     members \<leftarrow> strict_object monitor_keys body;
     let get = map_of members;
     name \<leftarrow> optional name_field (get (js ''name''));
     url \<leftarrow> optional url_field (get (js ''url''));
     meth \<leftarrow> optional method_field (get (js ''method''));
     intervalSec \<leftarrow> optional interval_field (get (js ''intervalSec''));
     timeoutMs \<leftarrow> optional timeout_field (get (js ''timeoutMs''));
     statusMin \<leftarrow> optional status_field (get (js ''expectedStatusMin''));
     statusMax \<leftarrow> optional status_field (get (js ''expectedStatusMax''));
     keyword \<leftarrow> optional keyword_field (get (js ''expectedKeyword''));
     follow \<leftarrow> optional bool_field (get (js ''followRedirects''));
     redirects \<leftarrow> optional redirects_field (get (js ''maxRedirects''));
     failures \<leftarrow> optional threshold_field (get (js ''failureThreshold''));
     recoveries \<leftarrow> optional threshold_field (get (js ''recoveryThreshold''));
     channelIds \<leftarrow> optional (channels_field is_uuid) (get (js ''channelIds''));
     if members = [] then None
     else Some \<lparr>mp_name = name, mp_url = url, mp_method = meth, mp_intervalSec = intervalSec,
           mp_timeoutMs = timeoutMs, mp_expectedStatusMin = statusMin,
           mp_expectedStatusMax = statusMax, mp_expectedKeyword = keyword,
           mp_followRedirects = follow, mp_maxRedirects = redirects,
           mp_failureThreshold = failures, mp_recoveryThreshold = recoveries,
           mp_channelIds = channelIds\<rparr>}"

section \<open>Permission\<close>

definition canManageMonitor :: "id option \<Rightarrow> AuthenticatedUser \<Rightarrow> bool" where
  "canManageMonitor ownerAccountId actor \<longleftrightarrow>
     us_role actor = ADMIN \<or> ownerAccountId = Some (us_id actor)"

definition assertCanManageMonitor :: "id option \<Rightarrow> AuthenticatedUser \<Rightarrow> api_error option" where
  "assertCanManageMonitor ownerAccountId actor =
     (if \<not> canManageMonitor ownerAccountId actor
      then Some (Forbidden [0xC774, 0x20, 0xBAA8, 0xB2C8, 0xD130, 0xB97C, 0x20, 0xC218, 0xC815, 0xD558, 0xAC70,
      0xB098, 0x20, 0xC0AD, 0xC81C, 0xD560, 0x20, 0xAD8C, 0xD55C, 0xC774, 0x20, 0xC5C6,
      0xC2B5, 0xB2C8, 0xB2E4, 0x2E])
      else None)"

section \<open>What the schemas promise\<close>

definition valid_input :: "(jstring \<Rightarrow> bool) \<Rightarrow> MonitorInput \<Rightarrow> bool" where
  "valid_input is_uuid x \<longleftrightarrow>
     js_trim (mi_name x) = mi_name x \<and> 1 \<le> length (mi_name x) \<and> length (mi_name x) \<le> 160 \<and>
     js_trim (mi_url x) = mi_url x \<and> 1 \<le> length (mi_url x) \<and> length (mi_url x) \<le> 2048 \<and>
     MIN_MONITOR_INTERVAL_SECONDS \<le> mi_intervalSec x \<and> mi_intervalSec x \<le> MAX_MONITOR_INTERVAL_SECONDS \<and>
     1000 \<le> mi_timeoutMs x \<and> mi_timeoutMs x \<le> 30000 \<and>
     100 \<le> mi_expectedStatusMin x \<and> mi_expectedStatusMin x \<le> mi_expectedStatusMax x \<and>
     mi_expectedStatusMax x \<le> 599 \<and>
     js_trim (mi_expectedKeyword x) = mi_expectedKeyword x \<and> length (mi_expectedKeyword x) \<le> 512 \<and>
     (mi_method x = HEAD \<longrightarrow> mi_expectedKeyword x = []) \<and>
     0 \<le> mi_maxRedirects x \<and> mi_maxRedirects x \<le> 5 \<and>
     1 \<le> mi_failureThreshold x \<and> mi_failureThreshold x \<le> 10 \<and>
     1 \<le> mi_recoveryThreshold x \<and> mi_recoveryThreshold x \<le> 10 \<and>
     length (mi_channelIds x) \<le> 20 \<and> list_all is_uuid (mi_channelIds x)"

lemma string_field_valid:
  "string_field lo hi v = Some t \<Longrightarrow> js_trim t = t \<and> lo \<le> length t \<and> length t \<le> hi"
  by (auto simp: string_field_def Let_def split: json.splits if_splits)

lemma channels_field_valid:
  assumes "channels_field is_uuid v = Some ids"
  shows "length ids \<le> 20 \<and> list_all is_uuid ids"
proof -
  from assms obtain vs where vs: "v = JArr vs" "length vs \<le> 20" "each_item (uuid_field is_uuid) vs = Some ids"
    by (auto simp: channels_field_def array_field_def split: json.splits if_splits)
  moreover have "\<forall>x \<in> set ids. is_uuid x"
    by (rule each_item_pred[OF vs(3)]) (auto simp: uuid_field_def split: json.splits if_splits)
  ultimately show ?thesis using each_item_length[OF vs(3)] by (simp add: list_all_iff)
qed

lemma defaulted_Some: "defaulted p dflt v = Some x \<Longrightarrow> (\<exists>j. p j = Some x) \<or> x = dflt"
  by (auto simp: defaulted_def split: option.splits)

lemma required_Some: "required p v = Some x \<Longrightarrow> \<exists>j. p j = Some x"
  by (auto simp: required_def split: option.splits)

lemma defaulted_pred:
  "defaulted p dflt v = Some x \<Longrightarrow> (\<And>j y. p j = Some y \<Longrightarrow> Q y) \<Longrightarrow> Q dflt \<Longrightarrow> Q x"
  by (auto simp: defaulted_def split: option.splits)

lemma required_pred: "required p v = Some x \<Longrightarrow> (\<And>j y. p j = Some y \<Longrightarrow> Q y) \<Longrightarrow> Q x"
  by (auto simp: required_def split: option.splits)

lemma int_field_pred: "int_field lo hi v = Some n \<Longrightarrow> lo \<le> n \<and> n \<le> hi"
  using int_field_Some by blast

lemmas field_defs = name_field_def url_field_def keyword_field_def interval_field_def
  timeout_field_def status_field_def redirects_field_def threshold_field_def

lemma js_trim_Nil [simp]: "js_trim [] = []"
  by (simp add: js_trim_def)

lemma monitor_fields_valid:
  assumes "monitor_fields is_uuid get = Some x" "validateMonitorCombination x"
  shows "valid_input is_uuid x"
proof -
  note parsed = assms(1)[unfolded monitor_fields_def field_defs bind_eq_Some_conv]
  from parsed obtain name url meth i t smin smax k f r ft rt ids where
    a: "required (string_field 1 160) (get (js ''name'')) = Some name"
    and b: "required (string_field 1 2048) (get (js ''url'')) = Some url"
    and c: "defaulted (int_field MIN_MONITOR_INTERVAL_SECONDS MAX_MONITOR_INTERVAL_SECONDS) 60
              (get (js ''intervalSec'')) = Some i"
    and d: "defaulted (int_field 1000 30000) 10000 (get (js ''timeoutMs'')) = Some t"
    and e: "defaulted (int_field 100 599) 200 (get (js ''expectedStatusMin'')) = Some smin"
    and f: "defaulted (int_field 100 599) 299 (get (js ''expectedStatusMax'')) = Some smax"
    and g: "defaulted (string_field 0 512) [] (get (js ''expectedKeyword'')) = Some k"
    and h: "defaulted (int_field 0 5) 5 (get (js ''maxRedirects'')) = Some r"
    and l: "defaulted (int_field 1 10) 3 (get (js ''failureThreshold'')) = Some ft"
    and m: "defaulted (int_field 1 10) 2 (get (js ''recoveryThreshold'')) = Some rt"
    and n: "defaulted (channels_field is_uuid) [] (get (js ''channelIds'')) = Some ids"
    and x: "x = \<lparr>mi_name = name, mi_url = url, mi_method = meth, mi_intervalSec = i,
           mi_timeoutMs = t, mi_expectedStatusMin = smin, mi_expectedStatusMax = smax,
           mi_expectedKeyword = k, mi_followRedirects = f, mi_maxRedirects = r,
           mi_failureThreshold = ft, mi_recoveryThreshold = rt, mi_channelIds = ids\<rparr>"
    by blast
  have "js_trim name = name \<and> 1 \<le> length name \<and> length name \<le> 160"
    by (rule required_pred[OF a]) (rule string_field_valid)
  moreover have "js_trim url = url \<and> 1 \<le> length url \<and> length url \<le> 2048"
    by (rule required_pred[OF b]) (rule string_field_valid)
  moreover have "MIN_MONITOR_INTERVAL_SECONDS \<le> i \<and> i \<le> MAX_MONITOR_INTERVAL_SECONDS"
    by (rule defaulted_pred[OF c], rule int_field_pred)
      (simp_all add: MIN_MONITOR_INTERVAL_SECONDS_def MAX_MONITOR_INTERVAL_SECONDS_def)
  moreover have "1000 \<le> t \<and> t \<le> 30000" by (rule defaulted_pred[OF d], rule int_field_pred) simp_all
  moreover have "100 \<le> smin \<and> smin \<le> 599" by (rule defaulted_pred[OF e], rule int_field_pred) simp_all
  moreover have "100 \<le> smax \<and> smax \<le> 599" by (rule defaulted_pred[OF f], rule int_field_pred) simp_all
  moreover have "js_trim k = k \<and> 0 \<le> length k \<and> length k \<le> 512"
    by (rule defaulted_pred[OF g], rule string_field_valid) simp_all
  moreover have "0 \<le> r \<and> r \<le> 5" by (rule defaulted_pred[OF h], rule int_field_pred) simp_all
  moreover have "1 \<le> ft \<and> ft \<le> 10" by (rule defaulted_pred[OF l], rule int_field_pred) simp_all
  moreover have "1 \<le> rt \<and> rt \<le> 10" by (rule defaulted_pred[OF m], rule int_field_pred) simp_all
  moreover have "length ids \<le> 20 \<and> list_all is_uuid ids"
    by (rule defaulted_pred[OF n], rule channels_field_valid) simp_all
  ultimately show ?thesis
    using assms(2) by (simp add: valid_input_def validateMonitorCombination_def x)
qed

lemma input_valid: "monitorInputSchema is_uuid body = Some x \<Longrightarrow> valid_input is_uuid x"
  unfolding monitorInputSchema_def
  by (auto simp: bind_eq_Some_conv split: if_splits intro: monitor_fields_valid)

text \<open>The body that asks for exactly this input.\<close>

definition method_name :: "HttpMethod \<Rightarrow> string" where
  "method_name m = (case m of GET \<Rightarrow> ''GET'' | HEAD \<Rightarrow> ''HEAD'')"

definition input_body :: "MonitorInput \<Rightarrow> json" where
  "input_body x = JObj
     [(js ''name'', JStr (mi_name x)), (js ''url'', JStr (mi_url x)),
      (js ''method'', JStr (js (method_name (mi_method x)))),
      (js ''intervalSec'', JNum (mi_intervalSec x)), (js ''timeoutMs'', JNum (mi_timeoutMs x)),
      (js ''expectedStatusMin'', JNum (mi_expectedStatusMin x)),
      (js ''expectedStatusMax'', JNum (mi_expectedStatusMax x)),
      (js ''expectedKeyword'', JStr (mi_expectedKeyword x)),
      (js ''followRedirects'', JBool (mi_followRedirects x)),
      (js ''maxRedirects'', JNum (mi_maxRedirects x)),
      (js ''failureThreshold'', JNum (mi_failureThreshold x)),
      (js ''recoveryThreshold'', JNum (mi_recoveryThreshold x)),
      (js ''channelIds'', JArr (map JStr (mi_channelIds x)))]"

lemma channels_field_ids:
  "length ids \<le> 20 \<Longrightarrow> list_all is_uuid ids \<Longrightarrow> channels_field is_uuid (JArr (map JStr ids)) = Some ids"
  by (simp add: channels_field_def array_field_def each_item_image uuid_field_def list_all_iff)

lemma method_field_name [simp]: "method_field (JStr (js (method_name m))) = Some m"
  by (cases m) (simp_all add: method_field_def method_name_def js_inj)

lemma input_body_fields:
  assumes "valid_input is_uuid x"
  shows "monitor_fields is_uuid (map_of (case input_body x of JObj kvs \<Rightarrow> kvs)) = Some x"
  using assms
  by (simp add: monitor_fields_def input_body_def js_inj required_def defaulted_def field_defs
      valid_input_def channels_field_ids)

lemma input_body_accepted:
  assumes "valid_input is_uuid x"
  shows "monitorInputSchema is_uuid (input_body x) = Some x"
proof -
  have "strict_object monitor_keys (input_body x) = Some (case input_body x of JObj kvs \<Rightarrow> kvs)"
    by (simp add: strict_object_def input_body_def monitor_keys_def)
  moreover have "validateMonitorCombination x"
    using assms by (auto simp: validateMonitorCombination_def valid_input_def)
  ultimately show ?thesis
    unfolding monitorInputSchema_def by (simp add: input_body_fields[OF assms])
qed

end
