(* ===== verification/Monitor_Service.thy ===== *)
theory Monitor_Service
  imports Monitor_Input Check_Processor Scheduling
begin

text \<open>
  The operations of \<open>apps/api/src/monitors/monitors.service.ts\<close> that change a monitor: create,
  update, pause, resume and remove, with the cancellation of everything that runs for a
  monitor. The URL parser, the address test, the resolver, the sealing of strings and the form
  of a UUID are parameters; new ids and the time are arguments. The row lock of \<open>lockMonitor\<close>
  makes each transaction one step.
\<close>

section \<open>Environment\<close>

record api_env =
  ae_new_URL :: "jstring \<Rightarrow> Url option"
  ae_isIP :: "jstring \<Rightarrow> nat"
  ae_resolve :: "jstring \<Rightarrow> CheckFailure + ResolvedAddress list"
  ae_is_uuid :: "jstring \<Rightarrow> bool"
  ae_cipher :: cipher
  ae_decipher :: decipher

section \<open>Views\<close>

record MonitorRecord =
  mr_monitor :: Monitor
  mr_channels :: "id list"
  mr_owner :: "(id \<times> jstring) option"

definition channel_ids :: "id \<Rightarrow> db \<Rightarrow> id list" where
  "channel_ids monitorId d =
     map mc_channelId (filter (\<lambda>b. mc_monitorId b = monitorId) (monitorChannels d))"

definition monitorInclude :: "db \<Rightarrow> Monitor \<Rightarrow> MonitorRecord" where
  "monitorInclude d m =
     \<lparr>mr_monitor = m, mr_channels = channel_ids (mo_id m) d,
      mr_owner = (case mo_ownerAccountId m of None \<Rightarrow> None
        | Some i \<Rightarrow> map_option (\<lambda>a. (ac_id a, ac_username a)) (find_by ac_id i (accounts d)))\<rparr>"

record MonitorView =
  mv_id :: id
  mv_name :: jstring
  mv_url :: jstring
  mv_displayUrl :: jstring
  mv_method :: HttpMethod
  mv_intervalSec :: int
  mv_timeoutMs :: int
  mv_expectedStatusMin :: int
  mv_expectedStatusMax :: int
  mv_expectedKeyword :: "jstring option"
  mv_followRedirects :: bool
  mv_maxRedirects :: int
  mv_failureThreshold :: int
  mv_recoveryThreshold :: int
  mv_lifecycleStatus :: MonitorLifecycle
  mv_healthState :: MonitorHealth
  mv_failureCount :: int
  mv_successCount :: int
  mv_nextCheckAt :: "time option"
  mv_lastCheckedAt :: "time option"
  mv_networkUnknownSince :: "time option"
  mv_lastStatusCode :: "int option"
  mv_lastTtfbMs :: "int option"
  mv_lastTotalMs :: "int option"
  mv_lastErrorType :: "CheckErrorType option"
  mv_configVersion :: int
  mv_channelIds :: "id list"
  mv_owner :: "(id \<times> jstring) option"
  mv_canManage :: bool
  mv_createdAt :: time

text \<open>The constant \<open>lastErrorMessage: null\<close> and the column \<open>updated_at\<close> are not fields here.\<close>

definition toMonitorView :: "MonitorRecord \<Rightarrow> AuthenticatedUser \<Rightarrow> MonitorView" where
  "toMonitorView rec actor =
     (let m = mr_monitor rec; s = mo_state m in
      \<lparr>mv_id = mo_id m, mv_name = mo_name m, mv_url = mo_displayUrl m,
       mv_displayUrl = mo_displayUrl m, mv_method = mo_method m, mv_intervalSec = mo_intervalSec m,
       mv_timeoutMs = mo_timeoutMs m, mv_expectedStatusMin = mo_expectedStatusMin m,
       mv_expectedStatusMax = mo_expectedStatusMax m, mv_expectedKeyword = mo_expectedKeyword m,
       mv_followRedirects = mo_followRedirects m, mv_maxRedirects = mo_maxRedirects m,
       mv_failureThreshold = mo_failureThreshold m, mv_recoveryThreshold = mo_recoveryThreshold m,
       mv_lifecycleStatus = lifecycleStatus s, mv_healthState = healthState s,
       mv_failureCount = consecutiveFailures s, mv_successCount = consecutiveSuccesses s,
       mv_nextCheckAt = mo_nextCheckAt m, mv_lastCheckedAt = mo_lastCheckedAt m,
       mv_networkUnknownSince = mo_networkUnknownSince m, mv_lastStatusCode = mo_lastStatusCode m,
       mv_lastTtfbMs = mo_lastTtfbMs m, mv_lastTotalMs = mo_lastTotalMs m,
       mv_lastErrorType = mo_lastErrorType m, mv_configVersion = configVersion s,
       mv_channelIds = mr_channels rec, mv_owner = mr_owner rec,
       mv_canManage = canManageMonitor (mo_ownerAccountId m) actor, mv_createdAt = mo_createdAt m\<rparr>)"

section \<open>Targets\<close>

definition MAX_STORED_URL_LENGTH :: nat where "MAX_STORED_URL_LENGTH = 2048"

definition parseTarget :: "api_env \<Rightarrow> jstring \<Rightarrow> api_error + Url" where
  "parseTarget env rawUrl =
     (case parseMonitorUrl (ae_new_URL env) (ae_isIP env) rawUrl of
        Inl error \<Rightarrow> Inl (BadRequest (fa_safeMessage error))
      | Inr url \<Rightarrow> Inr url)"

definition validateTarget :: "api_env \<Rightarrow> jstring \<Rightarrow> api_error + Url" where
  "validateTarget env rawUrl =
     (case parseTarget env rawUrl of Inl e \<Rightarrow> Inl e
      | Inr parsed \<Rightarrow>
         (case resolveSafeDestination (ae_new_URL env) (ae_isIP env) (ae_resolve env) (url_toString parsed) of
            Inr _ \<Rightarrow> Inr parsed
          | Inl error \<Rightarrow>
              if fa_class error = UrlPolicyError then Inl (BadRequest (fa_safeMessage error))
              else if fa_errorType error \<noteq> DNS_ERROR then Inl (CheckError error)
              else Inr parsed))"

record StoredTarget =
  st_requestUrl :: jstring
  st_displayUrl :: jstring
  st_hostnameNormalized :: jstring

definition storedTarget :: "api_env \<Rightarrow> Url \<Rightarrow> api_error + StoredTarget" where
  "storedTarget env parsedUrl =
     (let requestUrl = url_toString parsedUrl in
      case toDisplayUrl (ae_new_URL env) requestUrl of
        None \<Rightarrow> Inl (Uncaught (PlainError ''Invalid URL''))
      | Some shown \<Rightarrow>
          if MAX_STORED_URL_LENGTH < length requestUrl \<or> MAX_STORED_URL_LENGTH < length shown
          then Inl (BadRequest [0xC815, 0xADDC, 0xD654, 0xB41C, 0x20, 0x55, 0x52, 0x4C, 0xC740, 0x20, 0x32, 0x2C, 0x30,
      0x34, 0x38, 0xC790, 0xB97C, 0x20, 0xCD08, 0xACFC, 0xD560, 0x20, 0xC218, 0x20, 0xC5C6,
      0xC2B5, 0xB2C8, 0xB2E4, 0x2E])
          else Inr \<lparr>st_requestUrl = requestUrl, st_displayUrl = shown,
                    st_hostnameNormalized =
                      ascii_lower (strip_dot (strip_brackets (u_hostname parsedUrl)))\<rparr>)"

definition decryptedUrl :: "api_env \<Rightarrow> 8 word list \<Rightarrow> api_error + jstring" where
  "decryptedUrl env value =
     (case decryptString (ae_decipher env) value of
        None \<Rightarrow> Inl (Uncaught (PlainError ''Unsupported encrypted value'')) | Some s \<Rightarrow> Inr s)"

definition assertChannelIds :: "id list \<Rightarrow> db \<Rightarrow> api_error option" where
  "assertChannelIds channelIds d =
     (if channelIds = [] then None
      else if count_where (\<lambda>c. ch_id c \<in> set channelIds \<and> usable_channel c) (channels d) \<noteq>
              length (remdups channelIds)
      then Some (BadRequest [0xC0AC, 0xC6A9, 0xD560, 0x20, 0xC218, 0x20, 0xC5C6, 0xB294, 0x20, 0xC54C, 0xB9BC, 0x20,
      0xCC44, 0xB110, 0xC774, 0x20, 0xD3EC, 0xD568, 0xB418, 0xC5B4, 0x20, 0xC788, 0xC2B5,
      0xB2C8, 0xB2E4, 0x2E])
      else None)"

text \<open>The first slot; the client refuses to write an invalid date.\<close>

definition first_slot :: "id \<Rightarrow> int \<Rightarrow> time \<Rightarrow> api_error + time" where
  "first_slot monitorId intervalSec now =
     (case calculateInitialNextCheckAt monitorId intervalSec (Some now) default_jitterRatio of
        Inl e \<Rightarrow> Inl (Uncaught e)
      | Inr None \<Rightarrow> Inl (Uncaught (PlainError ''Invalid value for argument: Provided Date object is invalid''))
      | Inr (Some t) \<Rightarrow> Inr t)"

text \<open>\<open>FOR UPDATE\<close> and the read behind it.\<close>

definition lockMonitor :: "id \<Rightarrow> db \<Rightarrow> Monitor option" where
  "lockMonitor i d = find (\<lambda>m. mo_id m = i \<and> mo_deletedAt m = None) (monitors d)"

definition monitor_missing :: api_error where
  "monitor_missing = NotFound [0xBAA8, 0xB2C8, 0xD130, 0xB97C, 0x20, 0xCC3E, 0xC744, 0x20, 0xC218, 0x20, 0xC5C6,
      0xC2B5, 0xB2C8, 0xB2E4, 0x2E]"

text \<open>The checks every operation on one monitor begins with.\<close>

definition managed_monitor :: "id \<Rightarrow> AuthenticatedUser \<Rightarrow> db \<Rightarrow> api_error + Monitor" where
  "managed_monitor i actor d =
     (case lockMonitor i d of None \<Rightarrow> Inl monitor_missing
      | Some current \<Rightarrow>
         (case assertCanManageMonitor (mo_ownerAccountId current) actor of
            Some e \<Rightarrow> Inl e | None \<Rightarrow> Inr current))"

section \<open>Cancelling what runs for a monitor\<close>

definition cancelable_outbox :: "NotificationOutbox \<Rightarrow> bool" where
  "cancelable_outbox r \<longleftrightarrow>
     ob_status r = NotificationOutboxStatus.PENDING \<or> ob_status r = NotificationOutboxStatus.ENQUEUED \<or>
     ob_status r = PROCESSING \<or> ob_status r = RETRY"

definition terminal_outbox :: "NotificationOutbox \<Rightarrow> bool" where
  "terminal_outbox r \<longleftrightarrow>
     ob_status r = SENT \<or> ob_status r = NotificationOutboxStatus.FAILED \<or>
     ob_status r = NotificationOutboxStatus.CANCELED"

text \<open>
  The three updates of the outbox and its ledger that cancelling shares between monitors and
  channels; \<open>p\<close> picks the rows.
\<close>

definition lose_attempts ::
  "(NotificationOutbox \<Rightarrow> bool) \<Rightarrow> jstring \<Rightarrow> time \<Rightarrow> db \<Rightarrow> db" where
  "lose_attempts p message now d =
     d\<lparr>deliveries := update_where
         (\<lambda>n. nd_status n = ATTEMPTING \<and>
            list_ex (\<lambda>r. ob_id r = nd_outboxId n \<and> p r \<and> ob_status r = PROCESSING) (outbox d))
         (\<lambda>n. n\<lparr>nd_status := UNKNOWN, nd_errorSafe := Some message, nd_finishedAt := Some now\<rparr>)
         (deliveries d)\<rparr>"

definition cancel_outbox :: "(NotificationOutbox \<Rightarrow> bool) \<Rightarrow> time \<Rightarrow> db \<Rightarrow> db" where
  "cancel_outbox p now d =
     d\<lparr>outbox := update_where (\<lambda>r. p r \<and> cancelable_outbox r)
         (\<lambda>r. r\<lparr>ob_status := NotificationOutboxStatus.CANCELED, ob_canceledAt := Some now,
                ob_leaseOwner := None, ob_leaseUntil := None\<rparr>) (outbox d)\<rparr>"

definition retire_secrets :: "(NotificationOutbox \<Rightarrow> bool) \<Rightarrow> db \<Rightarrow> db" where
  "retire_secrets p d =
     d\<lparr>outbox := update_where (\<lambda>r. p r \<and> terminal_outbox r)
         (\<lambda>r. r\<lparr>ob_encryptedConfigSnapshot := secretTombstoneBytes\<rparr>) (outbox d)\<rparr>"

definition canceled_incident :: "time \<Rightarrow> IncidentClosureReason \<Rightarrow> Incident \<Rightarrow> Incident" where
  "canceled_incident now reason i =
     i\<lparr>ic_status := IncidentStatus.CANCELED, ic_canceledAt := Some now, ic_closureReason := Some reason\<rparr>"

definition cancelRuntime :: "id \<Rightarrow> IncidentClosureReason \<Rightarrow> time \<Rightarrow> db \<Rightarrow> db" where
  "cancelRuntime monitorId reason now d =
     (let of_monitor = (\<lambda>r. ob_monitorId r = Some monitorId);
          d1 = lose_attempts of_monitor [0xBAA8, 0xB2C8, 0xD130, 0x20, 0xBCC0, 0xACBD, 0xC73C, 0xB85C, 0x20, 0xBC1C, 0xC1A1,
      0x20, 0xCD94, 0xC801, 0xC774, 0x20, 0xC885, 0xB8CC, 0xB418, 0xC5B4, 0x20, 0xC804,
      0xB2EC, 0x20, 0xC5EC, 0xBD80, 0xB97C, 0x20, 0xD655, 0xC778, 0xD560, 0x20, 0xC218, 0x20,
      0xC5C6, 0xC2B5, 0xB2C8, 0xB2E4, 0x2E] now d;
          d2 = d1\<lparr>incidents := update_where (\<lambda>i. ic_monitorId i = monitorId \<and> open_incident i)
                 (canceled_incident now reason) (incidents d1)\<rparr>;
          d3 = d2\<lparr>scheduledChecks := update_where (\<lambda>c. sc_monitorId c = monitorId \<and> active_check c)
                 (\<lambda>c. c\<lparr>sc_status := ScheduledCheckStatus.CANCELED, sc_canceledAt := Some now,
                        sc_leaseOwner := None, sc_leaseUntil := None\<rparr>) (scheduledChecks d2)\<rparr>
      in retire_secrets of_monitor (cancel_outbox of_monitor now d3))"

section \<open>Create\<close>

definition bind_channels :: "id \<Rightarrow> id list \<Rightarrow> time \<Rightarrow> MonitorChannel list" where
  "bind_channels monitorId channelIds now =
     map (\<lambda>c. \<lparr>mc_monitorId = monitorId, mc_channelId = c, mc_notifyOnDown = True,
               mc_notifyOnRecovery = True, mc_createdAt = now\<rparr>) (first_occurrences channelIds)"

definition new_monitor ::
  "api_env \<Rightarrow> id \<Rightarrow> AuthenticatedUser \<Rightarrow> MonitorInput \<Rightarrow> StoredTarget \<Rightarrow> time \<Rightarrow> time \<Rightarrow> Monitor" where
  "new_monitor env i actor input target slot now =
     \<lparr>mo_id = i, mo_ownerAccountId = Some (us_id actor), mo_name = mi_name input,
      mo_requestUrlEncrypted = encryptString (ae_cipher env) (st_requestUrl target),
      mo_displayUrl = st_displayUrl target, mo_hostnameNormalized = st_hostnameNormalized target,
      mo_method = mi_method input, mo_intervalSec = mi_intervalSec input,
      mo_timeoutMs = mi_timeoutMs input, mo_expectedStatusMin = mi_expectedStatusMin input,
      mo_expectedStatusMax = mi_expectedStatusMax input,
      mo_expectedKeyword = (if mi_expectedKeyword input = [] then None
                            else Some (mi_expectedKeyword input)),
      mo_followRedirects = mi_followRedirects input, mo_maxRedirects = mi_maxRedirects input,
      mo_failureThreshold = mi_failureThreshold input,
      mo_recoveryThreshold = mi_recoveryThreshold input, mo_state = initial_state,
      mo_lastCheckedAt = None, mo_networkUnknownSince = None, mo_lastSuccessAt = None,
      mo_lastFailureAt = None, mo_lastStatusCode = None, mo_lastTtfbMs = None,
      mo_lastTotalMs = None, mo_lastErrorType = None, mo_nextCheckAt = Some slot,
      mo_createdAt = now, mo_deletedAt = None\<rparr>"

definition create_tx ::
  "api_env \<Rightarrow> id \<Rightarrow> id \<Rightarrow> time \<Rightarrow> MonitorInput \<Rightarrow> StoredTarget \<Rightarrow> AuthenticatedUser \<Rightarrow> MonitorRecord tx" where
  "create_tx env i auditId now input target actor d =
     (case assertChannelIds (mi_channelIds input) d of Some e \<Rightarrow> Inl e
      | None \<Rightarrow>
         (case first_slot i (mi_intervalSec input) now of Inl e \<Rightarrow> Inl e
          | Inr slot \<Rightarrow>
             if list_ex (\<lambda>m. mo_id m = i) (monitors d)
             then Inl (DatabaseError (UniqueConstraint ''PRIMARY''))
             else
              (let m = new_monitor env i actor input target slot now;
                   d1 = d\<lparr>monitors := monitors d @ [m],
                          monitorChannels := monitorChannels d @ bind_channels i (mi_channelIds input) now\<rparr>
               in Inr (monitorInclude d1 m,
                       write_audit (audit_row auditId (us_id actor) ''MONITOR_CREATED'' ''Monitor'' i None now) d1))))"

definition create ::
  "api_env \<Rightarrow> id \<Rightarrow> id \<Rightarrow> time \<Rightarrow> MonitorInput \<Rightarrow> AuthenticatedUser \<Rightarrow> db \<Rightarrow> (api_error + MonitorView) \<times> db" where
  "create env i auditId now input actor d =
     (case validateTarget env (mi_url input) of Inl e \<Rightarrow> (Inl e, d)
      | Inr parsedUrl \<Rightarrow>
         (case storedTarget env parsedUrl of Inl e \<Rightarrow> (Inl e, d)
          | Inr target \<Rightarrow>
             (case transaction (create_tx env i auditId now input target actor) d of
                (Inl e, d') \<Rightarrow> (Inl e, d')
              | (Inr monitor, d') \<Rightarrow> (Inr (toMonitorView monitor actor), d'))))"

section \<open>Update\<close>

definition value_or :: "'a \<Rightarrow> 'a option \<Rightarrow> 'a" where
  "value_or dflt v = (case v of None \<Rightarrow> dflt | Some x \<Rightarrow> x)"

text \<open>\<open>patch.field ?? current.field\<close>, member by member.\<close>

definition merged_input :: "Monitor \<Rightarrow> id list \<Rightarrow> jstring \<Rightarrow> MonitorPatch \<Rightarrow> MonitorInput" where
  "merged_input current currentChannels currentUrl patch =
     \<lparr>mi_name = value_or (mo_name current) (mp_name patch),
      mi_url = (case mp_url patch of None \<Rightarrow> currentUrl
                | Some u \<Rightarrow> if u \<noteq> [] \<and> u \<noteq> mo_displayUrl current then u else currentUrl),
      mi_method = value_or (mo_method current) (mp_method patch),
      mi_intervalSec = value_or (mo_intervalSec current) (mp_intervalSec patch),
      mi_timeoutMs = value_or (mo_timeoutMs current) (mp_timeoutMs patch),
      mi_expectedStatusMin = value_or (mo_expectedStatusMin current) (mp_expectedStatusMin patch),
      mi_expectedStatusMax = value_or (mo_expectedStatusMax current) (mp_expectedStatusMax patch),
      mi_expectedKeyword =
        value_or (value_or [] (mo_expectedKeyword current)) (mp_expectedKeyword patch),
      mi_followRedirects = value_or (mo_followRedirects current) (mp_followRedirects patch),
      mi_maxRedirects = value_or (mo_maxRedirects current) (mp_maxRedirects patch),
      mi_failureThreshold = value_or (mo_failureThreshold current) (mp_failureThreshold patch),
      mi_recoveryThreshold = value_or (mo_recoveryThreshold current) (mp_recoveryThreshold patch),
      mi_channelIds = value_or currentChannels (mp_channelIds patch)\<rparr>"

text \<open>The fields whose change restarts the monitor (\<open>configFields\<close>).\<close>

definition monitoring_changed :: "Monitor \<Rightarrow> jstring \<Rightarrow> MonitorInput \<Rightarrow> jstring \<Rightarrow> bool" where
  "monitoring_changed current currentUrl merged requestUrl \<longleftrightarrow>
     requestUrl \<noteq> currentUrl \<or> mi_method merged \<noteq> mo_method current \<or>
     mi_intervalSec merged \<noteq> mo_intervalSec current \<or> mi_timeoutMs merged \<noteq> mo_timeoutMs current \<or>
     mi_expectedStatusMin merged \<noteq> mo_expectedStatusMin current \<or>
     mi_expectedStatusMax merged \<noteq> mo_expectedStatusMax current \<or>
     mi_expectedKeyword merged \<noteq> value_or [] (mo_expectedKeyword current) \<or>
     mi_followRedirects merged \<noteq> mo_followRedirects current \<or>
     mi_maxRedirects merged \<noteq> mo_maxRedirects current \<or>
     mi_failureThreshold merged \<noteq> mo_failureThreshold current \<or>
     mi_recoveryThreshold merged \<noteq> mo_recoveryThreshold current"

definition restarted :: "Monitor \<Rightarrow> time option \<Rightarrow> Monitor" where
  "restarted m slot =
     m\<lparr>mo_state := (mo_state m)\<lparr>configVersion := configVersion (mo_state m) + 1,
         healthState := MonitorHealth.PENDING, consecutiveFailures := 0, consecutiveSuccesses := 0,
         failureStreakStartedAt := None, failureStreakFirstErrorType := None\<rparr>,
       mo_nextCheckAt := slot\<rparr>"

definition configured :: "api_env \<Rightarrow> MonitorInput \<Rightarrow> StoredTarget \<Rightarrow> Monitor \<Rightarrow> Monitor" where
  "configured env merged target m =
     m\<lparr>mo_name := mi_name merged,
       mo_requestUrlEncrypted := encryptString (ae_cipher env) (st_requestUrl target),
       mo_displayUrl := st_displayUrl target,
       mo_hostnameNormalized := st_hostnameNormalized target, mo_method := mi_method merged,
       mo_intervalSec := mi_intervalSec merged, mo_timeoutMs := mi_timeoutMs merged,
       mo_expectedStatusMin := mi_expectedStatusMin merged,
       mo_expectedStatusMax := mi_expectedStatusMax merged,
       mo_expectedKeyword := (if mi_expectedKeyword merged = [] then None
                              else Some (mi_expectedKeyword merged)),
       mo_followRedirects := mi_followRedirects merged, mo_maxRedirects := mi_maxRedirects merged,
       mo_failureThreshold := mi_failureThreshold merged,
       mo_recoveryThreshold := mi_recoveryThreshold merged\<rparr>"

definition rebind_channels :: "id \<Rightarrow> id list \<Rightarrow> time \<Rightarrow> db \<Rightarrow> db" where
  "rebind_channels i channelIds now d =
     d\<lparr>monitorChannels := filter (\<lambda>b. mc_monitorId b \<noteq> i) (monitorChannels d) @
         bind_channels i channelIds now\<rparr>"

definition find_record :: "id \<Rightarrow> db \<Rightarrow> api_error + MonitorRecord" where
  "find_record i d =
     (case find_by mo_id i (monitors d) of None \<Rightarrow> Inl (DatabaseError RecordNotFound)
      | Some m \<Rightarrow> Inr (monitorInclude d m))"

text \<open>The slot of the changed row: a monitor that does not run has none.\<close>

definition update_slot :: "id \<Rightarrow> Monitor \<Rightarrow> MonitorInput \<Rightarrow> bool \<Rightarrow> time \<Rightarrow> api_error + time option" where
  "update_slot i current merged changed now =
     (if changed \<and> lifecycleStatus (mo_state current) = ACTIVE
      then (case first_slot i (mi_intervalSec merged) now of Inl e \<Rightarrow> Inl e | Inr t \<Rightarrow> Inr (Some t))
      else Inr None)"

definition write_update ::
  "api_env \<Rightarrow> id \<Rightarrow> id \<Rightarrow> time \<Rightarrow> AuthenticatedUser \<Rightarrow> Monitor \<Rightarrow> MonitorInput \<Rightarrow> StoredTarget \<Rightarrow> bool \<Rightarrow>
   MonitorRecord tx" where
  "write_update env i auditId now actor current merged target changed d =
     (case update_slot i current merged changed now of Inl e \<Rightarrow> Inl e
      | Inr slot \<Rightarrow>
        (let d1 = (if changed then cancelRuntime i CONFIG_CHANGED now d else d);
             d2 = rebind_channels i (mi_channelIds merged) now d1;
             d3 = update_monitor i (\<lambda>m. if changed then restarted (configured env merged target m) slot
                                        else configured env merged target m) d2
         in (case find_record i d3 of Inl e \<Rightarrow> Inl e
             | Inr rec \<Rightarrow>
               Inr (rec, write_audit (audit_row auditId (us_id actor)
                 (if changed then ''MONITOR_CONFIG_UPDATED'' else ''MONITOR_UPDATED'') ''Monitor'' i
                 None now) d3))))"

definition update_tx ::
  "api_env \<Rightarrow> id \<Rightarrow> id \<Rightarrow> time \<Rightarrow> MonitorPatch \<Rightarrow> AuthenticatedUser \<Rightarrow> MonitorRecord tx" where
  "update_tx env i auditId now patch actor d =
     (case managed_monitor i actor d of Inl e \<Rightarrow> Inl e
      | Inr current \<Rightarrow>
     (case decryptedUrl env (mo_requestUrlEncrypted current) of Inl e \<Rightarrow> Inl e
      | Inr currentUrl \<Rightarrow>
     (case parseInput (monitorInputSchema (ae_is_uuid env))
             (input_body (merged_input current (channel_ids i d) currentUrl patch)) of Inl e \<Rightarrow> Inl e
      | Inr merged \<Rightarrow>
     (case validateTarget env (mi_url merged) of Inl e \<Rightarrow> Inl e
      | Inr parsedUrl \<Rightarrow>
     (case storedTarget env parsedUrl of Inl e \<Rightarrow> Inl e
      | Inr target \<Rightarrow>
     (case assertChannelIds (mi_channelIds merged) d of Some e \<Rightarrow> Inl e
      | None \<Rightarrow>
          write_update env i auditId now actor current merged target
            (monitoring_changed current currentUrl merged (st_requestUrl target)) d))))))"

definition as_view ::
  "AuthenticatedUser \<Rightarrow> (api_error + MonitorRecord) \<times> db \<Rightarrow> (api_error + MonitorView) \<times> db" where
  "as_view actor result = map_prod (map_sum id (\<lambda>r. toMonitorView r actor)) id result"

definition update_op ::
  "api_env \<Rightarrow> id \<Rightarrow> id \<Rightarrow> time \<Rightarrow> MonitorPatch \<Rightarrow> AuthenticatedUser \<Rightarrow> db \<Rightarrow> (api_error + MonitorView) \<times> db" where
  "update_op env i auditId now patch actor d =
     as_view actor (transaction (update_tx env i auditId now patch actor) d)"

section \<open>Pause, resume and remove\<close>

text \<open>The columns all three reset.\<close>

definition with_lifecycle :: "MonitorLifecycle \<Rightarrow> time option \<Rightarrow> Monitor \<Rightarrow> Monitor" where
  "with_lifecycle lifecycle slot m =
     m\<lparr>mo_state := (mo_state m)\<lparr>lifecycleStatus := lifecycle, healthState := MonitorHealth.PENDING,
         consecutiveFailures := 0, consecutiveSuccesses := 0, failureStreakStartedAt := None,
         failureStreakFirstErrorType := None\<rparr>,
       mo_nextCheckAt := slot\<rparr>"

definition setLifecycle_tx ::
  "id \<Rightarrow> id \<Rightarrow> time \<Rightarrow> MonitorLifecycle \<Rightarrow> IncidentClosureReason \<Rightarrow> AuthenticatedUser \<Rightarrow> MonitorRecord tx" where
  "setLifecycle_tx i auditId now lifecycle reason actor d =
     (case managed_monitor i actor d of Inl e \<Rightarrow> Inl e
      | Inr current \<Rightarrow>
         if lifecycleStatus (mo_state current) = lifecycle then Inr (monitorInclude d current, d)
         else
          (let d1 = update_monitor i (with_lifecycle lifecycle None) (cancelRuntime i reason now d)
           in (case find_record i d1 of Inl e \<Rightarrow> Inl e
               | Inr rec \<Rightarrow>
                 Inr (rec, write_audit (audit_row auditId (us_id actor)
                   (if lifecycle = MonitorLifecycle.PAUSED then ''MONITOR_PAUSED'' else ''MONITOR_RESUMED'')
                   ''Monitor'' i None now) d1))))"

definition pause ::
  "id \<Rightarrow> id \<Rightarrow> time \<Rightarrow> AuthenticatedUser \<Rightarrow> db \<Rightarrow> (api_error + MonitorView) \<times> db" where
  "pause i auditId now actor d =
     as_view actor (transaction (setLifecycle_tx i auditId now MonitorLifecycle.PAUSED
       IncidentClosureReason.PAUSED actor) d)"

definition resume_tx :: "id \<Rightarrow> id \<Rightarrow> time \<Rightarrow> AuthenticatedUser \<Rightarrow> MonitorRecord tx" where
  "resume_tx i auditId now actor d =
     (case managed_monitor i actor d of Inl e \<Rightarrow> Inl e
      | Inr current \<Rightarrow>
         if lifecycleStatus (mo_state current) = ACTIVE then Inr (monitorInclude d current, d)
         else
          (case first_slot i (mo_intervalSec current) now of Inl e \<Rightarrow> Inl e
           | Inr slot \<Rightarrow>
             (let d1 = update_monitor i (with_lifecycle ACTIVE (Some slot)) d
              in (case find_record i d1 of Inl e \<Rightarrow> Inl e
                  | Inr rec \<Rightarrow>
                    Inr (rec, write_audit (audit_row auditId (us_id actor) ''MONITOR_RESUMED'' ''Monitor'' i
                      None now) d1)))))"

definition resume ::
  "id \<Rightarrow> id \<Rightarrow> time \<Rightarrow> AuthenticatedUser \<Rightarrow> db \<Rightarrow> (api_error + MonitorView) \<times> db" where
  "resume i auditId now actor d = as_view actor (transaction (resume_tx i auditId now actor) d)"

definition remove_tx :: "id \<Rightarrow> id \<Rightarrow> time \<Rightarrow> AuthenticatedUser \<Rightarrow> unit tx" where
  "remove_tx i auditId now actor d =
     (case managed_monitor i actor d of Inl e \<Rightarrow> Inl e
      | Inr current \<Rightarrow>
         (let d1 = update_monitor i
                (\<lambda>m. (with_lifecycle MonitorLifecycle.DELETED None m)
                       \<lparr>mo_requestUrlEncrypted := secretTombstoneBytes, mo_deletedAt := Some now\<rparr>)
                (cancelRuntime i IncidentClosureReason.DELETED now d)
          in Inr ((), write_audit (audit_row auditId (us_id actor) ''MONITOR_DELETED'' ''Monitor'' i
               None now) d1)))"

definition remove :: "id \<Rightarrow> id \<Rightarrow> time \<Rightarrow> AuthenticatedUser \<Rightarrow> db \<Rightarrow> (api_error + unit) \<times> db" where
  "remove i auditId now actor d = transaction (remove_tx i auditId now actor) d"

end
