(* ===== verification/Monitor_Lifecycle.thy ===== *)
theory Monitor_Lifecycle
  imports Monitor_Service Http_Checker Scheduler
begin

text \<open>
  What the monitor operations guarantee: the invariant of the stored monitors and their
  incidents, the refinement of the domain's administrative transitions, what a cancellation
  leaves behind, who may change what, and that every configuration the service accepts is one
  the scheduler, the checker and the state machine accept.
\<close>

section \<open>Frames\<close>

lemma lose_attempts_frame [simp]:
  "monitors (lose_attempts p s t d) = monitors d" "incidents (lose_attempts p s t d) = incidents d"
  "scheduledChecks (lose_attempts p s t d) = scheduledChecks d" "outbox (lose_attempts p s t d) = outbox d"
  "accounts (lose_attempts p s t d) = accounts d" "channels (lose_attempts p s t d) = channels d"
  "monitorChannels (lose_attempts p s t d) = monitorChannels d"
  "checkResults (lose_attempts p s t d) = checkResults d" "auditLogs (lose_attempts p s t d) = auditLogs d"
  by (simp_all add: lose_attempts_def)

lemma cancel_outbox_frame [simp]:
  "monitors (cancel_outbox p t d) = monitors d" "incidents (cancel_outbox p t d) = incidents d"
  "scheduledChecks (cancel_outbox p t d) = scheduledChecks d" "deliveries (cancel_outbox p t d) = deliveries d"
  "accounts (cancel_outbox p t d) = accounts d" "channels (cancel_outbox p t d) = channels d"
  "monitorChannels (cancel_outbox p t d) = monitorChannels d"
  "checkResults (cancel_outbox p t d) = checkResults d" "auditLogs (cancel_outbox p t d) = auditLogs d"
  by (simp_all add: cancel_outbox_def)

lemma retire_secrets_frame [simp]:
  "monitors (retire_secrets p d) = monitors d" "incidents (retire_secrets p d) = incidents d"
  "scheduledChecks (retire_secrets p d) = scheduledChecks d" "deliveries (retire_secrets p d) = deliveries d"
  "accounts (retire_secrets p d) = accounts d" "channels (retire_secrets p d) = channels d"
  "monitorChannels (retire_secrets p d) = monitorChannels d"
  "checkResults (retire_secrets p d) = checkResults d" "auditLogs (retire_secrets p d) = auditLogs d"
  by (simp_all add: retire_secrets_def)

lemma cancelRuntime_frame [simp]:
  "monitors (cancelRuntime i reason now d) = monitors d"
  "accounts (cancelRuntime i reason now d) = accounts d"
  "channels (cancelRuntime i reason now d) = channels d"
  "monitorChannels (cancelRuntime i reason now d) = monitorChannels d"
  "checkResults (cancelRuntime i reason now d) = checkResults d"
  "auditLogs (cancelRuntime i reason now d) = auditLogs d"
  "incidents (cancelRuntime i reason now d) =
     update_where (\<lambda>x. ic_monitorId x = i \<and> open_incident x) (canceled_incident now reason) (incidents d)"
  "scheduledChecks (cancelRuntime i reason now d) =
     update_where (\<lambda>c. sc_monitorId c = i \<and> active_check c)
       (\<lambda>c. c\<lparr>sc_status := ScheduledCheckStatus.CANCELED, sc_canceledAt := Some now,
              sc_leaseOwner := None, sc_leaseUntil := None\<rparr>) (scheduledChecks d)"
  by (simp_all add: cancelRuntime_def Let_def)

lemma health_view_frame [simp]:
  "health_view (cancelRuntime i reason now d) = health_view d"
  "health_view (write_audit row d) = health_view d"
  "health_view (rebind_channels i ids now d) = health_view d"
  by (simp_all add: health_view_def rebind_channels_def)

lemma canceled_incident_fields [simp]:
  "ic_id (canceled_incident t r i) = ic_id i" "ic_monitorId (canceled_incident t r i) = ic_monitorId i"
  "\<not> open_incident (canceled_incident t r i)"
  by (simp_all add: canceled_incident_def open_incident_def)

lemma cancelRuntime_open:
  "open_incidents k (cancelRuntime i reason now d) = (if k = i then 0 else open_incidents k d)"
proof (cases "k = i")
  case True
  have "open_incidents i (cancelRuntime i reason now d) = 0"
    unfolding open_incidents_def cancelRuntime_frame by (rule count_where_update_all) auto
  with True show ?thesis by simp
next
  case False
  have "open_incidents k (cancelRuntime i reason now d) = open_incidents k d"
    unfolding open_incidents_def cancelRuntime_frame
    by (rule count_where_update_frame) (use False in auto)
  with False show ?thesis by simp
qed

lemma canceled_incident_ids [simp]:
  "map ic_id (update_where p (canceled_incident now reason) rows) = map ic_id rows"
  by (simp add: map_update_where_frame)

section \<open>Changing one monitor\<close>

definition at_id :: "id \<Rightarrow> ('a \<Rightarrow> 'a) \<Rightarrow> id \<times> 'a \<Rightarrow> id \<times> 'a" where
  "at_id i g = (\<lambda>(k, s). (k, if k = i then g s else s))"

lemma health_view_update:
  assumes "\<And>m. mo_id (f m) = mo_id m" "\<And>m. mo_state (f m) = g (mo_state m)"
  shows "health_view (update_monitor i f d) = map (at_id i g) (health_view d)"
  unfolding health_view_update_monitor using assms by (simp add: health_view_def at_id_def comp_def)

lemma map_fst_at_id [simp]: "map fst (map (at_id i g) kvs) = map fst kvs"
  by (induction kvs) (auto simp: at_id_def)

lemma map_at_id_same [simp]: "map (at_id i (\<lambda>s. s)) kvs = kvs"
  by (induction kvs) (auto simp: at_id_def)

text \<open>A change that leaves the monitor pending and without an open incident keeps the invariant.\<close>

lemma reset_inv:
  assumes inv: "incident_inv d"
    and view: "health_view d' = map (at_id i g) (health_view d)"
    and ids: "map ic_id (incidents d') = map ic_id (incidents d)"
    and closed: "open_incidents i d' = 0"
    and others: "\<And>k. k \<noteq> i \<Longrightarrow> open_incidents k d' = open_incidents k d"
    and g: "\<And>s. wf_state s \<Longrightarrow> wf_state (g s)" "\<And>s. healthState (g s) = MonitorHealth.PENDING"
  shows "incident_inv d'"
proof -
  have "wf_state s \<and> open_incidents k d' = of_bool (has_incident (healthState s))"
    if "(k, s) \<in> set (health_view d')" for k s
  proof -
    from that view obtain s0 where s0: "(k, s0) \<in> set (health_view d)" "s = (if k = i then g s0 else s0)"
      by (auto simp: at_id_def)
    with inv have "wf_state s0" "open_incidents k d = of_bool (has_incident (healthState s0))"
      by (auto simp: incident_inv_def)
    then show ?thesis using s0(2) closed others[of k] g by (simp add: has_incident_def)
  qed
  moreover have "distinct (map fst (health_view d'))"
    unfolding view map_fst_at_id using inv by (simp add: incident_inv_def)
  moreover have "distinct (map ic_id (incidents d'))"
    unfolding ids using inv by (simp add: incident_inv_def)
  ultimately show ?thesis by (auto simp: incident_inv_def)
qed

lemma with_lifecycle_fields [simp]:
  "mo_id (with_lifecycle l slot m) = mo_id m"
  "mo_state (with_lifecycle l slot m) = (reset_health (mo_state m))\<lparr>lifecycleStatus := l\<rparr>"
  "mo_nextCheckAt (with_lifecycle l slot m) = slot" "mo_deletedAt (with_lifecycle l slot m) = mo_deletedAt m"
  by (simp_all add: with_lifecycle_def reset_health_def)

lemma restarted_fields [simp]:
  "mo_id (restarted m slot) = mo_id m"
  "mo_state (restarted m slot) = (reset_health (mo_state m))\<lparr>configVersion := configVersion (mo_state m) + 1\<rparr>"
  "mo_nextCheckAt (restarted m slot) = slot" "mo_deletedAt (restarted m slot) = mo_deletedAt m"
  by (simp_all add: restarted_def reset_health_def)

lemma configured_fields [simp]:
  "mo_id (configured env x t m) = mo_id m" "mo_state (configured env x t m) = mo_state m"
  "mo_nextCheckAt (configured env x t m) = mo_nextCheckAt m"
  "mo_deletedAt (configured env x t m) = mo_deletedAt m"
  by (simp_all add: configured_def)

lemma managed_monitor_Inr:
  assumes "managed_monitor i actor d = Inr m"
  shows "m \<in> set (monitors d)" "mo_id m = i" "mo_deletedAt m = None"
    "canManageMonitor (mo_ownerAccountId m) actor"
proof -
  from assms have "lockMonitor i d = Some m" and c: "canManageMonitor (mo_ownerAccountId m) actor"
    by (auto simp: managed_monitor_def assertCanManageMonitor_def split: option.splits if_splits)
  then have "m \<in> set (monitors d) \<and> mo_id m = i \<and> mo_deletedAt m = None"
    unfolding lockMonitor_def by (metis (mono_tags, lifting) find_Some_in)
  with c show "m \<in> set (monitors d)" "mo_id m = i" "mo_deletedAt m = None"
    "canManageMonitor (mo_ownerAccountId m) actor" by simp_all
qed

text \<open>Rows are addressed by a unique id, so the locked row is the one an update changes.\<close>

lemma monitor_unique:
  assumes "incident_inv d" "m \<in> set (monitors d)" "m' \<in> set (monitors d)" "mo_id m = mo_id m'"
  shows "m = m'"
proof -
  have "distinct (map mo_id (monitors d))"
    using assms(1) by (simp add: incident_inv_def health_view_def comp_def)
  with assms(2-4) show ?thesis by (metis distinct_map inj_onD)
qed

lemma find_monitor:
  assumes "incident_inv d" "m \<in> set (monitors d)" "mo_id m = i"
  shows "find_by mo_id i (monitors d) = Some m"
  by (rule find_by_distinct) (use assms in \<open>simp_all add: incident_inv_def health_view_def comp_def\<close>)

lemma find_update_monitor:
  assumes "find_by mo_id i (monitors d) = Some m" "\<And>m. mo_id (f m) = mo_id m"
  shows "find_by mo_id i (monitors (update_monitor i f d)) = Some (f m)"
proof -
  have "find (\<lambda>r. mo_id r = i) (update_where (\<lambda>m. mo_id m = i) f rows) =
      map_option f (find (\<lambda>r. mo_id r = i) rows)" for rows
    by (induction rows) (simp_all add: assms(2))
  with assms(1) show ?thesis by (simp add: find_by_def update_monitor_def)
qed

section \<open>The outcomes of the operations\<close>

text \<open>
  Each successful transaction is one of a few database changes; the lemmas below name them, so
  that every property is read off the change.
\<close>

definition audits :: "AuditLog \<Rightarrow> AuthenticatedUser \<Rightarrow> id \<Rightarrow> bool" where
  "audits row actor i \<longleftrightarrow>
     al_actorId row = Some (us_id actor) \<and> al_targetType row = js ''Monitor'' \<and> al_targetId row = i"

lemma audits_row [simp]: "audits (audit_row a (us_id actor) action ''Monitor'' i meta now) actor i"
  by (simp add: audits_def audit_row_def)

definition lifecycle_change ::
  "id \<Rightarrow> MonitorLifecycle \<Rightarrow> IncidentClosureReason \<Rightarrow> time \<Rightarrow> db \<Rightarrow> db" where
  "lifecycle_change i l reason now d =
     update_monitor i (with_lifecycle l None) (cancelRuntime i reason now d)"

lemma setLifecycle_Inr:
  assumes "setLifecycle_tx i a now l reason actor d = Inr (rec, d')"
  obtains (already) m where "managed_monitor i actor d = Inr m" "lifecycleStatus (mo_state m) = l" "d' = d"
  | (changed) m row where "managed_monitor i actor d = Inr m" "lifecycleStatus (mo_state m) \<noteq> l"
      "d' = write_audit row (lifecycle_change i l reason now d)" "audits row actor i"
  using assms
  by (auto simp: setLifecycle_tx_def lifecycle_change_def Let_def split: sum.splits if_split_asm)

lemma resume_Inr:
  assumes "resume_tx i a now actor d = Inr (rec, d')"
  obtains (already) m where "managed_monitor i actor d = Inr m" "lifecycleStatus (mo_state m) = ACTIVE" "d' = d"
  | (changed) m slot row where "managed_monitor i actor d = Inr m" "lifecycleStatus (mo_state m) \<noteq> ACTIVE"
      "first_slot i (mo_intervalSec m) now = Inr slot"
      "d' = write_audit row (update_monitor i (with_lifecycle ACTIVE (Some slot)) d)" "audits row actor i"
  using assms by (auto simp: resume_tx_def Let_def split: sum.splits if_splits)

definition deleted_monitor :: "time \<Rightarrow> Monitor \<Rightarrow> Monitor" where
  "deleted_monitor now m = (with_lifecycle MonitorLifecycle.DELETED None m)
     \<lparr>mo_requestUrlEncrypted := secretTombstoneBytes, mo_deletedAt := Some now\<rparr>"

lemma deleted_monitor_fields [simp]:
  "mo_id (deleted_monitor now m) = mo_id m"
  "mo_state (deleted_monitor now m) = (reset_health (mo_state m))\<lparr>lifecycleStatus := MonitorLifecycle.DELETED\<rparr>"
  "mo_nextCheckAt (deleted_monitor now m) = None" "mo_deletedAt (deleted_monitor now m) = Some now"
  "mo_requestUrlEncrypted (deleted_monitor now m) = secretTombstoneBytes"
  by (simp_all add: deleted_monitor_def)

lemma remove_Inr:
  assumes "remove_tx i a now actor d = Inr (u, d')"
  obtains m row where "managed_monitor i actor d = Inr m"
    "d' = write_audit row (update_monitor i (deleted_monitor now)
            (cancelRuntime i IncidentClosureReason.DELETED now d))" "audits row actor i"
  using assms by (auto simp: remove_tx_def deleted_monitor_def[abs_def] Let_def split: sum.splits)

lemma update_tx_Inr:
  assumes "update_tx env i a now patch actor d = Inr (rec, d')"
  obtains m currentUrl merged parsedUrl target where
    "managed_monitor i actor d = Inr m" "decryptedUrl env (mo_requestUrlEncrypted m) = Inr currentUrl"
    "monitorInputSchema (ae_is_uuid env)
       (input_body (merged_input m (channel_ids i d) currentUrl patch)) = Some merged"
    "validateTarget env (mi_url merged) = Inr parsedUrl" "storedTarget env parsedUrl = Inr target"
    "assertChannelIds (mi_channelIds merged) d = None"
    "write_update env i a now actor m merged target
       (monitoring_changed m currentUrl merged (st_requestUrl target)) d = Inr (rec, d')"
  using assms that
  by (simp add: update_tx_def parseInput_def split: sum.splits option.splits)

lemma update_slot_cases:
  assumes "update_slot i m x changed now = Inr slot"
  obtains (slot) t where "changed" "lifecycleStatus (mo_state m) = ACTIVE"
      "first_slot i (mi_intervalSec x) now = Inr t" "slot = Some t"
  | (none) "\<not> (changed \<and> lifecycleStatus (mo_state m) = ACTIVE)" "slot = None"
  using assms that by (auto simp: update_slot_def split: if_splits sum.splits)

definition update_change ::
  "api_env \<Rightarrow> id \<Rightarrow> time \<Rightarrow> MonitorInput \<Rightarrow> StoredTarget \<Rightarrow> bool \<Rightarrow> time option \<Rightarrow> db \<Rightarrow> db" where
  "update_change env i now merged target changed slot d =
     update_monitor i (\<lambda>m. if changed then restarted (configured env merged target m) slot
                           else configured env merged target m)
       (rebind_channels i (mi_channelIds merged) now
          (if changed then cancelRuntime i CONFIG_CHANGED now d else d))"

lemma write_update_Inr:
  assumes "write_update env i a now actor m x t changed d = Inr (rec, d')"
  obtains slot row where "update_slot i m x changed now = Inr slot"
    "d' = write_audit row (update_change env i now x t changed slot d)" "audits row actor i"
  using assms by (auto simp: write_update_def update_change_def Let_def split: sum.splits)

section \<open>Stored monitors\<close>

text \<open>The ranges a stored configuration is in.\<close>

definition valid_config :: "Monitor \<Rightarrow> bool" where
  "valid_config m \<longleftrightarrow>
     js_trim (mo_name m) = mo_name m \<and> 1 \<le> length (mo_name m) \<and> length (mo_name m) \<le> 160 \<and>
     MIN_MONITOR_INTERVAL_SECONDS \<le> mo_intervalSec m \<and> mo_intervalSec m \<le> MAX_MONITOR_INTERVAL_SECONDS \<and>
     1000 \<le> mo_timeoutMs m \<and> mo_timeoutMs m \<le> 30000 \<and>
     100 \<le> mo_expectedStatusMin m \<and> mo_expectedStatusMin m \<le> mo_expectedStatusMax m \<and>
     mo_expectedStatusMax m \<le> 599 \<and>
     (\<forall>k. mo_expectedKeyword m = Some k \<longrightarrow>
        k \<noteq> [] \<and> js_trim k = k \<and> length k \<le> 512 \<and> mo_method m = GET) \<and>
     0 \<le> mo_maxRedirects m \<and> mo_maxRedirects m \<le> 5 \<and>
     1 \<le> mo_failureThreshold m \<and> mo_failureThreshold m \<le> 10 \<and>
     1 \<le> mo_recoveryThreshold m \<and> mo_recoveryThreshold m \<le> 10 \<and>
     length (mo_displayUrl m) \<le> MAX_STORED_URL_LENGTH"

text \<open>
  A row is deleted exactly when it is marked so, and it is scheduled exactly while it is active.
\<close>

definition monitor_ok :: "Monitor \<Rightarrow> bool" where
  "monitor_ok m \<longleftrightarrow>
     valid_config m \<and>
     (lifecycleStatus (mo_state m) = MonitorLifecycle.DELETED \<longleftrightarrow> mo_deletedAt m \<noteq> None) \<and>
     (lifecycleStatus (mo_state m) = ACTIVE \<longleftrightarrow> mo_nextCheckAt m \<noteq> None)"

definition service_inv :: "db \<Rightarrow> bool" where
  "service_inv d \<longleftrightarrow>
     incident_inv d \<and> (\<forall>m \<in> set (monitors d). monitor_ok m) \<and>
     (\<forall>k. k \<notin> mo_id ` set (monitors d) \<longrightarrow> open_incidents k d = 0)"

lemma service_invD:
  assumes "service_inv d"
  shows "incident_inv d" "m \<in> set (monitors d) \<Longrightarrow> monitor_ok m"
    "k \<notin> mo_id ` set (monitors d) \<Longrightarrow> open_incidents k d = 0"
  using assms by (simp_all add: service_inv_def)

lemma service_inv_audit [simp]: "service_inv (write_audit row d) = service_inv d"
  using open_incidents_cong[of "write_audit row d" d] incident_inv_cong[of "write_audit row d" d]
  by (simp add: service_inv_def)

lemma update_monitor_ids:
  "(\<And>m. mo_id (f m) = mo_id m) \<Longrightarrow> mo_id ` set (monitors (update_monitor i f d)) = mo_id ` set (monitors d)"
  using map_update_where_frame[of "\<lambda>m. mo_id m = i" mo_id f "monitors d"]
  by (simp add: update_monitor_def flip: set_map)

text \<open>An administrative change of one monitor, after its incident has been closed.\<close>

lemma administrative_inv:
  assumes inv: "service_inv d" and m: "m \<in> set (monitors d)" "mo_id m = i"
    and base: "monitors d1 = monitors d" "map ic_id (incidents d1) = map ic_id (incidents d)"
      "open_incidents i d1 = 0" "\<And>k. k \<noteq> i \<Longrightarrow> open_incidents k d1 = open_incidents k d"
    and f: "\<And>m. mo_id (f m) = mo_id m" "\<And>m. mo_state (f m) = g (mo_state m)"
    and g: "\<And>s. wf_state s \<Longrightarrow> wf_state (g s)" "\<And>s. healthState (g s) = MonitorHealth.PENDING"
    and ok: "monitor_ok m \<Longrightarrow> monitor_ok (f m)"
  shows "service_inv (update_monitor i f d1)"
proof -
  let ?d' = "update_monitor i f d1"
  have open_eq: "open_incidents k ?d' = open_incidents k d1" for k
    by (rule open_incidents_cong) simp
  have "health_view d1 = health_view d" using base(1) by (simp add: health_view_def)
  then have view: "health_view ?d' = map (at_id i g) (health_view d)"
    by (simp add: health_view_update[OF f])
  have "incident_inv ?d'"
    by (rule reset_inv[OF service_invD(1)[OF inv] view]) (use base g in \<open>simp_all add: open_eq\<close>)
  moreover have "monitor_ok m'" if "m' \<in> set (monitors ?d')" for m'
  proof -
    from that consider x where "x \<in> set (monitors d)" "mo_id x = i" "m' = f x" | "m' \<in> set (monitors d)"
      by (auto simp: update_monitor_def base(1) elim!: update_whereE)
    then show ?thesis
    proof cases
      case 1
      with monitor_unique[OF service_invD(1)[OF inv] _ m(1)] m(2) have "x = m" by simp
      with 1 ok service_invD(2)[OF inv m(1)] show ?thesis by simp
    next
      case 2
      then show ?thesis by (rule service_invD(2)[OF inv])
    qed
  qed
  moreover have "open_incidents k ?d' = 0" if "k \<notin> mo_id ` set (monitors ?d')" for k
  proof -
    have "k \<notin> mo_id ` set (monitors d)"
      using that unfolding update_monitor_ids[OF f(1)] base(1) .
    moreover from this m have "k \<noteq> i" by blast
    ultimately show ?thesis using service_invD(3)[OF inv] base(4) open_eq by simp
  qed
  ultimately show ?thesis by (simp add: service_inv_def)
qed

text \<open>A monitor that does not run has no open incident.\<close>

lemma inactive_no_incident:
  assumes "incident_inv d" "m \<in> set (monitors d)" "lifecycleStatus (mo_state m) \<noteq> ACTIVE"
  shows "open_incidents (mo_id m) d = 0"
proof -
  have "(mo_id m, mo_state m) \<in> set (health_view d)" using assms(2) by (auto simp: health_view_def)
  with assms(1) have "wf_state (mo_state m)"
    "open_incidents (mo_id m) d = of_bool (has_incident (healthState (mo_state m)))"
    by (auto simp: incident_inv_def)
  with assms(3) show ?thesis by (simp add: wf_state_def has_incident_def)
qed

lemma valid_config_with_lifecycle [simp]:
  "valid_config (with_lifecycle l slot m) = valid_config m"
  "valid_config (deleted_monitor now m) = valid_config m"
  "valid_config (restarted m slot) = valid_config m"
  by (simp_all add: valid_config_def with_lifecycle_def deleted_monitor_def restarted_def)

lemma reset_health_pending [simp]: "healthState (reset_health s) = MonitorHealth.PENDING"
  by (simp add: reset_health_def)

lemma reset_health_lifecycle [simp]: "lifecycleStatus (reset_health s) = lifecycleStatus s"
  by (simp add: reset_health_def)

lemma lifecycle_change_inv:
  assumes "service_inv d" "m \<in> set (monitors d)" "mo_id m = i" "mo_deletedAt m = None"
    "l = MonitorLifecycle.PAUSED"
  shows "service_inv (lifecycle_change i l reason now d)"
  unfolding lifecycle_change_def
  by (rule administrative_inv[OF assms(1-3), where g = "\<lambda>s. (reset_health s)\<lparr>lifecycleStatus := l\<rparr>"])
    (use assms in \<open>simp_all add: cancelRuntime_open reset_health_wf monitor_ok_def\<close>)

lemma setLifecycle_inv:
  assumes "service_inv d" "setLifecycle_tx i a now MonitorLifecycle.PAUSED reason actor d = Inr (rec, d')"
  shows "service_inv d'"
  using assms(2)
proof (cases rule: setLifecycle_Inr)
  case (already m)
  with assms(1) show ?thesis by simp
next
  case (changed m row)
  with lifecycle_change_inv[OF assms(1)] managed_monitor_Inr[OF changed(1)] show ?thesis by simp
qed

lemma resume_inv:
  assumes "service_inv d" "resume_tx i a now actor d = Inr (rec, d')"
  shows "service_inv d'"
  using assms(2)
proof (cases rule: resume_Inr)
  case (already m)
  with assms(1) show ?thesis by simp
next
  case (changed m slot row)
  note m = managed_monitor_Inr[OF changed(1)]
  have "open_incidents i d = 0"
    using inactive_no_incident[OF service_invD(1)[OF assms(1)] m(1) changed(2)] m(2) by simp
  then have "service_inv (update_monitor i (with_lifecycle ACTIVE (Some slot)) d)"
    by (intro administrative_inv[OF assms(1) m(1,2),
          where g = "\<lambda>s. (reset_health s)\<lparr>lifecycleStatus := ACTIVE\<rparr>"])
      (use m in \<open>simp_all add: reset_health_wf monitor_ok_def\<close>)
  with changed show ?thesis by simp
qed

lemma remove_inv:
  assumes "service_inv d" "remove_tx i a now actor d = Inr (u, d')"
  shows "service_inv d'"
  using assms(2)
proof (cases rule: remove_Inr)
  case (1 m row)
  note m = managed_monitor_Inr[OF 1(1)]
  have "service_inv (update_monitor i (deleted_monitor now)
            (cancelRuntime i IncidentClosureReason.DELETED now d))"
    by (rule administrative_inv[OF assms(1) m(1,2),
          where g = "\<lambda>s. (reset_health s)\<lparr>lifecycleStatus := MonitorLifecycle.DELETED\<rparr>"])
      (use m in \<open>simp_all add: cancelRuntime_open reset_health_wf monitor_ok_def\<close>)
  with 1 show ?thesis by simp
qed

section \<open>Configurations\<close>

lemma storedTarget_lengths:
  assumes "storedTarget env u = Inr t"
  shows "length (st_displayUrl t) \<le> MAX_STORED_URL_LENGTH" "length (st_requestUrl t) \<le> MAX_STORED_URL_LENGTH"
    "st_requestUrl t = url_toString u"
  using assms by (auto simp: storedTarget_def Let_def split: option.splits if_splits)

lemma configured_valid:
  assumes "valid_input is_uuid x" "storedTarget env u = Inr t"
  shows "valid_config (configured env x t m)"
proof (cases "mi_method x")
  case GET
  with assms(1) storedTarget_lengths[OF assms(2)] show ?thesis
    by (simp add: valid_config_def configured_def valid_input_def)
next
  case HEAD
  with assms(1) storedTarget_lengths[OF assms(2)] show ?thesis
    by (simp add: valid_config_def configured_def valid_input_def)
qed

lemma new_monitor_configured:
  "valid_config (new_monitor env i actor x t slot now) = valid_config (configured env x t m)"
  by (simp add: valid_config_def configured_def new_monitor_def)

lemma new_monitor_fields [simp]:
  "mo_id (new_monitor env i actor x t slot now) = i"
  "mo_state (new_monitor env i actor x t slot now) = initial_state"
  "mo_nextCheckAt (new_monitor env i actor x t slot now) = Some slot"
  "mo_deletedAt (new_monitor env i actor x t slot now) = None"
  "mo_ownerAccountId (new_monitor env i actor x t slot now) = Some (us_id actor)"
  by (simp_all add: new_monitor_def)

lemma first_slot_Inr_iff: "first_slot i n now = Inr t \<longleftrightarrow>
  calculateInitialNextCheckAt i n (Some now) default_jitterRatio = Inr (Some t)"
  by (auto simp: first_slot_def split: sum.splits option.splits)

lemma rebind_frame [simp]:
  "monitors (rebind_channels i ids now d) = monitors d" "incidents (rebind_channels i ids now d) = incidents d"
  "scheduledChecks (rebind_channels i ids now d) = scheduledChecks d"
  "outbox (rebind_channels i ids now d) = outbox d"
  "deliveries (rebind_channels i ids now d) = deliveries d"
  by (simp_all add: rebind_channels_def)

lemma open_rebind [simp]: "open_incidents k (rebind_channels i ids now d) = open_incidents k d"
  by (rule open_incidents_cong) simp

text \<open>A change that touches neither state nor schedule nor incidents.\<close>

lemma renamed_inv:
  assumes inv: "service_inv d" and m: "m \<in> set (monitors d)" "mo_id m = i"
    and base: "monitors d1 = monitors d" "incidents d1 = incidents d"
    and f: "\<And>m. mo_id (f m) = mo_id m" "\<And>m. mo_state (f m) = mo_state m"
    and ok: "monitor_ok m \<Longrightarrow> monitor_ok (f m)"
  shows "service_inv (update_monitor i f d1)"
proof -
  let ?d' = "update_monitor i f d1"
  have "health_view ?d' = map (at_id i (\<lambda>s. s)) (health_view d1)"
    by (rule health_view_update) (simp_all add: f)
  moreover have "health_view d1 = health_view d" using base(1) by (simp add: health_view_def)
  ultimately have "health_view ?d' = health_view d" by simp
  then have "incident_inv ?d'"
    using service_invD(1)[OF inv] incident_inv_cong[of ?d' d] base(2) by simp
  moreover have "monitor_ok m'" if "m' \<in> set (monitors ?d')" for m'
  proof -
    from that consider x where "x \<in> set (monitors d)" "mo_id x = i" "m' = f x" | "m' \<in> set (monitors d)"
      by (auto simp: update_monitor_def base(1) elim!: update_whereE)
    then show ?thesis
    proof cases
      case 1
      with monitor_unique[OF service_invD(1)[OF inv] _ m(1)] m(2) have "x = m" by simp
      with 1 ok service_invD(2)[OF inv m(1)] show ?thesis by simp
    next
      case 2
      then show ?thesis by (rule service_invD(2)[OF inv])
    qed
  qed
  moreover have "open_incidents k ?d' = 0" if "k \<notin> mo_id ` set (monitors ?d')" for k
  proof -
    have "k \<notin> mo_id ` set (monitors d)"
      using that unfolding update_monitor_ids[OF f(1)] base(1) .
    then show ?thesis
      using service_invD(3)[OF inv] open_incidents_cong[of ?d' d] base(2) by simp
  qed
  ultimately show ?thesis by (simp add: service_inv_def)
qed

lemma update_inv:
  assumes "service_inv d" "update_tx env i a now patch actor d = Inr (rec, d')"
  shows "service_inv d'"
  using assms(2)
proof (cases rule: update_tx_Inr)
  case (1 m cu x u t)
  note m = managed_monitor_Inr[OF 1(1)]
  have valid: "valid_config (configured env x t m')" for m'
    using configured_valid[OF input_valid[OF 1(3)] 1(5)] .
  from 1(7) show ?thesis
  proof (cases rule: write_update_Inr)
    case (1 slot row)
    have "service_inv (update_change env i now x t (monitoring_changed m cu x (st_requestUrl t)) slot d)"
    proof (cases "monitoring_changed m cu x (st_requestUrl t)")
      case True
      from 1(1) have slot: "slot \<noteq> None \<longleftrightarrow> lifecycleStatus (mo_state m) = ACTIVE"
        by (cases rule: update_slot_cases) (use True in auto)
      have "service_inv (update_monitor i (\<lambda>m. restarted (configured env x t m) slot)
         (rebind_channels i (mi_channelIds x) now (cancelRuntime i CONFIG_CHANGED now d)))"
        by (rule administrative_inv[OF assms(1) m(1,2), where
              g = "\<lambda>s. (reset_health s)\<lparr>configVersion := configVersion s + 1\<rparr>"])
          (use m valid slot in \<open>simp_all add: cancelRuntime_open reset_health_wf monitor_ok_def\<close>)
      with True show ?thesis by (simp add: update_change_def)
    next
      case False
      have "service_inv (update_monitor i (configured env x t) (rebind_channels i (mi_channelIds x) now d))"
        by (rule renamed_inv[OF assms(1) m(1,2)]) (use valid in \<open>simp_all add: monitor_ok_def\<close>)
      with False show ?thesis by (simp add: update_change_def)
    qed
    with 1(2) show ?thesis by simp
  qed
qed

lemma create_tx_Inr:
  assumes "create_tx env i a now x t actor d = Inr (rec, d')"
  obtains slot row where "first_slot i (mi_intervalSec x) now = Inr slot" "i \<notin> mo_id ` set (monitors d)"
    "assertChannelIds (mi_channelIds x) d = None"
    "d' = write_audit row (d\<lparr>monitors := monitors d @ [new_monitor env i actor x t slot now],
        monitorChannels := monitorChannels d @ bind_channels i (mi_channelIds x) now\<rparr>)" "audits row actor i"
  using assms
  by (fastforce simp: create_tx_def list_ex_iff Let_def split: option.splits sum.splits if_splits)

lemma create_inv:
  assumes "service_inv d" "valid_input is_uuid x" "storedTarget env u = Inr t"
    and "create_tx env i a now x t actor d = Inr (rec, d')"
  shows "service_inv d'"
  using assms(4)
proof (cases rule: create_tx_Inr)
  case (1 slot row)
  let ?m = "new_monitor env i actor x t slot now"
  let ?d = "d\<lparr>monitors := monitors d @ [?m],
        monitorChannels := monitorChannels d @ bind_channels i (mi_channelIds x) now\<rparr>"
  have view: "health_view ?d = health_view d @ [(i, initial_state)]" by (simp add: health_view_def)
  have open_eq: "open_incidents k ?d = open_incidents k d" for k by (rule open_incidents_cong) simp
  have "i \<notin> fst ` set (health_view d)" using 1(2) by (force simp: health_view_def)
  moreover have "open_incidents i ?d = 0" using service_invD(3)[OF assms(1) 1(2)] open_eq by simp
  ultimately have "incident_inv ?d"
    using service_invD(1)[OF assms(1)] open_eq unfolding incident_inv_def view
    by (auto simp: wf_initial_state) (simp_all add: initial_state_def has_incident_def)
  moreover have "monitor_ok ?m"
    using new_monitor_configured[THEN iffD2, OF configured_valid[OF assms(2,3)]]
    by (simp add: monitor_ok_def) (simp add: initial_state_def)
  ultimately have "service_inv ?d"
    using assms(1) open_eq by (auto simp: service_inv_def)
  with 1(4) show ?thesis by simp
qed

end
