(* ===== verification/Monitoring_System.thy ===== *)
theory Monitoring_System
  imports Monitor_Lifecycle
begin

text \<open>
  The monitor service, the scheduler and the check processor on one database: the step relation
  of their transactions, the invariant every reachable database has, the refinement of the
  domain's administrative transitions, and the guarantees of the monitor operations.
\<close>

section \<open>Scheduler and check processor keep the stored monitors\<close>

definition keeps_rows :: "db \<Rightarrow> db \<Rightarrow> bool" where
  "keeps_rows d d' \<longleftrightarrow>
     (\<exists>h. monitors d' = map h (monitors d) \<and> (\<forall>m. monitor_ok (h m) = monitor_ok m \<and> mo_id (h m) = mo_id m))"

lemma keeps_rows_same: "monitors d' = monitors d \<Longrightarrow> keeps_rows d d'"
  unfolding keeps_rows_def by (intro exI[of _ "\<lambda>m. m"]) simp

lemma keeps_rows_trans: "keeps_rows d d1 \<Longrightarrow> keeps_rows d1 d2 \<Longrightarrow> keeps_rows d d2"
  unfolding keeps_rows_def by (elim exE) (rule exI[of _ "_ \<circ> _"], auto)

lemma keeps_rows_update:
  "(\<And>m. monitor_ok (f m) = monitor_ok m) \<Longrightarrow> (\<And>m. mo_id (f m) = mo_id m) \<Longrightarrow>
   keeps_rows d (update_monitor i f d)"
  unfolding keeps_rows_def
  by (intro exI[of _ "\<lambda>m. if mo_id m = i then f m else m"]) (simp add: update_monitor_def update_where_def)

lemma keeps_rows_ids: "keeps_rows d d' \<Longrightarrow> mo_id ` set (monitors d') = mo_id ` set (monitors d)"
  unfolding keeps_rows_def by (auto simp: image_image)

lemma keeps_rows_ok:
  assumes "keeps_rows d d'" "\<forall>m \<in> set (monitors d). monitor_ok m" "m \<in> set (monitors d')"
  shows "monitor_ok m"
proof -
  from assms(1) obtain h where "monitors d' = map h (monitors d)" "\<And>m. monitor_ok (h m) = monitor_ok m"
    unfolding keeps_rows_def by blast
  with assms(2,3) show ?thesis by auto
qed

lemma unknownSince_ok [simp]: "monitor_ok (m\<lparr>mo_networkUnknownSince := t\<rparr>) = monitor_ok m"
  by (simp add: monitor_ok_def valid_config_def)

lemma monitorUpdate_ok [simp]:
  "monitor_ok (monitorUpdate r t m) = monitor_ok m" "mo_id (monitorUpdate r t m) = mo_id m"
  by (simp_all add: monitor_ok_def valid_config_def monitorUpdate_def Let_def)

lemma observe_rows:
  "keeps_rows d (observe_recheck g m c r (observe_inconclusive g u m c r d))"
proof -
  let ?d1 = "observe_inconclusive g u m c r d"
  have "monitors ?d1 = monitors d \<or>
      (\<exists>t. monitors ?d1 = monitors (update_monitor (mo_id m) (\<lambda>m. m\<lparr>mo_networkUnknownSince := t\<rparr>) d))"
    by (auto simp: observe_inconclusive_def Let_def split: option.splits)
  then have "keeps_rows d ?d1"
  proof
    assume "\<exists>t. monitors ?d1 = monitors (update_monitor (mo_id m) (\<lambda>m. m\<lparr>mo_networkUnknownSince := t\<rparr>) d)"
    then obtain t where
      t: "monitors ?d1 = monitors (update_monitor (mo_id m) (\<lambda>m. m\<lparr>mo_networkUnknownSince := t\<rparr>) d)" ..
    have "keeps_rows d (update_monitor (mo_id m) (\<lambda>m. m\<lparr>mo_networkUnknownSince := t\<rparr>) d)"
      by (rule keeps_rows_update) simp_all
    with t show ?thesis by (simp add: keeps_rows_def)
  qed (rule keeps_rows_same)
  moreover have "monitors (observe_recheck g m c r ?d1) = monitors ?d1"
    by (simp add: observe_recheck_def)
  ultimately show ?thesis using keeps_rows_same keeps_rows_trans by blast
qed

lemma persist_valid_rows:
  assumes "persist_valid config rt g u m c r now d = Inr d'"
  shows "keeps_rows d d'"
  using assms
proof (rule persist_valid_Inr)
  fix t
  let ?d1 = "observe_recheck g m c r (observe_inconclusive g u m c r d)"
  assume step: "(if applied t then applyIncidentEffect config rt (rt_incidentId rt (sc_id c)) m r
        (incidentEffect t) now (update_monitor (mo_id m) (monitorUpdate r t) ?d1) else Inr ?d1) = Inr d'"
  show ?thesis
  proof (cases "applied t")
    case True
    with step have "monitors d' = monitors (update_monitor (mo_id m) (monitorUpdate r t) ?d1)"
      by (auto dest!: applyIncidentEffect_frame) (metis db.ext_inject db.surjective db.update_convs(6,9))
    moreover have "keeps_rows ?d1 (update_monitor (mo_id m) (monitorUpdate r t) ?d1)"
      by (rule keeps_rows_update) simp_all
    ultimately show ?thesis
      using observe_rows keeps_rows_trans keeps_rows_same by blast
  next
    case False
    with step have "d' = ?d1" by simp
    then show ?thesis by (simp only: observe_rows)
  qed
qed

lemma persist_valid_others:
  assumes inv: "incident_inv d" and m: "find_by mo_id k (monitors d) = Some m"
    and res: "persist_valid config rt g u m c r now d = Inr d'" and x: "x \<noteq> k"
  shows "open_incidents x d' = open_incidents x d"
  using res
proof (rule persist_valid_Inr)
  fix t
  let ?d1 = "observe_recheck g m c r (observe_inconclusive g u m c r d)"
  let ?d2 = "update_monitor (mo_id m) (monitorUpdate r t) ?d1"
  assume t: "applyCheckResult (mo_state m) (transition_input m c r) = Inr t"
    and step: "(if applied t then applyIncidentEffect config rt (rt_incidentId rt (sc_id c)) m r
        (incidentEffect t) now ?d2 else Inr ?d1) = Inr d'"
  have same: "open_incidents y ?d1 = open_incidents y d" "open_incidents y ?d2 = open_incidents y d" for y
    by (rule open_incidents_cong, simp)+
  show ?thesis
  proof (cases "applied t")
    case True
    from m have id: "mo_id m = k" "m \<in> set (monitors d)" using find_by_Some[OF m] by simp_all
    then have "(mo_id m, mo_state m) \<in> set (health_view d)" by (auto simp: health_view_def)
    with inv have "open_incidents (mo_id m) ?d2 = of_bool (has_incident (healthState (mo_state m)))"
      unfolding same by (auto simp: incident_inv_def)
    moreover have "distinct (map ic_id (incidents ?d2))" using inv by (simp add: incident_inv_def)
    ultimately have "open_incidents x d' = open_incidents x ?d2"
      using applyIncidentEffect_open[OF _ _ applyCheckResult_effect[OF t]] applyCheckResult_no_cancel[OF t]
        True step x id by (metis (full_types))
    then show ?thesis by (simp add: same)
  next
    case False
    with step same show ?thesis by simp
  qed
qed

lemma persist_service_inv:
  assumes inv: "service_inv d" and fresh: "rt_incidentId rt (sc_id oc) \<notin> ic_id ` set (incidents d)"
    and res: "persist config rt g oc om r u now d = (out, d')"
  shows "service_inv d'"
proof -
  have "keeps_rows d d' \<and> (\<forall>k. k \<notin> mo_id ` set (monitors d) \<longrightarrow> open_incidents k d' = open_incidents k d)"
  proof (cases "\<exists>st. persist_tx config rt g oc om r u now d = Inr (st, d')")
    case False
    with res have "d' = d"
      by (cases out) (auto dest: persist_Inl persist_Inr)
    then show ?thesis by (simp add: keeps_rows_same)
  next
    case True
    then obtain st where "persist_tx config rt g oc om r u now d = Inr (st, d')" ..
    then show ?thesis
    proof (cases rule: persist_tx_Inr)
      case skipped
      then show ?thesis by (simp add: keeps_rows_same)
    next
      case (written c m d1 d2)
      have f: "monitors d1 = monitors d" "health_view d1 = health_view d" "incidents d1 = incidents d"
        by (simp_all add: written(4) health_view_def)
      have inv1: "incident_inv d1" using service_invD(1)[OF inv] incident_inv_cong[OF f(2,3)] by simp
      have m1: "find_by mo_id (sc_monitorId oc) (monitors d1) = Some m" using written(3) f(1) by simp
      then have known: "sc_monitorId oc \<in> mo_id ` set (monitors d)"
        using find_by_Some[OF written(3)] by (metis image_eqI)
      have "keeps_rows d1 d2 \<and> (\<forall>k. k \<noteq> sc_monitorId oc \<longrightarrow> open_incidents k d2 = open_incidents k d1)"
      proof (cases "result_valid c m")
        case True
        with written(6) have v: "persist_valid config rt g u m c r now d1 = Inr d2" by simp
        from persist_valid_rows[OF v] persist_valid_others[OF inv1 m1 v] show ?thesis by blast
      next
        case False
        with written(6) show ?thesis by (simp add: keeps_rows_same)
      qed
      then have mid: "keeps_rows d1 d2"
        "\<And>k. k \<noteq> sc_monitorId oc \<Longrightarrow> open_incidents k d2 = open_incidents k d1" by blast+
      have fin: "monitors d' = monitors d2" "incidents d' = incidents d2"
        by (simp_all add: written(7))
      have rows: "keeps_rows d d'"
        by (rule keeps_rows_trans[OF keeps_rows_same[OF f(1)] keeps_rows_trans[OF mid(1)
              keeps_rows_same[OF fin(1)]]])
      have others: "open_incidents k d' = open_incidents k d" if "k \<notin> mo_id ` set (monitors d)" for k
      proof -
        from that known have "k \<noteq> sc_monitorId oc" by metis
        from mid(2)[OF this] show ?thesis
          using open_incidents_cong[OF fin(2)] open_incidents_cong[OF f(3)] by simp
      qed
      from rows others show ?thesis by simp
    qed
  qed
  then have rows: "keeps_rows d d'"
    and others: "\<And>k. k \<notin> mo_id ` set (monitors d) \<Longrightarrow> open_incidents k d' = open_incidents k d" by blast+
  moreover have "incident_inv d'" by (rule persist_inv[OF service_invD(1)[OF inv] fresh res])
  ultimately show ?thesis
    using inv keeps_rows_ids[OF rows] keeps_rows_ok[OF rows] by (auto simp: service_inv_def)
qed

text \<open>The scheduler moves only the slots of active monitors.\<close>

lemma set_next_inv:
  assumes inv: "service_inv d" and active: "\<And>m. m \<in> set (monitors d) \<Longrightarrow> mo_id m = i \<Longrightarrow> lifecycleStatus (mo_state m) = ACTIVE"
  shows "service_inv (set_nextCheckAt i (Some t) d)" "health_view (set_nextCheckAt i (Some t) d) = health_view d"
proof -
  let ?d' = "set_nextCheckAt i (Some t) d"
  show view: "health_view ?d' = health_view d"
    by (auto simp: health_view_def set_nextCheckAt_def update_where_def)
  have "incidents ?d' = incidents d" by (simp add: set_nextCheckAt_def)
  note same = open_incidents_cong[OF this]
  have "incident_inv ?d'"
    using service_invD(1)[OF inv] incident_inv_cong[OF view] by (simp add: set_nextCheckAt_def)
  moreover have "monitor_ok m'" if "m' \<in> set (monitors ?d')" for m'
  proof -
    from that consider m where "m \<in> set (monitors d)" "mo_id m = i" "m' = m\<lparr>mo_nextCheckAt := Some t\<rparr>"
      | "m' \<in> set (monitors d)"
      by (auto simp: set_nextCheckAt_def elim!: update_whereE)
    then show ?thesis
    proof cases
      case 1
      with active service_invD(2)[OF inv 1(1)] show ?thesis by (simp add: monitor_ok_def valid_config_def)
    qed (rule service_invD(2)[OF inv])
  qed
  moreover have "mo_id ` set (monitors ?d') = mo_id ` set (monitors d)"
    using map_update_where_frame[of "\<lambda>m. mo_id m = i" mo_id "\<lambda>r. r\<lparr>mo_nextCheckAt := Some t\<rparr>" "monitors d"]
    by (simp add: set_nextCheckAt_def flip: set_map)
  ultimately show "service_inv ?d'" using service_invD(3)[OF inv] same by (simp add: service_inv_def)
qed

lemma create_due_check_inv:
  assumes "create_due_check newId now m (acc, d) = Inr (acc', d')" "service_inv d"
    and "\<And>r. r \<in> set (monitors d) \<Longrightarrow> mo_id r = mo_id m \<Longrightarrow> lifecycleStatus (mo_state r) = ACTIVE"
  shows "service_inv d' \<and> health_view d' = health_view d"
proof -
  from assms(1) consider "d' = d" | c t d1 where "create_check c d = Inr d1" "d' = set_nextCheckAt (mo_id m) (Some t) d1"
    by (auto simp: create_due_check_def Let_def split: sum.splits option.splits)
  then show ?thesis
  proof cases
    case 1
    with assms(2) show ?thesis by simp
  next
    case 2
    let ?d1 = "d\<lparr>scheduledChecks := scheduledChecks d @ [c]\<rparr>"
    have d1: "d1 = ?d1" by (rule create_check_Inr[OF 2(1)])
    have view: "health_view ?d1 = health_view d" by (simp add: health_view_def)
    have "service_inv ?d1"
      using assms(2) incident_inv_cong[of ?d1 d] open_incidents_cong[of ?d1 d] view
      by (simp add: service_inv_def)
    from set_next_inv[OF this, of "mo_id m" t] assms(3) 2(2) d1 view show ?thesis by simp
  qed
qed

lemma createDueChecks_inv:
  assumes "createDueChecks locked newId now limit d = Inr (summaries, d')" "service_inv d"
  shows "service_inv d'"
proof -
  have active: "lifecycleStatus (mo_state r) = ACTIVE"
    if m: "m \<in> set (due_monitors locked now limit d)" and view: "health_view e = health_view d"
      and r: "r \<in> set (monitors e)" "mo_id r = mo_id m" for m e r
  proof -
    have md: "m \<in> set (monitors d)" "due_monitor now d m" using due_monitors_in[OF m] by simp_all
    have "(mo_id m, mo_state r) \<in> set (health_view e)"
      using imageI[OF r(1), of "\<lambda>m. (mo_id m, mo_state m)"] r(2) by (simp add: health_view_def)
    moreover have "(mo_id m, mo_state m) \<in> set (health_view d)" using md(1) by (auto simp: health_view_def)
    moreover have "distinct (map fst (health_view d))"
      using service_invD(1)[OF assms(2)] by (simp add: incident_inv_def)
    ultimately have "mo_state r = mo_state m" unfolding view by (metis eq_key_imp_eq_value)
    with md(2) show ?thesis by (simp add: due_monitor_def)
  qed
  have "service_inv (snd (summaries, d')) \<and> health_view (snd (summaries, d')) = health_view d"
  proof (rule fold_tx_inv[where P = "\<lambda>acc. service_inv (snd acc) \<and> health_view (snd acc) = health_view d"])
    show "fold_tx (create_due_check newId now) (due_monitors locked now limit d) ([], d) = Inr (summaries, d')"
      using assms(1) by (simp add: createDueChecks_def)
    fix m acc acc'
    assume m: "m \<in> set (due_monitors locked now limit d)"
      and P: "service_inv (snd acc) \<and> health_view (snd acc) = health_view d"
      and step: "create_due_check newId now m acc = Inr acc'"
    have "create_due_check newId now m (fst acc, snd acc) = Inr (fst acc', snd acc')" using step by simp
    moreover have "lifecycleStatus (mo_state r) = ACTIVE"
      if "r \<in> set (monitors (snd acc))" "mo_id r = mo_id m" for r
      using active[OF m, of "snd acc" r] P that by blast
    ultimately show "service_inv (snd acc') \<and> health_view (snd acc') = health_view d"
      using create_due_check_inv[of newId now m "fst acc" "snd acc" "fst acc'" "snd acc'"] P by simp
  qed (simp add: assms(2))
  then show ?thesis by simp
qed

section \<open>The system\<close>

text \<open>
  One transaction of one of the processes; a request body reaches the service through its
  schema, and row ids drawn by the client are new. A transaction that throws changes nothing
  and is a step too.
\<close>

inductive monitoring_step :: "db \<Rightarrow> db \<Rightarrow> bool" where
  step_create: "monitorInputSchema (ae_is_uuid env) body = Some x \<Longrightarrow>
     create env i a now x actor d = (r, d') \<Longrightarrow> monitoring_step d d'"
| step_update: "monitorPatchSchema (ae_is_uuid env) body = Some patch \<Longrightarrow>
     update_op env i a now patch actor d = (r, d') \<Longrightarrow> monitoring_step d d'"
| step_pause: "pause i a now actor d = (r, d') \<Longrightarrow> monitoring_step d d'"
| step_resume: "resume i a now actor d = (r, d') \<Longrightarrow> monitoring_step d d'"
| step_remove: "remove i a now actor d = (u, d') \<Longrightarrow> monitoring_step d d'"
| step_schedule: "createDueChecks locked newId now limit d = Inr (summaries, d') \<Longrightarrow> monitoring_step d d'"
| step_persist: "rt_incidentId rt (sc_id oc) \<notin> ic_id ` set (incidents d) \<Longrightarrow>
     persist config rt g oc om result u now d = (out, d') \<Longrightarrow> monitoring_step d d'"

abbreviation monitoring_run :: "db \<Rightarrow> db \<Rightarrow> bool" where
  "monitoring_run \<equiv> monitoring_step\<^sup>*\<^sup>*"

lemma as_view_transaction:
  assumes "as_view actor (transaction body d) = (r, d')"
  shows "d' = d \<or> (\<exists>x. body d = Inr (x, d'))"
proof (cases "body d")
  case (Inl e)
  with assms show ?thesis by (simp add: as_view_def transaction_def)
next
  case (Inr z)
  with assms show ?thesis by (cases z) (simp add: as_view_def transaction_def)
qed

lemma create_cases:
  assumes "create env i a now x actor d = (r, d')"
  obtains (refused) "d' = d"
  | (created) u t rec where "validateTarget env (mi_url x) = Inr u" "storedTarget env u = Inr t"
      "create_tx env i a now x t actor d = Inr (rec, d')"
  using assms
  by (auto simp: create_def transaction_def split: sum.splits prod.splits)

lemma monitoring_step_inv:
  assumes "monitoring_step d d'" "service_inv d"
  shows "service_inv d'"
  using assms(1)
proof cases
  case (step_create env body x i a now actor r)
  from step_create(2) show ?thesis
  proof (cases rule: create_cases)
    case refused
    with assms(2) show ?thesis by simp
  next
    case (created u t rec)
    from create_inv[OF assms(2) input_valid[OF step_create(1)] created(2,3)] show ?thesis .
  qed
next
  case (step_update env body patch i a now actor r)
  with as_view_transaction[of actor "update_tx env i a now patch actor" d r d'] assms(2)
  show ?thesis unfolding update_op_def using update_inv by blast
next
  case (step_pause i a now actor r)
  with as_view_transaction[of actor _ d r d'] assms(2)
  show ?thesis unfolding pause_def using setLifecycle_inv by blast
next
  case (step_resume i a now actor r)
  with as_view_transaction[of actor _ d r d'] assms(2)
  show ?thesis unfolding resume_def using resume_inv by blast
next
  case (step_remove i a now actor u)
  show ?thesis
    by (rule transaction_inv[where P = service_inv, OF step_remove[unfolded remove_def] assms(2)])
      (rule remove_inv[OF assms(2)])
next
  case (step_schedule locked newId now limit summaries)
  then show ?thesis using createDueChecks_inv assms(2) by blast
next
  case (step_persist rt oc config g om result u now out)
  then show ?thesis using persist_service_inv assms(2) by blast
qed

lemma service_inv_empty: "service_inv empty_db"
  by (simp add: service_inv_def incident_inv_def health_view_def open_incidents_def empty_db_def)

lemma monitoring_run_inv:
  assumes "monitoring_run d d'" "service_inv d"
  shows "service_inv d'"
  using assms by (induction rule: rtranclp_induct) (auto intro: monitoring_step_inv)

end
