(* ===== verification/Monitor_Guarantees.thy ===== *)
theory Monitor_Guarantees
  imports Monitoring_System
begin

text \<open>
  The properties of the monitor operations: every reachable database is consistent, the
  operations refine the domain's administrative transitions, only who may manage a monitor
  changes it and every change is audited, a removed monitor leaves nothing behind and stays
  removed, and accepted configurations are accepted everywhere else.
\<close>

section \<open>The domain's view of an administrative operation\<close>

datatype admin_op = Pause | Resume | Remove

fun administer ::
  "id \<Rightarrow> id \<Rightarrow> time \<Rightarrow> AuthenticatedUser \<Rightarrow> admin_op \<Rightarrow> db \<Rightarrow> (api_error + unit) \<times> db" where
  "administer i a now actor Pause d = map_prod (map_sum id (\<lambda>_. ())) id (pause i a now actor d)"
| "administer i a now actor Resume d = map_prod (map_sum id (\<lambda>_. ())) id (resume i a now actor d)"
| "administer i a now actor Remove d = remove i a now actor d"

fun domain_transition :: "admin_op \<Rightarrow> MonitorState \<Rightarrow> time \<Rightarrow> js_error + AdministrativeTransitionResult" where
  "domain_transition Pause s t = transitionLifecycle s MonitorLifecycle.PAUSED (Some t)"
| "domain_transition Resume s t = transitionLifecycle s ACTIVE (Some t)"
| "domain_transition Remove s t = transitionLifecycle s MonitorLifecycle.DELETED (Some t)"

text \<open>What an incident effect of the domain asks of the incident rows.\<close>

definition closes_incidents :: "id \<Rightarrow> IncidentEffect \<Rightarrow> Incident list \<Rightarrow> Incident list" where
  "closes_incidents i effect rows =
     (case effect of
        IncidentEffect.CANCEL t reason \<Rightarrow>
          update_where (\<lambda>x. ic_monitorId x = i \<and> open_incident x) (canceled_incident t reason) rows
      | _ \<Rightarrow> rows)"

lemma administer_tx:
  assumes "administer i a now actor op d = (Inr (), d')"
  shows "case op of
     Pause \<Rightarrow> \<exists>rec. setLifecycle_tx i a now MonitorLifecycle.PAUSED IncidentClosureReason.PAUSED actor d = Inr (rec, d')
   | Resume \<Rightarrow> \<exists>rec. resume_tx i a now actor d = Inr (rec, d')
   | Remove \<Rightarrow> remove_tx i a now actor d = Inr ((), d')"
  using assms
  by (cases op) (auto simp: pause_def resume_def remove_def as_view_def transaction_def split: sum.splits prod.splits)

lemma open_incident_rows:
  assumes "incident_inv d" "m \<in> set (monitors d)" "mo_id m = i" "\<not> has_incident (healthState (mo_state m))"
  shows "update_where (\<lambda>x. ic_monitorId x = i \<and> open_incident x) f (incidents d) = incidents d"
proof -
  have "(i, mo_state m) \<in> set (health_view d)" using assms(2,3) by (auto simp: health_view_def)
  with assms(1,4) have "open_incidents i d = 0" by (auto simp: incident_inv_def)
  then show ?thesis
    by (intro update_where_none) (auto simp: open_incidents_def count_where_zero_iff)
qed

lemma transitionLifecycle_change:
  assumes "assertState s = None" "lifecycleStatus s \<noteq> l" "lifecycleStatus s \<noteq> MonitorLifecycle.DELETED"
  shows "transitionLifecycle s l (Some t) = Inr \<lparr>adm_state = (reset_health s)\<lparr>lifecycleStatus := l\<rparr>,
     adm_incidentEffect = (if has_incident (healthState s) \<and> l \<noteq> ACTIVE
        then IncidentEffect.CANCEL t (if l = MonitorLifecycle.DELETED then IncidentClosureReason.DELETED
                                      else IncidentClosureReason.PAUSED) else NONE)\<rparr>"
  using assms by (simp add: transitionLifecycle_def has_incident_def Let_def)

lemma transitionLifecycle_same:
  assumes "assertState s = None" "lifecycleStatus s = l" "l \<noteq> MonitorLifecycle.DELETED"
  shows "transitionLifecycle s l (Some t) = Inr \<lparr>adm_state = s, adm_incidentEffect = NONE\<rparr>"
  using assms by (simp add: transitionLifecycle_def)

lemma managed_not_deleted:
  assumes "service_inv d" "managed_monitor i actor d = Inr m"
  shows "lifecycleStatus (mo_state m) \<noteq> MonitorLifecycle.DELETED"
  using service_invD(2)[OF assms(1)] managed_monitor_Inr(1,3)[OF assms(2)]
  by (simp add: monitor_ok_def)

lemma found_after:
  assumes "service_inv d" "managed_monitor i actor d = Inr m" "monitors d1 = monitors d"
    and "\<And>m. mo_id (f m) = mo_id m"
  shows "find_by mo_id i (monitors (write_audit row (update_monitor i f d1))) = Some (f m)"
  using find_update_monitor[of i d1 m f] assms(3,4)
    find_monitor[OF service_invD(1)[OF assms(1)] managed_monitor_Inr(1,2)[OF assms(2)]]
  by simp

text \<open>C3. Pausing, resuming and removing a monitor are the domain's transitions: whenever the
operation succeeds, the domain accepts the transition from the stored state, the row holds the
state the domain computes, and the incident rows are changed exactly as the domain's incident
effect says (an open incident is canceled with the domain's reason and time, and nothing else
happens to incidents).\<close>

theorem administration_refines_domain:
  assumes "service_inv d" "managed_monitor i actor d = Inr m" "assertState (mo_state m) = None"
    and "administer i a now actor op d = (Inr (), d')"
  shows "\<exists>r m'. domain_transition op (mo_state m) now = Inr r \<and>
    find_by mo_id i (monitors d') = Some m' \<and> mo_state m' = adm_state r \<and>
    incidents d' = closes_incidents i (adm_incidentEffect r) (incidents d)"
proof -
  note inv = service_invD(1)[OF assms(1)] and m = managed_monitor_Inr[OF assms(2)]
  note alive = managed_not_deleted[OF assms(1,2)]
  have found: "find_by mo_id i (monitors d) = Some m" by (rule find_monitor[OF inv m(1,2)])
  note quiet = open_incident_rows[OF inv m(1,2)]
  show ?thesis
  proof (cases op)
    case Pause
    with administer_tx[OF assms(4)] obtain rec where
      "setLifecycle_tx i a now MonitorLifecycle.PAUSED IncidentClosureReason.PAUSED actor d = Inr (rec, d')" by auto
    then show ?thesis
    proof (cases rule: setLifecycle_Inr)
      case (already m1)
      with assms(2) transitionLifecycle_same[OF assms(3), of MonitorLifecycle.PAUSED now] found Pause
      show ?thesis by (simp add: closes_incidents_def)
    next
      case (changed m1 row)
      then have m1: "lifecycleStatus (mo_state m) \<noteq> MonitorLifecycle.PAUSED" using assms(2) by simp
      from found_after[OF assms(1,2), of "cancelRuntime i IncidentClosureReason.PAUSED now d"
          "with_lifecycle MonitorLifecycle.PAUSED None" row] changed(3)
      have "find_by mo_id i (monitors d') = Some (with_lifecycle MonitorLifecycle.PAUSED None m)"
        by (simp add: lifecycle_change_def)
      with transitionLifecycle_change[OF assms(3) m1 alive, of now] quiet Pause changed(3)
      show ?thesis by (simp add: closes_incidents_def lifecycle_change_def)
    qed
  next
    case Resume
    with administer_tx[OF assms(4)] obtain rec where "resume_tx i a now actor d = Inr (rec, d')" by auto
    then show ?thesis
    proof (cases rule: resume_Inr)
      case (already m1)
      with assms(2) transitionLifecycle_same[OF assms(3), of ACTIVE now] found Resume
      show ?thesis by (simp add: closes_incidents_def)
    next
      case (changed m1 slot row)
      then have m1: "lifecycleStatus (mo_state m) \<noteq> ACTIVE" using assms(2) by simp
      from found_after[OF assms(1,2), of d "with_lifecycle ACTIVE (Some slot)" row] changed(4)
      have "find_by mo_id i (monitors d') = Some (with_lifecycle ACTIVE (Some slot) m)" by simp
      with transitionLifecycle_change[OF assms(3) m1 alive, of now] Resume changed(4)
      show ?thesis by (simp add: closes_incidents_def)
    qed
  next
    case Remove
    with administer_tx[OF assms(4)] have "remove_tx i a now actor d = Inr ((), d')" by simp
    then show ?thesis
    proof (cases rule: remove_Inr)
      case (1 m1 row)
      from found_after[OF assms(1,2), of "cancelRuntime i IncidentClosureReason.DELETED now d"
          "deleted_monitor now" row] 1(2)
      have "find_by mo_id i (monitors d') = Some (deleted_monitor now m)" by simp
      with transitionLifecycle_change[OF assms(3) alive alive, of now] quiet Remove 1(2)
      show ?thesis by (simp add: closes_incidents_def)
    qed
  qed
qed

section \<open>Reconfiguration\<close>

text \<open>What a check of the monitor depends on, and what its state machine is driven by.\<close>

definition same_monitoring :: "Monitor \<Rightarrow> Monitor \<Rightarrow> bool" where
  "same_monitoring m m' \<longleftrightarrow>
     mo_method m' = mo_method m \<and> mo_intervalSec m' = mo_intervalSec m \<and>
     mo_timeoutMs m' = mo_timeoutMs m \<and> mo_expectedStatusMin m' = mo_expectedStatusMin m \<and>
     mo_expectedStatusMax m' = mo_expectedStatusMax m \<and> mo_expectedKeyword m' = mo_expectedKeyword m \<and>
     mo_followRedirects m' = mo_followRedirects m \<and> mo_maxRedirects m' = mo_maxRedirects m \<and>
     mo_failureThreshold m' = mo_failureThreshold m \<and> mo_recoveryThreshold m' = mo_recoveryThreshold m"

lemma unchanged_monitoring:
  assumes "\<not> monitoring_changed m cu x (st_requestUrl t)" "valid_config m"
  shows "same_monitoring m (configured env x t m) \<and> st_requestUrl t = cu"
  using assms
  by (cases "mo_expectedKeyword m")
    (auto simp: monitoring_changed_def same_monitoring_def configured_def value_or_def valid_config_def)

lemma update_op_tx:
  "update_op env i a now patch actor d = (Inr v, d') \<Longrightarrow>
   \<exists>rec. update_tx env i a now patch actor d = Inr (rec, d')"
  by (auto simp: update_op_def as_view_def transaction_def split: sum.splits prod.splits)

text \<open>C4. Changing a monitor's configuration is the domain's transition too: after a successful
update, either the row checks the same address with the same settings and neither its state nor
any incident has changed, or the domain accepts a configuration change of the stored state, the
row holds the state the domain computes with the next version, and an open incident is canceled
exactly when the domain says so.\<close>

theorem reconfiguration_refines_domain:
  assumes "service_inv d" "managed_monitor i actor d = Inr m" "assertState (mo_state m) = None"
    and "safe_integer (configVersion (mo_state m) + 1)"
    and "update_op env i a now patch actor d = (Inr v, d')"
  shows "\<exists>m'. find_by mo_id i (monitors d') = Some m' \<and>
    ((same_monitoring m m' \<and>
      (\<exists>url. decryptedUrl env (mo_requestUrlEncrypted m) = Inr url \<and>
         mo_requestUrlEncrypted m' = encryptString (ae_cipher env) url) \<and>
      mo_state m' = mo_state m \<and> incidents d' = incidents d) \<or>
     (\<exists>r. resetForConfigChange (mo_state m) (Some now) None = Inr r \<and> mo_state m' = adm_state r \<and>
        configVersion (mo_state m') = configVersion (mo_state m) + 1 \<and>
        incidents d' = closes_incidents i (adm_incidentEffect r) (incidents d)))"
proof -
  note inv = service_invD(1)[OF assms(1)] and m = managed_monitor_Inr[OF assms(2)]
  obtain rec where "update_tx env i a now patch actor d = Inr (rec, d')" using update_op_tx[OF assms(5)] ..
  then show ?thesis
  proof (cases rule: update_tx_Inr)
    case (1 m1 cu x u t)
    then have m1: "m1 = m" using assms(2) by simp
    let ?changed = "monitoring_changed m cu x (st_requestUrl t)"
    from 1(7) show ?thesis
    proof (cases rule: write_update_Inr)
      case w: (1 slot row)
      show ?thesis
      proof (cases ?changed)
        case False
        then have d': "d' = write_audit row (update_monitor i (configured env x t)
            (rebind_channels i (mi_channelIds x) now d))"
          using w(2) by (simp add: update_change_def m1)
        have "find_by mo_id i (monitors d') = Some (configured env x t m)"
          unfolding d' by (rule found_after[OF assms(1,2)]) simp_all
        moreover have "same_monitoring m (configured env x t m) \<and> st_requestUrl t = cu"
          using unchanged_monitoring[OF False] service_invD(2)[OF assms(1) m(1)] by (simp add: monitor_ok_def)
        moreover have "mo_requestUrlEncrypted (configured env x t m) = encryptString (ae_cipher env) (st_requestUrl t)"
          by (simp add: configured_def)
        ultimately show ?thesis using 1(2) m1 d' by simp
      next
        case True
        then have d': "d' = write_audit row (update_monitor i (\<lambda>m. restarted (configured env x t m) slot)
            (rebind_channels i (mi_channelIds x) now (cancelRuntime i CONFIG_CHANGED now d)))"
          using w(2) by (simp add: update_change_def m1)
        have "find_by mo_id i (monitors d') = Some (restarted (configured env x t m) slot)"
          unfolding d' by (rule found_after[OF assms(1,2)]) simp_all
        moreover have "resetForConfigChange (mo_state m) (Some now) None = Inr
            \<lparr>adm_state = (reset_health (mo_state m))\<lparr>configVersion := configVersion (mo_state m) + 1\<rparr>,
             adm_incidentEffect = (if has_incident (healthState (mo_state m))
               then IncidentEffect.CANCEL now CONFIG_CHANGED else NONE)\<rparr>"
          using assms(3,4) by (simp add: resetForConfigChange_def has_incident_def Let_def)
        ultimately show ?thesis
          using open_incident_rows[OF inv m(1,2)] d' by (simp add: closes_incidents_def)
      qed
    qed
  qed
qed

section \<open>Who changes what\<close>

datatype monitor_request = Update api_env MonitorPatch | Admin admin_op

fun handle ::
  "id \<Rightarrow> id \<Rightarrow> time \<Rightarrow> AuthenticatedUser \<Rightarrow> monitor_request \<Rightarrow> db \<Rightarrow> (api_error + unit) \<times> db" where
  "handle i a now actor (Update env patch) d =
     map_prod (map_sum id (\<lambda>_. ())) id (update_op env i a now patch actor d)"
| "handle i a now actor (Admin op) d = administer i a now actor op d"

text \<open>The rows of every other monitor, and everything that belongs to no monitor.\<close>

definition outside :: "id \<Rightarrow> db \<Rightarrow> db" where
  "outside i d = d\<lparr>monitors := filter (\<lambda>m. mo_id m \<noteq> i) (monitors d),
     incidents := filter (\<lambda>x. ic_monitorId x \<noteq> i) (incidents d),
     scheduledChecks := filter (\<lambda>c. sc_monitorId c \<noteq> i) (scheduledChecks d),
     monitorChannels := filter (\<lambda>b. mc_monitorId b \<noteq> i) (monitorChannels d),
     outbox := filter (\<lambda>r. ob_monitorId r \<noteq> Some i) (outbox d),
     deliveries := filter (\<lambda>n. \<not> list_ex (\<lambda>r. ob_id r = nd_outboxId n \<and> ob_monitorId r = Some i) (outbox d))
       (deliveries d),
     auditLogs := []\<rparr>"

lemma filter_update_other:
  "(\<And>r. p r \<Longrightarrow> \<not> q r) \<Longrightarrow> (\<And>r. p r \<Longrightarrow> \<not> q (f r)) \<Longrightarrow> filter q (update_where p f rows) = filter q rows"
  by (induction rows) auto

lemma filter_update_own:
  assumes "\<And>r. key (f r) = key r"
  shows "filter (\<lambda>r. key r \<noteq> k) (update_where (\<lambda>r. key r = k \<and> p r) f rows) = filter (\<lambda>r. key r \<noteq> k) rows"
  by (induction rows) (auto simp: assms)

lemma list_ex_update_frame:
  "(\<And>r. q (f r) = q r) \<Longrightarrow> list_ex q (update_where p f rows) = list_ex q rows"
  by (induction rows) auto

lemma lost_attempts_outside:
  "filter (\<lambda>n. \<not> list_ex (\<lambda>r. ob_id r = nd_outboxId n \<and> ob_monitorId r = Some i) rows)
     (update_where (\<lambda>n. nd_status n = ATTEMPTING \<and>
          list_ex (\<lambda>r. ob_id r = nd_outboxId n \<and> ob_monitorId r = Some i \<and> ob_status r = PROCESSING) rows)
        (\<lambda>n. n\<lparr>nd_status := UNKNOWN, nd_errorSafe := e, nd_finishedAt := t\<rparr>) ns) =
   filter (\<lambda>n. \<not> list_ex (\<lambda>r. ob_id r = nd_outboxId n \<and> ob_monitorId r = Some i) rows) ns"
  by (rule filter_update_other) (auto simp: list_ex_iff)

lemma cancelRuntime_outside: "outside i (cancelRuntime i reason now d) = outside i d"
  by (simp add: outside_def cancelRuntime_def lose_attempts_def cancel_outbox_def retire_secrets_def Let_def
      filter_update_own list_ex_update_frame lost_attempts_outside)

lemma update_monitor_outside:
  "(\<And>m. mo_id (f m) = mo_id m) \<Longrightarrow> outside i (update_monitor i f d) = outside i d"
  by (simp add: outside_def update_monitor_def filter_update_other)

lemma rebind_outside [simp]: "outside i (rebind_channels i ids now d) = outside i d"
  by (simp add: outside_def rebind_channels_def bind_channels_def filter_map comp_def)

lemma write_audit_outside [simp]: "outside i (write_audit row d) = outside i d"
  by (simp add: outside_def write_audit_def)

lemma outcome_cases:
  assumes "as_view actor (transaction body d) = (r, d')"
  obtains e where "r = Inl e" "d' = d" | rec where "body d = Inr (rec, d')"
  using assms by (auto simp: as_view_def transaction_def split: sum.splits prod.splits)

definition owned_change :: "id \<Rightarrow> AuthenticatedUser \<Rightarrow> db \<Rightarrow> db \<Rightarrow> bool" where
  "owned_change i actor d d' \<longleftrightarrow>
     (\<exists>m row. managed_monitor i actor d = Inr m \<and> auditLogs d' = auditLogs d @ [row] \<and>
        audits row actor i \<and> outside i d' = outside i d)"

lemma update_owned: "update_tx env i a now patch actor d = Inr (rec, d') \<Longrightarrow> owned_change i actor d d'"
proof (erule update_tx_Inr)
  fix m cu x u t
  assume m: "managed_monitor i actor d = Inr m"
    and w: "write_update env i a now actor m x t (monitoring_changed m cu x (st_requestUrl t)) d = Inr (rec, d')"
  from w show ?thesis
  proof (cases rule: write_update_Inr)
    case (1 slot row)
    have "outside i d' = outside i d"
      unfolding 1(2) update_change_def
      by (simp add: update_monitor_outside cancelRuntime_outside)
    moreover have "auditLogs d' = auditLogs d @ [row]"
      unfolding 1(2) by (simp add: update_change_def update_monitor_def rebind_channels_def)
    ultimately show ?thesis using m 1(3) by (auto simp: owned_change_def)
  qed
qed

lemma setLifecycle_owned:
  "setLifecycle_tx i a now l reason actor d = Inr (rec, d') \<Longrightarrow> d' = d \<or> owned_change i actor d d'"
proof (erule setLifecycle_Inr)
  fix m row
  assume m: "managed_monitor i actor d = Inr m" and row: "audits row actor i"
    and d': "d' = write_audit row (lifecycle_change i l reason now d)"
  have "outside i d' = outside i d"
    unfolding d' lifecycle_change_def by (simp add: update_monitor_outside cancelRuntime_outside)
  moreover have "auditLogs d' = auditLogs d @ [row]"
    unfolding d' by (simp add: lifecycle_change_def update_monitor_def)
  ultimately show ?thesis using m row by (auto simp: owned_change_def)
qed simp

lemma resume_owned: "resume_tx i a now actor d = Inr (rec, d') \<Longrightarrow> d' = d \<or> owned_change i actor d d'"
proof (erule resume_Inr)
  fix m slot row
  assume m: "managed_monitor i actor d = Inr m" and row: "audits row actor i"
    and d': "d' = write_audit row (update_monitor i (with_lifecycle ACTIVE (Some slot)) d)"
  have "outside i d' = outside i d" unfolding d' by (simp add: update_monitor_outside)
  moreover have "auditLogs d' = auditLogs d @ [row]" unfolding d' by (simp add: update_monitor_def)
  ultimately show ?thesis using m row by (auto simp: owned_change_def)
qed simp

lemma remove_owned: "remove_tx i a now actor d = Inr (u, d') \<Longrightarrow> owned_change i actor d d'"
proof (erule remove_Inr)
  fix m row
  assume m: "managed_monitor i actor d = Inr m" and row: "audits row actor i"
    and d': "d' = write_audit row (update_monitor i (deleted_monitor now)
            (cancelRuntime i IncidentClosureReason.DELETED now d))"
  have "outside i d' = outside i d"
    unfolding d' by (simp add: update_monitor_outside cancelRuntime_outside)
  moreover have "auditLogs d' = auditLogs d @ [row]" unfolding d' by (simp add: update_monitor_def)
  ultimately show ?thesis using m row by (auto simp: owned_change_def)
qed

text \<open>C5. Only who may manage a monitor changes it, and never in silence: an update, pause, resume
or removal that throws leaves the database as it was, and one that changes anything was asked
for by an administrator or the owner of the monitor, touches no row of any other monitor and
nothing that belongs to none, and adds exactly one audit row, which names the actor and the
monitor.\<close>

theorem changes_are_owned_and_audited:
  assumes "handle i a now actor req d = (r, d')"
  shows "(\<forall>e. r = Inl e \<longrightarrow> d' = d) \<and>
    (d' \<noteq> d \<longrightarrow> (\<exists>m row. lockMonitor i d = Some m \<and> canManageMonitor (mo_ownerAccountId m) actor \<and>
       auditLogs d' = auditLogs d @ [row] \<and> audits row actor i \<and> outside i d' = outside i d))"
proof -
  have refused: "r = Inl e \<Longrightarrow> d' = d" for e
    using assms
    by (cases req; cases "case req of Admin op \<Rightarrow> op | _ \<Rightarrow> Pause")
      (auto simp: update_op_def pause_def resume_def remove_def as_view_def transaction_def
        split: sum.splits prod.splits)
  have "d' = d \<or> owned_change i actor d d'"
  proof (cases req)
    case (Update env patch)
    with assms obtain r' where "as_view actor (transaction (update_tx env i a now patch actor) d) = (r', d')"
      by (cases "update_op env i a now patch actor d") (auto simp: update_op_def)
    then show ?thesis by (rule outcome_cases) (use update_owned in blast)+
  next
    case (Admin op)
    show ?thesis
    proof (cases op)
      case Pause
      with assms Admin obtain r' where "as_view actor (transaction (setLifecycle_tx i a now
          MonitorLifecycle.PAUSED IncidentClosureReason.PAUSED actor) d) = (r', d')"
        by (cases "pause i a now actor d") (auto simp: pause_def)
      then show ?thesis by (rule outcome_cases) (use setLifecycle_owned in blast)+
    next
      case Resume
      with assms Admin obtain r' where "as_view actor (transaction (resume_tx i a now actor) d) = (r', d')"
        by (cases "resume i a now actor d") (auto simp: resume_def)
      then show ?thesis by (rule outcome_cases) (use resume_owned in blast)+
    next
      case Remove
      with assms Admin have t: "transaction (remove_tx i a now actor) d = (r, d')" by (simp add: remove_def)
      show ?thesis
        by (rule transaction_inv[where P = "\<lambda>x. x = d \<or> owned_change i actor d x", OF t])
          (use remove_owned in blast)+
    qed
  qed
  moreover have "\<exists>m. lockMonitor i d = Some m \<and> canManageMonitor (mo_ownerAccountId m) actor"
    if "managed_monitor i actor d = Inr m" for m
    using that by (auto simp: managed_monitor_def assertCanManageMonitor_def split: option.splits if_splits)
  ultimately show ?thesis using refused by (auto simp: owned_change_def)
qed

section \<open>Removal\<close>

lemma tombstone_recognised [simp]: "isSecretTombstone secretTombstoneBytes"
  by (simp add: isSecretTombstone_iff)

lemma outbox_status_cases: "cancelable_outbox r \<or> terminal_outbox r"
  by (cases "ob_status r") (simp_all add: cancelable_outbox_def terminal_outbox_def)

lemma canceled_rows:
  assumes "r \<in> set (update_where (\<lambda>r. p r \<and> terminal_outbox r) (\<lambda>r. r\<lparr>ob_encryptedConfigSnapshot := secretTombstoneBytes\<rparr>)
      (update_where (\<lambda>r. p r \<and> cancelable_outbox r)
         (\<lambda>r. r\<lparr>ob_status := NotificationOutboxStatus.CANCELED, ob_canceledAt := t,
                ob_leaseOwner := None, ob_leaseUntil := None\<rparr>) rows))"
    and "p r" and "\<And>r s t u. p (r\<lparr>ob_status := s, ob_canceledAt := t, ob_leaseOwner := None, ob_leaseUntil := None\<rparr>) = p r"
    and "\<And>r x. p (r\<lparr>ob_encryptedConfigSnapshot := x\<rparr>) = p r"
  shows "terminal_outbox r \<and> isSecretTombstone (ob_encryptedConfigSnapshot r)"
  using assms(1)
proof (rule update_whereE)
  fix x
  assume "p x \<and> terminal_outbox x" "r = x\<lparr>ob_encryptedConfigSnapshot := secretTombstoneBytes\<rparr>"
  then show ?thesis by (simp add: terminal_outbox_def)
next
  assume r: "r \<in> set (update_where (\<lambda>r. p r \<and> cancelable_outbox r)
         (\<lambda>r. r\<lparr>ob_status := NotificationOutboxStatus.CANCELED, ob_canceledAt := t,
                ob_leaseOwner := None, ob_leaseUntil := None\<rparr>) rows)"
    and "\<not> (p r \<and> terminal_outbox r)"
  with assms(2) have "\<not> terminal_outbox r" by simp
  then have "cancelable_outbox r" using outbox_status_cases by blast
  from r show ?thesis
  proof (rule update_whereE)
    fix x
    assume "r = x\<lparr>ob_status := NotificationOutboxStatus.CANCELED, ob_canceledAt := t,
                ob_leaseOwner := None, ob_leaseUntil := None\<rparr>"
    with \<open>\<not> terminal_outbox r\<close> show ?thesis by (simp add: terminal_outbox_def)
  next
    assume "\<not> (p r \<and> cancelable_outbox r)"
    with \<open>cancelable_outbox r\<close> assms(2) show ?thesis by simp
  qed
qed

lemma cancelRuntime_outbox:
  "outbox (cancelRuntime i reason now d) =
     update_where (\<lambda>r. ob_monitorId r = Some i \<and> terminal_outbox r)
       (\<lambda>r. r\<lparr>ob_encryptedConfigSnapshot := secretTombstoneBytes\<rparr>)
       (update_where (\<lambda>r. ob_monitorId r = Some i \<and> cancelable_outbox r)
         (\<lambda>r. r\<lparr>ob_status := NotificationOutboxStatus.CANCELED, ob_canceledAt := Some now,
                ob_leaseOwner := None, ob_leaseUntil := None\<rparr>) (outbox d))"
  by (simp add: cancelRuntime_def retire_secrets_def cancel_outbox_def Let_def)

lemma cancelRuntime_no_active:
  assumes "c \<in> set (scheduledChecks (cancelRuntime i reason now d))" "sc_monitorId c = i"
  shows "\<not> active_check c"
  using assms(1) unfolding cancelRuntime_frame
proof (rule update_whereE)
  fix x
  assume "c = x\<lparr>sc_status := ScheduledCheckStatus.CANCELED, sc_canceledAt := Some now,
              sc_leaseOwner := None, sc_leaseUntil := None\<rparr>"
  then show ?thesis by (simp add: active_check_def)
qed (use assms(2) in simp)

text \<open>C6. A removed monitor leaves nothing running and no secret: after a successful removal no
operation finds the monitor any more, it is never due again, it has no open incident and no
active check, every notification row of it is terminal and holds the tombstone instead of a
destination, and its own address is the tombstone.\<close>

theorem removed_monitor_leaves_nothing:
  assumes "service_inv d" "remove i a now actor d = (Inr (), d')"
  shows "lockMonitor i d' = None \<and> open_incidents i d' = 0 \<and>
    (\<forall>c \<in> set (scheduledChecks d'). sc_monitorId c = i \<longrightarrow> \<not> active_check c) \<and>
    (\<forall>r \<in> set (outbox d'). ob_monitorId r = Some i \<longrightarrow>
       terminal_outbox r \<and> isSecretTombstone (ob_encryptedConfigSnapshot r)) \<and>
    (\<exists>m. find_by mo_id i (monitors d') = Some m \<and> isSecretTombstone (mo_requestUrlEncrypted m) \<and>
       mo_nextCheckAt m = None \<and> lifecycleStatus (mo_state m) = MonitorLifecycle.DELETED)"
proof -
  from assms(2) have "remove_tx i a now actor d = Inr ((), d')"
    by (simp add: remove_def transaction_Inr)
  then show ?thesis
  proof (cases rule: remove_Inr)
    case (1 m row)
    note m = managed_monitor_Inr[OF 1(1)]
    let ?c = "cancelRuntime i IncidentClosureReason.DELETED now d"
    have inv': "service_inv d'" by (rule remove_inv[OF assms(1) \<open>remove_tx i a now actor d = Inr ((), d')\<close>])
    have found: "find_by mo_id i (monitors d') = Some (deleted_monitor now m)"
      unfolding 1(2) by (rule found_after[OF assms(1) 1(1)]) simp_all
    have "lockMonitor i d' = None"
    proof (rule ccontr)
      assume "lockMonitor i d' \<noteq> None"
      then obtain x where x: "lockMonitor i d' = Some x" by blast
      then have "x \<in> set (monitors d') \<and> mo_id x = i \<and> mo_deletedAt x = None"
        unfolding lockMonitor_def by (metis (mono_tags, lifting) find_Some_in)
      moreover from this find_monitor[OF service_invD(1)[OF inv']] found have "x = deleted_monitor now m"
        by force
      ultimately show False by simp
    qed
    have rows: "open_incidents i d' = open_incidents i ?c"
      by (rule open_incidents_cong) (simp add: 1(2))
    have checks: "scheduledChecks d' = scheduledChecks ?c" and events: "outbox d' = outbox ?c"
      by (simp_all add: 1(2))
    show ?thesis
    proof (intro conjI ballI impI)
      show "lockMonitor i d' = None" by fact
      show "open_incidents i d' = 0" by (simp add: rows cancelRuntime_open)
      show "\<not> active_check c" if "c \<in> set (scheduledChecks d')" "sc_monitorId c = i" for c
        using that cancelRuntime_no_active unfolding checks by blast
      show "terminal_outbox r" "isSecretTombstone (ob_encryptedConfigSnapshot r)"
        if "r \<in> set (outbox d')" "ob_monitorId r = Some i" for r
      proof -
        have "terminal_outbox r \<and> isSecretTombstone (ob_encryptedConfigSnapshot r)"
          using that(1)[unfolded events cancelRuntime_outbox] that(2) by (rule canceled_rows) simp_all
        then show "terminal_outbox r" "isSecretTombstone (ob_encryptedConfigSnapshot r)" by simp_all
      qed
      show "\<exists>m. find_by mo_id i (monitors d') = Some m \<and> isSecretTombstone (mo_requestUrlEncrypted m) \<and>
         mo_nextCheckAt m = None \<and> lifecycleStatus (mo_state m) = MonitorLifecycle.DELETED"
        using found by simp
    qed
  qed
qed

section \<open>Removed for good\<close>

lemma updated_row_stays:
  "m \<in> set (monitors d) \<Longrightarrow> mo_id m \<noteq> i \<Longrightarrow> m \<in> set (monitors (update_monitor i f d))"
  by (auto simp: update_monitor_def set_update_where)

lemma managed_other:
  assumes "service_inv d" "m \<in> set (monitors d)" "mo_deletedAt m \<noteq> None" "managed_monitor i actor d = Inr m0"
  shows "mo_id m \<noteq> i"
  using managed_monitor_Inr[OF assms(4)] monitor_unique[OF service_invD(1)[OF assms(1)] assms(2)] assms(3)
  by metis

lemma update_keeps_deleted:
  assumes "service_inv d" "m \<in> set (monitors d)" "mo_deletedAt m \<noteq> None"
    and "update_tx env i a now patch actor d = Inr (rec, d')"
  shows "m \<in> set (monitors d')"
  using assms(4)
proof (cases rule: update_tx_Inr)
  case (1 m0 cu x u t)
  have other: "mo_id m \<noteq> i" by (rule managed_other[OF assms(1-3) 1(1)])
  from 1(7) show ?thesis
  proof (cases rule: write_update_Inr)
    case (1 slot row)
    show ?thesis
      unfolding 1(2) update_change_def write_audit_frame
      by (rule updated_row_stays) (use assms(2) other in simp_all)
  qed
qed

lemma lifecycle_keeps_deleted:
  assumes "service_inv d" "m \<in> set (monitors d)" "mo_deletedAt m \<noteq> None"
    and "setLifecycle_tx i a now l reason actor d = Inr (rec, d')"
  shows "m \<in> set (monitors d')"
  using assms(4)
proof (cases rule: setLifecycle_Inr)
  case (changed m0 row)
  have other: "mo_id m \<noteq> i" by (rule managed_other[OF assms(1-3) changed(1)])
  then show ?thesis
    unfolding changed(3) write_audit_frame lifecycle_change_def
    by (intro updated_row_stays) (use assms(2) other in simp_all)
qed (use assms(2) in simp)

lemma resume_keeps_deleted:
  assumes "service_inv d" "m \<in> set (monitors d)" "mo_deletedAt m \<noteq> None"
    and "resume_tx i a now actor d = Inr (rec, d')"
  shows "m \<in> set (monitors d')"
  using assms(4)
proof (cases rule: resume_Inr)
  case (changed m0 slot row)
  have other: "mo_id m \<noteq> i" by (rule managed_other[OF assms(1-3) changed(1)])
  then show ?thesis
    unfolding changed(4) write_audit_frame
    by (intro updated_row_stays) (use assms(2) other in simp_all)
qed (use assms(2) in simp)

lemma remove_keeps_deleted:
  assumes "service_inv d" "m \<in> set (monitors d)" "mo_deletedAt m \<noteq> None"
    and "remove_tx i a now actor d = Inr (u, d')"
  shows "m \<in> set (monitors d')"
  using assms(4)
proof (cases rule: remove_Inr)
  case (1 m0 row)
  have other: "mo_id m \<noteq> i" by (rule managed_other[OF assms(1-3) 1(1)])
  then show ?thesis
    unfolding 1(2) write_audit_frame
    by (intro updated_row_stays) (use assms(2) other in simp_all)
qed

lemma schedule_keeps_deleted:
  assumes "service_inv d" "m \<in> set (monitors d)" "mo_deletedAt m \<noteq> None"
    and "createDueChecks locked newId now limit d = Inr (summaries, d')"
  shows "m \<in> set (monitors d')"
proof -
  have "m \<in> set (monitors (snd (summaries, d')))"
  proof (rule fold_tx_inv[where P = "\<lambda>acc. m \<in> set (monitors (snd acc))"])
    show "fold_tx (create_due_check newId now) (due_monitors locked now limit d) ([], d) = Inr (summaries, d')"
      using assms(4) by (simp add: createDueChecks_def)
    show "m \<in> set (monitors (snd ([], d)))" using assms(2) by simp
    fix x acc acc'
    assume x: "x \<in> set (due_monitors locked now limit d)" and acc: "m \<in> set (monitors (snd acc))"
      and step: "create_due_check newId now x acc = Inr acc'"
    have "x \<in> set (monitors d)" "due_monitor now d x" using due_monitors_in[OF x] by simp_all
    then have "mo_id m \<noteq> mo_id x"
      using monitor_unique[OF service_invD(1)[OF assms(1)] assms(2)] assms(3)
      by (metis due_monitor_def)
    note other = this
    from step consider "acc' = acc" | c t d1 where "create_check c (snd acc) = Inr d1"
        "snd acc' = set_nextCheckAt (mo_id x) (Some t) d1"
      by (auto simp: create_due_check_def Let_def split: sum.splits option.splits)
    then show "m \<in> set (monitors (snd acc'))"
    proof cases
      case 1
      with acc show ?thesis by simp
    next
      case 2
      with acc other create_check_Inr[OF 2(1)] show ?thesis
        by (simp add: set_nextCheckAt_def set_update_where)
    qed
  qed
  then show ?thesis by simp
qed

lemma persist_valid_other_row:
  assumes "persist_valid config rt g u m c r now d = Inr d'" "x \<in> set (monitors d)" "mo_id x \<noteq> mo_id m"
  shows "x \<in> set (monitors d')"
  using assms(1)
proof (rule persist_valid_Inr)
  fix t
  let ?d1 = "observe_recheck g m c r (observe_inconclusive g u m c r d)"
  assume step: "(if applied t then applyIncidentEffect config rt (rt_incidentId rt (sc_id c)) m r
        (incidentEffect t) now (update_monitor (mo_id m) (monitorUpdate r t) ?d1) else Inr ?d1) = Inr d'"
  have x1: "x \<in> set (monitors ?d1)"
  proof -
    have "x \<in> set (monitors (observe_inconclusive g u m c r d))"
      using assms(2) updated_row_stays[OF assms(2,3)]
      by (auto simp: observe_inconclusive_def Let_def split: option.splits)
    moreover have "monitors (observe_recheck g m c r d1) = monitors d1" for d1
      by (simp add: observe_recheck_def)
    ultimately show ?thesis by simp
  qed
  show ?thesis
  proof (cases "applied t")
    case True
    with step have "applyIncidentEffect config rt (rt_incidentId rt (sc_id c)) m r
        (incidentEffect t) now (update_monitor (mo_id m) (monitorUpdate r t) ?d1) = Inr d'" by simp
    from applyIncidentEffect_frame[OF this] obtain i' o' where
      "d' = (update_monitor (mo_id m) (monitorUpdate r t) ?d1)\<lparr>incidents := i', outbox := o'\<rparr>" by blast
    then have "monitors d' = monitors (update_monitor (mo_id m) (monitorUpdate r t) ?d1)" by simp
    with updated_row_stays[OF x1 assms(3)] show ?thesis by simp
  next
    case False
    with step x1 show ?thesis by simp
  qed
qed

lemma persist_keeps_deleted:
  assumes "service_inv d" "m \<in> set (monitors d)" "mo_deletedAt m \<noteq> None"
    and "persist config rt g oc om r u now d = (out, d')"
  shows "m \<in> set (monitors d')"
proof (cases "\<exists>st. persist_tx config rt g oc om r u now d = Inr (st, d')")
  case False
  with assms(4) have "d' = d" by (cases out) (auto dest: persist_Inl persist_Inr)
  with assms(2) show ?thesis by simp
next
  case True
  then obtain st where "persist_tx config rt g oc om r u now d = Inr (st, d')" ..
  then show ?thesis
  proof (cases rule: persist_tx_Inr)
    case skipped
    with assms(2) show ?thesis by simp
  next
    case (written c m0 d1 d2)
    have md1: "m \<in> set (monitors d1)" using assms(2) by (simp add: written(4))
    have "m \<in> set (monitors d2)"
    proof (cases "result_valid c m0")
      case True
      then have "mo_deletedAt m0 = None" by (simp add: result_valid_def)
      moreover have "m0 \<in> set (monitors d)" using find_by_Some[OF written(3)] by simp
      ultimately have "mo_id m \<noteq> mo_id m0"
        using monitor_unique[OF service_invD(1)[OF assms(1)] assms(2)] assms(3) by metis
      from persist_valid_other_row[OF _ md1 this] written(6) True show ?thesis by simp
    next
      case False
      with written(6) md1 show ?thesis by simp
    qed
    then show ?thesis by (simp add: written(7))
  qed
qed

lemma step_keeps_deleted:
  assumes "monitoring_step d d'" "service_inv d" "m \<in> set (monitors d)" "mo_deletedAt m \<noteq> None"
  shows "m \<in> set (monitors d')"
  using assms(1)
proof cases
  case (step_create env body x i a now actor r)
  from step_create(2) show ?thesis
  proof (cases rule: create_cases)
    case refused
    with assms(3) show ?thesis by simp
  next
    case (created u t rec)
    from created(3) show ?thesis by (cases rule: create_tx_Inr) (use assms(3) in simp)
  qed
next
  case (step_update env body patch i a now actor r)
  from step_update(2)[unfolded update_op_def] show ?thesis
    by (rule outcome_cases) (use assms update_keeps_deleted in blast)+
next
  case (step_pause i a now actor r)
  from step_pause[unfolded pause_def] show ?thesis
    by (rule outcome_cases) (use assms lifecycle_keeps_deleted in blast)+
next
  case (step_resume i a now actor r)
  from step_resume[unfolded resume_def] show ?thesis
    by (rule outcome_cases) (use assms resume_keeps_deleted in blast)+
next
  case (step_remove i a now actor u)
  show ?thesis
    by (rule transaction_inv[where P = "\<lambda>d. m \<in> set (monitors d)",
          OF step_remove[unfolded remove_def] assms(3)]) (rule remove_keeps_deleted[OF assms(2-4)])
next
  case (step_schedule locked newId now limit summaries)
  then show ?thesis using schedule_keeps_deleted assms(2-4) by blast
next
  case (step_persist rt oc config g om result u now out)
  then show ?thesis using persist_keeps_deleted assms(2-4) by blast
qed

text \<open>Removal is final: once a monitor is marked deleted, no sequence of requests, scheduler
passes and persisted results, in any order and however late the results arrive, changes its row
in any column or opens an incident for it.\<close>

theorem removed_stays_removed:
  assumes "service_inv d" "m \<in> set (monitors d)" "mo_deletedAt m \<noteq> None" "monitoring_run d d'"
  shows "m \<in> set (monitors d') \<and> open_incidents (mo_id m) d' = 0"
proof -
  have inv: "service_inv d' \<and> m \<in> set (monitors d')"
    using assms(4)
  proof (induction rule: rtranclp_induct)
    case base
    with assms show ?case by simp
  next
    case (step y z)
    with monitoring_step_inv step_keeps_deleted assms(3) show ?case by blast
  qed
  moreover have "lifecycleStatus (mo_state m) \<noteq> ACTIVE"
    using service_invD(2)[OF assms(1,2)] assms(3) by (simp add: monitor_ok_def)
  ultimately show ?thesis using inactive_no_incident service_invD(1) by blast
qed

section \<open>Accepted configurations\<close>

lemma byteLength_bound: "byteLength s \<le> 3 * length s"
proof (induction s rule: byteLength.induct)
  case 1
  then show ?case by simp
next
  case (2 c cs)
  show ?case
  proof (cases cs)
    case Nil
    then show ?thesis by simp
  next
    case (Cons d ds)
    show ?thesis
      by (subst byteLength.simps(2)) (use 2 Cons in \<open>auto simp del: byteLength.simps\<close>)
  qed
qed

lemma config_normalizes:
  assumes "valid_config m"
  shows "\<exists>nc. normalizeConfig (scheduled_config url m c) = Inr nc"
proof -
  have kw: "byteLength k \<le> MAX_KEYWORD_BYTES" if "mo_expectedKeyword m = Some k" for k
  proof -
    have "length k \<le> 512" using assms that by (simp add: valid_config_def)
    with byteLength_bound[of k] show ?thesis by (simp add: MAX_KEYWORD_BYTES_def)
  qed
  have "mo_method m = HEAD \<Longrightarrow> mo_expectedKeyword m = None"
    using assms by (cases "mo_expectedKeyword m") (auto simp: valid_config_def)
  then show ?thesis
    using assms kw
    by (cases "mo_expectedKeyword m")
      (auto simp: normalizeConfig_def scheduled_config_def or_default_def valid_config_def Let_def
        MIN_TIMEOUT_MS_def MAX_TIMEOUT_MS_def DEFAULT_MAX_REDIRECTS_def not_less)
qed

text \<open>C7. What the service stores, the other processes can work with: in every database reached
from an empty one by requests with arbitrary bodies, scheduler passes and persisted results, each
monitor, edited or not, satisfies the bounds of the schema, cross-field rules included; the
schedule arithmetic supports its interval; and for every check of a proper version the checker
accepts the configuration the check runs with and the state machine accepts its thresholds.\<close>

theorem stored_configuration_accepted:
  assumes "monitoring_run empty_db d" "m \<in> set (monitors d)"
  shows "js_trim (mo_name m) = mo_name m \<and> 1 \<le> length (mo_name m) \<and> length (mo_name m) \<le> 160 \<and>
    5 \<le> mo_intervalSec m \<and> mo_intervalSec m \<le> 86400 \<and>
    1000 \<le> mo_timeoutMs m \<and> mo_timeoutMs m \<le> 30000 \<and>
    100 \<le> mo_expectedStatusMin m \<and> mo_expectedStatusMin m \<le> mo_expectedStatusMax m \<and>
    mo_expectedStatusMax m \<le> 599 \<and>
    (\<forall>k. mo_expectedKeyword m = Some k \<longrightarrow> k \<noteq> [] \<and> js_trim k = k \<and> length k \<le> 512 \<and> mo_method m = GET) \<and>
    0 \<le> mo_maxRedirects m \<and> mo_maxRedirects m \<le> 5 \<and>
    1 \<le> mo_failureThreshold m \<and> mo_failureThreshold m \<le> 10 \<and>
    1 \<le> mo_recoveryThreshold m \<and> mo_recoveryThreshold m \<le> 10 \<and>
    isSupportedIntervalSec (mo_intervalSec m) \<and>
    (1 \<le> sc_configVersion c \<and> safe_integer (sc_configVersion c) \<longrightarrow>
      (\<exists>nc. normalizeConfig (scheduled_config url m c) = Inr nc) \<and>
      assertTransitionInput (transition_input m c r) = None)"
proof -
  have "service_inv d" by (rule monitoring_run_inv[OF assms(1) service_inv_empty])
  then have "valid_config m" using service_invD(2)[OF _ assms(2)] by (simp add: monitor_ok_def)
  with config_normalizes show ?thesis
    by (simp add: valid_config_def isSupportedIntervalSec_def assertTransitionInput_def transition_input_def
        safe_integer_def MIN_MONITOR_INTERVAL_SECONDS_def MAX_MONITOR_INTERVAL_SECONDS_def)
qed
text \<open>What a request asked for can be asked for again: the body that spells out every member
of an accepted input is accepted and means the same input, defaults and trimming included.\<close>

theorem accepted_input_roundtrip:
  assumes "monitorInputSchema is_uuid body = Some x"
  shows "monitorInputSchema is_uuid (input_body x) = Some x"
  by (rule input_body_accepted[OF input_valid[OF assms]])

text \<open>C8. Every database the processes reach from an empty one, by requests with arbitrary
bodies, scheduler passes and persisted results in any order, is consistent: each monitor's state
is well formed, it has one open incident exactly while it is DOWN or RECOVERING, it is scheduled
exactly while it is active, it is marked deleted exactly when its lifecycle says so, and its
configuration is in range.\<close>

theorem reachable_databases_consistent:
  assumes "monitoring_run empty_db d"
  shows "service_inv d"
  by (rule monitoring_run_inv[OF assms service_inv_empty])

section \<open>Examples\<close>

definition example_actor :: AuthenticatedUser where
  "example_actor = \<lparr>us_id = js ''u1'', us_username = js ''kim'', us_role = USER\<rparr>"

definition page_url :: Url where
  "page_url =
     \<lparr>u_protocol = js ''https:'', u_username = [], u_password = [], u_hostname = js ''a.example'',
      u_port = [], u_pathname = js ''/'', u_search = [], u_hash = []\<rparr>"

definition example_api :: api_env where
  "example_api =
     \<lparr>ae_new_URL = \<lambda>_. Some page_url, ae_isIP = \<lambda>_. 4, ae_resolve = \<lambda>_. Inr [\<lparr>ra_address = js ''1'', ra_family = 4\<rparr>],
      ae_is_uuid = \<lambda>_. True, ae_cipher = \<lambda>_. ([1], [1], [1]),
      ae_decipher = \<lambda>_ _ _. Some (js ''https://a.example/'')\<rparr>"

definition example_body :: json where
  "example_body = JObj [(js ''name'', JStr (js ''site'')), (js ''url'', JStr (js ''https://a.example/''))]"

definition down_state :: MonitorState where
  "down_state = initial_state\<lparr>healthState := MonitorHealth.DOWN, consecutiveFailures := 3,
     failureStreakStartedAt := Some 500, failureStreakFirstErrorType := Some DNS_ERROR\<rparr>"

definition down_monitor :: Monitor where
  "down_monitor = example_monitor\<lparr>mo_ownerAccountId := Some (js ''u1''), mo_state := down_state,
     mo_requestUrlEncrypted := encryptString (ae_cipher example_api) (js ''https://a.example/'')\<rparr>"

definition example_outbox_row :: NotificationOutbox where
  "example_outbox_row = default_outbox (js ''o1'') (Some (js ''m1'')) (Some (js ''i1'')) (js ''c1'')
     NotificationEventType.DOWN 0 (js ''k'') JNull telegram (js ''chat'') [7] (js ''id'') 900"

definition down_db :: db where
  "down_db = empty_db\<lparr>monitors := [down_monitor],
     incidents := [new_incident (js ''i1'') down_monitor 500 900 None None 900],
     scheduledChecks := [queued_check], outbox := [example_outbox_row]\<rparr>"

lemma trimmed_m1: "js_trim (js ''m1'') = js ''m1''"
  by code_simp

lemma trimmed_examples: "js_trim (js ''site'') = js ''site''" "js_trim (js ''https://a.example/'') = js ''https://a.example/''"
  by code_simp+

lemma down_monitor_fields [simp]:
  "mo_id down_monitor = js ''m1''" "mo_deletedAt down_monitor = None" "mo_state down_monitor = down_state"
  "mo_ownerAccountId down_monitor = Some (js ''u1'')"
  by (simp_all add: down_monitor_def example_monitor_def)

lemma down_state_wf: "wf_state down_state" "has_incident (healthState down_state)" "assertState down_state = None"
  "lifecycleStatus down_state = ACTIVE" "configVersion down_state = 1"
  by (simp_all add: down_state_def initial_state_def wf_state_def has_incident_def assertState_None_iff safe_integer_def)

lemma down_monitor_ok: "monitor_ok down_monitor"
  by (simp add: monitor_ok_def down_state_wf)
    (simp add: valid_config_def down_monitor_def example_monitor_def trimmed_examples js_def
      MIN_MONITOR_INTERVAL_SECONDS_def MAX_MONITOR_INTERVAL_SECONDS_def MAX_STORED_URL_LENGTH_def
      trimmed_examples[unfolded js_def, simplified])

lemma down_db_inv: "service_inv down_db"
  using down_state_wf(1,2)
  by (auto simp: service_inv_def incident_inv_def health_view_def down_db_def empty_db_def open_incidents_def
      down_monitor_ok)

lemma down_db_managed: "managed_monitor (js ''m1'') example_actor down_db = Inr down_monitor"
  by (simp add: managed_monitor_def lockMonitor_def down_db_def empty_db_def assertCanManageMonitor_def
      canManageMonitor_def example_actor_def)

lemma down_db_remove: "\<exists>d'. remove (js ''m1'') (js ''a1'') 1000 example_actor down_db = (Inr (), d')"
  by (simp add: remove_def transaction_def remove_tx_def down_db_managed Let_def)

lemma administration_refines_domain_witness:
  "\<exists>d' r m'. administer (js ''m1'') (js ''a1'') 1000 example_actor Remove down_db = (Inr (), d') \<and>
     domain_transition Remove down_state 1000 = Inr r \<and> find_by mo_id (js ''m1'') (monitors d') = Some m' \<and>
     mo_state m' = adm_state r \<and> adm_incidentEffect r = IncidentEffect.CANCEL 1000 IncidentClosureReason.DELETED"
proof -
  obtain d' where d': "administer (js ''m1'') (js ''a1'') 1000 example_actor Remove down_db = (Inr (), d')"
    using down_db_remove by auto
  obtain r m' where r: "domain_transition Remove down_state 1000 = Inr r"
    "find_by mo_id (js ''m1'') (monitors d') = Some m'" "mo_state m' = adm_state r"
    using administration_refines_domain[OF down_db_inv down_db_managed _ d'] down_state_wf(3) by auto
  have "adm_incidentEffect r = IncidentEffect.CANCEL 1000 IncidentClosureReason.DELETED"
    using r(1) transitionLifecycle_change[OF down_state_wf(3), of MonitorLifecycle.DELETED 1000] down_state_wf
    by auto
  with d' r show ?thesis by blast
qed

lemma removed_monitor_leaves_nothing_witness:
  "\<exists>d'. remove (js ''m1'') (js ''a1'') 1000 example_actor down_db = (Inr (), d') \<and>
     open_incidents (js ''m1'') down_db = 1 \<and> open_incidents (js ''m1'') d' = 0 \<and>
     lockMonitor (js ''m1'') d' = None"
proof -
  obtain d' where d': "remove (js ''m1'') (js ''a1'') 1000 example_actor down_db = (Inr (), d')"
    using down_db_remove by blast
  moreover have "open_incidents (js ''m1'') down_db = 1"
    by (simp add: open_incidents_def down_db_def)
  ultimately show ?thesis using removed_monitor_leaves_nothing[OF down_db_inv d'] by blast
qed

lemma length_js: "length (js s) = length s"
  by (simp add: js_def)

lemma example_input_ok:
  "\<exists>x. monitorInputSchema (\<lambda>_. True) example_body = Some x"
  by (simp add: monitorInputSchema_def strict_object_def example_body_def monitor_keys_def monitor_fields_def
      required_def defaulted_def js_inj name_field_def url_field_def string_field_def trimmed_examples Let_def
      validateMonitorCombination_def length_js)

lemma pause_succeeds:
  assumes "service_inv d" "managed_monitor i actor d = Inr m" "lifecycleStatus (mo_state m) \<noteq> MonitorLifecycle.PAUSED"
  shows "\<exists>v d'. pause i a t actor d = (Inr v, d') \<and> d' \<noteq> d"
proof -
  have "find_by mo_id i (monitors (update_monitor i (with_lifecycle MonitorLifecycle.PAUSED None)
      (cancelRuntime i IncidentClosureReason.PAUSED t d))) = Some (with_lifecycle MonitorLifecycle.PAUSED None m)"
    using found_after[OF assms(1,2), of "cancelRuntime i IncidentClosureReason.PAUSED t d"
        "with_lifecycle MonitorLifecycle.PAUSED None"] by simp
  then obtain rec row d' where tx: "setLifecycle_tx i a t MonitorLifecycle.PAUSED IncidentClosureReason.PAUSED actor d = Inr (rec, d')"
    and d': "d' = write_audit row (update_monitor i (with_lifecycle MonitorLifecycle.PAUSED None)
        (cancelRuntime i IncidentClosureReason.PAUSED t d))"
    using assms(2,3) by (simp add: setLifecycle_tx_def Let_def find_record_def)
  have "auditLogs d' = auditLogs d @ [row]" by (simp add: d' update_monitor_def)
  then have "d' \<noteq> d" by (metis append_self_conv list.distinct(1))
  with tx show ?thesis by (auto simp: pause_def as_view_def transaction_def)
qed

definition mixed_db :: db where
  "mixed_db = down_db\<lparr>monitors := [down_monitor, deleted_monitor 500 (example_monitor\<lparr>mo_id := js ''m0''\<rparr>)]\<rparr>"

lemma example_monitor_ok: "monitor_ok (deleted_monitor 500 (example_monitor\<lparr>mo_id := k\<rparr>))"
  using down_monitor_ok
  by (simp add: monitor_ok_def) (simp add: valid_config_def down_monitor_def example_monitor_def)

lemma mixed_db_inv: "service_inv mixed_db"
proof -
  have "wf_state (mo_state (deleted_monitor 500 (example_monitor\<lparr>mo_id := js ''m0''\<rparr>)))"
    using reset_health_wf(1)[OF wf_initial_state] by (simp add: example_monitor_def)
  then show ?thesis
    using down_state_wf(1,2) example_monitor_ok down_monitor_ok
    by (auto simp: service_inv_def incident_inv_def health_view_def mixed_db_def down_db_def empty_db_def
        open_incidents_def js_inj has_incident_def example_monitor_def)
qed

lemma mixed_db_managed: "managed_monitor (js ''m1'') example_actor mixed_db = Inr down_monitor"
  by (simp add: managed_monitor_def lockMonitor_def mixed_db_def assertCanManageMonitor_def
      canManageMonitor_def example_actor_def)

lemma removed_stays_removed_witness:
  "\<exists>d'. monitoring_run mixed_db d' \<and> d' \<noteq> mixed_db \<and>
     deleted_monitor 500 (example_monitor\<lparr>mo_id := js ''m0''\<rparr>) \<in> set (monitors d') \<and>
     open_incidents (js ''m0'') d' = 0"
proof -
  obtain v d' where p: "pause (js ''m1'') (js ''a1'') 1000 example_actor mixed_db = (Inr v, d')" "d' \<noteq> mixed_db"
    using pause_succeeds[OF mixed_db_inv mixed_db_managed, of "js ''a1''" 1000] down_state_wf(4) by auto
  have run: "monitoring_run mixed_db d'" using step_pause[OF p(1)] by blast
  let ?m = "deleted_monitor 500 (example_monitor\<lparr>mo_id := js ''m0''\<rparr>)"
  have "?m \<in> set (monitors mixed_db)" "mo_deletedAt ?m \<noteq> None" by (simp_all add: mixed_db_def)
  from removed_stays_removed[OF mixed_db_inv this run] p(2) run show ?thesis by auto
qed

lemma accepted_input_roundtrip_witness:
  "\<exists>x. monitorInputSchema (\<lambda>_. True) example_body = Some x \<and>
     monitorInputSchema (\<lambda>_. True) (input_body x) = Some x \<and> input_body x \<noteq> example_body"
proof -
  obtain x where x: "monitorInputSchema (\<lambda>_. True) example_body = Some x" using example_input_ok by blast
  with accepted_input_roundtrip[OF x] show ?thesis by (auto simp: input_body_def example_body_def)
qed

lemma changes_are_owned_and_audited_witness:
  "\<exists>d' row. remove (js ''m1'') (js ''a1'') 1000 example_actor down_db = (Inr (), d') \<and>
     auditLogs d' = auditLogs down_db @ [row] \<and> audits row example_actor (js ''m1'') \<and>
     outside (js ''m1'') d' = outside (js ''m1'') down_db"
proof -
  obtain d' where d': "remove (js ''m1'') (js ''a1'') 1000 example_actor down_db = (Inr (), d')"
    using down_db_remove by blast
  then have h: "handle (js ''m1'') (js ''a1'') 1000 example_actor (Admin Remove) down_db = (Inr (), d')" by simp
  have "open_incidents (js ''m1'') down_db = 1" by (simp add: open_incidents_def down_db_def)
  moreover have "open_incidents (js ''m1'') d' = 0" using removed_monitor_leaves_nothing[OF down_db_inv d'] by blast
  ultimately have "d' \<noteq> down_db" by auto
  with changes_are_owned_and_audited[OF h] d' show ?thesis by blast
qed

lemma first_slot_exists:
  assumes "js_trim i \<noteq> []" "5 \<le> n" "n \<le> 86400" "0 \<le> now" "now \<le> 1000000000000000"
  shows "\<exists>t. first_slot i n now = Inr t"
proof -
  have ms: "intervalToMilliseconds n = Inr (n * 1000)"
    using assms by (intro intervalToMilliseconds_ok) (simp_all add: safe_integer_def)
  then obtain j where j: "stableJitterMs i n default_jitterRatio = Inr j"
    using assms(1) by (simp add: stableJitterMs_def default_jitterRatio_def Let_def)
  have jb: "0 \<le> j" "j \<le> n * 100" using stableJitterMs_bounds(1,2)[OF j] unfolding jitter_window_default by simp_all
  have pos: "0 < n * 1000" using assms by simp
  let ?t = "now div (n * 1000) * (n * 1000) + n * 1000 + j"
  have lo: "0 \<le> now div (n * 1000)" using assms(4) pos by (simp add: pos_imp_zdiv_nonneg_iff)
  then have "0 \<le> now div (n * 1000) * (n * 1000)" using pos by simp
  then have "0 \<le> ?t" "?t \<le> 8640000000000000"
    using div_mult_bounds[OF pos, of now] jb assms by linarith+
  then have "new_date ?t = Some ?t" by (simp add: new_date_def)
  then show ?thesis
    by (simp add: first_slot_def calculateInitialNextCheckAt_def assertDate_def ms j Let_def)
qed

lemma page_parse: "parseMonitorUrl (\<lambda>_. Some page_url) (\<lambda>_. 4) s = Inr page_url"
  by (simp add: parseMonitorUrl_def page_url_def web_protocol_def)

lemma js_append: "js (a @ b) = js a @ js b"
  by (simp add: js_def)

lemma page_text: "url_toString page_url = js ''https://a.example/''"
  by (simp add: url_toString_def u_host_def page_url_def flip: js_append)

lemma example_target:
  "validateTarget example_api s = Inr page_url"
  "storedTarget example_api page_url = Inr \<lparr>st_requestUrl = js ''https://a.example/'',
     st_displayUrl = js ''https://a.example/'',
     st_hostnameNormalized = ascii_lower (strip_dot (strip_brackets (js ''a.example'')))\<rparr>"
proof -
  show "validateTarget example_api s = Inr page_url"
    by (simp add: validateTarget_def parseTarget_def example_api_def page_parse resolveSafeDestination_def
        safe_destination_def)
  have "page_url\<lparr>u_username := [], u_password := [], u_search := [], u_hash := []\<rparr> = page_url"
    by (simp add: page_url_def)
  then show "storedTarget example_api page_url = Inr \<lparr>st_requestUrl = js ''https://a.example/'',
     st_displayUrl = js ''https://a.example/'',
     st_hostnameNormalized = ascii_lower (strip_dot (strip_brackets (js ''a.example'')))\<rparr>"
    by (simp add: storedTarget_def toDisplayUrl_def example_api_def page_text Let_def MAX_STORED_URL_LENGTH_def length_js)
      (simp add: page_url_def)
qed

lemma example_created:
  assumes "i \<notin> mo_id ` set (monitors d)" "mi_channelIds x = []" "js_trim i \<noteq> []" "valid_input is_uuid x"
    and "0 \<le> now" "now \<le> 1000000000000000"
  shows "\<exists>v d'. create example_api i a now x actor d = (Inr v, d') \<and> i \<in> mo_id ` set (monitors d')"
proof -
  obtain t where "first_slot i (mi_intervalSec x) now = Inr t"
    using first_slot_exists[OF assms(3) _ _ assms(5,6)] assms(4)
    by (auto simp: valid_input_def MIN_MONITOR_INTERVAL_SECONDS_def MAX_MONITOR_INTERVAL_SECONDS_def)
  moreover have "\<not> list_ex (\<lambda>m. mo_id m = i) (monitors d)" using assms(1) by (auto simp: list_ex_iff)
  ultimately show ?thesis
    using assms(2) by (simp add: create_def example_target create_tx_def transaction_def assertChannelIds_def Let_def)
qed

lemma example_run:
  "\<exists>d. monitoring_run empty_db d \<and> js ''m1'' \<in> mo_id ` set (monitors d)"
proof -
  obtain x where x: "monitorInputSchema (\<lambda>_. True) example_body = Some x" using example_input_ok by blast
  have "mi_channelIds x = []"
    using x by (auto simp: monitorInputSchema_def monitor_fields_def bind_eq_Some_conv strict_object_def
        example_body_def defaulted_def js_inj split: if_splits)
  moreover have "js_trim (js ''m1'') \<noteq> []" by code_simp
  moreover have "js ''m1'' \<notin> mo_id ` set (monitors empty_db)" by (simp add: empty_db_def)
  ultimately obtain v d where d: "create example_api (js ''m1'') (js ''a1'') 1000 x example_actor empty_db = (Inr v, d)"
    "js ''m1'' \<in> mo_id ` set (monitors d)"
    using example_created[OF _ _ _ input_valid[OF x], of "js ''m1''" empty_db 1000 "js ''a1''" example_actor] by auto
  have "monitoring_step empty_db d"
    by (rule step_create[OF _ d(1), of example_body]) (simp add: example_api_def x)
  then have "monitoring_run empty_db d" by blast
  with d(2) show ?thesis by blast
qed

lemma reachable_databases_consistent_witness:
  "\<exists>d. monitoring_run empty_db d \<and> js ''m1'' \<in> mo_id ` set (monitors d) \<and> service_inv d"
  using example_run reachable_databases_consistent by blast

lemma stored_configuration_accepted_witness:
  "\<exists>d m. monitoring_run empty_db d \<and> m \<in> set (monitors d) \<and> mo_id m = js ''m1'' \<and>
     5 \<le> mo_intervalSec m \<and> (\<exists>nc. normalizeConfig (scheduled_config (js ''https://a.example/'') m queued_check) = Inr nc)"
proof -
  obtain d where d: "monitoring_run empty_db d" "js ''m1'' \<in> mo_id ` set (monitors d)"
    using example_run by blast
  then obtain m where m: "m \<in> set (monitors d)" "mo_id m = js ''m1''" by auto
  moreover have "1 \<le> sc_configVersion queued_check \<and> safe_integer (sc_configVersion queued_check)"
    by (simp add: queued_check_def safe_integer_def)
  ultimately show ?thesis using stored_configuration_accepted[OF d(1) m(1)] d(1) by blast
qed

definition slower :: MonitorPatch where
  "slower = \<lparr>mp_name = None, mp_url = None, mp_method = None, mp_intervalSec = Some 120, mp_timeoutMs = None,
     mp_expectedStatusMin = None, mp_expectedStatusMax = None, mp_expectedKeyword = None,
     mp_followRedirects = None, mp_maxRedirects = None, mp_failureThreshold = None,
     mp_recoveryThreshold = None, mp_channelIds = None\<rparr>"

lemma example_decrypts:
  "decryptedUrl example_api (mo_requestUrlEncrypted down_monitor) = Inr (js ''https://a.example/'')"
proof -
  have "seals (ae_cipher example_api) (ae_decipher example_api) (js ''https://a.example/'')"
    by (simp add: seals_def example_api_def)
  from decrypt_encrypt[OF this] show ?thesis by (simp add: decryptedUrl_def down_monitor_def)
qed

lemma slower_merges:
  "monitorInputSchema (ae_is_uuid example_api) (input_body
     (merged_input down_monitor [] (js ''https://a.example/'') slower)) =
   Some (merged_input down_monitor [] (js ''https://a.example/'') slower)"
  by (rule input_body_accepted)
    (simp add: valid_input_def merged_input_def slower_def value_or_def down_monitor_def example_monitor_def
      trimmed_examples length_js MIN_MONITOR_INTERVAL_SECONDS_def MAX_MONITOR_INTERVAL_SECONDS_def)

lemma slower_fields:
  "mi_intervalSec (merged_input down_monitor [] (js ''https://a.example/'') slower) = 120"
  "mi_channelIds (merged_input down_monitor [] (js ''https://a.example/'') slower) = []"
  "mo_intervalSec down_monitor = 60"
  by (simp_all add: merged_input_def slower_def value_or_def down_monitor_def example_monitor_def)

lemma reconfiguration_refines_domain_witness:
  "\<exists>v d' m'. update_op example_api (js ''m1'') (js ''a1'') 1000 slower example_actor down_db = (Inr v, d') \<and>
     find_by mo_id (js ''m1'') (monitors d') = Some m' \<and>
     configVersion (mo_state m') = 2 \<and> mo_intervalSec m' = 120"
proof -
  let ?x = "merged_input down_monitor [] (js ''https://a.example/'') slower"
  obtain t where t: "first_slot (js ''m1'') 120 1000 = Inr t"
    using first_slot_exists[of "js ''m1''" 120 1000] by (auto simp: trimmed_m1)
  have ch: "channel_ids (js ''m1'') down_db = []" by (simp add: channel_ids_def down_db_def empty_db_def)
  have changed: "monitoring_changed down_monitor (js ''https://a.example/'') ?x u" for u
    by (simp add: monitoring_changed_def slower_fields)
  obtain tgt where tgt: "storedTarget example_api page_url = Inr tgt" using example_target(2) by blast
  let ?f = "\<lambda>m. restarted (configured example_api ?x tgt m) (Some t)"
  let ?d = "update_monitor (js ''m1'') ?f (rebind_channels (js ''m1'') [] 1000
      (cancelRuntime (js ''m1'') CONFIG_CHANGED 1000 down_db))"
  have found: "find_by mo_id (js ''m1'') (monitors ?d) = Some (?f down_monitor)"
    using found_after[OF down_db_inv down_db_managed, of _ ?f] by simp
  then have "\<exists>rec row. write_update example_api (js ''m1'') (js ''a1'') 1000 example_actor down_monitor ?x tgt True
      down_db = Inr (rec, write_audit row ?d)"
    using t by (auto simp: write_update_def update_slot_def down_state_wf slower_fields Let_def find_record_def)
  then obtain rec row where w: "write_update example_api (js ''m1'') (js ''a1'') 1000 example_actor down_monitor ?x tgt True
      down_db = Inr (rec, write_audit row ?d)" by blast
  then have tx: "update_tx example_api (js ''m1'') (js ''a1'') 1000 slower example_actor down_db
      = Inr (rec, write_audit row ?d)"
    using changed[of "st_requestUrl tgt"]
    by (simp add: update_tx_def down_db_managed example_decrypts ch parseInput_def slower_merges example_target(1)
        tgt slower_fields assertChannelIds_def)
  let ?d' = "write_audit row ?d"
  obtain v where op: "update_op example_api (js ''m1'') (js ''a1'') 1000 slower example_actor down_db = (Inr v, ?d')"
    using tx by (simp add: update_op_def as_view_def transaction_def)
  have safe: "safe_integer (configVersion (mo_state down_monitor) + 1)"
    by (simp add: down_state_wf safe_integer_def)
  have "find_by mo_id (js ''m1'') (monitors ?d') = Some (?f down_monitor)" using found by simp
  moreover have "mo_intervalSec (?f down_monitor) = 120"
    by (simp add: restarted_def configured_def slower_fields)
  moreover from reconfiguration_refines_domain[OF down_db_inv down_db_managed _ safe op] down_state_wf(3)
  have "configVersion (mo_state (?f down_monitor)) = 2"
    using calculation by (auto simp: same_monitoring_def slower_fields down_state_wf)
  ultimately show ?thesis using op by blast
qed

end
