(* ===== verification/Manual_Checks.thy ===== *)
theory Manual_Checks
  imports Monitor_Guarantees "HOL-Library.AList"
begin

text \<open>
  Checks on request, of \<open>apps/api/src/monitors/monitors.service.ts\<close>: the in-process
  \<open>LocalCheckRateLimiter\<close>, \<open>checkNow\<close> for a stored monitor and \<open>test\<close> for an input that is not
  stored. The limiter's map holds references to its entries, because a running operation keeps
  the entry it was admitted under while the map may already hold a newer one for the same key;
  its two halves are the admission and the cleanup after the operation. The checker is a
  parameter (\<open>Http_Checker\<close> models it); \<open>None\<close> is a throw.
\<close>

section \<open>The rate limiter\<close>

definition MANUAL_CHECK_WINDOW_MS :: int where "MANUAL_CHECK_WINDOW_MS = 60000"
definition MANUAL_CHECKS_PER_WINDOW :: nat where "MANUAL_CHECKS_PER_WINDOW = 5"

record RateLimitEntry =
  re_windowStartedAt :: time
  re_count :: nat
  re_inFlight :: bool

record LocalCheckRateLimiter =
  rl_entries :: "(jstring \<times> nat) list"
  rl_store :: "nat \<Rightarrow> RateLimitEntry"
  rl_next :: nat

definition new_limiter :: LocalCheckRateLimiter where
  "new_limiter = \<lparr>rl_entries = [],
     rl_store = \<lambda>_. \<lparr>re_windowStartedAt = 0, re_count = 0, re_inFlight = False\<rparr>, rl_next = 0\<rparr>"

definition window_over :: "time \<Rightarrow> RateLimitEntry \<Rightarrow> bool" where
  "window_over now entry \<longleftrightarrow> MANUAL_CHECK_WINDOW_MS \<le> now - re_windowStartedAt entry"

text \<open>The entry of the key, a new one when there is none or its window is over.\<close>

definition current_entry :: "jstring \<Rightarrow> time \<Rightarrow> LocalCheckRateLimiter \<Rightarrow> nat \<times> LocalCheckRateLimiter" where
  "current_entry key now l =
     (case map_of (rl_entries l) key of
        Some r \<Rightarrow>
          if window_over now (rl_store l r)
          then (rl_next l, l\<lparr>rl_entries := AList.update key (rl_next l) (rl_entries l),
                  rl_store := (rl_store l)(rl_next l :=
                    \<lparr>re_windowStartedAt = now, re_count = 0, re_inFlight = False\<rparr>),
                  rl_next := rl_next l + 1\<rparr>)
          else (r, l)
      | None \<Rightarrow>
          (rl_next l, l\<lparr>rl_entries := AList.update key (rl_next l) (rl_entries l),
             rl_store := (rl_store l)(rl_next l :=
               \<lparr>re_windowStartedAt = now, re_count = 0, re_inFlight = False\<rparr>),
             rl_next := rl_next l + 1\<rparr>))"

definition busy_message :: jstring where
  "busy_message = [0xAC19, 0xC740, 0x20, 0xB300, 0xC0C1, 0xC758, 0x20, 0xC218, 0xB3D9, 0x20, 0xAC80,
      0xC0AC, 0xB294, 0x20, 0xC7A0, 0xC2DC, 0x20, 0xD6C4, 0x20, 0xB2E4, 0xC2DC, 0x20, 0xC2DC,
      0xB3C4, 0xD574, 0x20, 0xC8FC, 0xC138, 0xC694, 0x2E]"

definition admit :: "jstring \<Rightarrow> time \<Rightarrow> LocalCheckRateLimiter \<Rightarrow> (api_error + nat) \<times> LocalCheckRateLimiter" where
  "admit key now l =
     (case current_entry key now l of (r, l1) \<Rightarrow>
        if re_inFlight (rl_store l1 r) \<or> MANUAL_CHECKS_PER_WINDOW \<le> re_count (rl_store l1 r)
        then (Inl (TooManyRequests busy_message), l1)
        else (Inr r, l1\<lparr>rl_store := (rl_store l1)(r :=
                (rl_store l1 r)\<lparr>re_count := re_count (rl_store l1 r) + 1, re_inFlight := True\<rparr>)\<rparr>))"

text \<open>The \<open>finally\<close> block; \<open>now\<close> is still the time of the admission.\<close>

definition settle :: "nat \<Rightarrow> time \<Rightarrow> LocalCheckRateLimiter \<Rightarrow> LocalCheckRateLimiter" where
  "settle r now l =
     (let l1 = l\<lparr>rl_store := (rl_store l)(r := (rl_store l r)\<lparr>re_inFlight := False\<rparr>)\<rparr>
      in if 1000 < length (rl_entries l1)
         then l1\<lparr>rl_entries := filter (\<lambda>(k, c). \<not> (\<not> re_inFlight (rl_store l1 c) \<and> window_over now (rl_store l1 c)))
                (rl_entries l1)\<rparr>
         else l1)"

text \<open>\<open>run\<close> around an operation on the rest of the world.\<close>

definition run_limited ::
  "jstring \<Rightarrow> time \<Rightarrow> ('w \<Rightarrow> (api_error + 'a) \<times> 'w) \<Rightarrow> LocalCheckRateLimiter \<times> 'w \<Rightarrow>
   (api_error + 'a) \<times> LocalCheckRateLimiter \<times> 'w" where
  "run_limited key now operation s =
     (case admit key now (fst s) of
        (Inl e, l) \<Rightarrow> (Inl e, l, snd s)
      | (Inr r, l) \<Rightarrow>
         (case operation (snd s) of (result, w) \<Rightarrow> (result, settle r now l, w)))"

section \<open>Check configurations\<close>

definition manual_config :: "jstring \<Rightarrow> Monitor \<Rightarrow> MonitorCheckConfig" where
  "manual_config url m =
     \<lparr>cf_url = url, cf_method = Some (mo_method m), cf_timeoutMs = Some (mo_timeoutMs m),
      cf_expectedStatusMin = Some (mo_expectedStatusMin m),
      cf_expectedStatusMax = Some (mo_expectedStatusMax m),
      cf_expectedKeyword = (if mo_expectedKeyword m = Some [] then None else mo_expectedKeyword m),
      cf_followRedirects = Some (mo_followRedirects m), cf_maxRedirects = Some (mo_maxRedirects m),
      cf_source = Some MANUAL, cf_configVersion = Some (configVersion (mo_state m))\<rparr>"

definition test_config :: "jstring \<Rightarrow> MonitorInput \<Rightarrow> MonitorCheckConfig" where
  "test_config url x =
     \<lparr>cf_url = url, cf_method = Some (mi_method x), cf_timeoutMs = Some (mi_timeoutMs x),
      cf_expectedStatusMin = Some (mi_expectedStatusMin x),
      cf_expectedStatusMax = Some (mi_expectedStatusMax x),
      cf_expectedKeyword = (if mi_expectedKeyword x = [] then None else Some (mi_expectedKeyword x)),
      cf_followRedirects = Some (mi_followRedirects x), cf_maxRedirects = Some (mi_maxRedirects x),
      cf_source = Some CheckSource.TEST, cf_configVersion = None\<rparr>"

section \<open>Stored results\<close>

record CheckResultView =
  cv_id :: id
  cv_monitorId :: "id option"
  cv_configVersion :: "int option"
  cv_displayUrlSnapshot :: jstring
  cv_source :: CheckSource
  cv_outcome :: CheckOutcome
  cv_startedAt :: time
  cv_finishedAt :: time
  cv_statusCode :: "int option"
  cv_ttfbMs :: "int option"
  cv_totalMs :: int
  cv_errorType :: "CheckErrorType option"
  cv_errorMessageSafe :: "jstring option"

definition toCheckResultView :: "CheckResult \<Rightarrow> CheckResultView" where
  "toCheckResultView r =
     \<lparr>cv_id = cr_id r, cv_monitorId = cr_monitorId r, cv_configVersion = cr_configVersion r,
      cv_displayUrlSnapshot = cr_displayUrlSnapshot r, cv_source = cr_source r,
      cv_outcome = cr_outcome r, cv_startedAt = cr_startedAt r, cv_finishedAt = cr_finishedAt r,
      cv_statusCode = cr_statusCode r, cv_ttfbMs = cr_ttfbMs r, cv_totalMs = cr_totalMs r,
      cv_errorType = cr_errorType r, cv_errorMessageSafe = cr_errorMessageSafe r\<rparr>"

definition requested_row ::
  "id \<Rightarrow> id option \<Rightarrow> int option \<Rightarrow> jstring \<Rightarrow> MonitorCheckResult \<Rightarrow> time \<Rightarrow> CheckResult" where
  "requested_row i monitorId version displayed result now =
     \<lparr>cr_id = i, cr_monitorId = monitorId, cr_scheduledCheckId = None, cr_source = rs_source result,
      cr_outcome = rs_outcome result, cr_configVersion = version, cr_displayUrlSnapshot = displayed,
      cr_startedAt = rs_startedAt result, cr_finishedAt = rs_finishedAt result,
      cr_statusCode = rs_statusCode result, cr_ttfbMs = rs_ttfbMs result,
      cr_totalMs = rs_totalMs result, cr_errorType = rs_errorType result,
      cr_errorMessageSafe = rs_errorMessageSafe result, cr_workerRegion = None,
      cr_redirectCount = rs_redirectCount result,
      cr_responseBytesRead = Some (rs_inspectedBodyBytes result), cr_createdAt = now\<rparr>"

definition store_result :: "CheckResult \<Rightarrow> AuditLog \<Rightarrow> CheckResult tx" where
  "store_result row audit d =
     (case create_result row d of Inl e \<Rightarrow> Inl (DatabaseError e)
      | Inr d1 \<Rightarrow> Inr (row, write_audit audit d1))"

definition outcome_json :: "CheckOutcome \<Rightarrow> json" where
  "outcome_json outcome = JStr (js (outcome_name outcome))"

text \<open>The checker that throws is an uncaught error of the request.\<close>

definition run_check_request :: "check_runner \<Rightarrow> MonitorCheckConfig \<Rightarrow> api_error + MonitorCheckResult" where
  "run_check_request check config =
     (case check config of None \<Rightarrow> Inl (Uncaught (PlainError ''check failed'')) | Some r \<Rightarrow> Inr r)"

definition check_stored ::
  "api_env \<Rightarrow> check_runner \<Rightarrow> id \<Rightarrow> id \<Rightarrow> time \<Rightarrow> Monitor \<Rightarrow> AuthenticatedUser \<Rightarrow> db \<Rightarrow>
   (api_error + CheckResultView) \<times> db" where
  "check_stored env check resultId auditId now m actor d =
     (case decryptedUrl env (mo_requestUrlEncrypted m) of Inl e \<Rightarrow> (Inl e, d)
      | Inr url \<Rightarrow>
        (case run_check_request check (manual_config url m) of Inl e \<Rightarrow> (Inl e, d)
         | Inr result \<Rightarrow>
           map_prod (map_sum id toCheckResultView) id
             (transaction (store_result
               (requested_row resultId (Some (mo_id m)) (Some (configVersion (mo_state m)))
                  (mo_displayUrl m) result now)
               (audit_row auditId (us_id actor) ''MONITOR_MANUAL_CHECKED'' ''Monitor'' (mo_id m)
                  (Some (JObj [(js ''outcome'', outcome_json (rs_outcome result))])) now)) d)))"

definition target_key :: "jstring \<Rightarrow> jstring" where
  "target_key hostname = js ''target:'' @ hostname"

definition checkNow ::
  "api_env \<Rightarrow> check_runner \<Rightarrow> id \<Rightarrow> id \<Rightarrow> id \<Rightarrow> time \<Rightarrow> AuthenticatedUser \<Rightarrow>
   LocalCheckRateLimiter \<times> db \<Rightarrow> (api_error + CheckResultView) \<times> LocalCheckRateLimiter \<times> db" where
  "checkNow env check i resultId auditId now actor s =
     (case lockMonitor i (snd s) of None \<Rightarrow> (Inl monitor_missing, s)
      | Some m \<Rightarrow>
          run_limited (target_key (mo_hostnameNormalized m)) now
            (check_stored env check resultId auditId now m actor) s)"

definition check_input ::
  "api_env \<Rightarrow> check_runner \<Rightarrow> id \<Rightarrow> id \<Rightarrow> time \<Rightarrow> MonitorInput \<Rightarrow> AuthenticatedUser \<Rightarrow> db \<Rightarrow>
   (api_error + CheckResultView) \<times> db" where
  "check_input env check resultId auditId now x actor d =
     (case validateTarget env (mi_url x) of Inl e \<Rightarrow> (Inl e, d)
      | Inr parsedUrl \<Rightarrow>
        (case storedTarget env parsedUrl of Inl e \<Rightarrow> (Inl e, d)
         | Inr target \<Rightarrow>
           (case run_check_request check (test_config (st_requestUrl target) x) of Inl e \<Rightarrow> (Inl e, d)
            | Inr result \<Rightarrow>
              map_prod (map_sum id toCheckResultView) id
                (transaction (store_result
                  (requested_row resultId None None (st_displayUrl target) result now)
                  (audit_row auditId (us_id actor) ''MONITOR_TEST_EXECUTED'' ''CheckResult'' resultId
                    (Some (JObj [(js ''hostname'', JStr (st_hostnameNormalized target)),
                                 (js ''outcome'', outcome_json (rs_outcome result))])) now)) d))))"

definition test_input ::
  "api_env \<Rightarrow> check_runner \<Rightarrow> id \<Rightarrow> id \<Rightarrow> time \<Rightarrow> MonitorInput \<Rightarrow> AuthenticatedUser \<Rightarrow>
   LocalCheckRateLimiter \<times> db \<Rightarrow> (api_error + CheckResultView) \<times> LocalCheckRateLimiter \<times> db" where
  "test_input env check resultId auditId now x actor s =
     (case parseTarget env (mi_url x) of Inl e \<Rightarrow> (Inl e, s)
      | Inr parsed \<Rightarrow>
        (case storedTarget env parsed of Inl e \<Rightarrow> (Inl e, s)
         | Inr rateTarget \<Rightarrow>
            run_limited (target_key (st_hostnameNormalized rateTarget)) now
              (check_input env check resultId auditId now x actor) s))"

section \<open>Runs of the limiter\<close>

text \<open>
  Admissions and settlements in any interleaving, with the clock, the log of admissions (the key,
  the time and the entry each was admitted under) and those of them that are still in flight: an
  operation settles once, in the \<open>finally\<close> of its own admission.
\<close>

type_synonym admission = "jstring \<times> time \<times> nat"

inductive limiter_run ::
  "time \<Rightarrow> LocalCheckRateLimiter \<Rightarrow> admission list \<Rightarrow> admission list \<Rightarrow> bool" where
  run_start: "limiter_run t new_limiter [] []"
| run_admitted: "limiter_run t l adm fl \<Longrightarrow> t \<le> now \<Longrightarrow> admit key now l = (Inr r, l') \<Longrightarrow>
     limiter_run now l' ((key, now, r) # adm) ((key, now, r) # fl)"
| run_refused: "limiter_run t l adm fl \<Longrightarrow> t \<le> now \<Longrightarrow> admit key now l = (Inl e, l') \<Longrightarrow>
     limiter_run now l' adm fl"
| run_settled: "limiter_run t l adm fl \<Longrightarrow> t \<le> now \<Longrightarrow> (key, began, r) \<in> set fl \<Longrightarrow>
     limiter_run now (settle r began l) adm (remove1 (key, began, r) fl)"

abbreviation started :: "LocalCheckRateLimiter \<Rightarrow> nat \<Rightarrow> time" where
  "started l r \<equiv> re_windowStartedAt (rl_store l r)"

abbreviation current :: "LocalCheckRateLimiter \<Rightarrow> jstring \<Rightarrow> nat option" where
  "current l \<equiv> map_of (rl_entries l)"

definition known :: "LocalCheckRateLimiter \<Rightarrow> admission list \<Rightarrow> jstring \<Rightarrow> nat \<Rightarrow> bool" where
  "known l adm k r \<longleftrightarrow> current l k = Some r \<or> (\<exists>t. (k, t, r) \<in> set adm)"

definition admitted_under :: "nat \<Rightarrow> admission list \<Rightarrow> nat" where
  "admitted_under r adm = count_where (\<lambda>(k, t, x). x = r) adm"

text \<open>
  Entries of one key have windows that do not overlap and belong to no other key, an entry that
  is no longer current has had its window, every admission lies in the window of its entry, an
  entry counts its admissions and is marked exactly while one of them is in flight.
\<close>

definition manual_inv :: "time \<Rightarrow> LocalCheckRateLimiter \<Rightarrow> admission list \<Rightarrow> admission list \<Rightarrow> bool" where
  "manual_inv clock l adm fl \<longleftrightarrow>
     (\<forall>k r. known l adm k r \<longrightarrow> r < rl_next l \<and> started l r \<le> clock) \<and>
     (\<forall>k r r'. known l adm k r \<longrightarrow> known l adm k r' \<longrightarrow> r = r' \<or>
        started l r + MANUAL_CHECK_WINDOW_MS \<le> started l r' \<or>
        started l r' + MANUAL_CHECK_WINDOW_MS \<le> started l r) \<and>
     (\<forall>k r. known l adm k r \<longrightarrow> current l k \<noteq> Some r \<longrightarrow> started l r + MANUAL_CHECK_WINDOW_MS \<le> clock) \<and>
     (\<forall>k t r. (k, t, r) \<in> set adm \<longrightarrow>
        started l r \<le> t \<and> t < started l r + MANUAL_CHECK_WINDOW_MS \<and> t \<le> clock) \<and>
     (\<forall>r < rl_next l. admitted_under r adm = re_count (rl_store l r) \<and>
        re_count (rl_store l r) \<le> MANUAL_CHECKS_PER_WINDOW) \<and>
     distinct (map fst (rl_entries l)) \<and>
     (\<forall>k k' r. known l adm k r \<longrightarrow> known l adm k' r \<longrightarrow> k = k') \<and>
     set fl \<subseteq> set adm \<and>
     (\<forall>r < rl_next l. admitted_under r fl = (if re_inFlight (rl_store l r) then 1 else 0))"

lemma limiter_invD:
  assumes "manual_inv clock l adm fl"
  shows "known l adm k r \<Longrightarrow> r < rl_next l" "known l adm k r \<Longrightarrow> started l r \<le> clock"
    "known l adm k r \<Longrightarrow> known l adm k r' \<Longrightarrow> r \<noteq> r' \<Longrightarrow>
       started l r + MANUAL_CHECK_WINDOW_MS \<le> started l r' \<or> started l r' + MANUAL_CHECK_WINDOW_MS \<le> started l r"
    "known l adm k r \<Longrightarrow> current l k \<noteq> Some r \<Longrightarrow> started l r + MANUAL_CHECK_WINDOW_MS \<le> clock"
    "(k, t, r) \<in> set adm \<Longrightarrow> started l r \<le> t \<and> t < started l r + MANUAL_CHECK_WINDOW_MS"
    "r < rl_next l \<Longrightarrow> admitted_under r adm = re_count (rl_store l r)"
    "r < rl_next l \<Longrightarrow> re_count (rl_store l r) \<le> MANUAL_CHECKS_PER_WINDOW"
    "distinct (map fst (rl_entries l))"
    "known l adm k r \<Longrightarrow> known l adm k' r \<Longrightarrow> k = k'"
    "set fl \<subseteq> set adm"
    "r < rl_next l \<Longrightarrow> admitted_under r fl = (if re_inFlight (rl_store l r) then 1 else 0)"
    "(k, t, r) \<in> set adm \<Longrightarrow> t \<le> clock"
  using assms unfolding manual_inv_def by blast+

lemma limiter_inv_later: "manual_inv t l adm fl \<Longrightarrow> t \<le> now \<Longrightarrow> manual_inv now l adm fl"
  unfolding manual_inv_def by (meson order_trans)

lemma admitted_under_none:
  "(\<And>k t. (k, t, r) \<notin> set adm) \<Longrightarrow> admitted_under r adm = 0"
  by (auto simp: admitted_under_def count_where_zero_iff)

lemma admitted_under_pos:
  assumes "0 < admitted_under r adm"
  obtains k t where "(k, t, r) \<in> set adm"
  using assms admitted_under_none[of r adm] by fastforce

lemma admitted_under_remove1:
  "x \<in> set adm \<Longrightarrow> admitted_under y adm = admitted_under y (remove1 x adm) + (if snd (snd x) = y then 1 else 0)"
  by (induction adm) (auto simp: admitted_under_def split: prod.splits)

text \<open>A new entry for a key whose earlier entries have had their windows.\<close>

lemma fresh_entry_inv:
  assumes inv: "manual_inv now l adm fl"
    and old: "\<And>r. known l adm key r \<Longrightarrow> started l r + MANUAL_CHECK_WINDOW_MS \<le> now"
    and l': "l' = l\<lparr>rl_entries := AList.update key (rl_next l) (rl_entries l),
       rl_store := (rl_store l)(rl_next l := \<lparr>re_windowStartedAt = now, re_count = 0, re_inFlight = False\<rparr>),
       rl_next := rl_next l + 1\<rparr>"
  shows "manual_inv now l' adm fl" "current l' key = Some (rl_next l)" "started l' (rl_next l) = now"
proof -
  let ?n = "rl_next l"
  have cur: "current l' k = (if k = key then Some ?n else current l k)" for k
    by (simp add: l' update_conv')
  have st: "started l' r = (if r = ?n then now else started l r)" for r by (simp add: l')
  have old_known: "known l' adm k r \<Longrightarrow> r \<noteq> ?n \<Longrightarrow> known l adm k r" for k r
    using cur by (auto simp: known_def split: if_splits)
  have new_key: "known l' adm k ?n \<Longrightarrow> k = key" for k
    using cur limiter_invD(1)[OF inv, of k ?n] by (auto simp: known_def split: if_splits)
  have small: "known l adm k r \<Longrightarrow> r < ?n" for k r by (rule limiter_invD(1)[OF inv])
  have "manual_inv now l' adm fl"
    unfolding manual_inv_def
  proof (intro conjI allI impI)
    fix k r
    assume k: "known l' adm k r"
    show "r < rl_next l'" using old_known[OF k] small[of k r] by (cases "r = ?n") (auto simp: l')
    show "started l' r \<le> now" using old_known[OF k] limiter_invD(2)[OF inv, of k r] by (auto simp: st)
    {
      assume "current l' k \<noteq> Some r"
      with k have r: "r \<noteq> ?n" using new_key[of k] cur by auto
      with k old_known have kn: "known l adm k r" by blast
      show "started l' r + MANUAL_CHECK_WINDOW_MS \<le> now"
      proof (cases "k = key")
        case True
        with old kn r st show ?thesis by simp
      next
        case False
        with \<open>current l' k \<noteq> Some r\<close> cur have "current l k \<noteq> Some r" by simp
        with limiter_invD(4)[OF inv kn] r st show ?thesis by simp
      qed
    }
    fix r'
    assume k': "known l' adm k r'"
    show "r = r' \<or> started l' r + MANUAL_CHECK_WINDOW_MS \<le> started l' r' \<or>
        started l' r' + MANUAL_CHECK_WINDOW_MS \<le> started l' r"
    proof (cases "r = ?n \<or> r' = ?n")
      case True
      then show ?thesis
        using k k' new_key[of k] old_known[of k] old st by (metis (full_types))
    next
      case False
      with k k' old_known have "known l adm k r" "known l adm k r'" by blast+
      with limiter_invD(3)[OF inv this] False st show ?thesis by auto
    qed
  next
    fix k t r
    assume adm: "(k, t, r) \<in> set adm"
    then have "r < ?n" using small[of k r] by (auto simp: known_def)
    with limiter_invD(5,12)[OF inv adm]
    show "started l' r \<le> t" "t < started l' r + MANUAL_CHECK_WINDOW_MS" "t \<le> now" by (simp_all add: st)
  next
    fix r
    assume r: "r < rl_next l'"
    have new: "(k, t, ?n) \<notin> set adm" for k t using small[of k ?n] by (auto simp: known_def)
    then have "admitted_under ?n adm = 0" by (rule admitted_under_none)
    with r limiter_invD(6,7)[OF inv, of r]
    show "admitted_under r adm = re_count (rl_store l' r)" "re_count (rl_store l' r) \<le> MANUAL_CHECKS_PER_WINDOW"
      by (auto simp: l' less_Suc_eq)
    have "(k, t, ?n) \<notin> set fl" for k t using new limiter_invD(10)[OF inv] by blast
    then have "admitted_under ?n fl = 0" by (rule admitted_under_none)
    with r limiter_invD(11)[OF inv, of r]
    show "admitted_under r fl = (if re_inFlight (rl_store l' r) then 1 else 0)"
      by (auto simp: l' less_Suc_eq)
  next
    fix k k' r
    assume "known l' adm k r" "known l' adm k' r"
    then show "k = k'"
      using new_key[of k] new_key[of k'] old_known limiter_invD(9)[OF inv] by (cases "r = ?n") blast+
  next
    show "set fl \<subseteq> set adm" by (rule limiter_invD(10)[OF inv])
  next
    show "distinct (map fst (rl_entries l'))"
      using limiter_invD(8)[OF inv] by (simp add: l' distinct_update)
  qed
  with cur st show "manual_inv now l' adm fl" "current l' key = Some ?n" "started l' ?n = now" by simp_all
qed

lemma current_entry_inv:
  assumes "manual_inv clock l adm fl" "clock \<le> now" "current_entry key now l = (r, l')"
  shows "manual_inv now l' adm fl" "current l' key = Some r" "started l' r \<le> now"
    "now < started l' r + MANUAL_CHECK_WINDOW_MS"
proof -
  have inv: "manual_inv now l adm fl" by (rule limiter_inv_later[OF assms(1,2)])
  let ?fresh = "l\<lparr>rl_entries := AList.update key (rl_next l) (rl_entries l),
       rl_store := (rl_store l)(rl_next l := \<lparr>re_windowStartedAt = now, re_count = 0, re_inFlight = False\<rparr>),
       rl_next := rl_next l + 1\<rparr>"
  have pos: "0 < MANUAL_CHECK_WINDOW_MS" by (simp add: MANUAL_CHECK_WINDOW_MS_def)
  have "manual_inv now l' adm fl \<and> current l' key = Some r \<and> started l' r \<le> now \<and>
      now < started l' r + MANUAL_CHECK_WINDOW_MS"
  proof (cases "\<exists>x. current l key = Some x \<and> \<not> window_over now (rl_store l x)")
    case True
    then obtain x where x: "current l key = Some x" "\<not> window_over now (rl_store l x)" by blast
    with assms(3) have "r = x" "l' = l" by (simp_all add: current_entry_def)
    moreover have "started l x \<le> now" using limiter_invD(2)[OF inv, of key x] x by (simp add: known_def)
    ultimately show ?thesis using x inv by (simp add: window_over_def)
  next
    case False
    then have r: "r = rl_next l" "l' = ?fresh"
      using assms(3) by (auto simp: current_entry_def split: option.splits if_splits)
    have "started l x + MANUAL_CHECK_WINDOW_MS \<le> now" if "known l adm key x" for x
      using that False limiter_invD(4)[OF inv that] by (cases "current l key = Some x") (auto simp: window_over_def)
    from fresh_entry_inv[OF inv this r(2)] r pos show ?thesis by simp
  qed
  then show "manual_inv now l' adm fl" "current l' key = Some r" "started l' r \<le> now"
    "now < started l' r + MANUAL_CHECK_WINDOW_MS" by blast+
qed

lemma admit_Inr_inv:
  assumes "manual_inv clock l adm fl" "clock \<le> now" "admit key now l = (Inr r, l')"
  shows "manual_inv now l' ((key, now, r) # adm) ((key, now, r) # fl)"
proof -
  obtain x l1 where c: "current_entry key now l = (x, l1)" by (cases "current_entry key now l") auto
  with assms(3) have x: "x = r" and free: "re_count (rl_store l1 r) < MANUAL_CHECKS_PER_WINDOW"
      "\<not> re_inFlight (rl_store l1 r)"
    and l': "l' = l1\<lparr>rl_store := (rl_store l1)(r := (rl_store l1 r)\<lparr>re_count := re_count (rl_store l1 r) + 1, re_inFlight := True\<rparr>)\<rparr>"
    by (auto simp: admit_def split: if_splits)
  note c = current_entry_inv[OF assms(1,2) c[unfolded x]]
  note inv = c(1)
  have st: "started l' y = started l1 y" for y by (simp add: l')
  have cur: "current l' = current l1" "rl_next l' = rl_next l1" by (simp_all add: l')
  have kn: "known l' ((key, now, r) # adm) k y \<longleftrightarrow> known l1 adm k y" for k y
    using c(2) by (auto simp: known_def cur)
  have under: "admitted_under y ((key, now, r) # xs) = admitted_under y xs + (if y = r then 1 else 0)" for y xs
    by (simp add: admitted_under_def)
  show ?thesis
    unfolding manual_inv_def kn st cur
  proof (intro conjI allI impI)
    fix k t y
    assume "(k, t, y) \<in> set ((key, now, r) # adm)"
    then show "started l1 y \<le> t" "t < started l1 y + MANUAL_CHECK_WINDOW_MS" "t \<le> now"
      using limiter_invD(5,12)[OF inv, of k t y] c(3,4) by auto
  next
    fix y
    assume "y < rl_next l1"
    then show "admitted_under y ((key, now, r) # adm) = re_count (rl_store l' y)"
      "re_count (rl_store l' y) \<le> MANUAL_CHECKS_PER_WINDOW"
      "admitted_under y ((key, now, r) # fl) = (if re_inFlight (rl_store l' y) then 1 else 0)"
      using limiter_invD(6,7,11)[OF inv, of y] free by (auto simp: under l')
  next
    show "distinct (map fst (rl_entries l'))" using limiter_invD(8)[OF inv] by (simp add: l')
    show "set ((key, now, r) # fl) \<subseteq> set ((key, now, r) # adm)" using limiter_invD(10)[OF inv] by auto
  qed (use limiter_invD(1-4,9)[OF inv] in blast)+
qed

lemma admit_Inl_inv:
  assumes "manual_inv clock l adm fl" "clock \<le> now" "admit key now l = (Inl e, l')"
  shows "manual_inv now l' adm fl"
proof -
  obtain x l1 where c: "current_entry key now l = (x, l1)" by (cases "current_entry key now l") auto
  with assms(3) have "l' = l1" by (auto simp: admit_def split: if_splits)
  with current_entry_inv(1)[OF assms(1,2) c] show ?thesis by simp
qed

lemma map_of_filter_values:
  "distinct (map fst kvs) \<Longrightarrow>
   map_of (filter (\<lambda>(k, v). p v) kvs) k = (case map_of kvs k of Some v \<Rightarrow> if p v then Some v else None | None \<Rightarrow> None)"
proof (induction kvs)
  case (Cons kv kvs)
  obtain k' v where kv: "kv = (k', v)" by (cases kv)
  have "k' = k \<Longrightarrow> map_of kvs k = None" using Cons.prems kv by (simp add: map_of_eq_None_iff)
  with Cons kv show ?case by auto
qed simp

lemma settle_inv:
  assumes inv: "manual_inv clock l adm fl" and mine: "(key, began, r) \<in> set fl"
  shows "manual_inv clock (settle r began l) adm (remove1 (key, began, r) fl)"
proof -
  let ?l = "settle r began l"
  have adm: "(key, began, r) \<in> set adm" using limiter_invD(10)[OF inv] mine by blast
  then have began: "began \<le> clock" and r: "r < rl_next l"
    using limiter_invD(12)[OF inv adm] limiter_invD(1)[OF inv, of key r] by (auto simp: known_def)
  have st: "started ?l y = started l y" "re_count (rl_store ?l y) = re_count (rl_store l y)" "rl_next ?l = rl_next l"
    "re_inFlight (rl_store ?l y) = (y \<noteq> r \<and> re_inFlight (rl_store l y))" for y
    by (simp_all add: settle_def Let_def)
  have cur: "current ?l k = current l k \<or>
      (current ?l k = None \<and> (\<forall>y. current l k = Some y \<longrightarrow> started l y + MANUAL_CHECK_WINDOW_MS \<le> clock))" for k
    using began map_of_filter_values[OF limiter_invD(8)[OF inv]]
    by (auto simp: settle_def Let_def window_over_def split: option.splits)
  have kn: "known ?l adm k y \<Longrightarrow> known l adm k y" for k y using cur[of k] by (auto simp: known_def)
  show ?thesis
    unfolding manual_inv_def st
  proof (intro conjI allI impI)
    fix k y
    assume k: "known ?l adm k y" and "current ?l k \<noteq> Some y"
    then show "started l y + MANUAL_CHECK_WINDOW_MS \<le> clock"
      using cur[of k] limiter_invD(4)[OF inv kn[OF k]] by auto
  next
    fix k y y'
    assume k: "known ?l adm k y"
    show "y < rl_next l" "started l y \<le> clock"
      by (rule limiter_invD(1)[OF inv kn[OF k]], rule limiter_invD(2)[OF inv kn[OF k]])
    assume k': "known ?l adm k y'"
    show "y = y' \<or> started l y + MANUAL_CHECK_WINDOW_MS \<le> started l y' \<or>
        started l y' + MANUAL_CHECK_WINDOW_MS \<le> started l y"
      using limiter_invD(3)[OF inv kn[OF k] kn[OF k']] by blast
  next
    show "distinct (map fst (rl_entries ?l))"
      using limiter_invD(8)[OF inv] by (simp add: settle_def Let_def distinct_map_filter)
  next
    fix k k' y
    assume "known ?l adm k y" "known ?l adm k' y"
    then show "k = k'" using limiter_invD(9)[OF inv] kn by blast
  next
    show "set (remove1 (key, began, r) fl) \<subseteq> set adm"
      using limiter_invD(10)[OF inv] set_remove1_subset[of "(key, began, r)" fl] by blast
  next
    fix y
    assume "y < rl_next l"
    then show "admitted_under y (remove1 (key, began, r) fl) = (if y \<noteq> r \<and> re_inFlight (rl_store l y) then 1 else 0)"
      using limiter_invD(11)[OF inv, of y] admitted_under_remove1[OF mine, of y] by (auto split: if_splits)
  qed (use limiter_invD(5-7,12)[OF inv] in blast)+
qed

lemma limiter_run_inv: "limiter_run t l adm fl \<Longrightarrow> manual_inv t l adm fl"
proof (induction rule: limiter_run.induct)
  case (run_start t)
  then show ?case by (simp add: manual_inv_def new_limiter_def known_def)
next
  case (run_admitted t l adm fl now key r l')
  then show ?case using admit_Inr_inv by blast
next
  case (run_refused t l adm fl now key e l')
  then show ?case using admit_Inl_inv by blast
next
  case (run_settled t l adm fl now key began r)
  then show ?case using settle_inv limiter_inv_later by blast
qed

lemma count_by_group:
  assumes "finite A" "\<And>x. x \<in> set xs \<Longrightarrow> P x \<Longrightarrow> f x \<in> A"
  shows "count_where P xs \<le> (\<Sum>r\<in>A. count_where (\<lambda>x. f x = r) xs)"
  using assms(2)
proof (induction xs)
  case Nil
  then show ?case by simp
next
  case (Cons x xs)
  have IH: "count_where P xs \<le> (\<Sum>r\<in>A. count_where (\<lambda>x. f x = r) xs)"
    using Cons.prems by (intro Cons.IH) simp
  have "(\<Sum>r\<in>A. count_where (\<lambda>x. f x = r) (x # xs)) =
      (\<Sum>r\<in>A. count_where (\<lambda>x. f x = r) xs + (if f x = r then 1 else 0))"
    by (rule sum.cong) simp_all
  also have "\<dots> = (\<Sum>r\<in>A. count_where (\<lambda>x. f x = r) xs) + (if f x \<in> A then 1 else 0)"
    using assms(1) by (simp add: sum.distrib)
  finally show ?case using IH Cons.prems[of x] by auto
qed

lemma slot_apart: "(x::int) + 60000 \<le> y \<Longrightarrow> x div 60000 < y div 60000"
proof -
  assume "x + 60000 \<le> y"
  then have "(x + 60000) div 60000 \<le> y div 60000" by (rule zdiv_mono1) simp
  then show ?thesis by simp
qed

lemma slot_of_interval: "- 60000 < (x::int) \<Longrightarrow> x < 60000 \<Longrightarrow> x div 60000 = - 1 \<or> x div 60000 = 0"
proof (cases "0 \<le> x")
  case False
  assume "- 60000 < x"
  with False have "(x + 60000) div 60000 = 0" by (intro div_pos_pos_trivial) simp_all
  then show ?thesis by simp
qed (simp add: div_pos_pos_trivial)

lemma windows_in_interval:
  fixes key :: jstring and t0 :: time
  assumes "manual_inv t l adm fl"
  defines "A \<equiv> {r. \<exists>u. (key, u, r) \<in> set adm \<and> t0 \<le> u \<and> u < t0 + MANUAL_CHECK_WINDOW_MS}"
  shows "finite A" "card A \<le> 2"
proof -
  let ?W = MANUAL_CHECK_WINDOW_MS
  have W: "0 < ?W" by (simp add: MANUAL_CHECK_WINDOW_MS_def)
  have "A \<subseteq> (\<lambda>(k, u, r). r) ` set adm" unfolding A_def by force
  then show fin: "finite A" by (rule finite_subset) simp
  let ?slot = "\<lambda>r. (started l r - t0) div ?W"
  have kn: "known l adm key r" if "r \<in> A" for r using that by (auto simp: A_def known_def)
  have apart: "?slot r < ?slot r'" if "started l r + ?W \<le> started l r'" for r r'
    using that slot_apart[of "started l r - t0" "started l r' - t0"] by (simp add: MANUAL_CHECK_WINDOW_MS_def)
  have "inj_on ?slot A"
  proof (rule inj_onI, rule ccontr)
    fix r r'
    assume "r \<in> A" "r' \<in> A" and eq: "?slot r = ?slot r'" and "r \<noteq> r'"
    with limiter_invD(3)[OF assms(1) kn kn] apart[of r r'] apart[of r' r] show False by force
  qed
  moreover have "?slot ` A \<subseteq> {-1, 0}"
  proof
    fix s
    assume "s \<in> ?slot ` A"
    then obtain r u where r: "(key, u, r) \<in> set adm" "t0 \<le> u" "u < t0 + ?W" "s = ?slot r"
      by (auto simp: A_def)
    with limiter_invD(5)[OF assms(1) r(1)] have lo: "- ?W < started l r - t0" and hi: "started l r - t0 < ?W"
      by linarith+
    with slot_of_interval[of "started l r - t0"] r(4) show "s \<in> {-1, 0}"
      by (simp add: MANUAL_CHECK_WINDOW_MS_def)
  qed
  ultimately have "card A \<le> card {-1, 0 :: int}" by (intro card_inj_on_le[of ?slot]) simp_all
  then show "card A \<le> 2" by simp
qed

text \<open>What the limiter decides, by the history: whether the open window of the key is taken.\<close>

definition window_taken ::
  "LocalCheckRateLimiter \<Rightarrow> admission list \<Rightarrow> admission list \<Rightarrow> jstring \<Rightarrow> time \<Rightarrow> bool" where
  "window_taken l adm fl key now \<longleftrightarrow>
     (\<exists>u r. (key, u, r) \<in> set adm \<and> now < started l r + MANUAL_CHECK_WINDOW_MS \<and>
        (0 < admitted_under r fl \<or> MANUAL_CHECKS_PER_WINDOW \<le> admitted_under r adm))"

lemma admit_refuses_iff:
  assumes inv: "manual_inv t l adm fl" and now: "t \<le> now"
  shows "(\<exists>e. fst (admit key now l) = Inl e) \<longleftrightarrow> window_taken l adm fl key now"
proof
  assume "\<exists>e. fst (admit key now l) = Inl e"
  then obtain r where r: "current l key = Some r" "\<not> window_over now (rl_store l r)"
    and why: "re_inFlight (rl_store l r) \<or> MANUAL_CHECKS_PER_WINDOW \<le> re_count (rl_store l r)"
    by (auto simp: admit_def current_entry_def MANUAL_CHECKS_PER_WINDOW_def split: option.splits if_splits)
  have kn: "known l adm key r" using r(1) by (simp add: known_def)
  note next_r = limiter_invD(1)[OF inv kn]
  have taken: "0 < admitted_under r fl \<or> MANUAL_CHECKS_PER_WINDOW \<le> admitted_under r adm"
    using why limiter_invD(6,11)[OF inv next_r] by auto
  then have "0 < admitted_under r fl \<or> 0 < admitted_under r adm" by (auto simp: MANUAL_CHECKS_PER_WINDOW_def)
  then obtain k u where "(k, u, r) \<in> set adm" using limiter_invD(10)[OF inv] by (auto elim!: admitted_under_pos)
  moreover from this have "k = key" using limiter_invD(9)[OF inv _ kn, of k] by (auto simp: known_def)
  ultimately show "window_taken l adm fl key now"
    using taken r(2) by (auto simp: window_taken_def window_over_def intro!: exI[of _ u] exI[of _ r])
next
  assume "window_taken l adm fl key now"
  then obtain u r where r: "(key, u, r) \<in> set adm" "now < started l r + MANUAL_CHECK_WINDOW_MS"
    and taken: "0 < admitted_under r fl \<or> MANUAL_CHECKS_PER_WINDOW \<le> admitted_under r adm"
    by (auto simp: window_taken_def)
  have kn: "known l adm key r" using r(1) by (auto simp: known_def)
  have "current l key = Some r" using limiter_invD(4)[OF inv kn] r(2) now by force
  moreover have "re_inFlight (rl_store l r) \<or> MANUAL_CHECKS_PER_WINDOW \<le> re_count (rl_store l r)"
    using taken limiter_invD(6,11)[OF inv limiter_invD(1)[OF inv kn]] by (auto split: if_splits)
  ultimately show "\<exists>e. fst (admit key now l) = Inl e"
    using r(2) by (auto simp: admit_def current_entry_def window_over_def)
qed

lemma window_bounds:
  assumes "manual_inv t l adm fl"
  shows "admitted_under r adm \<le> 5" "admitted_under r fl \<le> 1"
proof -
  have "admitted_under r adm \<le> 5 \<and> admitted_under r fl \<le> 1"
  proof (cases "r < rl_next l")
    case True
    with limiter_invD(6,7,11)[OF assms True] show ?thesis by (simp add: MANUAL_CHECKS_PER_WINDOW_def)
  next
    case False
    then have "(k, u, r) \<notin> set adm" for k u using limiter_invD(1)[OF assms, of k r] by (auto simp: known_def)
    moreover from this have "(k, u, r) \<notin> set fl" for k u using limiter_invD(10)[OF assms] by blast
    ultimately show ?thesis by (simp add: admitted_under_none)
  qed
  then show "admitted_under r adm \<le> 5" "admitted_under r fl \<le> 1" by blast+
qed

abbreviation admitted_between :: "jstring \<Rightarrow> time \<Rightarrow> time \<Rightarrow> admission list \<Rightarrow> nat" where
  "admitted_between key lo hi adm \<equiv> count_where (\<lambda>(k, u, r). k = key \<and> lo \<le> u \<and> u < hi) adm"

lemma bounded_in_interval:
  assumes inv: "manual_inv t l adm fl" and sub: "set xs \<subseteq> set adm" and bound: "\<And>r. admitted_under r xs \<le> b"
  shows "admitted_between key t0 (t0 + MANUAL_CHECK_WINDOW_MS) xs \<le> 2 * b"
proof -
  let ?A = "{r. \<exists>u. (key, u, r) \<in> set adm \<and> t0 \<le> u \<and> u < t0 + MANUAL_CHECK_WINDOW_MS}"
  note A = windows_in_interval[OF inv, of key t0]
  have "admitted_between key t0 (t0 + MANUAL_CHECK_WINDOW_MS) xs \<le>
      (\<Sum>r\<in>?A. count_where (\<lambda>x. (case x of (k, u, y) \<Rightarrow> y) = r) xs)"
    by (rule count_by_group[OF A(1)]) (use sub in auto)
  also have "\<dots> = (\<Sum>r\<in>?A. admitted_under r xs)"
    unfolding admitted_under_def by (rule sum.cong) (auto intro: count_where_cong)
  also have "\<dots> \<le> (\<Sum>r\<in>?A. b)" by (rule sum_mono) (rule bound)
  also have "\<dots> = card ?A * b" by simp
  also have "\<dots> \<le> 2 * b" using A(2) by (rule mult_le_mono1)
  finally show ?thesis .
qed

text \<open>C9. The limit of manual checks: however admissions, refusals and settlements interleave, at
most five checks of one destination are admitted in one of its windows and at most one of them is
in flight; in any stretch of sixty seconds, wherever it begins, at most ten are admitted, of which
at most two are in flight at once; and the next request is refused exactly when the open window
of its destination has a check in flight or its five admissions.\<close>

theorem manual_checks_bounded:
  assumes "limiter_run t l adm fl"
  shows "admitted_under x adm \<le> 5 \<and> admitted_under x fl \<le> 1 \<and>
    admitted_between key t0 (t0 + MANUAL_CHECK_WINDOW_MS) adm \<le> 10 \<and>
    admitted_between key t0 (t0 + MANUAL_CHECK_WINDOW_MS) fl \<le> 2 \<and>
    (t \<le> now \<longrightarrow> ((\<exists>e. fst (admit key now l) = Inl e) \<longleftrightarrow> window_taken l adm fl key now))"
proof -
  note inv = limiter_run_inv[OF assms]
  have "admitted_between key t0 (t0 + MANUAL_CHECK_WINDOW_MS) adm \<le> 2 * 5"
    by (rule bounded_in_interval[OF inv order_refl]) (rule window_bounds(1)[OF inv])
  moreover have "admitted_between key t0 (t0 + MANUAL_CHECK_WINDOW_MS) fl \<le> 2 * 1"
    by (rule bounded_in_interval[OF inv limiter_invD(10)[OF inv]]) (rule window_bounds(2)[OF inv])
  ultimately show ?thesis using window_bounds[OF inv] admit_refuses_iff[OF inv] by simp
qed

lemma manual_checks_bounded_witness:
  "\<exists>l. limiter_run 0 l [(js ''target:a'', 0, 0)] [(js ''target:a'', 0, 0)] \<and>
     (\<exists>e. fst (admit (js ''target:a'') 7 l) = Inl e)"
proof -
  obtain l where l: "admit (js ''target:a'') 0 new_limiter = (Inr 0, l)" "started l 0 = 0"
    by (simp add: admit_def current_entry_def new_limiter_def MANUAL_CHECKS_PER_WINDOW_def)
  then have run: "limiter_run 0 l [(js ''target:a'', 0, 0)] [(js ''target:a'', 0, 0)]"
    using run_admitted[OF run_start[of 0]] by simp
  have "window_taken l [(js ''target:a'', 0, 0)] [(js ''target:a'', 0, 0)] (js ''target:a'') 7"
    using l(2) by (simp add: window_taken_def admitted_under_def MANUAL_CHECK_WINDOW_MS_def)
  with manual_checks_bounded[OF run, of 0 "js ''target:a''" 0 7] run show ?thesis by auto
qed

text \<open>
  A check admitted late in a window may still run when the window is over; the next request then
  gets a new entry, whose mark says that nothing runs: both checks are in flight at once.
\<close>

lemma window_change_forgets_flight:
  "\<exists>l1 l2 l3. admit k 0 new_limiter = (Inr 0, l1) \<and>
     admit k 59999 (settle 0 0 l1) = (Inr 0, l2) \<and> re_inFlight (rl_store l2 0) \<and>
     admit k 60000 l2 = (Inr 1, l3) \<and> re_inFlight (rl_store l3 0) \<and> re_inFlight (rl_store l3 1)"
  by (simp add: admit_def current_entry_def new_limiter_def settle_def window_over_def Let_def
      MANUAL_CHECKS_PER_WINDOW_def MANUAL_CHECK_WINDOW_MS_def)

section \<open>Requested checks are records only\<close>

lemma store_result_effect:
  assumes "transaction (store_result row audit) d = (r, d')"
  shows "d' = d \<or> d' = write_audit audit (d\<lparr>checkResults := checkResults d @ [row]\<rparr>)"
  using assms by (auto simp: transaction_def store_result_def split: sum.splits dest!: create_result_Inr)

text \<open>What one requested check may write: one unscheduled result and one audit row.\<close>

definition record_only :: "CheckSource \<Rightarrow> AuthenticatedUser \<Rightarrow> db \<Rightarrow> db \<Rightarrow> bool" where
  "record_only source actor d d' \<longleftrightarrow>
     d' = d \<or> (\<exists>row audit. d' = write_audit audit (d\<lparr>checkResults := checkResults d @ [row]\<rparr>) \<and>
       cr_scheduledCheckId row = None \<and> cr_source row = source \<and> al_actorId audit = Some (us_id actor))"

lemma requested_row_fields [simp]:
  "cr_scheduledCheckId (requested_row i m v s r t) = None"
  "cr_source (requested_row i m v s r t) = rs_source r"
  by (simp_all add: requested_row_def)

lemma audit_row_actor [simp]: "al_actorId (audit_row a actor action ty target meta t) = Some actor"
  by (simp add: audit_row_def)

lemma run_limited_world:
  assumes "run_limited key now operation (l, w) = (r, l', w')"
  shows "w' = w \<or> (\<exists>x. operation w = (x, w'))"
  using assms by (auto simp: run_limited_def split: prod.splits sum.splits)

lemma record_only_store:
  assumes "map_prod (map_sum f g) id (transaction (store_result row audit) d) = (r, d')"
    and "cr_scheduledCheckId row = None" "cr_source row = source" "al_actorId audit = Some (us_id actor)"
  shows "record_only source actor d d'"
proof -
  from assms(1) obtain x where "transaction (store_result row audit) d = (x, d')"
    by (cases "transaction (store_result row audit) d") auto
  from store_result_effect[OF this] assms(2-4) show ?thesis by (auto simp: record_only_def)
qed

lemma record_only_refl [simp]: "record_only source actor d d"
  by (simp add: record_only_def)

text \<open>The checker returns results of the source it was asked for.\<close>

definition keeps_source :: "check_runner \<Rightarrow> bool" where
  "keeps_source check \<longleftrightarrow> (\<forall>c y. check c = Some y \<longrightarrow> cf_source c = None \<or> cf_source c = Some (rs_source y))"

lemma run_check_source:
  "keeps_source check \<Longrightarrow> run_check_request check c = Inr y \<Longrightarrow> cf_source c = Some src \<Longrightarrow> rs_source y = src"
  by (fastforce simp: keeps_source_def run_check_request_def split: option.splits)

lemma check_stored_effect:
  assumes "check_stored env check i a now m actor d = (r, d')" "keeps_source check"
  shows "record_only MANUAL actor d d'"
proof (cases "decryptedUrl env (mo_requestUrlEncrypted m)")
  case (Inl e)
  with assms(1) show ?thesis by (simp add: check_stored_def)
next
  case url: (Inr url)
  show ?thesis
  proof (cases "run_check_request check (manual_config url m)")
    case (Inl e)
    with assms(1) url show ?thesis by (simp add: check_stored_def)
  next
    case (Inr y)
    have "rs_source y = MANUAL" by (rule run_check_source[OF assms(2) Inr]) (simp add: manual_config_def)
    with assms(1) url Inr show ?thesis
      unfolding check_stored_def by (simp del: map_prod_simp) (erule record_only_store, simp_all)
  qed
qed

lemma check_input_effect:
  assumes "check_input env check i a now x actor d = (r, d')" "keeps_source check"
  shows "record_only CheckSource.TEST actor d d'"
proof (cases "validateTarget env (mi_url x)")
  case (Inl e)
  with assms(1) show ?thesis by (simp add: check_input_def)
next
  case u: (Inr u)
  show ?thesis
  proof (cases "storedTarget env u")
    case (Inl e)
    with assms(1) u show ?thesis by (simp add: check_input_def)
  next
    case t: (Inr t)
    show ?thesis
    proof (cases "run_check_request check (test_config (st_requestUrl t) x)")
      case (Inl e)
      with assms(1) u t show ?thesis by (simp add: check_input_def)
    next
      case (Inr y)
      have "rs_source y = CheckSource.TEST"
        by (rule run_check_source[OF assms(2) Inr]) (simp add: test_config_def)
      with assms(1) u t Inr show ?thesis
        unfolding check_input_def by (simp del: map_prod_simp) (erule record_only_store, simp_all)
    qed
  qed
qed

text \<open>Checks on request never touch the state of a monitor: a manual check and a test, whatever
their result and whether they are refused, fail or are stored, change nothing but the list of
results, by at most one row that belongs to no scheduled check, and the audit log, by one row
that names the actor.\<close>

theorem requested_checks_are_records:
  assumes "keeps_source check"
    and "checkNow env check i resultId auditId now actor (l, d) = (r, l', d')"
    and "test_input env check resultId auditId now x actor (l, d) = (u, l2, d2)"
  shows "record_only MANUAL actor d d' \<and> record_only CheckSource.TEST actor d d2"
proof
  show "record_only MANUAL actor d d'"
  proof (cases "lockMonitor i d")
    case None
    with assms(2) show ?thesis by (simp add: checkNow_def)
  next
    case (Some m)
    with assms(2) have "run_limited (target_key (mo_hostnameNormalized m)) now
        (check_stored env check resultId auditId now m actor) (l, d) = (r, l', d')" by (simp add: checkNow_def)
    from run_limited_world[OF this] check_stored_effect[OF _ assms(1)] show ?thesis by auto
  qed
  show "record_only CheckSource.TEST actor d d2"
  proof (cases "parseTarget env (mi_url x)")
    case (Inl e)
    with assms(3) show ?thesis by (simp add: test_input_def)
  next
    case p: (Inr p)
    show ?thesis
    proof (cases "storedTarget env p")
      case (Inl e)
      with assms(3) p show ?thesis by (simp add: test_input_def)
    next
      case (Inr t)
      with assms(3) p have "run_limited (target_key (st_hostnameNormalized t)) now
          (check_input env check resultId auditId now x actor) (l, d) = (u, l2, d2)" by (simp add: test_input_def)
      from run_limited_world[OF this] check_input_effect[OF _ assms(1)] show ?thesis by auto
    qed
  qed
qed

definition echo_check :: check_runner where
  "echo_check c = Some (failed_result\<lparr>rs_source := (case cf_source c of None \<Rightarrow> SCHEDULED | Some s \<Rightarrow> s)\<rparr>)"

definition test_request :: MonitorInput where
  "test_request = merged_input down_monitor [] (js ''https://a.example/'') slower"

lemma echo_keeps_source: "keeps_source echo_check"
  by (auto simp: keeps_source_def echo_check_def split: option.splits)

lemma example_manual_check:
  "\<exists>v l d'. checkNow example_api echo_check (js ''m1'') (js ''r1'') (js ''a1'') 1000 example_actor
     (new_limiter, down_db) = (Inr v, l, d') \<and> length (checkResults d') = 1"
proof -
  have "lockMonitor (js ''m1'') down_db = Some down_monitor"
    by (simp add: lockMonitor_def down_db_def)
  then show ?thesis
    by (simp add: checkNow_def run_limited_def admit_def current_entry_def new_limiter_def
        MANUAL_CHECKS_PER_WINDOW_def check_stored_def example_decrypts run_check_request_def echo_check_def
        store_result_def create_result_def requested_row_def transaction_def)
      (simp add: down_db_def empty_db_def)
qed

lemma requested_checks_are_records_witness:
  "\<exists>v l d'. checkNow example_api echo_check (js ''m1'') (js ''r1'') (js ''a1'') 1000 example_actor
     (new_limiter, down_db) = (Inr v, l, d') \<and> length (checkResults d') = 1 \<and>
     record_only MANUAL example_actor down_db d'"
proof -
  obtain v l d' where c: "checkNow example_api echo_check (js ''m1'') (js ''r1'') (js ''a1'') 1000 example_actor
     (new_limiter, down_db) = (Inr v, l, d')" "length (checkResults d') = 1"
    using example_manual_check by blast
  obtain u l2 d2 where t: "test_input example_api echo_check (js ''r1'') (js ''a1'') 1000 test_request example_actor
     (new_limiter, down_db) = (u, l2, d2)"
    by (cases "test_input example_api echo_check (js ''r1'') (js ''a1'') 1000 test_request example_actor
     (new_limiter, down_db)") auto
  from requested_checks_are_records[OF echo_keeps_source c(1) t] c show ?thesis by blast
qed

end
