(* ===== verification/Monitor_Queries.thy ===== *)
theory Monitor_Queries
  imports Manual_Checks "HOL-Library.List_Lexorder" "HOL-Library.Product_Lexorder"
begin

text \<open>
  The reading operations of \<open>apps/api/src/monitors/monitors.service.ts\<close> (\<open>list\<close>, \<open>get\<close>,
  \<open>checks\<close>, \<open>incidents\<close>) and of \<open>apps/api/src/incidents/incidents.service.ts\<close>: the filter of
  the monitor list, keyset pages, the exact list of stale monitors, and the view of an incident.
  The database's text comparison behind \<open>contains\<close> is a parameter.
\<close>

section \<open>Order\<close>

text \<open>\<open>orderBy: [{ at: 'desc' }, { id: 'desc' }]\<close>\<close>

definition newest_first :: "('r \<Rightarrow> time) \<Rightarrow> ('r \<Rightarrow> id) \<Rightarrow> 'r list \<Rightarrow> 'r list" where
  "newest_first time_of key rows = rev (sort_key (\<lambda>r. (time_of r, key r)) rows)"

lemma newest_first_set [simp]: "set (newest_first time_of key rows) = set rows"
  by (simp add: newest_first_def)

lemma newest_first_distinct: "distinct (map f rows) \<Longrightarrow> distinct (map f (newest_first time_of key rows))"
  by (simp add: newest_first_def rev_map[symmetric] distinct_map)

section \<open>The filter of the list\<close>

datatype MonitorListState = List_UP | List_SUSPECT | List_DOWN | List_RECOVERING | List_PENDING
  | List_PAUSED | List_STALE

definition staleMonitorWhere :: "time \<Rightarrow> Monitor \<Rightarrow> bool" where
  "staleMonitorWhere now m \<longleftrightarrow>
     lifecycleStatus (mo_state m) = ACTIVE \<and>
     (case mo_nextCheckAt m of None \<Rightarrow> False | Some t \<Rightarrow> t < now - 300000)"

definition active_with :: "MonitorHealth \<Rightarrow> Monitor \<Rightarrow> bool" where
  "active_with h m \<longleftrightarrow> lifecycleStatus (mo_state m) = ACTIVE \<and> healthState (mo_state m) = h"

fun state_where :: "MonitorListState option \<Rightarrow> time \<Rightarrow> Monitor \<Rightarrow> bool" where
  "state_where None now m = True"
| "state_where (Some List_PAUSED) now m = (lifecycleStatus (mo_state m) = MonitorLifecycle.PAUSED)"
| "state_where (Some List_STALE) now m = staleMonitorWhere now m"
| "state_where (Some List_DOWN) now m = active_with MonitorHealth.DOWN m"
| "state_where (Some List_RECOVERING) now m = active_with RECOVERING m"
| "state_where (Some List_UP) now m = active_with UP m"
| "state_where (Some List_SUSPECT) now m = active_with SUSPECT m"
| "state_where (Some List_PENDING) now m = active_with MonitorHealth.PENDING m"

definition buildMonitorListWhere ::
  "(jstring \<Rightarrow> jstring \<Rightarrow> bool) \<Rightarrow> MonitorListState option \<Rightarrow> jstring option \<Rightarrow> time \<Rightarrow> Monitor \<Rightarrow> bool" where
  "buildMonitorListWhere contains_text st query now m \<longleftrightarrow>
     mo_deletedAt m = None \<and> state_where st now m \<and>
     (case map_option js_trim query of None \<Rightarrow> True
      | Some q \<Rightarrow> q = [] \<or> contains_text (mo_name m) q \<or> contains_text (mo_displayUrl m) q)"

section \<open>Listing monitors\<close>

definition listed :: "db \<Rightarrow> (Monitor \<Rightarrow> bool) \<Rightarrow> Monitor list" where
  "listed d p = newest_first mo_createdAt mo_id (filter p (monitors d))"

definition views :: "db \<Rightarrow> AuthenticatedUser \<Rightarrow> Monitor list \<Rightarrow> MonitorView list" where
  "views d actor ms = map (\<lambda>m. toMonitorView (monitorInclude d m) actor) ms"

text \<open>The ids of the stale monitors, by the exact interval of each; the first error ends it.\<close>

fun stale_ids :: "time \<Rightarrow> Monitor list \<Rightarrow> api_error + id list" where
  "stale_ids now [] = Inr []"
| "stale_ids now (m # ms) =
     (case isMonitorStale (map_option Some (mo_nextCheckAt m)) (mo_intervalSec m) (Some now) of
        Inl e \<Rightarrow> Inl (Uncaught e)
      | Inr late \<Rightarrow> map_sum id (\<lambda>ids. if late then mo_id m # ids else ids) (stale_ids now ms))"

definition stale_page ::
  "id option \<Rightarrow> nat \<Rightarrow> AuthenticatedUser \<Rightarrow> db \<Rightarrow> id list \<Rightarrow> MonitorView list \<times> id option" where
  "stale_page cursor limit actor d staleIds =
     (let c = (case cursor of None \<Rightarrow> None | Some c \<Rightarrow> if c = [] then None else Some c);
          rest = (case c of None \<Rightarrow> staleIds | Some c \<Rightarrow> drop 1 (dropWhile (\<lambda>i. i \<noteq> c) staleIds))
      in if c \<noteq> None \<and> the c \<notin> set staleIds then ([], None)
         else
          (let pageIds = take (limit + 1) rest;
               hasMore = limit < length pageIds;
               itemIds = (if hasMore then take limit pageIds else pageIds);
               items = List.map_filter (\<lambda>i. find_by mo_id i (filter (\<lambda>m. mo_id m \<in> set itemIds) (monitors d))) itemIds
           in (views d actor items,
               if hasMore then (if items = [] then None else Some (mo_id (last items))) else None)))"

definition list_monitors ::
  "(jstring \<Rightarrow> jstring \<Rightarrow> bool) \<Rightarrow> time \<Rightarrow> id option \<Rightarrow> nat \<Rightarrow> AuthenticatedUser \<Rightarrow>
   MonitorListState option \<Rightarrow> jstring option \<Rightarrow> db \<Rightarrow> api_error + MonitorView list \<times> id option" where
  "list_monitors contains_text now cursor limit actor st query d =
     (if st = Some List_STALE
      then map_sum id (stale_page cursor limit actor d)
             (stale_ids now (listed d (buildMonitorListWhere contains_text st query now)))
      else Inr (map_prod (views d actor) id
             (find_page limit mo_id cursor (listed d (buildMonitorListWhere contains_text st query now)))))"

definition get_monitor :: "id \<Rightarrow> AuthenticatedUser \<Rightarrow> db \<Rightarrow> api_error + MonitorView" where
  "get_monitor i actor d =
     (case lockMonitor i d of None \<Rightarrow> Inl monitor_missing
      | Some m \<Rightarrow> Inr (toMonitorView (monitorInclude d m) actor))"

section \<open>Results and incidents of a monitor\<close>

definition assertExists :: "id \<Rightarrow> db \<Rightarrow> api_error option" where
  "assertExists i d =
     (if count_where (\<lambda>m. mo_id m = i \<and> mo_deletedAt m = None) (monitors d) = 0
      then Some monitor_missing else None)"

definition list_checks ::
  "id \<Rightarrow> id option \<Rightarrow> nat \<Rightarrow> db \<Rightarrow> api_error + CheckResultView list \<times> id option" where
  "list_checks i cursor limit d =
     (case assertExists i d of Some e \<Rightarrow> Inl e
      | None \<Rightarrow>
         Inr (map_prod (map toCheckResultView) id
           (find_page limit cr_id cursor
             (newest_first cr_startedAt cr_id (filter (\<lambda>r. cr_monitorId r = Some i) (checkResults d))))))"

text \<open>The failed or uncertain attempts of a notification, and the notifications of an incident.\<close>

definition reported_deliveries :: "db \<Rightarrow> id \<Rightarrow> NotificationDelivery list" where
  "reported_deliveries d outboxId =
     sort_key nd_attempt (filter (\<lambda>n. nd_outboxId n = outboxId \<and>
       (nd_status n = NotificationDeliveryStatus.FAILED \<or> nd_status n = UNKNOWN)) (deliveries d))"

definition incident_notifications :: "db \<Rightarrow> id \<Rightarrow> (NotificationOutbox \<times> NotificationDelivery list) list" where
  "incident_notifications d incidentId =
     map (\<lambda>r. (r, reported_deliveries d (ob_id r)))
       (sort_key (\<lambda>r. (ob_channelId r, ob_sequence r))
          (filter (\<lambda>r. ob_incidentId r = Some incidentId) (outbox d)))"

text \<open>How long an incident lasted, or has lasted until now.\<close>

definition durationMs :: "time \<Rightarrow> Incident \<Rightarrow> int" where
  "durationMs now i =
     (case coalesce (ic_resolvedAt i) (ic_canceledAt i) of None \<Rightarrow> now | Some t \<Rightarrow> t) - ic_firstFailureAt i"

definition list_incidents ::
  "time \<Rightarrow> id \<Rightarrow> id option \<Rightarrow> nat \<Rightarrow> db \<Rightarrow>
   api_error + (Incident \<times> int \<times> (NotificationOutbox \<times> NotificationDelivery list) list) list \<times> id option" where
  "list_incidents now i cursor limit d =
     (case assertExists i d of Some e \<Rightarrow> Inl e
      | None \<Rightarrow>
         Inr (map_prod (map (\<lambda>x. (x, durationMs now x, incident_notifications d (ic_id x)))) id
           (find_page limit ic_id cursor
             (newest_first ic_detectedAt ic_id (filter (\<lambda>x. ic_monitorId x = i) (incidents d))))))"

section \<open>The incident service\<close>

record IncidentView =
  iv_incident :: Incident
  iv_monitorName :: jstring
  iv_displayUrl :: jstring
  iv_durationMs :: int

definition incident_view :: "time \<Rightarrow> db \<Rightarrow> Incident \<Rightarrow> IncidentView option" where
  "incident_view now d i =
     map_option (\<lambda>m. \<lparr>iv_incident = i, iv_monitorName = mo_name m, iv_displayUrl = mo_displayUrl m,
        iv_durationMs = durationMs now i\<rparr>) (find_by mo_id (ic_monitorId i) (monitors d))"

definition all_incidents ::
  "time \<Rightarrow> id option \<Rightarrow> nat \<Rightarrow> IncidentStatus option \<Rightarrow> db \<Rightarrow> IncidentView list \<times> id option" where
  "all_incidents now cursor limit st d =
     map_prod (List.map_filter (incident_view now d)) id
       (find_page limit ic_id cursor
         (newest_first ic_detectedAt ic_id
           (filter (\<lambda>i. case st of None \<Rightarrow> True | Some s \<Rightarrow> ic_status i = s) (incidents d))))"

definition incident_missing :: api_error where
  "incident_missing = NotFound [0xC7A5, 0xC560, 0x20, 0xC774, 0xB825, 0xC744, 0x20, 0xCC3E, 0xC744, 0x20, 0xC218, 0x20,
      0xC5C6, 0xC2B5, 0xB2C8, 0xB2E4, 0x2E]"

definition get_incident ::
  "time \<Rightarrow> id \<Rightarrow> db \<Rightarrow> api_error + IncidentView \<times> (NotificationOutbox \<times> NotificationDelivery list) list" where
  "get_incident now i d =
     (case find_by ic_id i (incidents d) of None \<Rightarrow> Inl incident_missing
      | Some x \<Rightarrow>
         (case incident_view now d x of None \<Rightarrow> Inl incident_missing
          | Some v \<Rightarrow> Inr (v, incident_notifications d i)))"

section \<open>What a client that follows the cursors sees\<close>

text \<open>A monitor is overdue when its slot passed two intervals ago, and at least five minutes ago.\<close>

definition overdue :: "time \<Rightarrow> Monitor \<Rightarrow> bool" where
  "overdue now m \<longleftrightarrow> lifecycleStatus (mo_state m) = ACTIVE \<and>
     (case mo_nextCheckAt m of None \<Rightarrow> False
      | Some t \<Rightarrow> t + max (2 * (mo_intervalSec m * 1000)) 300000 < now)"

definition matches ::
  "(jstring \<Rightarrow> jstring \<Rightarrow> bool) \<Rightarrow> MonitorListState option \<Rightarrow> jstring option \<Rightarrow> time \<Rightarrow> Monitor \<Rightarrow> bool" where
  "matches contains_text st query now m \<longleftrightarrow>
     buildMonitorListWhere contains_text None query now m \<and>
     (if st = Some List_STALE then overdue now m else state_where st now m)"

definition dates_in_range :: "time \<Rightarrow> db \<Rightarrow> bool" where
  "dates_in_range now d \<longleftrightarrow> now \<le> 8640000000000000 \<and>
     (\<forall>m \<in> set (monitors d). \<forall>t. mo_nextCheckAt m = Some t \<longrightarrow> 0 \<le> t)"

lemma stale_overdue:
  assumes "monitor_ok m" "now \<le> 8640000000000000" "\<And>t. mo_nextCheckAt m = Some t \<Longrightarrow> 0 \<le> t"
    and "lifecycleStatus (mo_state m) = ACTIVE"
  shows "isMonitorStale (map_option Some (mo_nextCheckAt m)) (mo_intervalSec m) (Some now) = Inr (overdue now m)"
proof -
  have n: "5 \<le> mo_intervalSec m" "mo_intervalSec m \<le> 86400"
    using assms(1) by (simp_all add: monitor_ok_def valid_config_def MIN_MONITOR_INTERVAL_SECONDS_def
        MAX_MONITOR_INTERVAL_SECONDS_def)
  then have ms: "intervalToMilliseconds (mo_intervalSec m) = Inr (mo_intervalSec m * 1000)"
    by (intro intervalToMilliseconds_ok) (simp_all add: safe_integer_def)
  show ?thesis
  proof (cases "mo_nextCheckAt m")
    case None
    then show ?thesis by (simp add: isMonitorStale_def overdue_def)
  next
    case (Some t)
    let ?limit = "t + max (mo_intervalSec m * 1000 * 2) 300000"
    have "0 \<le> ?limit" using assms(3)[OF Some] n by simp
    then have "(case new_date ?limit of None \<Rightarrow> False | Some l \<Rightarrow> l < now) = (?limit < now)"
      using assms(2) by (auto simp: new_date_def)
    with Some assms(4) show ?thesis
      by (simp add: isMonitorStale_def staleAfter_def assertDate_def ms MIN_STALE_GRACE_MS_def MINUTE_MS_def
          overdue_def mult.commute[of _ 2])
  qed
qed

lemma overdue_prefilter: "overdue now m \<Longrightarrow> staleMonitorWhere now m"
  by (auto simp: overdue_def staleMonitorWhere_def split: option.splits)

lemma stale_ids_filter:
  assumes "\<And>m. m \<in> set ms \<Longrightarrow>
    isMonitorStale (map_option Some (mo_nextCheckAt m)) (mo_intervalSec m) (Some now) = Inr (overdue now m)"
  shows "stale_ids now ms = Inr (map mo_id (filter (overdue now) ms))"
  using assms by (induction ms) simp_all

lemma newest_first_filter: "filter p (newest_first time_of key rows) = newest_first time_of key (filter p rows)"
  by (simp add: newest_first_def filter_sort flip: rev_filter)

lemma stale_list:
  assumes "service_inv d" "dates_in_range now d"
  shows "stale_ids now (listed d (buildMonitorListWhere contains_text (Some List_STALE) query now))
    = Inr (map mo_id (listed d (matches contains_text (Some List_STALE) query now)))"
proof -
  let ?pre = "buildMonitorListWhere contains_text (Some List_STALE) query now"
  have "stale_ids now (listed d ?pre) = Inr (map mo_id (filter (overdue now) (listed d ?pre)))"
  proof (rule stale_ids_filter)
    fix m
    assume "m \<in> set (listed d ?pre)"
    then have m: "m \<in> set (monitors d)" "?pre m" by (simp_all add: listed_def)
    then have "lifecycleStatus (mo_state m) = ACTIVE"
      by (simp add: buildMonitorListWhere_def staleMonitorWhere_def)
    with m(1) assms show "isMonitorStale (map_option Some (mo_nextCheckAt m)) (mo_intervalSec m) (Some now)
        = Inr (overdue now m)"
      by (intro stale_overdue service_invD(2)[OF assms(1)]) (auto simp: dates_in_range_def)
  qed
  moreover have "filter (overdue now) (listed d ?pre) = listed d (matches contains_text (Some List_STALE) query now)"
    unfolding listed_def newest_first_filter filter_filter
    by (rule arg_cong[where f = "newest_first mo_createdAt mo_id"], rule filter_cong)
      (auto simp: matches_def buildMonitorListWhere_def dest: overdue_prefilter)
  ultimately show ?thesis by simp
qed

text \<open>Looking the ids of a page up again gives its rows in the same order.\<close>

lemma page_lookup:
  assumes "distinct (map mo_id (monitors d))" "set rows \<subseteq> set (monitors d)"
  shows "List.map_filter (\<lambda>i. find_by mo_id i (filter (\<lambda>m. mo_id m \<in> set (map mo_id rows)) (monitors d)))
      (map mo_id rows) = rows"
proof -
  have "find_by mo_id (mo_id m) (filter (\<lambda>m. mo_id m \<in> set (map mo_id rows)) (monitors d)) = Some m"
    if "m \<in> set rows" for m
    by (rule find_by_distinct) (use that assms in \<open>auto simp: distinct_map_filter\<close>)
  then show ?thesis
    by (simp add: List.map_filter_def comp_def cong: map_cong filter_cong)
qed

lemma dropWhile_ids: "dropWhile (\<lambda>i. i \<noteq> c) (map key rows) = map key (dropWhile (\<lambda>r. key r \<noteq> c) rows)"
  by (simp add: dropWhile_map comp_def)

lemma stale_page_find:
  assumes "distinct (map mo_id (monitors d))" "set rows \<subseteq> set (monitors d)"
  shows "stale_page cursor limit actor d (map mo_id rows) =
    map_prod (views d actor) id (find_page limit mo_id cursor rows)"
proof -
  define rest where "rest = after_cursor mo_id cursor rows"
  have sub: "set rest \<subseteq> set rows"
    unfolding rest_def after_cursor_def by (auto split: option.splits dest: in_set_dropD set_dropWhileD)
  have page: "find_page limit mo_id cursor rows = take_page limit mo_id (take (limit + 1) rest)"
    by (simp add: find_page_def rest_def)
  show ?thesis
  proof (cases "\<exists>c. cursor = Some c \<and> c \<noteq> [] \<and> c \<notin> set (map mo_id rows)")
    case True
    then obtain c where c: "cursor = Some c" "c \<noteq> []" "c \<notin> set (map mo_id rows)" by blast
    then have none: "dropWhile (\<lambda>r. mo_id r \<noteq> c) rows = []" by (auto simp: dropWhile_eq_Nil_conv)
    have "rest = drop 1 (dropWhile (\<lambda>r. mo_id r \<noteq> c) rows)"
      using c by (simp add: rest_def after_cursor_def)
    then have "rest = []" unfolding none by simp
    with page c show ?thesis by (simp add: stale_page_def take_page_def views_def Let_def)
  next
    case False
    have rest: "(case (case cursor of None \<Rightarrow> None | Some c \<Rightarrow> if c = [] then None else Some c) of
          None \<Rightarrow> map mo_id rows | Some c \<Rightarrow> drop 1 (dropWhile (\<lambda>i. i \<noteq> c) (map mo_id rows))) = map mo_id rest"
      by (cases cursor) (auto simp: rest_def after_cursor_def dropWhile_ids drop_map)
    let ?items = "if limit < length (take (limit + 1) rest) then take limit (take (limit + 1) rest) else take (limit + 1) rest"
    have "set ?items \<subseteq> set (monitors d)"
      using sub assms(2) by (auto dest: in_set_takeD)
    note look = page_lookup[OF assms(1) this]
    show ?thesis
      using False look
      unfolding stale_page_def rest page take_page_def Let_def
      by (auto simp: take_map map_is_Nil_conv split: option.splits if_splits)
  qed
qed

lemma all_pages_map:
  "all_pages n (\<lambda>c. map_prod (map f) id (p c)) cursor = map f (all_pages n p cursor)"
  by (induction n arbitrary: cursor) (auto split: prod.splits option.splits)

text \<open>C10. Following the cursors of the monitor list gives, in the order of the list and each exactly
once, the monitors that are not deleted, match the search text and are in the asked state, where
stale means overdue by the monitor's own interval: the five minutes the query narrows by lose
none, and neither path of the code skips or repeats a monitor at a page boundary.\<close>

theorem list_pages_complete:
  assumes "service_inv d" "dates_in_range now d" "\<forall>m \<in> set (monitors d). mo_id m \<noteq> []" "0 < limit"
    and "length (listed d (matches contains_text st query now)) \<le> n * limit" "0 < n"
  shows "all_pages n (\<lambda>c. case list_monitors contains_text now c limit actor st query d of
           Inr page \<Rightarrow> page | Inl e \<Rightarrow> ([], None)) None =
         views d actor (listed d (matches contains_text st query now))"
proof -
  let ?rows = "listed d (matches contains_text st query now)"
  have ids: "distinct (map mo_id (monitors d))"
    using service_invD(1)[OF assms(1)] by (simp add: incident_inv_def health_view_def comp_def)
  have rows: "distinct (map mo_id ?rows)" "set ?rows \<subseteq> set (monitors d)"
    using ids by (auto simp: listed_def intro!: newest_first_distinct distinct_map_filter)
  have page: "(case list_monitors contains_text now c limit actor st query d of
      Inr page \<Rightarrow> page | Inl e \<Rightarrow> ([], None)) = map_prod (map (\<lambda>m. toMonitorView (monitorInclude d m) actor)) id
        (find_page limit mo_id c ?rows)" for c
  proof (cases "st = Some List_STALE")
    case True
    with stale_list[OF assms(1,2)] stale_page_find[OF ids rows(2)] show ?thesis
      by (simp add: list_monitors_def views_def[abs_def])
  next
    case False
    then have "buildMonitorListWhere contains_text st query now = matches contains_text st query now"
      by (auto simp: fun_eq_iff matches_def buildMonitorListWhere_def)
    with False show ?thesis by (simp add: list_monitors_def views_def[abs_def])
  qed
  have "all_pages n (\<lambda>c. find_page limit mo_id c ?rows) None = after_cursor mo_id None ?rows"
    by (rule all_pages_complete[OF rows(1) _ assms(4), of "[]"])
      (use assms rows(2) in \<open>auto simp: after_cursor_def\<close>)
  then show ?thesis unfolding page all_pages_map by (simp add: views_def after_cursor_def)
qed

lemma list_pages_complete_witness:
  "all_pages 1 (\<lambda>c. case list_monitors (\<lambda>_ _. True) 1000000 c 10 example_actor (Some List_STALE) None down_db of
       Inr page \<Rightarrow> page | Inl e \<Rightarrow> ([], None)) None = views down_db example_actor [down_monitor]"
proof -
  have slot: "mo_nextCheckAt down_monitor = Some 1000" "mo_intervalSec down_monitor = 60"
    by (simp_all add: down_monitor_def example_monitor_def)
  have m: "matches (\<lambda>_ _. True) (Some List_STALE) None 1000000 down_monitor"
    by (simp add: matches_def buildMonitorListWhere_def overdue_def slot down_state_wf)
  have "monitors down_db = [down_monitor]" by (simp add: down_db_def)
  then have rows: "listed down_db (matches (\<lambda>_ _. True) (Some List_STALE) None 1000000) = [down_monitor]"
    by (simp add: listed_def newest_first_def m)
  have "dates_in_range 1000000 down_db"
    by (simp add: dates_in_range_def down_db_def slot)
  from list_pages_complete[OF down_db_inv this, of 10 "\<lambda>_ _. True" "Some List_STALE" None 1 example_actor]
  show ?thesis unfolding rows by (simp add: down_db_def)
qed

end
