(* ===== verification/Access_Control.thy ===== *)
theory Access_Control
  imports Api_Core "HOL-Library.Product_Lexorder"
begin

text \<open>
  Who may use the API: password records (\<open>packages/database/src/account-password.ts\<close>), session
  tokens (\<open>apps/api/src/auth/session.ts\<close>), login sessions (\<open>auth/sessions.service.ts\<close>), the guard
  in front of every route (\<open>auth/auth.guard.ts\<close>) and the login and logout of
  \<open>auth/auth.controller.ts\<close>. scrypt, HMAC-SHA-256, base64url, JSON text and the collation of
  the database are the fields of \<open>crypto_env\<close>; random salts, new ids and the time are arguments.
\<close>

section \<open>Parameters\<close>

text \<open>
  \<open>cy_stringify v\<close> is the base64url form of \<open>JSON.stringify(v)\<close> and \<open>cy_parse\<close> reads it back
  (\<open>None\<close> when \<open>JSON.parse\<close> throws); \<open>cy_collate\<close> gives the sort key by which the database
  compares texts.
\<close>

record crypto_env =
  cy_scrypt :: "jstring \<Rightarrow> 8 word list \<Rightarrow> nat \<Rightarrow> 8 word list"
  cy_hmac :: "jstring \<Rightarrow> 8 word list"
  cy_b64 :: "8 word list \<Rightarrow> jstring"
  cy_unb64 :: "jstring \<Rightarrow> 8 word list"
  cy_stringify :: "json \<Rightarrow> jstring"
  cy_parse :: "jstring \<Rightarrow> json option"
  cy_collate :: "jstring \<Rightarrow> jstring"

text \<open>What base64url promises of a value: it is read back, and neither is empty nor uses a separator.\<close>

definition encodes_bytes :: "crypto_env \<Rightarrow> 8 word list \<Rightarrow> bool" where
  "encodes_bytes env bs \<longleftrightarrow>
     cy_unb64 env (cy_b64 env bs) = bs \<and> cy_b64 env bs \<noteq> [] \<and> 46 \<notin> set (cy_b64 env bs) \<and>
     36 \<notin> set (cy_b64 env bs)"

definition encodes_json :: "crypto_env \<Rightarrow> json \<Rightarrow> bool" where
  "encodes_json env v \<longleftrightarrow>
     cy_parse env (cy_stringify env v) = Some v \<and> cy_stringify env v \<noteq> [] \<and>
     46 \<notin> set (cy_stringify env v)"

section \<open>Passwords\<close>

definition SALT_BYTES :: nat where "SALT_BYTES = 16"
definition KEY_BYTES :: nat where "KEY_BYTES = 64"

definition hashAccountPassword :: "crypto_env \<Rightarrow> 8 word list \<Rightarrow> jstring \<Rightarrow> jstring" where
  "hashAccountPassword env salt password =
     js ''scrypt-v1'' @ js ''$'' @ cy_b64 env salt @ js ''$'' @
     cy_b64 env (cy_scrypt env password salt KEY_BYTES)"

definition verifyAccountPassword :: "crypto_env \<Rightarrow> jstring \<Rightarrow> jstring \<Rightarrow> bool" where
  "verifyAccountPassword env password encoded =
     (let ws = split_on 36 encoded; format = field 0 ws; saltValue = field 1 ws; hashValue = field 2 ws
      in if format \<noteq> js ''scrypt-v1'' \<or> saltValue = [] \<or> hashValue = [] \<or> 3 < length ws then False
         else
          (let salt = cy_unb64 env saltValue; expected = cy_unb64 env hashValue
           in if length salt \<noteq> SALT_BYTES \<or> length expected \<noteq> KEY_BYTES then False
              else cy_scrypt env password salt (length expected) = expected))"

section \<open>Tokens\<close>

record SessionPayload =
  pl_sub :: json
  pl_sid :: json
  pl_iat :: "json option"
  pl_exp :: int

definition payload_json :: "id \<Rightarrow> id \<Rightarrow> int \<Rightarrow> int \<Rightarrow> json" where
  "payload_json accountId sessionId iat until =
     JObj [(js ''sub'', JStr accountId), (js ''sid'', JStr sessionId), (js ''iat'', JNum iat),
           (js ''exp'', JNum until)]"

definition createSessionToken :: "crypto_env \<Rightarrow> id \<Rightarrow> id \<Rightarrow> int \<Rightarrow> time \<Rightarrow> jstring" where
  "createSessionToken env accountId sessionId ttlSeconds now =
     (let t = now div 1000;
          encoded = cy_stringify env (payload_json accountId sessionId t (t + ttlSeconds))
      in encoded @ js ''.'' @ cy_b64 env (cy_hmac env encoded))"

fun truthy :: "json \<Rightarrow> bool" where
  "truthy JNull = False"
| "truthy (JBool b) = b"
| "truthy (JNum n) = (n \<noteq> 0)"
| "truthy (JStr s) = (s \<noteq> [])"
| "truthy _ = True"

text \<open>
  A payload that is no object, or lacks a member, is refused like one with a falsy member; a
  number that is not integral is not a \<open>json\<close> value here and is refused by the code as well.
\<close>

definition verifySessionToken :: "crypto_env \<Rightarrow> jstring \<Rightarrow> time \<Rightarrow> SessionPayload option" where
  "verifySessionToken env token now =
     (let ws = split_on 46 token; encoded = field 0 ws; providedSignature = field 1 ws
      in if encoded = [] \<or> providedSignature = [] then None
         else if cy_unb64 env providedSignature \<noteq> cy_hmac env encoded then None
         else (case cy_parse env encoded of None \<Rightarrow> None
               | Some payload \<Rightarrow>
                  (case (jget payload (js ''sub''), jget payload (js ''sid''), jget payload (js ''exp'')) of
                     (Some sub, Some sid, Some (JNum until)) \<Rightarrow>
                       if \<not> truthy sub \<or> \<not> truthy sid \<or> until \<le> now div 1000 then None
                       else Some \<lparr>pl_sub = sub, pl_sid = sid, pl_iat = jget payload (js ''iat''), pl_exp = until\<rparr>
                   | _ \<Rightarrow> None)))"

section \<open>Login sessions\<close>

record session_config =
  cf_sessionIdleTimeoutMinutes :: int
  cf_sessionAbsoluteTimeoutHours :: int
  cf_webOrigins :: "jstring list"

record web_request =
  rq_method :: string
  rq_ip :: jstring
  rq_userAgent :: "jstring option"
  rq_origin :: "jstring option"
  rq_token :: "jstring option"

definition MAX_USER_AGENT_LENGTH :: nat where "MAX_USER_AGENT_LENGTH = 512"
definition SESSION_TOUCH_INTERVAL_MS :: int where "SESSION_TOUCH_INTERVAL_MS = 60000"

definition idle_ms :: "session_config \<Rightarrow> int" where
  "idle_ms cfg = cf_sessionIdleTimeoutMinutes cfg * 60000"

definition absolute_ms :: "session_config \<Rightarrow> int" where
  "absolute_ms cfg = cf_sessionAbsoluteTimeoutHours cfg * 60 * 60000"

definition sessionCutoff :: "session_config \<Rightarrow> time \<Rightarrow> time" where
  "sessionCutoff cfg now = now - idle_ms cfg"

definition requestMetadata :: "web_request \<Rightarrow> jstring \<times> jstring option" where
  "requestMetadata request =
     (slice_to 45 (rq_ip request), map_option (slice_to MAX_USER_AGENT_LENGTH) (rq_userAgent request))"

definition new_session :: "session_config \<Rightarrow> id \<Rightarrow> id \<Rightarrow> web_request \<Rightarrow> time \<Rightarrow> LoginSession" where
  "new_session cfg sid accountId request now =
     (let (ipAddress, userAgent) = requestMetadata request
      in \<lparr>se_id = sid, se_accountId = accountId, se_ipAddress = Some ipAddress,
          se_userAgent = userAgent, se_lastSeenAt = now, se_expiresAt = now + absolute_ms cfg,
          se_revokedAt = None, se_createdAt = now\<rparr>)"

definition start_tx :: "session_config \<Rightarrow> id \<Rightarrow> id \<Rightarrow> web_request \<Rightarrow> time \<Rightarrow> LoginSession tx" where
  "start_tx cfg sid accountId request now d =
     (if \<not> list_ex (\<lambda>a. ac_id a = accountId) (accounts d) then Inl (DatabaseError RecordNotFound)
      else if list_ex (\<lambda>s. se_id s = sid) (loginSessions d)
      then Inl (DatabaseError (UniqueConstraint ''PRIMARY''))
      else
       (let s = new_session cfg sid accountId request now
        in Inr (s, d\<lparr>accounts := update_where (\<lambda>a. ac_id a = accountId)
                       (\<lambda>a. a\<lparr>ac_lastLoginAt := Some now\<rparr>) (accounts d),
                     loginSessions := loginSessions d @ [s]\<rparr>)))"

definition user_of :: "Account \<Rightarrow> AuthenticatedUser" where
  "user_of a = \<lparr>us_id = ac_id a, us_username = ac_username a, us_role = ac_role a\<rparr>"

text \<open>A session that is neither revoked nor over, and was seen within the idle timeout.\<close>

definition live_session :: "session_config \<Rightarrow> time \<Rightarrow> LoginSession \<Rightarrow> bool" where
  "live_session cfg now s \<longleftrightarrow>
     se_revokedAt s = None \<and> now < se_expiresAt s \<and> sessionCutoff cfg now < se_lastSeenAt s"

definition touch_session :: "id \<Rightarrow> time \<Rightarrow> db \<Rightarrow> db" where
  "touch_session sid now d =
     d\<lparr>loginSessions := update_where
         (\<lambda>s. se_id s = sid \<and> se_revokedAt s = None \<and> se_lastSeenAt s \<le> now - SESSION_TOUCH_INTERVAL_MS)
         (\<lambda>s. s\<lparr>se_lastSeenAt := now\<rparr>) (loginSessions d)\<rparr>"

text \<open>
  The read of \<open>authenticate\<close>: the session and its account. The client refuses a filter whose value
  has the wrong type. The touch is a write of its own, with its conditions in its filter.
\<close>

definition find_session ::
  "session_config \<Rightarrow> SessionPayload \<Rightarrow> time \<Rightarrow> db \<Rightarrow> api_error + (LoginSession \<times> Account) option" where
  "find_session cfg payload now d =
     (case (pl_sub payload, pl_sid payload) of
        (JStr sub, JStr sid) \<Rightarrow>
          Inr (case find (\<lambda>s. se_id s = sid \<and> se_accountId s = sub \<and> live_session cfg now s) (loginSessions d) of
             None \<Rightarrow> None
           | Some session \<Rightarrow>
               (case find_by ac_id (se_accountId session) (accounts d) of
                  None \<Rightarrow> None
                | Some account \<Rightarrow> if ac_enabled account then Some (session, account) else None))
      | _ \<Rightarrow> Inl (Uncaught (PlainError ''PrismaClientValidationError'')))"

definition touch_due :: "time \<Rightarrow> LoginSession \<Rightarrow> bool" where
  "touch_due now session \<longleftrightarrow> SESSION_TOUCH_INTERVAL_MS \<le> now - se_lastSeenAt session"

definition authenticate ::
  "session_config \<Rightarrow> SessionPayload \<Rightarrow> time \<Rightarrow> db \<Rightarrow> (api_error + AuthenticatedUser option) \<times> db" where
  "authenticate cfg payload now d =
     (case find_session cfg payload now d of
        Inl e \<Rightarrow> (Inl e, d)
      | Inr None \<Rightarrow> (Inr None, d)
      | Inr (Some (session, account)) \<Rightarrow>
          (Inr (Some (user_of account)),
           if touch_due now session then touch_session (se_id session) now d else d))"

definition revoke_where :: "(LoginSession \<Rightarrow> bool) \<Rightarrow> time \<Rightarrow> db \<Rightarrow> db" where
  "revoke_where p now d =
     d\<lparr>loginSessions := update_where p (\<lambda>s. s\<lparr>se_revokedAt := Some now\<rparr>) (loginSessions d)\<rparr>"

definition revokeCurrent :: "id \<Rightarrow> time \<Rightarrow> db \<Rightarrow> db" where
  "revokeCurrent sid now d = revoke_where (\<lambda>s. se_id s = sid \<and> se_revokedAt s = None) now d"

record SessionView =
  sv_id :: id
  sv_accountId :: id
  sv_username :: jstring
  sv_ipAddress :: "jstring option"
  sv_userAgent :: "jstring option"
  sv_createdAt :: time
  sv_lastSeenAt :: time
  sv_expiresAt :: time
  sv_idleExpiresAt :: time
  sv_current :: bool

definition session_view :: "session_config \<Rightarrow> id \<Rightarrow> db \<Rightarrow> LoginSession \<Rightarrow> SessionView list" where
  "session_view cfg currentSessionId d s =
     (case find_by ac_id (se_accountId s) (accounts d) of None \<Rightarrow> []
      | Some a \<Rightarrow>
         [\<lparr>sv_id = se_id s, sv_accountId = ac_id a, sv_username = ac_username a,
           sv_ipAddress = se_ipAddress s, sv_userAgent = se_userAgent s,
           sv_createdAt = se_createdAt s, sv_lastSeenAt = se_lastSeenAt s,
           sv_expiresAt = se_expiresAt s,
           sv_idleExpiresAt = min (se_expiresAt s) (se_lastSeenAt s + idle_ms cfg),
           sv_current = (se_id s = currentSessionId)\<rparr>])"

definition listActive :: "session_config \<Rightarrow> id \<Rightarrow> time \<Rightarrow> db \<Rightarrow> SessionView list" where
  "listActive cfg currentSessionId now d =
     concat (map (session_view cfg currentSessionId d)
       (sort_key (\<lambda>s. (- se_lastSeenAt s, - se_createdAt s)) (filter (live_session cfg now) (loginSessions d))))"

text \<open>
  The checks of \<open>revokeOne\<close> read the session; the transaction that follows updates it by its id and
  fails when the row is gone by then.
\<close>

definition revocable :: "id \<Rightarrow> id \<Rightarrow> db \<Rightarrow> (api_error + nat) + LoginSession" where
  "revocable sid currentSessionId d =
     (if sid = currentSessionId
      then Inl (Inl (BadRequest [0xD604, 0xC7AC, 0x20, 0xC138, 0xC158, 0xC740, 0x20, 0xB85C, 0xADF8, 0xC544, 0xC6C3,
      0x20, 0xBC84, 0xD2BC, 0xC73C, 0xB85C, 0x20, 0xC885, 0xB8CC, 0xD574, 0x20, 0xC8FC,
      0xC138, 0xC694, 0x2E]))
      else (case find_by se_id sid (loginSessions d) of
              None \<Rightarrow> Inl (Inl (NotFound [0xC138, 0xC158, 0xC744, 0x20, 0xCC3E, 0xC744, 0x20, 0xC218, 0x20, 0xC5C6, 0xC2B5,
      0xB2C8, 0xB2E4, 0x2E]))
            | Some s \<Rightarrow> if se_revokedAt s \<noteq> None then Inl (Inr 0) else Inr s))"

definition revoke_tx :: "id \<Rightarrow> LoginSession \<Rightarrow> id \<Rightarrow> time \<Rightarrow> nat tx" where
  "revoke_tx auditId session actorId now d =
     (if \<not> list_ex (\<lambda>s. se_id s = se_id session) (loginSessions d) then Inl (DatabaseError RecordNotFound)
      else Inr (1, write_audit
             (audit_row auditId actorId ''LOGIN_SESSION_REVOKED'' ''LoginSession'' (se_id session)
                (Some (JObj [(js ''accountId'', JStr (se_accountId session))])) now)
             (revoke_where (\<lambda>s. se_id s = se_id session) now d)))"

definition revokeOne ::
  "id \<Rightarrow> id \<Rightarrow> id \<Rightarrow> id \<Rightarrow> time \<Rightarrow> db \<Rightarrow> (api_error + nat) \<times> db" where
  "revokeOne auditId sid currentSessionId actorId now d =
     (case revocable sid currentSessionId d of
        Inl answer \<Rightarrow> (answer, d)
      | Inr session \<Rightarrow> transaction (revoke_tx auditId session actorId now) d)"

definition revokeAll :: "id \<Rightarrow> id \<Rightarrow> time \<Rightarrow> db \<Rightarrow> (api_error + nat) \<times> db" where
  "revokeAll auditId actorId now d =
     (let n = count_where (\<lambda>s. se_revokedAt s = None) (loginSessions d)
      in (Inr n, write_audit
            (audit_row auditId actorId ''LOGIN_SESSIONS_REVOKED'' ''LoginSession'' (js ''all'')
               (Some (JObj [(js ''count'', JNum (int n))])) now)
            (revoke_where (\<lambda>s. se_revokedAt s = None) now d)))"

section \<open>The guard\<close>

definition strip_slash :: "jstring \<Rightarrow> jstring" where
  "strip_slash s = (if s \<noteq> [] \<and> last s = 47 then butlast s else s)"

definition origin_refused :: "session_config \<Rightarrow> web_request \<Rightarrow> bool" where
  "origin_refused cfg request \<longleftrightarrow>
     (case rq_origin request of None \<Rightarrow> False
      | Some origin \<Rightarrow> origin \<noteq> [] \<and> strip_slash origin \<notin> set (cf_webOrigins cfg))"

definition login_required :: api_error where
  "login_required = Unauthorized [0xB85C, 0xADF8, 0xC778, 0xC774, 0x20, 0xD544, 0xC694, 0xD569, 0xB2C8, 0xB2E4, 0x2E]"

text \<open>The payload of the cookie, when its token verifies.\<close>

definition request_payload :: "crypto_env \<Rightarrow> web_request \<Rightarrow> time \<Rightarrow> SessionPayload option" where
  "request_payload env request now =
     (case rq_token request of None \<Rightarrow> None
      | Some token \<Rightarrow> if token = [] then None else verifySessionToken env token now)"

text \<open>
  The two flags are what the decorators of the route say; the guard of a public route passes
  without a user. Otherwise the result is the user and session the handler receives.
\<close>

definition canActivate ::
  "crypto_env \<Rightarrow> session_config \<Rightarrow> bool \<Rightarrow> bool \<Rightarrow> web_request \<Rightarrow> time \<Rightarrow> db \<Rightarrow>
   (api_error + (AuthenticatedUser \<times> json) option) \<times> db" where
  "canActivate env cfg isPublic adminOnly request now d =
     (if isPublic then (Inr None, d)
      else
       (case request_payload env request now of
          None \<Rightarrow> (Inl login_required, d)
        | Some payload \<Rightarrow>
           (case authenticate cfg payload now d of
              (Inl e, d') \<Rightarrow> (Inl e, d')
            | (Inr None, d') \<Rightarrow> (Inl login_required, d')
            | (Inr (Some account), d') \<Rightarrow>
                if adminOnly \<and> us_role account \<noteq> ADMIN
                then (Inl (Forbidden [0xAD00, 0xB9AC, 0xC790, 0x20, 0xAD8C, 0xD55C, 0xC774, 0x20, 0xD544, 0xC694, 0xD569,
      0xB2C8, 0xB2E4, 0x2E]), d')
                else if rq_method request \<notin> {''GET'', ''HEAD'', ''OPTIONS''} \<and> origin_refused cfg request
                then (Inl (Forbidden [0xD5C8, 0xC6A9, 0xB418, 0xC9C0, 0x20, 0xC54A, 0xC740, 0x20, 0xC694, 0xCCAD, 0x20,
      0xCD9C, 0xCC98, 0xC785, 0xB2C8, 0xB2E4, 0x2E]), d')
                else (Inr (Some (account, pl_sid payload)), d'))))"

section \<open>Login and logout\<close>

definition text_field :: "nat \<Rightarrow> nat \<Rightarrow> json \<Rightarrow> jstring option" where
  "text_field lo hi v =
     (case v of JStr s \<Rightarrow> if lo \<le> length s \<and> length s \<le> hi then Some s else None | _ \<Rightarrow> None)"

definition loginSchema :: "json \<Rightarrow> (jstring \<times> jstring) option" where
  "loginSchema body =
     (case (required (text_field 1 128) (jget body (js ''username'')),
            required (text_field 1 1024) (jget body (js ''password''))) of
        (Some username, Some password) \<Rightarrow> Some (username, password) | _ \<Rightarrow> None)"

definition bad_credentials :: api_error where
  "bad_credentials = Unauthorized [0xC544, 0xC774, 0xB514, 0x20, 0xB610, 0xB294, 0x20, 0xBE44, 0xBC00, 0xBC88, 0xD638,
      0xAC00, 0x20, 0xC62C, 0xBC14, 0xB974, 0xC9C0, 0x20, 0xC54A, 0xC2B5, 0xB2C8, 0xB2E4, 0x2E]"

text \<open>The account a name finds, by the collation of the database.\<close>

definition account_named :: "crypto_env \<Rightarrow> jstring \<Rightarrow> db \<Rightarrow> Account option" where
  "account_named env username d = find (\<lambda>a. cy_collate env (ac_username a) = cy_collate env username) (accounts d)"

text \<open>
  The login reads the account and verifies the password before it starts the session in a
  transaction of its own, which looks at the account only by its id.
\<close>

definition check_login ::
  "crypto_env \<Rightarrow> session_config \<Rightarrow> web_request \<Rightarrow> json \<Rightarrow> db \<Rightarrow> api_error + Account" where
  "check_login env cfg request body d =
     (if origin_refused cfg request then Inl (Unauthorized (js ''Unauthorized''))
      else
       (case loginSchema body of None \<Rightarrow> Inl bad_credentials
        | Some (username, password) \<Rightarrow>
           (case account_named env username d of None \<Rightarrow> Inl bad_credentials
            | Some account \<Rightarrow>
               if \<not> ac_enabled account \<or> \<not> verifyAccountPassword env password (ac_passwordHash account)
               then Inl bad_credentials
               else Inr account)))"

definition open_session ::
  "crypto_env \<Rightarrow> session_config \<Rightarrow> Account \<Rightarrow> web_request \<Rightarrow> id \<Rightarrow> time \<Rightarrow> db \<Rightarrow>
   (api_error + AuthenticatedUser \<times> jstring) \<times> db" where
  "open_session env cfg account request sid now d =
     (case transaction (start_tx cfg sid (ac_id account) request now) d of
        (Inl e, d') \<Rightarrow> (Inl e, d')
      | (Inr session, d') \<Rightarrow>
          (Inr (user_of account,
                createSessionToken env (ac_id account) (se_id session)
                  (cf_sessionAbsoluteTimeoutHours cfg * 60 * 60) now), d'))"

definition login ::
  "crypto_env \<Rightarrow> session_config \<Rightarrow> web_request \<Rightarrow> json \<Rightarrow> id \<Rightarrow> time \<Rightarrow> db \<Rightarrow>
   (api_error + AuthenticatedUser \<times> jstring) \<times> db" where
  "login env cfg request body sid now d =
     (case check_login env cfg request body d of
        Inl e \<Rightarrow> (Inl e, d)
      | Inr account \<Rightarrow> open_session env cfg account request sid now d)"

definition logout :: "id \<Rightarrow> time \<Rightarrow> db \<Rightarrow> db" where
  "logout sid now d = revokeCurrent sid now d"

end
