(* ===== verification/Account_Service.thy ===== *)
theory Account_Service
  imports Access_Control "HOL-Library.List_Lexorder"
begin

text \<open>
  Accounts: the schemas of \<open>apps/api/src/accounts/account.schemas.ts\<close>, the operations of
  \<open>accounts.service.ts\<close> and the first account of \<open>packages/database/src/bootstrap-admin.ts\<close>.
  Salts, new ids and the time are arguments, \<open>toLocaleLowerCase\<close> is a parameter. Deleting an
  account deletes its sessions and clears the owner of its monitors, as the foreign keys say.
\<close>

section \<open>Schemas\<close>

record AccountCreateInput =
  ai_username :: jstring
  ai_password :: jstring
  ai_role :: AccountRole
  ai_enabled :: bool

record AccountPatch =
  ap_username :: "jstring option"
  ap_password :: "jstring option"
  ap_role :: "AccountRole option"
  ap_enabled :: "bool option"

text \<open>The script property Hangul of Unicode; all its characters are single code units.\<close>

definition hangul :: "16 word \<Rightarrow> bool" where
  "hangul c \<longleftrightarrow>
     (\<exists>(lo, hi) \<in> {(0x1100, 0x11FF), (0x302E, 0x302F), (0x3131, 0x318E), (0x3200, 0x321E),
        (0x3260, 0x327E), (0xA960, 0xA97C), (0xAC00, 0xD7A3), (0xD7B0, 0xD7C6), (0xD7CB, 0xD7FB),
        (0xFFA0, 0xFFBE), (0xFFC2, 0xFFC7), (0xFFCA, 0xFFCF), (0xFFD2, 0xFFD7), (0xFFDA, 0xFFDC)}.
        lo \<le> c \<and> c \<le> hi)"

definition username_start :: "16 word \<Rightarrow> bool" where
  "username_start c \<longleftrightarrow> hangul c \<or> (65 \<le> c \<and> c \<le> 90) \<or> (97 \<le> c \<and> c \<le> 122) \<or> (48 \<le> c \<and> c \<le> 57)"

definition username_unit :: "16 word \<Rightarrow> bool" where
  "username_unit c \<longleftrightarrow> username_start c \<or> c = 46 \<or> c = 95 \<or> c = 64 \<or> c = 45"

definition username_field :: "json \<Rightarrow> jstring option" where
  "username_field v =
     (case string_field 2 160 v of None \<Rightarrow> None
      | Some s \<Rightarrow> (case s of [] \<Rightarrow> None
                   | c # cs \<Rightarrow> if username_start c \<and> list_all username_unit cs then Some s else None))"

definition password_field :: "json \<Rightarrow> jstring option" where
  "password_field = text_field 4 128"

definition role_name :: "AccountRole \<Rightarrow> string" where
  "role_name r = (case r of ADMIN \<Rightarrow> ''ADMIN'' | USER \<Rightarrow> ''USER'')"

definition role_field :: "json \<Rightarrow> AccountRole option" where
  "role_field v =
     (if v = JStr (js ''ADMIN'') then Some ADMIN else if v = JStr (js ''USER'') then Some USER else None)"

definition accountCreateSchema :: "json \<Rightarrow> AccountCreateInput option" where
  "accountCreateSchema v =
     (case (required username_field (jget v (js ''username'')), required password_field (jget v (js ''password'')),
            defaulted role_field USER (jget v (js ''role'')), defaulted bool_field True (jget v (js ''enabled''))) of
        (Some u, Some p, Some r, Some e) \<Rightarrow>
          Some \<lparr>ai_username = u, ai_password = p, ai_role = r, ai_enabled = e\<rparr>
      | _ \<Rightarrow> None)"

definition accountPatchSchema :: "json \<Rightarrow> AccountPatch option" where
  "accountPatchSchema v =
     (case (optional username_field (jget v (js ''username'')), optional password_field (jget v (js ''password'')),
            optional role_field (jget v (js ''role'')), optional bool_field (jget v (js ''enabled''))) of
        (Some u, Some p, Some r, Some e) \<Rightarrow>
          if u = None \<and> p = None \<and> r = None \<and> e = None then None
          else Some \<lparr>ap_username = u, ap_password = p, ap_role = r, ap_enabled = e\<rparr>
      | _ \<Rightarrow> None)"

definition accountBulkCreateSchema :: "json \<Rightarrow> AccountCreateInput list option" where
  "accountBulkCreateSchema v = required (array_field 1 500 accountCreateSchema) (jget v (js ''accounts''))"

section \<open>Views\<close>

record AccountView =
  av_id :: id
  av_username :: jstring
  av_role :: AccountRole
  av_enabled :: bool
  av_lastLoginAt :: "time option"
  av_createdAt :: time

definition toAccountView :: "Account \<Rightarrow> AccountView" where
  "toAccountView a =
     \<lparr>av_id = ac_id a, av_username = ac_username a, av_role = ac_role a, av_enabled = ac_enabled a,
      av_lastLoginAt = ac_lastLoginAt a, av_createdAt = ac_createdAt a\<rparr>"

definition list_accounts :: "crypto_env \<Rightarrow> db \<Rightarrow> AccountView list" where
  "list_accounts env d =
     map toAccountView (sort_key (\<lambda>a. (cy_collate env (ac_username a), ac_id a)) (accounts d))"

section \<open>Create\<close>

text \<open>The primary key and the unique index on the name.\<close>

definition account_clash :: "crypto_env \<Rightarrow> id \<Rightarrow> jstring \<Rightarrow> Account list \<Rightarrow> bool" where
  "account_clash env i username rows \<longleftrightarrow>
     list_ex (\<lambda>a. ac_id a = i \<or> cy_collate env (ac_username a) = cy_collate env username) rows"

definition new_account :: "id \<Rightarrow> time \<Rightarrow> jstring \<Rightarrow> AccountCreateInput \<Rightarrow> Account" where
  "new_account i now passwordHash input =
     \<lparr>ac_id = i, ac_username = ai_username input, ac_passwordHash = passwordHash,
      ac_role = ai_role input, ac_enabled = ai_enabled input, ac_lastLoginAt = None,
      ac_createdAt = now\<rparr>"

definition isUniqueViolation :: "api_error \<Rightarrow> bool" where
  "isUniqueViolation e = (case e of DatabaseError (UniqueConstraint _) \<Rightarrow> True | _ \<Rightarrow> False)"

definition name_taken :: api_error where
  "name_taken = Conflict [0xC774, 0xBBF8, 0x20, 0xC0AC, 0xC6A9, 0x20, 0xC911, 0xC778, 0x20, 0xC544, 0xC774,
      0xB514, 0xC785, 0xB2C8, 0xB2E4, 0x2E]"

definition conflict_on_unique :: "(api_error + 'a) \<times> db \<Rightarrow> (api_error + 'a) \<times> db" where
  "conflict_on_unique result =
     map_prod (map_sum (\<lambda>e. if isUniqueViolation e then name_taken else e) id) id result"

definition create_account_tx ::
  "crypto_env \<Rightarrow> jstring \<Rightarrow> id \<Rightarrow> id \<Rightarrow> time \<Rightarrow> AccountCreateInput \<Rightarrow> id \<Rightarrow> AccountView tx" where
  "create_account_tx env passwordHash newId auditId now input actorId d =
     (if account_clash env newId (ai_username input) (accounts d)
      then Inl (DatabaseError (UniqueConstraint ''accounts_username_key''))
      else
       (let created = new_account newId now passwordHash input
        in Inr (toAccountView created,
                write_audit (audit_row auditId actorId ''ACCOUNT_CREATED'' ''Account'' newId
                  (Some (JObj [(js ''username'', JStr (ai_username input)),
                               (js ''role'', JStr (js (role_name (ai_role input))))])) now)
                  (d\<lparr>accounts := accounts d @ [created]\<rparr>))))"

definition create_account ::
  "crypto_env \<Rightarrow> 8 word list \<Rightarrow> id \<Rightarrow> id \<Rightarrow> time \<Rightarrow> AccountCreateInput \<Rightarrow> id \<Rightarrow> db \<Rightarrow>
   (api_error + AccountView) \<times> db" where
  "create_account env salt newId auditId now input actorId d =
     conflict_on_unique (transaction
       (create_account_tx env (hashAccountPassword env salt (ai_password input)) newId auditId now input actorId) d)"

section \<open>Many at once\<close>

text \<open>A row of the report: the line in the file, the name and the message.\<close>

type_synonym bulk_error = "nat \<times> jstring \<times> jstring"

fun scan_accounts ::
  "(jstring \<Rightarrow> jstring) \<Rightarrow> jstring list \<Rightarrow> jstring list \<Rightarrow> nat \<Rightarrow> AccountCreateInput list \<Rightarrow>
   (nat \<times> AccountCreateInput) list \<times> bulk_error list" where
  "scan_accounts lower unavailable seen index [] = ([], [])"
| "scan_accounts lower unavailable seen index (account # rest) =
     (let normalized = lower (ai_username account)
      in if normalized \<in> set unavailable
         then map_prod id ((#) (index + 2, ai_username account, [0xC774, 0xBBF8, 0x20, 0xB4F1, 0xB85D, 0xB41C, 0x20, 0xC544, 0xC774, 0xB514, 0xC785,
      0xB2C8, 0xB2E4, 0x2E]))
                (scan_accounts lower unavailable seen (index + 1) rest)
         else if normalized \<in> set seen
         then map_prod id ((#) (index + 2, ai_username account, [0xD30C, 0xC77C, 0x20, 0xC548, 0xC5D0, 0x20, 0xC911, 0xBCF5, 0xB41C, 0x20, 0xC544,
      0xC774, 0xB514, 0xC785, 0xB2C8, 0xB2E4, 0x2E]))
                (scan_accounts lower unavailable seen (index + 1) rest)
         else map_prod ((#) (index, account)) id
                (scan_accounts lower unavailable (normalized # seen) (index + 1) rest))"

text \<open>
  Four workers share one index and write into the place they took; \<open>hash_of j\<close> is what hashing
  the candidate at place \<open>j\<close> gives. \<open>hashWithConcurrency\<close> is the array when all workers are
  done, see \<open>hash_pool_result\<close>.
\<close>

record 'r hash_pool =
  hp_nextIndex :: nat
  hp_running :: "nat list"
  hp_results :: "'r option list"

inductive hash_pool_step :: "nat \<Rightarrow> (nat \<Rightarrow> 'r) \<Rightarrow> 'r hash_pool \<Rightarrow> 'r hash_pool \<Rightarrow> bool" for n hash_of where
  pool_take: "hp_nextIndex s < n \<Longrightarrow> length (hp_running s) < min 4 n \<Longrightarrow>
    hash_pool_step n hash_of s
      (s\<lparr>hp_nextIndex := hp_nextIndex s + 1, hp_running := hp_nextIndex s # hp_running s\<rparr>)"
| pool_finish: "j \<in> set (hp_running s) \<Longrightarrow>
    hash_pool_step n hash_of s
      (s\<lparr>hp_running := remove1 j (hp_running s), hp_results := (hp_results s)[j := Some (hash_of j)]\<rparr>)"

definition start_pool :: "nat \<Rightarrow> 'r hash_pool" where
  "start_pool n = \<lparr>hp_nextIndex = 0, hp_running = [], hp_results = replicate n None\<rparr>"

definition hashWithConcurrency ::
  "crypto_env \<Rightarrow> (nat \<Rightarrow> 8 word list) \<Rightarrow> (nat \<times> AccountCreateInput) list \<Rightarrow>
   (nat \<times> AccountCreateInput \<times> jstring) list" where
  "hashWithConcurrency env salts candidates =
     map (\<lambda>j. case candidates ! j of (index, account) \<Rightarrow>
            (index, account, hashAccountPassword env (salts j) (ai_password account)))
       [0 ..< length candidates]"

text \<open>\<open>createMany\<close> with \<open>skipDuplicates\<close>: a row that clashes with one already there is left out.\<close>

fun insert_accounts :: "crypto_env \<Rightarrow> Account list \<Rightarrow> Account list \<Rightarrow> Account list \<times> nat" where
  "insert_accounts env [] rows = (rows, 0)"
| "insert_accounts env (a # rest) rows =
     (if account_clash env (ac_id a) (ac_username a) rows then insert_accounts env rest rows
      else map_prod id Suc (insert_accounts env rest (rows @ [a])))"

record bulk_result =
  br_created :: nat
  br_skipped :: nat
  br_errors :: "bulk_error list"

definition unavailable_names :: "crypto_env \<Rightarrow> (jstring \<Rightarrow> jstring) \<Rightarrow> AccountCreateInput list \<Rightarrow> db \<Rightarrow> jstring list" where
  "unavailable_names env lower input d =
     map (lower \<circ> ac_username)
       (filter (\<lambda>a. list_ex (\<lambda>x. cy_collate env (ac_username a) = cy_collate env (ai_username x)) input) (accounts d))"

text \<open>
  The names in use are read first, the passwords are hashed, and one transaction inserts what is
  left.
\<close>

definition bulk_candidates ::
  "crypto_env \<Rightarrow> (jstring \<Rightarrow> jstring) \<Rightarrow> AccountCreateInput list \<Rightarrow> db \<Rightarrow>
   (nat \<times> AccountCreateInput) list \<times> bulk_error list" where
  "bulk_candidates env lower input d = scan_accounts lower (unavailable_names env lower input d) [] 0 input"

definition bulk_insert ::
  "crypto_env \<Rightarrow> (nat \<times> AccountCreateInput \<times> jstring) list \<Rightarrow> (nat \<Rightarrow> id) \<Rightarrow> id \<Rightarrow> time \<Rightarrow>
   nat \<Rightarrow> id \<Rightarrow> db \<Rightarrow> nat \<times> db" where
  "bulk_insert env hashed newIds auditId now requested actorId d =
     (let rows = map (\<lambda>j. case hashed ! j of (_, account, h) \<Rightarrow> new_account (newIds j) now h account)
                   [0 ..< length hashed];
          (accounts', count) = insert_accounts env rows (accounts d)
      in (count,
          write_audit (audit_row auditId actorId ''ACCOUNTS_BULK_CREATED'' ''Account'' (js ''bulk'')
            (Some (JObj [(js ''requested'', JNum (int requested)), (js ''created'', JNum (int count))])) now)
            (d\<lparr>accounts := accounts'\<rparr>)))"

definition bulkCreate ::
  "crypto_env \<Rightarrow> (jstring \<Rightarrow> jstring) \<Rightarrow> (nat \<Rightarrow> 8 word list) \<Rightarrow> (nat \<Rightarrow> id) \<Rightarrow> id \<Rightarrow> time \<Rightarrow>
   AccountCreateInput list \<Rightarrow> id \<Rightarrow> db \<Rightarrow> bulk_result \<times> db" where
  "bulkCreate env lower salts newIds auditId now input actorId d =
     (let (candidates, errors) = bulk_candidates env lower input d
      in if candidates = []
         then (\<lparr>br_created = 0, br_skipped = length input, br_errors = errors\<rparr>, d)
         else
          (let (count, d') = bulk_insert env (hashWithConcurrency env salts candidates) newIds auditId now
                 (length input) actorId d
           in (\<lparr>br_created = count, br_skipped = length input - count, br_errors = errors\<rparr>, d')))"

section \<open>Update and remove\<close>

definition account_missing :: api_error where
  "account_missing = NotFound [0xACC4, 0xC815, 0xC744, 0x20, 0xCC3E, 0xC744, 0x20, 0xC218, 0x20, 0xC5C6, 0xC2B5,
      0xB2C8, 0xB2E4, 0x2E]"

definition last_admin :: api_error where
  "last_admin = BadRequest [0xD65C, 0xC131, 0x20, 0xAD00, 0xB9AC, 0xC790, 0x20, 0xACC4, 0xC815, 0xC740, 0x20,
      0xCD5C, 0xC18C, 0x20, 0xD55C, 0x20, 0xAC1C, 0xAC00, 0x20, 0xD544, 0xC694, 0xD569,
      0xB2C8, 0xB2E4, 0x2E]"

definition active_admin :: "Account \<Rightarrow> bool" where
  "active_admin a \<longleftrightarrow> ac_role a = ADMIN \<and> ac_enabled a"

text \<open>The reads an update is guarded by.\<close>

definition update_refused :: "Account \<Rightarrow> AccountPatch \<Rightarrow> id \<Rightarrow> db \<Rightarrow> api_error option" where
  "update_refused current patch actorId d =
     (let nextRole = (case ap_role patch of None \<Rightarrow> ac_role current | Some r \<Rightarrow> r);
          nextEnabled = (case ap_enabled patch of None \<Rightarrow> ac_enabled current | Some e \<Rightarrow> e)
      in if ac_id current = actorId \<and> (nextRole \<noteq> ADMIN \<or> \<not> nextEnabled)
         then Some (BadRequest [0xD604, 0xC7AC, 0x20, 0xB85C, 0xADF8, 0xC778, 0xD55C, 0x20, 0xAD00, 0xB9AC, 0xC790,
      0x20, 0xACC4, 0xC815, 0xC758, 0x20, 0xAD8C, 0xD55C, 0xC774, 0xB098, 0x20, 0xC0C1,
      0xD0DC, 0xB294, 0x20, 0xBCC0, 0xACBD, 0xD560, 0x20, 0xC218, 0x20, 0xC5C6, 0xC2B5,
      0xB2C8, 0xB2E4, 0x2E])
         else if ac_role current = ADMIN \<and> ac_enabled current \<and> (nextRole \<noteq> ADMIN \<or> \<not> nextEnabled) \<and>
                 count_where active_admin (accounts d) \<le> 1
         then Some last_admin
         else None)"

definition patched :: "AccountPatch \<Rightarrow> jstring option \<Rightarrow> Account \<Rightarrow> Account" where
  "patched patch passwordHash a =
     a\<lparr>ac_username := (case ap_username patch of None \<Rightarrow> ac_username a | Some u \<Rightarrow> u),
       ac_passwordHash := (case passwordHash of None \<Rightarrow> ac_passwordHash a | Some h \<Rightarrow> h),
       ac_role := (case ap_role patch of None \<Rightarrow> ac_role a | Some r \<Rightarrow> r),
       ac_enabled := (case ap_enabled patch of None \<Rightarrow> ac_enabled a | Some e \<Rightarrow> e)\<rparr>"

definition write_account ::
  "crypto_env \<Rightarrow> Account \<Rightarrow> AccountPatch \<Rightarrow> jstring option \<Rightarrow> id \<Rightarrow> id \<Rightarrow> time \<Rightarrow> AccountView tx" where
  "write_account env current patch passwordHash auditId actorId now d =
     (let i = ac_id current; updated = patched patch passwordHash current
      in if account_clash env i (ac_username updated) (filter (\<lambda>a. ac_id a \<noteq> i) (accounts d))
         then Inl (DatabaseError (UniqueConstraint ''accounts_username_key''))
         else
          (let d1 = d\<lparr>accounts := update_where (\<lambda>a. ac_id a = i) (patched patch passwordHash) (accounts d)\<rparr>;
               d2 = (if passwordHash \<noteq> None \<or> ac_enabled current \<and> \<not> ac_enabled updated
                     then revoke_where (\<lambda>s. se_accountId s = i \<and> se_revokedAt s = None) now d1 else d1)
           in Inr (toAccountView updated,
                   write_audit (audit_row auditId actorId ''ACCOUNT_UPDATED'' ''Account'' i
                     (Some (JObj [(js ''username'', JStr (ac_username updated)),
                                  (js ''role'', JStr (js (role_name (ac_role updated)))),
                                  (js ''enabled'', JBool (ac_enabled updated))])) now) d2)))"

definition update_account_tx ::
  "crypto_env \<Rightarrow> id \<Rightarrow> AccountPatch \<Rightarrow> jstring option \<Rightarrow> id \<Rightarrow> id \<Rightarrow> time \<Rightarrow> AccountView tx" where
  "update_account_tx env i patch passwordHash auditId actorId now d =
     (case find_by ac_id i (accounts d) of None \<Rightarrow> Inl account_missing
      | Some current \<Rightarrow>
         (case update_refused current patch actorId d of Some e \<Rightarrow> Inl e
          | None \<Rightarrow> write_account env current patch passwordHash auditId actorId now d))"

definition new_hash :: "crypto_env \<Rightarrow> 8 word list \<Rightarrow> AccountPatch \<Rightarrow> jstring option" where
  "new_hash env salt patch =
     (case ap_password patch of None \<Rightarrow> None
      | Some p \<Rightarrow> if p = [] then None else Some (hashAccountPassword env salt p))"

definition update_account ::
  "crypto_env \<Rightarrow> 8 word list \<Rightarrow> id \<Rightarrow> AccountPatch \<Rightarrow> id \<Rightarrow> id \<Rightarrow> time \<Rightarrow> db \<Rightarrow>
   (api_error + AccountView) \<times> db" where
  "update_account env salt i patch auditId actorId now d =
     conflict_on_unique (transaction
       (update_account_tx env i patch (new_hash env salt patch) auditId actorId now) d)"

text \<open>The delete with what the foreign keys do.\<close>

definition delete_account :: "id \<Rightarrow> db \<Rightarrow> db" where
  "delete_account i d =
     d\<lparr>accounts := filter (\<lambda>a. ac_id a \<noteq> i) (accounts d),
       loginSessions := filter (\<lambda>s. se_accountId s \<noteq> i) (loginSessions d),
       monitors := update_where (\<lambda>m. mo_ownerAccountId m = Some i) (\<lambda>m. m\<lparr>mo_ownerAccountId := None\<rparr>) (monitors d)\<rparr>"

definition remove_account_tx :: "id \<Rightarrow> id \<Rightarrow> id \<Rightarrow> time \<Rightarrow> unit tx" where
  "remove_account_tx i auditId actorId now d =
     (case find_by ac_id i (accounts d) of None \<Rightarrow> Inl account_missing
      | Some current \<Rightarrow>
         if ac_role current = ADMIN \<and> ac_enabled current \<and> count_where active_admin (accounts d) \<le> 1
         then Inl last_admin
         else Inr ((), delete_account i (write_audit (audit_row auditId actorId ''ACCOUNT_DELETED'' ''Account'' i
                (Some (JObj [(js ''username'', JStr (ac_username current)),
                             (js ''role'', JStr (js (role_name (ac_role current))))])) now) d)))"

definition remove_account :: "id \<Rightarrow> id \<Rightarrow> id \<Rightarrow> time \<Rightarrow> db \<Rightarrow> (api_error + unit) \<times> db" where
  "remove_account i auditId actorId now d =
     (if i = actorId then (Inl (BadRequest [0xD604, 0xC7AC, 0x20, 0xB85C, 0xADF8, 0xC778, 0xD55C, 0x20, 0xACC4, 0xC815, 0xC740,
      0x20, 0xC0AD, 0xC81C, 0xD560, 0x20, 0xC218, 0x20, 0xC5C6, 0xC2B5, 0xB2C8, 0xB2E4, 0x2E]), d)
      else transaction (remove_account_tx i auditId actorId now) d)"

section \<open>The first account\<close>

text \<open>The two variables of the environment are arguments; \<open>None\<close> is an unset one.\<close>

definition bootstrap_admin ::
  "crypto_env \<Rightarrow> 8 word list \<Rightarrow> id \<Rightarrow> time \<Rightarrow> jstring option \<Rightarrow> jstring option \<Rightarrow> db \<Rightarrow> (js_error + unit) \<times> db" where
  "bootstrap_admin env salt newId now ADMIN_USERNAME ADMIN_PASSWORD d =
     (if accounts d \<noteq> [] then (Inr (), d)
      else
       (case (map_option js_trim ADMIN_USERNAME, ADMIN_PASSWORD) of
          (Some username, Some password) \<Rightarrow>
            if username = [] \<or> password = []
            then (Inl (PlainError ''ADMIN_USERNAME and ADMIN_PASSWORD are required to bootstrap the first account.''), d)
            else if length password < 4
            then (Inl (PlainError ''ADMIN_PASSWORD must contain at least 4 characters.''), d)
            else if password = js ''change-this-before-running''
            then (Inl (PlainError ''ADMIN_PASSWORD must be changed from the example value.''), d)
            else (Inr (), d\<lparr>accounts := [new_account newId now (hashAccountPassword env salt password)
                     \<lparr>ai_username = username, ai_password = password, ai_role = ADMIN, ai_enabled = True\<rparr>]\<rparr>)
        | _ \<Rightarrow> (Inl (PlainError ''ADMIN_USERNAME and ADMIN_PASSWORD are required to bootstrap the first account.''), d)))"

end
