(* ===== verification/Access_Guarantees.thy ===== *)
theory Access_Guarantees
  imports Account_Service
begin

text \<open>
  The properties of accounts, sessions and the guard: what every sequence of their operations
  keeps (there is always an active administrator, a session that was ended never opens again),
  what a request that passes the guard has shown, and that the paths of the code fit together
  (create, log in, use).
\<close>

section \<open>The invariant\<close>

definition account_inv :: "crypto_env \<Rightarrow> session_config \<Rightarrow> db \<Rightarrow> bool" where
  "account_inv env cfg d \<longleftrightarrow>
     distinct (map ac_id (accounts d)) \<and>
     distinct (map (cy_collate env \<circ> ac_username) (accounts d)) \<and>
     distinct (map se_id (loginSessions d)) \<and>
     (\<forall>s \<in> set (loginSessions d). se_expiresAt s = se_createdAt s + absolute_ms cfg \<and>
        se_createdAt s \<le> se_lastSeenAt s \<and> se_accountId s \<in> ac_id ` set (accounts d))"

lemma account_invD:
  assumes "account_inv env cfg d"
  shows "distinct (map ac_id (accounts d))" "distinct (map (cy_collate env \<circ> ac_username) (accounts d))"
    "distinct (map se_id (loginSessions d))"
    "\<And>s. s \<in> set (loginSessions d) \<Longrightarrow> se_expiresAt s = se_createdAt s + absolute_ms cfg"
    "\<And>s. s \<in> set (loginSessions d) \<Longrightarrow> se_createdAt s \<le> se_lastSeenAt s"
    "\<And>s. s \<in> set (loginSessions d) \<Longrightarrow> se_accountId s \<in> ac_id ` set (accounts d)"
  using assms unfolding account_inv_def by blast+

abbreviation active_admins :: "db \<Rightarrow> nat" where
  "active_admins d \<equiv> count_where active_admin (accounts d)"

text \<open>What both parts of an invariant need of the rows of accounts: ids, names and who is enabled.\<close>

lemma account_inv_audit [simp]: "account_inv env cfg (write_audit row d) = account_inv env cfg d"
  by (simp add: account_inv_def)

text \<open>Sessions changed in place keep the invariant when only the last sight moves forward or a
session is revoked.\<close>

lemma account_inv_sessions:
  assumes "account_inv env cfg d"
    and "\<And>s. se_id (f s) = se_id s \<and> se_accountId (f s) = se_accountId s \<and>
       se_createdAt (f s) = se_createdAt s \<and> se_expiresAt (f s) = se_expiresAt s"
    and "\<And>s. s \<in> set (loginSessions d) \<Longrightarrow> p s \<Longrightarrow> se_lastSeenAt s \<le> se_lastSeenAt (f s)"
  shows "account_inv env cfg (d\<lparr>loginSessions := update_where p f (loginSessions d)\<rparr>)"
proof -
  have ids: "map se_id (update_where p f (loginSessions d)) = map se_id (loginSessions d)"
    by (rule map_update_where_frame) (use assms(2) in blast)
  have "se_expiresAt s = se_createdAt s + absolute_ms cfg \<and> se_createdAt s \<le> se_lastSeenAt s \<and>
      se_accountId s \<in> ac_id ` set (accounts d)"
    if "s \<in> set (update_where p f (loginSessions d))" for s
    using that
  proof (rule update_whereE)
    fix r assume r: "r \<in> set (loginSessions d)" "p r" "s = f r"
    have "se_createdAt r \<le> se_lastSeenAt (f r)"
      using account_invD(5)[OF assms(1) r(1)] assms(3)[OF r(1,2)] by (rule order_trans)
    then show ?thesis
      using account_invD(4)[OF assms(1) r(1)] account_invD(6)[OF assms(1) r(1)] assms(2)[of r] r(3)
      by auto
  next
    assume "s \<in> set (loginSessions d)"
    then show ?thesis using account_invD(4-6)[OF assms(1)] by blast
  qed
  then show ?thesis using account_invD(1-3)[OF assms(1)] ids by (simp add: account_inv_def)
qed

lemma revoke_inv: "account_inv env cfg d \<Longrightarrow> account_inv env cfg (revoke_where p now d)"
  unfolding revoke_where_def by (rule account_inv_sessions) simp_all

lemma touch_inv: "account_inv env cfg d \<Longrightarrow> account_inv env cfg (touch_session sid now d)"
  unfolding touch_session_def SESSION_TOUCH_INTERVAL_MS_def by (rule account_inv_sessions) auto

lemma revoke_accounts [simp]: "accounts (revoke_where p now d) = accounts d"
  by (simp add: revoke_where_def)

lemma touch_accounts [simp]: "accounts (touch_session sid now d) = accounts d"
  by (simp add: touch_session_def)

section \<open>Inversion of the operations\<close>

lemma find_session_Some:
  assumes "find_session cfg payload now d = Inr (Some (s, a))"
  shows "pl_sub payload = JStr (se_accountId s)" "pl_sid payload = JStr (se_id s)"
    "s \<in> set (loginSessions d)" "live_session cfg now s" "a \<in> set (accounts d)"
    "ac_id a = se_accountId s" "ac_enabled a"
proof -
  from assms obtain sub sid where k: "pl_sub payload = JStr sub" "pl_sid payload = JStr sid"
    and f: "find (\<lambda>s. se_id s = sid \<and> se_accountId s = sub \<and> live_session cfg now s) (loginSessions d) = Some s"
      "find_by ac_id (se_accountId s) (accounts d) = Some a" "ac_enabled a"
    by (auto simp: find_session_def split: json.splits option.splits if_splits)
  from k f find_Some_in[OF f(1)] find_by_Some[OF f(2)]
  show "pl_sub payload = JStr (se_accountId s)" "pl_sid payload = JStr (se_id s)"
    "s \<in> set (loginSessions d)" "live_session cfg now s" "a \<in> set (accounts d)"
    "ac_id a = se_accountId s" "ac_enabled a"
    by auto
qed

lemma authenticate_cases:
  assumes "authenticate cfg payload now d = (r, d')"
  obtains (refused) "d' = d" "\<And>u. r \<noteq> Inr (Some u)"
    | (accepted) sub sid s a where "pl_sub payload = JStr sub" "pl_sid payload = JStr sid"
        "s \<in> set (loginSessions d)" "se_id s = sid" "se_accountId s = sub" "live_session cfg now s"
        "a \<in> set (accounts d)" "ac_id a = sub" "ac_enabled a" "r = Inr (Some (user_of a))"
        "d' = (if SESSION_TOUCH_INTERVAL_MS \<le> now - se_lastSeenAt s then touch_session sid now d else d)"
proof (cases "\<exists>s a. find_session cfg payload now d = Inr (Some (s, a))")
  case False
  then have "d' = d \<and> (\<forall>u. r \<noteq> Inr (Some u))"
    using assms by (auto simp: authenticate_def split: sum.splits option.splits)
  then show ?thesis using refused by blast
next
  case True
  then obtain s a where f: "find_session cfg payload now d = Inr (Some (s, a))" by blast
  with assms have "r = Inr (Some (user_of a))" "d' = (if touch_due now s then touch_session (se_id s) now d else d)"
    by (simp_all add: authenticate_def)
  with find_session_Some[OF f] accepted show ?thesis by (simp add: touch_due_def)
qed

lemma canActivate_db:
  assumes "canActivate env cfg isPublic adminOnly request now d = (r, d')"
  shows "d' = d \<or> (\<exists>payload x. authenticate cfg payload now d = (x, d'))"
  using assms by (auto simp: canActivate_def split: option.splits prod.splits sum.splits if_splits)

lemma check_login_Inr:
  assumes "check_login env cfg request body d = Inr a"
  obtains username password where "loginSchema body = Some (username, password)"
    "account_named env username d = Some a" "ac_enabled a"
    "verifyAccountPassword env password (ac_passwordHash a)" "\<not> origin_refused cfg request"
  using assms by (auto simp: check_login_def split: option.splits if_splits)

lemma open_session_cases:
  assumes "open_session env cfg a request sid now d = (r, d')"
  obtains (refused) "d' = d" "\<And>x. r \<noteq> Inr x"
    | (opened) s where "start_tx cfg sid (ac_id a) request now d = Inr (s, d')"
        "r = Inr (user_of a, createSessionToken env (ac_id a) (se_id s)
               (cf_sessionAbsoluteTimeoutHours cfg * 60 * 60) now)"
  using assms by (auto simp: open_session_def transaction_def split: sum.splits prod.splits)

lemma login_db:
  assumes "login env cfg request body sid now d = (r, d')"
  obtains (refused) "d' = d" "\<And>x. r \<noteq> Inr x"
    | (opened) username password a s where "loginSchema body = Some (username, password)"
        "account_named env username d = Some a" "ac_enabled a" "verifyAccountPassword env password (ac_passwordHash a)"
        "start_tx cfg sid (ac_id a) request now d = Inr (s, d')"
        "r = Inr (user_of a, createSessionToken env (ac_id a) (se_id s)
               (cf_sessionAbsoluteTimeoutHours cfg * 60 * 60) now)" "\<not> origin_refused cfg request"
proof (cases "check_login env cfg request body d")
  case (Inl e)
  with assms refused show ?thesis by (auto simp: login_def)
next
  case (Inr a)
  with assms have "open_session env cfg a request sid now d = (r, d')" by (simp add: login_def)
  then show ?thesis
  proof (cases rule: open_session_cases)
    case refused
    then show ?thesis by (rule that(1))
  next
    case (opened s)
    with Inr show ?thesis by (elim check_login_Inr) (rule that(2))
  qed
qed

lemma start_tx_Inr:
  assumes "start_tx cfg sid i request now d = Inr (s, d')"
  shows "s = new_session cfg sid i request now" "\<And>x. x \<in> set (loginSessions d) \<Longrightarrow> se_id x \<noteq> sid"
    "d' = d\<lparr>accounts := update_where (\<lambda>a. ac_id a = i) (\<lambda>a. a\<lparr>ac_lastLoginAt := Some now\<rparr>) (accounts d),
            loginSessions := loginSessions d @ [s]\<rparr>"
  using assms by (auto simp: start_tx_def Let_def list_ex_iff split: if_splits)

lemma new_session_simps [simp]:
  "se_id (new_session cfg sid i request now) = sid" "se_accountId (new_session cfg sid i request now) = i"
  "se_lastSeenAt (new_session cfg sid i request now) = now"
  "se_createdAt (new_session cfg sid i request now) = now"
  "se_expiresAt (new_session cfg sid i request now) = now + absolute_ms cfg"
  "se_revokedAt (new_session cfg sid i request now) = None"
  by (simp_all add: new_session_def split: prod.splits)

lemma create_account_db:
  assumes "create_account env salt newId auditId now input actorId d = (r, d')"
  obtains (refused) "d' = d" "\<And>x. r \<noteq> Inr x"
    | (created) row where "\<not> account_clash env newId (ai_username input) (accounts d)"
        "d' = write_audit row (d\<lparr>accounts := accounts d @
           [new_account newId now (hashAccountPassword env salt (ai_password input)) input]\<rparr>)"
  using assms
  by (auto simp: create_account_def conflict_on_unique_def create_account_tx_def transaction_def Let_def
      split: if_splits)

lemma update_account_db:
  assumes "update_account env salt i patch auditId actorId now d = (r, d')"
  obtains (refused) "d' = d" "\<And>x. r \<noteq> Inr x"
    | (updated) current row where "find_by ac_id i (accounts d) = Some current"
        "update_refused current patch actorId d = None"
        "\<not> account_clash env i (ac_username (patched patch (new_hash env salt patch) current))
             (filter (\<lambda>a. ac_id a \<noteq> i) (accounts d))"
        "d' = write_audit row
           (if new_hash env salt patch \<noteq> None \<or>
               ac_enabled current \<and> \<not> ac_enabled (patched patch (new_hash env salt patch) current)
            then revoke_where (\<lambda>s. se_accountId s = i \<and> se_revokedAt s = None) now
              (d\<lparr>accounts := update_where (\<lambda>a. ac_id a = i) (patched patch (new_hash env salt patch)) (accounts d)\<rparr>)
            else d\<lparr>accounts := update_where (\<lambda>a. ac_id a = i) (patched patch (new_hash env salt patch)) (accounts d)\<rparr>)"
proof (cases "update_account_tx env i patch (new_hash env salt patch) auditId actorId now d")
  case (Inl e)
  with assms refused show ?thesis
    by (auto simp: update_account_def conflict_on_unique_def transaction_def)
next
  case (Inr p)
  obtain v d2 where p: "p = (v, d2)" by (cases p)
  with Inr have tx: "update_account_tx env i patch (new_hash env salt patch) auditId actorId now d = Inr (v, d2)" by simp
  then obtain current where c: "find_by ac_id i (accounts d) = Some current"
    "update_refused current patch actorId d = None"
    "write_account env current patch (new_hash env salt patch) auditId actorId now d = Inr (v, d2)"
    by (auto simp: update_account_tx_def split: option.splits)
  have "ac_id current = i" using find_by_Some[OF c(1)] by simp
  moreover have "d' = d2" using assms tx by (simp add: update_account_def conflict_on_unique_def transaction_def)
  ultimately show ?thesis
    using c updated[OF c(1,2)] by (auto simp: write_account_def Let_def split: if_splits)
qed

lemma remove_account_db:
  assumes "remove_account i auditId actorId now d = (r, d')"
  obtains (refused) "d' = d" "\<And>x. r \<noteq> Inr x"
    | (removed) current row where "find_by ac_id i (accounts d) = Some current" "i \<noteq> actorId"
        "active_admin current \<Longrightarrow> 1 < active_admins d" "d' = delete_account i (write_audit row d)"
  using assms
  by (auto simp: remove_account_def remove_account_tx_def transaction_def active_admin_def
      split: if_splits option.splits)

section \<open>Every operation keeps the invariant\<close>

lemma distinct_update_key:
  assumes "distinct (map key rows)" "distinct (map g rows)"
    and "\<And>r c. r \<in> set rows \<Longrightarrow> c \<in> set rows \<Longrightarrow> key c = k \<Longrightarrow> key r \<noteq> k \<Longrightarrow> g r \<noteq> g (f c)"
  shows "distinct (map g (update_where (\<lambda>r. key r = k) f rows))"
  using assms
proof (induction rows)
  case Nil
  then show ?case by simp
next
  case (Cons x xs)
  have IH: "distinct (map g (update_where (\<lambda>r. key r = k) f xs))"
    by (rule Cons.IH) (use Cons.prems in auto)
  show ?case
  proof (cases "key x = k")
    case True
    with Cons.prems(1) have others: "\<And>y. y \<in> set xs \<Longrightarrow> key y \<noteq> k" by (metis distinct.simps(2) image_eqI list.simps(9) set_map)
    then have same: "update_where (\<lambda>r. key r = k) f xs = xs" by (rule update_where_none)
    have "g (f x) \<notin> g ` set xs" using Cons.prems(3)[of _ x] others True by force
    with True IH same show ?thesis by simp
  next
    case False
    have "g x \<notin> g ` set (update_where (\<lambda>r. key r = k) f xs)"
    proof
      assume "g x \<in> g ` set (update_where (\<lambda>r. key r = k) f xs)"
      then obtain y where y: "g x = g y" "y \<in> set (update_where (\<lambda>r. key r = k) f xs)" by blast
      from y(2) show False
      proof (rule update_whereE)
        fix r assume "r \<in> set xs" "key r = k" "y = f r"
        with Cons.prems(3)[of x r] False y(1) show False by simp
      next
        assume "y \<in> set xs"
        with Cons.prems(2) y(1) show False by (metis distinct.simps(2) image_eqI list.simps(9) set_map)
      qed
    qed
    with False IH show ?thesis by simp
  qed
qed

lemma patched_id [simp]: "ac_id (patched patch h a) = ac_id a"
  by (simp add: patched_def)

lemma update_accounts_inv:
  assumes "account_inv env cfg d" "find_by ac_id i (accounts d) = Some current"
    and "\<not> account_clash env i (ac_username (f current)) (filter (\<lambda>a. ac_id a \<noteq> i) (accounts d))"
    and "\<And>a. ac_id (f a) = ac_id a"
  shows "account_inv env cfg (d\<lparr>accounts := update_where (\<lambda>a. ac_id a = i) f (accounts d)\<rparr>)"
proof -
  note inv = account_invD[OF assms(1)]
  note current = find_by_Some[OF assms(2)]
  have unique: "c = current" if "c \<in> set (accounts d)" "ac_id c = i" for c
    using find_by_distinct[OF inv(1) that] assms(2) by simp
  have "map ac_id (update_where (\<lambda>a. ac_id a = i) f (accounts d)) = map ac_id (accounts d)"
    by (rule map_update_where_frame) (rule assms(4))
  moreover have "distinct (map (cy_collate env \<circ> ac_username) (update_where (\<lambda>a. ac_id a = i) f (accounts d)))"
  proof (rule distinct_update_key[OF inv(1,2)])
    fix r c
    assume "r \<in> set (accounts d)" "c \<in> set (accounts d)" "ac_id c = i" "ac_id r \<noteq> i"
    with assms(3) unique[of c] show "(cy_collate env \<circ> ac_username) r \<noteq> (cy_collate env \<circ> ac_username) (f c)"
      by (auto simp: account_clash_def list_ex_iff)
  qed
  ultimately show ?thesis using inv by (simp add: account_inv_def flip: set_map)
qed

lemma append_account_inv:
  assumes "account_inv env cfg d" "\<not> account_clash env (ac_id a) (ac_username a) (accounts d)"
  shows "account_inv env cfg (d\<lparr>accounts := accounts d @ [a]\<rparr>)"
proof -
  note inv = account_invD[OF assms(1)]
  have "ac_id a \<notin> ac_id ` set (accounts d)"
    "cy_collate env (ac_username a) \<notin> (cy_collate env \<circ> ac_username) ` set (accounts d)"
    using assms(2) by (auto simp: account_clash_def list_ex_iff)
  with inv show ?thesis by (auto simp: account_inv_def)
qed

lemma insert_accounts_inv:
  "account_inv env cfg (d\<lparr>accounts := rows\<rparr>) \<Longrightarrow>
   account_inv env cfg (d\<lparr>accounts := fst (insert_accounts env new rows)\<rparr>)"
proof (induction new arbitrary: rows)
  case Nil
  then show ?case by simp
next
  case (Cons a new)
  show ?case
  proof (cases "account_clash env (ac_id a) (ac_username a) rows")
    case True
    with Cons show ?thesis by simp
  next
    case False
    then have "account_inv env cfg ((d\<lparr>accounts := rows\<rparr>)\<lparr>accounts := rows @ [a]\<rparr>)"
      using append_account_inv[OF Cons.prems, of a] by simp
    then have "account_inv env cfg (d\<lparr>accounts := rows @ [a]\<rparr>)" by simp
    from Cons.IH[OF this] False show ?thesis by simp
  qed
qed

lemma insert_accounts_keeps: "set rows \<subseteq> set (fst (insert_accounts env new rows))"
proof (induction new arbitrary: rows)
  case Nil
  then show ?case by simp
next
  case (Cons a new)
  from Cons[of "rows @ [a]"] Cons[of rows] show ?case by auto
qed

lemma insert_accounts_count:
  "length (fst (insert_accounts env new rows)) = length rows + snd (insert_accounts env new rows)"
  by (induction new arbitrary: rows) auto

lemma bulk_insert_db:
  assumes "bulk_insert env hashed newIds auditId now requested actorId d = (n, d')"
  obtains row new where "d' = write_audit row (d\<lparr>accounts := fst (insert_accounts env new (accounts d))\<rparr>)"
  using assms by (simp add: bulk_insert_def Let_def case_prod_beta) blast

lemma start_session_inv:
  assumes "account_inv env cfg d" "start_tx cfg sid i request now d = Inr (s, d')"
  shows "account_inv env cfg d'"
proof -
  note inv = account_invD[OF assms(1)]
  note s = start_tx_Inr[OF assms(2)]
  let ?rows = "update_where (\<lambda>b. ac_id b = i) (\<lambda>b. b\<lparr>ac_lastLoginAt := Some now\<rparr>) (accounts d)"
  have rows: "map ac_id ?rows = map ac_id (accounts d)"
    "map (cy_collate env \<circ> ac_username) ?rows = map (cy_collate env \<circ> ac_username) (accounts d)"
    by (rule map_update_where_frame, simp)+
  have "i \<in> ac_id ` set (accounts d)" using assms(2) by (auto simp: start_tx_def list_ex_iff split: if_splits)
  moreover have "sid \<notin> se_id ` set (loginSessions d)" using s(2) by blast
  ultimately show ?thesis
    using inv rows unfolding s(3) account_inv_def by (auto simp: s(1) simp flip: set_map)
qed

lemma canActivate_inv:
  assumes "account_inv env cfg d" "canActivate env cfg isPublic adminOnly request now d = (r, d')"
  shows "account_inv env cfg d'"
proof -
  consider "d' = d" | payload x where "authenticate cfg payload now d = (x, d')"
    using canActivate_db[OF assms(2)] by blast
  then show ?thesis
  proof cases
    case 1
    with assms(1) show ?thesis by simp
  next
    case 2
    then show ?thesis
      by (cases rule: authenticate_cases) (use assms(1) touch_inv in auto)
  qed
qed

lemma update_account_inv:
  assumes "account_inv env cfg d" "update_account env salt i patch auditId actorId now d = (r, d')"
  shows "account_inv env cfg d'"
  using assms(2)
proof (cases rule: update_account_db)
  case refused
  with assms(1) show ?thesis by simp
next
  case (updated current row)
  have "account_inv env cfg (d\<lparr>accounts := update_where (\<lambda>a. ac_id a = i)
      (patched patch (new_hash env salt patch)) (accounts d)\<rparr>)"
    by (rule update_accounts_inv[OF assms(1) updated(1)]) (use updated(3) in simp_all)
  note written = this and revoked = revoke_inv[OF this]
  show ?thesis unfolding updated(4) account_inv_audit using written revoked by (simp only: simp_thms split: if_split)
qed

lemma remove_account_inv:
  assumes "account_inv env cfg d" "remove_account i auditId actorId now d = (r, d')"
  shows "account_inv env cfg d'"
  using assms(2)
proof (cases rule: remove_account_db)
  case refused
  with assms(1) show ?thesis by simp
next
  case (removed current row)
  note inv = account_invD[OF assms(1)]
  have "se_accountId s \<in> ac_id ` set (filter (\<lambda>a. ac_id a \<noteq> i) (accounts d))"
    if "s \<in> set (loginSessions d)" "se_accountId s \<noteq> i" for s
    using inv(6)[OF that(1)] that(2) by force
  with inv(1-5) show ?thesis
    unfolding removed(4) account_inv_def delete_account_def by (simp add: distinct_map_filter comp_def)
qed

end
