(* ===== verification/Access_System.thy ===== *)
theory Access_System
  imports Access_Guarantees
begin

text \<open>
  The operations on accounts and sessions as one system of events, and what holds of every run
  of it: administrators remain, ended sessions stay ended, an accepted request is justified.
\<close>

section \<open>Events\<close>

text \<open>
  An operation of one transaction is one event. An operation that reads first and writes later is
  two: its reading part is an event that leaves what it is going to write with the pending writes,
  and any number of other events later, or never, \<open>Perform k\<close> runs the \<open>k\<close>-th of them as its own
  transaction, on the database it then finds. So a login whose password was verified, the touch
  of a session, the revocation of one session and the insertion of a file of accounts may all
  meet a database that has changed since they looked.
\<close>

datatype access_write =
    OpenSession Account web_request
  | TouchSession id time
  | RevokeRow LoginSession id
  | InsertAccounts "(nat \<times> AccountCreateInput \<times> jstring) list" nat id

fun perform ::
  "crypto_env \<Rightarrow> session_config \<Rightarrow> (nat \<Rightarrow> id) \<Rightarrow> id \<Rightarrow> time \<Rightarrow> access_write \<Rightarrow> db \<Rightarrow> db" where
  "perform env cfg newIds auditId now (OpenSession account request) d =
     snd (open_session env cfg account request (newIds 0) now d)"
| "perform env cfg newIds auditId now (TouchSession sid seen) d = touch_session sid seen d"
| "perform env cfg newIds auditId now (RevokeRow session actorId) d =
     snd (transaction (revoke_tx auditId session actorId now) d)"
| "perform env cfg newIds auditId now (InsertAccounts hashed requested actorId) d =
     snd (bulk_insert env hashed newIds auditId now requested actorId d)"

text \<open>What the reading parts leave to be written.\<close>

definition login_write ::
  "crypto_env \<Rightarrow> session_config \<Rightarrow> web_request \<Rightarrow> json \<Rightarrow> db \<Rightarrow> access_write list" where
  "login_write env cfg request body d =
     (case check_login env cfg request body d of Inl _ \<Rightarrow> [] | Inr account \<Rightarrow> [OpenSession account request])"

definition touch_write ::
  "crypto_env \<Rightarrow> session_config \<Rightarrow> bool \<Rightarrow> web_request \<Rightarrow> time \<Rightarrow> db \<Rightarrow> access_write list" where
  "touch_write env cfg isPublic request now d =
     (if isPublic then []
      else (case request_payload env request now of None \<Rightarrow> []
            | Some payload \<Rightarrow>
                (case find_session cfg payload now d of
                   Inr (Some (session, _)) \<Rightarrow>
                     if touch_due now session then [TouchSession (se_id session) now] else []
                 | _ \<Rightarrow> [])))"

definition revoke_write :: "id \<Rightarrow> id \<Rightarrow> id \<Rightarrow> db \<Rightarrow> access_write list" where
  "revoke_write sid currentSessionId actorId d =
     (case revocable sid currentSessionId d of Inl _ \<Rightarrow> [] | Inr session \<Rightarrow> [RevokeRow session actorId])"

definition bulk_write ::
  "crypto_env \<Rightarrow> (jstring \<Rightarrow> jstring) \<Rightarrow> (nat \<Rightarrow> 8 word list) \<Rightarrow> AccountCreateInput list \<Rightarrow> id \<Rightarrow> db \<Rightarrow>
   access_write list" where
  "bulk_write env lower salts input actorId d =
     (case bulk_candidates env lower input d of
        ([], _) \<Rightarrow> []
      | (candidates, _) \<Rightarrow> [InsertAccounts (hashWithConcurrency env salts candidates) (length input) actorId])"

datatype access_event =
    Login web_request json
  | Request bool web_request time
  | RevokeSession id id id
  | CreateAccounts "nat \<Rightarrow> 8 word list" "AccountCreateInput list" id
  | Perform nat "nat \<Rightarrow> id" id time
  | Logout id time
  | RevokeSessions id id time
  | CreateAccount "8 word list" id id time AccountCreateInput id
  | UpdateAccount "8 word list" id AccountPatch id id time
  | RemoveAccount id id id time

type_synonym access_state = "db \<times> access_write list"

fun access_step ::
  "crypto_env \<Rightarrow> session_config \<Rightarrow> (jstring \<Rightarrow> jstring) \<Rightarrow> access_state \<Rightarrow> access_event \<Rightarrow> access_state" where
  "access_step env cfg lower (d, ws) (Login request body) = (d, ws @ login_write env cfg request body d)"
| "access_step env cfg lower (d, ws) (Request isPublic request now) =
     (d, ws @ touch_write env cfg isPublic request now d)"
| "access_step env cfg lower (d, ws) (RevokeSession sid currentSessionId actorId) =
     (d, ws @ revoke_write sid currentSessionId actorId d)"
| "access_step env cfg lower (d, ws) (CreateAccounts salts input actorId) =
     (d, ws @ bulk_write env lower salts input actorId d)"
| "access_step env cfg lower (d, ws) (Perform k newIds auditId now) =
     (if k < length ws then (perform env cfg newIds auditId now (ws ! k) d, take k ws @ drop (Suc k) ws)
      else (d, ws))"
| "access_step env cfg lower (d, ws) (Logout sid now) = (logout sid now d, ws)"
| "access_step env cfg lower (d, ws) (RevokeSessions auditId actorId now) =
     (snd (revokeAll auditId actorId now d), ws)"
| "access_step env cfg lower (d, ws) (CreateAccount salt newId auditId now input actorId) =
     (snd (create_account env salt newId auditId now input actorId d), ws)"
| "access_step env cfg lower (d, ws) (UpdateAccount salt i patch auditId actorId now) =
     (snd (update_account env salt i patch auditId actorId now d), ws)"
| "access_step env cfg lower (d, ws) (RemoveAccount i auditId actorId now) =
     (snd (remove_account i auditId actorId now d), ws)"

text \<open>Run without a pause, the two parts are the operation.\<close>

lemma parts_make_operations:
  "snd (login env cfg request body sid now d) =
     fold (perform env cfg (\<lambda>_. sid) auditId now) (login_write env cfg request body d) d"
  "snd (canActivate env cfg isPublic adminOnly request now d) =
     fold (perform env cfg newIds auditId now) (touch_write env cfg isPublic request now d) d"
  "snd (revokeOne auditId sid currentSessionId actorId now d) =
     fold (perform env cfg newIds auditId now) (revoke_write sid currentSessionId actorId d) d"
  "snd (bulkCreate env lower salts newIds auditId now input actorId d) =
     fold (perform env cfg newIds auditId now) (bulk_write env lower salts input actorId d) d"
  by (auto simp: login_def login_write_def canActivate_def authenticate_def touch_write_def revokeOne_def
      revoke_write_def bulkCreate_def bulk_write_def Let_def
      split: sum.splits option.splits prod.splits list.splits)

section \<open>The steps keep the invariant\<close>

lemma revoke_tx_db:
  assumes "transaction (revoke_tx auditId session actorId now) d = (r, d')"
  obtains (missing) "d' = d" "\<forall>s \<in> set (loginSessions d). se_id s \<noteq> se_id session"
    | (revoked) row where "d' = write_audit row (revoke_where (\<lambda>s. se_id s = se_id session) now d)"
  using assms by (auto simp: transaction_def revoke_tx_def list_ex_iff split: if_splits)

lemma perform_inv:
  assumes "account_inv env cfg d"
  shows "account_inv env cfg (perform env cfg newIds auditId now w d)"
proof (cases w)
  case (OpenSession a request)
  obtain r d' where r: "open_session env cfg a request (newIds 0) now d = (r, d')" by fastforce
  then have "account_inv env cfg d'"
    by (cases rule: open_session_cases) (use assms start_session_inv in auto)
  with r OpenSession show ?thesis by simp
next
  case (TouchSession sid seen)
  with assms touch_inv show ?thesis by simp
next
  case (RevokeRow session actorId)
  obtain r d' where r: "transaction (revoke_tx auditId session actorId now) d = (r, d')" by fastforce
  then have "account_inv env cfg d'"
    by (cases rule: revoke_tx_db) (use assms revoke_inv in simp_all)
  with r RevokeRow show ?thesis by simp
next
  case (InsertAccounts hashed requested actorId)
  obtain n d' where n: "bulk_insert env hashed newIds auditId now requested actorId d = (n, d')" by fastforce
  then obtain row new where "d' = write_audit row (d\<lparr>accounts := fst (insert_accounts env new (accounts d))\<rparr>)"
    by (rule bulk_insert_db)
  with n InsertAccounts insert_accounts_inv[where d = d and rows = "accounts d"] assms show ?thesis by simp
qed

lemma step_account_inv:
  assumes "account_inv env cfg (fst s)"
  shows "account_inv env cfg (fst (access_step env cfg lower s e))"
proof -
  obtain d ws where s: "s = (d, ws)" by (cases s)
  with assms have inv: "account_inv env cfg d" by simp
  have "account_inv env cfg (fst (access_step env cfg lower (d, ws) e))"
  proof (cases e)
    case (Perform k newIds auditId now)
    with inv perform_inv show ?thesis by simp
  next
    case (Logout sid now)
    with inv revoke_inv show ?thesis by (simp add: logout_def revokeCurrent_def)
  next
    case (RevokeSessions auditId actorId now)
    with inv revoke_inv show ?thesis by (simp add: revokeAll_def Let_def)
  next
    case (CreateAccount salt newId auditId now input actorId)
    obtain r d' where r: "create_account env salt newId auditId now input actorId d = (r, d')" by fastforce
    then have "account_inv env cfg d'"
      by (cases rule: create_account_db) (use inv append_account_inv in \<open>simp_all add: new_account_def\<close>)
    with r CreateAccount show ?thesis by simp
  next
    case (UpdateAccount salt i patch auditId actorId now)
    with update_account_inv[OF inv] show ?thesis by (metis access_step.simps(9) fst_conv prod.collapse)
  next
    case (RemoveAccount i auditId actorId now)
    with remove_account_inv[OF inv] show ?thesis by (metis access_step.simps(10) fst_conv prod.collapse)
  qed (use inv in simp_all)
  with s show ?thesis by simp
qed

section \<open>Administrators remain\<close>

definition administered_inv :: "crypto_env \<Rightarrow> session_config \<Rightarrow> db \<Rightarrow> bool" where
  "administered_inv env cfg d \<longleftrightarrow> account_inv env cfg d \<and> 0 < active_admins d"

lemma count_where_grows: "(\<And>r. r \<in> set rows \<Longrightarrow> p r \<Longrightarrow> p (f r)) \<Longrightarrow>
  count_where p rows \<le> count_where p (update_where q f rows)"
  by (induction rows) (auto simp: le_SucI)

lemma insert_accounts_prefix: "\<exists>zs. fst (insert_accounts env new rows) = rows @ zs"
proof (induction new arbitrary: rows)
  case Nil
  then show ?case by simp
next
  case (Cons a new)
  from Cons[of rows] Cons[of "rows @ [a]"] show ?case by auto
qed

lemma update_keeps_admin:
  assumes "distinct (map ac_id (accounts d))" "find_by ac_id i (accounts d) = Some current"
    and "update_refused current patch actorId d = None" "0 < active_admins d"
  shows "0 < count_where active_admin (update_where (\<lambda>a. ac_id a = i) (patched patch h) (accounts d))"
proof -
  note current = find_by_Some[OF assms(2)]
  have count: "count_where active_admin (update_where (\<lambda>a. ac_id a = i) (patched patch h) (accounts d))
      = active_admins d - (if active_admin current then 1 else 0) +
        (if active_admin (patched patch h current) then 1 else 0)"
    by (rule count_where_update_key) (use assms(1) current in simp_all)
  have "active_admin current \<Longrightarrow> \<not> active_admin (patched patch h current) \<Longrightarrow> 1 < active_admins d"
    using assms(3) by (auto simp: update_refused_def active_admin_def patched_def Let_def split: option.splits if_splits)
  with count assms(4) show ?thesis by auto
qed

lemma count_where_split:
  "count_where p rows = count_where p (filter (\<lambda>r. key r \<noteq> k) rows) + count_where (\<lambda>r. key r = k \<and> p r) rows"
  by (induction rows) auto

lemma remove_keeps_admin:
  assumes "distinct (map ac_id (accounts d))" "find_by ac_id i (accounts d) = Some current"
    and "active_admin current \<Longrightarrow> 1 < active_admins d" "0 < active_admins d"
  shows "0 < count_where active_admin (filter (\<lambda>a. ac_id a \<noteq> i) (accounts d))"
proof -
  note current = find_by_Some[OF assms(2)]
  have split: "active_admins d = count_where active_admin (filter (\<lambda>a. ac_id a \<noteq> i) (accounts d)) +
      count_where (\<lambda>a. ac_id a = i \<and> active_admin a) (accounts d)"
    by (rule count_where_split)
  have "count_where (\<lambda>a. ac_id a = i \<and> active_admin a) (accounts d) \<le> 1"
    by (rule count_where_key) (rule assms(1))
  moreover have "\<not> active_admin current \<Longrightarrow> count_where (\<lambda>a. ac_id a = i \<and> active_admin a) (accounts d) = 0"
    using find_by_distinct[OF assms(1), of _ i] assms(2) by (auto simp: count_where_zero_iff)
  ultimately show ?thesis using split assms(3,4) by linarith
qed

lemma perform_admins: "active_admins d \<le> active_admins (perform env cfg newIds auditId now w d)"
proof (cases w)
  case (OpenSession a request)
  obtain r d' where r: "open_session env cfg a request (newIds 0) now d = (r, d')" by fastforce
  then have "active_admins d \<le> active_admins d'"
  proof (cases rule: open_session_cases)
    case (opened s)
    show ?thesis unfolding start_tx_Inr(3)[OF opened(1)]
      by simp (rule count_where_grows, simp add: active_admin_def)
  qed simp
  with r OpenSession show ?thesis by simp
next
  case (TouchSession sid seen)
  then show ?thesis by simp
next
  case (RevokeRow session actorId)
  obtain r d' where r: "transaction (revoke_tx auditId session actorId now) d = (r, d')" by fastforce
  then have "accounts d' = accounts d" by (cases rule: revoke_tx_db) simp_all
  with r RevokeRow show ?thesis by simp
next
  case (InsertAccounts hashed requested actorId)
  obtain n d' where n: "bulk_insert env hashed newIds auditId now requested actorId d = (n, d')" by fastforce
  then obtain row new where "d' = write_audit row (d\<lparr>accounts := fst (insert_accounts env new (accounts d))\<rparr>)"
    by (rule bulk_insert_db)
  with n InsertAccounts insert_accounts_prefix[of env new "accounts d"] show ?thesis by auto
qed

lemma step_admin:
  assumes "administered_inv env cfg (fst s)"
  shows "0 < active_admins (fst (access_step env cfg lower s e))"
proof -
  obtain d ws where s: "s = (d, ws)" by (cases s)
  with assms have inv: "account_inv env cfg d" and admin: "0 < active_admins d"
    by (simp_all add: administered_inv_def)
  note ids = account_invD(1)[OF inv]
  have "0 < active_admins (fst (access_step env cfg lower (d, ws) e))"
  proof (cases e)
    case (Perform k newIds auditId now)
    with admin perform_admins[of d env cfg newIds auditId now "ws ! k"] show ?thesis by simp
  next
    case (CreateAccount salt newId auditId now input actorId)
    obtain r d' where r: "create_account env salt newId auditId now input actorId d = (r, d')" by fastforce
    then have "active_admins d \<le> active_admins d'" by (cases rule: create_account_db) simp_all
    with admin r CreateAccount show ?thesis by simp
  next
    case (UpdateAccount salt i patch auditId actorId now)
    obtain r d' where r: "update_account env salt i patch auditId actorId now d = (r, d')" by fastforce
    then have "0 < active_admins d'"
    proof (cases rule: update_account_db)
      case (updated current row)
      show ?thesis unfolding updated(4) using update_keeps_admin[OF ids updated(1,2) admin] by simp
    qed (use admin in simp)
    with r UpdateAccount show ?thesis by simp
  next
    case (RemoveAccount i auditId actorId now)
    obtain r d' where r: "remove_account i auditId actorId now d = (r, d')" by fastforce
    then have "0 < active_admins d'"
    proof (cases rule: remove_account_db)
      case (removed current row)
      show ?thesis unfolding removed(4)
        using remove_keeps_admin[OF ids removed(1,3) admin] by (simp add: delete_account_def)
    qed (use admin in simp)
    with r RemoveAccount show ?thesis by simp
  qed (use admin in \<open>simp_all add: logout_def revokeCurrent_def revokeAll_def Let_def\<close>)
  with s show ?thesis by simp
qed

interpretation access: invariant_system "access_step env cfg lower" "\<lambda>s. administered_inv env cfg (fst s)"
  for env cfg lower
  by unfold_locales (use step_account_inv step_admin in \<open>simp add: administered_inv_def\<close>)

text \<open>C11. There is always somebody who can administer: from the account the bootstrap creates, no
sequence of the parts of logins, requests, session revocations and account operations, whoever
asks for them, whether they succeed and in whatever order the parts of different requests
interleave (each transaction taking effect after the one before), reaches a database without an
enabled administrator, with two accounts of one id or one name, or with a session whose account is
gone or that lasts longer than the absolute timeout.\<close>

theorem administrators_remain:
  assumes "bootstrap_admin env salt i now name password empty_db = (Inr (), d)"
    and "foldl (access_step env cfg lower) (d, []) es = (d', ws)"
  shows "(\<exists>a \<in> set (accounts d'). ac_role a = ADMIN \<and> ac_enabled a) \<and>
    distinct (map ac_id (accounts d')) \<and> distinct (map (cy_collate env \<circ> ac_username) (accounts d')) \<and>
    (\<forall>s \<in> set (loginSessions d'). (\<exists>a \<in> set (accounts d'). ac_id a = se_accountId s) \<and>
       se_expiresAt s = se_createdAt s + absolute_ms cfg)"
proof -
  have "administered_inv env cfg d"
    using assms(1) by (auto simp: bootstrap_admin_def empty_db_def administered_inv_def account_inv_def
        new_account_def active_admin_def split: option.splits if_splits)
  then have "administered_inv env cfg (fst (foldl (access_step env cfg lower) (d, []) es))"
    by (intro access.run_inv) simp
  with assms(2) have inv: "account_inv env cfg d'" and admin: "0 < active_admins d'"
    by (simp_all add: administered_inv_def)
  from admin have "\<exists>a \<in> set (accounts d'). active_admin a"
    using count_where_zero_iff[of active_admin "accounts d'"] by auto
  with account_invD[OF inv] show ?thesis by (fastforce simp: active_admin_def)
qed

section \<open>Ended sessions\<close>

definition ended :: "id \<Rightarrow> db \<Rightarrow> bool" where
  "ended sid d \<longleftrightarrow> (\<forall>s \<in> set (loginSessions d). se_id s = sid \<longrightarrow> se_revokedAt s \<noteq> None)"

text \<open>A session is new under the id its transaction draws.\<close>

fun opens_session :: "access_event \<Rightarrow> id \<Rightarrow> bool" where
  "opens_session (Perform k newIds auditId now) x = (newIds 0 = x)"
| "opens_session _ x = False"

text \<open>
  The events that end a session \<open>s\<close>. A patch that disables an account revokes its sessions when
  the account was enabled.
\<close>

fun ends_session :: "crypto_env \<Rightarrow> access_state \<Rightarrow> LoginSession \<Rightarrow> access_event \<Rightarrow> bool" where
  "ends_session env (d, ws) s (Logout sid now) = (sid = se_id s)"
| "ends_session env (d, ws) s (Perform k newIds auditId now) =
     (k < length ws \<and> (case ws ! k of RevokeRow row actorId \<Rightarrow> se_id row = se_id s | _ \<Rightarrow> False))"
| "ends_session env (d, ws) s (RevokeSessions auditId actorId now) = True"
| "ends_session env (d, ws) s (UpdateAccount salt i patch auditId actorId now) =
     (i = se_accountId s \<and>
      (new_hash env salt patch \<noteq> None \<or>
       ap_enabled patch = Some False \<and> list_ex (\<lambda>a. ac_id a = i \<and> ac_enabled a) (accounts d)) \<and>
      (\<exists>v. fst (update_account env salt i patch auditId actorId now d) = Inr v))"
| "ends_session env (d, ws) s (RemoveAccount i auditId actorId now) =
     (i = se_accountId s \<and> fst (remove_account i auditId actorId now d) = Inr ())"
| "ends_session env (d, ws) s _ = False"

lemma ended_update:
  assumes "ended sid d" "\<And>s. se_id (f s) = se_id s" "\<And>s. se_revokedAt (f s) = None \<Longrightarrow> se_revokedAt s = None"
  shows "ended sid (d\<lparr>loginSessions := update_where p f (loginSessions d)\<rparr>)"
proof -
  have "se_id s = sid \<longrightarrow> se_revokedAt s \<noteq> None" if "s \<in> set (update_where p f (loginSessions d))" for s
    using that
  proof (rule update_whereE)
    fix r assume "r \<in> set (loginSessions d)" "s = f r"
    with assms(1,2) assms(3)[of r] show ?thesis unfolding ended_def by metis
  qed (use assms(1) in \<open>simp add: ended_def\<close>)
  then show ?thesis by (simp add: ended_def)
qed

lemma ended_revoke: "ended sid d \<Longrightarrow> ended sid (revoke_where p now d)"
  unfolding revoke_where_def by (rule ended_update) simp_all

lemma ended_touch: "ended sid d \<Longrightarrow> ended sid (touch_session x now d)"
  unfolding touch_session_def by (rule ended_update) simp_all

lemma ended_frame [simp]:
  "ended sid (write_audit row d) = ended sid d" "ended sid (d\<lparr>accounts := rows\<rparr>) = ended sid d"
  by (simp_all add: ended_def)

lemma revoke_ends:
  assumes "\<And>s. s \<in> set (loginSessions d) \<Longrightarrow> se_id s = sid \<Longrightarrow> se_revokedAt s = None \<Longrightarrow> p s"
  shows "ended sid (revoke_where p now d)"
proof -
  have "se_id s = sid \<longrightarrow> se_revokedAt s \<noteq> None"
    if "s \<in> set (update_where p (\<lambda>s. s\<lparr>se_revokedAt := Some now\<rparr>) (loginSessions d))" for s
    using that by (rule update_whereE) (use assms in auto)
  then show ?thesis by (simp add: ended_def revoke_where_def)
qed

lemma perform_ended:
  assumes "ended sid d" "newIds 0 \<noteq> sid"
  shows "ended sid (perform env cfg newIds auditId now w d)"
proof (cases w)
  case (OpenSession a request)
  obtain r d' where r: "open_session env cfg a request (newIds 0) now d = (r, d')" by fastforce
  then have "ended sid d'"
  proof (cases rule: open_session_cases)
    case (opened s)
    show ?thesis unfolding start_tx_Inr(3)[OF opened(1)]
      using assms by (auto simp: ended_def start_tx_Inr(1)[OF opened(1)])
  qed (use assms in simp)
  with r OpenSession show ?thesis by simp
next
  case (TouchSession x seen)
  with assms(1) ended_touch show ?thesis by simp
next
  case (RevokeRow session actorId)
  obtain r d' where r: "transaction (revoke_tx auditId session actorId now) d = (r, d')" by fastforce
  then have "ended sid d'" by (cases rule: revoke_tx_db) (use assms(1) ended_revoke in simp_all)
  with r RevokeRow show ?thesis by simp
next
  case (InsertAccounts hashed requested actorId)
  obtain n d' where n: "bulk_insert env hashed newIds auditId now requested actorId d = (n, d')" by fastforce
  then obtain row new where "d' = write_audit row (d\<lparr>accounts := fst (insert_accounts env new (accounts d))\<rparr>)"
    by (rule bulk_insert_db)
  with n InsertAccounts assms(1) show ?thesis by simp
qed

lemma step_ended:
  assumes "ended sid (fst s)" "\<not> opens_session e sid"
  shows "ended sid (fst (access_step env cfg lower s e))"
proof -
  obtain d ws where s: "s = (d, ws)" by (cases s)
  with assms(1) have d: "ended sid d" by simp
  have "ended sid (fst (access_step env cfg lower (d, ws) e))"
  proof (cases e)
    case (Perform k newIds auditId now)
    with d assms(2) perform_ended show ?thesis by simp
  next
    case (Logout x now)
    with d ended_revoke show ?thesis by (simp add: logout_def revokeCurrent_def)
  next
    case (RevokeSessions auditId actorId now)
    with d ended_revoke show ?thesis by (simp add: revokeAll_def Let_def)
  next
    case (CreateAccount salt newId auditId now input actorId)
    obtain r d' where r: "create_account env salt newId auditId now input actorId d = (r, d')" by fastforce
    then have "ended sid d'" by (cases rule: create_account_db) (use d in simp_all)
    with r CreateAccount show ?thesis by simp
  next
    case (UpdateAccount salt i patch auditId actorId now)
    obtain r d' where r: "update_account env salt i patch auditId actorId now d = (r, d')" by fastforce
    then have "ended sid d'" by (cases rule: update_account_db) (use d ended_revoke in simp_all)
    with r UpdateAccount show ?thesis by simp
  next
    case (RemoveAccount i auditId actorId now)
    obtain r d' where r: "remove_account i auditId actorId now d = (r, d')" by fastforce
    then have "ended sid d'"
      by (cases rule: remove_account_db) (use d in \<open>simp_all add: ended_def delete_account_def\<close>)
    with r RemoveAccount show ?thesis by simp
  qed (use d in simp_all)
  with s show ?thesis by simp
qed

lemma ends_session_ended:
  assumes "account_inv env cfg (fst st)" "s \<in> set (loginSessions (fst st))" "ends_session env st s e"
  shows "ended (se_id s) (fst (access_step env cfg lower st e))"
proof -
  obtain d ws where st: "st = (d, ws)" by (cases st)
  note inv = account_invD[OF assms(1)[unfolded st fst_conv]]
  have s: "s \<in> set (loginSessions d)" and ends: "ends_session env (d, ws) s e" using assms(2,3) st by simp_all
  have same: "x = s" if "x \<in> set (loginSessions d)" "se_id x = se_id s" for x
    using inv(3) s that by (metis find_by_distinct option.inject)
  have "ended (se_id s) (fst (access_step env cfg lower (d, ws) e))"
  proof (cases e)
    case (Logout sid now)
    with ends show ?thesis by (simp add: logout_def revokeCurrent_def) (rule revoke_ends, simp)
  next
    case (Perform k newIds auditId now)
    with ends obtain row actorId where k: "k < length ws" "ws ! k = RevokeRow row actorId" "se_id row = se_id s"
      by (auto split: access_write.splits)
    obtain r d' where r: "transaction (revoke_tx auditId row actorId now) d = (r, d')" by fastforce
    then have "ended (se_id s) d'"
    proof (cases rule: revoke_tx_db)
      case missing
      with s k(3) show ?thesis by auto
    next
      case (revoked log)
      have "ended (se_id s) (revoke_where (\<lambda>x. se_id x = se_id row) now d)"
        by (rule revoke_ends) (use k(3) in simp)
      with revoked show ?thesis by simp
    qed
    with r k Perform show ?thesis by simp
  next
    case (RevokeSessions auditId actorId now)
    then show ?thesis by (simp add: revokeAll_def Let_def) (rule revoke_ends, simp)
  next
    case (UpdateAccount salt i patch auditId actorId now)
    obtain r d' where r: "update_account env salt i patch auditId actorId now d = (r, d')" by fastforce
    then have "ended (se_id s) d'"
    proof (cases rule: update_account_db)
      case refused
      with ends r UpdateAccount show ?thesis by simp
    next
      case (updated current row)
      let ?h = "new_hash env salt patch"
      let ?d1 = "d\<lparr>accounts := update_where (\<lambda>a. ac_id a = i) (patched patch ?h) (accounts d)\<rparr>"
      have "ended (se_id s) (revoke_where (\<lambda>x. se_accountId x = i \<and> se_revokedAt x = None) now ?d1)"
        by (rule revoke_ends) (use ends UpdateAccount same in auto)
      moreover have "?h \<noteq> None \<or> ac_enabled current \<and> \<not> ac_enabled (patched patch ?h current)"
      proof (cases "?h = None")
        case True
        with ends UpdateAccount obtain a where a: "a \<in> set (accounts d)" "ac_id a = i" "ac_enabled a"
          and off: "ap_enabled patch = Some False" by (auto simp: list_ex_iff)
        from updated(1) find_by_distinct[OF inv(1) a(1,2)] have "current = a" by simp
        with a(3) off show ?thesis by (simp add: patched_def)
      qed simp
      ultimately show ?thesis using updated(4) by auto
    qed
    with r UpdateAccount show ?thesis by simp
  next
    case (RemoveAccount i auditId actorId now)
    obtain r d' where r: "remove_account i auditId actorId now d = (r, d')" by fastforce
    then have "ended (se_id s) d'"
    proof (cases rule: remove_account_db)
      case refused
      with ends r RemoveAccount show ?thesis by simp
    next
      case (removed current row)
      have "se_accountId s = i" using ends RemoveAccount by simp
      with same removed(4) show ?thesis by (auto simp: ended_def delete_account_def)
    qed
    with r RemoveAccount show ?thesis by simp
  qed (use ends in simp_all)
  with st show ?thesis by simp
qed

lemma run_ended:
  assumes "ended sid (fst s)" "\<forall>e \<in> set es. \<not> opens_session e sid"
  shows "ended sid (fst (foldl (access_step env cfg lower) s es))"
  using assms
proof (induction es arbitrary: s)
  case (Cons e es)
  from Cons.prems(2) have "\<not> opens_session e sid" by simp
  from Cons.IH[OF step_ended[OF Cons.prems(1) this]] Cons.prems(2) show ?case by simp
qed simp

lemma ended_refused:
  assumes "ended sid d" "pl_sid payload = JStr sid"
  shows "fst (authenticate cfg payload now d) \<noteq> Inr (Some u)"
proof -
  obtain r d' where r: "authenticate cfg payload now d = (r, d')" by fastforce
  then have "r \<noteq> Inr (Some u)"
    by (cases rule: authenticate_cases) (use assms in \<open>auto simp: ended_def live_session_def\<close>)
  with r show ?thesis by simp
qed

text \<open>C12. A session that was ended never opens again: once its user logged out, an administrator
revoked it or all sessions, its account was disabled or removed, or its password was changed, no
later sequence of operations and of pending parts of operations that does not draw the same id
again for a new row makes a token of it pass, however long the token itself is still valid and
even if the account is enabled again.\<close>

theorem ended_sessions_stay_ended:
  assumes "account_inv env cfg d" "s \<in> set (loginSessions d)" "ends_session env (d, ws) s e"
    and "\<forall>x \<in> set es. \<not> opens_session x (se_id s)" "pl_sid payload = JStr (se_id s)"
  shows "fst (authenticate cfg payload now (fst (foldl (access_step env cfg lower) (d, ws) (e # es)))) \<noteq>
    Inr (Some u)"
proof (rule ended_refused[OF _ assms(5)])
  have "ended (se_id s) (fst (access_step env cfg lower (d, ws) e))"
    by (rule ends_session_ended) (use assms(1-3) in simp_all)
  from run_ended[OF this assms(4)]
  show "ended (se_id s) (fst (foldl (access_step env cfg lower) (d, ws) (e # es)))" by simp
qed

section \<open>What passing the guard shows\<close>

lemma authenticate_accepts:
  assumes "s \<in> set (loginSessions d)" "distinct (map se_id (loginSessions d))" "live_session cfg now s"
    and "pl_sub payload = JStr (se_accountId s)" "pl_sid payload = JStr (se_id s)"
    and "find_by ac_id (se_accountId s) (accounts d) = Some a" "ac_enabled a"
  shows "authenticate cfg payload now d = (Inr (Some (user_of a)),
    if SESSION_TOUCH_INTERVAL_MS \<le> now - se_lastSeenAt s then touch_session (se_id s) now d else d)"
proof -
  let ?p = "\<lambda>x. se_id x = se_id s \<and> se_accountId x = se_accountId s \<and> live_session cfg now x"
  have "find ?p (loginSessions d) = Some s"
  proof (cases "find ?p (loginSessions d)")
    case None
    with assms(1,3) show ?thesis by (auto simp: find_None_iff)
  next
    case (Some x)
    from find_Some_in[OF this] have "x \<in> set (loginSessions d)" "se_id x = se_id s" by auto
    then have "x = s" using assms(1,2) by (metis find_by_distinct option.inject)
    with Some show ?thesis by simp
  qed
  with assms(4-7) show ?thesis by (simp add: authenticate_def find_session_def touch_due_def)
qed

text \<open>C13. What a request that passes the guard has shown: its token carries the signature of its
payload and is not over, the payload names an open session and its account, the session began
less than the absolute timeout ago and was seen within the idle timeout, the account is enabled
and has the role the handler sees, administration needs an administrator, and a request that
changes something does not come from a foreign page. Passing changes nothing but the time the
session was last seen.\<close>

theorem access_is_justified:
  assumes "account_inv env cfg d"
    and "canActivate env cfg False adminOnly request now d = (Inr (Some (user, sid)), d')"
  shows "\<exists>token payload s a. rq_token request = Some token \<and>
    cy_unb64 env (field 1 (split_on 46 token)) = cy_hmac env (field 0 (split_on 46 token)) \<and>
    verifySessionToken env token now = Some payload \<and> now div 1000 < pl_exp payload \<and>
    s \<in> set (loginSessions d) \<and> sid = JStr (se_id s) \<and> pl_sid payload = sid \<and>
    pl_sub payload = JStr (se_accountId s) \<and> se_revokedAt s = None \<and>
    now < se_createdAt s + absolute_ms cfg \<and> now < se_lastSeenAt s + idle_ms cfg \<and>
    a \<in> set (accounts d) \<and> ac_id a = se_accountId s \<and> ac_enabled a \<and> user = user_of a \<and>
    (adminOnly \<longrightarrow> ac_role a = ADMIN) \<and>
    (rq_method request \<in> {''GET'', ''HEAD'', ''OPTIONS''} \<or> \<not> origin_refused cfg request) \<and>
    (d' = d \<or> d' = touch_session (se_id s) now d)"
proof -
  from assms(2) obtain token payload where t: "rq_token request = Some token"
      "verifySessionToken env token now = Some payload" "sid = pl_sid payload"
      "authenticate cfg payload now d = (Inr (Some user), d')"
      "adminOnly \<longrightarrow> us_role user = ADMIN"
      "rq_method request \<in> {''GET'', ''HEAD'', ''OPTIONS''} \<or> \<not> origin_refused cfg request"
    by (auto simp: canActivate_def request_payload_def split: option.splits if_splits prod.splits sum.splits)
  have sig: "cy_unb64 env (field 1 (split_on 46 token)) = cy_hmac env (field 0 (split_on 46 token))"
    "now div 1000 < pl_exp payload"
    using t(2) by (auto simp: verifySessionToken_def Let_def split: if_splits option.splits json.splits)
  from t(4) show ?thesis
  proof (cases rule: authenticate_cases)
    case refused
    then show ?thesis by blast
  next
    case (accepted sub x s a)
    have "se_expiresAt s = se_createdAt s + absolute_ms cfg"
      using account_invD(4)[OF assms(1) accepted(3)] .
    with accepted t sig show ?thesis
      by (intro exI[of _ token] exI[of _ payload] exI[of _ s] exI[of _ a])
        (auto simp: live_session_def sessionCutoff_def user_of_def)
  qed
qed

end
