(* ===== verification/Access_Use.thy ===== *)
theory Access_Use
  imports Access_System
begin

text \<open>
  How the paths of accounts and sessions fit together: a token read back, a password checked
  against its record, a login followed by requests, a session under steady use, a new account
  that logs in, a file of accounts, and the four workers that hash its passwords.
\<close>

section \<open>Tokens and passwords\<close>

lemma split_on_two:
  "sep \<notin> set xs \<Longrightarrow> sep \<notin> set ys \<Longrightarrow> split_on sep (xs @ sep # ys) = [xs, ys]"
  by (simp add: split_on_append split_on_none)

lemma verify_created_token:
  assumes "encodes_json env (payload_json i sid (now div 1000) (now div 1000 + ttl))"
    and "encodes_bytes env (cy_hmac env (cy_stringify env (payload_json i sid (now div 1000) (now div 1000 + ttl))))"
    and "i \<noteq> []" "sid \<noteq> []" "t div 1000 < now div 1000 + ttl"
  shows "verifySessionToken env (createSessionToken env i sid ttl now) t =
    Some \<lparr>pl_sub = JStr i, pl_sid = JStr sid, pl_iat = Some (JNum (now div 1000)), pl_exp = now div 1000 + ttl\<rparr>"
proof -
  let ?v = "payload_json i sid (now div 1000) (now div 1000 + ttl)"
  let ?sig = "cy_b64 env (cy_hmac env (cy_stringify env ?v))"
  have token: "createSessionToken env i sid ttl now = cy_stringify env ?v @ 46 # ?sig"
    by (simp add: createSessionToken_def Let_def js_def)
  have parts: "split_on 46 (createSessionToken env i sid ttl now) = [cy_stringify env ?v, ?sig]"
    unfolding token by (rule split_on_two) (use assms(1,2) in \<open>simp_all add: encodes_json_def encodes_bytes_def\<close>)
  have members: "jget ?v (js ''sub'') = Some (JStr i)" "jget ?v (js ''sid'') = Some (JStr sid)"
    "jget ?v (js ''iat'') = Some (JNum (now div 1000))" "jget ?v (js ''exp'') = Some (JNum (now div 1000 + ttl))"
    by (simp_all add: payload_json_def js_inj)
  show ?thesis
    using assms by (simp add: verifySessionToken_def parts field_def Let_def members encodes_json_def
        encodes_bytes_def)
qed

text \<open>What scrypt and the salt promise.\<close>

definition password_record :: "crypto_env \<Rightarrow> 8 word list \<Rightarrow> jstring \<Rightarrow> bool" where
  "password_record env salt password \<longleftrightarrow>
     length salt = SALT_BYTES \<and> length (cy_scrypt env password salt KEY_BYTES) = KEY_BYTES \<and>
     encodes_bytes env salt \<and> encodes_bytes env (cy_scrypt env password salt KEY_BYTES)"

lemma verify_hashed_password:
  assumes "password_record env salt password"
  shows "verifyAccountPassword env password (hashAccountPassword env salt password)"
proof -
  let ?key = "cy_scrypt env password salt KEY_BYTES"
  have e: "encodes_bytes env salt" "encodes_bytes env ?key" "length salt = SALT_BYTES" "length ?key = KEY_BYTES"
    using assms by (simp_all add: password_record_def)
  have format: "(36 :: 16 word) \<notin> set (js ''scrypt-v1'')" by (simp add: js_def)
  have "hashAccountPassword env salt password = js ''scrypt-v1'' @ 36 # (cy_b64 env salt @ 36 # cy_b64 env ?key)"
    by (simp add: hashAccountPassword_def js_def)
  then have "split_on 36 (hashAccountPassword env salt password) =
      [js ''scrypt-v1'', cy_b64 env salt, cy_b64 env ?key]"
    using split_on_append[OF format] split_on_two[of 36 "cy_b64 env salt" "cy_b64 env ?key"] e(1,2)
    by (simp add: encodes_bytes_def)
  with e show ?thesis by (simp add: verifyAccountPassword_def Let_def field_def encodes_bytes_def)
qed

section \<open>Logging in opens access\<close>

lemma find_user:
  assumes "distinct (map ac_id (accounts d))" "a \<in> set (accounts d)" "\<And>b. ac_id (f b) = ac_id b"
  shows "find_by ac_id (ac_id a) (update_where (\<lambda>b. ac_id b = ac_id a) f (accounts d)) = Some (f a)"
proof (rule find_by_distinct)
  have "map ac_id (update_where (\<lambda>b. ac_id b = ac_id a) f (accounts d)) = map ac_id (accounts d)"
    by (rule map_update_where_frame) (rule assms(3))
  with assms(1) show "distinct (map ac_id (update_where (\<lambda>b. ac_id b = ac_id a) f (accounts d)))" by simp
qed (use assms(2,3) in \<open>auto simp: set_update_where\<close>)

text \<open>C14. Logging in opens access: the token a successful login returns passes the guard of every
route the user's role may use, at any time before the idle timeout and the token's own end, and
the handler receives the user and session of that login.\<close>

theorem login_opens_access:
  assumes "account_inv env cfg d" "login env cfg request body sid now d = (Inr (user, token), d1)"
    and "encodes_json env (payload_json (us_id user) sid (now div 1000) (now div 1000 + ttl))"
    and "encodes_bytes env (cy_hmac env (cy_stringify env
          (payload_json (us_id user) sid (now div 1000) (now div 1000 + ttl))))"
    and "ttl = cf_sessionAbsoluteTimeoutHours cfg * 60 * 60" "us_id user \<noteq> []" "sid \<noteq> []"
    and "now \<le> t" "t < now + idle_ms cfg" "t div 1000 < now div 1000 + ttl"
    and "rq_token request2 = Some token" "adminOnly \<longrightarrow> us_role user = ADMIN" "\<not> origin_refused cfg request2"
  shows "fst (canActivate env cfg False adminOnly request2 t d1) = Inr (Some (user, JStr sid))"
  using assms(2)
proof (cases rule: login_db)
  case refused
  then show ?thesis by blast
next
  case (opened username password a s)
  note s = start_tx_Inr[OF opened(5)]
  note inv = account_invD[OF assms(1)] and inv1 = account_invD[OF start_session_inv[OF assms(1) opened(5)]]
  have a: "a \<in> set (accounts d)" using find_Some_in[OF opened(2)[unfolded account_named_def]] by simp
  have user: "user = user_of a" "us_id user = ac_id a"
    "token = createSessionToken env (ac_id a) sid ttl now"
    using opened(6) s(1) assms(5) by (auto simp: user_of_def)
  let ?payload = "\<lparr>pl_sub = JStr (ac_id a), pl_sid = JStr sid, pl_iat = Some (JNum (now div 1000)),
    pl_exp = now div 1000 + ttl\<rparr>"
  have token: "verifySessionToken env token t = Some ?payload"
    unfolding user(3) by (rule verify_created_token) (use assms(3,4,6,7,10) user(2) in simp_all)
  have "token \<noteq> []" unfolding user(3) createSessionToken_def by (simp add: Let_def)
  have "t < now + absolute_ms cfg"
    using assms(5,10) by (simp add: absolute_ms_def)
  with assms(8,9) have live: "live_session cfg t s"
    by (simp add: live_session_def s(1) sessionCutoff_def)
  have found: "find_by ac_id (ac_id a) (accounts d1) = Some (a\<lparr>ac_lastLoginAt := Some now\<rparr>)"
    unfolding s(3) using find_user[OF inv(1) a, of "\<lambda>b. b\<lparr>ac_lastLoginAt := Some now\<rparr>"] by simp
  have "authenticate cfg ?payload t d1 = (Inr (Some (user_of (a\<lparr>ac_lastLoginAt := Some now\<rparr>))),
      if SESSION_TOUCH_INTERVAL_MS \<le> t - se_lastSeenAt s then touch_session (se_id s) t d1 else d1)"
    by (rule authenticate_accepts) (use live found opened(3) inv1(3) s in simp_all)
  moreover have "user_of (a\<lparr>ac_lastLoginAt := Some now\<rparr>) = user" by (simp add: user_of_def user(1))
  ultimately show ?thesis
    using assms(11-13) token \<open>token \<noteq> []\<close> by (simp add: canActivate_def request_payload_def)
qed

section \<open>Steady use\<close>

fun use_session ::
  "session_config \<Rightarrow> SessionPayload \<Rightarrow> time list \<Rightarrow> db \<Rightarrow> (api_error + AuthenticatedUser option) list \<times> db" where
  "use_session cfg payload [] d = ([], d)"
| "use_session cfg payload (t # ts) d =
     (let (r, d1) = authenticate cfg payload t d; (rs, d2) = use_session cfg payload ts d1 in (r # rs, d2))"

fun steady_times :: "int \<Rightarrow> time \<Rightarrow> time list \<Rightarrow> bool" where
  "steady_times gap begun [] = True"
| "steady_times gap begun (t # ts) = (begun \<le> t \<and> t \<le> begun + gap \<and> steady_times gap t ts)"

text \<open>C15. Steady use keeps a session: although a session is written at most once a minute, a user
whose requests are never further apart than the idle timeout less that minute is let in every
time until the absolute timeout.\<close>

theorem steady_use_keeps_session:
  assumes "account_inv env cfg d" "s \<in> set (loginSessions d)" "se_revokedAt s = None"
    and "pl_sub payload = JStr (se_accountId s)" "pl_sid payload = JStr (se_id s)"
    and "find_by ac_id (se_accountId s) (accounts d) = Some a" "ac_enabled a"
    and "se_lastSeenAt s \<le> begun" "begun < se_lastSeenAt s + SESSION_TOUCH_INTERVAL_MS"
    and "steady_times (idle_ms cfg - SESSION_TOUCH_INTERVAL_MS) begun ts" "\<forall>t \<in> set ts. t < se_expiresAt s"
  shows "fst (use_session cfg payload ts d) = replicate (length ts) (Inr (Some (user_of a)))"
  using assms
proof (induction ts arbitrary: d s begun)
  case Nil
  then show ?case by simp
next
  case (Cons t ts)
  note inv = account_invD[OF Cons.prems(1)]
  have live: "live_session cfg t s"
    using Cons.prems(3,8-11) by (simp add: live_session_def sessionCutoff_def)
  let ?touch = "SESSION_TOUCH_INTERVAL_MS \<le> t - se_lastSeenAt s"
  let ?d1 = "if ?touch then touch_session (se_id s) t d else d"
  let ?s1 = "if ?touch then s\<lparr>se_lastSeenAt := t\<rparr> else s"
  have step: "authenticate cfg payload t d = (Inr (Some (user_of a)), ?d1)"
    by (rule authenticate_accepts[OF Cons.prems(2) inv(3) live Cons.prems(4-7)])
  have s1: "?s1 \<in> set (loginSessions ?d1)" "se_revokedAt ?s1 = None" "se_id ?s1 = se_id s"
    "se_accountId ?s1 = se_accountId s" "se_expiresAt ?s1 = se_expiresAt s" "accounts ?d1 = accounts d"
    "account_inv env cfg ?d1"
    using Cons.prems(1-3) touch_inv by (auto simp: touch_session_def set_update_where)
  have seen: "se_lastSeenAt ?s1 \<le> t" "t < se_lastSeenAt ?s1 + SESSION_TOUCH_INTERVAL_MS"
    using Cons.prems(8,10) by (auto simp: SESSION_TOUCH_INTERVAL_MS_def)
  have "fst (use_session cfg payload ts ?d1) = replicate (length ts) (Inr (Some (user_of a)))"
    by (rule Cons.IH[OF s1(7,1,2) _ _ _ _ seen]) (use Cons.prems(4-7,10,11) in \<open>simp_all add: s1(3-6)\<close>)
  with step show ?case by (simp add: case_prod_beta)
qed

section \<open>A new account logs in\<close>

lemma accountCreateSchema_lengths:
  assumes "accountCreateSchema v = Some input"
  shows "2 \<le> length (ai_username input)" "4 \<le> length (ai_password input)" "length (ai_password input) \<le> 128"
proof -
  from assms have u: "required username_field (jget v (js ''username'')) = Some (ai_username input)"
    and p: "required password_field (jget v (js ''password'')) = Some (ai_password input)"
    by (auto simp: accountCreateSchema_def split: option.splits)
  from u obtain x where "username_field x = Some (ai_username input)" by (auto simp: required_def split: option.splits)
  then show "2 \<le> length (ai_username input)"
    by (auto simp: username_field_def split: option.splits list.splits if_splits dest!: string_field_Some)
  from p obtain y where "password_field y = Some (ai_password input)" by (auto simp: required_def split: option.splits)
  then show "4 \<le> length (ai_password input)" "length (ai_password input) \<le> 128"
    by (auto simp: password_field_def text_field_def split: json.splits if_splits)
qed

lemma find_append_None: "find p xs = None \<Longrightarrow> find p (xs @ ys) = find p ys"
  by (induction xs) (auto split: if_splits)

text \<open>C16. A new account can log in with the name and the password it was created with, if and only
if the name has at most 128 units: the schema of the login refuses the longer names, up to 160
units, that the schema of the accounts accepts.\<close>

theorem new_account_logs_in:
  assumes "accountCreateSchema v = Some input" "ai_enabled input"
    and "create_account env salt newId auditId now input actorId d = (Inr view, d1)"
    and "password_record env salt (ai_password input)"
    and "\<forall>s \<in> set (loginSessions d). se_id s \<noteq> sid" "\<not> origin_refused cfg request"
    and "jget body (js ''username'') = Some (JStr (ai_username input))"
    and "jget body (js ''password'') = Some (JStr (ai_password input))"
  shows "(\<exists>session. fst (login env cfg request body sid t d1) = Inr session) \<longleftrightarrow>
    length (ai_username input) \<le> 128"
proof -
  note len = accountCreateSchema_lengths[OF assms(1)]
  let ?h = "hashAccountPassword env salt (ai_password input)"
  let ?a = "new_account newId now ?h input"
  have schema: "loginSchema body = (if length (ai_username input) \<le> 128
      then Some (ai_username input, ai_password input) else None)"
    using assms(7,8) len by (auto simp: loginSchema_def required_def text_field_def)
  from assms(3) show ?thesis
  proof (cases rule: create_account_db)
    case refused
    then show ?thesis by blast
  next
    case (created row)
    have none: "find (\<lambda>a. cy_collate env (ac_username a) = cy_collate env (ai_username input)) (accounts d) = None"
      using created(1) by (auto simp: account_clash_def list_ex_iff find_None_iff)
    have named: "account_named env (ai_username input) d1 = Some ?a"
      using find_append_None[OF none] by (simp add: account_named_def created(2) new_account_def)
    have start: "\<exists>s d2. start_tx cfg sid newId request t d1 = Inr (s, d2)"
      using assms(5) unfolding created(2) by (simp add: start_tx_def Let_def list_ex_iff new_account_def)
    have "verifyAccountPassword env (ai_password input) ?h" by (rule verify_hashed_password[OF assms(4)])
    with named start schema assms(2,6) show ?thesis
      by (auto simp: login_def check_login_def open_session_def new_account_def transaction_def)
  qed
qed


section \<open>A file of accounts\<close>

lemma scan_accounts_split:
  assumes "scan_accounts lower unavailable seen index xs = (cs, es)"
  shows "length cs + length es = length xs \<and>
    (\<forall>k < length xs. (index + k, xs ! k) \<in> set cs \<or> (\<exists>msg. (index + k + 2, ai_username (xs ! k), msg) \<in> set es))"
  using assms
proof (induction xs arbitrary: seen index cs es)
  case Nil
  then show ?case by simp
next
  case (Cons x xs)
  have k0: "(\<forall>k < length (x # xs). Q k) \<longleftrightarrow> Q 0 \<and> (\<forall>k < length xs. Q (Suc k))" for Q
    by (simp add: All_less_Suc2)
  obtain seen' cs' es' where rest: "scan_accounts lower unavailable seen' (index + 1) xs = (cs', es')"
    and this: "(cs = (index, x) # cs' \<and> es = es') \<or>
       (cs = cs' \<and> (\<exists>msg. es = (index + 2, ai_username x, msg) # es'))"
  proof -
    show thesis
    proof (cases "lower (ai_username x) \<in> set unavailable \<or> lower (ai_username x) \<in> set seen")
      case True
      obtain cs' es' where r: "scan_accounts lower unavailable seen (index + 1) xs = (cs', es')" by fastforce
      with Cons.prems True have "cs = cs' \<and> (\<exists>msg. es = (index + 2, ai_username x, msg) # es')"
        by (auto simp: Let_def split: if_splits)
      with r that show thesis by blast
    next
      case False
      obtain cs' es' where r: "scan_accounts lower unavailable (lower (ai_username x) # seen) (index + 1) xs = (cs', es')"
        by fastforce
      with Cons.prems False have "cs = (index, x) # cs' \<and> es = es'" by (auto simp: Let_def)
      with r that show thesis by blast
    qed
  qed
  from Cons.IH[OF rest] this show ?case unfolding k0 by auto
qed

lemma insert_accounts_present:
  assumes "distinct (map ac_id new)" "\<And>a r. a \<in> set new \<Longrightarrow> r \<in> set rows \<Longrightarrow> ac_id r \<noteq> ac_id a"
    and "a \<in> set new"
  shows "\<exists>b \<in> set (fst (insert_accounts env new rows)).
    cy_collate env (ac_username b) = cy_collate env (ac_username a)"
  using assms
proof (induction new arbitrary: rows)
  case Nil
  then show ?case by simp
next
  case (Cons x new)
  let ?clash = "account_clash env (ac_id x) (ac_username x) rows"
  let ?rows = "if ?clash then rows else rows @ [x]"
  have result: "fst (insert_accounts env (x # new) rows) = fst (insert_accounts env new ?rows)" by simp
  show ?case
  proof (cases "a = x")
    case True
    have "\<exists>b \<in> set ?rows. cy_collate env (ac_username b) = cy_collate env (ac_username x)"
    proof (cases ?clash)
      case True
      then obtain b where "b \<in> set rows" "ac_id b = ac_id x \<or> cy_collate env (ac_username b) = cy_collate env (ac_username x)"
        by (auto simp: account_clash_def list_ex_iff)
      with Cons.prems(2)[of x b] True show ?thesis by auto
    qed simp
    then obtain b where "b \<in> set ?rows" "cy_collate env (ac_username b) = cy_collate env (ac_username a)"
      using True by blast
    with insert_accounts_keeps[of ?rows env new] have
      "b \<in> set (fst (insert_accounts env (x # new) rows))" unfolding result by (rule_tac subsetD)
    with \<open>cy_collate env (ac_username b) = _\<close> show ?thesis by (rule_tac bexI)
  next
    case False
    have "\<exists>b \<in> set (fst (insert_accounts env new ?rows)).
        cy_collate env (ac_username b) = cy_collate env (ac_username a)"
    proof (rule Cons.IH)
      fix b r assume b: "b \<in> set new" "r \<in> set ?rows"
      then consider "r \<in> set rows" | "r = x" by (auto split: if_splits)
      then show "ac_id r \<noteq> ac_id b"
      proof cases
        case 1
        with Cons.prems(2) b(1) show ?thesis by simp
      next
        case 2
        with Cons.prems(1) b(1) show ?thesis by (metis distinct.simps(2) image_eqI list.simps(9) set_map)
      qed
    qed (use Cons.prems(1,3) False in auto)
    with result show ?thesis by simp
  qed
qed

lemma insert_accounts_bound: "snd (insert_accounts env new rows) \<le> length new"
  by (induction new arbitrary: rows) (auto simp: le_SucI)

text \<open>C17. A file of accounts is accounted for line by line: the report's numbers are exact (as many
accounts exist more as it says were created, and the others were skipped), no account that
existed is changed or lost, and for every line either the report names the line and its name or
an account of that name exists afterwards.\<close>

theorem bulk_report_complete:
  assumes "bulkCreate env lower salts newIds auditId now input actorId d = (result, d')"
    and "inj newIds" "\<forall>j. \<forall>a \<in> set (accounts d). ac_id a \<noteq> newIds j"
  shows "length (accounts d') = length (accounts d) + br_created result \<and>
    br_created result + br_skipped result = length input \<and> set (accounts d) \<subseteq> set (accounts d') \<and>
    (\<forall>k < length input.
       (\<exists>msg. (k + 2, ai_username (input ! k), msg) \<in> set (br_errors result)) \<or>
       (\<exists>a \<in> set (accounts d'). cy_collate env (ac_username a) = cy_collate env (ai_username (input ! k))))"
proof -
  obtain cs es where scan: "scan_accounts lower (unavailable_names env lower input d) [] 0 input = (cs, es)"
    by fastforce
  note split = scan_accounts_split[OF scan]
  show ?thesis
  proof (cases "cs = []")
    case True
    with assms(1) scan have "d' = d" "result = \<lparr>br_created = 0, br_skipped = length input, br_errors = es\<rparr>"
      by (simp_all add: bulkCreate_def bulk_candidates_def)
    with split True show ?thesis by simp
  next
    case False
    let ?hashed = "hashWithConcurrency env salts cs"
    let ?row = "\<lambda>j. case ?hashed ! j of (_, account, h) \<Rightarrow> new_account (newIds j) now h account"
    let ?new = "map ?row [0 ..< length ?hashed]"
    let ?ins = "insert_accounts env ?new (accounts d)"
    have r: "accounts d' = fst ?ins" "br_created result = snd ?ins"
      "br_skipped result = length input - snd ?ins" "br_errors result = es"
      using assms(1) scan False by (auto simp: bulkCreate_def bulk_candidates_def bulk_insert_def Let_def case_prod_beta)
    have len: "length ?hashed = length cs" by (simp add: hashWithConcurrency_def)
    have row: "ac_id (?row j) = newIds j" "ac_username (?row j) = ai_username (snd (cs ! j))" if "j < length cs" for j
      using that by (simp_all add: hashWithConcurrency_def new_account_def case_prod_beta)
    have ids: "map ac_id ?new = map newIds [0 ..< length cs]" using row(1) len by simp
    have "snd ?ins \<le> length input"
      using insert_accounts_bound[of env ?new "accounts d"] split len by simp
    moreover have "\<exists>a \<in> set (fst ?ins). cy_collate env (ac_username a) = cy_collate env (ai_username (snd c))"
      if "c \<in> set cs" for c
    proof -
      from that obtain j where j: "j < length cs" "c = cs ! j" by (auto simp: in_set_conv_nth)
      have "\<exists>a \<in> set (fst ?ins). cy_collate env (ac_username a) = cy_collate env (ac_username (?row j))"
      proof (rule insert_accounts_present)
        show "distinct (map ac_id ?new)" unfolding ids using assms(2) by (simp add: distinct_map inj_on_def inj_def)
        show "?row j \<in> set ?new" using j(1) len by force
      next
        fix a x assume "a \<in> set ?new" "x \<in> set (accounts d)"
        then obtain m where "m < length cs" "a = ?row m" using len by auto
        with row(1) assms(3) \<open>x \<in> set (accounts d)\<close> show "ac_id x \<noteq> ac_id a" by metis
      qed
      with row(2)[OF j(1)] j(2) show ?thesis by simp
    qed
    ultimately show ?thesis
      using split insert_accounts_count[of env ?new "accounts d"] insert_accounts_keeps[of "accounts d" env ?new]
      unfolding r by fastforce
  qed
qed

section \<open>The workers that hash\<close>

definition pool_inv :: "nat \<Rightarrow> (nat \<Rightarrow> 'r) \<Rightarrow> 'r hash_pool \<Rightarrow> bool" where
  "pool_inv n hash_of s \<longleftrightarrow>
     hp_nextIndex s \<le> n \<and> length (hp_running s) \<le> min 4 n \<and> distinct (hp_running s) \<and>
     (\<forall>j \<in> set (hp_running s). j < hp_nextIndex s) \<and> length (hp_results s) = n \<and>
     (\<forall>j < n. hp_results s ! j =
        (if j < hp_nextIndex s \<and> j \<notin> set (hp_running s) then Some (hash_of j) else None))"

lemma pool_step_inv: "hash_pool_step n hash_of s s' \<Longrightarrow> pool_inv n hash_of s \<Longrightarrow> pool_inv n hash_of s'"
proof (induction rule: hash_pool_step.induct)
  case (pool_take s)
  then show ?case by (force simp: pool_inv_def less_Suc_eq)
next
  case (pool_finish j s)
  then have "j < hp_nextIndex s" "hp_nextIndex s \<le> n" "distinct (hp_running s)" by (auto simp: pool_inv_def)
  then show ?case
    using pool_finish by (auto simp: pool_inv_def nth_list_update length_remove1)
qed

text \<open>Whatever the order in which the four workers finish, the array they leave is the list the
model computes, with at most four of them at work at a time.\<close>

lemma hash_pool_result:
  assumes "(hash_pool_step n hash_of)\<^sup>*\<^sup>* (start_pool n) s"
  shows "length (hp_running s) \<le> 4"
    and "hp_nextIndex s = n \<Longrightarrow> hp_running s = [] \<Longrightarrow> hp_results s = map (Some \<circ> hash_of) [0 ..< n]"
proof -
  from assms have inv: "pool_inv n hash_of s"
  proof (induction rule: rtranclp_induct)
    case base
    then show ?case by (simp add: pool_inv_def start_pool_def)
  next
    case (step y z)
    then show ?case using pool_step_inv by blast
  qed
  then show "length (hp_running s) \<le> 4" by (simp add: pool_inv_def)
  assume "hp_nextIndex s = n" "hp_running s = []"
  with inv show "hp_results s = map (Some \<circ> hash_of) [0 ..< n]"
    by (intro nth_equalityI) (simp_all add: pool_inv_def)
qed

end
