(* ===== verification/Access_Examples.thy ===== *)
theory Access_Examples
  imports Access_Use
begin

text \<open>
  Concrete accounts, sessions and parameters, at which the properties of accounts and sessions
  apply, and the two administrators that demote each other at the same time.
\<close>

text \<open>A codec that writes a byte as one unit above ASCII, and a codec for one fixed payload.\<close>

definition example_crypto :: crypto_env where
  "example_crypto =
     \<lparr>cy_scrypt = \<lambda>p s n. replicate n (of_nat (length p)), cy_hmac = \<lambda>s. [of_nat (length s)],
      cy_b64 = map (\<lambda>b. 0x1000 + ucast b), cy_unb64 = map ucast,
      cy_stringify = \<lambda>_. [97],
      cy_parse = \<lambda>_. Some (payload_json (js ''u1'') (js ''s1'') 0 28800), cy_collate = id\<rparr>"

definition example_sessions :: session_config where
  "example_sessions =
     \<lparr>cf_sessionIdleTimeoutMinutes = 30, cf_sessionAbsoluteTimeoutHours = 8, cf_webOrigins = []\<rparr>"

definition example_salt :: "8 word list" where "example_salt = replicate 16 7"

definition admin_input :: AccountCreateInput where
  "admin_input = \<lparr>ai_username = js ''admin'', ai_password = js ''secret'', ai_role = ADMIN, ai_enabled = True\<rparr>"

definition admin_row :: Account where
  "admin_row = new_account (js ''u1'') 0 (hashAccountPassword example_crypto example_salt (js ''secret'')) admin_input"

definition example_request :: "jstring option \<Rightarrow> web_request" where
  "example_request token =
     \<lparr>rq_method = ''GET'', rq_ip = js ''10.0.0.1'', rq_userAgent = None, rq_origin = None, rq_token = token\<rparr>"

definition login_body :: json where
  "login_body = JObj [(js ''username'', JStr (js ''admin'')), (js ''password'', JStr (js ''secret''))]"

definition admin_db :: db where
  "admin_db = empty_db\<lparr>accounts := [admin_row]\<rparr>"

definition session_row :: LoginSession where
  "session_row = new_session example_sessions (js ''s1'') (js ''u1'') (example_request None) 0"

definition session_db :: db where
  "session_db = admin_db\<lparr>loginSessions := [session_row]\<rparr>"

definition admin_token :: jstring where
  "admin_token = createSessionToken example_crypto (js ''u1'') (js ''s1'') 28800 0"

lemma session_db_inv: "account_inv example_crypto example_sessions session_db"
  by (simp add: account_inv_def session_db_def admin_db_def session_row_def empty_db_def
      admin_row_def new_account_def admin_input_def)

lemma admin_db_inv: "account_inv example_crypto example_sessions admin_db"
  by (simp add: account_inv_def admin_db_def empty_db_def)

lemma admin_row_simps [simp]: "ac_id admin_row = js ''u1''" "ac_enabled admin_row"
  by (simp_all add: admin_row_def new_account_def admin_input_def)

lemma session_row_simps [simp]:
  "se_id session_row = js ''s1''" "se_accountId session_row = js ''u1''" "se_revokedAt session_row = None"
  "se_lastSeenAt session_row = 0" "se_expiresAt session_row = 28800000"
  by (simp_all add: session_row_def absolute_ms_def example_sessions_def)

definition patch_with :: "jstring option \<Rightarrow> AccountRole option \<Rightarrow> bool option \<Rightarrow> AccountPatch" where
  "patch_with password role enabled =
     \<lparr>ap_username = None, ap_password = password, ap_role = role, ap_enabled = enabled\<rparr>"

lemma removal_refused:
  "foldl (access_step example_crypto example_sessions id) (admin_db, [])
     [Login (example_request None) login_body, RemoveAccount (js ''u1'') (js ''a1'') (js ''u2'') 5] =
   (admin_db, [OpenSession admin_row (example_request None)])"
  by code_simp

theorem administrators_remain_witness:
  "\<exists>a \<in> set (accounts admin_db). ac_role a = ADMIN \<and> ac_enabled a"
proof -
  have "bootstrap_admin example_crypto example_salt (js ''u1'') 0 (Some (js '' admin'')) (Some (js ''secret'')) empty_db
      = (Inr (), admin_db)"
    by code_simp
  from administrators_remain[OF this removal_refused] show ?thesis by blast
qed

theorem ended_sessions_stay_ended_witness:
  "fst (authenticate example_sessions
      \<lparr>pl_sub = JStr (js ''u1''), pl_sid = JStr (js ''s1''), pl_iat = None, pl_exp = 28800\<rparr> 2000
      (fst (foldl (access_step example_crypto example_sessions id) (session_db, [])
        [UpdateAccount example_salt (js ''u1'') (patch_with (Some (js ''changed'')) None None)
           (js ''a1'') (js ''u1'') 1000, RevokeSessions (js ''a2'') (js ''u1'') 1500]))) \<noteq> Inr (Some (user_of admin_row))"
proof (rule ended_sessions_stay_ended[OF session_db_inv, of session_row])
  show "session_row \<in> set (loginSessions session_db)" by (simp add: session_db_def)
  have "case fst (update_account example_crypto example_salt (js ''u1'')
      (patch_with (Some (js ''changed'')) None None) (js ''a1'') (js ''u1'') 1000 session_db) of
      Inl _ \<Rightarrow> False | Inr _ \<Rightarrow> True"
    by code_simp
  then show "ends_session example_crypto (session_db, []) session_row (UpdateAccount example_salt (js ''u1'')
      (patch_with (Some (js ''changed'')) None None) (js ''a1'') (js ''u1'') 1000)"
    by (auto simp: new_hash_def patch_with_def split: sum.splits)
qed simp_all

theorem access_is_justified_witness:
  "\<exists>token payload s a. rq_token (example_request (Some admin_token)) = Some token \<and>
    cy_unb64 example_crypto (field 1 (split_on 46 token)) = cy_hmac example_crypto (field 0 (split_on 46 token)) \<and>
    verifySessionToken example_crypto token 60000 = Some payload \<and> 60000 div 1000 < pl_exp payload \<and>
    s \<in> set (loginSessions session_db) \<and> JStr (js ''s1'') = JStr (se_id s) \<and> pl_sid payload = JStr (js ''s1'') \<and>
    pl_sub payload = JStr (se_accountId s) \<and> se_revokedAt s = None \<and>
    60000 < se_createdAt s + absolute_ms example_sessions \<and> 60000 < se_lastSeenAt s + idle_ms example_sessions \<and>
    a \<in> set (accounts session_db) \<and> ac_id a = se_accountId s \<and> ac_enabled a \<and> user_of admin_row = user_of a \<and>
    (True \<longrightarrow> ac_role a = ADMIN) \<and>
    (rq_method (example_request (Some admin_token)) \<in> {''GET'', ''HEAD'', ''OPTIONS''} \<or>
       \<not> origin_refused example_sessions (example_request (Some admin_token))) \<and>
    (touch_session (js ''s1'') 60000 session_db = session_db \<or>
     touch_session (js ''s1'') 60000 session_db = touch_session (se_id s) 60000 session_db)"
proof (rule access_is_justified[OF session_db_inv])
  show "canActivate example_crypto example_sessions False True (example_request (Some admin_token)) 60000 session_db =
      (Inr (Some (user_of admin_row, JStr (js ''s1''))), touch_session (js ''s1'') 60000 session_db)"
    by code_simp
qed

theorem login_opens_access_witness:
  "fst (canActivate example_crypto example_sessions False True (example_request (Some admin_token)) 1000000
     (snd (login example_crypto example_sessions (example_request None) login_body (js ''s1'') 0 admin_db))) =
   Inr (Some (user_of admin_row, JStr (js ''s1'')))"
proof (rule login_opens_access[OF admin_db_inv, where ttl = 28800 and token = admin_token])
  show "login example_crypto example_sessions (example_request None) login_body (js ''s1'') 0 admin_db =
      (Inr (user_of admin_row, admin_token),
       snd (login example_crypto example_sessions (example_request None) login_body (js ''s1'') 0 admin_db))"
    by code_simp
  show "encodes_json example_crypto (payload_json (us_id (user_of admin_row)) (js ''s1'') (0 div 1000) (0 div 1000 + 28800))"
    by code_simp
  show "encodes_bytes example_crypto (cy_hmac example_crypto (cy_stringify example_crypto
      (payload_json (us_id (user_of admin_row)) (js ''s1'') (0 div 1000) (0 div 1000 + 28800))))"
    by code_simp
  show "True \<longrightarrow> us_role (user_of admin_row) = ADMIN" by code_simp
  show "\<not> origin_refused example_sessions (example_request (Some admin_token))" by code_simp
qed (simp_all add: example_sessions_def example_request_def idle_ms_def user_of_def)

theorem steady_use_keeps_session_witness:
  "fst (use_session example_sessions
      \<lparr>pl_sub = JStr (js ''u1''), pl_sid = JStr (js ''s1''), pl_iat = None, pl_exp = 28800\<rparr>
      [1700000, 3400000] session_db) = replicate 2 (Inr (Some (user_of admin_row)))"
  using steady_use_keeps_session[OF session_db_inv, of session_row
      "\<lparr>pl_sub = JStr (js ''u1''), pl_sid = JStr (js ''s1''), pl_iat = None, pl_exp = 28800\<rparr>"
      admin_row 0 "[1700000, 3400000]"]
  by (simp add: session_db_def admin_db_def find_by_def SESSION_TOUCH_INTERVAL_MS_def idle_ms_def
      example_sessions_def numeral_2_eq_2)

theorem new_account_logs_in_witness:
  "(\<exists>session. fst (login example_crypto example_sessions (example_request None) login_body (js ''s1'') 9
      (snd (create_account example_crypto example_salt (js ''u1'') (js ''a1'') 0 admin_input (js ''u0'') empty_db))) =
      Inr session) \<longleftrightarrow> length (ai_username admin_input) \<le> 128"
proof (rule new_account_logs_in)
  show "accountCreateSchema (JObj [(js ''username'', JStr (js ''admin'')), (js ''password'', JStr (js ''secret'')),
      (js ''role'', JStr (js ''ADMIN''))]) = Some admin_input"
    by code_simp
  show "create_account example_crypto example_salt (js ''u1'') (js ''a1'') 0 admin_input (js ''u0'') empty_db =
      (Inr (toAccountView admin_row),
       snd (create_account example_crypto example_salt (js ''u1'') (js ''a1'') 0 admin_input (js ''u0'') empty_db))"
    by code_simp
  show "password_record example_crypto example_salt (ai_password admin_input)" by code_simp
  show "\<not> origin_refused example_sessions (example_request None)" by code_simp
  show "jget login_body (js ''username'') = Some (JStr (ai_username admin_input))" by code_simp
  show "jget login_body (js ''password'') = Some (JStr (ai_password admin_input))" by code_simp
qed (simp_all add: admin_input_def empty_db_def)

text \<open>Two lines of one name: one account is created, the other line is reported.\<close>

theorem bulk_report_complete_witness:
  "length (accounts (snd (bulkCreate example_crypto id (\<lambda>_. example_salt) (\<lambda>j. replicate j 1) (js ''a1'') 0
      [admin_input, admin_input] (js ''u0'') empty_db))) =
   length (accounts empty_db) + br_created (fst (bulkCreate example_crypto id (\<lambda>_. example_salt)
      (\<lambda>j. replicate j 1) (js ''a1'') 0 [admin_input, admin_input] (js ''u0'') empty_db))"
proof -
  have "inj (\<lambda>j. replicate j 1 :: id)" by (metis injI length_replicate)
  with bulk_report_complete[OF prod.collapse[symmetric], of "\<lambda>j. replicate j 1" empty_db example_crypto id
      "\<lambda>_. example_salt" "js ''a1''" 0 "[admin_input, admin_input]" "js ''u0''"]
  show ?thesis by (simp add: empty_db_def)
qed

section \<open>Administrators that demote each other\<close>

definition other_admin :: Account where
  "other_admin = admin_row\<lparr>ac_id := js ''u2'', ac_username := js ''lee''\<rparr>"

definition two_admins :: db where
  "two_admins = empty_db\<lparr>accounts := [admin_row, other_admin]\<rparr>"

definition demotion :: AccountPatch where
  "demotion = patch_with None (Some USER) None"

text \<open>
  The count of administrators is read without a lock. When two transactions read the same
  database, each lets one administrator demote the other, and after both writes nobody can
  administer any more; run one after the other, the second one is refused.
\<close>

lemma concurrent_demotions_leave_no_admin:
  "update_refused other_admin demotion (js ''u1'') two_admins = None \<and>
   update_refused admin_row demotion (js ''u2'') two_admins = None \<and>
   (case write_account example_crypto other_admin demotion None (js ''a1'') (js ''u1'') 0 two_admins of
      Inl _ \<Rightarrow> False
    | Inr (_, d) \<Rightarrow>
        (case write_account example_crypto admin_row demotion None (js ''a2'') (js ''u2'') 0 d of
           Inl _ \<Rightarrow> False | Inr (_, d') \<Rightarrow> active_admins d' = 0) \<and>
        update_refused admin_row demotion (js ''u2'') d = Some last_admin)"
  by code_simp

section \<open>A login that meets a change of its account\<close>

definition first_payload :: SessionPayload where
  "first_payload = \<lparr>pl_sub = JStr (js ''u1''), pl_sid = JStr (js ''s1''), pl_iat = None, pl_exp = 28800\<rparr>"

text \<open>The other administrator patches the account between the two parts of its login.\<close>

definition overtaken_login :: "AccountPatch \<Rightarrow> access_state" where
  "overtaken_login patch = foldl (access_step example_crypto example_sessions id) (two_admins, [])
     [Login (example_request None) login_body,
      UpdateAccount example_salt (js ''u1'') patch (js ''a1'') (js ''u2'') 1,
      Perform 0 (\<lambda>_. js ''s1'') (js ''a2'') 2]"

text \<open>
  The account is disabled after its password was verified and before its session starts: the
  session is opened all the same and stays open. It does not pass while the account is disabled,
  and passes again as soon as the account is enabled, although disabling was to end every session.
\<close>

lemma login_overtaken_by_disabling:
  "(case overtaken_login (patch_with None None (Some False)) of (d, ws) \<Rightarrow>
      map (\<lambda>s. (se_accountId s, se_revokedAt s)) (loginSessions d) = [(js ''u1'', None)] \<and>
      map ac_enabled (accounts d) = [False, True] \<and>
      fst (authenticate example_sessions first_payload 3 d) = Inr None \<and>
      fst (authenticate example_sessions first_payload 5
        (fst (access_step example_crypto example_sessions id (d, ws)
          (UpdateAccount example_salt (js ''u1'') (patch_with None None (Some True)) (js ''a3'') (js ''u2'') 4)))) =
      Inr (Some (user_of admin_row)))"
  by code_simp

text \<open>
  The password is changed between the two parts: the login with the old password opens a session
  that the change was to end, and it passes at once.
\<close>

lemma login_overtaken_by_new_password:
  "(case overtaken_login (patch_with (Some (js ''changed'')) None None) of (d, ws) \<Rightarrow>
      fst (authenticate example_sessions first_payload 3 d) = Inr (Some (user_of admin_row)) \<and>
      check_login example_crypto example_sessions (example_request None) login_body d = Inl bad_credentials)"
  by code_simp

end
