(* ===== verification/Retention.thy ===== *)
theory Retention
  imports Monitor_Lifecycle "HOL-Library.List_Lexorder" "HOL-Library.Product_Lexorder"
begin

text \<open>
  The retention command of \<open>packages/database/src\<close>: its settings (\<open>retention-config.ts\<close>), the
  statements of its steps (\<open>retention-plan.ts\<close>) and the run over them
  (\<open>retention-runner.ts\<close>). The rows other sessions hold locked, the columns \<open>updated_at\<close>, the
  answer of the advisory lock and the URL parser are parameters; a condition of a statement has
  the three truth values of SQL. Dates arrive as times.
\<close>

section \<open>Settings\<close>

record RetentionConfig =
  rc_databaseUrl :: jstring
  rc_checkResultDays :: int
  rc_historyDays :: int
  rc_batchSize :: nat
  rc_maxBatchesPerStep :: nat

fun digits_value :: "int \<Rightarrow> jstring \<Rightarrow> int option" where
  "digits_value acc [] = Some acc"
| "digits_value acc (c # cs) =
     (if 48 \<le> c \<and> c \<le> 57 then digits_value (10 * acc + (uint c - 48)) cs else None)"

definition not_whole_number :: "string \<Rightarrow> int \<Rightarrow> int \<Rightarrow> js_error" where
  "not_whole_number name minimum maximum =
     (let text = (\<lambda>n. map (\<lambda>c. char_of (unat c)) (js_number n))
      in PlainError (name @ '' must be a whole number between '' @ text minimum @ '' and '' @ text maximum @ ''.''))"

definition readInteger ::
  "(string \<Rightarrow> jstring option) \<Rightarrow> string \<Rightarrow> int \<Rightarrow> int \<Rightarrow> int \<Rightarrow> js_error + int" where
  "readInteger environment name fallback minimum maximum =
     (case environment name of None \<Rightarrow> Inr fallback
      | Some raw \<Rightarrow>
         (case (if raw = [] then None else digits_value 0 raw) of
            None \<Rightarrow> Inl (not_whole_number name minimum maximum)
          | Some v \<Rightarrow>
              if \<not> safe_integer v \<or> v < minimum \<or> maximum < v
              then Inl (not_whole_number name minimum maximum)
              else Inr v))"

definition RETENTION_DEFAULTS :: "int \<times> int \<times> int \<times> int" where
  "RETENTION_DEFAULTS = (30, 365, 500, 100)"

text \<open>\<open>protocol_of\<close> is the protocol of the parsed URL, \<open>None\<close> when it does not parse.\<close>

definition readRetentionConfig ::
  "(jstring \<Rightarrow> jstring option) \<Rightarrow> (string \<Rightarrow> jstring option) \<Rightarrow> js_error + RetentionConfig" where
  "readRetentionConfig protocol_of environment =
     (case environment ''DATABASE_URL'' of
        None \<Rightarrow> Inl (PlainError ''DATABASE_URL is required for the retention command.'')
      | Some databaseUrl \<Rightarrow>
          if js_trim databaseUrl = []
          then Inl (PlainError ''DATABASE_URL is required for the retention command.'')
          else if protocol_of databaseUrl \<noteq> Some (js ''mysql:'')
          then Inl (PlainError ''DATABASE_URL must be a valid mysql:// URL.'')
          else (case RETENTION_DEFAULTS of (checkDefault, historyDefault, sizeDefault, batchesDefault) \<Rightarrow>
            (case readInteger environment ''RETENTION_CHECK_RESULT_DAYS'' checkDefault 1 3650 of Inl e \<Rightarrow> Inl e
             | Inr checkResultDays \<Rightarrow>
            (case readInteger environment ''RETENTION_HISTORY_DAYS'' historyDefault 1 36500 of Inl e \<Rightarrow> Inl e
             | Inr historyDays \<Rightarrow>
            (case readInteger environment ''RETENTION_BATCH_SIZE'' sizeDefault 1 10000 of Inl e \<Rightarrow> Inl e
             | Inr batchSize \<Rightarrow>
            (case readInteger environment ''RETENTION_MAX_BATCHES_PER_STEP'' batchesDefault 1 1000 of Inl e \<Rightarrow> Inl e
             | Inr maxBatches \<Rightarrow>
               Inr \<lparr>rc_databaseUrl = databaseUrl, rc_checkResultDays = checkResultDays,
                 rc_historyDays = historyDays, rc_batchSize = nat batchSize,
                 rc_maxBatchesPerStep = nat maxBatches\<rparr>))))))"

section \<open>Statements\<close>

text \<open>Truth values of SQL; a row is selected when its condition is \<open>Some True\<close>.\<close>

type_synonym sql_bool = "bool option"

fun sql_and :: "sql_bool \<Rightarrow> sql_bool \<Rightarrow> sql_bool" where
  "sql_and (Some False) b = Some False"
| "sql_and a (Some False) = Some False"
| "sql_and (Some True) b = b"
| "sql_and None b = None"

definition sql_not :: "sql_bool \<Rightarrow> sql_bool" where
  "sql_not a = map_option Not a"

definition sql_eq :: "'a option \<Rightarrow> 'a \<Rightarrow> sql_bool" where
  "sql_eq a b = map_option (\<lambda>x. x = b) a"

fun sql_all :: "sql_bool list \<Rightarrow> sql_bool" where
  "sql_all [] = Some True"
| "sql_all (a # as) = sql_and a (sql_all as)"

record retention_env =
  re_locked :: "id \<Rightarrow> bool"
  re_updatedAt :: "id \<Rightarrow> time"
  re_acquired :: bool

text \<open>
  One step: the ids its \<open>SELECT\<close> finds in order, before \<open>LIMIT\<close>, and what its second statement
  does with a list of ids, with the number of affected rows.
\<close>

record retention_step =
  ry_key :: string
  ry_select :: "db \<Rightarrow> id list"
  ry_mutate :: "id list \<Rightarrow> db \<Rightarrow> js_error + nat \<times> db"

definition candidates :: "retention_env \<Rightarrow> ('r \<Rightarrow> id) \<Rightarrow> ('r \<Rightarrow> time) \<Rightarrow> ('r \<Rightarrow> bool) \<Rightarrow> 'r list \<Rightarrow> id list" where
  "candidates env idf at_time p rows =
     map idf (sort_key (\<lambda>r. (at_time r, idf r)) (filter (\<lambda>r. p r \<and> \<not> re_locked env (idf r)) rows))"

definition time_or_zero :: "time option \<Rightarrow> time" where
  "time_or_zero t = (case t of None \<Rightarrow> 0 | Some x \<Rightarrow> x)"

text \<open>A deleted row must not be referenced by a row that restricts it.\<close>

definition restrict_deletes :: "(id \<Rightarrow> db \<Rightarrow> bool) \<Rightarrow> id list \<Rightarrow> db \<Rightarrow> nat \<times> db \<Rightarrow> js_error + nat \<times> db" where
  "restrict_deletes referenced ids d result =
     (if list_ex (\<lambda>i. referenced i d) ids
      then Inl (PlainError ''Cannot delete or update a parent row: a foreign key constraint fails'')
      else Inr result)"

definition deletedMonitors :: "retention_env \<Rightarrow> retention_step" where
  "deletedMonitors env =
     \<lparr>ry_key = ''deletedMonitors'',
      ry_select = (\<lambda>d. candidates env mo_id (\<lambda>m. time_or_zero (mo_deletedAt m))
        (\<lambda>m. mo_deletedAt m \<noteq> None \<and> mo_requestUrlEncrypted m \<noteq> secretTombstoneBytes) (monitors d)),
      ry_mutate = (\<lambda>ids d. Inr (count_where (\<lambda>m. mo_id m \<in> set ids) (monitors d),
        d\<lparr>monitors := update_where (\<lambda>m. mo_id m \<in> set ids)
            (\<lambda>m. m\<lparr>mo_requestUrlEncrypted := secretTombstoneBytes\<rparr>) (monitors d)\<rparr>))\<rparr>"

definition deletedNotificationChannels :: "retention_env \<Rightarrow> retention_step" where
  "deletedNotificationChannels env =
     \<lparr>ry_key = ''deletedNotificationChannels'',
      ry_select = (\<lambda>d. candidates env ch_id (\<lambda>c. time_or_zero (ch_deletedAt c))
        (\<lambda>c. ch_deletedAt c \<noteq> None \<and> ch_encryptedConfig c \<noteq> secretTombstoneBytes) (channels d)),
      ry_mutate = (\<lambda>ids d. Inr (count_where (\<lambda>c. ch_id c \<in> set ids) (channels d),
        d\<lparr>channels := update_where (\<lambda>c. ch_id c \<in> set ids)
            (\<lambda>c. c\<lparr>ch_encryptedConfig := secretTombstoneBytes\<rparr>) (channels d)\<rparr>))\<rparr>"

text \<open>The subqueries of the third redaction.\<close>

definition live_channel :: "db \<Rightarrow> id \<Rightarrow> bool" where
  "live_channel d i = list_ex (\<lambda>c. ch_id c = i \<and> ch_enabled c \<and> ch_deletedAt c = None) (channels d)"

definition recovery_binding :: "db \<Rightarrow> id option \<Rightarrow> id \<Rightarrow> bool" where
  "recovery_binding d monitorId channelId =
     list_ex (\<lambda>b. Some (mc_monitorId b) = monitorId \<and> mc_channelId b = channelId \<and> mc_notifyOnRecovery b)
       (monitorChannels d)"

text \<open>\<open>JSON_UNQUOTE(JSON_EXTRACT(payload_safe, '$.notifyOnRecovery')) = 'true'\<close>\<close>

definition payload_flag :: "json \<Rightarrow> sql_bool" where
  "payload_flag payload =
     map_option (\<lambda>v. v = JBool True \<or> v = JStr (js ''true'')) (jget payload (js ''notifyOnRecovery''))"

definition awaits_recovery :: "db \<Rightarrow> NotificationOutbox \<Rightarrow> sql_bool" where
  "awaits_recovery d r =
     sql_all [Some (ob_eventType r = NotificationEventType.DOWN), Some (ob_status r = SENT),
       payload_flag (ob_payloadSafe r),
       Some (list_ex (\<lambda>i. Some (ic_id i) = ob_incidentId r \<and> open_incident i) (incidents d)),
       Some (live_channel d (ob_channelId r)),
       Some (recovery_binding d (ob_monitorId r) (ob_channelId r))]"

definition may_be_reactivated :: "db \<Rightarrow> NotificationOutbox \<Rightarrow> sql_bool" where
  "may_be_reactivated d r =
     sql_all [Some (ob_eventType r = RECOVERY), Some (ob_status r = NotificationOutboxStatus.CANCELED),
       sql_eq (ob_lastErrorSafe r) DOWN_NOT_DELIVERED_RECOVERY_CANCEL_REASON,
       Some (live_channel d (ob_channelId r)),
       Some (list_ex (\<lambda>x. ob_incidentId r \<noteq> None \<and> ob_incidentId x = ob_incidentId r \<and>
          ob_channelId x = ob_channelId r \<and> ob_eventType x = NotificationEventType.DOWN \<and>
          ob_status x \<noteq> NotificationOutboxStatus.CANCELED) (outbox d)),
       Some (recovery_binding d (ob_monitorId r) (ob_channelId r))]"

definition retired_secret :: "db \<Rightarrow> NotificationOutbox \<Rightarrow> bool" where
  "retired_secret d r \<longleftrightarrow>
     sql_all [Some (terminal_outbox r), Some (ob_encryptedConfigSnapshot r \<noteq> secretTombstoneBytes),
       sql_not (awaits_recovery d r), sql_not (may_be_reactivated d r)] = Some True"

definition terminalNotificationOutbox :: "retention_env \<Rightarrow> retention_step" where
  "terminalNotificationOutbox env =
     \<lparr>ry_key = ''terminalNotificationOutbox'',
      ry_select = (\<lambda>d. candidates env ob_id (\<lambda>r. re_updatedAt env (ob_id r)) (retired_secret d) (outbox d)),
      ry_mutate = (\<lambda>ids d. Inr (count_where (\<lambda>r. ob_id r \<in> set ids) (outbox d),
        d\<lparr>outbox := update_where (\<lambda>r. ob_id r \<in> set ids)
            (\<lambda>r. r\<lparr>ob_encryptedConfigSnapshot := secretTombstoneBytes\<rparr>) (outbox d)\<rparr>))\<rparr>"

definition RETENTION_REDACTION_STEPS :: "retention_env \<Rightarrow> retention_step list" where
  "RETENTION_REDACTION_STEPS env =
     [deletedMonitors env, deletedNotificationChannels env, terminalNotificationOutbox env]"

definition old_checkResults :: "retention_env \<Rightarrow> time \<Rightarrow> retention_step" where
  "old_checkResults env cutoff =
     \<lparr>ry_key = ''checkResults'',
      ry_select = (\<lambda>d. candidates env cr_id cr_finishedAt (\<lambda>r. cr_finishedAt r < cutoff) (checkResults d)),
      ry_mutate = (\<lambda>ids d. Inr (count_where (\<lambda>r. cr_id r \<in> set ids) (checkResults d),
        d\<lparr>checkResults := filter (\<lambda>r. cr_id r \<notin> set ids) (checkResults d)\<rparr>))\<rparr>"

definition check_end :: "retention_env \<Rightarrow> ScheduledCheck \<Rightarrow> time" where
  "check_end env c =
     (case coalesce (sc_completedAt c) (sc_canceledAt c) of Some t \<Rightarrow> t | None \<Rightarrow> re_updatedAt env (sc_id c))"

definition has_check_result :: "id \<Rightarrow> db \<Rightarrow> bool" where
  "has_check_result i d = list_ex (\<lambda>r. cr_scheduledCheckId r = Some i) (checkResults d)"

definition old_scheduledChecks :: "retention_env \<Rightarrow> time \<Rightarrow> retention_step" where
  "old_scheduledChecks env cutoff =
     \<lparr>ry_key = ''scheduledChecks'',
      ry_select = (\<lambda>d. candidates env sc_id (check_end env)
        (\<lambda>c. (sc_status c = ScheduledCheckStatus.COMPLETED \<or> sc_status c = ScheduledCheckStatus.FAILED \<or>
              sc_status c = ScheduledCheckStatus.CANCELED) \<and> check_end env c < cutoff \<and>
             \<not> has_check_result (sc_id c) d) (scheduledChecks d)),
      ry_mutate = (\<lambda>ids d. restrict_deletes has_check_result ids d
        (count_where (\<lambda>c. sc_id c \<in> set ids) (scheduledChecks d),
         d\<lparr>scheduledChecks := filter (\<lambda>c. sc_id c \<notin> set ids) (scheduledChecks d)\<rparr>))\<rparr>"

definition outbox_end :: "retention_env \<Rightarrow> NotificationOutbox \<Rightarrow> time" where
  "outbox_end env r =
     (case coalesce (ob_sentAt r) (coalesce (ob_failedAt r) (ob_canceledAt r)) of
        Some t \<Rightarrow> t | None \<Rightarrow> re_updatedAt env (ob_id r))"

definition delivery_end :: "NotificationDelivery \<Rightarrow> time" where
  "delivery_end n = (case nd_finishedAt n of Some t \<Rightarrow> t | None \<Rightarrow> nd_createdAt n)"

definition old_notificationDeliveries :: "retention_env \<Rightarrow> time \<Rightarrow> retention_step" where
  "old_notificationDeliveries env cutoff =
     \<lparr>ry_key = ''notificationDeliveries'',
      ry_select = (\<lambda>d. candidates env nd_id delivery_end
        (\<lambda>n. delivery_end n < cutoff \<and>
             list_ex (\<lambda>r. ob_id r = nd_outboxId n \<and> terminal_outbox r \<and> outbox_end env r < cutoff) (outbox d))
        (deliveries d)),
      ry_mutate = (\<lambda>ids d. Inr (count_where (\<lambda>n. nd_id n \<in> set ids) (deliveries d),
        d\<lparr>deliveries := filter (\<lambda>n. nd_id n \<notin> set ids) (deliveries d)\<rparr>))\<rparr>"

definition has_delivery :: "id \<Rightarrow> db \<Rightarrow> bool" where
  "has_delivery i d = list_ex (\<lambda>n. nd_outboxId n = i) (deliveries d)"

definition old_notificationOutbox :: "retention_env \<Rightarrow> time \<Rightarrow> retention_step" where
  "old_notificationOutbox env cutoff =
     \<lparr>ry_key = ''notificationOutbox'',
      ry_select = (\<lambda>d. candidates env ob_id (outbox_end env)
        (\<lambda>r. terminal_outbox r \<and> outbox_end env r < cutoff \<and> \<not> has_delivery (ob_id r) d) (outbox d)),
      ry_mutate = (\<lambda>ids d. restrict_deletes has_delivery ids d
        (count_where (\<lambda>r. ob_id r \<in> set ids) (outbox d),
         d\<lparr>outbox := filter (\<lambda>r. ob_id r \<notin> set ids) (outbox d)\<rparr>))\<rparr>"

definition has_notification :: "id \<Rightarrow> db \<Rightarrow> bool" where
  "has_notification i d = list_ex (\<lambda>r. ob_incidentId r = Some i) (outbox d)"

definition old_incident :: "time \<Rightarrow> Incident \<Rightarrow> bool" where
  "old_incident cutoff i \<longleftrightarrow>
     (ic_status i = RESOLVED \<or> ic_status i = IncidentStatus.CANCELED) \<and>
     (case coalesce (ic_resolvedAt i) (ic_canceledAt i) of None \<Rightarrow> False | Some t \<Rightarrow> t < cutoff)"

definition old_incidents :: "retention_env \<Rightarrow> time \<Rightarrow> retention_step" where
  "old_incidents env cutoff =
     \<lparr>ry_key = ''incidents'',
      ry_select = (\<lambda>d. candidates env ic_id (\<lambda>i. time_or_zero (coalesce (ic_resolvedAt i) (ic_canceledAt i)))
        (\<lambda>i. old_incident cutoff i \<and> \<not> has_notification (ic_id i) d) (incidents d)),
      ry_mutate = (\<lambda>ids d. restrict_deletes has_notification ids d
        (count_where (\<lambda>i. ic_id i \<in> set ids) (incidents d),
         d\<lparr>incidents := filter (\<lambda>i. ic_id i \<notin> set ids) (incidents d)\<rparr>))\<rparr>"

definition old_auditLogs :: "retention_env \<Rightarrow> time \<Rightarrow> retention_step" where
  "old_auditLogs env cutoff =
     \<lparr>ry_key = ''auditLogs'',
      ry_select = (\<lambda>d. candidates env al_id al_createdAt (\<lambda>a. al_createdAt a < cutoff) (auditLogs d)),
      ry_mutate = (\<lambda>ids d. Inr (count_where (\<lambda>a. al_id a \<in> set ids) (auditLogs d),
        d\<lparr>auditLogs := filter (\<lambda>a. al_id a \<notin> set ids) (auditLogs d)\<rparr>))\<rparr>"

definition RETENTION_STEPS :: "retention_env \<Rightarrow> time \<Rightarrow> time \<Rightarrow> retention_step list" where
  "RETENTION_STEPS env checkResultCutoff historyCutoff =
     [old_checkResults env checkResultCutoff, old_scheduledChecks env checkResultCutoff,
      old_notificationDeliveries env historyCutoff, old_notificationOutbox env historyCutoff,
      old_incidents env historyCutoff, old_auditLogs env historyCutoff]"

section \<open>The run\<close>

definition ADVISORY_LOCK_NAME :: string where "ADVISORY_LOCK_NAME = ''linkalive:retention:v1''"

definition mutateLockedCandidates :: "retention_step \<Rightarrow> nat \<Rightarrow> db \<Rightarrow> js_error + nat \<times> db" where
  "mutateLockedCandidates step batchSize d =
     (let ids = take batchSize (ry_select step d)
      in if ids = [] then Inr (0, d)
         else (case ry_mutate step ids d of Inl e \<Rightarrow> Inl e
               | Inr (affectedRows, d') \<Rightarrow>
                   if affectedRows \<noteq> length ids
                   then Inl (PlainError ''The retention mutation did not affect every locked candidate.'')
                   else Inr (affectedRows, d')))"

record step_result =
  sr_batches :: nat
  sr_rows :: nat
  sr_limitReached :: bool

text \<open>The loop of one step, with the size of the last batch; committed batches stay on an error.\<close>

fun run_batches ::
  "nat \<Rightarrow> retention_step \<Rightarrow> nat \<Rightarrow> nat \<times> nat \<times> nat \<Rightarrow> db \<Rightarrow> (js_error + nat \<times> nat \<times> nat) \<times> db" where
  "run_batches batchSize step 0 acc d = (Inr acc, d)"
| "run_batches batchSize step (Suc k) (batches, rows, last_size) d =
     (case mutateLockedCandidates step batchSize d of Inl e \<Rightarrow> (Inl e, d)
      | Inr (n, d') \<Rightarrow>
          if n < batchSize then (Inr (batches + 1, rows + n, n), d')
          else run_batches batchSize step k (batches + 1, rows + n, n) d')"

definition run_step :: "nat \<Rightarrow> nat \<Rightarrow> retention_step \<Rightarrow> db \<Rightarrow> (js_error + step_result) \<times> db" where
  "run_step maxBatches batchSize step d =
     (case run_batches batchSize step maxBatches (0, 0, 0) d of
        (Inl e, d') \<Rightarrow> (Inl e, d')
      | (Inr (batches, rows, last_size), d') \<Rightarrow>
          (Inr \<lparr>sr_batches = batches, sr_rows = rows,
                sr_limitReached = (batches = maxBatches \<and> last_size = batchSize)\<rparr>, d'))"

fun run_steps ::
  "nat \<Rightarrow> nat \<Rightarrow> retention_step list \<Rightarrow> db \<Rightarrow> (js_error + (string \<times> step_result) list) \<times> db" where
  "run_steps maxBatches batchSize [] d = (Inr [], d)"
| "run_steps maxBatches batchSize (step # steps) d =
     (case run_step maxBatches batchSize step d of (Inl e, d') \<Rightarrow> (Inl e, d')
      | (Inr r, d') \<Rightarrow>
         (case run_steps maxBatches batchSize steps d' of (Inl e, d'') \<Rightarrow> (Inl e, d'')
          | (Inr rs, d'') \<Rightarrow> (Inr ((ry_key step, r) # rs), d'')))"

record RetentionCompletedResult =
  rt_boundaryAt :: time
  rt_checkResultCutoff :: time
  rt_historyCutoff :: time
  rt_steps :: "(string \<times> step_result) list"
  rt_secretRedactions :: "(string \<times> step_result) list"
  rt_totalDeleted :: nat
  rt_totalRedacted :: nat

datatype RetentionRunResult = Retention_Skipped | Retention_Completed RetentionCompletedResult

definition day_ms :: int where "day_ms = 86400000"

definition runRetention ::
  "retention_env \<Rightarrow> RetentionConfig \<Rightarrow> time \<Rightarrow> db \<Rightarrow> (js_error + RetentionRunResult) \<times> db" where
  "runRetention env config boundaryAt d =
     (if \<not> re_acquired env then (Inr Retention_Skipped, d)
      else
       (let checkResultCutoff = boundaryAt - rc_checkResultDays config * day_ms;
            historyCutoff = boundaryAt - rc_historyDays config * day_ms
        in (case run_steps (rc_maxBatchesPerStep config) (rc_batchSize config)
                  (RETENTION_REDACTION_STEPS env) d of
              (Inl e, d1) \<Rightarrow> (Inl e, d1)
            | (Inr secretRedactions, d1) \<Rightarrow>
               (case run_steps (rc_maxBatchesPerStep config) (rc_batchSize config)
                       (RETENTION_STEPS env checkResultCutoff historyCutoff) d1 of
                  (Inl e, d2) \<Rightarrow> (Inl e, d2)
                | (Inr steps, d2) \<Rightarrow>
                    (Inr (Retention_Completed
                       \<lparr>rt_boundaryAt = boundaryAt, rt_checkResultCutoff = checkResultCutoff,
                        rt_historyCutoff = historyCutoff, rt_steps = steps,
                        rt_secretRedactions = secretRedactions,
                        rt_totalDeleted = sum_list (map (sr_rows \<circ> snd) steps),
                        rt_totalRedacted = sum_list (map (sr_rows \<circ> snd) secretRedactions)\<rparr>), d2)))))"

end
