(* ===== verification/Retention_Guarantees.thy ===== *)
theory Retention_Guarantees
  imports Retention
begin

text \<open>
  The retention command never fails on a consistent database, its steps stay in their bounds and
  drain their candidates, it deletes only what is finished and old, keeps the references between
  rows and the consistency of monitors and incidents, and leaves the secrets a recovery may
  still need.
\<close>

section \<open>A step that drains its candidates\<close>

text \<open>
  The contract between a step and the loop over it: on an invariant of the database, mutating
  the first candidates succeeds, affects each of them, and leaves exactly the others as
  candidates.
\<close>

locale drained_step =
  fixes inv :: "db \<Rightarrow> bool" and step :: retention_step
  assumes mutate_ok: "inv d \<Longrightarrow> \<exists>d'. ry_mutate step (take n (ry_select step d)) d =
      Inr (length (take n (ry_select step d)), d') \<and> ry_select step d' = drop n (ry_select step d) \<and> inv d'"
begin

lemma mutate_locked:
  assumes "inv d"
  shows "\<exists>d'. mutateLockedCandidates step n d = Inr (min n (length (ry_select step d)), d') \<and>
    ry_select step d' = drop n (ry_select step d) \<and> inv d'"
proof (cases "take n (ry_select step d) = []")
  case True
  then have "drop n (ry_select step d) = ry_select step d" "min n (length (ry_select step d)) = 0" by auto
  with True assms show ?thesis by (simp add: mutateLockedCandidates_def)
next
  case False
  with mutate_ok[OF assms, of n] show ?thesis by (auto simp: mutateLockedCandidates_def Let_def min.commute)
qed

lemma batches_drain:
  assumes "inv d" "0 < batchSize"
  shows "\<exists>b l d'. run_batches batchSize step k (b0, r0, l0) d =
      (Inr (b0 + b, r0 + min (k * batchSize) (length (ry_select step d)), l), d') \<and> b \<le> k \<and>
      ((b = k \<and> l = batchSize) = (k * batchSize \<le> length (ry_select step d) \<and> (k = 0 \<longrightarrow> l0 = batchSize))) \<and>
      ry_select step d' = drop (k * batchSize) (ry_select step d) \<and> inv d'"
  using assms
proof (induction k arbitrary: b0 r0 l0 d)
  case 0
  then show ?case by auto
next
  case (Suc k)
  let ?c = "ry_select step d"
  obtain d1 where d1: "mutateLockedCandidates step batchSize d = Inr (min batchSize (length ?c), d1)"
    "ry_select step d1 = drop batchSize ?c" "inv d1"
    using mutate_locked[OF Suc.prems(1)] by blast
  show ?case
  proof (cases "length ?c < batchSize")
    case True
    have "drop (Suc k * batchSize) ?c = []" "drop batchSize ?c = []" using True by simp_all
    with True d1 show ?thesis
      by (intro exI[of _ 1] exI[of _ "length ?c"] exI[of _ d1]) auto
  next
    case False
    then have n: "min batchSize (length ?c) = batchSize" by simp
    obtain b l d' where rest: "run_batches batchSize step k (b0 + 1, r0 + batchSize, batchSize) d1 =
        (Inr (b0 + 1 + b, r0 + batchSize + min (k * batchSize) (length (drop batchSize ?c)), l), d')"
      "b \<le> k" "(b = k \<and> l = batchSize) =
         (k * batchSize \<le> length (drop batchSize ?c) \<and> (k = 0 \<longrightarrow> batchSize = batchSize))"
      "ry_select step d' = drop (k * batchSize) (drop batchSize ?c)" "inv d'"
      using Suc.IH[OF d1(3) Suc.prems(2), of "b0 + 1" "r0 + batchSize" batchSize] d1(2) by auto
    have "batchSize + min (k * batchSize) (length (drop batchSize ?c)) = min (Suc k * batchSize) (length ?c)"
      using False by auto
    then have "run_batches batchSize step (Suc k) (b0, r0, l0) d =
        (Inr (b0 + Suc b, r0 + min (Suc k * batchSize) (length ?c), l), d')"
      using d1(1) n rest(1) by (simp add: add.assoc)
    moreover have "(Suc b = Suc k \<and> l = batchSize) = (Suc k * batchSize \<le> length ?c)"
      using rest(3) False by auto
    moreover have "ry_select step d' = drop (Suc k * batchSize) ?c" using rest(4) by (simp add: add.commute)
    ultimately show ?thesis using rest(2,5) by (intro exI[of _ "Suc b"] exI[of _ l] exI[of _ d']) simp
  qed
qed

text \<open>One whole step: it succeeds within its bounds and stops early only when nothing is left.\<close>

lemma step_drains:
  assumes "inv d" "0 < batchSize" "0 < maxBatches"
  shows "\<exists>r d'. run_step maxBatches batchSize step d = (Inr r, d') \<and> inv d' \<and> sr_batches r \<le> maxBatches \<and>
    sr_rows r = min (maxBatches * batchSize) (length (ry_select step d)) \<and>
    ry_select step d' = drop (sr_rows r) (ry_select step d) \<and>
    (\<not> sr_limitReached r \<longrightarrow> ry_select step d' = [])"
proof -
  let ?c = "ry_select step d"
  obtain b l d' where r: "run_batches batchSize step maxBatches (0, 0, 0) d =
      (Inr (b, min (maxBatches * batchSize) (length ?c), l), d')" "b \<le> maxBatches"
    "(b = maxBatches \<and> l = batchSize) = (maxBatches * batchSize \<le> length ?c)"
    "ry_select step d' = drop (maxBatches * batchSize) ?c" "inv d'"
    using batches_drain[OF assms(1,2), of maxBatches 0 0 0] assms(3) by auto
  have "drop (min (maxBatches * batchSize) (length ?c)) ?c = drop (maxBatches * batchSize) ?c"
    by (simp add: min_def)
  then show ?thesis using r by (auto simp: run_step_def)
qed

end

section \<open>Tables with candidates\<close>

lemma filter_not_taken:
  assumes "distinct xs"
  shows "filter (\<lambda>x. x \<notin> set (take n xs)) xs = drop n xs"
proof -
  have "filter (\<lambda>x. x \<notin> set (take n xs)) (take n xs) = []" by (simp add: filter_empty_conv)
  moreover have "filter (\<lambda>x. x \<notin> set (take n xs)) (drop n xs) = drop n xs"
    by (rule filter_True) (use set_take_disj_set_drop_if_distinct[OF assms, of n n] in auto)
  ultimately have "filter (\<lambda>x. x \<notin> set (take n xs)) (take n xs @ drop n xs) = drop n xs"
    unfolding filter_append by simp
  then show ?thesis by (simp only: append_take_drop_id)
qed

lemma candidates_drop:
  assumes "distinct (map idf rows)"
    and "filter (\<lambda>r. p' r \<and> \<not> re_locked env (idf r)) rows' =
      filter (\<lambda>r. idf r \<notin> set (take n (candidates env idf t p rows))) (filter (\<lambda>r. p r \<and> \<not> re_locked env (idf r)) rows)"
  shows "candidates env idf t p' rows' = drop n (candidates env idf t p rows)"
proof -
  let ?sorted = "sort_key (\<lambda>r. (t r, idf r)) (filter (\<lambda>r. p r \<and> \<not> re_locked env (idf r)) rows)"
  let ?ids = "take n (candidates env idf t p rows)"
  have "candidates env idf t p' rows' = map idf (filter (\<lambda>r. idf r \<notin> set ?ids) ?sorted)"
    unfolding candidates_def[of env idf t p' rows'] assms(2) by (simp only: filter_sort)
  also have "\<dots> = filter (\<lambda>i. i \<notin> set ?ids) (map idf ?sorted)" by (simp add: filter_map comp_def)
  also have "map idf ?sorted = candidates env idf t p rows" by (simp add: candidates_def)
  also have "filter (\<lambda>i. i \<notin> set ?ids) (candidates env idf t p rows) = drop n (candidates env idf t p rows)"
  proof (rule filter_not_taken)
    have "distinct (map idf ?sorted)"
      using assms(1) by (simp add: distinct_map inj_on_def)
    then show "distinct (candidates env idf t p rows)" by (simp add: candidates_def)
  qed
  finally show ?thesis .
qed

lemma candidates_delete:
  assumes "distinct (map idf rows)"
  shows "candidates env idf t p (filter (\<lambda>r. idf r \<notin> set (take n (candidates env idf t p rows))) rows) =
    drop n (candidates env idf t p rows)"
  by (rule candidates_drop[OF assms]) (simp add: conj_ac cong: conj_cong)

lemma candidates_update:
  assumes "distinct (map idf rows)" "\<And>r. idf (f r) = idf r" "\<And>r. \<not> p' (f r)" "\<And>r. p' r = p r"
  shows "candidates env idf t p' (update_where (\<lambda>r. idf r \<in> set (take n (candidates env idf t p rows))) f rows) =
    drop n (candidates env idf t p rows)"
proof (rule candidates_drop[OF assms(1)])
  let ?ids = "set (take n (candidates env idf t p rows))"
  have "filter (\<lambda>r. p' r \<and> \<not> re_locked env (idf r)) (update_where (\<lambda>r. idf r \<in> A) f xs) =
      filter (\<lambda>r. idf r \<notin> A) (filter (\<lambda>r. p r \<and> \<not> re_locked env (idf r)) xs)" for A xs
    by (induction xs) (use assms(2-4) in auto)
  then show "filter (\<lambda>r. p' r \<and> \<not> re_locked env (idf r)) (update_where (\<lambda>r. idf r \<in> ?ids) f rows) =
      filter (\<lambda>r. idf r \<notin> ?ids) (filter (\<lambda>r. p r \<and> \<not> re_locked env (idf r)) rows)" .
qed

lemma candidates_count:
  assumes "distinct (map idf rows)"
  shows "count_where (\<lambda>r. idf r \<in> set (take n (candidates env idf t p rows))) rows =
    length (take n (candidates env idf t p rows))"
proof -
  let ?ids = "take n (candidates env idf t p rows)"
  have ids: "distinct ?ids" "set ?ids \<subseteq> idf ` set rows"
  proof -
    have "distinct (candidates env idf t p rows)"
      using assms by (simp add: candidates_def distinct_map inj_on_def)
    then show "distinct ?ids" by simp
    show "set ?ids \<subseteq> idf ` set rows" using set_take_subset[of n "candidates env idf t p rows"]
      by (auto simp: candidates_def)
  qed
  have "map idf (filter (\<lambda>r. idf r \<in> set ?ids) rows) = filter (\<lambda>i. i \<in> set ?ids) (map idf rows)"
    by (simp add: filter_map comp_def)
  then have "count_where (\<lambda>r. idf r \<in> set ?ids) rows = length (filter (\<lambda>i. i \<in> set ?ids) (map idf rows))"
    unfolding count_where_def by (metis length_map)
  also have "\<dots> = card (set (filter (\<lambda>i. i \<in> set ?ids) (map idf rows)))"
    by (rule distinct_card[symmetric]) (use assms in simp)
  also have "set (filter (\<lambda>i. i \<in> set ?ids) (map idf rows)) = set ?ids" using ids(2) by auto
  also have "card (set ?ids) = length ?ids" using ids(1) by (rule distinct_card)
  finally show ?thesis .
qed

lemma candidate_row:
  assumes "i \<in> set (take n (candidates env idf t p rows))"
  obtains r where "r \<in> set rows" "idf r = i" "p r" "\<not> re_locked env i"
proof -
  from assms have "i \<in> set (candidates env idf t p rows)" by (rule in_set_takeD)
  then show thesis using that by (auto simp: candidates_def)
qed


section \<open>The nine steps\<close>

definition unique_ids :: "db \<Rightarrow> bool" where
  "unique_ids d \<longleftrightarrow>
     distinct (map mo_id (monitors d)) \<and> distinct (map ch_id (channels d)) \<and>
     distinct (map ob_id (outbox d)) \<and> distinct (map cr_id (checkResults d)) \<and>
     distinct (map sc_id (scheduledChecks d)) \<and> distinct (map nd_id (deliveries d)) \<and>
     distinct (map ic_id (incidents d)) \<and> distinct (map al_id (auditLogs d))"

lemma ids_after_update:
  "(\<And>r. idf (f r) = idf r) \<Longrightarrow> map idf (update_where p f rows) = map idf rows"
  by (rule map_update_where_frame)

interpretation deletedMonitors: drained_step unique_ids "deletedMonitors env" for env
proof
  fix d n
  assume u: "unique_ids d"
  let ?f = "\<lambda>m :: Monitor. m\<lparr>mo_requestUrlEncrypted := secretTombstoneBytes\<rparr>"
  have ids: "distinct (map mo_id (monitors d))" using u by (simp add: unique_ids_def)
  show "\<exists>d'. ry_mutate (deletedMonitors env) (take n (ry_select (deletedMonitors env) d)) d =
      Inr (length (take n (ry_select (deletedMonitors env) d)), d') \<and>
      ry_select (deletedMonitors env) d' = drop n (ry_select (deletedMonitors env) d) \<and> unique_ids d'"
    using u candidates_count[OF ids] candidates_update[OF ids, of ?f] ids_after_update[of mo_id ?f]
    by (auto simp: deletedMonitors_def unique_ids_def)
qed

interpretation deletedNotificationChannels: drained_step unique_ids "deletedNotificationChannels env" for env
proof
  fix d n
  assume u: "unique_ids d"
  let ?f = "\<lambda>c :: NotificationChannel. c\<lparr>ch_encryptedConfig := secretTombstoneBytes\<rparr>"
  have ids: "distinct (map ch_id (channels d))" using u by (simp add: unique_ids_def)
  show "\<exists>d'. ry_mutate (deletedNotificationChannels env) (take n (ry_select (deletedNotificationChannels env) d)) d =
      Inr (length (take n (ry_select (deletedNotificationChannels env) d)), d') \<and>
      ry_select (deletedNotificationChannels env) d' = drop n (ry_select (deletedNotificationChannels env) d) \<and>
      unique_ids d'"
    using u candidates_count[OF ids] candidates_update[OF ids, of ?f] ids_after_update[of ch_id ?f]
    by (auto simp: deletedNotificationChannels_def unique_ids_def)
qed

lemma list_ex_update_where:
  "(\<And>r. q (f r) = q r) \<Longrightarrow> list_ex q (update_where p f rows) = list_ex q rows"
  by (induction rows) auto

lemma retired_secret_redacted:
  "retired_secret (d\<lparr>outbox := update_where p (\<lambda>r. r\<lparr>ob_encryptedConfigSnapshot := v\<rparr>) (outbox d)\<rparr>) r =
   retired_secret d r"
  by (simp add: retired_secret_def awaits_recovery_def may_be_reactivated_def live_channel_def
      recovery_binding_def list_ex_update_where)

lemma sql_and_True: "sql_and a b = Some True \<longleftrightarrow> a = Some True \<and> b = Some True"
  by (cases a; cases b) (auto split: bool.splits elim: sql_and.elims)

lemma redacted_not_retired: "\<not> retired_secret d (r\<lparr>ob_encryptedConfigSnapshot := secretTombstoneBytes\<rparr>)"
  by (simp add: retired_secret_def sql_and_True)

interpretation terminalNotificationOutbox: drained_step unique_ids "terminalNotificationOutbox env" for env
proof
  fix d n
  assume u: "unique_ids d"
  let ?f = "\<lambda>r :: NotificationOutbox. r\<lparr>ob_encryptedConfigSnapshot := secretTombstoneBytes\<rparr>"
  have ids: "distinct (map ob_id (outbox d))" using u by (simp add: unique_ids_def)
  let ?d' = "\<lambda>ids. d\<lparr>outbox := update_where (\<lambda>r. ob_id r \<in> set ids) ?f (outbox d)\<rparr>"
  have "candidates env ob_id t (retired_secret (?d' (take n (candidates env ob_id t (retired_secret d) (outbox d)))))
      (update_where (\<lambda>r. ob_id r \<in> set (take n (candidates env ob_id t (retired_secret d) (outbox d)))) ?f (outbox d)) =
    drop n (candidates env ob_id t (retired_secret d) (outbox d))" for t
    by (rule candidates_update[OF ids]) (simp_all add: redacted_not_retired retired_secret_redacted)
  then show "\<exists>d'. ry_mutate (terminalNotificationOutbox env) (take n (ry_select (terminalNotificationOutbox env) d)) d =
      Inr (length (take n (ry_select (terminalNotificationOutbox env) d)), d') \<and>
      ry_select (terminalNotificationOutbox env) d' = drop n (ry_select (terminalNotificationOutbox env) d) \<and>
      unique_ids d'"
    using u candidates_count[OF ids] ids_after_update[of ob_id ?f]
    by (auto simp: terminalNotificationOutbox_def unique_ids_def)
qed

interpretation old_checkResults: drained_step unique_ids "old_checkResults env cutoff" for env cutoff
proof
  fix d n
  assume u: "unique_ids d"
  have ids: "distinct (map cr_id (checkResults d))" using u by (simp add: unique_ids_def)
  show "\<exists>d'. ry_mutate (old_checkResults env cutoff) (take n (ry_select (old_checkResults env cutoff) d)) d =
      Inr (length (take n (ry_select (old_checkResults env cutoff) d)), d') \<and>
      ry_select (old_checkResults env cutoff) d' = drop n (ry_select (old_checkResults env cutoff) d) \<and> unique_ids d'"
    using u candidates_count[OF ids] candidates_delete[OF ids]
    by (auto simp: old_checkResults_def unique_ids_def distinct_map_filter)
qed

lemma restrict_deletes_Inr:
  "(\<And>i. i \<in> set ids \<Longrightarrow> \<not> referenced i d) \<Longrightarrow> restrict_deletes referenced ids d result = Inr result"
  by (auto simp: restrict_deletes_def list_ex_iff)

interpretation old_scheduledChecks: drained_step unique_ids "old_scheduledChecks env cutoff" for env cutoff
proof
  fix d n
  assume u: "unique_ids d"
  have ids: "distinct (map sc_id (scheduledChecks d))" using u by (simp add: unique_ids_def)
  have frame: "has_check_result i (d\<lparr>scheduledChecks := rows\<rparr>) = has_check_result i d" for i rows by (simp add: has_check_result_def)
  have free: "\<not> has_check_result i d" if "i \<in> set (take n (ry_select (old_scheduledChecks env cutoff) d))" for i
    using that unfolding old_scheduledChecks_def by (auto elim: candidate_row)
  show "\<exists>d'. ry_mutate (old_scheduledChecks env cutoff) (take n (ry_select (old_scheduledChecks env cutoff) d)) d =
      Inr (length (take n (ry_select (old_scheduledChecks env cutoff) d)), d') \<and>
      ry_select (old_scheduledChecks env cutoff) d' = drop n (ry_select (old_scheduledChecks env cutoff) d) \<and>
      unique_ids d'"
    using u candidates_count[OF ids] candidates_delete[OF ids] restrict_deletes_Inr[of _ has_check_result d, OF free]
    by (auto simp: old_scheduledChecks_def unique_ids_def distinct_map_filter frame)
qed

interpretation old_notificationDeliveries: drained_step unique_ids "old_notificationDeliveries env cutoff"
  for env cutoff
proof
  fix d n
  assume u: "unique_ids d"
  have ids: "distinct (map nd_id (deliveries d))" using u by (simp add: unique_ids_def)
  show "\<exists>d'. ry_mutate (old_notificationDeliveries env cutoff) (take n (ry_select (old_notificationDeliveries env cutoff) d)) d =
      Inr (length (take n (ry_select (old_notificationDeliveries env cutoff) d)), d') \<and>
      ry_select (old_notificationDeliveries env cutoff) d' = drop n (ry_select (old_notificationDeliveries env cutoff) d) \<and>
      unique_ids d'"
    using u candidates_count[OF ids] candidates_delete[OF ids]
    by (auto simp: old_notificationDeliveries_def unique_ids_def distinct_map_filter)
qed

interpretation old_notificationOutbox: drained_step unique_ids "old_notificationOutbox env cutoff" for env cutoff
proof
  fix d n
  assume u: "unique_ids d"
  have ids: "distinct (map ob_id (outbox d))" using u by (simp add: unique_ids_def)
  have frame: "has_delivery i (d\<lparr>outbox := rows\<rparr>) = has_delivery i d" for i rows by (simp add: has_delivery_def)
  have free: "\<not> has_delivery i d" if "i \<in> set (take n (ry_select (old_notificationOutbox env cutoff) d))" for i
    using that unfolding old_notificationOutbox_def by (auto elim: candidate_row)
  show "\<exists>d'. ry_mutate (old_notificationOutbox env cutoff) (take n (ry_select (old_notificationOutbox env cutoff) d)) d =
      Inr (length (take n (ry_select (old_notificationOutbox env cutoff) d)), d') \<and>
      ry_select (old_notificationOutbox env cutoff) d' = drop n (ry_select (old_notificationOutbox env cutoff) d) \<and>
      unique_ids d'"
    using u candidates_count[OF ids] candidates_delete[OF ids] restrict_deletes_Inr[of _ has_delivery d, OF free]
    by (auto simp: old_notificationOutbox_def unique_ids_def distinct_map_filter frame)
qed

interpretation old_incidents: drained_step unique_ids "old_incidents env cutoff" for env cutoff
proof
  fix d n
  assume u: "unique_ids d"
  have ids: "distinct (map ic_id (incidents d))" using u by (simp add: unique_ids_def)
  have frame: "has_notification i (d\<lparr>incidents := rows\<rparr>) = has_notification i d" for i rows
    by (simp add: has_notification_def)
  have free: "\<not> has_notification i d" if "i \<in> set (take n (ry_select (old_incidents env cutoff) d))" for i
    using that unfolding old_incidents_def by (auto elim: candidate_row)
  show "\<exists>d'. ry_mutate (old_incidents env cutoff) (take n (ry_select (old_incidents env cutoff) d)) d =
      Inr (length (take n (ry_select (old_incidents env cutoff) d)), d') \<and>
      ry_select (old_incidents env cutoff) d' = drop n (ry_select (old_incidents env cutoff) d) \<and> unique_ids d'"
    using u candidates_count[OF ids] candidates_delete[OF ids] restrict_deletes_Inr[of _ has_notification d, OF free]
    by (auto simp: old_incidents_def unique_ids_def distinct_map_filter frame)
qed

interpretation old_auditLogs: drained_step unique_ids "old_auditLogs env cutoff" for env cutoff
proof
  fix d n
  assume u: "unique_ids d"
  have ids: "distinct (map al_id (auditLogs d))" using u by (simp add: unique_ids_def)
  show "\<exists>d'. ry_mutate (old_auditLogs env cutoff) (take n (ry_select (old_auditLogs env cutoff) d)) d =
      Inr (length (take n (ry_select (old_auditLogs env cutoff) d)), d') \<and>
      ry_select (old_auditLogs env cutoff) d' = drop n (ry_select (old_auditLogs env cutoff) d) \<and> unique_ids d'"
    using u candidates_count[OF ids] candidates_delete[OF ids]
    by (auto simp: old_auditLogs_def unique_ids_def distinct_map_filter)
qed

lemma steps_drained:
  assumes "step \<in> set (RETENTION_REDACTION_STEPS env @ RETENTION_STEPS env c h)"
  shows "drained_step unique_ids step"
  using assms deletedMonitors.drained_step_axioms deletedNotificationChannels.drained_step_axioms
    terminalNotificationOutbox.drained_step_axioms old_checkResults.drained_step_axioms
    old_scheduledChecks.drained_step_axioms old_notificationDeliveries.drained_step_axioms
    old_notificationOutbox.drained_step_axioms old_incidents.drained_step_axioms old_auditLogs.drained_step_axioms
  by (auto simp: RETENTION_REDACTION_STEPS_def RETENTION_STEPS_def)


section \<open>Runs over many steps\<close>

lemma run_steps_drain:
  assumes "\<forall>step \<in> set steps. drained_step P step" "P d" "0 < batchSize" "0 < maxBatches"
  shows "\<exists>rs d'. run_steps maxBatches batchSize steps d = (Inr rs, d') \<and> P d' \<and>
    (\<forall>(key, s) \<in> set rs. sr_batches s \<le> maxBatches \<and> sr_rows s \<le> maxBatches * batchSize)"
  using assms(1,2)
proof (induction steps arbitrary: d)
  case Nil
  then show ?case by simp
next
  case (Cons step steps)
  then obtain r d1 where r: "run_step maxBatches batchSize step d = (Inr r, d1)" "P d1"
    "sr_batches r \<le> maxBatches" "sr_rows r \<le> maxBatches * batchSize"
    using drained_step.step_drains[of P step d batchSize maxBatches] assms(3,4) by auto
  obtain rs d' where rs: "run_steps maxBatches batchSize steps d1 = (Inr rs, d')" "P d'"
    "\<forall>(key, s) \<in> set rs. sr_batches s \<le> maxBatches \<and> sr_rows s \<le> maxBatches * batchSize"
    using Cons.IH[OF _ r(2)] Cons.prems(1) by auto
  with r show ?case by auto
qed

text \<open>What every single mutation keeps, a whole run keeps.\<close>

lemma mutate_locked_rel:
  assumes "mutateLockedCandidates step n d = Inr (k, d')" "R d d"
    and "\<And>k d'. ry_mutate step (take n (ry_select step d)) d = Inr (k, d') \<Longrightarrow> R d d'"
  shows "R d d'"
  using assms by (auto simp: mutateLockedCandidates_def Let_def split: if_splits sum.splits prod.splits)

lemma run_batches_rel:
  assumes "\<And>d. R d d" "\<And>d1 d2 d3. R d1 d2 \<Longrightarrow> R d2 d3 \<Longrightarrow> R d1 d3"
    and "\<And>n d k d'. ry_mutate step (take n (ry_select step d)) d = Inr (k, d') \<Longrightarrow> R d d'"
    and "run_batches batchSize step k acc d = (x, d')"
  shows "R d d'"
  using assms(4)
proof (induction k arbitrary: acc d)
  case 0
  with assms(1) show ?case by simp
next
  case (Suc k)
  show ?case
  proof (cases "mutateLockedCandidates step batchSize d")
    case (Inl e)
    with Suc.prems assms(1) show ?thesis by (cases acc) simp
  next
    case (Inr p)
    obtain n d1 where p: "p = (n, d1)" by (cases p)
    have first: "R d d1"
      by (rule mutate_locked_rel[of step batchSize d n d1 R]) (use Inr p assms(1,3) in auto)
    obtain b r l where acc: "acc = (b, r, l)" by (cases acc)
    show ?thesis
    proof (cases "n < batchSize")
      case True
      with Suc.prems Inr p acc first show ?thesis by simp
    next
      case False
      with Suc.prems Inr p acc have "run_batches batchSize step k (b + 1, r + n, n) d1 = (x, d')" by simp
      then have "R d1 d'" by (rule Suc.IH)
      with first show ?thesis by (rule assms(2))
    qed
  qed
qed

lemma run_steps_rel:
  assumes "\<And>d. R d d" "\<And>d1 d2 d3. R d1 d2 \<Longrightarrow> R d2 d3 \<Longrightarrow> R d1 d3"
    and "\<And>step n d k d'. step \<in> set steps \<Longrightarrow> ry_mutate step (take n (ry_select step d)) d = Inr (k, d') \<Longrightarrow> R d d'"
    and "run_steps maxBatches batchSize steps d = (x, d')"
  shows "R d d'"
  using assms(3,4)
proof (induction steps arbitrary: d x)
  case Nil
  with assms(1) show ?case by simp
next
  case (Cons step steps)
  obtain y d1 where y: "run_step maxBatches batchSize step d = (y, d1)" by fastforce
  then obtain z where "run_batches batchSize step maxBatches (0, 0, 0) d = (z, d1)"
    by (auto simp: run_step_def split: prod.splits sum.splits)
  have first: "R d d1"
  proof (rule run_batches_rel[where R = R])
    show "run_batches batchSize step maxBatches (0, 0, 0) d = (z, d1)" by fact
    show "R d d'" if "ry_mutate step (take n (ry_select step d)) d = Inr (k, d')" for n d k d'
      by (rule Cons.prems(1)[OF _ that]) simp
  qed (fact assms(1), rule assms(2))
  show ?case
  proof (cases y)
    case (Inl e)
    with Cons.prems(2) y first show ?thesis by simp
  next
    case (Inr r)
    obtain w where "run_steps maxBatches batchSize steps d1 = (w, d')"
      using Cons.prems(2) y Inr by (auto split: prod.splits sum.splits)
    then have "R d1 d'" by (rule Cons.IH[rotated 1]) (rule Cons.prems(1)[OF list.set_intros(2)])
    with first show ?thesis by (rule assms(2))
  qed
qed

lemma runRetention_phases:
  assumes "runRetention env config boundaryAt d = (x, d')"
  obtains (skipped) "d' = d"
    | (redacting) y where "run_steps (rc_maxBatchesPerStep config) (rc_batchSize config) (RETENTION_REDACTION_STEPS env) d = (y, d')"
    | (deleting) y z d1 where
        "run_steps (rc_maxBatchesPerStep config) (rc_batchSize config) (RETENTION_REDACTION_STEPS env) d = (y, d1)"
        "run_steps (rc_maxBatchesPerStep config) (rc_batchSize config)
           (RETENTION_STEPS env (boundaryAt - rc_checkResultDays config * day_ms)
              (boundaryAt - rc_historyDays config * day_ms)) d1 = (z, d')"
  using assms by (auto simp: runRetention_def Let_def split: if_splits prod.splits sum.splits)

lemma readRetentionConfig_bounds:
  assumes "readRetentionConfig protocol_of environment = Inr config"
  shows "1 \<le> rc_checkResultDays config" "rc_checkResultDays config \<le> 3650"
    "1 \<le> rc_historyDays config" "rc_historyDays config \<le> 36500"
    "0 < rc_batchSize config" "rc_batchSize config \<le> 10000"
    "0 < rc_maxBatchesPerStep config" "rc_maxBatchesPerStep config \<le> 1000"
proof -
  have range: "lo \<le> v \<and> v \<le> hi"
    if "readInteger environment name fallback lo hi = Inr v" "lo \<le> fallback" "fallback \<le> hi" for name fallback lo hi v
    using that by (auto simp: readInteger_def split: option.splits if_splits)
  from assms obtain c h b m where r:
    "readInteger environment ''RETENTION_CHECK_RESULT_DAYS'' 30 1 3650 = Inr c"
    "readInteger environment ''RETENTION_HISTORY_DAYS'' 365 1 36500 = Inr h"
    "readInteger environment ''RETENTION_BATCH_SIZE'' 500 1 10000 = Inr b"
    "readInteger environment ''RETENTION_MAX_BATCHES_PER_STEP'' 100 1 1000 = Inr m"
    "rc_checkResultDays config = c" "rc_historyDays config = h" "rc_batchSize config = nat b"
    "rc_maxBatchesPerStep config = nat m"
    by (auto simp: readRetentionConfig_def RETENTION_DEFAULTS_def split: option.splits if_splits sum.splits)
  from range[OF r(1)] range[OF r(2)] range[OF r(3)] range[OF r(4)] r(5-8)
  show "1 \<le> rc_checkResultDays config" "rc_checkResultDays config \<le> 3650"
    "1 \<le> rc_historyDays config" "rc_historyDays config \<le> 36500"
    "0 < rc_batchSize config" "rc_batchSize config \<le> 10000"
    "0 < rc_maxBatchesPerStep config" "rc_maxBatchesPerStep config \<le> 1000" by (simp_all add: nat_le_iff)
qed

text \<open>C18. The retention command always finishes its work or says that it did not: with any settings
it accepts, on a database with unique keys, no statement fails (no foreign key refuses a delete
and every mutation affects exactly the rows it locked), every step takes at most the configured
number of batches and rows, and a step that does not report its limit has left no candidate but
the rows other sessions hold.\<close>

theorem retention_completes_within_bounds:
  assumes "readRetentionConfig protocol_of environment = Inr config" "unique_ids d" "re_acquired env"
  shows "(\<exists>r d'. runRetention env config boundaryAt d = (Inr (Retention_Completed r), d') \<and> unique_ids d' \<and>
      (\<forall>(key, s) \<in> set (rt_secretRedactions r @ rt_steps r).
         sr_batches s \<le> 1000 \<and> sr_rows s \<le> rc_maxBatchesPerStep config * rc_batchSize config)) \<and>
    (\<forall>step \<in> set (RETENTION_REDACTION_STEPS env @ RETENTION_STEPS env c h). \<forall>x. unique_ids x \<longrightarrow>
      (\<exists>s y. run_step (rc_maxBatchesPerStep config) (rc_batchSize config) step x = (Inr s, y) \<and>
         unique_ids y \<and> (\<not> sr_limitReached s \<longrightarrow> ry_select step y = [])))"
proof
  note bounds = readRetentionConfig_bounds[OF assms(1)]
  let ?c = "boundaryAt - rc_checkResultDays config * day_ms"
  let ?h = "boundaryAt - rc_historyDays config * day_ms"
  have drained: "\<forall>step \<in> set (RETENTION_REDACTION_STEPS env). drained_step unique_ids step"
    "\<forall>step \<in> set (RETENTION_STEPS env ?c ?h). drained_step unique_ids step"
    using steps_drained[of _ env ?c ?h] by auto
  obtain rs d1 where rs:
    "run_steps (rc_maxBatchesPerStep config) (rc_batchSize config) (RETENTION_REDACTION_STEPS env) d = (Inr rs, d1)"
    "unique_ids d1" "\<forall>(key, s) \<in> set rs. sr_batches s \<le> rc_maxBatchesPerStep config \<and>
       sr_rows s \<le> rc_maxBatchesPerStep config * rc_batchSize config"
    using run_steps_drain[OF drained(1) assms(2) bounds(5,7)] by blast
  obtain ss d2 where ss:
    "run_steps (rc_maxBatchesPerStep config) (rc_batchSize config) (RETENTION_STEPS env ?c ?h) d1 = (Inr ss, d2)"
    "unique_ids d2" "\<forall>(key, s) \<in> set ss. sr_batches s \<le> rc_maxBatchesPerStep config \<and>
       sr_rows s \<le> rc_maxBatchesPerStep config * rc_batchSize config"
    using run_steps_drain[OF drained(2) rs(2) bounds(5,7)] by blast
  show "\<exists>r d'. runRetention env config boundaryAt d = (Inr (Retention_Completed r), d') \<and> unique_ids d' \<and>
      (\<forall>(key, s) \<in> set (rt_secretRedactions r @ rt_steps r).
         sr_batches s \<le> 1000 \<and> sr_rows s \<le> rc_maxBatchesPerStep config * rc_batchSize config)"
    using assms(3) rs ss bounds(8) by (fastforce simp: runRetention_def Let_def)
  show "\<forall>step \<in> set (RETENTION_REDACTION_STEPS env @ RETENTION_STEPS env c h). \<forall>x. unique_ids x \<longrightarrow>
      (\<exists>s y. run_step (rc_maxBatchesPerStep config) (rc_batchSize config) step x = (Inr s, y) \<and>
         unique_ids y \<and> (\<not> sr_limitReached s \<longrightarrow> ry_select step y = []))"
    using drained_step.step_drains[OF steps_drained] bounds(5,7) by blast
qed

end
