(* ===== verification/Retention_History.thy ===== *)
theory Retention_History
  imports Retention_Guarantees
begin

text \<open>
  What the retention command may and may not touch: it deletes finished and old rows only, keeps
  references and the consistency of monitors, and spares the secrets a recovery may need.
\<close>

section \<open>What a run keeps\<close>

definition references_ok :: "db \<Rightarrow> bool" where
  "references_ok d \<longleftrightarrow>
     (\<forall>r \<in> set (checkResults d). \<forall>i. cr_scheduledCheckId r = Some i \<longrightarrow> (\<exists>c \<in> set (scheduledChecks d). sc_id c = i)) \<and>
     (\<forall>n \<in> set (deliveries d). \<exists>r \<in> set (outbox d). ob_id r = nd_outboxId n) \<and>
     (\<forall>r \<in> set (outbox d). \<forall>i. ob_incidentId r = Some i \<longrightarrow> (\<exists>x \<in> set (incidents d). ic_id x = i))"

lemma references_okD:
  "references_ok d \<Longrightarrow> r \<in> set (checkResults d) \<Longrightarrow> cr_scheduledCheckId r = Some i \<Longrightarrow>
     \<exists>c \<in> set (scheduledChecks d). sc_id c = i"
  "references_ok d \<Longrightarrow> n \<in> set (deliveries d) \<Longrightarrow> \<exists>r \<in> set (outbox d). ob_id r = nd_outboxId n"
  "references_ok d \<Longrightarrow> b \<in> set (outbox d) \<Longrightarrow> ob_incidentId b = Some i \<Longrightarrow>
     \<exists>x \<in> set (incidents d). ic_id x = i"
  by (simp_all add: references_ok_def)

lemma references_okI:
  assumes "\<And>r i. r \<in> set (checkResults d) \<Longrightarrow> cr_scheduledCheckId r = Some i \<Longrightarrow>
      \<exists>c \<in> set (scheduledChecks d). sc_id c = i"
    and "\<And>n. n \<in> set (deliveries d) \<Longrightarrow> \<exists>r \<in> set (outbox d). ob_id r = nd_outboxId n"
    and "\<And>b i. b \<in> set (outbox d) \<Longrightarrow> ob_incidentId b = Some i \<Longrightarrow> \<exists>x \<in> set (incidents d). ic_id x = i"
  shows "references_ok d"
  unfolding references_ok_def using assms by blast

definition redacted_row :: "NotificationOutbox \<Rightarrow> NotificationOutbox" where
  "redacted_row r = r\<lparr>ob_encryptedConfigSnapshot := secretTombstoneBytes\<rparr>"

text \<open>The rows each table may lose, by the two cutoffs.\<close>

definition keeps_rows_of :: "('r \<Rightarrow> bool) \<Rightarrow> 'r list \<Rightarrow> 'r list \<Rightarrow> bool" where
  "keeps_rows_of expired rows rows' \<longleftrightarrow> set rows' \<subseteq> set rows \<and> (\<forall>r \<in> set rows. r \<in> set rows' \<or> expired r)"

definition keeps_outbox :: "(NotificationOutbox \<Rightarrow> bool) \<Rightarrow> NotificationOutbox list \<Rightarrow> NotificationOutbox list \<Rightarrow> bool" where
  "keeps_outbox expired rows rows' \<longleftrightarrow>
     (\<forall>r \<in> set rows. r \<in> set rows' \<or> (terminal_outbox r \<and> redacted_row r \<in> set rows') \<or> expired r) \<and>
     (\<forall>r' \<in> set rows'. \<exists>r \<in> set rows. r' = r \<or> r' = redacted_row r)"

text \<open>A delivery may go when it is old and its notification is finished and old as well.\<close>

definition finished_delivery :: "retention_env \<Rightarrow> time \<Rightarrow> NotificationOutbox list \<Rightarrow> NotificationDelivery \<Rightarrow> bool" where
  "finished_delivery env h rows n \<longleftrightarrow>
     delivery_end n < h \<and>
     (\<exists>r \<in> set rows. ob_id r = nd_outboxId n \<and> terminal_outbox r \<and> outbox_end env r < h)"

definition keeps_history :: "retention_env \<Rightarrow> time \<Rightarrow> time \<Rightarrow> db \<Rightarrow> db \<Rightarrow> bool" where
  "keeps_history env c h d d' \<longleftrightarrow>
     keeps_rows_of (\<lambda>r. cr_finishedAt r < c) (checkResults d) (checkResults d') \<and>
     keeps_rows_of (\<lambda>x. \<not> active_check x \<and> check_end env x < c) (scheduledChecks d) (scheduledChecks d') \<and>
     keeps_rows_of (finished_delivery env h (outbox d)) (deliveries d) (deliveries d') \<and>
     keeps_outbox (\<lambda>r. terminal_outbox r \<and> outbox_end env r < h) (outbox d) (outbox d') \<and>
     keeps_rows_of (\<lambda>i. \<not> open_incident i \<and> old_incident h i) (incidents d) (incidents d') \<and>
     keeps_rows_of (\<lambda>a. al_createdAt a < h) (auditLogs d) (auditLogs d') \<and>
     map mo_id (monitors d') = map mo_id (monitors d) \<and> map ch_id (channels d') = map ch_id (channels d) \<and>
     (\<forall>m \<in> set (monitors d). m \<in> set (monitors d') \<or>
        mo_deletedAt m \<noteq> None \<and> m\<lparr>mo_requestUrlEncrypted := secretTombstoneBytes\<rparr> \<in> set (monitors d')) \<and>
     (\<forall>x \<in> set (channels d). x \<in> set (channels d') \<or>
        ch_deletedAt x \<noteq> None \<and> x\<lparr>ch_encryptedConfig := secretTombstoneBytes\<rparr> \<in> set (channels d')) \<and>
     accounts d' = accounts d \<and> loginSessions d' = loginSessions d \<and> monitorChannels d' = monitorChannels d \<and>
     networkSettings d' = networkSettings d \<and> networkObservers d' = networkObservers d \<and>
     networkOutages d' = networkOutages d \<and> networkObservations d' = networkObservations d \<and>
     (references_ok d \<longrightarrow> references_ok d') \<and> (service_inv d \<longrightarrow> service_inv d')"

lemma keeps_rows_of_refl [simp]: "keeps_rows_of e rows rows" by (simp add: keeps_rows_of_def)

lemma keeps_rows_of_trans: "keeps_rows_of e a b \<Longrightarrow> keeps_rows_of e b c \<Longrightarrow> keeps_rows_of e a c"
  unfolding keeps_rows_of_def by blast

lemma redacted_row_simps [simp]:
  "redacted_row (redacted_row r) = redacted_row r" "terminal_outbox (redacted_row r) = terminal_outbox r"
  "outbox_end env (redacted_row r) = outbox_end env r" "ob_id (redacted_row r) = ob_id r"
  "ob_incidentId (redacted_row r) = ob_incidentId r"
  by (simp_all add: redacted_row_def terminal_outbox_def outbox_end_def split: option.splits)

lemma keeps_outbox_refl [simp]: "keeps_outbox e rows rows" by (auto simp: keeps_outbox_def)

lemma keeps_outbox_trans:
  assumes "keeps_outbox e a b" "keeps_outbox e b c" "\<And>r. e (redacted_row r) = e r"
  shows "keeps_outbox e a c"
proof -
  have "r \<in> set c \<or> (terminal_outbox r \<and> redacted_row r \<in> set c) \<or> e r" if "r \<in> set a" for r
  proof -
    from assms(1) that consider "r \<in> set b" | "terminal_outbox r" "redacted_row r \<in> set b" | "e r"
      by (auto simp: keeps_outbox_def)
    then show ?thesis
    proof cases
      case 2
      with assms(2) have "redacted_row r \<in> set c \<or> e (redacted_row r)"
        unfolding keeps_outbox_def by (metis redacted_row_simps(1))
      with 2(1) assms(3) show ?thesis by blast
    qed (use assms(2) in \<open>auto simp: keeps_outbox_def\<close>)
  qed
  moreover have "\<exists>r \<in> set a. r' = r \<or> r' = redacted_row r" if "r' \<in> set c" for r'
    using assms(1,2) that unfolding keeps_outbox_def by (metis redacted_row_simps(1))
  ultimately show ?thesis by (simp add: keeps_outbox_def)
qed

lemma finished_delivery_earlier:
  assumes "keeps_outbox e a b" "finished_delivery env h b n"
  shows "finished_delivery env h a n"
proof -
  from assms(2) obtain r' where r': "delivery_end n < h" "r' \<in> set b" "ob_id r' = nd_outboxId n"
    "terminal_outbox r'" "outbox_end env r' < h" by (auto simp: finished_delivery_def)
  with assms(1) obtain r where "r \<in> set a" "r' = r \<or> r' = redacted_row r" by (auto simp: keeps_outbox_def)
  with r' show ?thesis unfolding finished_delivery_def by (metis redacted_row_simps(2-4))
qed

lemma keeps_rows_of_mono: "keeps_rows_of e a b \<Longrightarrow> (\<And>r. e r \<Longrightarrow> e' r) \<Longrightarrow> keeps_rows_of e' a b"
  unfolding keeps_rows_of_def by blast

lemma keeps_history_refl: "keeps_history env c h d d" by (simp add: keeps_history_def)

lemma keeps_history_trans:
  assumes "keeps_history env c h d1 d2" "keeps_history env c h d2 d3"
  shows "keeps_history env c h d1 d3"
proof -
  note one = assms(1)[unfolded keeps_history_def] and two = assms(2)[unfolded keeps_history_def]
  have marked: "m \<in> A3 \<or> q m \<and> g m \<in> A3"
    if "m \<in> A2 \<or> q m \<and> g m \<in> A2" "\<forall>m \<in> A2. m \<in> A3 \<or> q m \<and> g m \<in> A3" "g (g m) = g m"
    for m :: 'r and A2 A3 q g
    using that by metis
  have "\<forall>m \<in> set (monitors d1). m \<in> set (monitors d3) \<or>
      mo_deletedAt m \<noteq> None \<and> m\<lparr>mo_requestUrlEncrypted := secretTombstoneBytes\<rparr> \<in> set (monitors d3)"
    using marked[of _ "set (monitors d2)" "\<lambda>m. mo_deletedAt m \<noteq> None"
        "\<lambda>m. m\<lparr>mo_requestUrlEncrypted := secretTombstoneBytes\<rparr>" "set (monitors d3)"] one two by simp
  moreover have "\<forall>x \<in> set (channels d1). x \<in> set (channels d3) \<or>
      ch_deletedAt x \<noteq> None \<and> x\<lparr>ch_encryptedConfig := secretTombstoneBytes\<rparr> \<in> set (channels d3)"
    using marked[of _ "set (channels d2)" "\<lambda>x. ch_deletedAt x \<noteq> None"
        "\<lambda>x. x\<lparr>ch_encryptedConfig := secretTombstoneBytes\<rparr>" "set (channels d3)"] one two by simp
  moreover have "keeps_outbox (\<lambda>r. terminal_outbox r \<and> outbox_end env r < h) (outbox d1) (outbox d3)"
    using one two by (elim conjE) (rule keeps_outbox_trans, assumption, assumption, simp)
  moreover have "keeps_rows_of (\<lambda>r. cr_finishedAt r < c) (checkResults d1) (checkResults d3)"
    using one two by (elim conjE) (rule keeps_rows_of_trans)
  moreover have "keeps_rows_of (\<lambda>x. \<not> active_check x \<and> check_end env x < c) (scheduledChecks d1) (scheduledChecks d3)"
    using one two by (elim conjE) (rule keeps_rows_of_trans)
  moreover have "keeps_rows_of (finished_delivery env h (outbox d1)) (deliveries d1) (deliveries d3)"
  proof (rule keeps_rows_of_trans)
    show "keeps_rows_of (finished_delivery env h (outbox d1)) (deliveries d1) (deliveries d2)"
      using one by (elim conjE)
    have outbox: "keeps_outbox (\<lambda>r. terminal_outbox r \<and> outbox_end env r < h) (outbox d1) (outbox d2)"
      using one by (elim conjE)
    have "keeps_rows_of (finished_delivery env h (outbox d2)) (deliveries d2) (deliveries d3)"
      using two by (elim conjE)
    then show "keeps_rows_of (finished_delivery env h (outbox d1)) (deliveries d2) (deliveries d3)"
      by (rule keeps_rows_of_mono) (rule finished_delivery_earlier[OF outbox])
  qed
  moreover have "map mo_id (monitors d3) = map mo_id (monitors d1)" "map ch_id (channels d3) = map ch_id (channels d1)"
    using one two by (elim conjE, simp)+
  moreover have "keeps_rows_of (\<lambda>i. \<not> open_incident i \<and> old_incident h i) (incidents d1) (incidents d3)"
    using one two by (elim conjE) (rule keeps_rows_of_trans)
  moreover have "keeps_rows_of (\<lambda>a. al_createdAt a < h) (auditLogs d1) (auditLogs d3)"
    using one two by (elim conjE) (rule keeps_rows_of_trans)
  moreover have "accounts d3 = accounts d1" "loginSessions d3 = loginSessions d1"
    "monitorChannels d3 = monitorChannels d1" "networkSettings d3 = networkSettings d1"
    "networkObservers d3 = networkObservers d1" "networkOutages d3 = networkOutages d1"
    "networkObservations d3 = networkObservations d1"
    "references_ok d1 \<longrightarrow> references_ok d3" "service_inv d1 \<longrightarrow> service_inv d3"
    using one two by (elim conjE, simp)+
  ultimately show ?thesis unfolding keeps_history_def by (intro conjI)
qed

section \<open>Every step keeps it\<close>

lemma keeps_rows_filter:
  "(\<And>r. r \<in> set rows \<Longrightarrow> \<not> p r \<Longrightarrow> e r) \<Longrightarrow> keeps_rows_of e rows (filter p rows)"
  by (auto simp: keeps_rows_of_def)

lemma service_inv_frame:
  assumes "service_inv d" "monitors d' = monitors d" "incidents d' = incidents d"
  shows "service_inv d'"
  using assms open_incidents_cong[OF assms(3)] incident_inv_cong[of d' d]
  by (simp add: service_inv_def health_view_def)

lemma service_inv_redact:
  assumes "service_inv d"
  shows "service_inv (d\<lparr>monitors := update_where p (\<lambda>m. m\<lparr>mo_requestUrlEncrypted := v\<rparr>) (monitors d)\<rparr>)"
    (is "service_inv ?d")
proof -
  have view: "health_view ?d = health_view d"
    by (simp add: health_view_def) (rule map_update_where_frame, simp)
  have inc: "incidents ?d = incidents d" by simp
  have ids: "mo_id ` set (monitors ?d) = mo_id ` set (monitors d)"
  proof -
    have "map mo_id (monitors ?d) = map mo_id (monitors d)" by simp (rule map_update_where_frame, simp)
    then show ?thesis by (metis set_map)
  qed
  have "monitor_ok m" if "m \<in> set (monitors ?d)" for m
  proof -
    from that have "m \<in> set (update_where p (\<lambda>m. m\<lparr>mo_requestUrlEncrypted := v\<rparr>) (monitors d))" by simp
    then show ?thesis
    proof (rule update_whereE)
      fix r assume "r \<in> set (monitors d)" "m = r\<lparr>mo_requestUrlEncrypted := v\<rparr>"
      with service_invD(2)[OF assms, of r] show ?thesis by (simp add: monitor_ok_def valid_config_def)
    qed (use service_invD(2)[OF assms] in blast)
  qed
  then show ?thesis
    using service_invD[OF assms] incident_inv_cong[OF view inc] open_incidents_cong[OF inc] ids
    unfolding service_inv_def by metis
qed

lemma service_inv_fewer_incidents:
  assumes "service_inv d" "\<And>i. i \<in> set (incidents d) \<Longrightarrow> open_incident i \<Longrightarrow> p i"
  shows "service_inv (d\<lparr>incidents := filter p (incidents d)\<rparr>)" (is "service_inv ?d")
proof -
  have same: "open_incidents k ?d = open_incidents k d" for k
  proof -
    have "filter (\<lambda>i. open_incident i \<and> ic_monitorId i = k) (filter p (incidents d)) =
        filter (\<lambda>i. open_incident i \<and> ic_monitorId i = k) (incidents d)"
      using assms(2) by (simp, intro filter_cong) auto
    then show ?thesis by (simp add: open_incidents_def count_where_def)
  qed
  show ?thesis
    using service_invD[OF assms(1)] same
    by (simp add: service_inv_def incident_inv_def health_view_def distinct_map_filter)
qed


lemma update_where_marked:
  assumes "m \<in> set rows" "p m \<Longrightarrow> q m"
  shows "m \<in> set (update_where p f rows) \<or> q m \<and> f m \<in> set (update_where p f rows)"
  using assms by (cases "p m") (auto simp: set_update_where)

lemma deletedMonitors_keeps:
  assumes "unique_ids d" "ry_mutate (deletedMonitors env) (take n (ry_select (deletedMonitors env) d)) d = Inr (k, d')"
  shows "keeps_history env c h d d'"
proof -
  let ?ids = "set (take n (ry_select (deletedMonitors env) d))"
  let ?f = "\<lambda>m :: Monitor. m\<lparr>mo_requestUrlEncrypted := secretTombstoneBytes\<rparr>"
  have d': "d' = d\<lparr>monitors := update_where (\<lambda>m. mo_id m \<in> ?ids) ?f (monitors d)\<rparr>"
    using assms(2) by (simp add: deletedMonitors_def)
  have "mo_deletedAt m \<noteq> None" if m: "m \<in> set (monitors d)" "mo_id m \<in> ?ids" for m
  proof -
    obtain x where "x \<in> set (monitors d)" "mo_id x = mo_id m" "mo_deletedAt x \<noteq> None"
      using m(2) by (auto simp: deletedMonitors_def elim: candidate_row)
    moreover have "x = m" using calculation(1,2) m(1) assms(1) find_by_distinct[of mo_id "monitors d"]
      by (metis option.inject unique_ids_def)
    ultimately show ?thesis by simp
  qed
  then have "\<forall>m \<in> set (monitors d). m \<in> set (monitors d') \<or> mo_deletedAt m \<noteq> None \<and> ?f m \<in> set (monitors d')"
    unfolding d' using update_where_marked[of _ "monitors d" "\<lambda>m. mo_id m \<in> ?ids" "\<lambda>m. mo_deletedAt m \<noteq> None" ?f]
    by simp
  moreover have "map mo_id (monitors d') = map mo_id (monitors d)" unfolding d' by (simp add: map_update_where_frame)
  ultimately show ?thesis
    using service_inv_redact[of d "\<lambda>m. mo_id m \<in> ?ids" secretTombstoneBytes]
    unfolding keeps_history_def d' by (simp add: references_ok_def)
qed

lemma deletedNotificationChannels_keeps:
  assumes "unique_ids d" "ry_mutate (deletedNotificationChannels env)
      (take n (ry_select (deletedNotificationChannels env) d)) d = Inr (k, d')"
  shows "keeps_history env c h d d'"
proof -
  let ?ids = "set (take n (ry_select (deletedNotificationChannels env) d))"
  let ?f = "\<lambda>x :: NotificationChannel. x\<lparr>ch_encryptedConfig := secretTombstoneBytes\<rparr>"
  have d': "d' = d\<lparr>channels := update_where (\<lambda>x. ch_id x \<in> ?ids) ?f (channels d)\<rparr>"
    using assms(2) by (simp add: deletedNotificationChannels_def)
  have "ch_deletedAt m \<noteq> None" if m: "m \<in> set (channels d)" "ch_id m \<in> ?ids" for m
  proof -
    obtain x where "x \<in> set (channels d)" "ch_id x = ch_id m" "ch_deletedAt x \<noteq> None"
      using m(2) by (auto simp: deletedNotificationChannels_def elim: candidate_row)
    moreover have "x = m" using calculation(1,2) m(1) assms(1) find_by_distinct[of ch_id "channels d"]
      by (metis option.inject unique_ids_def)
    ultimately show ?thesis by simp
  qed
  then have "\<forall>m \<in> set (channels d). m \<in> set (channels d') \<or> ch_deletedAt m \<noteq> None \<and> ?f m \<in> set (channels d')"
    unfolding d' using update_where_marked[of _ "channels d" "\<lambda>m. ch_id m \<in> ?ids" "\<lambda>m. ch_deletedAt m \<noteq> None" ?f]
    by simp
  moreover have "map ch_id (channels d') = map ch_id (channels d)" unfolding d' by (simp add: map_update_where_frame)
  ultimately show ?thesis
    using service_inv_frame[of d "d\<lparr>channels := update_where (\<lambda>x. ch_id x \<in> ?ids) ?f (channels d)\<rparr>"]
    unfolding keeps_history_def d' by (simp add: references_ok_def)
qed

lemma retired_terminal: "retired_secret d r \<Longrightarrow> terminal_outbox r"
  by (simp add: retired_secret_def sql_and_True)

lemma candidate_unique:
  assumes "distinct (map idf rows)" "i \<in> set (take n (candidates env idf t p rows))" "r \<in> set rows" "idf r = i"
  shows "p r"
proof -
  obtain x where "x \<in> set rows" "idf x = i" "p x" using assms(2) by (rule candidate_row)
  with assms(1,3,4) find_by_distinct[of idf rows] show ?thesis by (metis option.inject)
qed

lemma terminalNotificationOutbox_keeps:
  assumes "unique_ids d" "ry_mutate (terminalNotificationOutbox env)
      (take n (ry_select (terminalNotificationOutbox env) d)) d = Inr (k, d')"
  shows "keeps_history env c h d d'"
    and "\<And>r. r \<in> set (outbox d) \<Longrightarrow> \<not> retired_secret d r \<Longrightarrow> r \<in> set (outbox d')"
    and "\<And>r. retired_secret d' r = retired_secret d r"
proof -
  let ?ids = "set (take n (ry_select (terminalNotificationOutbox env) d))"
  have d': "d' = d\<lparr>outbox := update_where (\<lambda>r. ob_id r \<in> ?ids)
      (\<lambda>r. r\<lparr>ob_encryptedConfigSnapshot := secretTombstoneBytes\<rparr>) (outbox d)\<rparr>"
    using assms(2) by (simp add: terminalNotificationOutbox_def)
  have retired: "retired_secret d r" if "r \<in> set (outbox d)" "ob_id r \<in> ?ids" for r
    by (rule candidate_unique[of ob_id "outbox d" "ob_id r" n env "\<lambda>r. re_updatedAt env (ob_id r)"])
      (use assms(1) that in \<open>simp_all add: unique_ids_def terminalNotificationOutbox_def\<close>)
  have rows: "outbox d' = update_where (\<lambda>r. ob_id r \<in> ?ids) redacted_row (outbox d)"
    unfolding d' redacted_row_def by simp
  have "keeps_outbox e (outbox d) (outbox d')" for e
    unfolding keeps_outbox_def
  proof
    show "\<forall>r \<in> set (outbox d). r \<in> set (outbox d') \<or> (terminal_outbox r \<and> redacted_row r \<in> set (outbox d')) \<or> e r"
      using update_where_marked[of _ "outbox d" "\<lambda>r. ob_id r \<in> ?ids" terminal_outbox redacted_row]
        retired retired_terminal unfolding rows by blast
    show "\<forall>r' \<in> set (outbox d'). \<exists>r \<in> set (outbox d). r' = r \<or> r' = redacted_row r"
      unfolding rows by (auto elim: update_whereE)
  qed
  moreover have "references_ok d \<longrightarrow> references_ok d'"
  proof
    assume "references_ok d"
    then have refs: "\<forall>n \<in> set (deliveries d). \<exists>r \<in> set (outbox d). ob_id r = nd_outboxId n"
      "\<forall>r \<in> set (outbox d). \<forall>i. ob_incidentId r = Some i \<longrightarrow> (\<exists>x \<in> set (incidents d). ic_id x = i)"
      by (simp_all add: references_ok_def)
    have ids: "ob_id ` set (outbox d') = ob_id ` set (outbox d)"
      using ids_after_update[of ob_id redacted_row "\<lambda>r. ob_id r \<in> ?ids" "outbox d"] rows by (metis redacted_row_simps(4) set_map)
    have "\<exists>r \<in> set (outbox d'). ob_id r = nd_outboxId n" if "n \<in> set (deliveries d)" for n
      using refs(1) that ids by (metis imageE image_eqI)
    moreover have "\<exists>x \<in> set (incidents d). ic_id x = i"
      if "r \<in> set (outbox d')" "ob_incidentId r = Some i" for r i
    proof -
      from that(1) obtain x where "x \<in> set (outbox d)" "ob_incidentId x = ob_incidentId r"
        unfolding rows by (auto elim: update_whereE)
      with refs(2) that(2) show ?thesis by metis
    qed
    ultimately show "references_ok d'"
      using \<open>references_ok d\<close> unfolding references_ok_def d' by simp
  qed
  moreover have "service_inv d \<longrightarrow> service_inv d'" using service_inv_frame[of d d'] unfolding d' by simp
  ultimately show "keeps_history env c h d d'" unfolding keeps_history_def by (simp add: d')
  show "r \<in> set (outbox d')" if "r \<in> set (outbox d)" "\<not> retired_secret d r" for r
    using that retired[of r] unfolding rows by (auto simp: set_update_where)
  show "retired_secret d' r = retired_secret d r" for r unfolding d' by (rule retired_secret_redacted)
qed

lemma old_checkResults_keeps:
  assumes "unique_ids d" "ry_mutate (old_checkResults env c) (take n (ry_select (old_checkResults env c) d)) d = Inr (k, d')"
  shows "keeps_history env c h d d'"
proof -
  let ?ids = "set (take n (ry_select (old_checkResults env c) d))"
  have d': "d' = d\<lparr>checkResults := filter (\<lambda>r. cr_id r \<notin> ?ids) (checkResults d)\<rparr>"
    using assms(2) by (simp add: old_checkResults_def)
  have "cr_finishedAt r < c" if "r \<in> set (checkResults d)" "cr_id r \<in> ?ids" for r
    by (rule candidate_unique[of cr_id "checkResults d" "cr_id r" n env cr_finishedAt "\<lambda>r. cr_finishedAt r < c"])
      (use assms(1) that in \<open>simp_all add: unique_ids_def old_checkResults_def\<close>)
  then have "keeps_rows_of (\<lambda>r. cr_finishedAt r < c) (checkResults d) (checkResults d')"
    unfolding d' by simp (rule keeps_rows_filter, simp)
  then show ?thesis using service_inv_frame[of d d'] unfolding keeps_history_def d'
    by (auto simp: references_ok_def)
qed

lemma old_scheduledChecks_keeps:
  assumes "unique_ids d" "ry_mutate (old_scheduledChecks env c) (take n (ry_select (old_scheduledChecks env c) d)) d = Inr (k, d')"
  shows "keeps_history env c h d d'"
proof -
  let ?ids = "set (take n (ry_select (old_scheduledChecks env c) d))"
  have free: "\<not> has_check_result i d" if "i \<in> ?ids" for i
    using that unfolding old_scheduledChecks_def by (auto elim: candidate_row)
  have d': "d' = d\<lparr>scheduledChecks := filter (\<lambda>x. sc_id x \<notin> ?ids) (scheduledChecks d)\<rparr>"
    using assms(2) by (auto simp: old_scheduledChecks_def restrict_deletes_def split: if_splits)
  have "\<not> active_check x \<and> check_end env x < c" if "x \<in> set (scheduledChecks d)" "sc_id x \<in> ?ids" for x
  proof -
    have "(sc_status x = ScheduledCheckStatus.COMPLETED \<or> sc_status x = ScheduledCheckStatus.FAILED \<or>
        sc_status x = ScheduledCheckStatus.CANCELED) \<and> check_end env x < c \<and> \<not> has_check_result (sc_id x) d"
      by (rule candidate_unique[of sc_id "scheduledChecks d" "sc_id x" n env "check_end env"])
        (use assms(1) that in \<open>simp_all add: unique_ids_def old_scheduledChecks_def\<close>)
    then show ?thesis by (auto simp: active_check_def)
  qed
  then have "keeps_rows_of (\<lambda>x. \<not> active_check x \<and> check_end env x < c) (scheduledChecks d) (scheduledChecks d')"
    unfolding d' by simp (rule keeps_rows_filter, simp)
  moreover have "references_ok d \<longrightarrow> references_ok d'"
  proof
    assume refs: "references_ok d"
    have "\<exists>x \<in> set (filter (\<lambda>x. sc_id x \<notin> ?ids) (scheduledChecks d)). sc_id x = i"
      if "r \<in> set (checkResults d)" "cr_scheduledCheckId r = Some i" for r i
    proof -
      note row = that
      obtain x where "x \<in> set (scheduledChecks d)" "sc_id x = i"
        using references_okD(1)[OF refs] row by blast
      moreover have "i \<notin> ?ids" using free[of i] that by (auto simp: has_check_result_def list_ex_iff)
      ultimately show ?thesis by auto
    qed
    note kept = this
    show "references_ok d'"
      by (rule references_okI) (use kept references_okD[OF refs] in \<open>force simp: d'\<close>)+
  qed
  ultimately show ?thesis using service_inv_frame[of d d'] unfolding keeps_history_def d' by simp
qed

lemma old_notificationDeliveries_keeps:
  assumes "unique_ids d" "ry_mutate (old_notificationDeliveries env h)
      (take n (ry_select (old_notificationDeliveries env h) d)) d = Inr (k, d')"
  shows "keeps_history env c h d d'"
proof -
  let ?ids = "set (take n (ry_select (old_notificationDeliveries env h) d))"
  have d': "d' = d\<lparr>deliveries := filter (\<lambda>x. nd_id x \<notin> ?ids) (deliveries d)\<rparr>"
    using assms(2) by (simp add: old_notificationDeliveries_def)
  have "finished_delivery env h (outbox d) x" if "x \<in> set (deliveries d)" "nd_id x \<in> ?ids" for x
  proof -
    have "delivery_end x < h \<and>
        list_ex (\<lambda>r. ob_id r = nd_outboxId x \<and> terminal_outbox r \<and> outbox_end env r < h) (outbox d)"
      by (rule candidate_unique[of nd_id "deliveries d" "nd_id x" n env delivery_end])
        (use assms(1) that in \<open>simp_all add: unique_ids_def old_notificationDeliveries_def\<close>)
    then show ?thesis by (simp add: finished_delivery_def list_ex_iff)
  qed
  then have "keeps_rows_of (finished_delivery env h (outbox d)) (deliveries d) (deliveries d')"
    unfolding d' by simp (rule keeps_rows_filter, simp)
  then show ?thesis using service_inv_frame[of d d'] unfolding keeps_history_def d' by (auto simp: references_ok_def)
qed

lemma old_notificationOutbox_keeps:
  assumes "unique_ids d" "ry_mutate (old_notificationOutbox env h)
      (take n (ry_select (old_notificationOutbox env h) d)) d = Inr (k, d')"
  shows "keeps_history env c h d d'"
proof -
  let ?ids = "set (take n (ry_select (old_notificationOutbox env h) d))"
  have free: "\<not> has_delivery i d" if "i \<in> ?ids" for i
    using that unfolding old_notificationOutbox_def by (auto elim: candidate_row)
  have d': "d' = d\<lparr>outbox := filter (\<lambda>x. ob_id x \<notin> ?ids) (outbox d)\<rparr>"
    using assms(2) by (auto simp: old_notificationOutbox_def restrict_deletes_def split: if_splits)
  have old: "terminal_outbox r \<and> outbox_end env r < h" if "r \<in> set (outbox d)" "ob_id r \<in> ?ids" for r
  proof -
    have "terminal_outbox r \<and> outbox_end env r < h \<and> \<not> has_delivery (ob_id r) d"
      by (rule candidate_unique[of ob_id "outbox d" "ob_id r" n env "outbox_end env"])
        (use assms(1) that in \<open>simp_all add: unique_ids_def old_notificationOutbox_def\<close>)
    then show ?thesis by simp
  qed
  have "keeps_outbox (\<lambda>r. terminal_outbox r \<and> outbox_end env r < h) (outbox d) (outbox d')"
    unfolding keeps_outbox_def d' using old by auto
  moreover have "references_ok d \<longrightarrow> references_ok d'"
  proof
    assume refs: "references_ok d"
    have "\<exists>r \<in> set (filter (\<lambda>x. ob_id x \<notin> ?ids) (outbox d)). ob_id r = nd_outboxId x"
      if "x \<in> set (deliveries d)" for x
    proof -
      note row = that
      obtain r where "r \<in> set (outbox d)" "ob_id r = nd_outboxId x"
        using references_okD(2)[OF refs] row by blast
      moreover have "nd_outboxId x \<notin> ?ids" using free[of "nd_outboxId x"] that by (auto simp: has_delivery_def list_ex_iff)
      ultimately show ?thesis by auto
    qed
    note kept = this
    show "references_ok d'"
      by (rule references_okI) (use kept references_okD[OF refs] in \<open>force simp: d'\<close>)+
  qed
  ultimately show ?thesis using service_inv_frame[of d d'] unfolding keeps_history_def d' by simp
qed

lemma old_incidents_keeps:
  assumes "unique_ids d" "ry_mutate (old_incidents env h) (take n (ry_select (old_incidents env h) d)) d = Inr (k, d')"
  shows "keeps_history env c h d d'"
proof -
  let ?ids = "set (take n (ry_select (old_incidents env h) d))"
  have free: "\<not> has_notification i d" if "i \<in> ?ids" for i
    using that unfolding old_incidents_def by (auto elim: candidate_row)
  have d': "d' = d\<lparr>incidents := filter (\<lambda>x. ic_id x \<notin> ?ids) (incidents d)\<rparr>"
    using assms(2) by (auto simp: old_incidents_def restrict_deletes_def split: if_splits)
  have old: "\<not> open_incident x \<and> old_incident h x" if "x \<in> set (incidents d)" "ic_id x \<in> ?ids" for x
  proof -
    have "old_incident h x \<and> \<not> has_notification (ic_id x) d"
      by (rule candidate_unique[of ic_id "incidents d" "ic_id x" n env
            "\<lambda>i. time_or_zero (coalesce (ic_resolvedAt i) (ic_canceledAt i))"])
        (use assms(1) that in \<open>simp_all add: unique_ids_def old_incidents_def\<close>)
    then show ?thesis by (auto simp: old_incident_def open_incident_def)
  qed
  have "keeps_rows_of (\<lambda>i. \<not> open_incident i \<and> old_incident h i) (incidents d) (incidents d')"
    unfolding d' using old by simp (rule keeps_rows_filter, simp)
  moreover have "references_ok d \<longrightarrow> references_ok d'"
  proof
    assume refs: "references_ok d"
    have "\<exists>x \<in> set (filter (\<lambda>x. ic_id x \<notin> ?ids) (incidents d)). ic_id x = i"
      if "r \<in> set (outbox d)" "ob_incidentId r = Some i" for r i
    proof -
      note row = that
      obtain x where "x \<in> set (incidents d)" "ic_id x = i"
        using references_okD(3)[OF refs] row by blast
      moreover have "i \<notin> ?ids" using free[of i] that by (auto simp: has_notification_def list_ex_iff)
      ultimately show ?thesis by auto
    qed
    note kept = this
    show "references_ok d'"
      by (rule references_okI) (use kept references_okD[OF refs] in \<open>force simp: d'\<close>)+
  qed
  moreover have "service_inv d \<longrightarrow> service_inv d'"
    unfolding d' using service_inv_fewer_incidents[of d "\<lambda>x. ic_id x \<notin> ?ids"] old by metis
  ultimately show ?thesis unfolding keeps_history_def d' by simp
qed

lemma old_auditLogs_keeps:
  assumes "unique_ids d" "ry_mutate (old_auditLogs env h) (take n (ry_select (old_auditLogs env h) d)) d = Inr (k, d')"
  shows "keeps_history env c h d d'"
proof -
  let ?ids = "set (take n (ry_select (old_auditLogs env h) d))"
  have d': "d' = d\<lparr>auditLogs := filter (\<lambda>r. al_id r \<notin> ?ids) (auditLogs d)\<rparr>"
    using assms(2) by (simp add: old_auditLogs_def)
  have "al_createdAt r < h" if "r \<in> set (auditLogs d)" "al_id r \<in> ?ids" for r
    by (rule candidate_unique[of al_id "auditLogs d" "al_id r" n env al_createdAt "\<lambda>r. al_createdAt r < h"])
      (use assms(1) that in \<open>simp_all add: unique_ids_def old_auditLogs_def\<close>)
  then have "keeps_rows_of (\<lambda>r. al_createdAt r < h) (auditLogs d) (auditLogs d')"
    unfolding d' by simp (rule keeps_rows_filter, simp)
  then show ?thesis using service_inv_frame[of d d'] unfolding keeps_history_def d' by (simp add: references_ok_def)
qed

end
