(* ===== verification/Retention_Effects.thy ===== *)
theory Retention_Effects
  imports Retention_History Outbox_Dispatcher
begin

text \<open>
  The effects of a whole run of the retention command, with the examples its properties are
  checked on.
\<close>

section \<open>Whole runs\<close>

definition keeps_uniquely :: "retention_env \<Rightarrow> time \<Rightarrow> time \<Rightarrow> db \<Rightarrow> db \<Rightarrow> bool" where
  "keeps_uniquely env c h d d' \<longleftrightarrow> (unique_ids d \<longrightarrow> unique_ids d' \<and> keeps_history env c h d d')"

lemma keeps_uniquely_refl: "keeps_uniquely env c h d d"
  by (simp add: keeps_uniquely_def keeps_history_refl)

lemma keeps_uniquely_trans:
  "keeps_uniquely env c h d1 d2 \<Longrightarrow> keeps_uniquely env c h d2 d3 \<Longrightarrow> keeps_uniquely env c h d1 d3"
  unfolding keeps_uniquely_def using keeps_history_trans by blast

lemmas steps_keep = deletedMonitors_keeps deletedNotificationChannels_keeps terminalNotificationOutbox_keeps
  old_checkResults_keeps old_scheduledChecks_keeps old_notificationDeliveries_keeps old_notificationOutbox_keeps
  old_incidents_keeps old_auditLogs_keeps

lemma step_keeps_uniquely:
  assumes "step \<in> set (RETENTION_REDACTION_STEPS env @ RETENTION_STEPS env c h)"
    and "ry_mutate step (take n (ry_select step d)) d = Inr (k, d')"
  shows "keeps_uniquely env c h d d'"
  unfolding keeps_uniquely_def
proof (intro impI conjI)
  assume u: "unique_ids d"
  show "unique_ids d'" using drained_step.mutate_ok[OF steps_drained[OF assms(1)] u, of n] assms(2) by auto
  from assms(1) consider "step = deletedMonitors env" | "step = deletedNotificationChannels env"
    | "step = terminalNotificationOutbox env" | "step = old_checkResults env c" | "step = old_scheduledChecks env c"
    | "step = old_notificationDeliveries env h" | "step = old_notificationOutbox env h"
    | "step = old_incidents env h" | "step = old_auditLogs env h"
    by (auto simp: RETENTION_REDACTION_STEPS_def RETENTION_STEPS_def)
  then show "keeps_history env c h d d'" by cases (use assms(2) u in \<open>auto intro: steps_keep\<close>)
qed

lemma run_keeps_uniquely:
  assumes "runRetention env config boundaryAt d = (x, d')"
  shows "keeps_uniquely env (boundaryAt - rc_checkResultDays config * day_ms)
    (boundaryAt - rc_historyDays config * day_ms) d d'" (is "keeps_uniquely env ?c ?h d d'")
proof -
  have steps: "keeps_uniquely env ?c ?h e e'"
    if "run_steps maxBatches batchSize steps e = (y, e')"
      "set steps \<subseteq> set (RETENTION_REDACTION_STEPS env @ RETENTION_STEPS env ?c ?h)"
    for maxBatches batchSize steps e y e'
  proof (rule run_steps_rel[where R = "keeps_uniquely env ?c ?h", OF keeps_uniquely_refl])
    show "run_steps maxBatches batchSize steps e = (y, e')" by fact
    show "keeps_uniquely env ?c ?h b b'"
      if "step \<in> set steps" "ry_mutate step (take n (ry_select step b)) b = Inr (k, b')" for step n b k b'
      by (rule step_keeps_uniquely[OF _ that(2)])
        (use that(1) \<open>set steps \<subseteq> set (RETENTION_REDACTION_STEPS env @ RETENTION_STEPS env ?c ?h)\<close> in blast)
  qed (rule keeps_uniquely_trans)
  from assms show ?thesis
  proof (cases rule: runRetention_phases)
    case skipped
    then show ?thesis by (simp add: keeps_uniquely_refl)
  next
    case (redacting y)
    then show ?thesis by (rule steps) simp
  next
    case (deleting y z d1)
    have "keeps_uniquely env ?c ?h d d1" by (rule steps[OF deleting(1)]) simp
    moreover have "keeps_uniquely env ?c ?h d1 d'" by (rule steps[OF deleting(2)]) simp
    ultimately show ?thesis by (rule keeps_uniquely_trans)
  qed
qed

section \<open>Secrets a recovery needs\<close>

text \<open>What the redactions may do to notifications, and what their conditions depend on.\<close>

definition spares :: "db \<Rightarrow> db \<Rightarrow> bool" where
  "spares d d' \<longleftrightarrow>
     (\<forall>x. awaits_recovery d' x = awaits_recovery d x \<and> may_be_reactivated d' x = may_be_reactivated d x) \<and>
     (\<forall>r \<in> set (outbox d). r \<in> set (outbox d') \<or> retired_secret d r)"

lemma spares_refl: "spares d d" by (simp add: spares_def)

lemma spares_trans: "spares d1 d2 \<Longrightarrow> spares d2 d3 \<Longrightarrow> spares d1 d3"
  unfolding spares_def retired_secret_def by metis

lemma spares_frame:
  assumes "\<And>i. live_channel d' i = live_channel d i" "outbox d' = outbox d" "incidents d' = incidents d"
    "monitorChannels d' = monitorChannels d"
  shows "spares d d'"
  using assms by (simp add: spares_def awaits_recovery_def may_be_reactivated_def recovery_binding_def)

lemma redaction_spares:
  assumes "unique_ids d" "step \<in> set (RETENTION_REDACTION_STEPS env)"
    and "ry_mutate step (take n (ry_select step d)) d = Inr (k, d')"
  shows "spares d d'"
proof -
  from assms(2) consider "step = deletedMonitors env" | "step = deletedNotificationChannels env"
    | "step = terminalNotificationOutbox env" by (auto simp: RETENTION_REDACTION_STEPS_def)
  then show ?thesis
  proof cases
    case 1
    with assms(3) show ?thesis by (intro spares_frame) (auto simp: deletedMonitors_def live_channel_def)
  next
    case 2
    with assms(3) show ?thesis
      by (intro spares_frame) (auto simp: deletedNotificationChannels_def live_channel_def list_ex_update_where)
  next
    case 3
    let ?ids = "take n (candidates env ob_id (\<lambda>r. re_updatedAt env (ob_id r)) (retired_secret d) (outbox d))"
    let ?f = "\<lambda>r :: NotificationOutbox. r\<lparr>ob_encryptedConfigSnapshot := secretTombstoneBytes\<rparr>"
    have d': "d' = d\<lparr>outbox := update_where (\<lambda>r. ob_id r \<in> set ?ids) ?f (outbox d)\<rparr>"
      using 3 assms(3) by (simp add: terminalNotificationOutbox_def)
    have "retired_secret d r" if r: "r \<in> set (outbox d)" "ob_id r \<in> set ?ids" for r
    proof (rule candidate_row[OF r(2)])
      fix r'
      assume r': "r' \<in> set (outbox d)" "ob_id r' = ob_id r" "retired_secret d r'"
      have "inj_on ob_id (set (outbox d))" using assms(1) by (simp add: unique_ids_def distinct_map)
      with r(1) r' have "r' = r" by (auto dest: inj_onD)
      with r'(3) show ?thesis by simp
    qed
    then have "\<forall>r \<in> set (outbox d). r \<in> set (outbox d') \<or> retired_secret d r"
      unfolding d' by (auto simp: update_where_def)
    then show ?thesis
      by (simp add: spares_def d' awaits_recovery_def may_be_reactivated_def live_channel_def recovery_binding_def
          list_ex_update_where)
  qed
qed

lemma deletion_spares:
  assumes "unique_ids d" "step \<in> set (RETENTION_STEPS env c h)"
    and "ry_mutate step (take n (ry_select step d)) d = Inr (k, d')" "r \<in> set (outbox d)"
  shows "r \<in> set (outbox d') \<or> terminal_outbox r \<and> outbox_end env r < h"
proof (cases "step = old_notificationOutbox env h")
  case True
  let ?ids = "take n (candidates env ob_id (outbox_end env)
      (\<lambda>r. terminal_outbox r \<and> outbox_end env r < h \<and> \<not> has_delivery (ob_id r) d) (outbox d))"
  have d': "outbox d' = filter (\<lambda>x. ob_id x \<notin> set ?ids) (outbox d)"
    using True assms(3) by (auto simp: old_notificationOutbox_def restrict_deletes_def split: if_splits)
  show ?thesis
  proof (cases "ob_id r \<in> set ?ids")
    case True
    have "terminal_outbox r \<and> outbox_end env r < h \<and> \<not> has_delivery (ob_id r) d"
      by (rule candidate_unique[of ob_id "outbox d" "ob_id r" n env "outbox_end env"])
        (use assms(1,4) True in \<open>simp_all add: unique_ids_def\<close>)
    then show ?thesis by simp
  qed (use d' assms(4) in simp)
next
  case False
  with assms(2,3) have "outbox d' = outbox d"
    by (auto simp: RETENTION_STEPS_def old_checkResults_def old_scheduledChecks_def old_notificationDeliveries_def
        old_incidents_def old_auditLogs_def restrict_deletes_def split: if_splits)
  with assms(4) show ?thesis by simp
qed

definition spares_rows :: "retention_env \<Rightarrow> time \<Rightarrow> db \<Rightarrow> db \<Rightarrow> bool" where
  "spares_rows env h d d' \<longleftrightarrow> (unique_ids d \<longrightarrow> unique_ids d' \<and>
     (\<forall>r \<in> set (outbox d). r \<in> set (outbox d') \<or> terminal_outbox r \<and> outbox_end env r < h))"

lemma runs_spare:
  assumes "unique_ids d"
  shows "run_steps m b (RETENTION_REDACTION_STEPS env) d = (x, d') \<Longrightarrow> unique_ids d' \<and> spares d d'"
    and "run_steps m b (RETENTION_STEPS env c h) d = (x, d') \<Longrightarrow> spares_rows env h d d'"
proof -
  show "unique_ids d' \<and> spares d d'" if "run_steps m b (RETENTION_REDACTION_STEPS env) d = (x, d')"
  proof -
    let ?R = "\<lambda>d d'. unique_ids d \<longrightarrow> unique_ids d' \<and> spares d d'"
    have "?R d d'"
    proof (rule run_steps_rel[where R = ?R, rotated -1, OF that])
      show "?R e e'" if "step \<in> set (RETENTION_REDACTION_STEPS env)"
        "ry_mutate step (take n (ry_select step e)) e = Inr (k, e')" for step n e k e'
        using redaction_spares[OF _ that] drained_step.mutate_ok[OF steps_drained[of step env], where d = e and n = n] that
        by auto
    qed (use spares_refl spares_trans in blast)+
    with assms show ?thesis by simp
  qed
  show "spares_rows env h d d'" if "run_steps m b (RETENTION_STEPS env c h) d = (x, d')"
  proof (rule run_steps_rel[where R = "spares_rows env h", rotated -1, OF that])
    show "spares_rows env h e e'" if "step \<in> set (RETENTION_STEPS env c h)"
      "ry_mutate step (take n (ry_select step e)) e = Inr (k, e')" for step n e k e'
      using deletion_spares[OF _ that] drained_step.mutate_ok[OF steps_drained[of step env c h], where d = e and n = n] that
      by (auto simp: spares_rows_def)
  qed (auto simp: spares_rows_def)
qed

text \<open>The state on which the worker decides whether a destination is still needed.\<close>

definition secret_state :: "db \<Rightarrow> NotificationOutbox \<Rightarrow> NotificationSecretState" where
  "secret_state d r =
     \<lparr>nss_status = ob_status r, nss_eventType = ob_eventType r, nss_lastErrorSafe = ob_lastErrorSafe r,
      nss_payloadAllowsRecovery = payloadAllowsRecovery (ob_payloadSafe r),
      nss_incidentStatus = map_option ic_status (find (\<lambda>i. Some (ic_id i) = ob_incidentId r) (incidents d))\<rparr>"

text \<open>A recovery message for the row can still be sent: its channel lives, the monitor still wants
recoveries there and, for a canceled recovery, the message about the failure may yet arrive.\<close>

definition recovery_possible :: "db \<Rightarrow> NotificationOutbox \<Rightarrow> bool" where
  "recovery_possible d r \<longleftrightarrow>
     live_channel d (ob_channelId r) \<and> recovery_binding d (ob_monitorId r) (ob_channelId r) \<and>
     (ob_eventType r = RECOVERY \<longrightarrow> ob_incidentId r \<noteq> None \<and>
        (\<exists>x \<in> set (outbox d). ob_incidentId x = ob_incidentId r \<and> ob_channelId x = ob_channelId r \<and>
           ob_eventType x = NotificationEventType.DOWN \<and> ob_status x \<noteq> NotificationOutboxStatus.CANCELED))"

lemma needed_not_retired:
  assumes "shouldRetainNotificationSecret (secret_state d r)" "recovery_possible d r"
  shows "\<not> retired_secret d r"
proof (cases "terminal_outbox r")
  case False
  then show ?thesis by (simp add: retired_secret_def sql_and_True)
next
  case True
  then consider
    "ob_eventType r = RECOVERY" "ob_status r = NotificationOutboxStatus.CANCELED"
      "ob_lastErrorSafe r = Some DOWN_NOT_DELIVERED_RECOVERY_CANCEL_REASON"
    | i where "ob_eventType r = NotificationEventType.DOWN" "ob_status r = SENT" "payloadAllowsRecovery (ob_payloadSafe r)"
      "find (\<lambda>i. Some (ic_id i) = ob_incidentId r) (incidents d) = Some i" "ic_status i = IncidentStatus.OPEN"
    using assms(1)
    by (auto simp: shouldRetainNotificationSecret_def secret_state_def TERMINAL_STATUSES_def terminal_outbox_def split: if_splits)
  then show ?thesis
  proof cases
    case 1
    then have "may_be_reactivated d r = Some True"
      using assms(2) by (auto simp: may_be_reactivated_def recovery_possible_def sql_and_True sql_eq_def list_ex_iff)
    then show ?thesis by (simp add: retired_secret_def sql_and_True sql_not_def)
  next
    case 2
    from 2(4) have "i \<in> set (incidents d)" "Some (ic_id i) = ob_incidentId r"
      by (auto simp: find_Some_iff)
    with 2 have "awaits_recovery d r = Some True"
      using assms(2) by (auto simp: awaits_recovery_def recovery_possible_def sql_and_True payloadAllowsRecovery_def
          payload_flag_def list_ex_iff open_incident_def)
    then show ?thesis by (simp add: retired_secret_def sql_and_True sql_not_def)
  qed
qed

text \<open>C20. The retention command never takes away a destination the worker still needs: a
notification whose secret the worker would keep (not finished, sent about an incident that is
still open, or a recovery canceled because the failure was not delivered) and whose recovery can
still be sent is left exactly as it is, unless it is finished and older than the history cutoff,
when the whole row may go.\<close>

theorem retention_spares_recoveries:
  assumes "runRetention env config boundaryAt d = (answer, d')" "unique_ids d" "r \<in> set (outbox d)"
    and "shouldRetainNotificationSecret (secret_state d r)" "recovery_possible d r"
  shows "r \<in> set (outbox d') \<or>
    terminal_outbox r \<and> outbox_end env r < boundaryAt - rc_historyDays config * day_ms"
  using assms(1)
proof (cases rule: runRetention_phases)
  case skipped
  with assms(3) show ?thesis by simp
next
  case (redacting y)
  from runs_spare(1)[OF assms(2) redacting] assms(3) needed_not_retired[OF assms(4,5)] show ?thesis
    by (auto simp: spares_def)
next
  case (deleting y z d1)
  from runs_spare(1)[OF assms(2) deleting(1)] assms(3) needed_not_retired[OF assms(4,5)]
  have "unique_ids d1" "r \<in> set (outbox d1)" by (auto simp: spares_def)
  with runs_spare(2)[OF _ deleting(2)] show ?thesis by (auto simp: spares_rows_def)
qed

text \<open>A row that is changed or lost was retired before the run, or is finished and older than the
second cutoff.\<close>

lemma run_spares:
  assumes "runRetention env config boundaryAt d = (answer, d')" "unique_ids d" "r \<in> set (outbox d)"
  shows "r \<in> set (outbox d') \<or> retired_secret d r \<or>
    terminal_outbox r \<and> outbox_end env r < boundaryAt - rc_historyDays config * day_ms"
  using assms(1)
proof (cases rule: runRetention_phases)
  case skipped
  with assms(3) show ?thesis by simp
next
  case (redacting y)
  from runs_spare(1)[OF assms(2) redacting] assms(3) show ?thesis by (auto simp: spares_def)
next
  case (deleting y z d1)
  from runs_spare(1)[OF assms(2) deleting(1)] assms(3)
  have "unique_ids d1" "r \<in> set (outbox d1) \<or> retired_secret d r" by (auto simp: spares_def)
  with runs_spare(2)[OF _ deleting(2)] show ?thesis by (auto simp: spares_rows_def)
qed

text \<open>C19. The retention command deletes history only. Whatever it answers, it leaves every account,
session, assignment and network row as it was; it deletes no check result younger than the first
cutoff, no scheduled check that is pending or processing or younger than it, no incident that is
open, no delivery that is younger than the second cutoff or whose notification is not finished or
younger than it, no notification that is not finished, and no notification, incident or audit
entry younger than the second cutoff; it never adds a row and keeps ids unique; a notification it
changes loses its destination only, and was retired (finished, and no recovery can need the
destination any more) before the run; a monitor or a channel it changes is deleted and loses its
secret only; no reference dangles afterwards and the monitors, their health and their open
incidents stay consistent.\<close>

theorem retention_deletes_only_history:
  assumes "runRetention env config boundaryAt d = (answer, d')" "unique_ids d"
  shows "keeps_history env (boundaryAt - rc_checkResultDays config * day_ms)
      (boundaryAt - rc_historyDays config * day_ms) d d' \<and> unique_ids d' \<and>
    (\<forall>r \<in> set (outbox d). r \<in> set (outbox d') \<or> retired_secret d r \<and> redacted_row r \<in> set (outbox d') \<or>
       terminal_outbox r \<and> outbox_end env r < boundaryAt - rc_historyDays config * day_ms)"
proof -
  have run: "keeps_history env (boundaryAt - rc_checkResultDays config * day_ms)
      (boundaryAt - rc_historyDays config * day_ms) d d'" "unique_ids d'"
    using run_keeps_uniquely[OF assms(1)] assms(2) by (simp_all add: keeps_uniquely_def)
  then have "keeps_outbox (\<lambda>r. terminal_outbox r \<and> outbox_end env r < boundaryAt - rc_historyDays config * day_ms)
      (outbox d) (outbox d')"
    unfolding keeps_history_def by (elim conjE)
  with run run_spares[OF assms] show ?thesis unfolding keeps_outbox_def by blast
qed

text \<open>
  Where the two rules differ: a canceled recovery without a stored reason is not kept by the
  worker, but the comparison with an absent reason is unknown, not false, so the statement never
  selects it while its channel lives and the failure may yet be delivered.
\<close>

lemma canceled_recovery_without_reason:
  assumes "ob_eventType r = RECOVERY" "ob_status r = NotificationOutboxStatus.CANCELED" "ob_lastErrorSafe r = None"
    and "recovery_possible d r"
  shows "\<not> shouldRetainNotificationSecret (secret_state d r)" "\<not> retired_secret d r"
proof -
  show "\<not> shouldRetainNotificationSecret (secret_state d r)"
    using assms(1-3) by (simp add: shouldRetainNotificationSecret_def secret_state_def TERMINAL_STATUSES_def)
  have "may_be_reactivated d r = None"
    using assms by (auto simp: may_be_reactivated_def recovery_possible_def sql_eq_def list_ex_iff)
  then show "\<not> retired_secret d r" by (simp add: retired_secret_def sql_and_True sql_not_def)
qed

section \<open>Examples\<close>

definition retention_setup :: RetentionConfig where
  "retention_setup = \<lparr>rc_databaseUrl = js ''mysql://db'', rc_checkResultDays = 30, rc_historyDays = 365,
     rc_batchSize = 500, rc_maxBatchesPerStep = 100\<rparr>"

definition retention_world :: retention_env where
  "retention_world = \<lparr>re_locked = (\<lambda>i. i = js ''held''), re_updatedAt = (\<lambda>i. 300), re_acquired = True\<rparr>"

definition awaited_down :: NotificationOutbox where
  "awaited_down = (example_outbox (js ''d'') NotificationEventType.DOWN SENT)
     \<lparr>ob_payloadSafe := JObj [(js ''notifyOnRecovery'', JBool True)], ob_sentAt := Some 40000000000\<rparr>"

definition history_db :: db where
  "history_db = empty_db\<lparr>channels := [example_channel],
     incidents := [\<lparr>ic_id = js ''i1'', ic_monitorId = js ''m1'', ic_configVersion = 1, ic_status = IncidentStatus.OPEN,
        ic_firstFailureAt = 100, ic_detectedAt = 200, ic_resolvedAt = None, ic_canceledAt = None,
        ic_firstErrorType = None, ic_lastErrorType = None, ic_closureReason = None, ic_createdAt = 200\<rparr>],
     monitorChannels := [\<lparr>mc_monitorId = js ''m1'', mc_channelId = js ''t1'', mc_notifyOnDown = True,
        mc_notifyOnRecovery = True, mc_createdAt = 0\<rparr>],
     outbox := [awaited_down, (example_outbox (js ''e'') RECOVERY SENT)\<lparr>ob_sentAt := Some 500\<rparr>]\<rparr>"

lemma history_db_unique: "unique_ids history_db"
  by (simp add: unique_ids_def history_db_def empty_db_def awaited_down_def example_outbox_def js_inj)

theorem retention_completes_within_bounds_witness:
  "\<exists>r d'. runRetention retention_world retention_setup 40000000000 history_db = (Inr (Retention_Completed r), d') \<and>
     unique_ids d' \<and> (\<forall>(key, s) \<in> set (rt_secretRedactions r @ rt_steps r).
       sr_batches s \<le> 1000 \<and> sr_rows s \<le> rc_maxBatchesPerStep retention_setup * rc_batchSize retention_setup)"
proof -
  have config: "readRetentionConfig (\<lambda>_. Some (js ''mysql:''))
      (\<lambda>n. if n = ''DATABASE_URL'' then Some (js ''mysql://db'') else None) = Inr retention_setup"
    by code_simp
  have "re_acquired retention_world" by (simp add: retention_world_def)
  from retention_completes_within_bounds[OF config history_db_unique this, of 40000000000 0 0]
  show ?thesis by (rule conjunct1)
qed

theorem retention_deletes_only_history_witness:
  "map ob_id (outbox (snd (runRetention retention_world retention_setup 40000000000 history_db))) = [js ''d''] \<and>
   keeps_history retention_world (40000000000 - 30 * 86400000) (40000000000 - 365 * 86400000) history_db
     (snd (runRetention retention_world retention_setup 40000000000 history_db))"
proof
  show "map ob_id (outbox (snd (runRetention retention_world retention_setup 40000000000 history_db))) = [js ''d'']"
    by code_simp
  show "keeps_history retention_world (40000000000 - 30 * 86400000) (40000000000 - 365 * 86400000) history_db
     (snd (runRetention retention_world retention_setup 40000000000 history_db))"
    using conjunct1[OF retention_deletes_only_history[where env = retention_world and config = retention_setup and
        boundaryAt = 40000000000, OF surjective_pairing history_db_unique]] by (simp add: retention_setup_def day_ms_def)
qed

theorem retention_spares_recoveries_witness:
  "awaited_down \<in> set (outbox (snd (runRetention retention_world retention_setup 40000000000 history_db)))"
proof -
  have "shouldRetainNotificationSecret (secret_state history_db awaited_down)" by code_simp
  moreover have "recovery_possible history_db awaited_down"
    by (simp add: recovery_possible_def live_channel_def recovery_binding_def history_db_def awaited_down_def
        example_outbox_def example_channel_def empty_db_def)
  moreover have "awaited_down \<in> set (outbox history_db)" by (simp add: history_db_def)
  moreover have "\<not> outbox_end retention_world awaited_down <
      40000000000 - rc_historyDays retention_setup * day_ms"
    by (simp add: outbox_end_def awaited_down_def coalesce_def retention_setup_def day_ms_def)
  ultimately show ?thesis
    using retention_spares_recoveries[where env = retention_world and config = retention_setup and
        boundaryAt = 40000000000 and r = awaited_down, OF surjective_pairing history_db_unique] by blast
qed

end
