(* ===== verification/Channel_Service.thy ===== *)
theory Channel_Service
  imports Monitor_Queries Notification_Processor
begin

text \<open>
  The notification channels of \<open>apps/api/src/notifications\<close>: the schemas of a request
  (\<open>notification.schemas.ts\<close>) and the operations of \<open>notification-channels.service.ts\<close>, with the
  cancellation of everything that waits for a channel. The sealing of texts, the JSON text
  functions, the configured administrator and token and the Telegram adapter are parameters;
  new ids and the times are arguments. The column \<open>updated_at\<close> is left out of the views.
\<close>

section \<open>Requests\<close>

record NotificationChannelInput =
  ni_displayName :: jstring
  ni_botToken :: jstring
  ni_chatId :: jstring

record NotificationChannelPatch =
  np_displayName :: "jstring option"
  np_enabled :: "bool option"
  np_botToken :: "jstring option"
  np_chatId :: "jstring option"

definition channel_type_field :: "json \<Rightarrow> unit option" where
  "channel_type_field v = (if v = JStr (js ''TELEGRAM'') then Some () else None)"

definition notificationChannelInputSchema :: "json \<Rightarrow> NotificationChannelInput option" where
  "notificationChannelInputSchema body = do {
     members \<leftarrow> strict_object [js ''type'', js ''displayName'', js ''botToken'', js ''chatId''] body;
     let get = map_of members;
     kind \<leftarrow> required channel_type_field (get (js ''type''));
     displayName \<leftarrow> required (string_field 1 160) (get (js ''displayName''));
     botToken \<leftarrow> defaulted (string_field 0 256) [] (get (js ''botToken''));
     chatId \<leftarrow> required (string_field 1 64) (get (js ''chatId''));
     Some \<lparr>ni_displayName = displayName, ni_botToken = botToken, ni_chatId = chatId\<rparr>}"

definition notificationChannelPatchSchema :: "json \<Rightarrow> NotificationChannelPatch option" where
  "notificationChannelPatchSchema body = do {
     members \<leftarrow> strict_object [js ''displayName'', js ''enabled'', js ''botToken'', js ''chatId''] body;
     let get = map_of members;
     displayName \<leftarrow> optional (string_field 1 160) (get (js ''displayName''));
     enabled \<leftarrow> optional bool_field (get (js ''enabled''));
     botToken \<leftarrow> optional (string_field 1 256) (get (js ''botToken''));
     chatId \<leftarrow> optional (string_field 1 64) (get (js ''chatId''));
     if members = [] then None
     else Some \<lparr>np_displayName = displayName, np_enabled = enabled, np_botToken = botToken,
                np_chatId = chatId\<rparr>}"

section \<open>Stored destinations\<close>

record channel_env =
  ce_cipher :: cipher
  ce_decipher :: decipher
  ce_stringify :: "json \<Rightarrow> jstring"
  ce_parse :: "jstring \<Rightarrow> json option"
  ce_adminUsername :: jstring
  ce_telegramBotToken :: jstring

text \<open>
  \<open>StoredChannelConfig\<close> as an object; \<open>JSON.stringify\<close> leaves out a member without a value.
\<close>

definition stored_config :: "json option \<Rightarrow> json option \<Rightarrow> json" where
  "stored_config botToken chatId = JObj
     ((js ''type'', JStr (js ''TELEGRAM'')) #
      (case botToken of None \<Rightarrow> [] | Some t \<Rightarrow> [(js ''botToken'', t)]) @
      (case chatId of None \<Rightarrow> [] | Some c \<Rightarrow> [(js ''chatId'', c)]))"

definition encodeConfig :: "channel_env \<Rightarrow> json \<Rightarrow> 8 word list" where
  "encodeConfig env config = encryptString (ce_cipher env) (ce_stringify env config)"

definition decodeConfig :: "channel_env \<Rightarrow> 8 word list \<Rightarrow> json option" where
  "decodeConfig env value = decryptJson (ce_decipher env) (ce_parse env) value"

definition telegram_config :: "json \<Rightarrow> bool" where
  "telegram_config config \<longleftrightarrow> jget config (js ''type'') = Some (JStr (js ''TELEGRAM''))"

record ChannelView =
  cv_id :: id
  cv_type :: jstring
  cv_displayName :: jstring
  cv_botToken :: "json option"
  cv_chatId :: "json option"
  cv_enabled :: bool
  cv_verifiedAt :: "time option"
  cv_createdAt :: time

text \<open>A member of the readable configuration, or \<open>null\<close>.\<close>

definition shown_member :: "channel_env \<Rightarrow> NotificationChannel \<Rightarrow> string \<Rightarrow> json option" where
  "shown_member env c name =
     (case decodeConfig env (ch_encryptedConfig c) of None \<Rightarrow> Some JNull
      | Some config \<Rightarrow> if ch_type c = telegram \<and> telegram_config config then jget config (js name)
                       else Some JNull)"

definition channelView :: "channel_env \<Rightarrow> NotificationChannel \<Rightarrow> ChannelView" where
  "channelView env c =
     \<lparr>cv_id = ch_id c, cv_type = ch_type c, cv_displayName = ch_displayName c,
      cv_botToken = shown_member env c ''botToken'', cv_chatId = shown_member env c ''chatId'',
      cv_enabled = ch_enabled c, cv_verifiedAt = ch_verifiedAt c, cv_createdAt = ch_createdAt c\<rparr>"

section \<open>Queries\<close>

definition available_channels :: "db \<Rightarrow> NotificationChannel list" where
  "available_channels d = sort_key (\<lambda>c. (ch_displayName c, ch_id c)) (filter usable_channel (channels d))"

definition list_channels ::
  "channel_env \<Rightarrow> id option \<Rightarrow> nat \<Rightarrow> db \<Rightarrow> ChannelView list \<times> id option" where
  "list_channels env cursor limit d =
     (case find_page limit ch_id cursor
             (newest_first ch_createdAt ch_id
               (filter (\<lambda>c. ch_deletedAt c = None \<and> ch_type c = telegram) (channels d))) of
        (items, nextCursor) \<Rightarrow> (map (channelView env) items, nextCursor))"

section \<open>Create\<close>

definition new_channel :: "channel_env \<Rightarrow> id \<Rightarrow> time \<Rightarrow> jstring \<Rightarrow> NotificationChannelInput \<Rightarrow> NotificationChannel" where
  "new_channel env i now botToken input =
     \<lparr>ch_id = i, ch_type = telegram, ch_displayName = ni_displayName input,
      ch_encryptedConfig = encodeConfig env (stored_config (Some (JStr botToken)) (Some (JStr (ni_chatId input)))),
      ch_verifiedAt = None, ch_enabled = True, ch_createdAt = now, ch_deletedAt = None\<rparr>"

definition channel_audit :: "channel_env \<Rightarrow> id \<Rightarrow> string \<Rightarrow> id \<Rightarrow> time \<Rightarrow> AuditLog" where
  "channel_audit env auditId action i now =
     audit_row auditId (ce_adminUsername env) action ''NotificationChannel'' i None now"

definition create_channel_tx ::
  "channel_env \<Rightarrow> id \<Rightarrow> id \<Rightarrow> time \<Rightarrow> jstring \<Rightarrow> NotificationChannelInput \<Rightarrow> NotificationChannel tx" where
  "create_channel_tx env i auditId now botToken input d =
     (let c = new_channel env i now botToken input in
      if list_ex (\<lambda>x. ch_id x = i) (channels d) then Inl (DatabaseError (UniqueConstraint ''PRIMARY''))
      else Inr (c, write_audit (channel_audit env auditId ''NOTIFICATION_CHANNEL_CREATED'' i now)
                     (d\<lparr>channels := channels d @ [c]\<rparr>)))"

definition create_channel ::
  "channel_env \<Rightarrow> id \<Rightarrow> id \<Rightarrow> time \<Rightarrow> NotificationChannelInput \<Rightarrow> db \<Rightarrow> (api_error + ChannelView) \<times> db" where
  "create_channel env i auditId now input d =
     (let botToken = (if ni_botToken input = [] then ce_telegramBotToken env else ni_botToken input) in
      if botToken = [] then (Inl (BadRequest [0x54, 0x65, 0x6C, 0x65, 0x67, 0x72, 0x61, 0x6D, 0x20, 0x62, 0x6F, 0x74, 0x20, 0x74,
      0x6F, 0x6B, 0x65, 0x6E, 0xC744, 0x20, 0xC785, 0xB825, 0xD574, 0x20, 0xC8FC, 0xC138,
      0xC694, 0x2E]), d)
      else (case transaction (create_channel_tx env i auditId now botToken input) d of
              (Inl e, d') \<Rightarrow> (Inl e, d')
            | (Inr c, d') \<Rightarrow> (Inr (channelView env c), d')))"

section \<open>Update\<close>

definition channel_missing :: api_error where
  "channel_missing = NotFound [0xC54C, 0xB9BC, 0x20, 0xCC44, 0xB110, 0xC744, 0x20, 0xCC3E, 0xC744, 0x20, 0xC218, 0x20,
      0xC5C6, 0xC2B5, 0xB2C8, 0xB2E4, 0x2E]"

definition lockChannel :: "id \<Rightarrow> db \<Rightarrow> NotificationChannel option" where
  "lockChannel i d = find (\<lambda>c. ch_id c = i \<and> ch_deletedAt c = None) (channels d)"

text \<open>The new destination of a patch; \<open>None\<close> when it keeps the stored one.\<close>

definition next_config ::
  "channel_env \<Rightarrow> NotificationChannelPatch \<Rightarrow> NotificationChannel \<Rightarrow> api_error + json option" where
  "next_config env patch present =
     (if np_botToken patch = None \<and> np_chatId patch = None then Inr None
      else (case decodeConfig env (ch_encryptedConfig present) of
              None \<Rightarrow> Inl (Uncaught (PlainError ''Unsupported encrypted value''))
            | Some config \<Rightarrow>
                if config = JNull
                then Inl (Uncaught (PlainError ''Cannot read properties of null (reading 'type')''))
                else if \<not> telegram_config config then Inl channel_missing
                else
                 (let oldToken = jget config (js ''botToken''); oldChat = jget config (js ''chatId'');
                      token = (case np_botToken patch of None \<Rightarrow> oldToken | Some t \<Rightarrow> Some (JStr t));
                      chat = (case np_chatId patch of None \<Rightarrow> oldChat | Some c \<Rightarrow> Some (JStr c))
                  in Inr (if token \<noteq> oldToken \<or> chat \<noteq> oldChat then Some (stored_config token chat)
                          else None))))"

definition of_channel :: "id \<Rightarrow> NotificationOutbox \<Rightarrow> bool" where
  "of_channel i r \<longleftrightarrow> ob_channelId r = i"

text \<open>What disabling and removing share; the message closes open attempts.\<close>

definition silence_channel :: "id \<Rightarrow> jstring \<Rightarrow> time \<Rightarrow> db \<Rightarrow> db" where
  "silence_channel i message now d =
     (let d1 = lose_attempts (of_channel i) message now d;
          d2 = d1\<lparr>monitorChannels := filter (\<lambda>b. mc_channelId b \<noteq> i) (monitorChannels d1)\<rparr>
      in retire_secrets (of_channel i) (cancel_outbox (of_channel i) now d2))"

definition disabled_message :: jstring where
  "disabled_message = [0xCC44, 0xB110, 0x20, 0xBE44, 0xD65C, 0xC131, 0xD654, 0xB85C, 0x20, 0xBC1C, 0xC1A1,
      0x20, 0xCD94, 0xC801, 0xC774, 0x20, 0xC885, 0xB8CC, 0xB418, 0xC5B4, 0x20, 0xC804,
      0xB2EC, 0x20, 0xC5EC, 0xBD80, 0xB97C, 0x20, 0xD655, 0xC778, 0xD560, 0x20, 0xC218, 0x20,
      0xC5C6, 0xC2B5, 0xB2C8, 0xB2E4, 0x2E]"

definition removed_message :: jstring where
  "removed_message = [0xCC44, 0xB110, 0x20, 0xC0AD, 0xC81C, 0xB85C, 0x20, 0xBC1C, 0xC1A1, 0x20, 0xCD94,
      0xC801, 0xC774, 0x20, 0xC885, 0xB8CC, 0xB418, 0xC5B4, 0x20, 0xC804, 0xB2EC, 0x20,
      0xC5EC, 0xBD80, 0xB97C, 0x20, 0xD655, 0xC778, 0xD560, 0x20, 0xC218, 0x20, 0xC5C6,
      0xC2B5, 0xB2C8, 0xB2E4, 0x2E]"

definition patched_channel ::
  "channel_env \<Rightarrow> NotificationChannelPatch \<Rightarrow> json option \<Rightarrow> NotificationChannel \<Rightarrow> NotificationChannel" where
  "patched_channel env patch config c =
     (let c1 = c\<lparr>ch_displayName := value_or (ch_displayName c) (np_displayName patch),
                 ch_enabled := value_or (ch_enabled c) (np_enabled patch)\<rparr>
      in (case config of None \<Rightarrow> c1
          | Some x \<Rightarrow> c1\<lparr>ch_encryptedConfig := encodeConfig env x, ch_verifiedAt := None\<rparr>))"

definition update_channel :: "id \<Rightarrow> (NotificationChannel \<Rightarrow> NotificationChannel) \<Rightarrow> db \<Rightarrow> db" where
  "update_channel i f d = d\<lparr>channels := update_where (\<lambda>c. ch_id c = i) f (channels d)\<rparr>"

definition update_channel_tx ::
  "channel_env \<Rightarrow> id \<Rightarrow> id \<Rightarrow> time \<Rightarrow> NotificationChannelPatch \<Rightarrow> NotificationChannel tx" where
  "update_channel_tx env i auditId now patch d =
     (case lockChannel i d of None \<Rightarrow> Inl channel_missing
      | Some present \<Rightarrow>
          if ch_type present \<noteq> telegram then Inl channel_missing
          else (case next_config env patch present of Inl e \<Rightarrow> Inl e
            | Inr config \<Rightarrow>
               (let d1 = (if np_enabled patch = Some False then silence_channel i disabled_message now d else d);
                    d2 = update_channel i (patched_channel env patch config) d1
                in Inr (patched_channel env patch config present,
                        write_audit (channel_audit env auditId ''NOTIFICATION_CHANNEL_UPDATED'' i now) d2))))"

definition update_channel_op ::
  "channel_env \<Rightarrow> id \<Rightarrow> id \<Rightarrow> time \<Rightarrow> NotificationChannelPatch \<Rightarrow> db \<Rightarrow> (api_error + ChannelView) \<times> db" where
  "update_channel_op env i auditId now patch d =
     (case transaction (update_channel_tx env i auditId now patch) d of
        (Inl e, d') \<Rightarrow> (Inl e, d') | (Inr c, d') \<Rightarrow> (Inr (channelView env c), d'))"

section \<open>Remove\<close>

definition removed_channel :: "time \<Rightarrow> NotificationChannel \<Rightarrow> NotificationChannel" where
  "removed_channel now c =
     c\<lparr>ch_enabled := False, ch_encryptedConfig := secretTombstoneBytes, ch_deletedAt := Some now\<rparr>"

definition remove_channel_tx :: "channel_env \<Rightarrow> id \<Rightarrow> id \<Rightarrow> time \<Rightarrow> unit tx" where
  "remove_channel_tx env i auditId now d =
     (case lockChannel i d of None \<Rightarrow> Inl channel_missing
      | Some _ \<Rightarrow>
          Inr ((), write_audit (channel_audit env auditId ''NOTIFICATION_CHANNEL_DELETED'' i now)
                 (update_channel i (removed_channel now) (silence_channel i removed_message now d))))"

definition remove_channel :: "channel_env \<Rightarrow> id \<Rightarrow> id \<Rightarrow> time \<Rightarrow> db \<Rightarrow> (api_error + unit) \<times> db" where
  "remove_channel env i auditId now d = transaction (remove_channel_tx env i auditId now) d"

section \<open>Test\<close>

definition CHANNEL_TEST_COOLDOWN_MS :: int where "CHANNEL_TEST_COOLDOWN_MS = 10000"

type_synonym test_times = "id \<Rightarrow> time option"

definition enforceChannelTestCooldown :: "id \<Rightarrow> time \<Rightarrow> test_times \<Rightarrow> api_error + test_times" where
  "enforceChannelTestCooldown channelId now tests =
     (case tests channelId of
        Some previous \<Rightarrow>
          if now - previous < CHANNEL_TEST_COOLDOWN_MS
          then Inl (TooManyRequests [0xAC19, 0xC740, 0x20, 0xCC44, 0xB110, 0xC758, 0x20, 0xC2DC, 0xD5D8, 0x20, 0xC54C,
      0xB9BC, 0xC740, 0x20, 0xC7A0, 0xC2DC, 0x20, 0xD6C4, 0x20, 0xB2E4, 0xC2DC, 0x20, 0xC2DC,
      0xB3C4, 0xD574, 0x20, 0xC8FC, 0xC138, 0xC694, 0x2E])
          else Inr (tests(channelId := Some now))
      | None \<Rightarrow> Inr (tests(channelId := Some now)))"

definition find_channel :: "id \<Rightarrow> db \<Rightarrow> NotificationChannel option" where
  "find_channel i d = find (\<lambda>c. ch_id c = i \<and> ch_deletedAt c = None \<and> ch_type c = telegram) (channels d)"

definition test_payload :: "time \<Rightarrow> SafeNotificationPayload" where
  "test_payload now =
     \<lparr>sp_eventType = TEST, sp_monitorName = [0x4C, 0x69, 0x6E, 0x6B, 0x41, 0x6C, 0x69, 0x76, 0x65, 0x20, 0xD14C, 0xC2A4, 0xD2B8],
      sp_displayUrl = js ''https://example.com/health'', sp_occurredAt = toISOString now,
      sp_errorType = None, sp_errorMessageSafe = Some [0xC54C, 0xB9BC, 0x20, 0xCC44, 0xB110, 0xC774, 0x20, 0xC815, 0xC0C1, 0xC801, 0xC73C,
      0xB85C, 0x20, 0xC5F0, 0xACB0, 0xB418, 0xC5C8, 0xC2B5, 0xB2C8, 0xB2E4, 0x2E],
      sp_statusCode = None, sp_ttfbMs = None, sp_durationMs = None, sp_dashboardUrl = None,
      sp_networkStartedAt = None\<rparr>"

text \<open>The message of a failed test; a configuration without its two texts throws no provider error.\<close>

definition send_test :: "telegram_port \<Rightarrow> json \<Rightarrow> time \<Rightarrow> jstring option" where
  "send_test adapter stored now =
     (case (jget stored (js ''botToken''), jget stored (js ''chatId'')) of
        (Some (JStr token), Some (JStr chat)) \<Rightarrow>
          (case adapter (test_payload now) \<lparr>td_botToken = token, td_chatId = chat\<rparr> of
             Inl e \<Rightarrow> Some (pe_safeMessage e) | Inr _ \<Rightarrow> None)
      | _ \<Rightarrow> Some [0xC54C, 0xB9BC, 0x20, 0xC2DC, 0xD5D8, 0x20, 0xBC1C, 0xC1A1, 0xC5D0, 0x20, 0xC2E4,
      0xD328, 0xD588, 0xC2B5, 0xB2C8, 0xB2E4, 0x2E])"

definition record_test :: "channel_env \<Rightarrow> id \<Rightarrow> id \<Rightarrow> time \<Rightarrow> unit tx" where
  "record_test env i auditId now d =
     (if list_ex (\<lambda>c. ch_id c = i) (channels d)
      then Inr ((), write_audit (channel_audit env auditId ''NOTIFICATION_CHANNEL_TEST_SUCCEEDED'' i now)
                 (update_channel i (\<lambda>c. c\<lparr>ch_verifiedAt := Some now\<rparr>) d))
      else Inl (DatabaseError RecordNotFound))"

text \<open>Between reading the channel and recording the answer others may work: \<open>meanwhile\<close>.\<close>

definition test_channel ::
  "channel_env \<Rightarrow> telegram_port \<Rightarrow> id \<Rightarrow> id \<Rightarrow> time \<Rightarrow> time \<Rightarrow> (db \<Rightarrow> db) \<Rightarrow> test_times \<Rightarrow> db \<Rightarrow>
   (api_error + unit) \<times> test_times \<times> db" where
  "test_channel env adapter i auditId now settledAt meanwhile tests d =
     (case find_channel i d of None \<Rightarrow> (Inl channel_missing, tests, d)
      | Some channel \<Rightarrow>
         (case enforceChannelTestCooldown i now tests of Inl e \<Rightarrow> (Inl e, tests, d)
          | Inr tests' \<Rightarrow>
            (case decodeConfig env (ch_encryptedConfig channel) of
               None \<Rightarrow> (Inl (Uncaught (PlainError ''Unsupported encrypted value'')), tests', d)
             | Some stored \<Rightarrow>
               (let d1 = meanwhile d in
                case send_test adapter stored now of
                  Some message \<Rightarrow>
                    (Inl (BadGateway message), tests',
                     write_audit (channel_audit env auditId ''NOTIFICATION_CHANNEL_TEST_FAILED'' i settledAt) d1)
                | None \<Rightarrow>
                    (case transaction (record_test env i auditId settledAt) d1 of
                       (answer, d2) \<Rightarrow> (answer, tests', d2))))))"

end
