(* ===== verification/Channel_Silence.thy ===== *)
theory Channel_Silence
  imports Channel_Service Monitor_Guarantees
begin

text \<open>
  A channel that is disabled or removed receives nothing: what the channel operations do to
  their rows, and the invariant that the monitor service, the scheduler, the check processor,
  the network guard, the outbox dispatcher and the notification workers keep until the channel
  is enabled again.
\<close>

section \<open>Silence\<close>

definition quiet_row :: "NotificationOutbox \<Rightarrow> bool" where
  "quiet_row r \<longleftrightarrow> terminal_outbox r \<and> isSecretTombstone (ob_encryptedConfigSnapshot r)"

definition silent :: "id \<Rightarrow> db \<Rightarrow> bool" where
  "silent c d \<longleftrightarrow>
     distinct (map ch_id (channels d)) \<and> c \<in> ch_id ` set (channels d) \<and>
     (\<forall>x \<in> set (channels d). ch_id x = c \<longrightarrow> \<not> ch_enabled x \<or> ch_deletedAt x \<noteq> None) \<and>
     (\<forall>b \<in> set (monitorChannels d). mc_channelId b \<noteq> c) \<and>
     (\<forall>r \<in> set (outbox d). ob_channelId r = c \<longrightarrow> quiet_row r)"

lemma silentD:
  assumes "silent c d"
  shows "distinct (map ch_id (channels d))"
    "x \<in> set (channels d) \<Longrightarrow> ch_id x = c \<Longrightarrow> ch_enabled x \<Longrightarrow> ch_deletedAt x = None \<Longrightarrow> False"
    "b \<in> set (monitorChannels d) \<Longrightarrow> mc_channelId b \<noteq> c"
    "r \<in> set (outbox d) \<Longrightarrow> ob_channelId r = c \<Longrightarrow> quiet_row r"
    "c \<in> ch_id ` set (channels d)"
  using assms by (auto simp: silent_def)

lemma silent_not_usable: "silent c d \<Longrightarrow> x \<in> set (channels d) \<Longrightarrow> usable_channel x \<Longrightarrow> ch_id x \<noteq> c"
  using silentD(2)[of c d x] by (auto simp: usable_channel_def)

lemma silent_not_live: "silent c d \<Longrightarrow> \<not> channel_live d c"
  using silentD(2)[of c d] find_by_Some[of ch_id c "channels d"] by (auto simp: channel_live_def split: option.splits)

lemma silent_change:
  assumes "silent c d" "channels d' = channels d"
    and "\<And>b. b \<in> set (monitorChannels d') \<Longrightarrow> b \<in> set (monitorChannels d) \<or> mc_channelId b \<noteq> c"
    and "\<And>r. r \<in> set (outbox d') \<Longrightarrow> ob_channelId r = c \<Longrightarrow> r \<in> set (outbox d) \<or> quiet_row r"
  shows "silent c d'"
  using assms unfolding silent_def by metis

lemma silent_same:
  assumes "silent c d" "channels d' = channels d" "monitorChannels d' = monitorChannels d" "outbox d' = outbox d"
  shows "silent c d'"
  using assms by (simp add: silent_def)

text \<open>An update of outbox rows keeps quiet rows quiet and moves no row to the channel.\<close>

lemma silent_update:
  assumes "silent c d"
    and "\<And>r. r \<in> set (outbox d) \<Longrightarrow> p r \<Longrightarrow> ob_channelId (f r) = ob_channelId r"
    and "\<And>r. r \<in> set (outbox d) \<Longrightarrow> p r \<Longrightarrow> ob_channelId r = c \<Longrightarrow> quiet_row r \<Longrightarrow> quiet_row (f r)"
  shows "silent c (d\<lparr>outbox := update_where p f (outbox d)\<rparr>)"
proof (rule silent_change[OF assms(1)])
  fix r assume r: "r \<in> set (outbox (d\<lparr>outbox := update_where p f (outbox d)\<rparr>))" "ob_channelId r = c"
  then have "r \<in> set (update_where p f (outbox d))" by simp
  then show "r \<in> set (outbox d) \<or> quiet_row r"
  proof (rule update_whereE)
    fix x assume x: "x \<in> set (outbox d)" "p x" "r = f x"
    with r(2) assms(2) have "ob_channelId x = c" by simp
    with x assms(3) silentD(4)[OF assms(1)] show ?thesis by simp
  qed simp
qed simp_all

lemma silent_create:
  assumes "silent c d" "create_outbox x d = Inr d'" "ob_channelId x \<noteq> c"
  shows "silent c d'"
  using assms by (auto simp: create_outbox_Inr[OF assms(2)] silent_def)

lemma tombstone_quiet [simp]:
  "quiet_row (r\<lparr>ob_encryptedConfigSnapshot := secretTombstoneBytes\<rparr>) = terminal_outbox r"
  by (simp add: quiet_row_def terminal_outbox_def)

lemma retired_quiet [simp]: "quiet_row (retiredNotificationSecretData r) = terminal_outbox r"
  by (simp add: retiredNotificationSecretData_def)

lemma quiet_terminal: "quiet_row r \<Longrightarrow> terminal_outbox r" by (simp add: quiet_row_def)

lemma quiet_not_cancelable: "quiet_row r \<Longrightarrow> \<not> cancelable_outbox r"
  by (auto simp: quiet_row_def terminal_outbox_def cancelable_outbox_def)

section \<open>Disabling and removing\<close>

lemma silence_frame [simp]:
  "channels (silence_channel i m t d) = channels d" "monitors (silence_channel i m t d) = monitors d"
  "incidents (silence_channel i m t d) = incidents d" "auditLogs (silence_channel i m t d) = auditLogs d"
  "scheduledChecks (silence_channel i m t d) = scheduledChecks d"
  "checkResults (silence_channel i m t d) = checkResults d" "accounts (silence_channel i m t d) = accounts d"
  "monitorChannels (silence_channel i m t d) = filter (\<lambda>b. mc_channelId b \<noteq> i) (monitorChannels d)"
  by (simp_all add: silence_channel_def Let_def)

lemma silence_outbox:
  "outbox (silence_channel i m t d) =
     outbox (retire_secrets (of_channel i) (cancel_outbox (of_channel i) t d))"
  by (simp add: silence_channel_def Let_def retire_secrets_def cancel_outbox_def lose_attempts_def)

lemma silenced_rows:
  assumes "r \<in> set (outbox (silence_channel i m t d))"
  shows "ob_channelId r = i \<Longrightarrow> quiet_row r" "ob_channelId r \<noteq> i \<Longrightarrow> r \<in> set (outbox d)"
proof -
  let ?cancel = "\<lambda>r. r\<lparr>ob_status := NotificationOutboxStatus.CANCELED, ob_canceledAt := Some t,
      ob_leaseOwner := None, ob_leaseUntil := None\<rparr>"
  from assms have r: "r \<in> set (update_where (\<lambda>r. of_channel i r \<and> terminal_outbox r)
      (\<lambda>r. r\<lparr>ob_encryptedConfigSnapshot := secretTombstoneBytes\<rparr>)
      (update_where (\<lambda>r. of_channel i r \<and> cancelable_outbox r) ?cancel (outbox d)))"
    unfolding silence_outbox by (simp add: retire_secrets_def cancel_outbox_def)
  show "quiet_row r" if "ob_channelId r = i"
    unfolding quiet_row_def by (rule canceled_rows[OF r]) (use that in \<open>simp_all add: of_channel_def\<close>)
  show "r \<in> set (outbox d)" if "ob_channelId r \<noteq> i"
    using r
  proof (rule update_whereE)
    assume "r \<in> set (update_where (\<lambda>r. of_channel i r \<and> cancelable_outbox r) ?cancel (outbox d))"
    then show ?thesis by (rule update_whereE) (use that in \<open>simp_all add: of_channel_def\<close>)
  qed (use that in \<open>simp add: of_channel_def\<close>)
qed

lemma update_channel_frame [simp]:
  "monitorChannels (update_channel i f d) = monitorChannels d" "outbox (update_channel i f d) = outbox d"
  "channels (update_channel i f d) = update_where (\<lambda>c. ch_id c = i) f (channels d)"
  "monitors (update_channel i f d) = monitors d" "incidents (update_channel i f d) = incidents d"
  "scheduledChecks (update_channel i f d) = scheduledChecks d" "deliveries (update_channel i f d) = deliveries d"
  by (simp_all add: update_channel_def)

text \<open>Changing the row of a silenced channel so that it is not live makes it silent.\<close>

lemma silenced_silent:
  assumes "distinct (map ch_id (channels d))" "i \<in> ch_id ` set (channels d)" "\<And>x. ch_id (f x) = ch_id x"
    and "\<And>x. \<not> ch_enabled (f x) \<or> ch_deletedAt (f x) \<noteq> None"
  shows "silent i (write_audit row (update_channel i f (silence_channel i m t d)))"
proof -
  have "distinct (map ch_id (update_where (\<lambda>c. ch_id c = i) f (channels d)))"
    using assms(1,3) by (simp add: map_update_where_frame)
  moreover have "i \<in> set (map ch_id (update_where (\<lambda>c. ch_id c = i) f (channels d)))"
    using assms(2,3) by (simp only: map_update_where_frame list.set_map)
  moreover have "\<not> ch_enabled x \<or> ch_deletedAt x \<noteq> None"
    if "x \<in> set (update_where (\<lambda>c. ch_id c = i) f (channels d))" "ch_id x = i" for x
    using that(1) by (rule update_whereE) (use assms(4) that(2) in auto)
  ultimately show ?thesis by (auto simp: silent_def silenced_rows(1))
qed

lemma update_channel_tx_Inr:
  assumes "update_channel_tx env i a now patch d = Inr (view, d')"
  obtains stored config where "lockChannel i d = Some stored" "next_config env patch stored = Inr config"
    "view = patched_channel env patch config stored" "ch_type stored = telegram"
    "d' = write_audit (channel_audit env a ''NOTIFICATION_CHANNEL_UPDATED'' i now)
       (update_channel i (patched_channel env patch config)
         (if np_enabled patch = Some False then silence_channel i disabled_message now d else d))"
  using assms by (auto simp: update_channel_tx_def Let_def split: option.splits sum.splits if_split_asm)

lemma remove_channel_tx_Inr:
  assumes "remove_channel_tx env i a now d = Inr (u, d')"
  obtains stored where "lockChannel i d = Some stored"
    "d' = write_audit (channel_audit env a ''NOTIFICATION_CHANNEL_DELETED'' i now)
       (update_channel i (removed_channel now) (silence_channel i removed_message now d))"
  using assms by (auto simp: remove_channel_tx_def split: option.splits)

lemma create_channel_tx_Inr:
  assumes "create_channel_tx env i a now token input d = Inr (view, d')"
  shows "i \<notin> ch_id ` set (channels d)" "view = new_channel env i now token input"
    "d' = write_audit (channel_audit env a ''NOTIFICATION_CHANNEL_CREATED'' i now)
       (d\<lparr>channels := channels d @ [view]\<rparr>)"
  using assms by (auto simp: create_channel_tx_def Let_def list_ex_iff split: if_splits)

lemma patched_channel_fields [simp]:
  "ch_id (patched_channel env patch config c) = ch_id c"
  "ch_deletedAt (patched_channel env patch config c) = ch_deletedAt c"
  "ch_type (patched_channel env patch config c) = ch_type c"
  "ch_enabled (patched_channel env patch config c) = value_or (ch_enabled c) (np_enabled patch)"
  by (simp_all add: patched_channel_def Let_def split: option.splits)

lemma removed_channel_fields [simp]:
  "ch_id (removed_channel t c) = ch_id c" "ch_enabled (removed_channel t c) = False"
  "ch_deletedAt (removed_channel t c) = Some t" "ch_encryptedConfig (removed_channel t c) = secretTombstoneBytes"
  by (simp_all add: removed_channel_def)

section \<open>The monitor service and the scheduler\<close>

lemma write_audit_silent [simp]: "silent c (write_audit row d) = silent c d"
  by (simp add: silent_def)

lemma update_monitor_silent [simp]: "silent c (update_monitor i f d) = silent c d"
  by (simp add: silent_def update_monitor_def)

lemma cancelRuntime_silent:
  assumes "silent c d"
  shows "silent c (cancelRuntime i reason now d)"
proof -
  let ?p = "\<lambda>r. ob_monitorId r = Some i"
  let ?f = "\<lambda>r. r\<lparr>ob_status := NotificationOutboxStatus.CANCELED, ob_canceledAt := Some now,
      ob_leaseOwner := None, ob_leaseUntil := None\<rparr>"
  have "silent c (cancel_outbox ?p now d)"
    unfolding cancel_outbox_def by (rule silent_update[OF assms]) (use quiet_not_cancelable in auto)
  then have rows: "silent c (retire_secrets ?p (cancel_outbox ?p now d))"
    unfolding retire_secrets_def by (rule silent_update) auto
  have "outbox (cancelRuntime i reason now d) = outbox (retire_secrets ?p (cancel_outbox ?p now d))"
    by (simp add: cancelRuntime_def Let_def retire_secrets_def cancel_outbox_def lose_attempts_def)
  note last = this
  show ?thesis by (rule silent_same[OF rows]) (simp_all add: last)
qed

text \<open>A monitor is bound to usable channels only.\<close>

lemma asserted_channels:
  assumes "silent c d" "assertChannelIds ids d = None"
  shows "c \<notin> set ids"
proof
  assume c: "c \<in> set ids"
  let ?u = "filter (\<lambda>x. ch_id x \<in> set ids \<and> usable_channel x) (channels d)"
  from assms(2) c have "length ?u = length (remdups ids)"
    by (auto simp: assertChannelIds_def count_where_def split: if_splits)
  also have "\<dots> = card (set ids)" by (simp add: length_remdups_card_conv)
  finally have "length (map ch_id ?u) = card (set ids)" by simp
  moreover have "distinct (map ch_id ?u)" by (rule distinct_map_filter[OF silentD(1)[OF assms(1)]])
  ultimately have "card (set (map ch_id ?u)) = card (set ids)" using distinct_card[of "map ch_id ?u"] by (simp only:)
  then have "card (ch_id ` set ?u) = card (set ids)" by (simp only: list.set_map)
  moreover have "ch_id ` set ?u \<subseteq> set ids" by auto
  ultimately have image: "ch_id ` set ?u = set ids" using card_subset_eq[of "set ids"] by blast
  from c have "c \<in> ch_id ` set ?u" by (simp only: image)
  then obtain x where "c = ch_id x" "x \<in> set ?u" by (rule imageE)
  with silent_not_usable[OF assms(1), of x] show False by simp
qed

lemma rebind_silent:
  assumes "silent c d" "c \<notin> set ids"
  shows "silent c (rebind_channels i ids now d)"
  using assms(2) by (intro silent_change[OF assms(1)])
    (auto simp: rebind_channels_def bind_channels_def first_occurrences_def)

lemma service_step_silent:
  assumes "silent c d"
  shows "setLifecycle_tx i a now l reason actor d = Inr (rec, d') \<Longrightarrow> silent c d'"
    "resume_tx i a now actor d = Inr (rec, d') \<Longrightarrow> silent c d'"
    "remove_tx i a now actor d = Inr (u, d') \<Longrightarrow> silent c d'"
    "create_tx env i a now x t actor d = Inr (rec, d') \<Longrightarrow> silent c d'"
    "update_tx env i a now patch actor d = Inr (rec, d') \<Longrightarrow> silent c d'"
proof -
  show "silent c d'" if "setLifecycle_tx i a now l reason actor d = Inr (rec, d')"
    using that by (cases rule: setLifecycle_Inr) (simp_all add: assms lifecycle_change_def cancelRuntime_silent)
  show "silent c d'" if "resume_tx i a now actor d = Inr (rec, d')"
    using that by (cases rule: resume_Inr) (simp_all add: assms)
  show "silent c d'" if "remove_tx i a now actor d = Inr (u, d')"
    using that by (cases rule: remove_Inr) (simp add: assms cancelRuntime_silent)
  show "silent c d'" if "create_tx env i a now x t actor d = Inr (rec, d')"
    using that
  proof (cases rule: create_tx_Inr)
    case (1 slot row)
    from asserted_channels[OF assms 1(3)] show ?thesis
      unfolding 1(4) write_audit_silent by (intro silent_change[OF assms]) (auto simp: bind_channels_def first_occurrences_def)
  qed
  show "silent c d'" if "update_tx env i a now patch actor d = Inr (rec, d')"
    using that
  proof (cases rule: update_tx_Inr)
    case (1 m currentUrl merged parsedUrl target)
    from 1(7) show ?thesis
    proof (cases rule: write_update_Inr)
      case (1 slot row)
      have "silent c (if changed then cancelRuntime i CONFIG_CHANGED now d else d)" for changed
        by (simp add: assms cancelRuntime_silent)
      from rebind_silent[OF this asserted_channels[OF assms \<open>assertChannelIds (mi_channelIds merged) d = None\<close>]]
      show ?thesis unfolding 1(2) update_change_def write_audit_silent update_monitor_silent .
    qed
  qed
qed

lemma set_next_silent [simp]: "silent c (set_nextCheckAt i t d) = silent c d"
  by (simp add: silent_def set_nextCheckAt_def)

lemma schedule_silent:
  assumes "createDueChecks locked newId now limit d = Inr (summaries, d')" "silent c d"
  shows "silent c d'"
proof -
  have "silent c (snd (summaries, d'))"
  proof (rule fold_tx_inv[where P = "\<lambda>acc. silent c (snd acc)"])
    show "fold_tx (create_due_check newId now) (due_monitors locked now limit d) ([], d) = Inr (summaries, d')"
      using assms(1) by (simp add: createDueChecks_def)
    fix m acc acc'
    assume "silent c (snd acc)" and step: "create_due_check newId now m acc = Inr acc'"
    moreover have "channels (snd acc') = channels (snd acc) \<and> monitorChannels (snd acc') = monitorChannels (snd acc) \<and>
        outbox (snd acc') = outbox (snd acc)"
    proof -
      have "create_due_check newId now m (fst acc, snd acc) = Inr (fst acc', snd acc')" using step by simp
      then show ?thesis
        by (auto simp: create_due_check_def Let_def set_nextCheckAt_def split: sum.splits option.splits
            dest!: create_check_Inr)
    qed
    ultimately show "silent c (snd acc')" using silent_same by blast
  qed (simp add: assms(2))
  then show ?thesis by simp
qed

section \<open>The check processor\<close>

lemma event_outbox_channel:
  "event_outbox config rt m inc r now ev ch flag t n snap = Inr row \<Longrightarrow> ob_channelId row = ch"
  by (auto simp: event_outbox_def default_outbox_def split: sum.splits)

lemma createOutbox_silent:
  assumes "createOutbox config rt m inc r now d = Inr d'" "silent c d"
  shows "silent c d'"
proof (rule fold_tx_inv[where P = "silent c", OF assms(1)[unfolded createOutbox_def] assms(2)])
  fix bc s s'
  assume bc: "bc \<in> set (down_bindings (mo_id m) d)" and s: "silent c s"
    and step: "(case bc of (b, ch) \<Rightarrow> \<lambda>d'. case event_outbox config rt m inc r now NotificationEventType.DOWN
              (mc_channelId b) (mc_notifyOnRecovery b) (ch_type ch) (ch_displayName ch)
              (ch_encryptedConfig ch) of Inl e \<Rightarrow> Inl e | Inr row \<Rightarrow> create_outbox row d') s = Inr s'"
  obtain b ch where p: "bc = (b, ch)" by (cases bc)
  with bc have "mc_channelId b \<noteq> c" using silentD(3)[OF assms(2), of b] by (auto simp: down_bindings_def)
  moreover obtain row where "ob_channelId row = mc_channelId b" "create_outbox row s = Inr s'"
    using step p by (auto split: sum.splits dest: event_outbox_channel)
  ultimately show "silent c s'" using silent_create[OF s] by metis
qed

lemma retire_unless_silent:
  assumes "retire_unless_retained down st e allows ist d = Inr d'" "silent c d"
  shows "silent c d'"
proof -
  have "silent c (set_row (ob_id down) retiredNotificationSecretData d)"
    by (rule silent_update[OF assms(2)]) (simp_all add: quiet_terminal)
  with assms show ?thesis by (auto simp: retire_unless_retained_def split: if_splits dest!: update_outbox_eq)
qed

lemma replace_down_silent:
  assumes "replace_down inc down plan d = Inr (plan', st, e, d')" "silent c d"
  shows "silent c d'"
proof -
  let ?p = "\<lambda>r. ob_id r = ob_id down \<and> ob_attemptCount r = 0 \<and>
      (ob_status r = NotificationOutboxStatus.PENDING \<or> ob_status r = NotificationOutboxStatus.ENQUEUED)"
  let ?f = "\<lambda>r. r\<lparr>ob_status := NotificationOutboxStatus.CANCELED, ob_canceledAt := ic_resolvedAt inc,
      ob_leaseOwner := None, ob_leaseUntil := None\<rparr>"
  have "silent c (d\<lparr>outbox := update_where ?p ?f (outbox d)\<rparr>)"
    by (rule silent_update[OF assms(2)]) (auto dest: quiet_not_cancelable simp: cancelable_outbox_def)
  moreover from assms(1) have "d' = d \<or> d' = d\<lparr>outbox := update_where ?p ?f (outbox d)\<rparr>"
    by (auto simp: replace_down_def Let_def split: if_splits option.splits sum.splits)
  ultimately show ?thesis using assms(2) by blast
qed

lemma recover_down_silent:
  assumes "recover_down config rt m inc r now down d = Inr d'" "silent c d" "ob_channelId down \<noteq> c"
  shows "silent c d'"
proof -
  from assms(1) consider "retire_unless_retained down (ob_status down) (ob_lastErrorSafe down) False (ic_status inc) d = Inr d'"
    | plan0 plan st e d1 where "replace_down inc down plan0 d = Inr (plan, st, e, d1)"
        "retire_unless_retained down st e True (ic_status inc) d1 = Inr d'"
    | plan0 plan st e d1 ev row d2 where "replace_down inc down plan0 d = Inr (plan, st, e, d1)"
        "event_outbox config rt m inc r now ev (ob_channelId down) True (ob_channelTypeSnapshot down)
          (ob_channelDisplayNameSnapshot down) (ob_encryptedConfigSnapshot down) = Inr row"
        "create_outbox row d1 = Inr d2" "retire_unless_retained down st e True (ic_status inc) d2 = Inr d'"
    by (auto simp: recover_down_def Let_def split: if_splits sum.splits prod.splits)
  then show ?thesis
  proof cases
    case 1
    then show ?thesis by (rule retire_unless_silent) (fact assms(2))
  next
    case 2
    from 2(2) show ?thesis by (rule retire_unless_silent) (rule replace_down_silent[OF 2(1) assms(2)])
  next
    case 3
    from event_outbox_channel[OF 3(2)] assms(3) have "ob_channelId row \<noteq> c" by simp
    from silent_create[OF replace_down_silent[OF 3(1) assms(2)] 3(3) this]
    show ?thesis by (rule retire_unless_silent[OF 3(4)])
  qed
qed

lemma createRecoveryOutbox_silent:
  assumes "createRecoveryOutbox config rt m inc r now d = Inr d'" "silent c d"
  shows "silent c d'"
proof (rule fold_tx_inv[where P = "silent c", OF assms(1)[unfolded createRecoveryOutbox_def] assms(2)])
  fix down s s'
  assume "down \<in> set (down_events m inc d)" "silent c s" "recover_down config rt m inc r now down s = Inr s'"
  moreover from this(1) have "ob_channelId down \<noteq> c"
    using silent_not_usable[OF assms(2)] by (auto simp: down_events_def)
  ultimately show "silent c s'" using recover_down_silent by blast
qed

lemma update_incident_silent [simp]: "silent c (update_incident i f d) = silent c d"
  by (simp add: silent_def update_incident_def)

lemma applyIncidentEffect_silent:
  assumes "applyIncidentEffect config rt i m r e now d = Inr d'" "silent c d"
  shows "silent c d'"
proof -
  have created: "silent c d1" if "create_incident inc d = Inr d1" for inc d1
    by (rule silent_same[OF assms(2)]) (simp_all add: create_incident_Inr[OF that])
  show ?thesis
    using assms createOutbox_silent createRecoveryOutbox_silent created
    by (cases e) (auto simp: applyIncidentEffect_def Let_def split: option.splits sum.splits)
qed

lemma observe_silent [simp]:
  "silent c (observe_recheck g m s r d) = silent c d" "silent c (observe_inconclusive g u m s r d) = silent c d"
  "silent c (complete_check i t d) = silent c d"
  by (simp_all add: silent_def observe_recheck_def observe_inconclusive_def update_monitor_def complete_check_def
      Let_def split: option.splits)

lemma persist_silent:
  assumes "persist config rt g oc om r u now d = (out, d')" "silent c d"
  shows "silent c d'"
proof (cases "\<exists>st. persist_tx config rt g oc om r u now d = Inr (st, d')")
  case False
  with assms(1) have "d' = d" by (cases out) (auto dest: persist_Inl persist_Inr)
  with assms(2) show ?thesis by simp
next
  case True
  then obtain st where "persist_tx config rt g oc om r u now d = Inr (st, d')" ..
  then show ?thesis
  proof (cases rule: persist_tx_Inr)
    case skipped
    with assms(2) show ?thesis by simp
  next
    case (written s m d1 d2)
    have d1: "silent c d1" by (rule silent_same[OF assms(2)]) (simp_all add: written(4))
    have "silent c d2"
    proof (cases "result_valid s m")
      case False
      with written(6) d1 show ?thesis by simp
    next
      case True
      with written(6) have "persist_valid config rt g u m s r now d1 = Inr d2" by simp
      then show ?thesis
      proof (cases rule: persist_valid_Inr)
        case (1 t)
        then show ?thesis
          by (cases "applied t") (use d1 in \<open>auto intro: applyIncidentEffect_silent\<close>)
      qed
    qed
    with written(7) show ?thesis by simp
  qed
qed

lemma monitoring_step_silent:
  assumes "monitoring_step d d'" "silent c d"
  shows "silent c d'"
  using assms(1)
proof cases
  case (step_create env body x i a now actor r)
  from step_create(2) show ?thesis
    by (cases rule: create_cases) (use assms(2) service_step_silent(4) in blast)+
next
  case (step_update env body patch i a now actor r)
  with as_view_transaction[of actor "update_tx env i a now patch actor" d r d'] assms(2)
  show ?thesis unfolding update_op_def using service_step_silent(5) by blast
next
  case (step_pause i a now actor r)
  with as_view_transaction[of actor _ d r d'] assms(2)
  show ?thesis unfolding pause_def using service_step_silent(1) by blast
next
  case (step_resume i a now actor r)
  with as_view_transaction[of actor _ d r d'] assms(2)
  show ?thesis unfolding resume_def using service_step_silent(2) by blast
next
  case (step_remove i a now actor u)
  show ?thesis
    by (rule transaction_inv[where P = "silent c", OF step_remove[unfolded remove_def] assms(2)])
      (rule service_step_silent(3)[OF assms(2)])
next
  case (step_schedule locked newId now limit summaries)
  then show ?thesis using schedule_silent assms(2) by blast
next
  case (step_persist rt oc config g om result u now out)
  then show ?thesis using persist_silent assms(2) by blast
qed

section \<open>The network guard\<close>

lemma guard_frame_silent [simp]:
  "silent c (d\<lparr>networkOutages := us\<rparr>) = silent c d" "silent c (d\<lparr>monitors := ms\<rparr>) = silent c d"
  by (simp_all add: silent_def)

lemma summary_rows_silent:
  assumes "fold_tx (upsert_summary env outage payload now) (filter (\<lambda>x. q x \<and> usable_channel x) (channels d)) d1 = Inr d2"
    and "silent c d" "silent c d1"
  shows "silent c d2"
proof (rule fold_tx_inv[where P = "silent c", OF assms(1,3)])
  fix x s s'
  assume x: "x \<in> set (filter (\<lambda>x. q x \<and> usable_channel x) (channels d))" and s: "silent c s"
    and step: "upsert_summary env outage payload now x s = Inr s'"
  from x silent_not_usable[OF assms(2)] have "ch_id x \<noteq> c" by simp
  with step s silent_create[OF s] show "silent c s'"
    by (auto simp: upsert_summary_def Let_def default_outbox_def split: if_splits)
qed

lemma guarded_update:
  assumes "(case r of None \<Rightarrow> Inr d | Some t \<Rightarrow> if a t then Inr d else if b t then Inr d else if w t then Inr d1
      else (case F t of Inl e \<Rightarrow> Inl e | Inr d2 \<Rightarrow> Inr (g d2))) = Inr d'"
    and "d' = d \<Longrightarrow> P" "d' = d1 \<Longrightarrow> P" "\<And>t d2. F t = Inr d2 \<Longrightarrow> d' = g d2 \<Longrightarrow> P"
  shows P
  using assms by (auto split: option.splits if_splits sum.splits)

lemma summary_silent:
  assumes "summarize_outage env now u d = Inr d'" "silent c d"
  shows "silent c d'"
proof -
  obtain outage where o: "find_by nu_id u (networkOutages d) = Some outage"
    using assms(1) by (cases "find_by nu_id u (networkOutages d)") (simp_all add: summarize_outage_def)
  let ?w = "filter (pending_observation d) (filter (\<lambda>n. nb_outageId n = u) (networkObservations d))"
  let ?d1 = "if ?w = [] then d else d\<lparr>monitors := update_where
      (\<lambda>m. List.member (map nb_monitorId ?w) (mo_id m) \<and> (case mo_nextCheckAt m of None \<Rightarrow> False | Some t \<Rightarrow> now < t))
      (\<lambda>m. m\<lparr>mo_nextCheckAt := Some now\<rparr>) (monitors d)\<rparr>"
  have d1: "silent c ?d1" using assms(2) by simp
  from assms(1) show ?thesis
    unfolding summarize_outage_def o option.case Let_def
  proof (rule guarded_update, goal_cases)
    case (3 t d2)
    from summary_rows_silent[OF 3(1) d1 d1] 3(2) show ?case by simp
  qed (use assms(2) d1 in simp_all)
qed

lemma inspect_silent:
  assumes "inspect_tx ob newOutage settings t0 t1 results st d = Inr (s, d')" "silent c d"
  shows "silent c d'"
proof (rule silent_same[OF assms(2)])
  have "channels d' = channels d \<and> monitorChannels d' = monitorChannels d \<and> outbox d' = outbox d"
    using assms(1)
    by (auto simp: inspect_tx_def inspect_write_def upsert_observer_def write_observer_def Let_def
        split: option.splits if_splits)
  then show "channels d' = channels d" "monitorChannels d' = monitorChannels d" "outbox d' = outbox d" by simp_all
qed

section \<open>The notification workers\<close>

lemma waiting_not_quiet: "waiting_recovery i ch r \<Longrightarrow> \<not> quiet_row r"
  by (auto simp: waiting_recovery_def quiet_row_def terminal_outbox_def)

lemma cancel_recoveries_silent: "silent c d \<Longrightarrow> silent c (cancel_recoveries r now d)"
  unfolding cancel_recoveries_def
  by (cases "down_of r") (simp_all, rule silent_update, auto simp: undelivered_row_def dest: waiting_not_quiet)

lemma deliveries_silent [simp]:
  "silent c (d\<lparr>deliveries := rows\<rparr>) = silent c d" "silent c (interrupt_attempts i t d) = silent c d"
  by (simp_all add: silent_def interrupt_attempts_def)

lemma claim_silent:
  assumes "claim config newId i now d = Inr (out, d')" "silent c d" "distinct (map ob_id (outbox d))"
  shows "silent c d'"
  using assms(1)
proof (cases rule: claim_cases)
  case unchanged
  with assms(2) show ?thesis by simp
next
  case disabled
  show ?thesis unfolding disabled(2)
    by (rule silent_update[OF assms(2)]) (auto simp: disabled_row_def terminal_def quiet_row_def terminal_outbox_def)
next
  case unsent
  with assms(2) show ?thesis by simp
next
  case (exhausted r)
  have "silent c (set_row i (failed_row now exhausted_message) (interrupt_attempts i now d))"
    by (rule silent_update) (simp_all add: assms(2) failed_row_def terminal_outbox_def)
  then show ?thesis unfolding exhausted(5) by (rule cancel_recoveries_silent)
next
  case (claimed r)
  from find_by_Some[OF claimed(2)] have r: "r \<in> set (outbox d)" "ob_id r = i" by simp_all
  have "x = r" if "x \<in> set (outbox d)" "ob_id x = i" for x
    using that r assms(3) by (metis distinct_map inj_onD)
  moreover from silent_not_live[OF assms(2)] claimed(3) have "ob_channelId r \<noteq> c" by auto
  ultimately have "silent c (set_row i (processing_row (np_instanceId config) now (now + np_leaseMs config))
      (interrupt_attempts i now d))"
    by (intro silent_update) (auto simp: assms(2) processing_row_def)
  then show ?thesis unfolding create_delivery_Inr[OF claimed(7)] by simp
qed


lemma default_outbox_channel: "ob_channelId (default_outbox oid m inc ch ev sq k p t n snap mid now) = ch"
  by (simp add: default_outbox_def)

lemma late_recovery_silent:
  assumes "late_recovery rt down inc m i r now d = Inr d'" "silent c d" "ob_channelId down \<noteq> c"
    and "distinct (map ob_id (outbox d))"
  shows "silent c d'"
proof (cases "find (recovery_row inc (ob_channelId down)) (outbox d)")
  case None
  with assms(1) obtain row where "ob_channelId row = ob_channelId down" "create_outbox row d = Inr d'"
    by (simp add: late_recovery_def Let_def split: sum.splits) (metis default_outbox_channel)
  with silent_create[OF assms(2)] assms(3) show ?thesis by simp
next
  case (Some x)
  show ?thesis
  proof (cases "undelivered_recovery x")
    case False
    with assms Some show ?thesis by (simp add: late_recovery_def)
  next
    case True
    let ?f = "reactivated_row (ob_encryptedConfigSnapshot down) now"
    from find_Some_in[OF Some] have x: "x \<in> set (outbox d)" "ob_channelId x = ob_channelId down"
      by (simp_all add: recovery_row_def)
    have other: "ob_channelId y \<noteq> c" if "y \<in> set (outbox d)" "ob_id y = ob_id x" for y
      using that x assms(3,4) by (metis distinct_map inj_onD)
    have "silent c (set_row (ob_id x) ?f d)"
      by (rule silent_update[OF assms(2)]) (use other in \<open>simp_all add: reactivated_row_def\<close>)
    moreover from True assms(1) Some have "d' = set_row (ob_id x) ?f d"
      by (simp add: late_recovery_def update_outbox_eq)
    ultimately show ?thesis by simp
  qed
qed

lemma ensureRecovery_silent:
  assumes "ensureRecoveryAfterLateDownSuccess rt down now d = Inr (st, d')" "silent c d" "distinct (map ob_id (outbox d))"
  shows "silent c d'"
proof (cases "channel_live d (ob_channelId down)")
  case False
  with assms(1,2) show ?thesis
    by (auto simp: ensureRecoveryAfterLateDownSuccess_def Let_def split: option.splits if_splits)
next
  case True
  with silent_not_live[OF assms(2)] have "ob_channelId down \<noteq> c" by auto
  with assms(1) show ?thesis
    by (cases rule: ensureRecovery_cases) (use late_recovery_silent assms(2,3) in auto)
qed

lemma markSent_silent:
  assumes "markSent rt c' pm now d = Inr d'" "silent c d" "distinct (map ob_id (outbox d))"
  shows "silent c d'"
  using assms(1)
proof (cases rule: markSent_cases)
  case (1 d2)
  let ?p = "\<lambda>r. ob_id r = ob_id (cn_row c') \<and> ob_status r \<noteq> NotificationOutboxStatus.CANCELED"
  have "silent c (d\<lparr>outbox := update_where ?p (sent_row now) (outbox d)\<rparr>)"
    by (rule silent_update[OF assms(2)]) (auto simp: sent_row_def quiet_row_def terminal_outbox_def)
  then have d2: "silent c d2" by (rule silent_same) (simp_all add: 1(1))
  have ids: "distinct (map ob_id (outbox d2))"
    using assms(3) by (simp add: 1(1) map_update_where_frame sent_row_def)
  have retired: "silent c (set_row i retiredNotificationSecretData e)" if "silent c e" for i e
    by (rule silent_update[OF that]) (simp_all add: quiet_terminal)
  from 1(2) show ?thesis
  proof (elim disjE exE conjE)
    fix st d3
    assume d3: "ensureRecoveryAfterLateDownSuccess rt (cn_row c') now d2 = Inr (st, d3)"
    note quiet = ensureRecovery_silent[OF d3 d2 ids]
    show "silent c d'" if "d' = d3" using that quiet by simp
    show "silent c d'" if "d' = set_row (ob_id (cn_row c')) retiredNotificationSecretData d3"
      unfolding that by (rule retired[OF quiet])
  qed (simp add: d2)
qed

lemma markFailed_silent:
  assumes "markFailed c' e random now d = Inr (retry, d')" "silent c d"
  shows "silent c d'"
  using assms(1)
proof (cases rule: markFailed_cases)
  case (1 f d2)
  have "silent c (d\<lparr>outbox := update_where (current_attempt c') f (outbox d)\<rparr>)"
    by (rule silent_update[OF assms(2)])
      (auto simp: 1(2) retry_row_def failed_row_def current_attempt_def quiet_row_def terminal_outbox_def)
  then have "silent c d2" by (rule silent_same) (simp_all add: 1(3))
  with 1(4) cancel_recoveries_silent show ?thesis by blast
qed

lemma dispatch_silent:
  assumes "pass_step owner now until d d'" "silent c d"
  shows "silent c d'"
proof -
  from assms(1) have all: "list_all2 (dispatch_moved owner now until d) (outbox d) (outbox d')"
    and d': "d' = d\<lparr>outbox := outbox d'\<rparr>" by (simp_all add: pass_step_def)
  have "r' \<in> set (outbox d) \<or> quiet_row r'" if "r' \<in> set (outbox d')" "ob_channelId r' = c" for r'
  proof -
    from all that(1) obtain r where r: "r \<in> set (outbox d)" "dispatch_moved owner now until d r r'"
      by (metis in_set_conv_nth list_all2_conv_all_nth)
    with moved_keys(3)[OF r(2)] that(2) silentD(4)[OF assms(2)] have "quiet_row r" by simp
    with r show ?thesis
      by (auto simp: dispatch_moved_def availableForDispatch_def quiet_row_def terminal_outbox_def)
  qed
  moreover have "channels d' = channels d" "monitorChannels d' = monitorChannels d"
    by (subst d', simp)+
  ultimately show ?thesis by (intro silent_change[OF assms(2)]) simp_all
qed

section \<open>The channel operations\<close>

lemma lockChannel_Some: "lockChannel i d = Some x \<Longrightarrow> x \<in> set (channels d) \<and> ch_id x = i \<and> ch_deletedAt x = None"
  unfolding lockChannel_def using find_Some_in by (metis (mono_tags, lifting))

lemma silent_channels:
  assumes "silent c d" "monitorChannels d' = monitorChannels d" "outbox d' = outbox d"
    and "distinct (map ch_id (channels d'))" "c \<in> set (map ch_id (channels d'))"
    and "\<And>x. x \<in> set (channels d') \<Longrightarrow> ch_id x = c \<Longrightarrow> \<not> ch_enabled x \<or> ch_deletedAt x \<noteq> None"
  shows "silent c d'"
  using assms by (simp add: silent_def)

text \<open>Silencing any channel, the silent one included, keeps it silent.\<close>

lemma silence_silent:
  assumes "silent c d"
  shows "silent c (silence_channel i m t d)"
proof (rule silent_change[OF assms])
  fix r assume r: "r \<in> set (outbox (silence_channel i m t d))" "ob_channelId r = c"
  show "r \<in> set (outbox d) \<or> quiet_row r"
    by (cases "c = i") (use silenced_rows[OF r(1)] r(2) in simp_all)
qed auto

lemma update_channel_silent:
  assumes "silent c d" "\<And>x. ch_id (f x) = ch_id x"
    and "\<And>x. i = c \<Longrightarrow> \<not> ch_enabled x \<or> ch_deletedAt x \<noteq> None \<Longrightarrow> \<not> ch_enabled (f x) \<or> ch_deletedAt (f x) \<noteq> None"
  shows "silent c (update_channel i f d)"
proof (rule silent_channels[OF assms(1)])
  show "distinct (map ch_id (channels (update_channel i f d)))"
    using silentD(1)[OF assms(1)] assms(2) by (simp add: map_update_where_frame)
  show "c \<in> set (map ch_id (channels (update_channel i f d)))"
    using silentD(5)[OF assms(1)] assms(2) by (simp only: update_channel_frame map_update_where_frame list.set_map)
  fix x assume x: "x \<in> set (channels (update_channel i f d))" "ch_id x = c"
  then have "x \<in> set (update_where (\<lambda>c. ch_id c = i) f (channels d))" by simp
  then show "\<not> ch_enabled x \<or> ch_deletedAt x \<noteq> None"
  proof (rule update_whereE)
    fix y assume y: "y \<in> set (channels d)" "ch_id y = i" "x = f y"
    with x(2) assms(2) have "i = c" by simp
    with y silentD(2)[OF assms(1) y(1)] assms(3)[of y] show ?thesis by auto
  qed (use silentD(2)[OF assms(1)] x(2) in blast)
qed simp_all

text \<open>A request that enables the channel again is the only one that ends its silence.\<close>

inductive channel_step :: "id \<Rightarrow> db \<Rightarrow> db \<Rightarrow> bool" for c where
  channel_created: "create_channel env i a now input d = (r, d') \<Longrightarrow> channel_step c d d'"
| channel_updated: "update_channel_op env i a now patch d = (r, d') \<Longrightarrow>
     i = c \<longrightarrow> np_enabled patch \<noteq> Some True \<Longrightarrow> channel_step c d d'"
| channel_removed: "remove_channel env i a now d = (u, d') \<Longrightarrow> channel_step c d d'"
| channel_tested: "test_channel env adapter i a now settledAt (\<lambda>x. x) tests d = (u, tests', d') \<Longrightarrow> channel_step c d d'"

lemma channel_step_silent:
  assumes "channel_step c d d'" "silent c d"
  shows "silent c d'"
  using assms(1)
proof cases
  case (channel_created env i a now input r)
  then have "d' = d \<or> (\<exists>v token. create_channel_tx env i a now token input d = Inr (v, d'))"
    by (auto simp: create_channel_def transaction_def Let_def split: if_splits sum.splits prod.splits)
  then show ?thesis
  proof (elim disjE exE)
    fix v token assume "create_channel_tx env i a now token input d = Inr (v, d')"
    note v = create_channel_tx_Inr[OF this]
    from v(1) silentD(5)[OF assms(2)] have "i \<noteq> c" by auto
    then show ?thesis unfolding v(3) write_audit_silent
      by (intro silent_channels[OF assms(2)])
        (use v(1,2) silentD(1,2,5)[OF assms(2)] in \<open>auto simp: new_channel_def\<close>)
  qed (simp add: assms(2))
next
  case (channel_updated env i a now patch r)
  then have "d' = d \<or> (\<exists>v. update_channel_tx env i a now patch d = Inr (v, d'))"
    by (auto simp: update_channel_op_def transaction_def split: sum.splits prod.splits)
  then show ?thesis
  proof (elim disjE exE)
    fix v assume "update_channel_tx env i a now patch d = Inr (v, d')"
    then show ?thesis
    proof (cases rule: update_channel_tx_Inr)
      case (1 stored config)
      have "silent c (if np_enabled patch = Some False then silence_channel i disabled_message now d else d)"
        by (simp add: assms(2) silence_silent)
      then show ?thesis unfolding 1(5) write_audit_silent
        by (rule update_channel_silent)
          (use channel_updated(2) in \<open>auto simp: value_or_def split: option.splits\<close>)
    qed
  qed (simp add: assms(2))
next
  case (channel_removed env i a now u)
  show ?thesis
  proof (rule transaction_inv[where P = "silent c", OF channel_removed[unfolded remove_channel_def] assms(2)])
    fix x assume "remove_channel_tx env i a now d = Inr (x, d')"
    then show ?thesis
      by (cases rule: remove_channel_tx_Inr)
        (simp add: update_channel_silent[OF silence_silent[OF assms(2)]])
  qed
next
  case (channel_tested env adapter i a now settledAt tests u tests')
  have "silent c (update_channel i (\<lambda>c. c\<lparr>ch_verifiedAt := Some settledAt\<rparr>) d)"
    by (rule update_channel_silent[OF assms(2)]) simp_all
  with channel_tested assms(2) show ?thesis
    by (auto simp: test_channel_def Let_def record_test_def transaction_def split: option.splits sum.splits if_splits)
qed

end
