(* ===== verification/Channel_Guarantees.thy ===== *)
theory Channel_Guarantees
  imports Channel_Silence
begin

text \<open>
  What the channel operations promise: a disabled channel stays silent whatever the other
  processes do, a stored destination reaches the worker as it was entered, and tests of one
  channel keep their distance.
\<close>

section \<open>Silence over time\<close>

text \<open>
  One transaction of any process, with the notifications claimed by workers; rows have unique
  ids when a worker acts. The request that enables channel \<open>c\<close> again is left out.
\<close>

inductive alert_step :: "id \<Rightarrow> db \<times> ClaimedNotification list \<Rightarrow> db \<times> ClaimedNotification list \<Rightarrow> bool" for c where
  alert_monitoring: "monitoring_step d d' \<Longrightarrow> alert_step c (d, cs) (d', cs)"
| alert_worker: "worker_step (d, cs) (d', cs') \<Longrightarrow> distinct (map ob_id (outbox d)) \<Longrightarrow> alert_step c (d, cs) (d', cs')"
| alert_inspected: "inspect_tx ob u settings t0 t1 results st d = Inr (s, d') \<Longrightarrow> alert_step c (d, cs) (d', cs)"
| alert_summarized: "summarize_outage genv now u d = Inr d' \<Longrightarrow> alert_step c (d, cs) (d', cs)"
| alert_channel: "channel_step c d d' \<Longrightarrow> alert_step c (d, cs) (d', cs)"

lemma worker_step_silent:
  assumes "worker_step (d, cs) (d', cs')" "silent c d" "distinct (map ob_id (outbox d))"
  shows "silent c d'"
proof -
  have "silent c (fst s')" if "worker_step s s'" "silent c (fst s)" "distinct (map ob_id (outbox (fst s)))" for s s'
    using that
    by (induction rule: worker_step.induct)
      (simp_all add: claim_silent markSent_silent markFailed_silent dispatch_silent)
  from this[OF assms(1)] assms(2,3) show ?thesis by simp
qed

lemma alert_step_silent:
  assumes "alert_step c s s'" "silent c (fst s)"
  shows "silent c (fst s')"
  using assms
  by (cases rule: alert_step.cases)
    (auto intro: monitoring_step_silent worker_step_silent inspect_silent summary_silent channel_step_silent)

lemma alert_run_silent: "(alert_step c)\<^sup>*\<^sup>* s s' \<Longrightarrow> silent c (fst s) \<Longrightarrow> silent c (fst s')"
  by (induction rule: rtranclp_induct) (auto intro: alert_step_silent)

lemma update_channel_op_Inr:
  assumes "update_channel_op env i a now patch d = (Inr v, d')"
  obtains x where "update_channel_tx env i a now patch d = Inr (x, d')" "v = channelView env x"
proof (cases "update_channel_tx env i a now patch d")
  case (Inl e)
  with assms show thesis by (simp add: update_channel_op_def transaction_def)
next
  case (Inr p)
  with assms that show thesis by (cases p) (simp add: update_channel_op_def transaction_def)
qed

definition silencing :: "channel_env \<Rightarrow> id \<Rightarrow> id \<Rightarrow> time \<Rightarrow> NotificationChannelPatch option \<Rightarrow> db \<Rightarrow> db \<Rightarrow> bool" where
  "silencing env c a now request d d' \<longleftrightarrow>
     (case request of
        Some patch \<Rightarrow> np_enabled patch = Some False \<and> (\<exists>v. update_channel_op env c a now patch d = (Inr v, d'))
      | None \<Rightarrow> remove_channel env c a now d = (Inr (), d'))"

lemma silencing_change:
  assumes "silencing env c a now request d d'" "distinct (map ch_id (channels d))"
  obtains row f m where "d' = write_audit row (update_channel c f (silence_channel c m now d))"
    "silent c d'" "\<And>x. ch_id (f x) = ch_id x"
proof (cases request)
  case None
  with assms(1) have "remove_channel_tx env c a now d = Inr ((), d')"
    by (simp add: silencing_def remove_channel_def transaction_Inr)
  then show thesis
  proof (cases rule: remove_channel_tx_Inr)
    case (1 stored)
    have "c \<in> ch_id ` set (channels d)" using lockChannel_Some[OF 1(1)] by (metis imageI)
    from that[OF 1(2)] silenced_silent[OF assms(2) this, of "removed_channel now"] 1(2) show thesis by simp
  qed
next
  case (Some patch)
  with assms(1) obtain v where "update_channel_tx env c a now patch d = Inr (v, d')" and off: "np_enabled patch = Some False"
    by (auto simp: silencing_def elim!: update_channel_op_Inr)
  from this(1) show thesis
  proof (cases rule: update_channel_tx_Inr)
    case (1 stored config)
    have "c \<in> ch_id ` set (channels d)" using lockChannel_Some[OF 1(1)] by (metis imageI)
    have d': "d' = write_audit (channel_audit env a ''NOTIFICATION_CHANNEL_UPDATED'' c now)
        (update_channel c (patched_channel env patch config) (silence_channel c disabled_message now d))"
      using 1(5) off by simp
    show thesis
    proof (rule that[OF d'])
      show "silent c d'" unfolding d'
        by (rule silenced_silent[OF assms(2) \<open>c \<in> ch_id ` set (channels d)\<close>]) (simp_all add: off value_or_def)
    qed simp
  qed
qed

text \<open>C21. A silenced channel stays silent. After a channel is disabled or removed, in every
interleaving of the monitor service, the scheduler, the check processor, the network guard, the
dispatcher, any number of notification workers (with messages already being sent) and the other
channel operations, as long as nobody enables it again, no monitor is bound to it, every
notification of it is finished and has lost its destination, and no worker can claim one.\<close>

theorem silenced_channel_stays_silent:
  assumes "silencing env c a now request d0 d1" "distinct (map ch_id (channels d0))"
    and "(alert_step c)\<^sup>*\<^sup>* (d1, cs1) (d, cs)"
  shows "(\<forall>b \<in> set (monitorChannels d). mc_channelId b \<noteq> c) \<and>
    (\<forall>r \<in> set (outbox d). ob_channelId r = c \<longrightarrow>
       terminal_outbox r \<and> isSecretTombstone (ob_encryptedConfigSnapshot r)) \<and>
    (\<forall>r config newId t. find_by ob_id (ob_id r) (outbox d) = Some r \<longrightarrow> ob_channelId r = c \<longrightarrow>
       (\<exists>d'. claim config newId (ob_id r) t d = Inr (None, d')))"
proof -
  from assms(1,2) have "silent c d1" by (rule silencing_change)
  with alert_run_silent[OF assms(3)] have s: "silent c d" by simp
  with silent_not_live[OF s] show ?thesis by (auto simp: silent_def quiet_row_def claim_def)
qed

text \<open>Silencing a channel touches nothing else: the bindings and notifications of other
channels stay as they are, no monitor, incident or check changes, an attempt that was under way
for the channel is closed as unknown, and the change leaves one audit entry.\<close>

theorem silencing_is_local:
  assumes "silencing env c a now request d d'" "distinct (map ch_id (channels d))"
  shows "(\<forall>r. ob_channelId r \<noteq> c \<longrightarrow> r \<in> set (outbox d') \<longleftrightarrow> r \<in> set (outbox d)) \<and>
    (\<forall>b. b \<in> set (monitorChannels d') \<longleftrightarrow> b \<in> set (monitorChannels d) \<and> mc_channelId b \<noteq> c) \<and>
    (\<forall>x. ch_id x \<noteq> c \<longrightarrow> x \<in> set (channels d') \<longleftrightarrow> x \<in> set (channels d)) \<and>
    monitors d' = monitors d \<and> incidents d' = incidents d \<and> scheduledChecks d' = scheduledChecks d \<and>
    (\<forall>n \<in> set (deliveries d'). nd_status n = ATTEMPTING \<longrightarrow> n \<in> set (deliveries d) \<and>
       \<not> (\<exists>r \<in> set (outbox d). ob_id r = nd_outboxId n \<and> ob_channelId r = c \<and> ob_status r = PROCESSING)) \<and>
    length (auditLogs d') = length (auditLogs d) + 1"
  using assms
proof (rule silencing_change)
  fix row f m
  assume d': "d' = write_audit row (update_channel c f (silence_channel c m now d))"
    and f: "\<And>x. ch_id (f x) = ch_id x"
  have outb: "outbox d' = outbox (silence_channel c m now d)" by (simp add: d')
  have kept: "r \<in> set (outbox (silence_channel c m now d))" if "r \<in> set (outbox d)" "ob_channelId r \<noteq> c" for r
    using that
    by (auto simp: silence_outbox retire_secrets_def cancel_outbox_def set_update_where of_channel_def)
  have dels: "deliveries d' = update_where (\<lambda>n. nd_status n = ATTEMPTING \<and>
      list_ex (\<lambda>r. ob_id r = nd_outboxId n \<and> of_channel c r \<and> ob_status r = PROCESSING) (outbox d))
      (\<lambda>n. n\<lparr>nd_status := UNKNOWN, nd_errorSafe := Some m, nd_finishedAt := Some now\<rparr>) (deliveries d)"
    by (simp add: d' silence_channel_def Let_def lose_attempts_def retire_secrets_def cancel_outbox_def)
  show ?thesis
  proof (intro conjI allI impI ballI)
    show "r \<in> set (outbox d') \<longleftrightarrow> r \<in> set (outbox d)" if "ob_channelId r \<noteq> c" for r
      unfolding outb using silenced_rows(2) kept that by blast
    show "b \<in> set (monitorChannels d') \<longleftrightarrow> b \<in> set (monitorChannels d) \<and> mc_channelId b \<noteq> c" for b
      by (simp add: d')
    show "x \<in> set (channels d') \<longleftrightarrow> x \<in> set (channels d)" if "ch_id x \<noteq> c" for x
      using that f by (auto simp: d' set_update_where)
    show "length (auditLogs d') = length (auditLogs d) + 1"
      by (simp add: d' write_audit_def update_channel_def)
    fix n assume n: "n \<in> set (deliveries d')" "nd_status n = ATTEMPTING"
    then have "n \<in> set (deliveries d)" "\<not> list_ex (\<lambda>r. ob_id r = nd_outboxId n \<and> of_channel c r \<and> ob_status r = PROCESSING) (outbox d)"
      unfolding dels by (auto elim!: update_whereE)
    then show "n \<in> set (deliveries d)"
      "\<not> (\<exists>r \<in> set (outbox d). ob_id r = nd_outboxId n \<and> ob_channelId r = c \<and> ob_status r = PROCESSING)"
      by (auto simp: list_ex_iff of_channel_def)
  qed (simp_all add: d')
qed

section \<open>Destinations\<close>

text \<open>The configuration survives its way through the text functions and the cipher.\<close>

definition readable :: "channel_env \<Rightarrow> json \<Rightarrow> bool" where
  "readable env config \<longleftrightarrow>
     seals (ce_cipher env) (ce_decipher env) (ce_stringify env config) \<and> ce_stringify env config \<noteq> [] \<and>
     ce_parse env (ce_stringify env config) = Some config"

lemma decode_encode: "readable env config \<Longrightarrow> decodeConfig env (encodeConfig env config) = Some config"
  by (simp add: readable_def decodeConfig_def encodeConfig_def decryptJson_def decrypt_encrypt)

abbreviation destination :: "jstring \<Rightarrow> jstring \<Rightarrow> json" where
  "destination token chat \<equiv> stored_config (Some (JStr token)) (Some (JStr chat))"

lemma destination_members [simp]:
  "jget (destination t c) (js ''type'') = Some (JStr (js ''TELEGRAM''))"
  "jget (destination t c) (js ''botToken'') = Some (JStr t)" "jget (destination t c) (js ''chatId'') = Some (JStr c)"
  "telegram_config (destination t c)" "destination t c \<noteq> JNull"
  "telegramDestination (destination t c) = Inr \<lparr>td_botToken = t, td_chatId = c\<rparr>"
  by (simp_all add: stored_config_def telegram_config_def js_inj)

lemma find_end: "find p xs = None \<Longrightarrow> find p (xs @ [x]) = (if p x then Some x else None)"
  by (induction xs) (auto split: if_splits)

text \<open>C22. A destination reaches the worker as it was entered: after a channel is created, its view
shows the entered token (or the configured one when none was entered) and chat, and whenever the
worker sends a notification that carries the stored configuration, the adapter is called with
exactly that token and that chat.\<close>

theorem channel_destination_reaches_worker:
  assumes "create_channel env i a now input d = (Inr v, d')"
    and "token = (if ni_botToken input = [] then ce_telegramBotToken env else ni_botToken input)"
    and "readable env (destination token (ni_chatId input))"
  shows "\<exists>x. find_by ch_id i (channels d') = Some x \<and> usable_channel x \<and>
    cv_botToken v = Some (JStr token) \<and> cv_chatId v = Some (JStr (ni_chatId input)) \<and>
    (\<forall>r config adapter t. ob_encryptedConfigSnapshot r = ch_encryptedConfig x \<longrightarrow>
       ob_channelTypeSnapshot r = ch_type x \<longrightarrow> np_decipher config = ce_decipher env \<longrightarrow>
       attempt_send config (ce_parse env) adapter r t =
         adapter (parseNotificationPayload (ob_payloadSafe r) (ob_eventType r) t)
           \<lparr>td_botToken = token, td_chatId = ni_chatId input\<rparr>)"
proof -
  from assms(1,2) obtain x where x: "create_channel_tx env i a now token input d = Inr (x, d')" "v = channelView env x"
    by (auto simp: create_channel_def transaction_def Let_def split: if_splits sum.splits)
  note created = create_channel_tx_Inr[OF x(1)]
  have kind: "ch_type x = telegram" by (simp add: created(2) new_channel_def)
  have stored: "decodeConfig env (ch_encryptedConfig x) = Some (destination token (ni_chatId input))"
    using decode_encode[OF assms(3)] by (simp add: created(2) new_channel_def)
  have "find_by ch_id i (channels d') = Some x"
  proof -
    have "find (\<lambda>r. ch_id r = i) (channels d) = None" using created(1) by (auto simp: find_None_iff)
    then show ?thesis by (simp add: created(2,3) new_channel_def find_by_def find_end)
  qed
  moreover have "usable_channel x" by (simp add: created(2) new_channel_def usable_channel_def)
  moreover have "cv_botToken v = Some (JStr token)" "cv_chatId v = Some (JStr (ni_chatId input))"
    by (simp_all add: x(2) channelView_def shown_member_def stored kind)
  moreover have "attempt_send config (ce_parse env) adapter r t =
      adapter (parseNotificationPayload (ob_payloadSafe r) (ob_eventType r) t)
        \<lparr>td_botToken = token, td_chatId = ni_chatId input\<rparr>"
    if "ob_encryptedConfigSnapshot r = ch_encryptedConfig x" "ob_channelTypeSnapshot r = ch_type x"
      "np_decipher config = ce_decipher env" for r config adapter t
    using that stored kind by (simp add: attempt_send_def decodeConfig_def)
  ultimately show ?thesis by blast
qed

text \<open>A patch of a channel changes what it names: the new destination is the stored one with the
given token and chat put in, the verification is dropped exactly when the destination changed,
and name and switch are taken from the patch or kept.\<close>

theorem channel_patch_merges:
  assumes "update_channel_op env i a now patch d = (Inr v, d')" "distinct (map ch_id (channels d))"
    and "find_by ch_id i (channels d) = Some x"
    and "decodeConfig env (ch_encryptedConfig x) = Some (destination t c)"
    and "t' = value_or t (np_botToken patch)" "c' = value_or c (np_chatId patch)" "readable env (destination t' c')"
  shows "\<exists>x'. find_by ch_id i (channels d') = Some x' \<and> v = channelView env x' \<and>
    decodeConfig env (ch_encryptedConfig x') = Some (destination t' c') \<and>
    ch_verifiedAt x' = (if t' = t \<and> c' = c then ch_verifiedAt x else None) \<and>
    ch_displayName x' = value_or (ch_displayName x) (np_displayName patch) \<and>
    ch_enabled x' = value_or (ch_enabled x) (np_enabled patch)"
proof -
  from assms(1) obtain x' where v: "v = channelView env x'" and "update_channel_tx env i a now patch d = Inr (x', d')"
    by (rule update_channel_op_Inr) blast
  from this(2) show ?thesis
  proof (cases rule: update_channel_tx_Inr)
    case (1 stored config)
    have "stored = x"
      using lockChannel_Some[OF 1(1)] find_by_Some[OF assms(3)] assms(2) by (metis distinct_map inj_onD)
    then have config: "config = (if t' = t \<and> c' = c then None else Some (destination t' c'))"
      using 1(2) assms(4-6)
      by (auto simp: next_config_def Let_def value_or_def split: if_splits option.splits)
    have updated: "find (\<lambda>r. ch_id r = i) (update_where (\<lambda>c. ch_id c = i) (patched_channel env patch config) xs) =
        map_option (patched_channel env patch config) (find (\<lambda>r. ch_id r = i) xs)" for xs
      by (induction xs) simp_all
    have found: "find_by ch_id i (channels d') = Some x'"
    proof -
      have "find_by ch_id i (channels d') =
          find (\<lambda>r. ch_id r = i) (update_where (\<lambda>c. ch_id c = i) (patched_channel env patch config) (channels d))"
        by (simp add: 1(5) find_by_def)
      also have "\<dots> = map_option (patched_channel env patch config) (find (\<lambda>r. ch_id r = i) (channels d))"
        by (rule updated)
      finally show ?thesis using assms(3) \<open>stored = x\<close> 1(3) by (simp add: find_by_def)
    qed
    have "decodeConfig env (ch_encryptedConfig x') = Some (destination t' c')"
      using decode_encode[OF assms(7)] assms(4)
      by (simp add: 1(3) \<open>stored = x\<close> patched_channel_def Let_def config)
    with found v show ?thesis
      by (auto simp: 1(3) \<open>stored = x\<close> patched_channel_def Let_def config)
  qed
qed

section \<open>Tests of a channel\<close>

record test_attempt =
  tq_channel :: id
  tq_auditId :: id
  tq_at :: time
  tq_settledAt :: time
  tq_meanwhile :: "db \<Rightarrow> db"

text \<open>Tests in the order they begin; the ones that went past the cooldown.\<close>

fun test_run :: "channel_env \<Rightarrow> telegram_port \<Rightarrow> test_attempt list \<Rightarrow> test_times \<Rightarrow> db \<Rightarrow> (id \<times> time) list" where
  "test_run env adapter [] tests d = []"
| "test_run env adapter (q # qs) tests d =
     (case test_channel env adapter (tq_channel q) (tq_auditId q) (tq_at q) (tq_settledAt q) (tq_meanwhile q) tests d of
        (Inl (TooManyRequests m), tests', d') \<Rightarrow> test_run env adapter qs tests' d'
      | (Inl (NotFound m), tests', d') \<Rightarrow> test_run env adapter qs tests' d'
      | (answer, tests', d') \<Rightarrow> (tq_channel q, tq_at q) # test_run env adapter qs tests' d')"

lemma test_channel_times:
  assumes "test_channel env adapter i a t u meanwhile tests d = (answer, tests', d')"
  obtains (admitted) "tests' = tests(i := Some t)" "\<forall>s. tests i = Some s \<longrightarrow> s + CHANNEL_TEST_COOLDOWN_MS \<le> t"
  | (refused) m where "tests' = tests" "answer = Inl (TooManyRequests m) \<or> answer = Inl (NotFound m)"
  using assms
  by (auto simp: test_channel_def enforceChannelTestCooldown_def channel_missing_def Let_def
      split: option.splits if_splits prod.splits)

text \<open>C23. Tests of one channel keep their distance: of all tests requested of an instance, in the
order they begin and whatever happens in between, two that went past the cooldown for the same
channel are at least ten seconds apart, and the first waits for the last one before them.\<close>

theorem channel_tests_spaced:
  shows "sorted_wrt (\<lambda>(i, t) (j, u). i = j \<longrightarrow> t + 10000 \<le> u) (test_run env adapter qs tests d) \<and>
    (\<forall>(i, t) \<in> set (test_run env adapter qs tests d). \<forall>s. tests i = Some s \<longrightarrow> s + 10000 \<le> t)"
proof (induction qs arbitrary: tests d)
  case Nil
  then show ?case by simp
next
  case (Cons q qs)
  obtain answer tests' d' where r: "test_channel env adapter (tq_channel q) (tq_auditId q) (tq_at q) (tq_settledAt q)
      (tq_meanwhile q) tests d = (answer, tests', d')" by (metis prod_cases3)
  let ?rest = "test_run env adapter qs tests' d'"
  from r show ?case
  proof (cases rule: test_channel_times)
    case (refused m)
    with r have "test_run env adapter (q # qs) tests d = test_run env adapter qs tests d'" by auto
    with Cons.IH[of tests d'] show ?thesis by simp
  next
    case admitted
    have rest: "s + 10000 \<le> u" if "(j, u) \<in> set ?rest" "tests' j = Some s" for j u s
      using conjunct2[OF Cons.IH[of tests' d']] that by fast
    have later: "tq_at q + 10000 \<le> u" if "(tq_channel q, u) \<in> set ?rest" for u
      by (rule rest[OF that]) (simp add: admitted(1))
    have wait: "s + 10000 \<le> u" if "(j, u) \<in> set ?rest" "tests j = Some s" for j u s
    proof (cases "j = tq_channel q")
      case True
      with later that admitted(2) show ?thesis by (fastforce simp: CHANNEL_TEST_COOLDOWN_MS_def)
    next
      case False
      with that(2) admitted(1) rest[OF that(1)] show ?thesis by simp
    qed
    have "test_run env adapter (q # qs) tests d = ?rest \<or>
        test_run env adapter (q # qs) tests d = (tq_channel q, tq_at q) # ?rest"
      using r by (simp split: sum.splits api_error.splits)
    then show ?thesis
      using Cons.IH[of tests' d'] later wait admitted(2) by (fastforce simp: CHANNEL_TEST_COOLDOWN_MS_def)
  qed
qed

section \<open>Examples\<close>

definition channel_world :: channel_env where
  "channel_world =
     \<lparr>ce_cipher = (\<lambda>s. ([1], [2], map (\<lambda>c. ucast c) s)),
      ce_decipher = (\<lambda>iv tag text. if iv = [1] \<and> tag = [2] then Some (map (\<lambda>c. ucast c) text) else None),
      ce_stringify = (\<lambda>j. case (jget j (js ''botToken''), jget j (js ''chatId'')) of
         (Some (JStr t), Some (JStr c)) \<Rightarrow> t @ 0 # c | _ \<Rightarrow> []),
      ce_parse = (\<lambda>s. Some (stored_config (Some (JStr (takeWhile (\<lambda>c. c \<noteq> 0) s)))
         (Some (JStr (drop 1 (dropWhile (\<lambda>c. c \<noteq> 0) s)))))),
      ce_adminUsername = js ''admin'', ce_telegramBotToken = []\<rparr>"

definition channel_request :: NotificationChannelInput where
  "channel_request = \<lparr>ni_displayName = js ''ops'', ni_botToken = js ''1:a'', ni_chatId = js ''42''\<rparr>"

definition disable_request :: NotificationChannelPatch where
  "disable_request = \<lparr>np_displayName = None, np_enabled = Some False, np_botToken = None, np_chatId = None\<rparr>"

definition disabled_db :: db where
  "disabled_db = snd (update_channel_op channel_world (js ''t1'') (js ''a2'') 10 disable_request
     (outbox_db PROCESSING))"

lemma disabled_db_silencing:
  "silencing channel_world (js ''t1'') (js ''a2'') 10 (Some disable_request) (outbox_db PROCESSING) disabled_db"
proof -
  have "isl (fst (update_channel_op channel_world (js ''t1'') (js ''a2'') 10 disable_request (outbox_db PROCESSING))) = False"
    by code_simp
  then obtain v where "update_channel_op channel_world (js ''t1'') (js ''a2'') 10 disable_request (outbox_db PROCESSING) =
      (Inr v, disabled_db)"
    unfolding disabled_db_def by (metis isl_def old.sum.exhaust prod.collapse)
  then show ?thesis by (auto simp: silencing_def disable_request_def)
qed

lemma outbox_db_channels: "distinct (map ch_id (channels (outbox_db st)))"
  by (simp add: outbox_db_def)

theorem silenced_channel_stays_silent_witness:
  "map ob_status (outbox disabled_db) = [NotificationOutboxStatus.CANCELED, NotificationOutboxStatus.CANCELED] \<and>
   list_all (\<lambda>r. terminal_outbox r \<and> isSecretTombstone (ob_encryptedConfigSnapshot r)) (outbox disabled_db)"
proof
  show "map ob_status (outbox disabled_db) = [NotificationOutboxStatus.CANCELED, NotificationOutboxStatus.CANCELED]"
    by code_simp
  have "list_all (\<lambda>r. ob_channelId r = js ''t1'') (outbox disabled_db)" by code_simp
  then show "list_all (\<lambda>r. terminal_outbox r \<and> isSecretTombstone (ob_encryptedConfigSnapshot r)) (outbox disabled_db)"
    using silenced_channel_stays_silent[OF disabled_db_silencing outbox_db_channels rtranclp.rtrancl_refl]
    unfolding list_all_iff by blast
qed

theorem silencing_is_local_witness:
  "monitors disabled_db = monitors (outbox_db PROCESSING) \<and> length (auditLogs disabled_db) = 1"
  using silencing_is_local[OF disabled_db_silencing outbox_db_channels] by (simp add: outbox_db_def empty_db_def)

theorem channel_destination_reaches_worker_witness:
  "\<exists>x. find_by ch_id (js ''t2'')
       (channels (snd (create_channel channel_world (js ''t2'') (js ''a1'') 0 channel_request (outbox_db SENT)))) = Some x \<and>
     (\<forall>r config adapter t. ob_encryptedConfigSnapshot r = ch_encryptedConfig x \<longrightarrow>
       ob_channelTypeSnapshot r = ch_type x \<longrightarrow> np_decipher config = ce_decipher channel_world \<longrightarrow>
       attempt_send config (ce_parse channel_world) adapter r t =
         adapter (parseNotificationPayload (ob_payloadSafe r) (ob_eventType r) t)
           \<lparr>td_botToken = js ''1:a'', td_chatId = js ''42''\<rparr>)"
proof -
  let ?run = "create_channel channel_world (js ''t2'') (js ''a1'') 0 channel_request (outbox_db SENT)"
  have "isl (fst ?run) = False" by code_simp
  then obtain v where v: "?run = (Inr v, snd ?run)" by (metis isl_def old.sum.exhaust prod.collapse)
  have token: "js ''1:a'' = (if ni_botToken channel_request = [] then ce_telegramBotToken channel_world
      else ni_botToken channel_request)" by code_simp
  have "readable channel_world (stored_config (Some (JStr (js ''1:a''))) (Some (JStr (ni_chatId channel_request))))"
    by code_simp
  from channel_destination_reaches_worker[OF v token this] show ?thesis
    by (simp add: channel_request_def) blast
qed

definition move_request :: NotificationChannelPatch where
  "move_request = \<lparr>np_displayName = None, np_enabled = None, np_botToken = None, np_chatId = Some (js ''43'')\<rparr>"

definition moved_db :: db where
  "moved_db = snd (create_channel channel_world (js ''t2'') (js ''a1'') 0 channel_request (outbox_db SENT))"

theorem channel_patch_merges_witness:
  "\<exists>x'. find_by ch_id (js ''t2'') (channels (snd (update_channel_op channel_world (js ''t2'') (js ''a3'') 5 move_request moved_db)))
      = Some x' \<and>
    decodeConfig channel_world (ch_encryptedConfig x') =
      Some (stored_config (Some (JStr (js ''1:a''))) (Some (JStr (js ''43'')))) \<and> ch_verifiedAt x' = None"
proof -
  let ?run = "update_channel_op channel_world (js ''t2'') (js ''a3'') 5 move_request moved_db"
  let ?x = "new_channel channel_world (js ''t2'') 0 (js ''1:a'') channel_request"
  have "isl (fst ?run) = False" by code_simp
  then obtain v where v: "?run = (Inr v, snd ?run)" by (metis isl_def old.sum.exhaust prod.collapse)
  have ids: "distinct (map ch_id (channels moved_db))" by code_simp
  have x: "find_by ch_id (js ''t2'') (channels moved_db) = Some ?x" by code_simp
  have old: "decodeConfig channel_world (ch_encryptedConfig ?x) =
      Some (stored_config (Some (JStr (js ''1:a''))) (Some (JStr (js ''42''))))" by code_simp
  have t: "js ''1:a'' = value_or (js ''1:a'') (np_botToken move_request)"
    and c: "js ''43'' = value_or (js ''42'') (np_chatId move_request)"
    by (simp_all add: move_request_def value_or_def)
  have "readable channel_world (stored_config (Some (JStr (js ''1:a''))) (Some (JStr (js ''43''))))" by code_simp
  from channel_patch_merges[OF v ids x old t c this] show ?thesis by (auto simp: js_inj)
qed

theorem channel_tests_spaced_witness:
  "sorted_wrt (\<lambda>(i, t) (j, u). i = j \<longrightarrow> t + 10000 \<le> u)
     (test_run channel_world (\<lambda>p dest. Inr None)
        (map (\<lambda>t. \<lparr>tq_channel = js ''t2'', tq_auditId = js ''a'', tq_at = t, tq_settledAt = t, tq_meanwhile = (\<lambda>d. d)\<rparr>)
           [0, 9999, 10000]) (\<lambda>_. None) moved_db) \<and>
   test_run channel_world (\<lambda>p dest. Inr None)
        (map (\<lambda>t. \<lparr>tq_channel = js ''t2'', tq_auditId = js ''a'', tq_at = t, tq_settledAt = t, tq_meanwhile = (\<lambda>d. d)\<rparr>)
           [0, 9999, 10000]) (\<lambda>_. None) moved_db = [(js ''t2'', 0), (js ''t2'', 10000)]"
proof
  show "test_run channel_world (\<lambda>p dest. Inr None)
        (map (\<lambda>t. \<lparr>tq_channel = js ''t2'', tq_auditId = js ''a'', tq_at = t, tq_settledAt = t, tq_meanwhile = (\<lambda>d. d)\<rparr>)
           [0, 9999, 10000]) (\<lambda>_. None) moved_db = [(js ''t2'', 0), (js ''t2'', 10000)]"
    by code_simp
qed (use channel_tests_spaced in blast)

end
