(* ===== verification/Network_Settings.thy ===== *)
theory Network_Settings
  imports Channel_Silence
begin

text \<open>
  The administration of the network guard in \<open>apps/api/src/network\<close>: the schemas of a request
  (\<open>network.schemas.ts\<close>) and the operations of \<open>network.service.ts\<close>. The URL parser, \<open>isIP\<close>,
  the UUID check and the checker that runs a connection test are parameters; the column
  \<open>updated_at\<close> of the observers is the argument the view sorts by. The host that is written
  into a parsed address came out of the same parser, so the setter stores it as it is.
\<close>

section \<open>Requests\<close>

record NetworkSettingsInput =
  wi_enabled :: bool
  wi_urls :: "jstring list"
  wi_channelIds :: "id list"
  wi_version :: int

record schema_env =
  sv_new_URL :: "jstring \<Rightarrow> Url option"
  sv_isIP :: "jstring \<Rightarrow> nat"
  sv_is_uuid :: "jstring \<Rightarrow> bool"

definition ends_with :: "jstring \<Rightarrow> jstring \<Rightarrow> bool" where
  "ends_with s t \<longleftrightarrow> length t \<le> length s \<and> drop (length s - length t) s = t"

text \<open>A host the guard may use as a reference: a public address, or a name with a dot that is not local.\<close>

definition reference_host :: "(jstring \<Rightarrow> nat) \<Rightarrow> jstring \<Rightarrow> bool" where
  "reference_host isIP host \<longleftrightarrow>
     \<not> ((isIP host \<noteq> 0 \<and> \<not> isPublicAddress isIP host) \<or>
        (isIP host = 0 \<and> (\<not> List.member host 46 \<or> ends_with host (js ''.localhost'') \<or> ends_with host (js ''.local''))))"

definition plain_reference :: "Url \<Rightarrow> bool" where
  "plain_reference u \<longleftrightarrow> u_username u = [] \<and> u_password u = [] \<and> u_search u = [] \<and> u_hash u = []"

definition reference_url :: "(jstring \<Rightarrow> nat) \<Rightarrow> Url \<Rightarrow> Url" where
  "reference_url isIP url =
     (let host = policy_hostname url
      in url\<lparr>u_hostname := (if isIP host = 6 then [91] @ host @ [93] else host)\<rparr>)"

definition referenceUrlSchema :: "schema_env \<Rightarrow> json \<Rightarrow> jstring option" where
  "referenceUrlSchema env v = do {
     trimmed \<leftarrow> string_field 1 2048 v;
     original \<leftarrow> sv_new_URL env trimmed;
     if u_hash original \<noteq> [] then None
     else (case parseMonitorUrl (sv_new_URL env) (sv_isIP env) trimmed of
        Inl _ \<Rightarrow> None
      | Inr url \<Rightarrow>
          if \<not> plain_reference url \<or> \<not> reference_host (sv_isIP env) (policy_hostname url) then None
          else Some (url_toString (reference_url (sv_isIP env) url)))}"

text \<open>\<open>new Set(\<dots>).size\<close>.\<close>

definition set_size :: "'a list \<Rightarrow> nat" where "set_size xs = length (remdups xs)"

text \<open>
  The checks over the whole object. A stored address that would not parse again ends the request
  with an exception.
\<close>

definition consistent_settings :: "schema_env \<Rightarrow> NetworkSettingsInput \<Rightarrow> bool" where
  "consistent_settings env s \<longleftrightarrow>
     (wi_enabled s \<longrightarrow> 2 \<le> length (wi_urls s)) \<and>
     list_all (\<lambda>url. sv_new_URL env url \<noteq> None) (wi_urls s) \<and>
     set_size (map (\<lambda>url. map_option u_hostname (sv_new_URL env url)) (wi_urls s)) = length (wi_urls s) \<and>
     set_size (wi_channelIds s) = length (wi_channelIds s)"

definition version_field :: "json \<Rightarrow> int option" where
  "version_field = int_field 0 9007199254740991"

definition networkSettingsSchema :: "schema_env \<Rightarrow> json \<Rightarrow> NetworkSettingsInput option" where
  "networkSettingsSchema env body = do {
     members \<leftarrow> strict_object [js ''enabled'', js ''urls'', js ''channelIds'', js ''version''] body;
     let get = map_of members;
     enabled \<leftarrow> required bool_field (get (js ''enabled''));
     urls \<leftarrow> required (array_field 0 5 (referenceUrlSchema env)) (get (js ''urls''));
     channelIds \<leftarrow> required (array_field 0 20 (uuid_field (sv_is_uuid env))) (get (js ''channelIds''));
     version \<leftarrow> required version_field (get (js ''version''));
     let input = \<lparr>wi_enabled = enabled, wi_urls = urls, wi_channelIds = channelIds, wi_version = version\<rparr>;
     if consistent_settings env input then Some input else None}"

definition networkTestSchema :: "schema_env \<Rightarrow> json \<Rightarrow> jstring list option" where
  "networkTestSchema env body = do {
     members \<leftarrow> strict_object [js ''urls''] body;
     required (array_field 1 5 (referenceUrlSchema env)) (map_of members (js ''urls''))}"

section \<open>Connection test\<close>

text \<open>One test at a time per instance: the flag is taken at the start and given back at the end.\<close>

definition start_test :: "bool \<Rightarrow> api_error + bool" where
  "start_test testing =
     (if testing then Inl (TooManyRequests [0xC5F0, 0xACB0, 0x20, 0xD14C, 0xC2A4, 0xD2B8, 0xAC00, 0x20, 0xC9C4, 0xD589, 0x20,
      0xC911, 0xC785, 0xB2C8, 0xB2E4, 0x2E, 0x20, 0xC644, 0xB8CC, 0x20, 0xD6C4, 0x20, 0xB2E4,
      0xC2DC, 0x20, 0xC2DC, 0xB3C4, 0xD574, 0x20, 0xC8FC, 0xC138, 0xC694, 0x2E])
      else Inr True)"

record ReferenceProbe =
  rp_url :: jstring
  rp_reachable :: bool
  rp_statusCode :: "int option"
  rp_totalMs :: int
  rp_errorType :: "CheckErrorType option"
  rp_errorMessage :: "jstring option"

record NetworkTest =
  nt_checkedFrom :: jstring
  nt_checkedAt :: time
  nt_results :: "ReferenceProbe list"

definition reference_probe :: "jstring \<Rightarrow> MonitorCheckResult \<Rightarrow> ReferenceProbe" where
  "reference_probe url r =
     \<lparr>rp_url = url, rp_reachable = (rs_statusCode r \<noteq> None), rp_statusCode = rs_statusCode r,
      rp_totalMs = rs_totalMs r, rp_errorType = rs_errorType r, rp_errorMessage = rs_errorMessageSafe r\<rparr>"

definition finish_test ::
  "jstring \<Rightarrow> check_runner \<Rightarrow> time \<Rightarrow> time \<Rightarrow> jstring list \<Rightarrow> NetworkTest \<times> bool" where
  "finish_test host runner startedAt finishedAt urls =
     (\<lparr>nt_checkedFrom = host, nt_checkedAt = finishedAt,
       nt_results = map (\<lambda>(url, r). reference_probe url r)
         (zip urls (checkReferenceUrls runner startedAt finishedAt urls))\<rparr>, False)"

section \<open>Reading the settings\<close>

record ChannelChoice =
  cc_id :: id
  cc_displayName :: jstring
  cc_chatId :: "jstring option"

definition networkChannelView :: "channel_env \<Rightarrow> NotificationChannel \<Rightarrow> ChannelChoice" where
  "networkChannelView env c =
     \<lparr>cc_id = ch_id c, cc_displayName = ch_displayName c,
      cc_chatId = (case decodeConfig env (ch_encryptedConfig c) of None \<Rightarrow> None
        | Some config \<Rightarrow> (case jget config (js ''chatId'') of Some (JStr s) \<Rightarrow> Some s | _ \<Rightarrow> None))\<rparr>"

record SettingsView =
  sw_enabled :: bool
  sw_urls :: json
  sw_channelIds :: json
  sw_version :: int

record NetworkView =
  nv_settings :: SettingsView
  nv_observers :: "NetworkObserver list"
  nv_outages :: "(NetworkOutage \<times> nat) list"
  nv_channels :: "ChannelChoice list"

definition settings_view :: "db \<Rightarrow> SettingsView" where
  "settings_view d =
     (case settings_row d of
        Some s \<Rightarrow> \<lparr>sw_enabled = ns_enabled s, sw_urls = ns_urls s, sw_channelIds = ns_channelIds s,
                    sw_version = ns_version s\<rparr>
      | None \<Rightarrow> \<lparr>sw_enabled = False, sw_urls = JArr [], sw_channelIds = JArr [], sw_version = 0\<rparr>)"

definition get_network :: "channel_env \<Rightarrow> (jstring \<Rightarrow> time) \<Rightarrow> db \<Rightarrow> NetworkView" where
  "get_network env updatedAt d =
     \<lparr>nv_settings = settings_view d,
      nv_observers = take 50 (sort_key (\<lambda>o'. - updatedAt (no_id o')) (networkObservers d)),
      nv_outages = map (\<lambda>u. (u, count_where (\<lambda>n. nb_outageId n = nu_id u) (networkObservations d)))
        (take 30 (sort_key (\<lambda>u. - nu_startedAt u) (networkOutages d))),
      nv_channels = map (networkChannelView env)
        (sort_key ch_displayName (filter usable_channel (channels d)))\<rparr>"

section \<open>Saving the settings\<close>

text \<open>The upsert with an empty update.\<close>

definition ensure_settings :: "db \<Rightarrow> db" where
  "ensure_settings d =
     (if settings_row d = None
      then d\<lparr>networkSettings := networkSettings d @
             [\<lparr>ns_id = 1, ns_enabled = False, ns_urls = JArr [], ns_channelIds = JArr [], ns_version = 0\<rparr>]\<rparr>
      else d)"

definition settings_at :: "int \<Rightarrow> NetworkSettings \<Rightarrow> bool" where
  "settings_at version s \<longleftrightarrow> ns_id s = 1 \<and> ns_version s = version"

definition saved_settings :: "NetworkSettingsInput \<Rightarrow> NetworkSettings \<Rightarrow> NetworkSettings" where
  "saved_settings input s =
     s\<lparr>ns_enabled := wi_enabled input, ns_urls := JArr (map JStr (wi_urls input)),
       ns_channelIds := JArr (map JStr (wi_channelIds input)), ns_version := ns_version s + 1\<rparr>"

definition settings_audit :: "NetworkSettingsInput \<Rightarrow> id \<Rightarrow> id \<Rightarrow> time \<Rightarrow> AuditLog" where
  "settings_audit input actorId auditId now =
     audit_row auditId actorId ''network.settings.updated'' ''NetworkSettings'' (js ''1'')
       (Some (JObj [(js ''enabled'', JBool (wi_enabled input)),
                    (js ''referenceCount'', JNum (int (length (wi_urls input)))),
                    (js ''channelCount'', JNum (int (length (wi_channelIds input))))])) now"

definition settings_conflict :: api_error where
  "settings_conflict = Conflict [0xB2E4, 0xB978, 0x20, 0xAD00, 0xB9AC, 0xC790, 0xAC00, 0x20, 0xC124, 0xC815, 0xC744,
      0x20, 0xBCC0, 0xACBD, 0xD588, 0xC2B5, 0xB2C8, 0xB2E4, 0x2E, 0x20, 0xC0C8, 0xB85C,
      0xACE0, 0xCE68, 0x20, 0xD6C4, 0x20, 0xB2E4, 0xC2DC, 0x20, 0xC800, 0xC7A5, 0xD558,
      0xC138, 0xC694, 0x2E]"

definition save_settings_tx :: "NetworkSettingsInput \<Rightarrow> id \<Rightarrow> id \<Rightarrow> time \<Rightarrow> unit tx" where
  "save_settings_tx input actorId auditId now d =
     (let d1 = ensure_settings d in
      if count_where (\<lambda>c. List.member (wi_channelIds input) (ch_id c) \<and> usable_channel c) (channels d1)
           \<noteq> length (wi_channelIds input)
      then Inl (BadRequest [0xC0AC, 0xC6A9, 0x20, 0xAC00, 0xB2A5, 0xD55C, 0x20, 0x54, 0x65, 0x6C, 0x65, 0x67, 0x72,
      0x61, 0x6D, 0x20, 0xCC44, 0xB110, 0xC744, 0x20, 0xC120, 0xD0DD, 0xD558, 0xC138, 0xC694,
      0x2E])
      else if count_where (settings_at (wi_version input)) (networkSettings d1) \<noteq> 1
      then Inl settings_conflict
      else Inr ((), write_audit (settings_audit input actorId auditId now)
             (d1\<lparr>networkSettings := update_where (settings_at (wi_version input)) (saved_settings input)
                   (networkSettings d1)\<rparr>)))"

text \<open>The answer is read after the transaction.\<close>

definition save_settings ::
  "channel_env \<Rightarrow> (jstring \<Rightarrow> time) \<Rightarrow> NetworkSettingsInput \<Rightarrow> id \<Rightarrow> id \<Rightarrow> time \<Rightarrow> db \<Rightarrow>
   (api_error + NetworkView) \<times> db" where
  "save_settings env updatedAt input actorId auditId now d =
     (case transaction (save_settings_tx input actorId auditId now) d of
        (Inl e, d') \<Rightarrow> (Inl e, d') | (Inr _, d') \<Rightarrow> (Inr (get_network env updatedAt d'), d'))"

end
