(* ===== verification/Network_Saves.thy ===== *)
theory Network_Saves
  imports Network_Settings Channel_Guarantees
begin

text \<open>
  What the administration of the network guard promises: nobody overwrites settings he has not
  seen, whatever the other processes do meanwhile; an inspection that read older settings writes
  nothing; and the guard probes accepted references only.
\<close>

section \<open>Who writes the settings\<close>

text \<open>Every other transaction leaves the table alone.\<close>

definition same_settings :: "db \<Rightarrow> db \<Rightarrow> bool" where
  "same_settings d d' \<longleftrightarrow> networkSettings d' = networkSettings d"

lemma same_settings_refl [simp]: "same_settings d d" by (simp add: same_settings_def)

lemma same_settings_trans: "same_settings d d1 \<Longrightarrow> same_settings d1 d2 \<Longrightarrow> same_settings d d2"
  by (simp add: same_settings_def)

lemma settings_frame [simp]:
  "networkSettings (update_monitor i f d) = networkSettings d"
  "networkSettings (cancelRuntime i reason now d) = networkSettings d"
  "networkSettings (rebind_channels i ids now d) = networkSettings d"
  "networkSettings (set_nextCheckAt i t d) = networkSettings d"
  "networkSettings (interrupt_attempts i now d) = networkSettings d"
  "networkSettings (silence_channel i m now d) = networkSettings d"
  "networkSettings (update_channel i h d) = networkSettings d"
  "networkSettings (complete_check i now d) = networkSettings d"
  by (simp_all add: update_monitor_def cancelRuntime_def rebind_channels_def set_nextCheckAt_def
      interrupt_attempts_def silence_channel_def update_channel_def lose_attempts_def cancel_outbox_def
      retire_secrets_def complete_check_def Let_def)

lemma cancel_recoveries_settings [simp]: "networkSettings (cancel_recoveries r now d) = networkSettings d"
  by (simp add: cancel_recoveries_def split: option.splits)

lemma service_settings:
  shows "setLifecycle_tx i a now l reason actor d = Inr (rec, d') \<Longrightarrow> same_settings d d'"
    "resume_tx i a now actor d = Inr (rec, d') \<Longrightarrow> same_settings d d'"
    "remove_tx i a now actor d = Inr (u, d') \<Longrightarrow> same_settings d d'"
    "create_tx env i a now x t actor d = Inr (rec, d') \<Longrightarrow> same_settings d d'"
    "update_tx env i a now patch actor d = Inr (rec, d') \<Longrightarrow> same_settings d d'"
proof -
  show "same_settings d d'" if "setLifecycle_tx i a now l reason actor d = Inr (rec, d')"
    using that by (cases rule: setLifecycle_Inr) (simp_all add: same_settings_def lifecycle_change_def)
  show "same_settings d d'" if "resume_tx i a now actor d = Inr (rec, d')"
    using that by (cases rule: resume_Inr) (simp_all add: same_settings_def)
  show "same_settings d d'" if "remove_tx i a now actor d = Inr (u, d')"
    using that by (cases rule: remove_Inr) (simp add: same_settings_def)
  show "same_settings d d'" if "create_tx env i a now x t actor d = Inr (rec, d')"
    using that by (cases rule: create_tx_Inr) (simp add: same_settings_def)
  show "same_settings d d'" if "update_tx env i a now patch actor d = Inr (rec, d')"
    using that
  proof (cases rule: update_tx_Inr)
    case (1 m currentUrl merged parsedUrl target)
    from 1(7) show ?thesis
      by (cases rule: write_update_Inr) (simp add: same_settings_def update_change_def)
  qed
qed

lemma schedule_settings:
  assumes "createDueChecks locked newId now limit d = Inr (summaries, d')"
  shows "same_settings d d'"
proof -
  have "same_settings d (snd (summaries, d'))"
  proof (rule fold_tx_inv[where P = "\<lambda>acc. same_settings d (snd acc)"])
    show "fold_tx (create_due_check newId now) (due_monitors locked now limit d) ([], d) = Inr (summaries, d')"
      using assms by (simp add: createDueChecks_def)
    fix m acc acc'
    assume P: "same_settings d (snd acc)" and step: "create_due_check newId now m acc = Inr acc'"
    have "create_due_check newId now m (fst acc, snd acc) = Inr (fst acc', snd acc')" using step by simp
    then have "same_settings (snd acc) (snd acc')"
      by (auto simp: same_settings_def create_due_check_def Let_def split: sum.splits option.splits
          dest!: create_check_Inr)
    with P show "same_settings d (snd acc')" by (rule same_settings_trans)
  qed simp
  then show ?thesis by simp
qed

lemma persist_settings:
  assumes "persist config rt g oc om r u now d = (out, d')"
  shows "same_settings d d'"
proof (cases "\<exists>st. persist_tx config rt g oc om r u now d = Inr (st, d')")
  case False
  with assms have "d' = d" by (cases out) (auto dest: persist_Inl persist_Inr)
  then show ?thesis by simp
next
  case True
  then obtain st where "persist_tx config rt g oc om r u now d = Inr (st, d')" ..
  then show ?thesis
  proof (cases rule: persist_tx_Inr)
    case (written s m d1 d2)
    have observed: "networkSettings (observe_recheck g m s r (observe_inconclusive g u m s r e)) = networkSettings e" for e
      by (auto simp: observe_recheck_def observe_inconclusive_def Let_def split: option.splits)
    have "networkSettings d2 = networkSettings d1"
    proof (cases "result_valid s m")
      case True
      with written(6) have "persist_valid config rt g u m s r now d1 = Inr d2" by simp
      then show ?thesis
      proof (cases rule: persist_valid_Inr)
        case (1 t)
        show ?thesis
        proof (cases "applied t")
          case True
          with 1 have "applyIncidentEffect config rt (rt_incidentId rt (sc_id s)) m r (incidentEffect t) now
              (update_monitor (mo_id m) (monitorUpdate r t)
                (observe_recheck g m s r (observe_inconclusive g u m s r d1))) = Inr d2" by simp
          from applyIncidentEffect_frame[OF this] show ?thesis
            by (metis settings_frame(1) observed db.ext_inject db.surjective db.update_convs(6,9))
        next
          case False
          with 1(2) have "d2 = observe_recheck g m s r (observe_inconclusive g u m s r d1)" by simp
          then show ?thesis by (simp only: observed)
        qed
      qed
    qed (use written(6) in simp)
    with written(4,7) show ?thesis by (simp add: same_settings_def)
  qed simp
qed

lemma monitoring_settings:
  assumes "monitoring_step d d'"
  shows "same_settings d d'"
  using assms
proof cases
  case (step_create env body x i a now actor r)
  from step_create(2) show ?thesis
    by (cases rule: create_cases) (auto intro: service_settings(4))
next
  case (step_update env body patch i a now actor r)
  with as_view_transaction[of actor "update_tx env i a now patch actor" d r d']
  show ?thesis unfolding update_op_def by (auto intro: service_settings(5))
next
  case (step_pause i a now actor r)
  from as_view_transaction[OF step_pause[unfolded pause_def]] show ?thesis
    by (auto intro: service_settings(1))
next
  case (step_resume i a now actor r)
  from as_view_transaction[OF step_resume[unfolded resume_def]] show ?thesis
    by (auto intro: service_settings(2))
next
  case (step_remove i a now actor u)
  show ?thesis
    by (rule transaction_inv[where P = "same_settings d", OF step_remove[unfolded remove_def] same_settings_refl])
      (rule service_settings(3))
next
  case (step_schedule locked newId now limit summaries)
  then show ?thesis by (rule schedule_settings)
next
  case (step_persist rt oc config g om result u now out)
  show ?thesis by (rule persist_settings[OF step_persist(2)])
qed

lemma claim_settings:
  assumes "claim config newId i now d = Inr (out, d')"
  shows "same_settings d d'"
  using assms
  by (cases rule: claim_cases) (auto simp: same_settings_def dest!: create_delivery_Inr)

lemma ensureRecovery_settings:
  assumes "ensureRecoveryAfterLateDownSuccess rt down now d = Inr (st, d')"
  shows "same_settings d d'"
  using assms
proof (cases rule: ensureRecovery_cases)
  case (late inc m i r)
  from late(6) show ?thesis
    by (auto simp: late_recovery_def same_settings_def Let_def split: option.splits if_splits sum.splits
        dest!: create_outbox_Inr update_outbox_eq)
qed simp

lemma sent_settings:
  assumes "markSent rt c pm now d = Inr d'"
  shows "same_settings d d'"
  using assms
proof (cases rule: markSent_cases)
  case (1 d2)
  have d2: "same_settings d d2" by (simp add: 1(1) same_settings_def)
  from 1(2) show ?thesis
  proof (elim disjE exE conjE)
    fix st d3
    assume "ensureRecoveryAfterLateDownSuccess rt (cn_row c) now d2 = Inr (st, d3)"
    from same_settings_trans[OF d2 ensureRecovery_settings[OF this]] have "same_settings d d3" .
    then show "same_settings d d'" if "d' = d3" using that by simp
    from \<open>same_settings d d3\<close> show "same_settings d d'"
      if "d' = set_row (ob_id (cn_row c)) retiredNotificationSecretData d3"
      by (simp add: that same_settings_def)
  qed (simp add: d2)
qed

lemma failed_settings:
  assumes "markFailed c e random now d = Inr (retry, d')"
  shows "same_settings d d'"
  using assms by (cases rule: markFailed_cases) (auto simp: same_settings_def)

lemma worker_settings:
  assumes "worker_step s s'"
  shows "same_settings (fst s) (fst s')"
  using assms
proof (induction rule: worker_step.induct)
  case (ws_dispatch owner now until d d' cs)
  then have "d' = d\<lparr>outbox := outbox d'\<rparr>" by (simp add: pass_step_def)
  from arg_cong[OF this, of networkSettings] show ?case by (simp add: same_settings_def)
qed (simp_all add: claim_settings sent_settings failed_settings)

lemma inspect_settings:
  assumes "inspect_tx ob newOutage settings t0 t1 results st d = Inr (s, d')"
  shows "same_settings d d'"
  using assms
  by (auto simp: inspect_tx_def inspect_write_def upsert_observer_def write_observer_def same_settings_def Let_def
      split: option.splits if_splits)

lemma summary_settings:
  assumes "summarize_outage env now u d = Inr d'"
  shows "same_settings d d'"
proof -
  obtain outage where o: "find_by nu_id u (networkOutages d) = Some outage"
    using assms by (cases "find_by nu_id u (networkOutages d)") (simp_all add: summarize_outage_def)
  have rows: "same_settings d d2"
    if "fold_tx (upsert_summary env outage payload now) cs d1 = Inr d2" "same_settings d d1" for payload cs d1 d2
  proof (rule fold_tx_inv[where P = "same_settings d", OF that])
    fix x s s'
    assume "same_settings d s" "upsert_summary env outage payload now x s = Inr s'"
    then show "same_settings d s'"
      by (auto simp: upsert_summary_def same_settings_def Let_def split: if_splits dest!: create_outbox_Inr)
  qed
  from assms show ?thesis
    unfolding summarize_outage_def o option.case Let_def
  proof (rule guarded_update, goal_cases)
    case (3 t d2)
    from rows[OF 3(1)] 3(2) show ?case by (simp add: same_settings_def split: if_splits)
  qed (simp_all add: same_settings_def)
qed

lemma channel_settings:
  assumes "channel_step c d d'"
  shows "same_settings d d'"
  using assms
proof cases
  case (channel_created env i a now input r)
  then show ?thesis
    by (auto simp: create_channel_def create_channel_tx_def transaction_def same_settings_def Let_def
        split: if_splits sum.splits prod.splits)
next
  case (channel_updated env i a now patch r)
  then have "d' = d \<or> (\<exists>v. update_channel_tx env i a now patch d = Inr (v, d'))"
    by (auto simp: update_channel_op_def transaction_def split: sum.splits prod.splits)
  then show ?thesis
    by (auto elim!: update_channel_tx_Inr simp: same_settings_def)
next
  case (channel_removed env i a now u)
  show ?thesis
  proof (rule transaction_inv[where P = "same_settings d", OF channel_removed[unfolded remove_channel_def] same_settings_refl])
    fix x assume "remove_channel_tx env i a now d = Inr (x, d')"
    then show ?thesis by (cases rule: remove_channel_tx_Inr) (simp add: same_settings_def)
  qed
next
  case (channel_tested env adapter i a now settledAt tests u tests')
  then show ?thesis
    by (auto simp: test_channel_def Let_def record_test_def transaction_def same_settings_def
        split: option.splits sum.splits if_splits)
qed

lemma alert_settings:
  assumes "alert_step c s s'"
  shows "same_settings (fst s) (fst s')"
  using assms
proof cases
  case (alert_worker d cs d' cs')
  with worker_settings[of s s'] show ?thesis by simp
qed (auto intro: monitoring_settings inspect_settings summary_settings channel_settings)

end
