(* ===== verification/Network_Guarantees.thy ===== *)
theory Network_Guarantees
  imports Network_Saves
begin

text \<open>
  The settings of the network guard over time: an administrator replaces only the settings he has
  seen, an inspection that read replaced settings writes nothing, and after a save the guard
  probes the accepted references.
\<close>

section \<open>The row of the settings\<close>

text \<open>The primary key of the table.\<close>

definition settings_ok :: "db \<Rightarrow> bool" where
  "settings_ok d \<longleftrightarrow> distinct (map ns_id (networkSettings d))"

lemma same_settings_view:
  assumes "same_settings d d'"
  shows "settings_row d' = settings_row d" "settings_view d' = settings_view d" "settings_ok d' = settings_ok d"
  using assms by (simp_all add: same_settings_def settings_row_def settings_view_def settings_ok_def)

lemma settings_version_view: "settings_version (settings_row d) = sw_version (settings_view d)"
  by (simp add: settings_version_def settings_view_def split: option.splits)

lemma saved_settings_simps [simp]:
  "ns_id (saved_settings input s) = ns_id s" "ns_version (saved_settings input s) = ns_version s + 1"
  "ns_enabled (saved_settings input s) = wi_enabled input"
  "ns_urls (saved_settings input s) = JArr (map JStr (wi_urls input))"
  "ns_channelIds (saved_settings input s) = JArr (map JStr (wi_channelIds input))"
  by (simp_all add: saved_settings_def)

lemma settings_count:
  assumes "distinct (map ns_id rows)"
  shows "count_where (settings_at v) rows =
    (case find_by ns_id 1 rows of None \<Rightarrow> 0 | Some s \<Rightarrow> of_bool (ns_version s = v))"
  using assms
proof (induction rows)
  case (Cons s rows)
  have "filter (settings_at v) rows = []" if "ns_id s = 1"
    using Cons.prems that by (auto simp: filter_empty_conv settings_at_def image_iff)
  then show ?case
    using Cons
    by (cases "ns_id s = 1") (simp_all add: count_where_def find_by_def settings_at_def[of v s])
qed (simp add: count_where_def find_by_def)

lemma settings_update:
  "find_by ns_id 1 (update_where (settings_at v) (saved_settings input) rows) =
    map_option (\<lambda>s. if ns_version s = v then saved_settings input s else s) (find_by ns_id 1 rows)"
  by (induction rows) (simp_all add: find_by_def settings_at_def)

lemma ensure_settings_view:
  "settings_view (ensure_settings d) = settings_view d" "settings_ok d \<Longrightarrow> settings_ok (ensure_settings d)"
  "\<exists>s. settings_row (ensure_settings d) = Some s" "channels (ensure_settings d) = channels d"
  "auditLogs (ensure_settings d) = auditLogs d"
proof -
  have missing: "ns_id s \<noteq> 1" if "settings_row d = None" "s \<in> set (networkSettings d)" for s
    using that by (auto simp: settings_row_def find_by_def find_None_iff)
  then have row: "settings_row (ensure_settings d) = Some \<lparr>ns_id = 1, ns_enabled = False, ns_urls = JArr [],
      ns_channelIds = JArr [], ns_version = 0\<rparr>" if "settings_row d = None"
    using that by (simp add: ensure_settings_def settings_row_def find_by_def find_end)
  then show "settings_view (ensure_settings d) = settings_view d" "\<exists>s. settings_row (ensure_settings d) = Some s"
    by (cases "settings_row d"; simp add: settings_view_def ensure_settings_def)+
  show "settings_ok d \<Longrightarrow> settings_ok (ensure_settings d)"
    using missing by (auto simp: settings_ok_def ensure_settings_def)
  show "channels (ensure_settings d) = channels d" "auditLogs (ensure_settings d) = auditLogs d"
    by (simp_all add: ensure_settings_def)
qed

definition settings_of :: "NetworkSettingsInput \<Rightarrow> SettingsView" where
  "settings_of input = \<lparr>sw_enabled = wi_enabled input, sw_urls = JArr (map JStr (wi_urls input)),
     sw_channelIds = JArr (map JStr (wi_channelIds input)), sw_version = wi_version input + 1\<rparr>"

text \<open>A save that succeeds found the version of its input.\<close>

lemma save_tx_Inr:
  assumes "save_settings_tx input actor a now d = Inr (u, d')" "settings_ok d"
  obtains "sw_version (settings_view d) = wi_version input" "settings_view d' = settings_of input"
    "settings_ok d'" "auditLogs d' = auditLogs d @ [settings_audit input actor a now]"
    "count_where (\<lambda>c. ch_id c \<in> set (wi_channelIds input) \<and> usable_channel c) (channels d) = length (wi_channelIds input)"
proof -
  let ?d1 = "ensure_settings d"
  let ?rows = "update_where (settings_at (wi_version input)) (saved_settings input) (networkSettings ?d1)"
  from assms(1) have found: "count_where (settings_at (wi_version input)) (networkSettings ?d1) = 1"
    and chosen: "count_where (\<lambda>c. ch_id c \<in> set (wi_channelIds input) \<and> usable_channel c) (channels d) =
        length (wi_channelIds input)"
    and d': "d' = write_audit (settings_audit input actor a now) (?d1\<lparr>networkSettings := ?rows\<rparr>)"
    by (auto simp: save_settings_tx_def Let_def ensure_settings_view(4) split: if_splits)
  from ensure_settings_view(3) obtain s where s: "settings_row ?d1 = Some s" ..
  have v: "ns_version s = wi_version input"
    using found settings_count[of "networkSettings ?d1"] ensure_settings_view(2)[OF assms(2)] s
    by (auto simp: settings_ok_def settings_row_def of_bool_def split: if_splits)
  have "sw_version (settings_view ?d1) = wi_version input" by (simp add: settings_view_def s v)
  moreover have "settings_row d' = Some (saved_settings input s)"
    using settings_update[of "wi_version input" input "networkSettings ?d1"] s v by (simp add: settings_row_def d')
  then have "settings_view d' = settings_of input" by (simp add: settings_view_def settings_of_def v)
  moreover have "settings_ok d'"
    using ensure_settings_view(2)[OF assms(2)] by (simp add: settings_ok_def d' map_update_where_frame)
  ultimately show thesis
    using that chosen by (simp add: ensure_settings_view(1) d' ensure_settings_view(5))
qed

lemma save_Inr:
  assumes "save_settings env updatedAt input actor a now d = (Inr v, d')"
  shows "save_settings_tx input actor a now d = Inr ((), d')" "v = get_network env updatedAt d'"
  using assms by (auto simp: save_settings_def transaction_def split: sum.splits prod.splits)

lemma save_Inl:
  assumes "save_settings env updatedAt input actor a now d = (Inl e, d')"
  shows "d' = d"
  using assms by (auto simp: save_settings_def transaction_def split: sum.splits prod.splits)

section \<open>Saves among other work\<close>

text \<open>One transaction of any process; an administrator may save at any time.\<close>

inductive system_step :: "db \<times> ClaimedNotification list \<Rightarrow> db \<times> ClaimedNotification list \<Rightarrow> bool" where
  system_alert: "alert_step c s s' \<Longrightarrow> system_step s s'"
| system_saved: "save_settings env updatedAt input actor a now d = (r, d') \<Longrightarrow> system_step (d, cs) (d', cs)"

lemma system_step_view:
  assumes "system_step s s'" "settings_ok (fst s)"
  shows "settings_ok (fst s') \<and> (settings_view (fst s') = settings_view (fst s) \<or>
    sw_version (settings_view (fst s')) = sw_version (settings_view (fst s)) + 1)"
  using assms(1)
proof cases
  case (system_alert c)
  from same_settings_view[OF alert_settings[OF this]] assms(2) show ?thesis by simp
next
  case (system_saved env updatedAt input actor a now d r d' cs)
  show ?thesis
  proof (cases r)
    case (Inl e)
    with system_saved(3) have "d' = d" by (metis save_Inl)
    with system_saved(1,2) assms(2) show ?thesis by simp
  next
    case (Inr v)
    with system_saved have "save_settings_tx input actor a now d = Inr ((), d')" by (auto dest: save_Inr)
    moreover have "settings_ok d" using assms(2) system_saved(1) by simp
    ultimately show ?thesis
      by (rule save_tx_Inr) (simp add: system_saved(1,2) settings_of_def)
  qed
qed

lemma system_run_view:
  assumes "system_step\<^sup>*\<^sup>* s s'" "settings_ok (fst s)"
  shows "settings_ok (fst s') \<and> (settings_view (fst s') = settings_view (fst s) \<or>
    sw_version (settings_view (fst s)) < sw_version (settings_view (fst s')))"
  using assms
proof (induction rule: rtranclp_induct)
  case (step y z)
  from step.IH[OF step.prems] system_step_view[OF step.hyps(2)] show ?case by fastforce
qed simp

text \<open>C24. No settings are lost. Whatever the other processes and other administrators do after an
administrator has read the settings, his save either is refused and changes nothing, or the
settings it replaces are still the ones he read; the new ones are then in force under the next
version, the answer shows them, and one audit entry names him.\<close>

theorem settings_never_overwritten_unseen:
  assumes "settings_ok d0" "system_step\<^sup>*\<^sup>* (d0, cs0) (d1, cs1)"
    and "save_settings env updatedAt input actor a now d1 = (r, d2)"
    and "wi_version input = sw_version (settings_view d0)"
  shows "(\<exists>e. r = Inl e \<and> d2 = d1) \<or>
    (\<exists>v. r = Inr v \<and> nv_settings v = settings_view d2 \<and> settings_view d1 = settings_view d0 \<and>
       settings_view d2 = settings_of input \<and>
       auditLogs d2 = auditLogs d1 @ [settings_audit input actor a now])"
proof (cases r)
  case (Inl e)
  with assms(3) save_Inl show ?thesis by metis
next
  case (Inr v)
  from system_run_view[OF assms(2)] assms(1) have run: "settings_ok d1"
    "settings_view d1 = settings_view d0 \<or> sw_version (settings_view d0) < sw_version (settings_view d1)" by simp_all
  have v: "v = get_network env updatedAt d2" and tx: "save_settings_tx input actor a now d1 = Inr ((), d2)"
    using assms(3) Inr save_Inr by metis+
  from tx run(1) show ?thesis
    by (rule save_tx_Inr) (use run(2) assms(4) Inr v in \<open>auto simp: get_network_def\<close>)
qed

text \<open>An inspection of replaced settings writes nothing. If settings were saved after an
inspection read its settings, then whenever its transaction runs, and whatever its probes found,
it reports an unknown state and leaves the database as it is.\<close>

theorem outdated_inspections_write_nothing:
  assumes "settings_ok d0" "system_step\<^sup>*\<^sup>* (d0, cs0) (d1, cs1)"
    and "save_settings env updatedAt input actor a now d1 = (Inr v, d2)"
    and "system_step\<^sup>*\<^sup>* (d2, cs1) (d3, cs3)"
  shows "inspect_tx observerId newOutage (settings_row d0) startedAt checkedAt results status d3 =
    Inr (\<lparr>sn_status = st_unknown, sn_outageId = None, sn_checkedAt = checkedAt\<rparr>, d3)"
proof -
  from system_run_view[OF assms(2)] assms(1) have run: "settings_ok d1"
    "sw_version (settings_view d0) \<le> sw_version (settings_view d1)" by auto
  have tx: "save_settings_tx input actor a now d1 = Inr ((), d2)" using assms(3) save_Inr by metis
  have "settings_ok d2 \<and> sw_version (settings_view d1) < sw_version (settings_view d2)"
    using tx run(1) by (rule save_tx_Inr) (simp add: settings_of_def)
  with system_run_view[OF assms(4)] run(2)
  have "sw_version (settings_view d0) < sw_version (settings_view d3)" by auto
  then show ?thesis by (simp add: inspect_tx_def settings_version_view)
qed

section \<open>What the guard probes\<close>

lemma string_items_texts: "string_items (Some (JArr (map JStr xs))) = xs"
  by (induction xs) simp_all

declare string_items.simps [simp del]

lemma counted_all:
  assumes "distinct (map f xs)" "distinct keys"
    and "count_where (\<lambda>x. f x \<in> set keys \<and> p x) xs = length keys" "k \<in> set keys"
  shows "\<exists>x \<in> set xs. f x = k \<and> p x"
proof -
  let ?ys = "filter (\<lambda>x. f x \<in> set keys \<and> p x) xs"
  have "distinct (map f ?ys)" by (rule distinct_map_filter[OF assms(1)])
  then have "card (f ` set ?ys) = card (set keys)"
    using assms(2,3) distinct_card[of "map f ?ys"] distinct_card[of keys] by (simp add: count_where_def)
  note sizes = this
  have "f ` set ?ys = set keys"
    by (rule card_subset_eq[OF _ _ sizes]) auto
  with assms(4) have "k \<in> f ` set ?ys" by simp
  then show ?thesis by auto
qed

lemma set_size_distinct: "set_size xs = length xs \<longleftrightarrow> distinct xs"
  by (auto simp: set_size_def length_remdups_eq distinct_remdups_id)

text \<open>What the schema lets through.\<close>

definition accepted_reference :: "schema_env \<Rightarrow> jstring \<Rightarrow> bool" where
  "accepted_reference env url \<longleftrightarrow>
     (\<exists>u host. url = url_toString u \<and> web_protocol (u_protocol u) \<and> plain_reference u \<and>
        reference_host (sv_isIP env) host \<and>
        u_hostname u = (if sv_isIP env host = 6 then [91] @ host @ [93] else host))"

lemma referenceUrlSchema_accepts:
  assumes "referenceUrlSchema env v = Some url"
  shows "accepted_reference env url"
proof -
  from assms obtain t u where u: "parseMonitorUrl (sv_new_URL env) (sv_isIP env) t = Inr u"
    "plain_reference u" "reference_host (sv_isIP env) (policy_hostname u)"
    "url = url_toString (reference_url (sv_isIP env) u)"
    by (auto simp: referenceUrlSchema_def bind_eq_Some_conv split: if_splits sum.splits)
  from u(1) have "web_protocol (u_protocol u)"
    by (auto simp: parseMonitorUrl_def split: option.splits if_splits)
  with u show ?thesis
    unfolding accepted_reference_def
    by (intro exI[of _ "reference_url (sv_isIP env) u"] exI[of _ "policy_hostname u"])
      (simp add: reference_url_def plain_reference_def Let_def)
qed

lemma networkSettingsSchema_accepts:
  assumes "networkSettingsSchema env body = Some input"
  shows "\<And>url. url \<in> set (wi_urls input) \<Longrightarrow> accepted_reference env url" "length (wi_urls input) \<le> 5"
    "consistent_settings env input"
proof -
  from assms obtain v where v: "array_field 0 5 (referenceUrlSchema env) v = Some (wi_urls input)"
    and "consistent_settings env input"
    by (auto simp: networkSettingsSchema_def bind_eq_Some_conv required_def Let_def split: if_splits option.splits)
  from v obtain vs where vs: "each_item (referenceUrlSchema env) vs = Some (wi_urls input)" "length vs \<le> 5"
    by (auto simp: array_field_def split: json.splits if_splits)
  show "accepted_reference env url" if "url \<in> set (wi_urls input)" for url
    using each_item_pred[OF vs(1), of "accepted_reference env"] referenceUrlSchema_accepts that by blast
  show "length (wi_urls input) \<le> 5" using each_item_length[OF vs(1)] vs(2) by simp
  show "consistent_settings env input" by fact
qed

lemma others_keep_settings:
  assumes "(\<lambda>s s'. \<exists>c. alert_step c s s')\<^sup>*\<^sup>* s s'"
  shows "same_settings (fst s) (fst s')"
  using assms by (induction rule: rtranclp_induct) (auto intro: same_settings_trans alert_settings)

text \<open>C25. The guard probes accepted references. After a request was saved, and until the next save,
every inspection probes exactly its references when it enables the guard, and none when it
disables it; there are two to five of them then, at different hosts, each an http or https
address without credentials, query and fragment whose host is a public address or a dotted name
that is not local; and every chosen channel was usable when the request was saved.\<close>

theorem guard_probes_accepted_references:
  assumes "networkSettingsSchema senv body = Some input"
    and "settings_ok d" "distinct (map ch_id (channels d))"
    and "save_settings env updatedAt input actor a now d = (Inr v, d1)"
    and "(\<lambda>s s'. \<exists>c. alert_step c s s')\<^sup>*\<^sup>* (d1, cs1) (d2, cs2)"
  shows "inspectFresh observerId probe newOutage startedAt checkedAt d2 d3 =
      (let results = if wi_enabled input then checkReferenceUrls probe startedAt checkedAt (wi_urls input) else []
       in inspect_tx observerId newOutage (settings_row d2) startedAt checkedAt results
            (if wi_enabled input then referenceStatus results else st_disabled) d3) \<and>
    (wi_enabled input \<longrightarrow> 2 \<le> length (wi_urls input)) \<and> length (wi_urls input) \<le> 5 \<and>
    (\<forall>url \<in> set (wi_urls input). accepted_reference senv url) \<and>
    distinct (map (\<lambda>url. map_option u_hostname (sv_new_URL senv url)) (wi_urls input)) \<and>
    (\<forall>i \<in> set (wi_channelIds input). \<exists>c \<in> set (channels d). ch_id c = i \<and> usable_channel c)"
proof -
  note schema = networkSettingsSchema_accepts[OF assms(1)]
  from schema(3) have two: "wi_enabled input \<Longrightarrow> 2 \<le> length (wi_urls input)"
    and hosts: "distinct (map (\<lambda>url. map_option u_hostname (sv_new_URL senv url)) (wi_urls input))"
    and ids: "distinct (wi_channelIds input)"
    using set_size_distinct[of "map (\<lambda>url. map_option u_hostname (sv_new_URL senv url)) (wi_urls input)"]
    by (simp_all add: consistent_settings_def set_size_distinct)
  have view: "settings_view d1 = settings_of input"
    and chosen: "count_where (\<lambda>c. ch_id c \<in> set (wi_channelIds input) \<and> usable_channel c) (channels d) =
        length (wi_channelIds input)"
    using save_tx_Inr[OF save_Inr(1)[OF assms(4)] assms(2)] by blast+
  have "settings_view d2 = settings_of input"
    using same_settings_view(2)[OF others_keep_settings[OF assms(5)]] view by simp
  then have "settings_urls (settings_row d2) = wi_urls input"
    "probing_enabled (settings_row d2) = (wi_enabled input \<and> 2 \<le> length (wi_urls input))"
    by (auto simp: settings_view_def settings_of_def settings_urls_def probing_enabled_def string_items_texts string_items.simps(2)
        split: option.splits)
  with two have "inspectFresh observerId probe newOutage startedAt checkedAt d2 d3 =
      (let results = if wi_enabled input then checkReferenceUrls probe startedAt checkedAt (wi_urls input) else []
       in inspect_tx observerId newOutage (settings_row d2) startedAt checkedAt results
            (if wi_enabled input then referenceStatus results else st_disabled) d3)"
    by (auto simp: inspectFresh_def Let_def)
  with two hosts schema(1,2) counted_all[OF assms(3) ids chosen] show ?thesis by blast
qed

section \<open>Examples\<close>

definition b_url :: Url where "b_url = page_url\<lparr>u_hostname := js ''b.example''\<rparr>"

definition reference_world :: schema_env where
  "reference_world =
     \<lparr>sv_new_URL = (\<lambda>s. if s = js ''https://a.example/'' then Some page_url
                        else if s = js ''https://b.example/'' then Some b_url else None),
      sv_isIP = (\<lambda>_. 0), sv_is_uuid = (\<lambda>_. True)\<rparr>"

definition settings_body :: json where
  "settings_body = JObj
     [(js ''enabled'', JBool True), (js ''version'', JNum 0), (js ''channelIds'', JArr [JStr (js ''t1'')]),
      (js ''urls'', JArr [JStr (js ''https://a.example/''), JStr (js ''https://b.example/'')])]"

definition settings_request :: NetworkSettingsInput where
  "settings_request = \<lparr>wi_enabled = True, wi_urls = [js ''https://a.example/'', js ''https://b.example/''],
     wi_channelIds = [js ''t1''], wi_version = 0\<rparr>"

definition saved_db :: db where
  "saved_db = snd (save_settings channel_world (\<lambda>_. 0) settings_request (js ''u'') (js ''a1'') 5 (outbox_db SENT))"

lemma settings_request_accepted: "networkSettingsSchema reference_world settings_body = Some settings_request"
  by code_simp

lemma settings_request_saved:
  "\<exists>v. save_settings channel_world (\<lambda>_. 0) settings_request (js ''u'') (js ''a1'') 5 (outbox_db SENT) = (Inr v, saved_db)"
proof -
  have "isl (fst (save_settings channel_world (\<lambda>_. 0) settings_request (js ''u'') (js ''a1'') 5 (outbox_db SENT))) = False"
    by code_simp
  then show ?thesis unfolding saved_db_def by (metis isl_def old.sum.exhaust prod.collapse)
qed

lemma outbox_db_settings: "settings_ok (outbox_db st)"
  by (simp add: settings_ok_def outbox_db_def empty_db_def)

theorem settings_never_overwritten_unseen_witness:
  "settings_view saved_db = settings_of settings_request"
proof -
  from settings_request_saved obtain v where v: "save_settings channel_world (\<lambda>_. 0) settings_request (js ''u'') (js ''a1'') 5
      (outbox_db SENT) = (Inr v, saved_db)" ..
  have "wi_version settings_request = sw_version (settings_view (outbox_db SENT))" by code_simp
  from settings_never_overwritten_unseen[OF outbox_db_settings rtranclp.rtrancl_refl v this] show ?thesis by simp
qed

theorem outdated_inspections_write_nothing_witness:
  "inspect_tx (js ''o'') (js ''n'') (settings_row (outbox_db SENT)) 1 9 [] st_offline saved_db =
    Inr (\<lparr>sn_status = st_unknown, sn_outageId = None, sn_checkedAt = 9\<rparr>, saved_db)"
proof -
  from settings_request_saved obtain v where v: "save_settings channel_world (\<lambda>_. 0) settings_request (js ''u'') (js ''a1'') 5
      (outbox_db SENT) = (Inr v, saved_db)" ..
  show ?thesis
    by (rule outdated_inspections_write_nothing[OF outbox_db_settings rtranclp.rtrancl_refl v rtranclp.rtrancl_refl])
qed

theorem guard_probes_accepted_references_witness:
  "\<forall>probe. inspectFresh (js ''o'') probe (js ''n'') 6 9 saved_db saved_db =
     inspect_tx (js ''o'') (js ''n'') (settings_row saved_db) 6 9
       (checkReferenceUrls probe 6 9 [js ''https://a.example/'', js ''https://b.example/''])
       (referenceStatus (checkReferenceUrls probe 6 9 [js ''https://a.example/'', js ''https://b.example/''])) saved_db"
proof -
  from settings_request_saved obtain v where v: "save_settings channel_world (\<lambda>_. 0) settings_request (js ''u'') (js ''a1'') 5
      (outbox_db SENT) = (Inr v, saved_db)" ..
  note probed = guard_probes_accepted_references[OF settings_request_accepted outbox_db_settings outbox_db_channels v
      rtranclp.rtrancl_refl, of "js ''o''" _ "js ''n''" 6 9 saved_db]
  show ?thesis
  proof
    fix probe
    from probed[of probe] show "inspectFresh (js ''o'') probe (js ''n'') 6 9 saved_db saved_db =
        inspect_tx (js ''o'') (js ''n'') (settings_row saved_db) 6 9
          (checkReferenceUrls probe 6 9 [js ''https://a.example/'', js ''https://b.example/''])
          (referenceStatus (checkReferenceUrls probe 6 9 [js ''https://a.example/'', js ''https://b.example/''])) saved_db"
      by (simp add: settings_request_def Let_def)
  qed
qed

end
