(* ===== verification/Dashboard.thy ===== *)
theory Dashboard
  imports Monitor_Queries
begin

text \<open>
  The numbers of the dashboard: the availability of the last ten days shown to everybody
  (\<open>dashboard/public-availability.ts\<close> and the query of \<open>dashboard.controller.ts\<close>), and the
  counts shown to users. The rounding of the runtime's numbers is a parameter; what is used of
  it is that it is monotone and exact on integers. The reads of one request are taken from one
  database.
\<close>

section \<open>Availability of the last ten days\<close>

definition DAY_MS :: int where "DAY_MS = 24 * 60 * 60 * 1000"
definition PUBLIC_AVAILABILITY_WINDOW_DAYS :: nat where "PUBLIC_AVAILABILITY_WINDOW_DAYS = 10"

text \<open>The columns of a row are integers; the numbers up to \<open>2 ^ 53 - 1\<close> are safe.\<close>

record AvailabilityAggregateRow =
  av_bucketIndex :: int
  av_successCount :: int
  av_totalCount :: int

record DailyAvailability =
  da_startedAt :: jstring
  da_availabilityPercent :: "rat option"

record PublicAvailabilityStats =
  ps_windowDays :: nat
  ps_from :: jstring
  ps_to :: jstring
  ps_availabilityPercent :: "rat option"
  ps_daily :: "DailyAvailability list"

definition publicAvailabilityWindow :: "time \<Rightarrow> time \<times> time" where
  "publicAvailabilityWindow now = (now - int PUBLIC_AVAILABILITY_WINDOW_DAYS * DAY_MS, now)"

text \<open>\<open>Math.round\<close> is exact; the quotient, the product and the last division are rounded.\<close>

definition math_round :: "rat \<Rightarrow> int" where "math_round x = \<lfloor>x + 1 / 2\<rfloor>"

definition availabilityPercent :: "(rat \<Rightarrow> rat) \<Rightarrow> int \<Rightarrow> int \<Rightarrow> rat" where
  "availabilityPercent fl successCount totalCount =
     fl (of_int (math_round (fl (fl (of_int successCount / of_int totalCount) * 10000))) / 100)"

definition usable_row :: "AvailabilityAggregateRow \<Rightarrow> bool" where
  "usable_row r \<longleftrightarrow>
     \<not> (av_bucketIndex r < 0 \<or> int PUBLIC_AVAILABILITY_WINDOW_DAYS \<le> av_bucketIndex r \<or>
        \<not> safe_integer (av_successCount r) \<or> \<not> safe_integer (av_totalCount r) \<or>
        av_successCount r < 0 \<or> av_totalCount r \<le> 0 \<or> av_totalCount r < av_successCount r)"

definition aggregate_rows :: "AvailabilityAggregateRow list \<Rightarrow> int \<rightharpoonup> int \<times> int" where
  "aggregate_rows rows =
     fold (\<lambda>r aggregates. if usable_row r
             then aggregates(av_bucketIndex r \<mapsto> (av_successCount r, av_totalCount r)) else aggregates)
       rows Map.empty"

definition summarizePublicAvailability ::
  "(rat \<Rightarrow> rat) \<Rightarrow> AvailabilityAggregateRow list \<Rightarrow> time \<Rightarrow> PublicAvailabilityStats" where
  "summarizePublicAvailability fl rows now =
     (let (start, end') = publicAvailabilityWindow now;
          aggregates = aggregate_rows rows;
          buckets = map int [0..<PUBLIC_AVAILABILITY_WINDOW_DAYS];
          found = List.map_filter aggregates buckets;
          successCount = sum_list (map fst found);
          totalCount = sum_list (map snd found)
      in \<lparr>ps_windowDays = PUBLIC_AVAILABILITY_WINDOW_DAYS, ps_from = toISOString start, ps_to = toISOString end',
          ps_availabilityPercent =
            (if 0 < totalCount then Some (availabilityPercent fl successCount totalCount) else None),
          ps_daily = map (\<lambda>b. \<lparr>da_startedAt = toISOString (start + b * DAY_MS),
             da_availabilityPercent = map_option (\<lambda>(s, t). availabilityPercent fl s t) (aggregates b)\<rparr>) buckets\<rparr>)"

section \<open>The query\<close>

definition counted_result :: "time \<Rightarrow> time \<Rightarrow> CheckResult \<Rightarrow> bool" where
  "counted_result start end' r \<longleftrightarrow>
     start \<le> cr_createdAt r \<and> start \<le> cr_finishedAt r \<and> cr_finishedAt r < end' \<and>
     cr_source r = CheckSource.SCHEDULED \<and> (cr_outcome r = CheckOutcome.SUCCESS \<or> cr_outcome r = TARGET_FAILURE)"

text \<open>\<open>TIMESTAMPDIFF(SECOND, \<dots>)\<close> drops the part of a second.\<close>

definition result_bucket :: "time \<Rightarrow> CheckResult \<Rightarrow> int" where
  "result_bucket start r = ((cr_finishedAt r - start) div 1000) div 86400"

definition availability_rows :: "db \<Rightarrow> time \<Rightarrow> time \<Rightarrow> AvailabilityAggregateRow list" where
  "availability_rows d start end' =
     (let results = filter (counted_result start end') (checkResults d);
          of_bucket = (\<lambda>b. filter (\<lambda>r. result_bucket start r = b) results)
      in map (\<lambda>b. \<lparr>av_bucketIndex = b,
                   av_successCount = int (count_where (\<lambda>r. cr_outcome r = CheckOutcome.SUCCESS) (of_bucket b)),
                   av_totalCount = int (length (of_bucket b))\<rparr>)
           (sort (remdups (map (result_bucket start) results))))"

definition publicStats :: "(rat \<Rightarrow> rat) \<Rightarrow> time \<Rightarrow> db \<Rightarrow> PublicAvailabilityStats" where
  "publicStats fl now d =
     (case publicAvailabilityWindow now of
        (start, end') \<Rightarrow> summarizePublicAvailability fl (availability_rows d start end') now)"

section \<open>The counts\<close>

record DashboardSummary =
  ds_total :: nat
  ds_up :: nat
  ds_suspect :: nat
  ds_down :: nat
  ds_paused :: nat
  ds_pending :: nat
  ds_recovering :: nat
  ds_stale :: nat
  ds_warning :: nat

definition active_monitor :: "Monitor \<Rightarrow> bool" where
  "active_monitor m \<longleftrightarrow> lifecycleStatus (mo_state m) = ACTIVE \<and> mo_deletedAt m = None"

definition candidate_stale :: "time \<Rightarrow> Monitor \<Rightarrow> bool" where
  "candidate_stale now m =
     (case mo_nextCheckAt m of None \<Rightarrow> True
      | Some t \<Rightarrow> t + max (mo_intervalSec m * 2000) (5 * 60000) < now)"

definition warning_state :: "MonitorHealth \<Rightarrow> bool" where
  "warning_state h \<longleftrightarrow> h = SUSPECT \<or> h = RECOVERING \<or> h = MonitorHealth.PENDING"

definition dashboard_summary :: "time \<Rightarrow> db \<Rightarrow> DashboardSummary" where
  "dashboard_summary now d =
     (let counted = (\<lambda>p. count_where p (monitors d));
          in_health = (\<lambda>h. counted (\<lambda>m. active_monitor m \<and> healthState (mo_state m) = h));
          candidates = filter active_monitor (monitors d)
      in \<lparr>ds_total = counted (\<lambda>m. mo_deletedAt m = None), ds_up = in_health UP, ds_suspect = in_health SUSPECT,
          ds_down = in_health MonitorHealth.DOWN,
          ds_paused = counted (\<lambda>m. lifecycleStatus (mo_state m) = MonitorLifecycle.PAUSED \<and> mo_deletedAt m = None),
          ds_pending = in_health MonitorHealth.PENDING, ds_recovering = in_health RECOVERING,
          ds_stale = count_where (candidate_stale now) candidates,
          ds_warning = count_where (\<lambda>m. warning_state (healthState (mo_state m)) \<or> candidate_stale now m) candidates\<rparr>)"

section \<open>Every check in its day\<close>

text \<open>The day of a check, and the availability over a group of checks.\<close>

definition checks_of_day :: "db \<Rightarrow> time \<Rightarrow> nat \<Rightarrow> CheckResult list" where
  "checks_of_day d now i =
     (let start = fst (publicAvailabilityWindow now) in
      filter (\<lambda>r. counted_result start now r \<and> start + int i * DAY_MS \<le> cr_finishedAt r \<and>
                  cr_finishedAt r < start + (int i + 1) * DAY_MS) (checkResults d))"

definition availability :: "(rat \<Rightarrow> rat) \<Rightarrow> CheckResult list \<Rightarrow> rat option" where
  "availability fl rs =
     (if rs = [] then None
      else Some (availabilityPercent fl (int (count_where (\<lambda>r. cr_outcome r = CheckOutcome.SUCCESS) rs)) (int (length rs))))"

lemma bucket_day:
  assumes "start \<le> cr_finishedAt r"
  shows "result_bucket start r = int i \<longleftrightarrow>
    start + int i * DAY_MS \<le> cr_finishedAt r \<and> cr_finishedAt r < start + (int i + 1) * DAY_MS"
proof -
  have "result_bucket start r = (cr_finishedAt r - start) div DAY_MS"
    by (simp add: result_bucket_def DAY_MS_def flip: zdiv_zmult2_eq)
  moreover have "x div k = y \<longleftrightarrow> y * k \<le> x \<and> x < (y + 1) * k" if "0 < k" for x y k :: int
  proof
    assume "x div k = y"
    with div_mult_mod_eq[of x k] pos_mod_bound[OF that, of x] pos_mod_sign[OF that, of x]
    show "y * k \<le> x \<and> x < (y + 1) * k" by (simp add: algebra_simps)
  next
    assume "y * k \<le> x \<and> x < (y + 1) * k"
    then show "x div k = y" by (intro int_div_pos_eq[where r = "x - y * k"]) (simp_all add: algebra_simps)
  qed
  ultimately show ?thesis by (simp add: DAY_MS_def algebra_simps)
qed

text \<open>A row of the query is the count of its day, and every counted check has one of the ten days.\<close>

lemma bucket_range:
  assumes "counted_result (now - int PUBLIC_AVAILABILITY_WINDOW_DAYS * DAY_MS) now r"
  shows "0 \<le> result_bucket (now - int PUBLIC_AVAILABILITY_WINDOW_DAYS * DAY_MS) r"
    "result_bucket (now - int PUBLIC_AVAILABILITY_WINDOW_DAYS * DAY_MS) r < int PUBLIC_AVAILABILITY_WINDOW_DAYS"
proof -
  let ?x = "cr_finishedAt r - (now - int PUBLIC_AVAILABILITY_WINDOW_DAYS * DAY_MS)"
  have b: "result_bucket (now - int PUBLIC_AVAILABILITY_WINDOW_DAYS * DAY_MS) r = ?x div DAY_MS"
    by (simp add: result_bucket_def DAY_MS_def flip: zdiv_zmult2_eq)
  from assms have x: "0 \<le> ?x" "?x < int PUBLIC_AVAILABILITY_WINDOW_DAYS * DAY_MS"
    by (simp_all add: counted_result_def)
  show "0 \<le> result_bucket (now - int PUBLIC_AVAILABILITY_WINDOW_DAYS * DAY_MS) r"
    unfolding b by (rule pos_imp_zdiv_nonneg_iff[THEN iffD2, OF _ x(1)]) (simp add: DAY_MS_def)
  show "result_bucket (now - int PUBLIC_AVAILABILITY_WINDOW_DAYS * DAY_MS) r < int PUBLIC_AVAILABILITY_WINDOW_DAYS"
    unfolding b using x(2) by (simp add: PUBLIC_AVAILABILITY_WINDOW_DAYS_def DAY_MS_def)
qed

text \<open>Rows of different buckets, all usable, are looked up by their bucket.\<close>

lemma aggregate_fold:
  assumes "distinct (map av_bucketIndex rows)" "\<And>r. r \<in> set rows \<Longrightarrow> usable_row r"
  shows "fold (\<lambda>r aggregates. if usable_row r
      then aggregates(av_bucketIndex r \<mapsto> (av_successCount r, av_totalCount r)) else aggregates) rows m =
    m ++ map_of (map (\<lambda>r. (av_bucketIndex r, (av_successCount r, av_totalCount r))) rows)"
  using assms
proof (induction rows arbitrary: m)
  case (Cons r rows)
  let ?entry = "\<lambda>r. (av_bucketIndex r, (av_successCount r, av_totalCount r))"
  have fresh: "av_bucketIndex r \<notin> dom (map_of (map ?entry rows))"
    using Cons.prems(1) by (auto simp: dom_map_of_conv_image_fst)
  have "m(av_bucketIndex r \<mapsto> (av_successCount r, av_totalCount r)) ++ map_of (map ?entry rows) =
      m ++ map_of (map ?entry (r # rows))"
    by (simp only: map_add_upd_left[OF fresh] list.map map_of.simps(2) map_add_upd fst_conv snd_conv)
  moreover have "usable_row r" by (simp add: Cons.prems(2))
  ultimately show ?case using Cons by (simp only: fold.simps comp_apply if_True list.set distinct.simps list.map insert_iff simp_thms)
qed simp

lemma map_of_keyed: "map_of (map (\<lambda>k. (k, f k)) ks) k = (if k \<in> set ks then Some (f k) else None)"
  by (induction ks) auto

lemma sum_indicator:
  fixes bs :: "'b list"
  assumes "distinct bs" "k \<in> set bs"
  shows "(\<Sum>b\<leftarrow>bs. of_bool (k = b)) = (1 :: int)"
proof -
  have "(\<Sum>b\<leftarrow>bs. of_bool (k = b)) = (\<Sum>b\<in>set bs. of_bool (k = b) :: int)"
    using assms(1) by (simp add: sum_list_distinct_conv_sum_set)
  with assms(2) show ?thesis by simp
qed

lemma count_partition:
  fixes f :: "'a \<Rightarrow> 'b"
  assumes "distinct bs" "\<And>x. x \<in> set xs \<Longrightarrow> f x \<in> set bs"
  shows "(\<Sum>b\<leftarrow>bs. int (length (filter (\<lambda>x. f x = b) xs))) = int (length xs)"
  using assms(2)
proof (induction xs)
  case (Cons x xs)
  have "(\<Sum>b\<leftarrow>bs. int (length (filter (\<lambda>x. f x = b) (x # xs)))) =
      (\<Sum>b\<leftarrow>bs. of_bool (f x = b) + int (length (filter (\<lambda>x. f x = b) xs)))"
    by (rule arg_cong[where f = sum_list], rule map_cong) simp_all
  also have "\<dots> = 1 + int (length xs)"
    using Cons sum_indicator[OF assms(1), of "f x"] by (simp add: sum_list_addf)
  finally show ?case by simp
qed (simp add: sum_list_0)

lemma int_sum_list: "int (sum_list xs) = sum_list (map int xs)"
  by (induction xs) simp_all

lemma found_sum:
  "(\<Sum>p\<leftarrow>List.map_filter m bs. g p) = (\<Sum>b\<leftarrow>bs. case m b of None \<Rightarrow> (0 :: int) | Some p \<Rightarrow> g p)"
  by (induction bs) (simp_all add: map_filter_simps split: option.splits)

abbreviation is_success :: "CheckResult \<Rightarrow> bool" where
  "is_success r \<equiv> cr_outcome r = CheckOutcome.SUCCESS"

lemma availability_lookup:
  assumes "int (length (checkResults d)) < 2 ^ 53"
    and "start = now - int PUBLIC_AVAILABILITY_WINDOW_DAYS * DAY_MS"
    and "results = filter (counted_result start now) (checkResults d)"
  shows "aggregate_rows (availability_rows d start now) b =
    (let rs = filter (\<lambda>r. result_bucket start r = b) results
     in if rs = [] then None else Some (int (count_where is_success rs), int (length rs)))"
proof -
  let ?of = "\<lambda>b. filter (\<lambda>r. result_bucket start r = b) results"
  let ?keys = "sort (remdups (map (result_bucket start) results))"
  let ?row = "\<lambda>b. \<lparr>av_bucketIndex = b, av_successCount = int (count_where is_success (?of b)),
      av_totalCount = int (length (?of b))\<rparr>"
  have rows: "availability_rows d start now = map ?row ?keys"
    by (simp add: availability_rows_def assms(3) Let_def)
  have len: "int (length (?of k)) < 2 ^ 53" "count_where is_success (?of k) \<le> length (?of k)" for k
  proof -
    have "length (?of k) \<le> length (checkResults d)"
      unfolding assms(3) by (rule order_trans[OF length_filter_le length_filter_le])
    with assms(1) show "int (length (?of k)) < 2 ^ 53" by simp
    show "count_where is_success (?of k) \<le> length (?of k)"
      unfolding count_where_def by (rule length_filter_le)
  qed
  have usable: "usable_row r" if "r \<in> set (map ?row ?keys)" for r
  proof -
    from that obtain x where x: "x \<in> set results" and r: "r = ?row (result_bucket start x)" by auto
    from x have "counted_result start now x" by (simp add: assms(3))
    with bucket_range[of now x] assms(2) have "0 \<le> result_bucket start x"
      "result_bucket start x < int PUBLIC_AVAILABILITY_WINDOW_DAYS" by simp_all
    moreover from x have "?of (result_bucket start x) \<noteq> []" by (auto simp: filter_empty_conv)
    ultimately show ?thesis
      using len[of "result_bucket start x"] by (simp add: r usable_row_def safe_integer_def)
  qed
  have "distinct (map av_bucketIndex (map ?row ?keys))" by (simp add: comp_def)
  from aggregate_fold[OF this usable]
  have "aggregate_rows (map ?row ?keys) = map_of (map (\<lambda>b. (b, (int (count_where is_success (?of b)), int (length (?of b))))) ?keys)"
    by (simp add: aggregate_rows_def comp_def)
  then have "aggregate_rows (availability_rows d start now) b =
      (if b \<in> set ?keys then Some (int (count_where is_success (?of b)), int (length (?of b))) else None)"
    unfolding rows by (simp only: map_of_keyed)
  moreover have "b \<in> set ?keys \<longleftrightarrow> ?of b \<noteq> []" by (auto simp: filter_empty_conv)
  ultimately show ?thesis by (simp add: Let_def)
qed

text \<open>C26. Every check counts once. With less than 9007199254740992 stored results, the shown availability of a
day is that of exactly the scheduled conclusive checks that finished on it, the shown total is
that of exactly those of the last ten days, a day or window without such a check shows none, and
each of the checks belongs to exactly one of the ten days.\<close>

theorem public_stats_count_each_check_once:
  assumes "int (length (checkResults d)) < 2 ^ 53"
  shows "publicStats fl now d =
      \<lparr>ps_windowDays = 10, ps_from = toISOString (now - 10 * DAY_MS), ps_to = toISOString now,
       ps_availabilityPercent =
         availability fl (filter (counted_result (now - 10 * DAY_MS) now) (checkResults d)),
       ps_daily = map (\<lambda>i. \<lparr>da_startedAt = toISOString (now - 10 * DAY_MS + int i * DAY_MS),
         da_availabilityPercent = availability fl (checks_of_day d now i)\<rparr>) [0..<10]\<rparr> \<and>
    (\<Sum>i\<leftarrow>[0..<10]. length (checks_of_day d now i)) =
      length (filter (counted_result (now - 10 * DAY_MS) now) (checkResults d))"
proof -
  define start where "start = now - int PUBLIC_AVAILABILITY_WINDOW_DAYS * DAY_MS"
  define results where "results = filter (counted_result start now) (checkResults d)"
  define agg where "agg = aggregate_rows (availability_rows d start now)"
  let ?buckets = "map int [0..<PUBLIC_AVAILABILITY_WINDOW_DAYS]"
  have start: "now - 10 * DAY_MS = start" by (simp add: start_def PUBLIC_AVAILABILITY_WINDOW_DAYS_def)
  have agg: "agg b = (let rs = filter (\<lambda>r. result_bucket start r = b) results
      in if rs = [] then None else Some (int (count_where is_success rs), int (length rs)))" for b
    unfolding agg_def by (rule availability_lookup[OF assms start_def results_def])
  have day: "checks_of_day d now i = filter (\<lambda>r. result_bucket start r = int i) results" for i
    unfolding checks_of_day_def results_def filter_filter Let_def publicAvailabilityWindow_def fst_conv start_def[symmetric]
    by (rule filter_cong) (auto simp: bucket_day counted_result_def)
  have range: "result_bucket start r \<in> set ?buckets" if "r \<in> set results" for r
  proof -
    have "counted_result start now r" using that by (simp add: results_def)
    with bucket_range[of now r] show ?thesis
      unfolding start_def[symmetric] by (simp add: image_iff zero_le_imp_eq_int Bex_def) (metis of_nat_less_iff zero_le_imp_eq_int)
  qed
  have keys: "distinct ?buckets" by (simp add: distinct_map inj_on_def)
  have total: "(\<Sum>p\<leftarrow>List.map_filter agg ?buckets. snd p) = int (length results)"
  proof -
    have "(case agg b of None \<Rightarrow> 0 | Some p \<Rightarrow> snd p) = int (length (filter (\<lambda>r. result_bucket start r = b) results))" for b
      by (simp add: agg Let_def)
    with count_partition[OF keys range] show ?thesis by (simp only: found_sum)
  qed
  have "(\<Sum>p\<leftarrow>List.map_filter agg ?buckets. fst p) = int (length (filter is_success results))"
  proof -
    have "(\<Sum>b\<leftarrow>?buckets. int (length (filter (\<lambda>r. result_bucket start r = b) (filter is_success results)))) =
        int (length (filter is_success results))"
      by (rule count_partition[OF keys], rule range) simp
    moreover have "(case agg b of None \<Rightarrow> 0 | Some p \<Rightarrow> fst p) =
        int (length (filter (\<lambda>r. result_bucket start r = b) (filter is_success results)))" for b
    proof -
      have "filter (\<lambda>r. result_bucket start r = b) (filter is_success results) =
          filter is_success (filter (\<lambda>r. result_bucket start r = b) results)"
        by (simp add: conj_commute)
      then show ?thesis by (simp only: agg Let_def count_where_def split: if_split) simp
    qed
    ultimately show ?thesis by (simp only: found_sum)
  qed
  note sums = total[unfolded PUBLIC_AVAILABILITY_WINDOW_DAYS_def] this[unfolded PUBLIC_AVAILABILITY_WINDOW_DAYS_def]
  have window: "publicAvailabilityWindow now = (start, now)"
    by (simp add: publicAvailabilityWindow_def start_def)
  have percent: "map_option (\<lambda>(s, t). availabilityPercent fl s t) (agg (int i)) = availability fl (checks_of_day d now i)" for i
    by (simp add: agg day availability_def Let_def)
  have stats: "publicStats fl now d =
      \<lparr>ps_windowDays = 10, ps_from = toISOString start, ps_to = toISOString now,
       ps_availabilityPercent = availability fl results,
       ps_daily = map (\<lambda>i. \<lparr>da_startedAt = toISOString (start + int i * DAY_MS),
         da_availabilityPercent = availability fl (checks_of_day d now i)\<rparr>) [0..<10]\<rparr>"
    by (simp add: publicStats_def summarizePublicAvailability_def window Let_def agg_def[symmetric] sums percent
        availability_def count_where_def PUBLIC_AVAILABILITY_WINDOW_DAYS_def)
  have "int (\<Sum>i\<leftarrow>[0..<PUBLIC_AVAILABILITY_WINDOW_DAYS]. length (checks_of_day d now i)) = int (length results)"
    using count_partition[OF keys range] by (simp add: day comp_def int_sum_list)
  with stats show ?thesis
    unfolding start results_def PUBLIC_AVAILABILITY_WINDOW_DAYS_def by (simp only: of_nat_eq_iff simp_thms)
qed

section \<open>Percentages\<close>

text \<open>What is known of the rounding to the nearest representable number.\<close>

definition rounds :: "(rat \<Rightarrow> rat) \<Rightarrow> bool" where
  "rounds fl \<longleftrightarrow> mono fl \<and> (\<forall>n. 0 \<le> n \<and> n \<le> 10000 \<longrightarrow> fl (of_int n) = of_int n)"

lemma rounds_between:
  assumes "rounds fl" "0 \<le> n" "n \<le> 10000" "0 \<le> x" "x \<le> of_int n"
  shows "0 \<le> fl x" "fl x \<le> of_int n"
proof -
  have fix_n: "fl (of_int n) = of_int n" and zero: "fl 0 = 0"
    using assms(1-3) unfolding rounds_def by (blast, metis of_int_0 order_refl zero_le_numeral)
  from assms(1) have mono: "mono fl" by (simp add: rounds_def)
  from monoD[OF mono assms(4)] zero show "0 \<le> fl x" by simp
  from monoD[OF mono assms(5)] fix_n show "fl x \<le> of_int n" by simp
qed

lemma math_round_mono: "x \<le> y \<Longrightarrow> math_round x \<le> math_round y"
  unfolding math_round_def by (intro floor_mono) simp

lemma math_round_of_int [simp]: "math_round (of_int n) = n"
proof -
  have "of_int n + 1 / 2 = (of_int n :: rat) + 1 / 2" ..
  have "\<lfloor>(of_int n :: rat) + 1 / 2\<rfloor> = n" by (rule floor_unique) simp_all
  then show ?thesis by (simp add: math_round_def)
qed

lemma percent_mono:
  assumes "rounds fl" "s \<le> s'" "0 < t"
  shows "availabilityPercent fl s t \<le> availabilityPercent fl s' t"
proof -
  from assms(1) have mono: "mono fl" by (simp add: rounds_def)
  have "(of_int s :: rat) / of_int t \<le> of_int s' / of_int t"
    using assms(2,3) by (simp add: divide_right_mono)
  then have "fl (of_int s / of_int t) * 10000 \<le> fl (of_int s' / of_int t) * 10000"
    using monoD[OF mono] by simp
  then have "math_round (fl (fl (of_int s / of_int t) * 10000)) \<le> math_round (fl (fl (of_int s' / of_int t) * 10000))"
    by (intro math_round_mono monoD[OF mono])
  then show ?thesis
    unfolding availabilityPercent_def by (intro monoD[OF mono] divide_right_mono) simp_all
qed

lemma percent_ends:
  assumes "rounds fl" "0 < t"
  shows "availabilityPercent fl 0 t = 0" "availabilityPercent fl t t = 100"
proof -
  have fix_n: "fl (of_int n) = of_int n" if "0 \<le> n" "n \<le> 10000" for n
    using assms(1) that by (simp add: rounds_def)
  from fix_n[of 0] fix_n[of 1] fix_n[of 100] fix_n[of 10000]
  have ends: "fl 0 = 0" "fl 1 = 1" "fl 100 = 100" "fl 10000 = 10000" by simp_all
  from ends math_round_of_int[of 0] math_round_of_int[of 10000]
  show "availabilityPercent fl 0 t = 0" "availabilityPercent fl t t = 100"
    using assms(2) by (simp_all add: availabilityPercent_def)
qed

lemma usable_percent:
  assumes "rounds fl" "0 \<le> s" "s \<le> t" "0 < t"
  shows "0 \<le> availabilityPercent fl s t \<and> availabilityPercent fl s t \<le> 100"
  using percent_mono[OF assms(1,2,4)] percent_mono[OF assms(1,3,4)] percent_ends[OF assms(1,4)] by simp

lemma aggregate_usable:
  assumes "aggregate_rows rows b = Some (s, t)"
  shows "0 \<le> s \<and> s \<le> t \<and> 0 < t"
proof -
  have "fold (\<lambda>r aggregates. if usable_row r
      then aggregates(av_bucketIndex r \<mapsto> (av_successCount r, av_totalCount r)) else aggregates) rows m b = Some (s, t) \<Longrightarrow>
    (\<And>b s t. m b = Some (s, t) \<Longrightarrow> 0 \<le> s \<and> s \<le> t \<and> 0 < t) \<Longrightarrow> 0 \<le> s \<and> s \<le> t \<and> 0 < t" for m
  proof (induction rows arbitrary: m)
    case (Cons r rows)
    show ?case
    proof (rule Cons.IH[of "if usable_row r then m(av_bucketIndex r \<mapsto> (av_successCount r, av_totalCount r)) else m"])
      fix b' s' t'
      assume "(if usable_row r then m(av_bucketIndex r \<mapsto> (av_successCount r, av_totalCount r)) else m) b' = Some (s', t')"
      then show "0 \<le> s' \<and> s' \<le> t' \<and> 0 < t'"
        using Cons.prems(2)[of b' s' t'] by (auto simp: usable_row_def split: if_splits)
    qed (use Cons.prems(1) in simp)
  qed auto
  from this[of Map.empty] assms show ?thesis by (simp add: aggregate_rows_def)
qed

text \<open>Percentages are percentages. Whatever rows the query returns, every availability shown, of a
day or of the window, lies between 0 and 100; it is 0 when no check of the group succeeded and 100
when all did, and more successes never lower it. Of the rounding of the runtime only its
monotonicity and its exactness on small integers is used.\<close>

theorem availability_is_percentage:
  assumes "rounds fl"
  shows "(\<forall>p. Some p \<in> insert (ps_availabilityPercent (summarizePublicAvailability fl rows now))
        (da_availabilityPercent ` set (ps_daily (summarizePublicAvailability fl rows now))) \<longrightarrow> 0 \<le> p \<and> p \<le> 100) \<and>
    (\<forall>t. 0 < t \<longrightarrow> availabilityPercent fl 0 t = 0 \<and> availabilityPercent fl t t = 100) \<and>
    (\<forall>s s' t. s \<le> s' \<longrightarrow> 0 < t \<longrightarrow> availabilityPercent fl s t \<le> availabilityPercent fl s' t)"
proof -
  let ?agg = "aggregate_rows rows"
  let ?found = "List.map_filter ?agg (map int [0..<PUBLIC_AVAILABILITY_WINDOW_DAYS])"
  have found: "0 \<le> fst q \<and> fst q \<le> snd q" if "q \<in> set ?found" for q
    using that aggregate_usable[of rows _ "fst q" "snd q"] by (auto simp: List.map_filter_def)
  have sums: "0 \<le> sum_list (map fst ?found)" "sum_list (map fst ?found) \<le> sum_list (map snd ?found)"
    using found by (auto intro!: sum_list_nonneg sum_list_mono)
  have day: "0 \<le> p \<and> p \<le> 100" if "?agg b = Some (s, t)" "availabilityPercent fl s t = p" for b s t p
    using aggregate_usable[OF that(1)] usable_percent[OF assms, of s t] that(2) by simp
  have window: "ps_availabilityPercent (summarizePublicAvailability fl rows now) =
      (if 0 < sum_list (map snd ?found) then Some (availabilityPercent fl (sum_list (map fst ?found))
         (sum_list (map snd ?found))) else None)"
    "da_availabilityPercent ` set (ps_daily (summarizePublicAvailability fl rows now)) =
      (\<lambda>b. map_option (\<lambda>(s, t). availabilityPercent fl s t) (?agg b)) ` set (map int [0..<PUBLIC_AVAILABILITY_WINDOW_DAYS])"
    by (simp_all add: summarizePublicAvailability_def Let_def publicAvailabilityWindow_def image_image)
  have "0 \<le> p \<and> p \<le> 100" if "Some p \<in> insert (ps_availabilityPercent (summarizePublicAvailability fl rows now))
        (da_availabilityPercent ` set (ps_daily (summarizePublicAvailability fl rows now)))" for p
    using that unfolding window
    by (auto split: if_splits simp: usable_percent[OF assms sums] day dest!: sym[where s = "Some p"])
  with percent_mono[OF assms] percent_ends[OF assms] show ?thesis by blast
qed

section \<open>Counts and lists\<close>

text \<open>C27. The dashboard agrees with the lists. In every consistent database each monitor that is not
deleted is counted under exactly one of paused, up, suspect, down, pending and recovering; each
count, the stale ones included, is the number of rows of the list under the filter of that name;
and a warning is shown for the active monitors that are suspect, recovering, pending or stale.\<close>

theorem dashboard_agrees_with_lists:
  assumes "service_inv d" "s = dashboard_summary now d"
    and "shown = (\<lambda>st. length (listed d (matches contains_text st None now)))"
  shows "ds_total s = shown None \<and> ds_up s = shown (Some List_UP) \<and> ds_suspect s = shown (Some List_SUSPECT) \<and>
    ds_down s = shown (Some List_DOWN) \<and> ds_paused s = shown (Some List_PAUSED) \<and>
    ds_pending s = shown (Some List_PENDING) \<and> ds_recovering s = shown (Some List_RECOVERING) \<and>
    ds_stale s = shown (Some List_STALE) \<and>
    ds_total s = ds_paused s + ds_up s + ds_suspect s + ds_down s + ds_pending s + ds_recovering s \<and>
    ds_warning s = ds_suspect s + ds_recovering s + ds_pending s +
      length (listed d (\<lambda>m. matches contains_text (Some List_STALE) None now m \<and>
        (active_with UP m \<or> active_with MonitorHealth.DOWN m)))"
proof -
  have rows: "length (listed d p) = length (filter p (monitors d))" for p
    by (simp add: listed_def newest_first_def)
  have ok: "monitor_ok m" if "m \<in> set (monitors d)" for m using that by (rule service_invD(2)[OF assms(1)])
  have alive: "mo_deletedAt m = None \<longleftrightarrow> lifecycleStatus (mo_state m) \<noteq> MonitorLifecycle.DELETED"
    and slot: "lifecycleStatus (mo_state m) = ACTIVE \<longleftrightarrow> mo_nextCheckAt m \<noteq> None" if "m \<in> set (monitors d)" for m
    using ok[OF that] by (auto simp: monitor_ok_def)
  have late: "candidate_stale now m = overdue now m" if "m \<in> set (monitors d)" "active_monitor m" for m
    using slot[OF that(1)] that(2)
    by (auto simp: candidate_stale_def overdue_def active_monitor_def mult.commute[of _ 2000] split: option.splits)
  have split6: "length (filter (\<lambda>m. mo_deletedAt m = None) ms) =
      length (filter (\<lambda>m. lifecycleStatus (mo_state m) = MonitorLifecycle.PAUSED \<and> mo_deletedAt m = None) ms) +
      length (filter (\<lambda>m. active_monitor m \<and> healthState (mo_state m) = UP) ms) +
      length (filter (\<lambda>m. active_monitor m \<and> healthState (mo_state m) = SUSPECT) ms) +
      length (filter (\<lambda>m. active_monitor m \<and> healthState (mo_state m) = MonitorHealth.DOWN) ms) +
      length (filter (\<lambda>m. active_monitor m \<and> healthState (mo_state m) = MonitorHealth.PENDING) ms) +
      length (filter (\<lambda>m. active_monitor m \<and> healthState (mo_state m) = RECOVERING) ms)"
    if "set ms \<subseteq> set (monitors d)" for ms
    using that
  proof (induction ms)
    case (Cons m ms)
    then have "mo_deletedAt m = None \<longleftrightarrow> lifecycleStatus (mo_state m) \<noteq> MonitorLifecycle.DELETED"
      by (intro alive) simp
    with Cons show ?case
      by (cases "lifecycleStatus (mo_state m)"; cases "healthState (mo_state m)") (simp_all add: active_monitor_def)
  qed simp
  have warn: "length (filter (\<lambda>m. active_monitor m \<and> (warning_state (healthState (mo_state m)) \<or> candidate_stale now m)) ms) =
      length (filter (\<lambda>m. active_monitor m \<and> healthState (mo_state m) = SUSPECT) ms) +
      length (filter (\<lambda>m. active_monitor m \<and> healthState (mo_state m) = RECOVERING) ms) +
      length (filter (\<lambda>m. active_monitor m \<and> healthState (mo_state m) = MonitorHealth.PENDING) ms) +
      length (filter (\<lambda>m. active_monitor m \<and> candidate_stale now m \<and>
        (healthState (mo_state m) = UP \<or> healthState (mo_state m) = MonitorHealth.DOWN)) ms)" for ms
  proof (induction ms)
    case (Cons m ms)
    then show ?case by (cases "healthState (mo_state m)") (simp_all add: warning_state_def)
  qed simp
  have same: "filter p (monitors d) = filter q (monitors d)" if "\<And>m. m \<in> set (monitors d) \<Longrightarrow> p m = q m" for p q
    using that by (intro filter_cong) simp_all
  have "\<And>m. m \<in> set (monitors d) \<Longrightarrow> (active_monitor m \<and> candidate_stale now m) = matches contains_text (Some List_STALE) None now m"
    using late alive by (auto simp: matches_def buildMonitorListWhere_def active_monitor_def overdue_def)
  note stale_rows = same[OF this]
  have "\<And>m. m \<in> set (monitors d) \<Longrightarrow> (active_monitor m \<and> candidate_stale now m \<and>
      (healthState (mo_state m) = UP \<or> healthState (mo_state m) = MonitorHealth.DOWN)) =
      (matches contains_text (Some List_STALE) None now m \<and> (active_with UP m \<or> active_with MonitorHealth.DOWN m))"
    using late alive by (auto simp: matches_def buildMonitorListWhere_def active_monitor_def overdue_def active_with_def)
  note warned_rows = same[OF this]
  have counts: "ds_total s = shown None" "ds_up s = shown (Some List_UP)" "ds_suspect s = shown (Some List_SUSPECT)"
    "ds_down s = shown (Some List_DOWN)" "ds_paused s = shown (Some List_PAUSED)"
    "ds_pending s = shown (Some List_PENDING)" "ds_recovering s = shown (Some List_RECOVERING)"
    unfolding assms(2,3) rows dashboard_summary_def Let_def count_where_def DashboardSummary.select_convs
    by (intro arg_cong[where f = length] filter_cong refl;
        auto simp: matches_def buildMonitorListWhere_def active_monitor_def active_with_def)+
  have "ds_stale s = shown (Some List_STALE)"
    unfolding assms(2,3) rows dashboard_summary_def Let_def count_where_def DashboardSummary.select_convs filter_filter
    by (rule arg_cong[OF stale_rows])
  moreover have "ds_total s = ds_paused s + ds_up s + ds_suspect s + ds_down s + ds_pending s + ds_recovering s"
    using split6[of "monitors d"] by (simp add: assms(2) dashboard_summary_def count_where_def Let_def)
  moreover have "ds_warning s = ds_suspect s + ds_recovering s + ds_pending s +
      length (listed d (\<lambda>m. matches contains_text (Some List_STALE) None now m \<and>
        (active_with UP m \<or> active_with MonitorHealth.DOWN m)))"
    using warn[of "monitors d"] arg_cong[OF warned_rows, where f = length] unfolding rows
    by (simp add: assms(2) dashboard_summary_def count_where_def Let_def)
  ultimately show ?thesis using counts by simp
qed

section \<open>Examples\<close>

definition counted_check :: "time \<Rightarrow> CheckOutcome \<Rightarrow> CheckResult" where
  "counted_check t outcome =
     \<lparr>cr_id = js ''r'', cr_monitorId = None, cr_scheduledCheckId = None, cr_source = CheckSource.SCHEDULED,
      cr_outcome = outcome, cr_configVersion = None, cr_displayUrlSnapshot = [], cr_startedAt = t,
      cr_finishedAt = t, cr_statusCode = None, cr_ttfbMs = None, cr_totalMs = 0, cr_errorType = None,
      cr_errorMessageSafe = None, cr_workerRegion = None, cr_redirectCount = 0,
      cr_responseBytesRead = None, cr_createdAt = t\<rparr>"

definition counted_db :: db where
  "counted_db = empty_db\<lparr>checkResults := [counted_check 0 CheckOutcome.SUCCESS, counted_check 86399999 TARGET_FAILURE,
     counted_check 86400000 CheckOutcome.SUCCESS, counted_check 5 INCONCLUSIVE, counted_check 864000000 CheckOutcome.SUCCESS]\<rparr>"

theorem public_stats_count_each_check_once_witness:
  "map da_availabilityPercent (ps_daily (publicStats (\<lambda>x. x) 864000000 counted_db)) =
     [Some 50, Some 100, None, None, None, None, None, None, None, None]"
proof -
  have small: "int (length (checkResults counted_db)) < 2 ^ 53" by (simp add: counted_db_def)
  have "map (\<lambda>i. availability (\<lambda>x. x) (checks_of_day counted_db 864000000 i)) [0..<10] =
      [Some 50, Some 100, None, None, None, None, None, None, None, None]"
    by code_simp
  with public_stats_count_each_check_once[OF small, of "\<lambda>x. x" 864000000] show ?thesis
    by (simp add: comp_def)
qed

lemma exact_rounds: "rounds (\<lambda>x. x)"
  by (simp add: rounds_def mono_def)

theorem availability_is_percentage_witness:
  "availabilityPercent (\<lambda>x. x) 2 3 \<le> availabilityPercent (\<lambda>x. x) 3 3 \<and> availabilityPercent (\<lambda>x. x) 2 3 = 6667 / 100"
proof
  have all: "\<forall>s s' t. s \<le> s' \<longrightarrow> 0 < t \<longrightarrow> availabilityPercent (\<lambda>x. x) s t \<le> availabilityPercent (\<lambda>x. x) s' t"
    using availability_is_percentage[OF exact_rounds] by blast
  show "availabilityPercent (\<lambda>x. x) 2 3 \<le> availabilityPercent (\<lambda>x. x) 3 3"
    by (rule all[rule_format]) simp_all
  show "availabilityPercent (\<lambda>x. x) 2 3 = 6667 / 100" by code_simp
qed

theorem dashboard_agrees_with_lists_witness:
  "ds_total (dashboard_summary 1000000 down_db) =
     length (listed down_db (matches (\<lambda>_ _. True) None None 1000000)) \<and>
   ds_stale (dashboard_summary 1000000 down_db) =
     length (listed down_db (matches (\<lambda>_ _. True) (Some List_STALE) None 1000000))"
  using dashboard_agrees_with_lists[OF down_db_inv refl refl, of 1000000 "\<lambda>_ _. True"] by simp

end
