(* ===== verification/Spec2Isabelle.thy ===== *)
theory Spec2Isabelle
  imports Monitor_State Scheduling Notification_Policy Secret_Lifecycle Scheduler Network_Guard
    Check_Processor Outbox_Dispatcher Telegram_Adapter Notification_Processor Url_Policy Worker_Health
    Checker_Safety Monitor_Queries Access_Examples Retention_Effects
    Channel_Guarantees Network_Guarantees Dashboard
begin

text \<open>
  A model of LinkAlive, a self-hosted monitor of web addresses, and the theorems that make it
  correct.

  The program. A scheduler (\<open>src/apps/scheduler\<close>) writes a check row for every monitor that is
  due and puts a job for it in a queue. A worker (\<open>src/apps/worker\<close>) takes the job, runs the check
  against the monitored address, and in one transaction stores the result, moves the state of the
  monitor and opens or closes its incident, with the notifications this calls for written to an
  outbox. A dispatcher turns outbox rows into jobs, and the notification processor of a worker
  sends them to Telegram. A guard of the worker probes reference addresses, so that an outage of
  its own network is not counted against the monitors. The API (\<open>src/apps/api\<close>) administers
  accounts, sessions, monitors, channels and the guard, and a retention job clears old rows.
  All of them meet in one database; several processes of each kind may run.

  The model. The database is the record \<open>db\<close> of \<open>Database\<close>, one list of records per table. An
  operation is a function on it; a thrown exception is the left side of a sum, and the transaction
  that throws leaves the database as it was. Processes interleave by transactions, as step
  relations (\<open>monitoring_step\<close>, \<open>worker_step\<close>, \<open>alert_step\<close>, \<open>system_step\<close>, \<open>access_step\<close>), one
  transaction after the other. An operation on accounts and sessions that reads before the
  transaction that writes (the login, the touch of a session, the revocation of one session, a
  file of accounts) is two events of \<open>access_step\<close>, with any others in between: its write waits
  among the pending ones and meets the database as it then is. What overlapping transactions
  that read before either writes can do is shown by \<open>concurrent_demotions_leave_no_admin\<close>.
  Texts are lists of 16-bit units, bytes and hashes machine words, times milliseconds, other
  numbers integers with the checks of the code (\<open>safe_integer\<close>) where it makes them.

  Theories and sources.
  \<^item> \<open>Prelude\<close>, \<open>Json_Values\<close>, \<open>Web_Url\<close>: texts, rows and their bulk operations, JSON, addresses;
    the locale \<open>invariant_system\<close> of event-driven machines.
  \<^item> \<open>Domain_Types\<close>, \<open>Monitor_State\<close>, \<open>Scheduling\<close>, \<open>Notification_Policy\<close>: \<open>packages/domain/src\<close>.
    The state machine is shown equivalent to a description by blocks of consecutive outcomes.
  \<^item> \<open>Database\<close>, \<open>Check_Types\<close>, \<open>Secret_Lifecycle\<close>: the tables of \<open>schema.prisma\<close>, the records of
    a check, tombstones, sealed values, payloads.
  \<^item> \<open>Leases\<close>, \<open>Scheduler\<close>: the interfaces of leases (locales \<open>lease_store\<close>, \<open>row_lease\<close>) and
    \<open>apps/scheduler/src\<close>.
  \<^item> \<open>Url_Policy\<close>, \<open>Destination_Limiter\<close>, \<open>Keyword_Search\<close>, \<open>Http_Checker\<close>, \<open>Checker_Safety\<close>:
    \<open>packages/monitoring/src\<close>. The address policy is compared with numeric ranges, the chunked
    search with a search in the whole text; a check always ends within its limits and, behind the
    interface \<open>destination_guard\<close>, gives back every slot it took.
  \<^item> \<open>Network_Guard\<close>, \<open>Check_Processor\<close>, \<open>Worker_Health\<close>: the worker's checks. A result is stored
    once, and the open incident rows always agree with the state of the monitor.
  \<^item> \<open>Outbox_Dispatcher\<close>, \<open>Telegram_Adapter\<close>, \<open>Notification_Processor\<close>: the way of a notification.
    A recovery waits for its DOWN, a sent row stays sent, and the attempts stay in their ledger
    under every interleaving.
  \<^item> \<open>Api_Core\<close>, \<open>Monitor_Input\<close>, \<open>Monitor_Service\<close>, \<open>Monitor_Lifecycle\<close>, \<open>Monitoring_System\<close>,
    \<open>Monitor_Guarantees\<close>, \<open>Manual_Checks\<close>, \<open>Monitor_Queries\<close>: monitors in \<open>apps/api/src\<close>. The
    operations refine the domain transitions, every change is owned and audited, and the
    consistency of the tables (\<open>service_inv\<close>) holds in every database the processes reach.
  \<^item> \<open>Access_Control\<close>, \<open>Account_Service\<close>, \<open>Access_Guarantees\<close>, \<open>Access_System\<close>, \<open>Access_Use\<close>,
    \<open>Access_Examples\<close>: passwords, sessions, the guard of requests and the accounts. An
    administrator remains and an ended session stays ended under every interleaving; a login that
    is overtaken by a change of its account still opens a session, as the examples show.
  \<^item> \<open>Retention\<close>, \<open>Retention_Guarantees\<close>, \<open>Retention_History\<close>, \<open>Retention_Effects\<close>: the retention
    job of \<open>packages/database/src\<close>; its nine steps are interpretations of \<open>drained_step\<close>.
  \<^item> \<open>Channel_Service\<close>, \<open>Channel_Silence\<close>, \<open>Channel_Guarantees\<close>: notification channels. A disabled
    channel stays silent whatever the other processes do.
  \<^item> \<open>Network_Settings\<close>, \<open>Network_Saves\<close>, \<open>Network_Guarantees\<close>: the administration of the guard. No
    settings are overwritten unseen, and the guard probes accepted references only.
  \<^item> \<open>Dashboard\<close>: the public availability and the counts of the dashboard, compared with direct
    counts of the checks and with the monitor lists.

  Parameters. Code outside the repository is an argument: the URL parser and \<open>isIP\<close> of the
  runtime, DNS and HTTP transport, AES-GCM, scrypt and the hashes, the queue, Redis commands, the
  rounding of floating-point numbers, UUID checks, and whatever gives fresh ids and times. What is
  used of them is a named hypothesis of the theorem, satisfied by a concrete function in its
  witness.

  Bounds and fuel. The recursion of the models follows lists, redirect counts or batch counts of
  the code; \<open>all_pages\<close> takes the number of pages as fuel, and \<open>list_pages_complete\<close> asks for as
  many as the rows fill. The retention theorem shows that the batches of the code are enough, or
  that its report says they were not.

  Not modelled. The React pages and components of \<open>apps/web\<close> and their client of the API (views
  and browser events; their input is checked again by the modelled schemas); the controllers and
  modules of the API (each parses with a modelled schema and calls one modelled operation); the
  reading of the environment, process entry points, timers and client connections; the columns
  \<open>updated_at\<close>, foreign keys and check constraints of the database. Within one request of the
  dashboard the separate reads are taken from one database.
\<close>

end
